(* ===== verification/Prelude.thy ===== *)
theory Prelude
  imports Complex_Main "HOL-Library.Word" "HOL-Library.Log_Nat" "HOL-Library.Sublist"
    "HOL-Library.Multiset"
begin

text \<open>
  What every theory of the development shares: the result type of code that can throw, the
  traversal of a list under such code, association lists as JavaScript's insertion-ordered
  objects and maps, first-match search as Prisma's \<open>findUnique\<close>/\<open>findFirst\<close>, and the
  collections of facts the component proofs pass to \<open>simp\<close> and \<open>auto\<close>.
\<close>

named_theorems js_eval \<open>unfolding equations for the JavaScript primitives\<close>
named_theorems res_simps \<open>splitting equations of the result type\<close>
named_theorems db_simps \<open>what a table operation does to the rows it does not touch\<close>

section \<open>Results of code that can throw\<close>

text \<open>\<open>Inl e\<close> is a thrown error, \<open>Inr v\<close> a returned value.\<close>

definition bind_res :: "'e + 'a \<Rightarrow> ('a \<Rightarrow> 'e + 'b) \<Rightarrow> 'e + 'b" where
  "bind_res r f = (case r of Inl e \<Rightarrow> Inl e | Inr v \<Rightarrow> f v)"

lemma bind_res_simps [simp]:
  "bind_res (Inl e) f = Inl e"
  "bind_res (Inr v) f = f v"
  by (simp_all add: bind_res_def)

lemma bind_res_Inr [res_simps]:
  "bind_res r f = Inr w \<longleftrightarrow> (\<exists>v. r = Inr v \<and> f v = Inr w)"
  by (cases r) auto

lemma bind_res_Inl [res_simps]:
  "bind_res r f = Inl e \<longleftrightarrow> r = Inl e \<or> (\<exists>v. r = Inr v \<and> f v = Inl e)"
  by (cases r) auto

lemma bind_res_cong [fundef_cong]:
  "r = r' \<Longrightarrow> (\<And>v. r' = Inr v \<Longrightarrow> f v = f' v) \<Longrightarrow> bind_res r f = bind_res r' f'"
  by (cases r') auto

text \<open>A \<open>for\<close>-loop that collects one value per element and stops at the first throw.\<close>

fun map_res :: "('a \<Rightarrow> 'e + 'b) \<Rightarrow> 'a list \<Rightarrow> 'e + 'b list" where
  "map_res f [] = Inr []"
| "map_res f (x # xs) = bind_res (f x) (\<lambda>y. bind_res (map_res f xs) (\<lambda>ys. Inr (y # ys)))"

lemma map_res_cong [fundef_cong]:
  "xs = ys \<Longrightarrow> (\<And>x. x \<in> set ys \<Longrightarrow> f x = g x) \<Longrightarrow> map_res f xs = map_res g ys"
  by (induction xs arbitrary: ys) auto

lemma map_res_Inr:
  "map_res f xs = Inr ys \<longleftrightarrow> list_all2 (\<lambda>x y. f x = Inr y) xs ys"
  by (induction xs arbitrary: ys) (auto simp: bind_res_Inr list_all2_Cons1)

lemma map_res_total:
  "(\<And>x. x \<in> set xs \<Longrightarrow> f x = Inr (g x)) \<Longrightarrow> map_res f xs = Inr (map g xs)"
  by (induction xs) auto

section \<open>Insertion-ordered dictionaries\<close>

text \<open>
  Assigning a key of a JavaScript object or \<open>Map\<close>: an existing key keeps its place, a new
  one goes to the end.
\<close>

fun put :: "'k \<Rightarrow> 'v \<Rightarrow> ('k \<times> 'v) list \<Rightarrow> ('k \<times> 'v) list" where
  "put k v [] = [(k, v)]"
| "put k v ((k', v') # ps) = (if k = k' then (k, v) # ps else (k', v') # put k v ps)"

lemma map_of_put [simp]: "map_of (put k v ps) = (map_of ps)(k \<mapsto> v)"
  by (induction k v ps rule: put.induct) auto

lemma set_keys_put [simp]: "fst ` set (put k v ps) = insert k (fst ` set ps)"
  by (induction k v ps rule: put.induct) auto

lemma put_new: "k \<notin> fst ` set ps \<Longrightarrow> put k v ps = ps @ [(k, v)]"
  by (induction k v ps rule: put.induct) auto

lemma distinct_put [simp]: "distinct (map fst (put k v ps)) = distinct (map fst ps)"
proof (induction k v ps rule: put.induct)
  case (2 k v k' v' ps)
  have "set (map fst (put k v ps)) = insert k (set (map fst ps))"
    using set_keys_put [of k v ps] by simp
  with 2 show ?case by auto
qed simp

section \<open>Rows of a table\<close>

text \<open>The first row that satisfies a condition, as a unique lookup returns it.\<close>

fun find_row :: "('r \<Rightarrow> bool) \<Rightarrow> 'r list \<Rightarrow> 'r option" where
  "find_row P [] = None"
| "find_row P (r # rs) = (if P r then Some r else find_row P rs)"

lemma find_row_Some: "find_row P rs = Some r \<Longrightarrow> r \<in> set rs \<and> P r"
  by (induction rs) (auto split: if_splits)

lemma find_row_None: "find_row P rs = None \<longleftrightarrow> (\<forall>r \<in> set rs. \<not> P r)"
  by (induction rs) auto

lemma find_row_append [simp]:
  "find_row P (rs @ rs') = (case find_row P rs of None \<Rightarrow> find_row P rs' | Some r \<Rightarrow> Some r)"
  by (induction rs) auto

text \<open>Updating every row that satisfies a condition (\<open>updateMany\<close>; \<open>update\<close> by a key).\<close>

definition update_rows :: "('r \<Rightarrow> bool) \<Rightarrow> ('r \<Rightarrow> 'r) \<Rightarrow> 'r list \<Rightarrow> 'r list" where
  "update_rows P f = map (\<lambda>r. if P r then f r else r)"

lemma length_update_rows [simp, db_simps]: "length (update_rows P f rs) = length rs"
  by (simp add: update_rows_def)

lemma update_rows_Nil [simp]: "update_rows P f [] = []"
  and update_rows_Cons [simp]:
    "update_rows P f (r # rs) = (if P r then f r else r) # update_rows P f rs"
  and update_rows_append [simp]:
    "update_rows P f (rs @ rs') = update_rows P f rs @ update_rows P f rs'"
  by (simp_all add: update_rows_def)

lemma set_update_rows: "set (update_rows P f rs) = (\<lambda>r. if P r then f r else r) ` set rs"
  by (simp add: update_rows_def)

lemma map_update_rows [db_simps]:
  "(\<And>r. P r \<Longrightarrow> g (f r) = g r) \<Longrightarrow> map g (update_rows P f rs) = map g rs"
  by (induction rs) auto

section \<open>Lists\<close>

lemma list_all2_nthD_len: "list_all2 P xs ys \<Longrightarrow> length xs = length ys"
  by (rule list_all2_lengthD)

lemma sum_list_map_of_int: "sum_list (map (\<lambda>x. of_int (f x)) xs) = of_int (sum_list (map f xs))"
  by (induction xs) auto

lemma foldl_add_sum:
  fixes f :: "'a \<Rightarrow> 'b::comm_monoid_add"
  shows "foldl (\<lambda>a x. a + f x) a xs = a + sum_list (map f xs)"
  by (induction xs arbitrary: a) (auto simp: add.assoc)

end
