(* ===== verification/JsNumber.thy ===== *)
theory JsNumber
  imports Prelude
begin

text \<open>
  JavaScript's \<open>number\<close>: the IEEE 754 double. A finite double is the rational it denotes, and
  every arithmetic result is rounded to the nearest double, ties to even, with the gradual
  underflow at \<open>2 powi -1074\<close> and the overflow at \<open>2 ^ 1024\<close>. The two zeros are one value here:
  the program never divides by a computed number and compares with \<open>===\<close>, \<open>\<le>\<close> and \<open><\<close>, which
  do not tell them apart.
\<close>

datatype jsnum = NaN | PInf | NInf | Fin rat

section \<open>Rounding to the nearest double\<close>

text \<open>The exponent \<open>k\<close> with \<open>b powi k \<le> x < b powi (k + 1)\<close>, for positive \<open>x\<close>.\<close>

definition ilog :: "nat \<Rightarrow> rat \<Rightarrow> int" where
  "ilog b x = (let (p, q) = quotient_of x; k = int (floorlog b (nat p)) - int (floorlog b (nat q))
               in if x < of_nat b powi k then k - 1 else k)"

abbreviation ilog2 :: "rat \<Rightarrow> int" where
  "ilog2 \<equiv> ilog 2"

definition round_even :: "rat \<Rightarrow> int" where
  "round_even y = (let f = \<lfloor>y\<rfloor>; d = y - of_int f
                   in if d < 1 / 2 then f else if 1 / 2 < d then f + 1
                      else if even f then f else f + 1)"

definition fl_rat :: "rat \<Rightarrow> rat" where
  "fl_rat x = (if x = 0 then 0
               else let e = max (ilog2 \<bar>x\<bar> - 52) (- 1074)
                    in of_int (round_even (x / 2 powi e)) * 2 powi e)"

text \<open>The first power of two beyond the largest finite double.\<close>

definition num_limit :: rat where
  "num_limit = 2 ^ 1024"

definition to_num :: "rat \<Rightarrow> jsnum" where
  "to_num x = (let y = fl_rat x
               in if num_limit \<le> y then PInf else if y \<le> - num_limit then NInf else Fin y)"

abbreviation num_of_int :: "int \<Rightarrow> jsnum" where
  "num_of_int n \<equiv> Fin (of_int n)"

lemma floorlog_powi:
  assumes "1 < b" and "0 < p"
  shows "(of_nat b :: rat) powi (int (floorlog b (nat p)) - 1) \<le> of_int p"
    and "of_int p < (of_nat b :: rat) powi (int (floorlog b (nat p)))"
proof -
  define l where "l = floorlog b (nat p)"
  have *: "b ^ (l - 1) \<le> nat p" "nat p < b ^ l"
    using floorlog_bounds [of "nat p" b] assms by (auto simp: l_def)
  have l: "0 < l" using *(2) assms(2) by (cases l) auto
  have p: "of_int p = (of_nat (nat p) :: rat)" using assms(2) by simp
  have "(of_nat b :: rat) powi (int l - 1) = of_nat (b ^ (l - 1))"
    using l by (simp add: power_int_def nat_diff_distrib)
  also have "\<dots> \<le> of_int p" using *(1) by (simp only: p of_nat_le_iff)
  finally show "(of_nat b :: rat) powi (int l - 1) \<le> of_int p" .
  have "of_int p < (of_nat (b ^ l) :: rat)" using *(2) by (simp only: p of_nat_less_iff)
  also have "\<dots> = of_nat b powi (int l)" by simp
  finally show "of_int p < (of_nat b :: rat) powi (int l)" .
qed

lemma ilog_bounds:
  assumes "1 < b" and "0 < x"
  shows "of_nat b powi (ilog b x) \<le> x" and "x < of_nat b powi (ilog b x + 1)"
proof -
  obtain p q where pq: "quotient_of x = (p, q)" by fastforce
  have q: "0 < q" and x: "x = of_int p / of_int q"
    using quotient_of_denom_pos [OF pq] quotient_of_div [OF pq] by auto
  have p: "0 < p" using assms(2) x q by (simp add: zero_less_divide_iff)
  define lp lq where "lp = int (floorlog b (nat p))" and "lq = int (floorlog b (nat q))"
  define k where "k = lp - lq"
  let ?b = "of_nat b :: rat"
  have b0: "?b \<noteq> 0" "0 < ?b" using assms(1) by auto
  have P: "?b powi (lp - 1) \<le> of_int p" "of_int p < ?b powi lp"
    using floorlog_powi [OF assms(1) p] by (auto simp: lp_def)
  have Q: "?b powi (lq - 1) \<le> of_int q" "of_int q < ?b powi lq"
    using floorlog_powi [OF assms(1) q] by (auto simp: lq_def)
  have q0: "(0::rat) < of_int q" using q by simp
  have lo: "?b powi (k - 1) \<le> x"
  proof -
    have "?b powi (k - 1) * of_int q \<le> ?b powi (k - 1) * ?b powi lq"
      using Q(2) b0 by (intro mult_left_mono) auto
    also have "\<dots> = ?b powi (lp - 1)" using b0 by (simp add: k_def power_int_add [symmetric])
    also have "\<dots> \<le> of_int p" by (rule P(1))
    finally show ?thesis using q0 x by (simp add: pos_le_divide_eq)
  qed
  have hi: "x < ?b powi (k + 1)"
  proof -
    have "of_int p < ?b powi lp" by (rule P(2))
    also have "\<dots> = ?b powi (k + 1) * ?b powi (lq - 1)"
      using b0 by (simp add: k_def power_int_add [symmetric])
    also have "\<dots> \<le> ?b powi (k + 1) * of_int q"
      using Q(1) b0 by (intro mult_left_mono) auto
    finally show ?thesis using q0 x by (simp add: pos_divide_less_eq)
  qed
  have i: "ilog b x = (if x < ?b powi k then k - 1 else k)"
    by (simp add: ilog_def pq k_def lp_def lq_def)
  show "?b powi (ilog b x) \<le> x" and "x < ?b powi (ilog b x + 1)"
    using lo hi by (auto simp: i)
qed

lemmas ilog2_bounds = ilog_bounds [of 2, simplified]

lemma powi2_less_iff: "(2::rat) powi m < 2 powi n \<longleftrightarrow> m < n"
proof
  assume "m < n"
  then show "(2::rat) powi m < 2 powi n" by (intro power_int_strict_increasing) auto
next
  assume *: "(2::rat) powi m < 2 powi n"
  show "m < n"
  proof (rule ccontr)
    assume "\<not> m < n"
    then have "(2::rat) powi n \<le> 2 powi m" by (intro power_int_increasing) auto
    with * show False by simp
  qed
qed

lemma powi2_le_iff: "(2::rat) powi m \<le> 2 powi n \<longleftrightarrow> m \<le> n"
  using powi2_less_iff [of n m] by (simp add: linorder_not_less [symmetric])

lemma powi2_pos [simp]: "(0::rat) < 2 powi k"
  by (rule zero_less_power_int) simp

lemma ilog2_ge:
  assumes "2 powi k \<le> x"
  shows "k \<le> ilog2 x"
proof -
  have "0 < x" using assms powi2_pos by (rule less_le_trans [rotated])
  then have "2 powi k < (2::rat) powi (ilog2 x + 1)"
    using assms ilog2_bounds(2) by (blast intro: le_less_trans)
  then show ?thesis by (simp add: powi2_less_iff)
qed

lemma ilog2_less:
  assumes "0 < x" and "x < 2 powi k"
  shows "ilog2 x < k"
proof -
  have "2 powi (ilog2 x) < (2::rat) powi k"
    using ilog2_bounds(1) [OF assms(1)] assms(2) by (rule le_less_trans)
  then show ?thesis by (simp add: powi2_less_iff)
qed

lemma round_even_error: "\<bar>of_int (round_even y) - y\<bar> \<le> 1 / 2"
proof -
  have "of_int \<lfloor>y\<rfloor> \<le> y" "y < of_int \<lfloor>y\<rfloor> + 1" by linarith+
  moreover define d where "d = y - of_int \<lfloor>y\<rfloor>"
  ultimately have d: "0 \<le> d" "d < 1" "y = of_int \<lfloor>y\<rfloor> + d" by auto
  have "of_int (round_even y) - y = - d \<and> d \<le> 1 / 2 \<or> of_int (round_even y) - y = 1 - d \<and> 1 / 2 \<le> d"
    unfolding round_even_def Let_def d_def [symmetric] using d by (auto simp: not_less)
  with d show ?thesis by auto
qed

lemma round_even_of_int [simp]: "round_even (of_int n) = n"
  by (simp add: round_even_def)

lemma round_even_ge: "of_int n \<le> y \<Longrightarrow> n \<le> round_even y"
proof -
  assume "of_int n \<le> y"
  then have "n \<le> \<lfloor>y\<rfloor>" by (simp add: le_floor_iff)
  moreover have "\<lfloor>y\<rfloor> \<le> round_even y" by (simp add: round_even_def Let_def)
  ultimately show ?thesis by simp
qed

lemma fl_rat_0 [simp]: "fl_rat 0 = 0"
  by (simp add: fl_rat_def)

lemma fl_rat_error:
  assumes "2 powi (- 1022) \<le> \<bar>x\<bar>"
  shows "\<bar>fl_rat x - x\<bar> \<le> \<bar>x\<bar> / 2 ^ 53"
proof -
  have x0: "0 < \<bar>x\<bar>" using powi2_pos assms by (rule less_le_trans)
  define e where "e = ilog2 \<bar>x\<bar> - 52"
  have "- 1022 \<le> ilog2 \<bar>x\<bar>" using assms by (rule ilog2_ge)
  then have m: "max (ilog2 \<bar>x\<bar> - 52) (- 1074) = e" by (simp add: e_def)
  let ?p = "(2::rat) powi e"
  have p: "0 < ?p" by simp
  have f: "fl_rat x = of_int (round_even (x / ?p)) * ?p"
    using x0 m by (simp add: fl_rat_def)
  have "fl_rat x - x = (of_int (round_even (x / ?p)) - x / ?p) * ?p"
    using p by (simp add: f field_simps)
  then have "\<bar>fl_rat x - x\<bar> = \<bar>of_int (round_even (x / ?p)) - x / ?p\<bar> * ?p"
    using p by (simp add: abs_mult)
  also have "\<dots> \<le> 1 / 2 * ?p"
    using p round_even_error by (intro mult_right_mono) auto
  also have "\<dots> = 2 powi (ilog2 \<bar>x\<bar>) / 2 ^ 53"
    by (simp add: e_def power_int_diff)
  also have "\<dots> \<le> \<bar>x\<bar> / 2 ^ 53"
    using ilog2_bounds(1) [OF x0] by (intro divide_right_mono) auto
  finally show ?thesis .
qed

lemma fl_rat_of_int [simp]:
  assumes "\<bar>n\<bar> \<le> 2 ^ 53"
  shows "fl_rat (of_int n) = of_int n"
proof (cases "n = 0")
  case False
  let ?x = "\<bar>of_int n\<bar> :: rat"
  have x0: "0 < ?x" using False by simp
  have "1 \<le> \<bar>n\<bar>" using False by linarith
  then have "1 \<le> ?x" using of_int_le_iff [of 1 "\<bar>n\<bar>", where 'a = rat] by simp
  then have ge: "0 \<le> ilog2 ?x" using False by (intro ilog2_ge) simp
  have up: "?x \<le> 2 ^ 53"
    using assms of_int_le_iff [of "\<bar>n\<bar>" "2 ^ 53", where 'a = rat] by simp
  have "ilog2 ?x < 54"
    using up x0 by (intro ilog2_less) (simp_all add: power_int_def)
  define e where "e = ilog2 ?x - 52"
  have m: "max (ilog2 ?x - 52) (- 1074) = e" using ge by (simp add: e_def)
  have "\<exists>k. of_int n / 2 powi e = (of_int k :: rat)"
  proof (cases "e \<le> 0")
    case True
    then have "(2::rat) powi e = inverse (2 ^ nat (- e))"
      by (cases "e = 0") (auto simp: power_int_def power_one_over inverse_eq_divide)
    then have "of_int n / 2 powi e = (of_int (n * 2 ^ nat (- e)) :: rat)"
      by (simp only: divide_inverse inverse_inverse_eq of_int_mult of_int_power of_int_numeral)
    then show ?thesis by blast
  next
    case False
    then have e: "e = 1" using \<open>ilog2 ?x < 54\<close> by (simp add: e_def)
    then have "2 powi 53 \<le> ?x" using ilog2_bounds(1) [OF x0] by (simp add: e_def)
    then have "?x = 2 ^ 53" using up by (simp add: power_int_def)
    then have "\<bar>n\<bar> = 2 ^ 53"
      using of_int_eq_iff [of "\<bar>n\<bar>" "2 ^ 53", where 'a = rat] by simp
    then have "n = 2 * 2 ^ 52 \<or> n = 2 * - (2 ^ 52)" by simp arith
    then obtain k where "n = 2 * k" by blast
    then show ?thesis using e by auto
  qed
  then obtain k where k: "of_int n / 2 powi e = (of_int k :: rat)" by blast
  then have "fl_rat (of_int n) = of_int k * 2 powi e"
    using False m by (simp add: fl_rat_def)
  also have "\<dots> = of_int n" using k by (simp add: field_simps)
  finally show ?thesis .
qed simp

lemma two53_lt_limit: "2 ^ 53 < num_limit"
  unfolding num_limit_def by (rule power_strict_increasing) auto

lemma num_limit_pos [simp]: "0 < num_limit" "\<not> num_limit \<le> 0"
  by (simp_all add: num_limit_def)

lemma to_num_of_int [simp]:
  assumes "\<bar>n\<bar> \<le> 2 ^ 53"
  shows "to_num (of_int n) = num_of_int n"
proof -
  have "\<bar>of_int n :: rat\<bar> \<le> 2 ^ 53"
    using assms of_int_le_iff [of "\<bar>n\<bar>" "2 ^ 53", where 'a = rat] by simp
  then have "\<bar>of_int n :: rat\<bar> < num_limit" using two53_lt_limit by (rule le_less_trans)
  then show ?thesis using assms by (auto simp: to_num_def Let_def abs_less_iff not_le)
qed

text \<open>How \<open>to_num\<close> is evaluated: whole numbers up to 2 ^ 53 need no rounding.\<close>

lemma to_num_code [code]:
  "to_num q = (if q = of_int \<lfloor>q\<rfloor> \<and> \<bar>q\<bar> \<le> 2 ^ 53 then Fin q
     else let y = fl_rat q in if num_limit \<le> y then PInf else if y \<le> - num_limit then NInf else Fin y)"
proof (cases "q = of_int \<lfloor>q\<rfloor> \<and> \<bar>q\<bar> \<le> 2 ^ 53")
  case True
  then have "\<bar>of_int \<lfloor>q\<rfloor> :: rat\<bar> \<le> of_int (2 ^ 53)" by simp
  then have "\<bar>\<lfloor>q\<rfloor>\<bar> \<le> 2 ^ 53" by (simp only: of_int_abs [symmetric] of_int_le_iff)
  then show ?thesis using True to_num_of_int [of "\<lfloor>q\<rfloor>"] by simp
qed (simp only: to_num_def if_False)

lemma to_num_0 [simp]: "to_num 0 = Fin 0"
  using to_num_of_int [of 0] by simp

lemma to_num_numeral [simp]:
  "(numeral k :: int) \<le> 2 ^ 53 \<Longrightarrow> to_num (numeral k) = Fin (numeral k)"
  using to_num_of_int [of "numeral k"] by simp

lemma to_num_1 [simp]: "to_num 1 = Fin 1"
  using to_num_of_int [of 1] by simp

text \<open>The range of dollar and cent amounts: rounding is a relative error of at most \<open>2 powi -53\<close>.\<close>

lemma fl_rat_near:
  assumes "1 / 1024 \<le> \<bar>x\<bar>"
  shows "\<bar>fl_rat x - x\<bar> \<le> \<bar>x\<bar> / 2 ^ 53"
proof (rule fl_rat_error)
  have "(2::rat) powi (- 1022) \<le> 2 powi (- 10)" by (simp only: powi2_le_iff)
  also have "(2::rat) powi (- 10) = 1 / 1024"
    by (simp add: power_int_def power_one_over)
  finally show "2 powi (- 1022) \<le> \<bar>x\<bar>" using assms by linarith
qed

lemma to_num_near:
  assumes "1 / 1024 \<le> \<bar>x\<bar>" and "\<bar>x\<bar> \<le> 2 ^ 52"
  shows "to_num x = Fin (fl_rat x)"
proof -
  have "\<bar>fl_rat x - x\<bar> \<le> \<bar>x\<bar> / 2 ^ 53" by (rule fl_rat_near) fact
  also have "\<dots> \<le> 1" using assms(2) by simp
  finally have "\<bar>fl_rat x\<bar> \<le> 2 ^ 52 + 1" using assms(2) by linarith
  also have "\<dots> < (2::rat) ^ 53" by simp
  finally have "\<bar>fl_rat x\<bar> < num_limit" using two53_lt_limit by linarith
  then show ?thesis by (auto simp: to_num_def Let_def abs_less_iff not_le)
qed

section \<open>Operators and the \<open>Math\<close> functions the program calls\<close>

fun num_sign :: "jsnum \<Rightarrow> rat" where
  "num_sign NaN = 0"
| "num_sign PInf = 1"
| "num_sign NInf = - 1"
| "num_sign (Fin x) = sgn x"

fun num_neg :: "jsnum \<Rightarrow> jsnum" where
  "num_neg NaN = NaN"
| "num_neg PInf = NInf"
| "num_neg NInf = PInf"
| "num_neg (Fin x) = Fin (- x)"

fun num_add :: "jsnum \<Rightarrow> jsnum \<Rightarrow> jsnum" where
  "num_add (Fin x) (Fin y) = to_num (x + y)"
| "num_add NaN b = NaN"
| "num_add PInf b = (if b = NaN \<or> b = NInf then NaN else PInf)"
| "num_add NInf b = (if b = NaN \<or> b = PInf then NaN else NInf)"
| "num_add (Fin x) b = b"

definition num_sub :: "jsnum \<Rightarrow> jsnum \<Rightarrow> jsnum" where
  "num_sub a b = num_add a (num_neg b)"

definition num_inf :: "rat \<Rightarrow> jsnum" where
  "num_inf s = (if s = 0 then NaN else if 0 < s then PInf else NInf)"

fun num_mul :: "jsnum \<Rightarrow> jsnum \<Rightarrow> jsnum" where
  "num_mul (Fin x) (Fin y) = to_num (x * y)"
| "num_mul NaN b = NaN"
| "num_mul a b = num_inf (num_sign a * num_sign b)"

text \<open>Division by a positive constant of the source.\<close>

fun num_div_by :: "jsnum \<Rightarrow> rat \<Rightarrow> jsnum" where
  "num_div_by (Fin x) d = to_num (x / d)"
| "num_div_by a d = a"

text \<open>The relational operators are false as soon as one side is \<open>NaN\<close>.\<close>

fun num_lt :: "jsnum \<Rightarrow> jsnum \<Rightarrow> bool" where
  "num_lt (Fin x) (Fin y) = (x < y)"
| "num_lt (Fin x) b = (b = PInf)"
| "num_lt NInf b = (b \<noteq> NaN \<and> b \<noteq> NInf)"
| "num_lt a b = False"

definition num_eq :: "jsnum \<Rightarrow> jsnum \<Rightarrow> bool" where
  "num_eq a b = (a = b \<and> a \<noteq> NaN)"

definition num_le :: "jsnum \<Rightarrow> jsnum \<Rightarrow> bool" where
  "num_le a b = (num_lt a b \<or> num_eq a b)"

fun math_round :: "jsnum \<Rightarrow> jsnum" where
  "math_round (Fin x) = Fin (of_int \<lfloor>x + 1 / 2\<rfloor>)"
| "math_round a = a"

definition math_max :: "jsnum \<Rightarrow> jsnum \<Rightarrow> jsnum" where
  "math_max a b = (if a = NaN \<or> b = NaN then NaN else if num_lt a b then b else a)"

definition math_abs :: "jsnum \<Rightarrow> jsnum" where
  "math_abs a = (if num_lt a (Fin 0) then num_neg a else a)"

fun is_finite_num :: "jsnum \<Rightarrow> bool" where
  "is_finite_num (Fin x) = True"
| "is_finite_num _ = False"

fun is_integer_num :: "jsnum \<Rightarrow> bool" where
  "is_integer_num (Fin x) = (x = of_int \<lfloor>x\<rfloor>)"
| "is_integer_num _ = False"

lemma math_round_of_int [simp]: "math_round (num_of_int n) = num_of_int n"
proof -
  have "\<lfloor>(of_int n :: rat) + 1 / 2\<rfloor> = n" by (rule floor_unique) auto
  then show ?thesis by (simp add: math_round.simps)
qed

declare math_round.simps(1) [simp del]

lemma math_round_numeral [simp]:
  "math_round (Fin (numeral k)) = Fin (numeral k)" "math_round (Fin (- numeral k)) = Fin (- numeral k)"
  "math_round (Fin 0) = Fin 0" "math_round (Fin 1) = Fin 1"
  using math_round_of_int [of "numeral k"] math_round_of_int [of "- numeral k"]
    math_round_of_int [of 0] math_round_of_int [of 1] by simp_all

lemma num_add_of_int [simp]:
  "\<bar>m + n\<bar> \<le> 2 ^ 53 \<Longrightarrow> num_add (num_of_int m) (num_of_int n) = num_of_int (m + n)"
  using to_num_of_int [of "m + n"] by simp

lemma num_sub_of_int [simp]:
  "\<bar>m - n\<bar> \<le> 2 ^ 53 \<Longrightarrow> num_sub (num_of_int m) (num_of_int n) = num_of_int (m - n)"
  using to_num_of_int [of "m - n"] by (simp add: num_sub_def)

lemma num_lt_of_int [simp]: "num_lt (num_of_int m) (num_of_int n) \<longleftrightarrow> m < n"
  by simp

lemma num_eq_of_int [simp]: "num_eq (num_of_int m) (num_of_int n) \<longleftrightarrow> m = n"
  by (simp add: num_eq_def)

lemma num_lt_irrefl [simp]: "\<not> num_lt a a"
  by (cases a) auto

lemma num_lt_Fin0 [simp]:
  "num_lt (Fin 0) (Fin x) \<longleftrightarrow> 0 < x" "num_lt (Fin x) (Fin 0) \<longleftrightarrow> x < 0"
  by auto

lemma math_max_0_of_int [simp]: "math_max (num_of_int n) (Fin 0) = num_of_int (max n 0)"
  by (auto simp: math_max_def max_def)

lemma is_integer_numE:
  assumes "is_integer_num a" obtains n where "a = num_of_int n"
  using assms by (cases a) auto

lemma is_integer_num_of_int [simp]: "is_integer_num (num_of_int n)"
  by simp

lemma round_near_int:
  assumes "\<bar>x - of_int n\<bar> < (1 / 2 :: rat)"
  shows "math_round (Fin x) = num_of_int n"
proof -
  have "of_int n \<le> x + 1 / 2" "x + 1 / 2 < of_int n + 1"
    using assms unfolding abs_less_iff by linarith+
  then have "\<lfloor>x + 1 / 2\<rfloor> = n" by (rule floor_unique)
  then show ?thesis by (simp add: math_round.simps)
qed

section \<open>The numeric order\<close>

text \<open>
  The order a numeric comparator such as \<open>(a, b) => a - b\<close> sorts by; \<open>NaN\<close>, which no comparator
  orders, is put last.
\<close>

fun num_class :: "jsnum \<Rightarrow> nat" where
  "num_class NInf = 0"
| "num_class (Fin x) = 1"
| "num_class PInf = 2"
| "num_class NaN = 3"

fun num_val :: "jsnum \<Rightarrow> rat" where
  "num_val (Fin x) = x"
| "num_val a = 0"

instantiation jsnum :: linorder
begin

definition less_eq_jsnum :: "jsnum \<Rightarrow> jsnum \<Rightarrow> bool" where
  "less_eq_jsnum a b = (num_class a < num_class b \<or> num_class a = num_class b \<and> num_val a \<le> num_val b)"

definition less_jsnum :: "jsnum \<Rightarrow> jsnum \<Rightarrow> bool" where
  "less_jsnum a b = (num_class a < num_class b \<or> num_class a = num_class b \<and> num_val a < num_val b)"

instance
proof
  fix a b :: jsnum
  assume "a \<le> b" "b \<le> a"
  then show "a = b" by (cases a; cases b) (auto simp: less_eq_jsnum_def)
qed (auto simp: less_eq_jsnum_def less_jsnum_def)

end

lemma less_jsnum_num_lt: "a \<noteq> NaN \<Longrightarrow> b \<noteq> NaN \<Longrightarrow> a < b \<longleftrightarrow> num_lt a b"
  by (cases a; cases b) (auto simp: less_jsnum_def)

end
