(* ===== verification/JsString.thy ===== *)
theory JsString
  imports JsNumber "HOL-Library.List_Lexorder"
begin

text \<open>
  JavaScript strings: lists of 16-bit code units, with the library calls the program makes
  (\<open>trim\<close>, \<open>split\<close>, \<open>join\<close>, \<open>padStart\<close>, \<open>slice\<close>, \<open>startsWith\<close>, \<open>includes\<close>, the default sort order) and the two
  conversions between strings and numbers, \<open>String(n)\<close> and \<open>Number(s)\<close>.
\<close>

type_synonym cu = "16 word"
type_synonym jstr = "cu list"

section \<open>Literals\<close>

abbreviation cu :: "char \<Rightarrow> cu" where
  "cu c \<equiv> of_char c"

definition js :: "string \<Rightarrow> jstr" where
  "js s = map cu s"

text \<open>The quote characters, which a HOL string literal cannot end with.\<close>

abbreviation sq :: jstr where "sq \<equiv> [0x27]"
abbreviation dq :: jstr where "dq \<equiv> [0x22]"

lemma unat_cu: "unat (cu c) = (of_char c :: nat)"
proof -
  have "(of_char c :: nat) < 65536" by (rule less_trans [OF nat_of_char_less_256]) simp
  then have "unat (of_nat (of_char c) :: cu) = of_char c"
    by (simp add: unat_of_nat)
  then show ?thesis by (simp only: of_nat_of_char)
qed

lemma cu_eq_iff: "cu c = cu d \<longleftrightarrow> c = d"
  by (metis unat_cu of_char_eq_iff)

lemma js_eq_iff [simp]: "js s = js t \<longleftrightarrow> s = t"
  unfolding js_def by (rule inj_map_eq_map) (rule injI, simp only: cu_eq_iff)

lemma js_Nil [simp]: "js [] = []" "js s = [] \<longleftrightarrow> s = []" "[] = js s \<longleftrightarrow> s = []"
  by (auto simp: js_def)

section \<open>Character classes\<close>

definition is_digit :: "cu \<Rightarrow> bool" where
  "is_digit c = (cu CHR ''0'' \<le> c \<and> c \<le> cu CHR ''9'')"

definition is_lower :: "cu \<Rightarrow> bool" where
  "is_lower c = (cu CHR ''a'' \<le> c \<and> c \<le> cu CHR ''z'')"

definition is_upper :: "cu \<Rightarrow> bool" where
  "is_upper c = (cu CHR ''A'' \<le> c \<and> c \<le> cu CHR ''Z'')"

text \<open>What \<open>trim\<close> removes and \<open>\s\<close> matches: the white space and line terminators.\<close>

definition is_ws :: "cu \<Rightarrow> bool" where
  "is_ws c = (9 \<le> c \<and> c \<le> 13 \<or> c = 32 \<or> c = 0xA0 \<or> c = 0x1680 \<or> 0x2000 \<le> c \<and> c \<le> 0x200A
     \<or> c = 0x2028 \<or> c = 0x2029 \<or> c = 0x202F \<or> c = 0x205F \<or> c = 0x3000 \<or> c = 0xFEFF)"

section \<open>Library calls on strings\<close>

definition js_trim :: "jstr \<Rightarrow> jstr" where
  "js_trim s = rev (dropWhile is_ws (rev (dropWhile is_ws s)))"

definition is_blank :: "jstr \<Rightarrow> bool" where
  "is_blank s = (js_trim s = [])"

fun js_split :: "cu \<Rightarrow> jstr \<Rightarrow> jstr list" where
  "js_split d [] = [[]]"
| "js_split d (c # cs) =
     (if c = d then [] # js_split d cs
      else (case js_split d cs of [] \<Rightarrow> [[c]] | p # ps \<Rightarrow> (c # p) # ps))"

fun js_join :: "jstr \<Rightarrow> jstr list \<Rightarrow> jstr" where
  "js_join d [] = []"
| "js_join d [s] = s"
| "js_join d (s # t # ss) = s @ d @ js_join d (t # ss)"

definition pad_start :: "nat \<Rightarrow> cu \<Rightarrow> jstr \<Rightarrow> jstr" where
  "pad_start n c s = replicate (n - length s) c @ s"

definition starts_with :: "jstr \<Rightarrow> jstr \<Rightarrow> bool" where
  "starts_with p s = (take (length p) s = p)"

fun js_includes :: "jstr \<Rightarrow> jstr \<Rightarrow> bool" where
  "js_includes p [] = (p = [])"
| "js_includes p (c # cs) = (starts_with p (c # cs) \<or> js_includes p cs)"

definition to_lower :: "jstr \<Rightarrow> jstr" where
  "to_lower = map (\<lambda>c. if is_upper c then c + 32 else c)"

lemma is_blank_Nil [simp]: "is_blank []"
  by (simp add: is_blank_def js_trim_def)

lemma is_blank_iff: "is_blank s \<longleftrightarrow> (\<forall>c \<in> set s. is_ws c)"
proof -
  have "is_blank s \<longleftrightarrow> (\<forall>c \<in> set (dropWhile is_ws s). is_ws c)"
    by (simp add: is_blank_def js_trim_def dropWhile_eq_Nil_conv)
  also have "\<dots> \<longleftrightarrow> (\<forall>c \<in> set s. is_ws c)"
    by (metis dropWhile_eq_Nil_conv hd_dropWhile list.set_sel(1) set_dropWhileD)
  finally show ?thesis .
qed

lemma js_split_not_Nil [simp]: "js_split d s \<noteq> []"
  by (induction s) (auto split: list.splits)

lemma js_join_split: "js_join [d] (js_split d s) = s"
proof (induction s)
  case (Cons c cs)
  obtain p ps where "js_split d cs = p # ps" by (cases "js_split d cs") auto
  with Cons show ?case by (cases ps) auto
qed simp

lemma js_split_no_sep: "p \<in> set (js_split d s) \<Longrightarrow> d \<notin> set p"
  by (induction s arbitrary: p) (auto split: if_splits list.splits)

section \<open>Numbers to strings\<close>

text \<open>Decimal digits, most significant first.\<close>

fun nat_str :: "nat \<Rightarrow> jstr" where
  "nat_str n = (if n < 10 then [cu CHR ''0'' + of_nat n]
                else nat_str (n div 10) @ [cu CHR ''0'' + of_nat (n mod 10)])"

declare nat_str.simps [simp del]

definition int_str :: "int \<Rightarrow> jstr" where
  "int_str i = (if i < 0 then js ''-'' @ nat_str (nat (- i)) else nat_str (nat i))"

text \<open>
  The digits \<open>s\<close> and the exponent \<open>n\<close> of ECMAScript's \<open>Number::toString\<close>: the fewest digits
  \<open>k\<close> such that \<open>s * 10 powi (n - k)\<close> rounds to the double \<open>x\<close>, and of two candidates of that
  length the one closer to \<open>x\<close>. Seventeen digits always suffice for a double.
\<close>

definition digit_candidate :: "rat \<Rightarrow> nat \<Rightarrow> int option" where
  "digit_candidate x k =
     (let p = 10 powi (ilog 10 x + 1 - int k); f = \<lfloor>x / p\<rfloor>;
          down = fl_rat (of_int f * p) = x; up = fl_rat (of_int (f + 1) * p) = x;
          dd = x - of_int f * p; du = of_int (f + 1) * p - x
      in if down \<and> (\<not> up \<or> dd < du \<or> dd = du \<and> even f) then Some f
         else if up then Some (f + 1) else None)"

fun shortest_from :: "rat \<Rightarrow> nat \<Rightarrow> nat \<Rightarrow> (int \<times> nat) option" where
  "shortest_from x k 0 = None"
| "shortest_from x k (Suc fuel) =
     (case digit_candidate x k of Some s \<Rightarrow> Some (s, k) | None \<Rightarrow> shortest_from x (Suc k) fuel)"

definition shortest_digits :: "rat \<Rightarrow> int \<times> int \<times> nat" where
  "shortest_digits x =
     (case shortest_from x 1 17 of
        Some (s, k) \<Rightarrow> (if s = 10 ^ k then (10 ^ (k - 1), ilog 10 x + 2, k) else (s, ilog 10 x + 1, k))
      | None \<Rightarrow> (\<lfloor>x / 10 powi (ilog 10 x - 16)\<rfloor>, ilog 10 x + 1, 17))"

definition zeros :: "nat \<Rightarrow> jstr" where
  "zeros n = replicate n (cu CHR ''0'')"

definition pos_num_str :: "rat \<Rightarrow> jstr" where
  "pos_num_str x =
     (let (s, n, k) = shortest_digits x; ds = nat_str (nat s)
      in if int k \<le> n \<and> n \<le> 21 then ds @ zeros (nat (n - int k))
         else if 0 < n \<and> n \<le> 21 then take (nat n) ds @ js ''.'' @ drop (nat n) ds
         else if - 6 < n \<and> n \<le> 0 then js ''0.'' @ zeros (nat (- n)) @ ds
         else (let e = (if n - 1 < 0 then js ''-'' else js ''+'') @ nat_str (nat \<bar>n - 1\<bar>)
               in if k = 1 then ds @ js ''e'' @ e
                  else take 1 ds @ js ''.'' @ drop 1 ds @ js ''e'' @ e))"

fun num_str :: "jsnum \<Rightarrow> jstr" where
  "num_str NaN = js ''NaN''"
| "num_str PInf = js ''Infinity''"
| "num_str NInf = js ''-Infinity''"
| "num_str (Fin x) = (if x = 0 then js ''0''
                      else if x < 0 then js ''-'' @ pos_num_str (- x) else pos_num_str x)"

text \<open>\<open>toFixed(2)\<close>.\<close>

fun to_fixed2 :: "jsnum \<Rightarrow> jstr" where
  "to_fixed2 (Fin x) =
     (if 10 ^ 21 \<le> \<bar>x\<bar> then num_str (Fin x)
      else (let n = nat \<lfloor>\<bar>x\<bar> * 100 + 1 / 2\<rfloor>
            in (if x < 0 then js ''-'' else []) @ nat_str (n div 100) @ js ''.''
               @ pad_start 2 (cu CHR ''0'') (nat_str (n mod 100))))"
| "to_fixed2 a = num_str a"

section \<open>Strings to numbers\<close>

definition digit_val :: "cu \<Rightarrow> nat" where
  "digit_val c = unat c - 48"

definition digits_val :: "jstr \<Rightarrow> nat" where
  "digits_val = foldl (\<lambda>a c. 10 * a + digit_val c) 0"

definition dec_value :: "jstr \<Rightarrow> jstr \<Rightarrow> int \<Rightarrow> rat" where
  "dec_value m f e = of_nat (digits_val (m @ f)) * 10 powi (e - int (length f))"

definition exp_literal :: "jstr \<Rightarrow> int option" where
  "exp_literal s =
     (let (neg, ds) = (case s of c # cs \<Rightarrow> if c = cu CHR ''-'' then (True, cs)
                                 else if c = cu CHR ''+'' then (False, cs) else (False, s)
                       | [] \<Rightarrow> (False, s))
      in if ds = [] \<or> \<not> list_all is_digit ds then None
         else Some (if neg then - int (digits_val ds) else int (digits_val ds)))"

definition split_frac :: "jstr \<Rightarrow> jstr \<times> jstr" where
  "split_frac r = (case r of
     c # cs \<Rightarrow> if c = cu CHR ''.'' then (takeWhile is_digit cs, dropWhile is_digit cs) else ([], r)
   | [] \<Rightarrow> ([], []))"

definition dec_literal :: "jstr \<Rightarrow> rat option" where
  "dec_literal s =
     (let m = takeWhile is_digit s; (f, r) = split_frac (dropWhile is_digit s)
      in if m = [] \<and> f = [] then None
         else (case r of
             [] \<Rightarrow> Some (dec_value m f 0)
           | c # cs \<Rightarrow> if c = cu CHR ''e'' \<or> c = cu CHR ''E''
                      then map_option (dec_value m f) (exp_literal cs) else None))"

definition radix_digit :: "nat \<Rightarrow> cu \<Rightarrow> nat option" where
  "radix_digit b c =
     (let d = (if is_digit c then Some (unat c - 48)
               else if cu CHR ''a'' \<le> c \<and> c \<le> cu CHR ''f'' then Some (unat c - 87)
               else if cu CHR ''A'' \<le> c \<and> c \<le> cu CHR ''F'' then Some (unat c - 55) else None)
      in case d of Some v \<Rightarrow> if v < b then Some v else None | None \<Rightarrow> None)"

definition radix_literal :: "nat \<Rightarrow> jstr \<Rightarrow> rat option" where
  "radix_literal b s =
     (if s = [] \<or> \<not> list_all (\<lambda>c. radix_digit b c \<noteq> None) s then None
      else Some (of_nat (foldl (\<lambda>a c. b * a + the (radix_digit b c)) 0 s)))"

definition unsigned_literal :: "jstr \<Rightarrow> jsnum" where
  "unsigned_literal s =
     (if s = js ''Infinity'' then PInf
      else (case dec_literal s of Some x \<Rightarrow> to_num x | None \<Rightarrow> NaN))"

definition str_num :: "jstr \<Rightarrow> jsnum" where
  "str_num s =
     (let t = js_trim s; radix = (\<lambda>b. case radix_literal b (drop 2 t) of Some x \<Rightarrow> to_num x | None \<Rightarrow> NaN)
      in if t = [] then Fin 0
         else if starts_with (js ''0x'') t \<or> starts_with (js ''0X'') t then radix 16
         else if starts_with (js ''0o'') t \<or> starts_with (js ''0O'') t then radix 8
         else if starts_with (js ''0b'') t \<or> starts_with (js ''0B'') t then radix 2
         else if hd t = cu CHR ''-'' then num_neg (unsigned_literal (tl t))
         else if hd t = cu CHR ''+'' then unsigned_literal (tl t)
         else unsigned_literal t)"

end
