(* ===== verification/JsValue.thy ===== *)
theory JsValue
  imports JsString
begin

text \<open>
  The values a JSON document denotes in JavaScript, and the dynamic operations the program applies
  to values it has not typed: property access, \<open>typeof\<close> tests, \<open>Object.keys\<close>, \<open>String(v)\<close>, truth.
  \<open>undefined\<close> is \<open>None\<close> of \<open>json option\<close>. An object holds its own properties in insertion order;
  the members every object inherits from its prototype (\<open>constructor\<close>, \<open>toString\<close>, ...) are not
  represented, so a property name is taken not to be one of them.
\<close>

datatype json = JNull | JBool bool | JNum jsnum | JStr jstr | JArr "json list"
  | JObj "(jstr \<times> json) list"

section \<open>Property access\<close>

text \<open>An array index is the decimal numeral of a natural number, without leading zeros.\<close>

definition index_of :: "jstr \<Rightarrow> nat option" where
  "index_of k = (if k \<noteq> [] \<and> list_all is_digit k \<and> nat_str (digits_val k) = k
                 then Some (digits_val k) else None)"

fun js_prop :: "json \<Rightarrow> jstr \<Rightarrow> json option" where
  "js_prop (JObj ps) k = map_of ps k"
| "js_prop (JArr xs) k =
     (if k = js ''length'' then Some (JNum (num_of_int (int (length xs))))
      else (case index_of k of Some i \<Rightarrow> if i < length xs then Some (xs ! i) else None
            | None \<Rightarrow> None))"
| "js_prop _ k = None"

text \<open>\<open>Object.keys\<close>: the index-like names in numeric order, then the others as inserted.\<close>

definition js_keys :: "(jstr \<times> json) list \<Rightarrow> jstr list" where
  "js_keys ps = sort_key (\<lambda>k. the (index_of k)) (filter (\<lambda>k. index_of k \<noteq> None) (map fst ps))
                @ filter (\<lambda>k. index_of k = None) (map fst ps)"

lemma set_js_keys [simp]: "set (js_keys ps) = fst ` set ps"
  by (auto simp: js_keys_def)

lemma length_js_keys [simp]: "length (js_keys ps) = length ps"
  by (simp add: js_keys_def sum_length_filter_compl [of "\<lambda>k. index_of k \<noteq> None" "map fst ps", simplified])

lemma js_keys_single [simp]: "js_keys [(k, v)] = [k]"
  by (simp add: js_keys_def)

section \<open>Type tests\<close>

text \<open>\<open>typeof v !== 'object' || v === null\<close> is the negation of this.\<close>

fun is_object_value :: "json \<Rightarrow> bool" where
  "is_object_value (JArr xs) = True"
| "is_object_value (JObj ps) = True"
| "is_object_value _ = False"

fun is_plain_object :: "json \<Rightarrow> bool" where
  "is_plain_object (JObj ps) = True"
| "is_plain_object _ = False"

fun nonblank_string :: "json option \<Rightarrow> bool" where
  "nonblank_string (Some (JStr s)) = (\<not> is_blank s)"
| "nonblank_string _ = False"

fun nonempty_array :: "json option \<Rightarrow> bool" where
  "nonempty_array (Some (JArr xs)) = (xs \<noteq> [])"
| "nonempty_array _ = False"

fun is_nullish :: "json option \<Rightarrow> bool" where
  "is_nullish None = True"
| "is_nullish (Some v) = (v = JNull)"

fun string_or_empty :: "json option \<Rightarrow> jstr" where
  "string_or_empty (Some (JStr s)) = s"
| "string_or_empty _ = []"

text \<open>Truth of a value in an \<open>if\<close>.\<close>

fun truthy :: "json option \<Rightarrow> bool" where
  "truthy None = False"
| "truthy (Some JNull) = False"
| "truthy (Some (JBool b)) = b"
| "truthy (Some (JNum n)) = (n \<noteq> NaN \<and> n \<noteq> Fin 0)"
| "truthy (Some (JStr s)) = (s \<noteq> [])"
| "truthy (Some _) = True"

section \<open>\<open>String(v)\<close>\<close>

fun js_string :: "json \<Rightarrow> jstr" where
  "js_string JNull = js ''null''"
| "js_string (JBool b) = (if b then js ''true'' else js ''false'')"
| "js_string (JNum n) = num_str n"
| "js_string (JStr s) = s"
| "js_string (JArr xs) = js_join (js '','') (map (\<lambda>x. if x = JNull then [] else js_string x) xs)"
| "js_string (JObj ps) = js ''[object Object]''"

text \<open>\<open>String\<close> of a value that may be \<open>undefined\<close>.\<close>

fun opt_string :: "json option \<Rightarrow> jstr" where
  "opt_string None = js ''undefined''"
| "opt_string (Some v) = js_string v"

section \<open>Strict equality with a primitive\<close>

text \<open>\<open>a === b\<close> for a primitive \<open>b\<close>: same type and value, and never true of \<open>NaN\<close>.\<close>

fun strict_eq :: "json option \<Rightarrow> json \<Rightarrow> bool" where
  "strict_eq (Some (JNum a)) (JNum b) = num_eq a b"
| "strict_eq (Some (JStr a)) (JStr b) = (a = b)"
| "strict_eq (Some (JBool a)) (JBool b) = (a = b)"
| "strict_eq (Some JNull) JNull = True"
| "strict_eq _ _ = False"

section \<open>Well-formed values\<close>

text \<open>
  What every value of a running program satisfies: an object has one value per name, and its own
  names do not include \<open>__proto__\<close>, which an assignment never creates.
\<close>

fun wf_json :: "json \<Rightarrow> bool" where
  "wf_json (JArr xs) = list_all wf_json xs"
| "wf_json (JObj ps) = (distinct (map fst ps) \<and> js ''__proto__'' \<notin> set (map fst ps)
                        \<and> list_all (\<lambda>(k, v). wf_json v) ps)"
| "wf_json _ = True"

lemma js_prop_size: "js_prop v k = Some w \<Longrightarrow> is_plain_object v \<Longrightarrow> size w < size v"
proof (cases v)
  case (JObj ps)
  assume "js_prop v k = Some w"
  then have "(k, w) \<in> set ps" using JObj by (auto dest: map_of_SomeD)
  then have "size w < size_list (size_prod (\<lambda>_. 0) size) ps"
    by (induction ps) auto
  then show ?thesis using JObj by simp
qed auto

lemma wf_json_prop: "wf_json v \<Longrightarrow> js_prop v k = Some w \<Longrightarrow> wf_json w"
  by (cases v) (auto simp: list_all_iff split: if_splits option.splits dest!: map_of_SomeD)

end
