(* ===== verification/StrictJson.thy ===== *)
theory StrictJson
  imports JsValue
begin

text \<open>
  \<open>domain/posting-engine/strict-json.ts\<close>: the recursive-descent parser that refuses duplicate
  keys, and the canonical serialization the content hashes are computed over. The parser state
  \<open>pos\<close> is the suffix of the text still to be read; a position is the length already consumed.
\<close>

datatype parse_error = SyntaxError jstr jstr | OutOfFuel

datatype strict_json_error = StrictJsonParseError (sj_message: jstr) (sj_position: nat)
  | FuelExhausted

definition fail :: "jstr \<Rightarrow> jstr \<Rightarrow> parse_error + 'a" where
  "fail msg rest = Inl (SyntaxError msg rest)"

section \<open>Tokens\<close>

definition is_json_ws :: "cu \<Rightarrow> bool" where
  "is_json_ws c = (c = 32 \<or> c = 9 \<or> c = 10 \<or> c = 13)"

definition skip_ws :: "jstr \<Rightarrow> jstr" where
  "skip_ws = dropWhile is_json_ws"

definition expect :: "cu \<Rightarrow> jstr \<Rightarrow> parse_error + jstr" where
  "expect ch s =
     (let found = (case s of [] \<Rightarrow> js ''EOF'' | c # _ \<Rightarrow> [c]);
          err = fail (js ''Expected '' @ sq @ [ch] @ sq @ js '' but found '' @ sq @ found @ sq) s
      in case s of c # cs \<Rightarrow> if c = ch then Inr cs else err | [] \<Rightarrow> err)"

definition is_hex :: "cu \<Rightarrow> bool" where
  "is_hex c = (radix_digit 16 c \<noteq> None)"

definition hex_unit :: "jstr \<Rightarrow> cu" where
  "hex_unit hs = of_nat (foldl (\<lambda>a c. 16 * a + the (radix_digit 16 c)) 0 hs)"

definition simple_escape :: "cu \<Rightarrow> cu option" where
  "simple_escape e =
     (if e = 0x22 then Some 0x22 else if e = 0x5C then Some 0x5C
      else if e = cu CHR ''/'' then Some (cu CHR ''/'')
      else if e = cu CHR ''b'' then Some 8 else if e = cu CHR ''f'' then Some 12
      else if e = cu CHR ''n'' then Some 10 else if e = cu CHR ''r'' then Some 13
      else if e = cu CHR ''t'' then Some 9 else None)"

text \<open>The loop of \<open>parseString\<close>, after the opening quote.\<close>

definition cons_unit :: "cu \<Rightarrow> parse_error + jstr \<times> jstr \<Rightarrow> parse_error + jstr \<times> jstr" where
  "cons_unit c r = bind_res r (\<lambda>(out, rest). Inr (c # out, rest))"

fun string_body :: "jstr \<Rightarrow> parse_error + jstr \<times> jstr" where
  "string_body [] = fail (js ''Unterminated string'') []"
| "string_body (c # cs) =
     (if c = 0x22 then Inr ([], cs)
      else if c = 0x5C then
        (case cs of
           [] \<Rightarrow> fail (js ''Invalid escape sequence '' @ sq @ [0x5C] @ js ''undefined'' @ sq) []
         | e # es \<Rightarrow>
           if e = cu CHR ''u'' then
             if length (take 4 es) = 4 \<and> list_all is_hex (take 4 es)
             then cons_unit (hex_unit (take 4 es)) (string_body (drop 4 es))
             else fail (js ''Invalid unicode escape'') (e # es)
           else (case simple_escape e of
               Some x \<Rightarrow> cons_unit x (string_body es)
             | None \<Rightarrow> fail (js ''Invalid escape sequence '' @ sq @ [0x5C, e] @ sq) (e # es)))
      else if c < 0x20 then fail (js ''Unescaped control character in string'') (c # cs)
      else cons_unit c (string_body cs))"

definition parse_string :: "jstr \<Rightarrow> parse_error + jstr \<times> jstr" where
  "parse_string s = bind_res (expect 0x22 s) string_body"

text \<open>The scanner of \<open>parseNumber\<close>: the raw text of the number and the rest.\<close>

definition scan_int :: "jstr \<Rightarrow> parse_error + jstr \<times> jstr" where
  "scan_int s = (case s of
     c # cs \<Rightarrow> if c = cu CHR ''0'' then Inr ([c], cs)
       else if is_digit c then Inr (takeWhile is_digit s, dropWhile is_digit s)
       else fail (js ''Invalid number'') s
   | [] \<Rightarrow> fail (js ''Invalid number'') s)"

definition scan_digits :: "jstr \<Rightarrow> jstr \<Rightarrow> parse_error + jstr \<times> jstr" where
  "scan_digits msg s =
     (if takeWhile is_digit s = [] then fail msg s
      else Inr (takeWhile is_digit s, dropWhile is_digit s))"

definition scan_frac :: "jstr \<Rightarrow> parse_error + jstr \<times> jstr" where
  "scan_frac s = (case s of
     c # cs \<Rightarrow> if c = cu CHR ''.''
       then bind_res (scan_digits (js ''Invalid number fraction'') cs) (\<lambda>(d, r). Inr (c # d, r))
       else Inr ([], s)
   | [] \<Rightarrow> Inr ([], s))"

definition scan_exp :: "jstr \<Rightarrow> parse_error + jstr \<times> jstr" where
  "scan_exp s = (case s of
     c # cs \<Rightarrow> if c = cu CHR ''e'' \<or> c = cu CHR ''E''
       then (let (sg, r) = (case cs of
               g # gs \<Rightarrow> if g = cu CHR ''+'' \<or> g = cu CHR ''-'' then ([g], gs) else ([], cs)
             | [] \<Rightarrow> ([], cs))
             in bind_res (scan_digits (js ''Invalid number exponent'') r)
                  (\<lambda>(d, r'). Inr (c # sg @ d, r')))
       else Inr ([], s)
   | [] \<Rightarrow> Inr ([], s))"

definition parse_number :: "jstr \<Rightarrow> parse_error + jsnum \<times> jstr" where
  "parse_number s =
     (let (sg, r0) = (case s of c # cs \<Rightarrow> if c = cu CHR ''-'' then ([c], cs) else ([], s)
                      | [] \<Rightarrow> ([], s))
      in bind_res (scan_int r0) (\<lambda>(i, r1).
         bind_res (scan_frac r1) (\<lambda>(f, r2).
         bind_res (scan_exp r2) (\<lambda>(e, r3). Inr (str_num (sg @ i @ f @ e), r3)))))"

section \<open>Values\<close>

text \<open>
  \<open>obj[key] = value\<close> on an object literal: the name \<open>__proto__\<close> is the inherited accessor, so the
  assignment creates no property. Every other name is new here, since duplicates are refused.
\<close>

definition assign_prop :: "jstr \<Rightarrow> json \<Rightarrow> (jstr \<times> json) list \<Rightarrow> (jstr \<times> json) list" where
  "assign_prop k v ps = (if k = js ''__proto__'' then ps else put k v ps)"

text \<open>
  \<open>parseValue\<close> with the loops of \<open>parseObject\<close> and \<open>parseArray\<close>. Each call spends one unit of
  fuel; the length of the text is enough.
\<close>

fun parse_value :: "nat \<Rightarrow> jstr \<Rightarrow> parse_error + json \<times> jstr"
  and parse_members :: "nat \<Rightarrow> jstr set \<Rightarrow> (jstr \<times> json) list \<Rightarrow> jstr \<Rightarrow> parse_error + json \<times> jstr"
  and parse_elements :: "nat \<Rightarrow> json list \<Rightarrow> jstr \<Rightarrow> parse_error + json \<times> jstr" where
  "parse_value 0 s = Inl OutOfFuel"
| "parse_value (Suc n) s0 =
     (let s = skip_ws s0 in
      case s of
        [] \<Rightarrow> fail (js ''Unexpected end of input'') s
      | c # cs \<Rightarrow>
        if c = cu CHR ''{'' then
          (case skip_ws cs of
             d # ds \<Rightarrow> if d = cu CHR ''}'' then Inr (JObj [], ds) else parse_members n {} [] (d # ds)
           | [] \<Rightarrow> parse_members n {} [] [])
        else if c = cu CHR ''['' then
          (case skip_ws cs of
             d # ds \<Rightarrow> if d = cu CHR '']'' then Inr (JArr [], ds) else parse_elements n [] (d # ds)
           | [] \<Rightarrow> parse_elements n [] [])
        else if c = 0x22 then bind_res (parse_string s) (\<lambda>(t, r). Inr (JStr t, r))
        else if c = cu CHR ''-'' \<or> is_digit c then
          bind_res (parse_number s) (\<lambda>(x, r). Inr (JNum x, r))
        else if starts_with (js ''true'') s then Inr (JBool True, drop 4 s)
        else if starts_with (js ''false'') s then Inr (JBool False, drop 5 s)
        else if starts_with (js ''null'') s then Inr (JNull, drop 4 s)
        else fail (js ''Unexpected token '' @ sq @ [c] @ sq) s)"
| "parse_members 0 seen ps s = Inl OutOfFuel"
| "parse_members (Suc n) seen ps s0 =
     (let s = skip_ws s0 in
      if s = [] \<or> hd s \<noteq> 0x22 then fail (js ''Expected a quoted object key'') s
      else bind_res (parse_string s) (\<lambda>(key, r1).
        if key \<in> seen then fail (js ''Duplicate object key '' @ dq @ key @ dq) r1
        else bind_res (expect (cu CHR '':'') (skip_ws r1)) (\<lambda>r2.
          bind_res (parse_value n r2) (\<lambda>(v, r3).
            let obj = assign_prop key v ps; r4 = skip_ws r3 in
            case r4 of
              d # ds \<Rightarrow> if d = cu CHR '','' then parse_members n (insert key seen) obj ds
                else if d = cu CHR ''}'' then Inr (JObj obj, ds)
                else fail (js ''Expected '' @ sq @ js '','' @ sq @ js '' or '' @ sq @ js ''}'' @ sq) r4
            | [] \<Rightarrow> fail (js ''Expected '' @ sq @ js '','' @ sq @ js '' or '' @ sq @ js ''}'' @ sq) r4))))"
| "parse_elements 0 xs s = Inl OutOfFuel"
| "parse_elements (Suc n) xs s =
     bind_res (parse_value n s) (\<lambda>(v, r1).
       let arr = xs @ [v]; r2 = skip_ws r1 in
       case r2 of
         d # ds \<Rightarrow> if d = cu CHR '','' then parse_elements n arr ds
           else if d = cu CHR '']'' then Inr (JArr arr, ds)
           else fail (js ''Expected '' @ sq @ js '','' @ sq @ js '' or '' @ sq @ js '']'' @ sq) r2
       | [] \<Rightarrow> fail (js ''Expected '' @ sq @ js '','' @ sq @ js '' or '' @ sq @ js '']'' @ sq) r2)"

definition parse_strict_json :: "jstr \<Rightarrow> strict_json_error + json" where
  "parse_strict_json text =
     (let report = (\<lambda>msg rest. Inl (StrictJsonParseError
            (msg @ js '' (at position '' @ nat_str (length text - length rest) @ js '')'')
            (length text - length rest)))
      in case parse_value (Suc (2 * length text)) text of
           Inl OutOfFuel \<Rightarrow> Inl FuelExhausted
         | Inl (SyntaxError msg rest) \<Rightarrow> report msg rest
         | Inr (v, rest) \<Rightarrow>
             if skip_ws rest = [] then Inr v
             else report (js ''Unexpected trailing content after JSON value'') (skip_ws rest))"

section \<open>Canonical serialization\<close>

definition hex_digit :: "nat \<Rightarrow> cu" where
  "hex_digit d = (if d < 10 then 0x30 + of_nat d else 0x57 + of_nat d)"

definition unicode_escape :: "cu \<Rightarrow> jstr" where
  "unicode_escape c =
     (let n = unat c
      in [0x5C, cu CHR ''u'', hex_digit (n div 4096), hex_digit (n div 256 mod 16),
          hex_digit (n div 16 mod 16), hex_digit (n mod 16)])"

definition is_lead_surrogate :: "cu \<Rightarrow> bool" where
  "is_lead_surrogate c = (0xD800 \<le> c \<and> c \<le> 0xDBFF)"

definition is_trail_surrogate :: "cu \<Rightarrow> bool" where
  "is_trail_surrogate c = (0xDC00 \<le> c \<and> c \<le> 0xDFFF)"

text \<open>One code unit as \<open>JSON.stringify\<close> writes it, when it does not start a surrogate pair.\<close>

definition quote_unit :: "cu \<Rightarrow> jstr" where
  "quote_unit c =
     (if c = 0x22 then [0x5C, 0x22] else if c = 0x5C then [0x5C, 0x5C]
      else if c = 8 then [0x5C, cu CHR ''b''] else if c = 9 then [0x5C, cu CHR ''t'']
      else if c = 10 then [0x5C, cu CHR ''n''] else if c = 12 then [0x5C, cu CHR ''f'']
      else if c = 13 then [0x5C, cu CHR ''r'']
      else if c < 0x20 \<or> is_lead_surrogate c \<or> is_trail_surrogate c then unicode_escape c
      else [c])"

fun quote_body :: "jstr \<Rightarrow> jstr" where
  "quote_body [] = []"
| "quote_body [c] = quote_unit c"
| "quote_body (c # d # cs) =
     (if is_lead_surrogate c \<and> is_trail_surrogate d then [c, d] @ quote_body cs
      else quote_unit c @ quote_body (d # cs))"

definition json_quote :: "jstr \<Rightarrow> jstr" where
  "json_quote s = dq @ quote_body s @ dq"

fun stringify_canonical :: "json \<Rightarrow> jstr" where
  "stringify_canonical JNull = js ''null''"
| "stringify_canonical (JNum n) = (if is_finite_num n then num_str n else js ''null'')"
| "stringify_canonical (JBool b) = (if b then js ''true'' else js ''false'')"
| "stringify_canonical (JStr s) = json_quote s"
| "stringify_canonical (JArr xs) =
     js ''['' @ js_join (js '','') (map stringify_canonical xs) @ js '']''"
| "stringify_canonical (JObj ps) =
     js ''{'' @ js_join (js '','')
       (map (\<lambda>(k, t). json_quote k @ js '':'' @ t)
         (sort_key fst (map (\<lambda>(k, v). (k, stringify_canonical v)) ps))) @ js ''}''"

definition canonical_stringify :: "json option \<Rightarrow> jstr" where
  "canonical_stringify v = (case v of None \<Rightarrow> js ''null'' | Some w \<Rightarrow> stringify_canonical w)"

end
