(* ===== verification/EventEnvelope.thy ===== *)
theory EventEnvelope
  imports StrictJson
begin

text \<open>
  \<open>domain/posting-engine/event-envelope.ts\<close>: the shape check that builds a source event envelope,
  the read-only path resolution conditions and amounts use, and the identity hash. The digest
  \<open>sha256\<close> of the platform's \<open>crypto\<close> module is a parameter.
\<close>

record source_event_envelope =
  se_event_id :: jstr
  se_tenant_id :: jstr
  se_legal_entity_id :: jstr
  se_event_type :: jstr
  se_event_schema_version :: jstr
  se_occurred_at :: jstr
  se_published_at :: jstr
  se_source_system :: jstr
  se_source_entity_type :: jstr
  se_source_entity_id :: jstr
  se_correlation_id :: jstr
  se_causation_id :: "jstr option"
  se_business_date :: jstr
  se_payload :: json
  se_metadata :: json

definition required_envelope_fields :: "jstr list" where
  "required_envelope_fields =
     map js [''eventId'', ''tenantId'', ''legalEntityId'', ''eventType'', ''eventSchemaVersion'',
             ''occurredAt'', ''publishedAt'', ''sourceSystem'', ''sourceEntityType'', ''sourceEntityId'',
             ''correlationId'', ''businessDate'', ''payload'']"

datatype envelope_shape_error = EnvelopeShapeError (missing_fields: "jstr list")

definition envelope_error_message :: "envelope_shape_error \<Rightarrow> jstr" where
  "envelope_error_message e =
     js ''Event envelope missing required field(s): '' @ js_join (js '', '') (missing_fields e)"

section \<open>The shape check\<close>

definition field_missing :: "json \<Rightarrow> jstr \<Rightarrow> bool" where
  "field_missing obj f = (is_nullish (js_prop obj f) \<or> js_prop obj f = Some (JStr []))"

definition string_field :: "json \<Rightarrow> string \<Rightarrow> jstr" where
  "string_field obj f = opt_string (js_prop obj (js f))"

definition null_string :: "json option \<Rightarrow> jstr option" where
  "null_string v = (if is_nullish v then None else Some (opt_string v))"

definition or_null :: "json option \<Rightarrow> json" where
  "or_null v = (case v of None \<Rightarrow> JNull | Some w \<Rightarrow> w)"

definition assert_envelope_shape :: "json \<Rightarrow> envelope_shape_error + source_event_envelope" where
  "assert_envelope_shape obj =
     (if \<not> is_object_value obj then Inl (EnvelopeShapeError [js ''(entire envelope)''])
      else let missing = filter (field_missing obj) required_envelope_fields in
        if missing \<noteq> [] then Inl (EnvelopeShapeError missing)
        else if \<not> is_plain_object (the (js_prop obj (js ''payload'')))
          then Inl (EnvelopeShapeError [js ''payload (must be an object)''])
        else Inr
          \<lparr>se_event_id = string_field obj ''eventId'',
           se_tenant_id = string_field obj ''tenantId'',
           se_legal_entity_id = string_field obj ''legalEntityId'',
           se_event_type = string_field obj ''eventType'',
           se_event_schema_version = string_field obj ''eventSchemaVersion'',
           se_occurred_at = string_field obj ''occurredAt'',
           se_published_at = string_field obj ''publishedAt'',
           se_source_system = string_field obj ''sourceSystem'',
           se_source_entity_type = string_field obj ''sourceEntityType'',
           se_source_entity_id = string_field obj ''sourceEntityId'',
           se_correlation_id = string_field obj ''correlationId'',
           se_causation_id = null_string (js_prop obj (js ''causationId'')),
           se_business_date = string_field obj ''businessDate'',
           se_payload = the (js_prop obj (js ''payload'')),
           se_metadata = or_null (js_prop obj (js ''metadata''))\<rparr>)"

section \<open>The envelope as a value\<close>

definition opt_json :: "jstr option \<Rightarrow> json" where
  "opt_json s = (case s of None \<Rightarrow> JNull | Some t \<Rightarrow> JStr t)"

definition envelope_json :: "source_event_envelope \<Rightarrow> json" where
  "envelope_json e = JObj
     [(js ''eventId'', JStr (se_event_id e)), (js ''tenantId'', JStr (se_tenant_id e)),
      (js ''legalEntityId'', JStr (se_legal_entity_id e)), (js ''eventType'', JStr (se_event_type e)),
      (js ''eventSchemaVersion'', JStr (se_event_schema_version e)),
      (js ''occurredAt'', JStr (se_occurred_at e)), (js ''publishedAt'', JStr (se_published_at e)),
      (js ''sourceSystem'', JStr (se_source_system e)),
      (js ''sourceEntityType'', JStr (se_source_entity_type e)),
      (js ''sourceEntityId'', JStr (se_source_entity_id e)),
      (js ''correlationId'', JStr (se_correlation_id e)),
      (js ''causationId'', opt_json (se_causation_id e)),
      (js ''businessDate'', JStr (se_business_date e)), (js ''payload'', se_payload e),
      (js ''metadata'', se_metadata e)]"

fun walk_path :: "json option \<Rightarrow> jstr list \<Rightarrow> json option" where
  "walk_path cur [] = cur"
| "walk_path cur (p # ps) =
     (case cur of None \<Rightarrow> None
      | Some v \<Rightarrow> if is_object_value v then walk_path (js_prop v p) ps else None)"

definition resolve_envelope_path :: "source_event_envelope \<Rightarrow> jstr \<Rightarrow> json option" where
  "resolve_envelope_path e path = walk_path (Some (envelope_json e)) (js_split (cu CHR ''.'') path)"

section \<open>Identity\<close>

definition identity_view :: "source_event_envelope \<Rightarrow> json" where
  "identity_view e = JObj
     [(js ''eventId'', JStr (se_event_id e)), (js ''tenantId'', JStr (se_tenant_id e)),
      (js ''legalEntityId'', JStr (se_legal_entity_id e)), (js ''eventType'', JStr (se_event_type e)),
      (js ''eventSchemaVersion'', JStr (se_event_schema_version e)),
      (js ''sourceSystem'', JStr (se_source_system e)),
      (js ''sourceEntityType'', JStr (se_source_entity_type e)),
      (js ''sourceEntityId'', JStr (se_source_entity_id e)),
      (js ''correlationId'', JStr (se_correlation_id e)),
      (js ''causationId'', opt_json (se_causation_id e)),
      (js ''businessDate'', JStr (se_business_date e)), (js ''payload'', se_payload e),
      (js ''metadata'', se_metadata e)]"

definition hash_envelope :: "(jstr \<Rightarrow> jstr) \<Rightarrow> source_event_envelope \<Rightarrow> jstr" where
  "hash_envelope sha256 e = sha256 (canonical_stringify (Some (identity_view e)))"

section \<open>Facts\<close>

lemma walk_path_None [simp]: "walk_path None ps = None"
  by (cases ps) auto

lemma walk_path_prim: "\<not> is_object_value v \<Longrightarrow> walk_path (Some v) (p # ps) = None"
  by simp

lemma walk_path_append:
  "walk_path v (ps @ qs) = walk_path (walk_path v ps) qs"
  by (induction v ps rule: walk_path.induct) (auto split: option.splits)

lemma walk_path_wf:
  "(\<And>x. v = Some x \<Longrightarrow> wf_json x) \<Longrightarrow> walk_path v ps = Some w \<Longrightarrow> wf_json w"
proof (induction v ps rule: walk_path.induct)
  case (2 cur p ps)
  then obtain x where x: "cur = Some x" "is_object_value x" "walk_path (js_prop x p) ps = Some w"
    by (auto split: option.splits if_splits)
  then show ?case using 2 by (auto intro: wf_json_prop)
qed simp

lemma assert_envelope_fields:
  assumes "assert_envelope_shape obj = Inr e"
  shows "is_object_value obj" "filter (field_missing obj) required_envelope_fields = []"
    "\<exists>ps. js_prop obj (js ''payload'') = Some (JObj ps) \<and> se_payload e = JObj ps"
proof -
  show "is_object_value obj" and m: "filter (field_missing obj) required_envelope_fields = []"
    using assms by (auto simp: assert_envelope_shape_def Let_def split: if_splits)
  have "\<not> field_missing obj (js ''payload'')"
    using m unfolding filter_empty_conv by (simp add: required_envelope_fields_def)
  then obtain v where v: "js_prop obj (js ''payload'') = Some v"
    by (cases "js_prop obj (js ''payload'')") (auto simp: field_missing_def)
  then show "\<exists>ps. js_prop obj (js ''payload'') = Some (JObj ps) \<and> se_payload e = JObj ps"
    using assms by (cases v) (auto simp: assert_envelope_shape_def Let_def split: if_splits)
qed

end
