(* ===== verification/Conditions.thy ===== *)
theory Conditions
  imports EventEnvelope
begin

text \<open>
  \<open>domain/posting-engine/conditions.ts\<close>: the closed condition grammar of rules, evaluated on the
  parsed JSON as the code does, with the errors it throws on a malformed expression.
\<close>

datatype condition_error = UnknownConditionOperator (op_name: jstr) | ConditionTypeError

type_synonym cond_result = "condition_error + bool"

section \<open>Dynamic operations\<close>

text \<open>\<open>Object.keys(v)\<close>, which throws for \<open>null\<close> and sees the indices of arrays and strings.\<close>

fun object_keys :: "json \<Rightarrow> jstr list option" where
  "object_keys JNull = None"
| "object_keys (JObj ps) = Some (js_keys ps)"
| "object_keys (JArr xs) = Some (map nat_str [0..<length xs])"
| "object_keys (JStr s) = Some (map nat_str [0..<length s])"
| "object_keys (JBool b) = Some []"
| "object_keys (JNum n) = Some []"

text \<open>Reading a property of a value that may be \<open>undefined\<close> or \<open>null\<close> throws.\<close>

definition prop_of :: "json option \<Rightarrow> string \<Rightarrow> condition_error + json option" where
  "prop_of v k = (if is_nullish v then Inl ConditionTypeError else Inr (js_prop (the v) (js k)))"

text \<open>\<open>resolveEnvelopePath(envelope, path)\<close> for an untyped \<open>path\<close>: \<open>path.split\<close> throws unless it is a string.\<close>

definition resolve_dynamic :: "source_event_envelope \<Rightarrow> json option \<Rightarrow> condition_error + json option" where
  "resolve_dynamic env path =
     (case path of Some (JStr p) \<Rightarrow> Inr (resolve_envelope_path env p) | _ \<Rightarrow> Inl ConditionTypeError)"

text \<open>\<open>a === b\<close> where either side may be \<open>undefined\<close>; two objects read from different documents differ.\<close>

definition primitive_equals :: "json option \<Rightarrow> json option \<Rightarrow> bool" where
  "primitive_equals a b = (case b of None \<Rightarrow> a = None | Some v \<Rightarrow> strict_eq a v)"

definition as_comparable :: "json option \<Rightarrow> jsnum option" where
  "as_comparable v =
     (case v of
        Some (JNum n) \<Rightarrow> if is_finite_num n then Some n else None
      | Some (JStr s) \<Rightarrow> if js_trim s \<noteq> [] \<and> is_finite_num (str_num s) then Some (str_num s) else None
      | _ \<Rightarrow> None)"

text \<open>The number a relational operator compares a value as.\<close>

fun js_to_number :: "json option \<Rightarrow> jsnum" where
  "js_to_number None = NaN"
| "js_to_number (Some JNull) = Fin 0"
| "js_to_number (Some (JBool b)) = (if b then Fin 1 else Fin 0)"
| "js_to_number (Some (JNum n)) = n"
| "js_to_number (Some v) = str_num (js_string v)"

definition every_res :: "('a \<Rightarrow> 'e + bool) \<Rightarrow> 'a list \<Rightarrow> 'e + bool" where
  "every_res f xs = foldr (\<lambda>x r. bind_res (f x) (\<lambda>b. if b then r else Inr False)) xs (Inr True)"

definition some_res :: "('a \<Rightarrow> 'e + bool) \<Rightarrow> 'a list \<Rightarrow> 'e + bool" where
  "some_res f xs = foldr (\<lambda>x r. bind_res (f x) (\<lambda>b. if b then Inr True else r)) xs (Inr False)"

lemma every_res_simps [simp]:
  "every_res f [] = Inr True"
  "every_res f (x # xs) = bind_res (f x) (\<lambda>b. if b then every_res f xs else Inr False)"
  by (simp_all add: every_res_def cong: if_cong)

lemma some_res_simps [simp]:
  "some_res f [] = Inr False"
  "some_res f (x # xs) = bind_res (f x) (\<lambda>b. if b then Inr True else some_res f xs)"
  by (simp_all add: some_res_def cong: if_cong)

lemma every_res_cong [fundef_cong]:
  "xs = ys \<Longrightarrow> (\<And>x. x \<in> set ys \<Longrightarrow> f x = g x) \<Longrightarrow> every_res f xs = every_res g ys"
  by (induction xs arbitrary: ys) (auto cong: if_cong)

lemma some_res_cong [fundef_cong]:
  "xs = ys \<Longrightarrow> (\<And>x. x \<in> set ys \<Longrightarrow> f x = g x) \<Longrightarrow> some_res f xs = some_res g ys"
  by (induction xs arbitrary: ys) (auto cong: if_cong)

lemma every_res_total:
  "(\<And>x. x \<in> set xs \<Longrightarrow> f x = Inr (g x)) \<Longrightarrow> every_res f xs = Inr (list_all g xs)"
  by (induction xs) auto

lemma some_res_total:
  "(\<And>x. x \<in> set xs \<Longrightarrow> f x = Inr (g x)) \<Longrightarrow> some_res f xs = Inr (list_ex g xs)"
  by (induction xs) auto

section \<open>The evaluator\<close>

definition compare_path :: "(jsnum \<Rightarrow> jsnum \<Rightarrow> bool) \<Rightarrow> source_event_envelope \<Rightarrow> json option \<Rightarrow> cond_result" where
  "compare_path rel env body =
     bind_res (prop_of body ''path'') (\<lambda>path.
     bind_res (prop_of body ''value'') (\<lambda>val.
     bind_res (resolve_dynamic env path) (\<lambda>v.
       Inr (case as_comparable v of None \<Rightarrow> False | Some n \<Rightarrow> rel n (js_to_number val)))))"

definition equals_path :: "source_event_envelope \<Rightarrow> json option \<Rightarrow> cond_result" where
  "equals_path env body =
     bind_res (prop_of body ''path'') (\<lambda>path.
     bind_res (prop_of body ''value'') (\<lambda>val.
     bind_res (resolve_dynamic env path) (\<lambda>v. Inr (primitive_equals v val))))"

definition member_path :: "source_event_envelope \<Rightarrow> json option \<Rightarrow> cond_result" where
  "member_path env body =
     bind_res (prop_of body ''path'') (\<lambda>path.
     bind_res (prop_of body ''values'') (\<lambda>vals.
     bind_res (resolve_dynamic env path) (\<lambda>v.
       case vals of Some (JArr cs) \<Rightarrow> Inr (list_ex (\<lambda>c. primitive_equals v (Some c)) cs)
                  | _ \<Rightarrow> Inl ConditionTypeError)))"

definition test_path :: "(json option \<Rightarrow> bool) \<Rightarrow> source_event_envelope \<Rightarrow> json option \<Rightarrow> cond_result" where
  "test_path P env body =
     bind_res (prop_of body ''path'') (\<lambda>path.
     bind_res (resolve_dynamic env path) (\<lambda>v. Inr (P v)))"

definition negate_res :: "cond_result \<Rightarrow> cond_result" where
  "negate_res r = bind_res r (\<lambda>b. Inr (\<not> b))"

text \<open>The operators that do not recurse.\<close>

definition leaf_condition :: "jstr \<Rightarrow> source_event_envelope \<Rightarrow> json option \<Rightarrow> cond_result" where
  "leaf_condition opn env body =
     (if opn = js ''equals'' then equals_path env body
      else if opn = js ''notEquals'' then negate_res (equals_path env body)
      else if opn = js ''greaterThan'' then compare_path (\<lambda>a b. num_lt b a) env body
      else if opn = js ''greaterThanOrEqual'' then compare_path (\<lambda>a b. num_le b a) env body
      else if opn = js ''lessThan'' then compare_path num_lt env body
      else if opn = js ''lessThanOrEqual'' then compare_path num_le env body
      else if opn = js ''in'' then member_path env body
      else if opn = js ''notIn'' then negate_res (member_path env body)
      else if opn = js ''exists'' then test_path (\<lambda>v. v \<noteq> None) env body
      else if opn = js ''isNull'' then test_path (\<lambda>v. v = Some JNull) env body
      else if opn = js ''isNotNull'' then test_path (\<lambda>v. v \<noteq> Some JNull \<and> v \<noteq> None) env body
      else Inl (UnknownConditionOperator opn))"

text \<open>A value with exactly one key: the key and what it holds.\<close>

fun single_key :: "json \<Rightarrow> condition_error + jstr \<times> json" where
  "single_key JNull = Inl ConditionTypeError"
| "single_key (JObj [(k, v)]) = Inr (k, v)"
| "single_key (JArr [v]) = Inr (js ''0'', v)"
| "single_key (JStr [c]) = Inr (js ''0'', JStr [c])"
| "single_key v = Inl (UnknownConditionOperator (js_join (js '','') (the (object_keys v))))"

lemma single_key_word: "single_key v = Inr (k, w) \<Longrightarrow> k \<noteq> js ''0'' \<Longrightarrow> size w < size v"
  by (induction v rule: single_key.induct) auto

text \<open>The clauses of \<open>and\<close> and \<open>or\<close>: \<open>clauses.every\<close> throws unless it is an array.\<close>

function evaluate_condition :: "source_event_envelope \<Rightarrow> json \<Rightarrow> cond_result" where
  "evaluate_condition env e =
     bind_res (single_key e) (\<lambda>(opn, body).
       if opn = js ''and'' then
         (case body of JArr cs \<Rightarrow> every_res (evaluate_condition env) cs | _ \<Rightarrow> Inl ConditionTypeError)
       else if opn = js ''or'' then
         (case body of JArr cs \<Rightarrow> some_res (evaluate_condition env) cs | _ \<Rightarrow> Inl ConditionTypeError)
       else if opn = js ''not'' then negate_res (evaluate_condition env body)
       else leaf_condition opn env (Some body))"
  by auto

termination
  by (relation "measure (\<lambda>(env, e). size e)")
    (auto dest!: single_key_word size_list_estimation' [where f = size, OF _ order_refl])

declare evaluate_condition.simps [simp del]

end
