(* ===== verification/JournalPosting.thy ===== *)
theory JournalPosting
  imports JsValue
begin

text \<open>
  \<open>domain/journal-posting.ts\<close>: the single rule engine of journal posting. Amounts arrive as
  dollars (a number, a numeric string, or nothing), are turned into integer cents, and the
  evaluator collects every violated rule BR013-1 to BR013-6.
\<close>

section \<open>Money in cents\<close>

definition cents_of :: "jsnum \<Rightarrow> jsnum" where
  "cents_of n = (if is_finite_num n then math_round (num_mul n (Fin 100)) else NaN)"

fun to_cents :: "json option \<Rightarrow> jsnum" where
  "to_cents None = Fin 0"
| "to_cents (Some JNull) = Fin 0"
| "to_cents (Some (JStr s)) = (if s = [] then Fin 0 else cents_of (str_num s))"
| "to_cents (Some (JNum n)) = cents_of n"
| "to_cents (Some v) = NaN"

definition cents_to_dollars :: "jsnum \<Rightarrow> jsnum" where
  "cents_to_dollars c = num_div_by (math_round c) 100"

section \<open>Inputs and resolved reference data\<close>

record analysis_tag =
  tag_type_id :: jstr
  tag_value_id :: jstr

record posting_line =
  pl_account_id :: jstr
  pl_store_id :: jstr
  pl_dept_code :: "jstr option"
  pl_control_number :: "jstr option"
  pl_apply_number :: "jstr option"
  pl_dr :: "json option"
  pl_cr :: "json option"
  pl_memo :: "jstr option"
  pl_tags :: "analysis_tag list"

record posting_header =
  ph_entity_id :: jstr
  ph_date :: jstr
  ph_source_code :: jstr
  ph_memo :: "jstr option"
  ph_idempotency_key :: jstr
  ph_is_adjusting :: bool

record resolved_account =
  ra_id :: jstr
  ra_account_number :: jstr
  ra_type :: jstr
  ra_normal_balance :: jstr
  ra_postable :: bool
  ra_status :: jstr
  ra_schedule_code :: "jstr option"

record resolved_period =
  rp_id :: jstr
  rp_code :: jstr
  rp_status :: jstr
  rp_adjustments_only :: bool

record resolved_source =
  rs_code :: jstr
  rs_class :: jstr
  rs_status :: jstr

record posting_context =
  pc_caller_class :: jstr
  pc_accounts :: "jstr \<Rightarrow> resolved_account option"
  pc_period :: "resolved_period option"
  pc_source :: "resolved_source option"

record violation =
  v_rule :: jstr
  v_line_index :: "nat option"
  v_field :: "jstr option"
  v_diagnostic :: jstr

record evaluation_result =
  er_pass :: bool
  er_violations :: "violation list"
  er_total_debits_cents :: jsnum
  er_total_credits_cents :: jsnum
  er_delta_dr :: jsnum
  er_delta_cr :: jsnum

definition pnl_types :: "jstr list" where
  "pnl_types = [js ''REVENUE'', js ''EXPENSE'']"

section \<open>The evaluator\<close>

definition viol :: "string \<Rightarrow> nat option \<Rightarrow> string \<Rightarrow> jstr \<Rightarrow> violation" where
  "viol rule i field msg = \<lparr>v_rule = js rule, v_line_index = i, v_field = Some (js field),
                            v_diagnostic = msg\<rparr>"

definition amount_violations :: "nat \<Rightarrow> jsnum \<Rightarrow> jsnum \<Rightarrow> violation list" where
  "amount_violations i drC crC =
     (if drC = NaN \<or> crC = NaN
      then [viol ''BR013-1'' (Some i) ''amount'' (js ''Line amount is not a valid number.'')]
      else (if num_lt drC (Fin 0) \<or> num_lt crC (Fin 0)
            then [viol ''BR013-1'' (Some i) ''amount'' (js ''Line amounts must be non-negative.'')]
            else [])
         @ (let drSet = num_lt (Fin 0) drC; crSet = num_lt (Fin 0) crC
            in if drSet \<and> crSet
               then [viol ''BR013-1'' (Some i) ''amount''
                      (js ''A line may set exactly one of debit or credit, not both.'')]
               else if \<not> drSet \<and> \<not> crSet
               then [viol ''BR013-1'' (Some i) ''amount''
                      (js ''A line must set exactly one of debit or credit.'')]
               else []))"

definition account_violations :: "posting_context \<Rightarrow> nat \<Rightarrow> posting_line \<Rightarrow> violation list" where
  "account_violations ctx i line =
     (case pc_accounts ctx (pl_account_id line) of
        None \<Rightarrow> [viol ''BR013-4'' (Some i) ''accountId''
                   (js ''Account '' @ pl_account_id line @ js '' not found in this entity.'')]
      | Some acct \<Rightarrow>
          (if ra_status acct \<noteq> js ''ACTIVE''
           then [viol ''BR013-4'' (Some i) ''accountId''
                  (js ''Account '' @ ra_account_number acct @ js '' is not ACTIVE.'')] else [])
        @ (if \<not> ra_postable acct
           then [viol ''BR013-4'' (Some i) ''accountId''
                  (js ''Account '' @ ra_account_number acct
                   @ js '' is a non-postable summary account (BR210-5).'')] else [])
        @ (if ra_type acct = []
           then [viol ''BR013-4'' (Some i) ''accountId''
                  (js ''Account '' @ ra_account_number acct @ js '' has no type.'')] else [])
        @ (if ra_type acct \<in> set pnl_types
              \<and> js_trim (case pl_dept_code line of Some d \<Rightarrow> d | None \<Rightarrow> []) = []
           then [viol ''BR013-5'' (Some i) ''deptCode''
                  (js ''P&L account '' @ ra_account_number acct @ js '' ('' @ ra_type acct
                   @ js '') requires a department code.'')] else []))"

definition store_violations :: "nat \<Rightarrow> posting_line \<Rightarrow> violation list" where
  "store_violations i line =
     (if pl_store_id line = [] \<or> js_trim (pl_store_id line) = []
      then [viol ''BR013-5'' (Some i) ''storeId'' (js ''Line requires a storeId dimension.'')]
      else [])"

text \<open>One turn of the loop over the lines: the violations so far and the two running totals.\<close>

fun eval_line :: "posting_context \<Rightarrow> violation list \<times> jsnum \<times> jsnum \<Rightarrow> nat \<times> posting_line
    \<Rightarrow> violation list \<times> jsnum \<times> jsnum" where
  "eval_line ctx (vs, tdr, tcr) (i, line) =
     (let drC = to_cents (pl_dr line); crC = to_cents (pl_cr line);
          nan = (drC = NaN \<or> crC = NaN)
      in (vs @ amount_violations i drC crC @ account_violations ctx i line @ store_violations i line,
          if nan then tdr else num_add tdr (math_max drC (Fin 0)),
          if nan then tcr else num_add tcr (math_max crC (Fin 0))))"

definition balance_violations :: "jsnum \<Rightarrow> jsnum \<Rightarrow> violation list" where
  "balance_violations tdr tcr =
     (if \<not> num_eq tdr tcr
      then [viol ''BR013-1'' None ''balance''
             (js ''Debits ('' @ to_fixed2 (cents_to_dollars tdr) @ js '') must equal credits (''
              @ to_fixed2 (cents_to_dollars tcr) @ js ''); difference ''
              @ to_fixed2 (cents_to_dollars (math_abs (num_sub tdr tcr))) @ js ''.'')]
      else [])"

definition period_violations :: "posting_header \<Rightarrow> posting_context \<Rightarrow> violation list" where
  "period_violations header ctx =
     (case pc_period ctx of
        None \<Rightarrow> [viol ''BR013-2'' None ''date''
                   (js ''No fiscal period contains date '' @ ph_date header @ js ''.'')]
      | Some p \<Rightarrow>
          if rp_status p \<noteq> js ''OPEN''
             \<and> \<not> (rp_status p = js ''SOFT_CLOSED'' \<and> ph_is_adjusting header)
          then [viol ''BR013-2'' None ''date''
                 (if rp_status p = js ''SOFT_CLOSED''
                  then js ''Period '' @ rp_code p @ js '' is SOFT_CLOSED; only an authorized adjusting entry (fiscal.je.mark_adjusting) may post here.''
                  else js ''Period '' @ rp_code p @ js '' is '' @ rp_status p
                       @ js ''; postings require an OPEN period.'')]
          else [])"

definition source_violations :: "posting_header \<Rightarrow> posting_context \<Rightarrow> violation list" where
  "source_violations header ctx =
     (case pc_source ctx of
        None \<Rightarrow> [viol ''BR013-3'' None ''sourceCode''
                   (js ''Journal source '' @ ph_source_code header @ js '' not found.'')]
      | Some s \<Rightarrow>
          (if rs_status s \<noteq> js ''ACTIVE''
           then [viol ''BR013-3'' None ''sourceCode''
                  (js ''Journal source '' @ rs_code s @ js '' is inactive.'')] else [])
        @ (if rs_class s \<noteq> pc_caller_class ctx
           then [viol ''BR013-3'' None ''sourceCode''
                  (js ''Journal source '' @ rs_code s @ js '' is '' @ rs_class s @ js ''; caller is ''
                   @ pc_caller_class ctx @ js ''.'')] else []))"

definition key_violations :: "posting_header \<Rightarrow> violation list" where
  "key_violations header =
     (if ph_idempotency_key header = [] \<or> js_trim (ph_idempotency_key header) = []
      then [viol ''BR013-6'' None ''idempotencyKey'' (js ''idempotencyKey is required.'')] else [])"

definition evaluate :: "posting_header \<Rightarrow> posting_line list \<Rightarrow> posting_context \<Rightarrow> evaluation_result" where
  "evaluate header lines ctx =
     (let vs0 = (if lines = [] then [\<lparr>v_rule = js ''BR013-1'', v_line_index = None, v_field = None,
                   v_diagnostic = js ''A journal must have at least one line.''\<rparr>] else []);
          (vs1, tdr, tcr) = foldl (eval_line ctx) (vs0, Fin 0, Fin 0) (enumerate 0 lines);
          vs = vs1 @ balance_violations tdr tcr @ period_violations header ctx
               @ source_violations header ctx @ key_violations header
      in \<lparr>er_pass = (vs = []), er_violations = vs, er_total_debits_cents = tdr,
          er_total_credits_cents = tcr, er_delta_dr = cents_to_dollars tdr,
          er_delta_cr = cents_to_dollars tcr\<rparr>)"

text \<open>Signed balance movement of an account, in dollars.\<close>

definition balance_delta :: "jstr \<Rightarrow> jsnum \<Rightarrow> jsnum \<Rightarrow> jsnum" where
  "balance_delta normal drC crC =
     cents_to_dollars (if normal = js ''CR'' then num_sub crC drC else num_sub drC crC)"

section \<open>Cents and dollars\<close>

lemma cents_to_dollars_Fin:
  assumes "\<bar>c\<bar> \<le> 2 ^ 50"
  shows "cents_to_dollars (num_of_int c) = Fin (fl_rat (of_int c / 100))"
proof (cases "c = 0")
  case True
  then show ?thesis by (simp add: cents_to_dollars_def)
next
  case False
  then have "1 \<le> \<bar>c\<bar>" by linarith
  then have 1: "1 \<le> \<bar>of_int c :: rat\<bar>" using of_int_le_iff [of 1 "\<bar>c\<bar>", where 'a = rat] by simp
  have 2: "\<bar>of_int c :: rat\<bar> \<le> 2 ^ 50"
    using assms of_int_le_iff [of "\<bar>c\<bar>" "2 ^ 50", where 'a = rat] by simp
  have "to_num (of_int c / 100) = Fin (fl_rat (of_int c / 100))"
    using 1 2 by (intro to_num_near) (simp_all add: abs_if split: if_splits)
  then show ?thesis unfolding cents_to_dollars_def by (simp only: math_round_of_int num_div_by.simps)
qed

lemma cents_of_dollars:
  assumes "\<bar>c\<bar> \<le> 2 ^ 50"
  shows "cents_of (cents_to_dollars (num_of_int c)) = num_of_int c"
proof (cases "c = 0")
  case True
  then show ?thesis by (simp add: cents_to_dollars_def cents_of_def)
next
  case False
  define z where "z = (of_int c :: rat)"
  have "1 \<le> \<bar>c\<bar>" using False by linarith
  then have 1: "1 \<le> \<bar>z\<bar>" using of_int_le_iff [of 1 "\<bar>c\<bar>", where 'a = rat] by (simp add: z_def)
  have 2: "\<bar>z\<bar> \<le> 2 ^ 50"
    using assms of_int_le_iff [of "\<bar>c\<bar>" "2 ^ 50", where 'a = rat] by (simp add: z_def)
  define d where "d = fl_rat (z / 100)"
  have "\<bar>d - z / 100\<bar> \<le> \<bar>z / 100\<bar> / 2 ^ 53"
    unfolding d_def using 1 by (intro fl_rat_near) (simp add: abs_if split: if_splits)
  then have e1: "\<bar>d * 100 - z\<bar> \<le> \<bar>z\<bar> / 2 ^ 53" by (simp add: abs_if field_simps split: if_splits)
  then have lo: "1 / 1024 \<le> \<bar>d * 100\<bar>" and hi: "\<bar>d * 100\<bar> \<le> 2 ^ 52" and w: "\<bar>d * 100\<bar> \<le> 2 * \<bar>z\<bar>"
    using 1 2 by (auto simp: abs_if field_simps split: if_splits)
  have e2: "\<bar>fl_rat (d * 100) - d * 100\<bar> \<le> \<bar>d * 100\<bar> / 2 ^ 53" by (rule fl_rat_near [OF lo])
  have "\<bar>fl_rat (d * 100) - z\<bar> \<le> \<bar>fl_rat (d * 100) - d * 100\<bar> + \<bar>d * 100 - z\<bar>" by linarith
  also have "\<dots> \<le> \<bar>d * 100\<bar> / 2 ^ 53 + \<bar>z\<bar> / 2 ^ 53" using e1 e2 by (intro add_mono)
  also have "\<dots> \<le> (2 * \<bar>z\<bar>) / 2 ^ 53 + \<bar>z\<bar> / 2 ^ 53"
    using w by (intro add_right_mono divide_right_mono) auto
  also have "\<dots> = 3 * \<bar>z\<bar> / 2 ^ 53" by (simp add: field_simps)
  also have "\<dots> < 1 / 2" using 2 by simp
  finally have "\<bar>fl_rat (d * 100) - of_int c\<bar> < 1 / 2" by (simp only: z_def)
  then have "math_round (Fin (fl_rat (d * 100))) = num_of_int c" by (rule round_near_int)
  moreover have "to_num (d * 100) = Fin (fl_rat (d * 100))" by (rule to_num_near [OF lo hi])
  ultimately show ?thesis
    using cents_to_dollars_Fin [OF assms]
    by (simp only: cents_of_def d_def z_def is_finite_num.simps num_mul.simps if_True)
qed

section \<open>What a clean evaluation means\<close>

definition line_violations :: "posting_context \<Rightarrow> nat \<times> posting_line \<Rightarrow> violation list" where
  "line_violations ctx il =
     (case il of (i, line) \<Rightarrow> amount_violations i (to_cents (pl_dr line)) (to_cents (pl_cr line))
        @ account_violations ctx i line @ store_violations i line)"

definition add_side :: "(posting_line \<Rightarrow> json option) \<Rightarrow> jsnum \<Rightarrow> posting_line \<Rightarrow> jsnum" where
  "add_side side t line =
     (if to_cents (pl_dr line) = NaN \<or> to_cents (pl_cr line) = NaN then t
      else num_add t (math_max (to_cents (side line)) (Fin 0)))"

definition total_side :: "(posting_line \<Rightarrow> json option) \<Rightarrow> posting_line list \<Rightarrow> jsnum" where
  "total_side side = foldl (add_side side) (Fin 0)"

lemma eval_fold:
  "foldl (eval_line ctx) (vs, a, b) ils =
     (vs @ concat (map (line_violations ctx) ils), foldl (add_side pl_dr) a (map snd ils),
      foldl (add_side pl_cr) b (map snd ils))"
  by (induction ils arbitrary: vs a b)
    (auto simp: line_violations_def add_side_def Let_def split: prod.splits)

definition account_ok :: "posting_context \<Rightarrow> posting_line \<Rightarrow> bool" where
  "account_ok ctx line =
     (case pc_accounts ctx (pl_account_id line) of
        None \<Rightarrow> False
      | Some acct \<Rightarrow> ra_status acct = js ''ACTIVE'' \<and> ra_postable acct \<and> ra_type acct \<noteq> []
          \<and> (ra_type acct = js ''REVENUE'' \<or> ra_type acct = js ''EXPENSE'' \<longrightarrow>
               (case pl_dept_code line of Some d \<Rightarrow> \<not> is_blank d | None \<Rightarrow> False)))"

text \<open>Exactly one side is positive and the other is zero.\<close>

definition one_sided :: "jsnum \<Rightarrow> jsnum \<Rightarrow> bool" where
  "one_sided drC crC = (num_lt (Fin 0) drC \<and> crC = Fin 0 \<or> drC = Fin 0 \<and> num_lt (Fin 0) crC)"

definition line_ok :: "posting_context \<Rightarrow> posting_line \<Rightarrow> bool" where
  "line_ok ctx line \<longleftrightarrow> one_sided (to_cents (pl_dr line)) (to_cents (pl_cr line))
     \<and> account_ok ctx line \<and> \<not> is_blank (pl_store_id line)"

definition period_ok :: "posting_header \<Rightarrow> posting_context \<Rightarrow> bool" where
  "period_ok header ctx =
     (case pc_period ctx of None \<Rightarrow> False
      | Some p \<Rightarrow> rp_status p = js ''OPEN''
                  \<or> rp_status p = js ''SOFT_CLOSED'' \<and> ph_is_adjusting header)"

definition source_ok :: "posting_context \<Rightarrow> bool" where
  "source_ok ctx =
     (case pc_source ctx of None \<Rightarrow> False
      | Some s \<Rightarrow> rs_status s = js ''ACTIVE'' \<and> rs_class s = pc_caller_class ctx)"

lemma num_tri: "a = NaN \<or> num_lt a (Fin 0) \<or> a = Fin 0 \<or> num_lt (Fin 0) a"
  by (cases a) auto

lemma num_lt_asym0: "\<not> (num_lt a (Fin 0) \<and> num_lt (Fin 0) a)"
  by (cases a) auto

lemma amount_violations_Nil: "amount_violations i drC crC = [] \<longleftrightarrow> one_sided drC crC"
  using num_tri [of drC] num_tri [of crC] num_lt_asym0 [of drC] num_lt_asym0 [of crC]
  by (auto simp: amount_violations_def one_sided_def Let_def)

lemma account_violations_Nil: "account_violations ctx i line = [] \<longleftrightarrow> account_ok ctx line"
  by (auto simp: account_violations_def account_ok_def pnl_types_def is_blank_def js_trim_def
      split: option.splits)

lemma store_violations_Nil: "store_violations i line = [] \<longleftrightarrow> \<not> is_blank (pl_store_id line)"
  by (auto simp: store_violations_def is_blank_def js_trim_def)

lemma line_violations_Nil: "line_violations ctx (i, line) = [] \<longleftrightarrow> line_ok ctx line"
  by (auto simp: line_violations_def line_ok_def amount_violations_Nil account_violations_Nil
      store_violations_Nil)

lemma period_violations_Nil: "period_violations header ctx = [] \<longleftrightarrow> period_ok header ctx"
  by (auto simp: period_violations_def period_ok_def split: option.splits)

lemma source_violations_Nil: "source_violations header ctx = [] \<longleftrightarrow> source_ok ctx"
  by (auto simp: source_violations_def source_ok_def split: option.splits)

lemma key_violations_Nil:
  "key_violations header = [] \<longleftrightarrow> \<not> is_blank (ph_idempotency_key header)"
  by (auto simp: key_violations_def is_blank_def js_trim_def)

lemma evaluate_totals:
  "er_total_debits_cents (evaluate header lines ctx) = total_side pl_dr lines"
  "er_total_credits_cents (evaluate header lines ctx) = total_side pl_cr lines"
  by (simp_all add: evaluate_def eval_fold total_side_def Let_def)

lemma evaluate_pass_violations:
  "er_pass (evaluate header lines ctx) \<longleftrightarrow> er_violations (evaluate header lines ctx) = []"
  by (simp add: evaluate_def eval_fold Let_def split: prod.splits)

lemma concat_line_violations_Nil:
  "concat (map (line_violations ctx) (enumerate k lines)) = [] \<longleftrightarrow> list_all (line_ok ctx) lines"
  by (induction lines arbitrary: k) (auto simp: line_violations_Nil)

lemma evaluate_pass:
  "er_pass (evaluate header lines ctx) \<longleftrightarrow>
     lines \<noteq> [] \<and> list_all (line_ok ctx) lines \<and> num_eq (total_side pl_dr lines) (total_side pl_cr lines)
     \<and> period_ok header ctx \<and> source_ok ctx \<and> \<not> is_blank (ph_idempotency_key header)"
  by (auto simp: evaluate_def eval_fold total_side_def Let_def concat_line_violations_Nil
      balance_violations_def period_violations_Nil source_violations_Nil key_violations_Nil
      simp del: concat_eq_Nil_conv)

lemmas evaluate_facts = evaluate_totals evaluate_pass_violations evaluate_pass

section \<open>Totals of whole cents\<close>

lemma total_side_of_int_aux:
  assumes "list_all (\<lambda>l. \<exists>d c. to_cents (pl_dr l) = num_of_int d \<and> to_cents (pl_cr l) = num_of_int c) ls"
    and "\<And>l. l \<in> set ls \<Longrightarrow> to_cents (side l) = num_of_int (f l) \<and> 0 \<le> f l"
    and "0 \<le> a" and "a + sum_list (map f ls) \<le> 2 ^ 53"
  shows "foldl (add_side side) (num_of_int a) ls = num_of_int (a + sum_list (map f ls))"
  using assms
proof (induction ls arbitrary: a)
  case (Cons l ls)
  have f: "to_cents (side l) = num_of_int (f l)" "0 \<le> f l" using Cons.prems(2) by auto
  have s: "0 \<le> sum_list (map f ls)"
    by (rule sum_list_nonneg) (use Cons.prems(2) in auto)
  have "add_side side (num_of_int a) l = num_of_int (a + f l)"
    using Cons.prems f s by (auto simp: add_side_def simp del: num_add.simps)
  moreover have "foldl (add_side side) (num_of_int (a + f l)) ls
      = num_of_int (a + f l + sum_list (map f ls))"
    using Cons.prems f by (intro Cons.IH) auto
  ultimately show ?case by (simp add: add.assoc)
qed simp

lemma total_side_of_int:
  assumes "list_all (\<lambda>l. \<exists>d c. to_cents (pl_dr l) = num_of_int d \<and> to_cents (pl_cr l) = num_of_int c) ls"
    and "\<And>l. l \<in> set ls \<Longrightarrow> to_cents (side l) = num_of_int (f l) \<and> 0 \<le> f l"
    and "sum_list (map f ls) \<le> 2 ^ 53"
  shows "total_side side ls = num_of_int (sum_list (map f ls))"
  using total_side_of_int_aux [of ls side f 0] assms by (simp add: total_side_def)

section \<open>Properties\<close>

text \<open>
  C29: the evaluator is exact. A journal passes precisely when it has a line, every line has one
  positive side, an active postable typed account (with a department on a P&L account) and a store,
  the two totals are equal, the period admits it, the source is active and of the caller's class,
  and the idempotency key is present.
\<close>

theorem evaluate_pass_iff:
  "er_pass (evaluate header lines ctx) \<longleftrightarrow>
     lines \<noteq> [] \<and> list_all (line_ok ctx) lines
     \<and> num_eq (er_total_debits_cents (evaluate header lines ctx))
              (er_total_credits_cents (evaluate header lines ctx))
     \<and> period_ok header ctx \<and> source_ok ctx \<and> \<not> is_blank (ph_idempotency_key header)"
  by (simp add: evaluate_pass evaluate_totals)

text \<open>
  C12: a journal that passes is balanced to the cent: when the line amounts denote the whole cents
  \<open>d l\<close> and \<open>c l\<close> and the totals stay within the exact range of a double, no rounding hides a
  difference, every line carries one positive side, and the totals are positive.
\<close>

theorem evaluate_pass_balances:
  assumes "er_pass (evaluate header lines ctx)"
    and "\<And>l. l \<in> set lines \<Longrightarrow> to_cents (pl_dr l) = num_of_int (d l) \<and> to_cents (pl_cr l) = num_of_int (c l)"
    and "sum_list (map d lines) \<le> 2 ^ 53" and "sum_list (map c lines) \<le> 2 ^ 53"
  shows "sum_list (map d lines) = sum_list (map c lines)
     \<and> list_all (\<lambda>l. 0 < d l \<and> c l = 0 \<or> d l = 0 \<and> 0 < c l) lines \<and> 0 < sum_list (map d lines)"
proof -
  have ok: "lines \<noteq> []" "list_all (line_ok ctx) lines"
    and eq: "num_eq (total_side pl_dr lines) (total_side pl_cr lines)"
    using assms(1) by (auto simp: evaluate_pass)
  have one: "0 < d l \<and> c l = 0 \<or> d l = 0 \<and> 0 < c l" if "l \<in> set lines" for l
    using ok(2) assms(2) [OF that] that by (auto simp: list_all_iff line_ok_def one_sided_def)
  have ints: "list_all (\<lambda>l. \<exists>d c. to_cents (pl_dr l) = num_of_int d \<and> to_cents (pl_cr l) = num_of_int c) lines"
    using assms(2) by (auto simp: list_all_iff)
  have "total_side pl_dr lines = num_of_int (sum_list (map d lines))"
    using ints assms(2,3) one by (intro total_side_of_int) force+
  moreover have "total_side pl_cr lines = num_of_int (sum_list (map c lines))"
    using ints assms(2,4) one by (intro total_side_of_int) force+
  ultimately have sums: "sum_list (map d lines) = sum_list (map c lines)" using eq by simp
  have nn: "0 \<le> d l" "0 \<le> c l" if "l \<in> set lines" for l using one [OF that] by auto
  obtain l ls where ls: "lines = l # ls" using ok(1) by (cases lines) auto
  have "0 \<le> sum_list (map d ls)" "0 \<le> sum_list (map c ls)"
    using nn ls by (auto intro!: sum_list_nonneg)
  moreover have "0 < d l \<or> 0 < c l" "0 \<le> d l" "0 \<le> c l" using one [of l] ls by auto
  ultimately have "0 < sum_list (map d lines)" using sums ls by auto
  with sums one show ?thesis by (auto simp: list_all_iff)
qed

definition demo_line :: "string \<Rightarrow> json option \<Rightarrow> json option \<Rightarrow> posting_line" where
  "demo_line acct dr cr =
     \<lparr>pl_account_id = js acct, pl_store_id = js ''S1'', pl_dept_code = None, pl_control_number = None,
      pl_apply_number = None, pl_dr = dr, pl_cr = cr, pl_memo = None, pl_tags = []\<rparr>"

definition demo_lines :: "posting_line list" where
  "demo_lines = [demo_line ''cash'' (Some (JNum (Fin 100))) None,
                 demo_line ''loan'' (Some JNull) (Some (JNum (Fin 100)))]"

definition demo_account :: "string \<Rightarrow> resolved_account" where
  "demo_account a = \<lparr>ra_id = js a, ra_account_number = js ''10100'', ra_type = js ''ASSET'',
     ra_normal_balance = js ''DR'', ra_postable = True, ra_status = js ''ACTIVE'', ra_schedule_code = None\<rparr>"

definition demo_context :: posting_context where
  "demo_context = \<lparr>pc_caller_class = js ''MANUAL'', pc_accounts = (\<lambda>_. Some (demo_account ''cash'')),
     pc_period = Some \<lparr>rp_id = js ''p1'', rp_code = js ''2026-08'', rp_status = js ''OPEN'', rp_adjustments_only = False\<rparr>,
     pc_source = Some \<lparr>rs_code = js ''GJ'', rs_class = js ''MANUAL'', rs_status = js ''ACTIVE''\<rparr>\<rparr>"

definition demo_header :: posting_header where
  "demo_header = \<lparr>ph_entity_id = js ''E1'', ph_date = js ''2026-08-15'', ph_source_code = js ''GJ'',
     ph_memo = None, ph_idempotency_key = js ''k1'', ph_is_adjusting = False\<rparr>"

lemma not_blank_demo [simp]: "\<not> is_blank (js ''S1'')" "\<not> is_blank (js ''k1'')"
  by code_simp+

lemma demo_cents [simp]: "cents_of (Fin 100) = Fin 10000"
  by (simp add: cents_of_def)

lemma demo_pass: "er_pass (evaluate demo_header demo_lines demo_context)"
  by (simp add: evaluate_pass demo_lines_def demo_line_def demo_header_def demo_context_def
      demo_account_def line_ok_def one_sided_def account_ok_def total_side_def add_side_def
      math_max_def period_ok_def source_ok_def num_eq_def)

theorem evaluate_pass_balances_witness:
  "sum_list (map (\<lambda>l. if pl_dr l = Some (JNum (Fin 100)) then 10000 else 0) demo_lines)
     = sum_list (map (\<lambda>l. if pl_cr l = Some (JNum (Fin 100)) then 10000 else 0) demo_lines)"
  using evaluate_pass_balances [OF demo_pass,
      of "\<lambda>l. if pl_dr l = Some (JNum (Fin 100)) then 10000 else 0"
         "\<lambda>l. if pl_cr l = Some (JNum (Fin 100)) then 10000 else 0"]
  by (auto simp: demo_lines_def demo_line_def)

text \<open>
  C3: whole cents survive the trip through dollars. Up to \<open>2 ^ 50\<close> cents, beyond every
  \<open>NUMERIC(15,2)\<close> amount, dividing by 100 into a double and reading the double back as cents
  returns the same cents, although the dollar amount itself is rounded.
\<close>

theorem to_cents_cents_to_dollars:
  assumes "\<bar>c\<bar> \<le> 2 ^ 50"
  shows "to_cents (Some (JNum (cents_to_dollars (num_of_int c)))) = num_of_int c"
  using cents_of_dollars [OF assms] by simp

theorem to_cents_cents_to_dollars_witness:
  "to_cents (Some (JNum (cents_to_dollars (num_of_int 1999)))) = num_of_int 1999"
  by (rule to_cents_cents_to_dollars) simp

end
