(* ===== verification/Blueprint.thy ===== *)
theory Blueprint
  imports Conditions JournalPosting
begin

text \<open>
  \<open>domain/posting-engine/dsl.ts\<close> and \<open>blueprint.ts\<close>: the rule pack, deterministic rule selection and
  the generation and re-verification of the journal blueprint.
\<close>

section \<open>The rule pack\<close>

record posting_allocation =
  al_account_number :: jstr
  al_store_id :: jstr
  al_dept_code :: "jstr option"
  al_bp :: jsnum
  al_control_number_path :: "jstr option"
  al_apply_number_path :: "jstr option"

record posting_group =
  pg_group_id :: jstr
  pg_base_amount_path :: jstr
  pg_debit_allocations :: "posting_allocation list"
  pg_debit_line_items_path :: "jstr option"
  pg_credit_allocations :: "posting_allocation list"
  pg_credit_line_items_path :: "jstr option"

record blueprint_definition =
  bd_memo_template :: "jstr option"
  bd_posting_groups :: "posting_group list"

record rule_definition =
  ru_rule_id :: jstr
  ru_priority :: jsnum
  ru_description :: jstr
  ru_condition :: "json option"
  ru_blueprint :: blueprint_definition

record rule_pack =
  pk_dsl_version :: jsnum
  pk_pack_key :: jstr
  pk_semver :: jstr
  pk_event_type :: jstr
  pk_schema_versions :: "jstr list"
  pk_tenant_scope :: jstr
  pk_entity_id :: jstr
  pk_effective_from :: jstr
  pk_effective_to :: "jstr option"
  pk_journal_source_code :: jstr
  pk_match_strategy :: jstr
  pk_no_match_behavior :: jstr
  pk_rules :: "rule_definition list"

definition dsl_version :: jsnum where
  "dsl_version = Fin 1"

definition supported_match_strategies :: "jstr list" where
  "supported_match_strategies = [js ''FIRST_MATCH'']"

definition supported_no_match_behaviors :: "jstr list" where
  "supported_no_match_behaviors = [js ''NO_RULE_MATCH_EXCEPTION'']"

definition account_mapping_values_pending :: jstr where
  "account_mapping_values_pending = js ''ACCOUNT_MAPPING_VALUES_PENDING''"

definition condition_operators :: "jstr list" where
  "condition_operators = map js
     [''and'', ''or'', ''not'', ''equals'', ''notEquals'', ''greaterThan'', ''greaterThanOrEqual'',
      ''lessThan'', ''lessThanOrEqual'', ''in'', ''notIn'', ''exists'', ''isNull'', ''isNotNull'']"

definition bp_total :: int where
  "bp_total = 10000"

definition rule_pack_top_level_fields :: "jstr list" where
  "rule_pack_top_level_fields = map js
     [''dslVersion'', ''packKey'', ''semver'', ''eventType'', ''supportedEventSchemaVersions'',
      ''tenantScope'', ''entityId'', ''effectiveFrom'', ''effectiveTo'', ''journalSourceCode'',
      ''matchStrategy'', ''noMatchBehavior'', ''rules'']"

definition rule_fields :: "jstr list" where
  "rule_fields = map js [''ruleId'', ''priority'', ''description'', ''condition'', ''blueprint'']"

definition blueprint_fields :: "jstr list" where
  "blueprint_fields = map js [''memoTemplate'', ''postingGroups'']"

definition posting_group_fields :: "jstr list" where
  "posting_group_fields = map js
     [''groupId'', ''baseAmountPath'', ''debitAllocations'', ''debitLineItemsPath'',
      ''creditAllocations'', ''creditLineItemsPath'']"

definition allocation_fields :: "jstr list" where
  "allocation_fields = map js
     [''accountNumber'', ''storeId'', ''deptCode'', ''bp'', ''controlNumberPath'', ''applyNumberPath'']"

section \<open>Lines and errors\<close>

text \<open>\<open>bl_control_number\<close> is \<open>None\<close> on a line item, which does not have the property at all.\<close>

record blueprint_line =
  bl_account_number :: jstr
  bl_store_id :: jstr
  bl_dept_code :: "jstr option"
  bl_dr :: jsnum
  bl_cr :: jsnum
  bl_memo :: "jstr option"
  bl_control_number :: "jstr option option"
  bl_apply_number :: "jstr option"

datatype blueprint_error = BlueprintResolutionError (bre_code: jstr) (bre_message: jstr)

record blueprint_violation =
  bv_code :: jstr
  bv_line_index :: "nat option"
  bv_message :: jstr

section \<open>Rule selection\<close>

text \<open>\<open>!rule.condition || evaluateCondition(rule.condition, envelope)\<close>.\<close>

definition rule_matches :: "source_event_envelope \<Rightarrow> rule_definition \<Rightarrow> cond_result" where
  "rule_matches env r =
     (if \<not> truthy (ru_condition r) then Inr True
      else evaluate_condition env (the (ru_condition r)))"

fun first_match :: "source_event_envelope \<Rightarrow> rule_definition list \<Rightarrow> condition_error + rule_definition option" where
  "first_match env [] = Inr None"
| "first_match env (r # rs) =
     bind_res (rule_matches env r) (\<lambda>m. if m then Inr (Some r) else first_match env rs)"

definition select_rule :: "rule_pack \<Rightarrow> source_event_envelope \<Rightarrow> condition_error + rule_definition option" where
  "select_rule pack env = first_match env (sort_key ru_priority (pk_rules pack))"

section \<open>Amounts\<close>

definition resolve_optional_string_path :: "jstr option \<Rightarrow> source_event_envelope \<Rightarrow> jstr option" where
  "resolve_optional_string_path path env =
     (case path of
        None \<Rightarrow> None
      | Some p \<Rightarrow> if p = [] then None
                  else (let raw = resolve_envelope_path env p
                        in if is_nullish raw then None else Some (opt_string raw)))"

definition bp_error :: "string \<Rightarrow> jstr \<Rightarrow> blueprint_error + 'a" where
  "bp_error code msg = Inl (BlueprintResolutionError (js code) msg)"

definition resolve_base_amount_cents :: "jstr \<Rightarrow> source_event_envelope \<Rightarrow> blueprint_error + jsnum" where
  "resolve_base_amount_cents path env =
     (let raw = resolve_envelope_path env path; cents = to_cents raw;
          what = js ''Base amount path '' @ dq @ path @ dq
      in if is_nullish raw \<or> raw = Some (JStr [])
         then bp_error ''REQUIRED_VALUE_MISSING'' (what @ js '' resolved to no value on the event.'')
         else if cents = NaN
         then bp_error ''INVALID_AMOUNT'' (what @ js '' did not resolve to a valid decimal amount.'')
         else if num_le cents (Fin 0)
         then bp_error ''NON_POSITIVE_AMOUNT'' (what @ js '' resolved to a non-positive amount.'')
         else Inr cents)"

text \<open>The loop of \<open>allocateCents\<close>: every allocation but the last, then the remainder.\<close>

definition share_cents :: "jsnum \<Rightarrow> jsnum \<Rightarrow> jsnum" where
  "share_cents tot bp = math_round (num_div_by (num_mul tot bp) (of_int bp_total))"

fun allocate_loop :: "jsnum \<Rightarrow> jsnum \<Rightarrow> jsnum list \<Rightarrow> jsnum list" where
  "allocate_loop tot running (bp # bp' # bps) =
     (let c = share_cents tot bp in c # allocate_loop tot (num_add running c) (bp' # bps))"
| "allocate_loop tot running bps = [num_sub tot running]"

definition allocate_cents :: "jsnum \<Rightarrow> jsnum list \<Rightarrow> jsnum list" where
  "allocate_cents tot bps = allocate_loop tot (Fin 0) bps"

section \<open>Line items\<close>

definition is_string_value :: "json option \<Rightarrow> bool" where
  "is_string_value v = (case v of Some (JStr s) \<Rightarrow> True | _ \<Rightarrow> False)"

definition is_raw_debit_line_item :: "json \<Rightarrow> bool" where
  "is_raw_debit_line_item v =
     (is_object_value v
      \<and> nonblank_string (js_prop v (js ''accountNumber''))
      \<and> nonblank_string (js_prop v (js ''storeId''))
      \<and> \<not> is_nullish (js_prop v (js ''amount''))
      \<and> (is_nullish (js_prop v (js ''deptCode'')) \<or> is_string_value (js_prop v (js ''deptCode'')))
      \<and> (is_nullish (js_prop v (js ''applyNumber'')) \<or> is_string_value (js_prop v (js ''applyNumber''))))"

datatype side = Dr | Cr

definition opt_str_prop :: "json \<Rightarrow> string \<Rightarrow> jstr option" where
  "opt_str_prop v k = (case js_prop v (js k) of Some (JStr s) \<Rightarrow> Some s | _ \<Rightarrow> None)"

definition item_line :: "side \<Rightarrow> jstr option \<Rightarrow> json \<Rightarrow> jsnum \<Rightarrow> blueprint_line" where
  "item_line sd memo item cents =
     \<lparr>bl_account_number = string_or_empty (js_prop item (js ''accountNumber'')),
      bl_store_id = string_or_empty (js_prop item (js ''storeId'')),
      bl_dept_code = opt_str_prop item ''deptCode'',
      bl_dr = (if sd = Dr then cents_to_dollars cents else Fin 0),
      bl_cr = (if sd = Cr then cents_to_dollars cents else Fin 0),
      bl_memo = memo, bl_control_number = None, bl_apply_number = opt_str_prop item ''applyNumber''\<rparr>"

fun items_loop :: "jstr \<Rightarrow> side \<Rightarrow> jstr option \<Rightarrow> nat \<Rightarrow> jsnum \<Rightarrow> json list
    \<Rightarrow> blueprint_error + blueprint_line list \<times> jsnum" where
  "items_loop what sd memo i tot [] = Inr ([], tot)"
| "items_loop what sd memo i tot (item # items) =
     (let cents = to_cents (js_prop item (js ''amount''));
          here = what @ js ''['' @ nat_str i @ js '']''
      in if \<not> is_raw_debit_line_item item
         then bp_error ''INVALID_LINE_ITEM_SHAPE'' (here @ js '' is missing accountNumber/storeId/amount.'')
         else if cents = NaN \<or> num_le cents (Fin 0)
         then bp_error ''INVALID_AMOUNT''
                (here @ js ''.amount did not resolve to a positive decimal amount.'')
         else bind_res (items_loop what sd memo (Suc i) (num_add tot cents) items)
                (\<lambda>(lines, t). Inr (item_line sd memo item cents # lines, t)))"

definition resolve_line_items :: "jstr \<Rightarrow> jstr \<Rightarrow> source_event_envelope \<Rightarrow> jstr option \<Rightarrow> side
    \<Rightarrow> blueprint_error + blueprint_line list \<times> jsnum" where
  "resolve_line_items field path env memo sd =
     (let what = field @ js '' '' @ dq @ path @ dq
      in case resolve_envelope_path env path of
           Some (JArr (v # vs)) \<Rightarrow> items_loop what sd memo 0 (Fin 0) (v # vs)
         | _ \<Rightarrow> bp_error ''MISSING_LINE_ITEMS'' (what @ js '' did not resolve to a non-empty array.''))"

section \<open>Memo template\<close>

definition is_path_char :: "cu \<Rightarrow> bool" where
  "is_path_char c = (is_lower c \<or> is_upper c \<or> is_digit c \<or> c = cu CHR ''_'' \<or> c = cu CHR ''.'')"

text \<open>A placeholder at the head of the text: its path and what follows it.\<close>

definition match_placeholder :: "jstr \<Rightarrow> (jstr \<times> jstr) option" where
  "match_placeholder s =
     (if starts_with (js ''{{'') s then
        (let a = dropWhile is_ws (drop 2 s); w = takeWhile is_path_char a;
             b = dropWhile is_ws (dropWhile is_path_char a)
         in if w \<noteq> [] \<and> starts_with (js ''}}'') b then Some (w, drop 2 b) else None)
      else None)"

lemma match_placeholder_length: "match_placeholder s = Some (p, r) \<Longrightarrow> length r < length s"
proof -
  assume m: "match_placeholder s = Some (p, r)"
  let ?a = "dropWhile is_ws (drop 2 s)"
  let ?b = "dropWhile is_ws (dropWhile is_path_char ?a)"
  have "length ?b \<le> length s"
  proof -
    have "length ?b \<le> length (dropWhile is_path_char ?a)" by (rule length_dropWhile_le)
    also have "\<dots> \<le> length ?a" by (rule length_dropWhile_le)
    also have "\<dots> \<le> length (drop 2 s)" by (rule length_dropWhile_le)
    finally show ?thesis by simp
  qed
  moreover have "starts_with (js ''}}'') ?b" and r: "r = drop 2 ?b"
    using m by (auto simp: match_placeholder_def Let_def split: if_splits)
  then have "length ?b > 0" by (cases ?b) (auto simp: starts_with_def js_def)
  ultimately show ?thesis unfolding r length_drop by linarith
qed

function replace_placeholders :: "(jstr \<Rightarrow> jstr) \<Rightarrow> jstr \<Rightarrow> jstr" where
  "replace_placeholders f [] = []"
| "replace_placeholders f (c # cs) =
     (case match_placeholder (c # cs) of
        Some (p, r) \<Rightarrow> f p @ replace_placeholders f r
      | None \<Rightarrow> c # replace_placeholders f cs)"
  by pat_completeness auto
termination
  by (relation "measure (length \<circ> snd)") (auto dest: match_placeholder_length)

definition resolve_memo_template :: "jstr option \<Rightarrow> source_event_envelope \<Rightarrow> jstr option" where
  "resolve_memo_template template env =
     (case template of
        None \<Rightarrow> None
      | Some t \<Rightarrow> if t = [] then None
                  else Some (replace_placeholders (\<lambda>p.
                    let v = resolve_envelope_path env p
                    in if is_nullish v then [] else opt_string v) t))"

section \<open>Generation\<close>

definition alloc_line :: "source_event_envelope \<Rightarrow> jstr option \<Rightarrow> side \<Rightarrow> posting_allocation \<times> jsnum
    \<Rightarrow> blueprint_line" where
  "alloc_line env memo sd ac =
     \<lparr>bl_account_number = al_account_number (fst ac), bl_store_id = al_store_id (fst ac),
      bl_dept_code = al_dept_code (fst ac),
      bl_dr = (if sd = Dr then cents_to_dollars (snd ac) else Fin 0),
      bl_cr = (if sd = Cr then cents_to_dollars (snd ac) else Fin 0),
      bl_memo = memo,
      bl_control_number = Some (resolve_optional_string_path (al_control_number_path (fst ac)) env),
      bl_apply_number = resolve_optional_string_path (al_apply_number_path (fst ac)) env\<rparr>"

definition alloc_lines :: "source_event_envelope \<Rightarrow> jstr option \<Rightarrow> side \<Rightarrow> jsnum \<Rightarrow> posting_allocation list
    \<Rightarrow> blueprint_line list" where
  "alloc_lines env memo sd base allocs =
     map (alloc_line env memo sd) (zip allocs (allocate_cents base (map al_bp allocs)))"

text \<open>One side of a group: its line items when it names a path to them, else its allocations.\<close>

definition side_lines :: "source_event_envelope \<Rightarrow> jstr option \<Rightarrow> posting_group \<Rightarrow> jsnum \<Rightarrow> side
    \<Rightarrow> blueprint_error + blueprint_line list" where
  "side_lines env memo g base sd =
     (let (field, path, allocs) = (case sd of
            Dr \<Rightarrow> (js ''debitLineItemsPath'', pg_debit_line_items_path g, pg_debit_allocations g)
          | Cr \<Rightarrow> (js ''creditLineItemsPath'', pg_credit_line_items_path g, pg_credit_allocations g))
      in case path of
           Some p \<Rightarrow>
             if p = [] then Inr (alloc_lines env memo sd base allocs)
             else bind_res (resolve_line_items field p env memo sd) (\<lambda>(lines, tot).
               if \<not> num_eq tot base
               then bp_error ''LINE_ITEMS_TOTAL_MISMATCH''
                 (field @ js '' '' @ dq @ p @ dq @ js '' items total '' @ num_str (cents_to_dollars tot)
                  @ js '' but baseAmountPath '' @ dq @ pg_base_amount_path g @ dq @ js '' resolved to ''
                  @ num_str (cents_to_dollars base) @ js ''.'')
               else Inr lines)
         | None \<Rightarrow> Inr (alloc_lines env memo sd base allocs))"

definition group_lines :: "source_event_envelope \<Rightarrow> jstr option \<Rightarrow> posting_group
    \<Rightarrow> blueprint_error + blueprint_line list" where
  "group_lines env template g =
     bind_res (resolve_base_amount_cents (pg_base_amount_path g) env) (\<lambda>base.
       let memo = resolve_memo_template template env in
       bind_res (side_lines env memo g base Dr) (\<lambda>ds.
       bind_res (side_lines env memo g base Cr) (\<lambda>cs. Inr (ds @ cs))))"

definition generate_blueprint :: "rule_definition \<Rightarrow> source_event_envelope
    \<Rightarrow> blueprint_error + blueprint_line list" where
  "generate_blueprint rule env =
     bind_res (map_res (group_lines env (bd_memo_template (ru_blueprint rule)))
       (bd_posting_groups (ru_blueprint rule))) (\<lambda>gs. Inr (concat gs))"

section \<open>Re-verification and hash\<close>

definition bviol :: "string \<Rightarrow> nat option \<Rightarrow> jstr \<Rightarrow> blueprint_violation" where
  "bviol code i msg = \<lparr>bv_code = js code, bv_line_index = i, bv_message = msg\<rparr>"

record verify_state =
  vs_violations :: "blueprint_violation list"
  vs_total_dr :: jsnum
  vs_total_cr :: jsnum
  vs_has_debit :: bool
  vs_has_credit :: bool

definition verify_line :: "verify_state \<Rightarrow> nat \<times> blueprint_line \<Rightarrow> verify_state" where
  "verify_line st il =
     (let i = fst il; line = snd il;
          drC = to_cents (Some (JNum (bl_dr line))); crC = to_cents (Some (JNum (bl_cr line)))
      in \<lparr>vs_violations = vs_violations st
           @ (if num_lt (Fin 0) drC \<and> num_lt (Fin 0) crC
              then [bviol ''LINE_BOTH_SIDES'' (Some i) (js ''Line has both a debit and a credit.'')] else [])
           @ (if num_eq drC (Fin 0) \<and> num_eq crC (Fin 0)
              then [bviol ''ZERO_VALUE_LINE'' (Some i) (js ''Line has a zero value on both sides.'')] else [])
           @ (if bl_store_id line = []
              then [bviol ''MISSING_STORE_ID'' (Some i) (js ''Line is missing a storeId dimension.'')] else []),
          vs_total_dr = num_add (vs_total_dr st) drC,
          vs_total_cr = num_add (vs_total_cr st) crC,
          vs_has_debit = (vs_has_debit st \<or> num_lt (Fin 0) drC),
          vs_has_credit = (vs_has_credit st \<or> num_lt (Fin 0) crC)\<rparr>)"

definition verify_blueprint :: "blueprint_line list \<Rightarrow> blueprint_violation list" where
  "verify_blueprint lines =
     (if lines = [] then [bviol ''EMPTY_BLUEPRINT'' None (js ''Blueprint has no lines.'')]
      else let st = foldl verify_line \<lparr>vs_violations = [], vs_total_dr = Fin 0, vs_total_cr = Fin 0,
                        vs_has_debit = False, vs_has_credit = False\<rparr> (enumerate 0 lines)
        in vs_violations st
           @ (if \<not> vs_has_debit st
              then [bviol ''NO_DEBIT_LINE'' None (js ''Blueprint has no debit line.'')] else [])
           @ (if \<not> vs_has_credit st
              then [bviol ''NO_CREDIT_LINE'' None (js ''Blueprint has no credit line.'')] else [])
           @ (if \<not> num_eq (vs_total_dr st) (vs_total_cr st)
              then [bviol ''UNBALANCED_BLUEPRINT'' None
                     (js ''Debit total ('' @ num_str (cents_to_dollars (vs_total_dr st))
                      @ js '') does not equal credit total ('' @ num_str (cents_to_dollars (vs_total_cr st))
                      @ js '').'')] else []))"

definition blueprint_line_json :: "blueprint_line \<Rightarrow> json" where
  "blueprint_line_json l = JObj (
     [(js ''accountNumber'', JStr (bl_account_number l)), (js ''storeId'', JStr (bl_store_id l)),
      (js ''deptCode'', opt_json (bl_dept_code l)), (js ''dr'', JNum (bl_dr l)), (js ''cr'', JNum (bl_cr l)),
      (js ''memo'', opt_json (bl_memo l))]
     @ (case bl_control_number l of None \<Rightarrow> [] | Some c \<Rightarrow> [(js ''controlNumber'', opt_json c)])
     @ [(js ''applyNumber'', opt_json (bl_apply_number l))])"

definition hash_blueprint :: "(jstr \<Rightarrow> jstr) \<Rightarrow> jstr \<Rightarrow> blueprint_line list \<Rightarrow> jstr" where
  "hash_blueprint sha256 rule_id lines = sha256 (canonical_stringify (Some (JObj
     [(js ''ruleId'', JStr rule_id), (js ''lines'', JArr (map blueprint_line_json lines))])))"


section \<open>Selection\<close>

lemma first_match_sorted:
  assumes "sorted (map f rs)" and "distinct (map f rs)"
  shows "first_match env rs = Inr (Some r) \<longleftrightarrow>
     r \<in> set rs \<and> rule_matches env r = Inr True
     \<and> (\<forall>x \<in> set rs. f x < (f r :: 'k::linorder) \<longrightarrow> rule_matches env x = Inr False)"
  using assms
proof (induction rs)
  case (Cons a rs)
  have lt: "f a < f x" if "x \<in> set rs" for x
    using Cons.prems that by (auto simp: less_le image_iff)
  have nlt: "\<not> f x < f a" if "x \<in> set rs" for x using lt [OF that] by simp
  consider e where "rule_matches env a = Inl e" | "rule_matches env a = Inr True"
    | "rule_matches env a = Inr False"
    by (metis (full_types) sum.exhaust)
  then show ?case
  proof cases
    case 2
    then show ?thesis using lt nlt by (auto dest: lt)
  qed (use Cons lt in \<open>auto\<close>)
qed simp

lemma to_num_close:
  assumes "1 / 1048576 \<le> \<bar>x\<bar>" and "\<bar>x\<bar> \<le> 2 ^ 52"
  shows "\<exists>y. to_num x = Fin y \<and> \<bar>y - x\<bar> \<le> \<bar>x\<bar> / 2 ^ 53"
proof -
  have "(2::rat) powi (- 1022) \<le> 2 powi (- 20)" by (simp only: powi2_le_iff)
  also have "(2::rat) powi (- 20) = 1 / 1048576" by (simp add: power_int_def power_one_over)
  finally have e: "\<bar>fl_rat x - x\<bar> \<le> \<bar>x\<bar> / 2 ^ 53" using assms(1) by (intro fl_rat_error) linarith
  also have "\<dots> \<le> 1" using assms(2) by simp
  finally have "\<bar>fl_rat x\<bar> \<le> 2 ^ 52 + 1" using assms(2) by linarith
  also have "\<dots> < (2::rat) ^ 53" by simp
  finally have "\<bar>fl_rat x\<bar> < num_limit" using two53_lt_limit by linarith
  then show ?thesis using e by (auto simp: to_num_def Let_def abs_less_iff not_le)
qed

lemma share_cents_of_int:
  assumes t: "0 < t" "t \<le> 2 ^ 39" and b: "0 < b" "b \<le> 10000"
  shows "\<exists>c. share_cents (num_of_int t) (num_of_int b) = num_of_int c \<and> \<bar>10000 * c - t * b\<bar> \<le> 5000"
proof -
  have "t * b \<le> 2 ^ 39 * 10000" using t b by (intro mult_mono) auto
  moreover have tb: "1 \<le> t * b" using t b by (metis int_one_le_iff_zero_less mult_pos_pos)
  ultimately have ex: "num_mul (num_of_int t) (num_of_int b) = num_of_int (t * b)"
    using to_num_of_int [of "t * b"] by simp
  define z :: rat where "z = of_int (t * b)"
  let ?x = "z / 10000"
  have x1: "1 \<le> z" using tb by (simp only: of_int_1_le_iff z_def)
  have x2: "z \<le> 5497558138880000"
    using \<open>t * b \<le> 2 ^ 39 * 10000\<close> of_int_le_iff [of "t * b" 5497558138880000, where 'a = rat]
    by (simp add: z_def)
  have "1 / 1048576 \<le> \<bar>?x\<bar>" "\<bar>?x\<bar> \<le> 2 ^ 52" using x1 x2 by (simp_all add: abs_if)
  then obtain y where y: "to_num ?x = Fin y" "\<bar>y - ?x\<bar> \<le> \<bar>?x\<bar> / 2 ^ 53"
    using to_num_close by blast
  define c where "c = \<lfloor>y + 1 / 2\<rfloor>"
  have sc: "share_cents (num_of_int t) (num_of_int b) = num_of_int c"
    by (simp only: share_cents_def ex num_div_by.simps bp_total_def of_int_numeral z_def [symmetric] y(1) math_round.simps c_def)
  have "\<bar>?x\<bar> / 2 ^ 53 < 1 / 10000" using x1 x2 by (simp add: abs_if)
  then have "\<bar>y - ?x\<bar> < 1 / 10000" using y(2) by linarith
  moreover have "of_int c \<le> y + 1 / 2" "y + 1 / 2 < of_int c + 1" unfolding c_def by linarith+
  ultimately have "\<bar>of_int c - ?x\<bar> < 1 / 2 + 1 / 10000" by linarith
  then have "of_int c - ?x < 5001 / 10000" "?x - of_int c < 5001 / 10000" unfolding abs_less_iff by linarith+
  then have "10000 * of_int c - z < 5001" "z - 10000 * of_int c < 5001" by linarith+
  then have "\<bar>of_int (10000 * c - t * b) :: rat\<bar> < 5001" unfolding abs_less_iff z_def by simp
  then have "(of_int \<bar>10000 * c - t * b\<bar> :: rat) < of_int 5001" by simp
  then have "\<bar>10000 * c - t * b\<bar> < 5001" by (simp only: of_int_less_iff)
  with sc show ?thesis by auto
qed


section \<open>Exact allocation\<close>

lemma allocate_loop_of_int:
  assumes "0 < t" "t \<le> 2 ^ 39" and "bs \<noteq> []" and "list_all (\<lambda>b. 0 < b \<and> b \<le> 10000) bs"
    and "\<bar>a\<bar> + int (length bs) * (2 ^ 39 + 1) \<le> 2 ^ 53 - 2 ^ 39"
  shows "\<exists>cs. allocate_loop (num_of_int t) (num_of_int a) (map num_of_int bs) = map num_of_int cs
     \<and> length cs = length bs \<and> sum_list cs = t - a
     \<and> list_all2 (\<lambda>c b. \<bar>10000 * c - t * b\<bar> \<le> 5000) (butlast cs) (butlast bs)
     \<and> list_all (\<lambda>c. \<bar>c\<bar> \<le> 2 ^ 53) cs"
  using assms(3-)
proof (induction bs arbitrary: a rule: induct_list012)
  case (2 b)
  have "\<bar>t - a\<bar> \<le> 2 ^ 53" using 2 assms by auto
  then show ?case using 2 assms by (intro exI [of _ "[t - a]"]) simp
next
  case (3 b b' bs)
  obtain c where c: "share_cents (num_of_int t) (num_of_int b) = num_of_int c" "\<bar>10000 * c - t * b\<bar> \<le> 5000"
    using share_cents_of_int [of t b] assms(1,2) 3 by auto
  have "t * b \<le> 2 ^ 39 * 10000" using assms(1,2) 3 by (intro mult_mono) auto
  moreover have "0 \<le> t * b" using assms(1) 3 by auto
  ultimately have cb: "\<bar>c\<bar> \<le> 2 ^ 39 + 1" using c(2) by simp
  then have "\<bar>a + c\<bar> \<le> 2 ^ 53" using 3 by auto
  then have add: "num_add (num_of_int a) (num_of_int c) = num_of_int (a + c)" by (rule num_add_of_int)
  have lim: "\<bar>a + c\<bar> + int (length (b' # bs)) * (2 ^ 39 + 1) \<le> 2 ^ 53 - 2 ^ 39"
    using 3(5) cb abs_triangle_ineq [of a c] by simp
  obtain cs where cs: "allocate_loop (num_of_int t) (num_of_int (a + c)) (map num_of_int (b' # bs)) = map num_of_int cs"
    "length cs = length (b' # bs)" "sum_list cs = t - (a + c)"
    "list_all2 (\<lambda>c b. \<bar>10000 * c - t * b\<bar> \<le> 5000) (butlast cs) (butlast (b' # bs))"
    "list_all (\<lambda>c. \<bar>c\<bar> \<le> 2 ^ 53) cs"
    using 3(2) [of "a + c"] 3(3-) lim by auto
  then have "cs \<noteq> []" by auto
  then show ?case using cs c add cb
    by (intro exI [of _ "c # cs"]) (simp add: Let_def del: num_add.simps)
qed simp

lemma sum_deviation:
  assumes "list_all2 (\<lambda>c b. \<bar>10000 * c - t * b\<bar> \<le> (5000::int)) cs bs"
  shows "\<bar>10000 * sum_list cs - t * sum_list bs\<bar> \<le> 5000 * int (length bs)"
  using assms by (induction rule: list_all2_induct) (auto simp: algebra_simps)

lemma le_sum_list_pos: "list_all (\<lambda>b. 0 < b) bs \<Longrightarrow> b \<in> set bs \<Longrightarrow> b \<le> sum_list (bs :: int list)"
proof (induction bs)
  case (Cons a bs)
  then have "0 \<le> sum_list bs" by (intro sum_list_nonneg) (auto simp: list_all_iff less_imp_le)
  then show ?case using Cons by auto
qed simp

lemma length_le_sum_pos: "list_all (\<lambda>b. 0 < b) bs \<Longrightarrow> int (length bs) \<le> sum_list bs"
  by (induction bs) auto

lemma sum_butlast_last: "xs \<noteq> [] \<Longrightarrow> sum_list (butlast xs) + last xs = sum_list (xs :: int list)"
  by (induction xs) auto

lemma abs_alloc_bound:
  assumes "\<bar>10000 * c - t * b\<bar> \<le> 5000 * n" "0 < t" "t \<le> 2 ^ 39" "0 < b" "b \<le> 10000" "n \<le> (10000 :: int)"
  shows "\<bar>c\<bar> \<le> 2 ^ 50"
proof -
  have "t * b \<le> 2 ^ 39 * 10000" using assms by (intro mult_mono) auto
  moreover have "0 \<le> t * b" using assms by (intro mult_nonneg_nonneg) auto
  ultimately show ?thesis using assms(1,6) by (auto simp: abs_le_iff)
qed

lemma allocate_cents_of_int:
  assumes "0 < t" and "t \<le> 2 ^ 39" and "bs \<noteq> []"
    and "list_all (\<lambda>b. 0 < b) bs" and "sum_list bs = 10000"
  shows "\<exists>cs. allocate_cents (num_of_int t) (map num_of_int bs) = map num_of_int cs
     \<and> length cs = length bs \<and> sum_list cs = t
     \<and> list_all2 (\<lambda>c b. \<bar>10000 * c - t * b\<bar> \<le> 5000) (butlast cs) (butlast bs)
     \<and> \<bar>10000 * last cs - t * last bs\<bar> \<le> 5000 * int (length bs - 1)
     \<and> list_all (\<lambda>c. \<bar>c\<bar> \<le> 2 ^ 50) cs"
proof -
  have ok: "list_all (\<lambda>b. 0 < b \<and> b \<le> 10000) bs"
    using le_sum_list_pos [OF assms(4)] assms(4,5) by (auto simp: list_all_iff)
  have len: "int (length bs) \<le> 10000" using length_le_sum_pos [OF assms(4)] assms(5) by simp
  obtain cs where cs: "allocate_loop (num_of_int t) (num_of_int 0) (map num_of_int bs) = map num_of_int cs"
    "length cs = length bs" "sum_list cs = t - 0"
    "list_all2 (\<lambda>c b. \<bar>10000 * c - t * b\<bar> \<le> 5000) (butlast cs) (butlast bs)"
    using allocate_loop_of_int [of t bs 0] assms ok len by auto
  have "cs \<noteq> []" using cs(2) assms(3) by auto
  then have l: "last cs = t - sum_list (butlast cs)" "last bs = 10000 - sum_list (butlast bs)"
    using sum_butlast_last [of cs] sum_butlast_last [of bs] cs(3) assms(3,5) by simp_all
  have "10000 * last cs - t * last bs
      = - (10000 * sum_list (butlast cs) - t * sum_list (butlast bs))"
    unfolding l by (simp add: algebra_simps)
  then have dev: "\<bar>10000 * last cs - t * last bs\<bar> \<le> 5000 * int (length bs - 1)"
    using sum_deviation [OF cs(4)] by (simp only: abs_minus_cancel length_butlast)
  have "\<bar>last cs\<bar> \<le> 2 ^ 50"
    using ok len assms(1-3)
    by (intro abs_alloc_bound [OF dev]) (auto simp: list_all_iff)
  moreover have "list_all (\<lambda>c. \<bar>c\<bar> \<le> 2 ^ 50) (butlast cs)"
    unfolding list_all_length
  proof (intro allI impI)
    fix n assume n: "n < length (butlast cs)"
    then have "butlast bs ! n \<in> set bs" using cs(2) by (intro in_set_butlastD [OF nth_mem]) simp
    then show "\<bar>butlast cs ! n\<bar> \<le> 2 ^ 50"
      using list_all2_nthD [OF cs(4) n] ok assms(1,2)
      by (intro abs_alloc_bound [of _ t "butlast bs ! n" 1]) (auto simp: list_all_iff)
  qed
  ultimately have "list_all (\<lambda>c. \<bar>c\<bar> \<le> 2 ^ 50) (butlast cs @ [last cs])" by simp
  then have "list_all (\<lambda>c. \<bar>c\<bar> \<le> 2 ^ 50) cs"
    unfolding append_butlast_last_id [OF \<open>cs \<noteq> []\<close>] .
  with cs dev show ?thesis by (intro exI [of _ cs]) (simp add: allocate_cents_def)
qed

section \<open>Generated blueprints balance\<close>

definition dollar_cents :: "jsnum \<Rightarrow> int" where
  "dollar_cents a = \<lfloor>num_val (to_cents (Some (JNum a)))\<rfloor>"

lemma dollar_cents_dollars [simp]: "\<bar>c\<bar> \<le> 2 ^ 50 \<Longrightarrow> dollar_cents (cents_to_dollars (num_of_int c)) = c"
  by (simp add: dollar_cents_def cents_of_dollars)

lemma dollar_cents_0 [simp]: "dollar_cents (Fin 0) = 0"
  by (simp add: dollar_cents_def cents_of_def)

definition side_cents :: "side \<Rightarrow> blueprint_line \<Rightarrow> int" where
  "side_cents sd l = (case sd of Dr \<Rightarrow> dollar_cents (bl_dr l) | Cr \<Rightarrow> dollar_cents (bl_cr l))"

text \<open>A running total that has left the exact range never comes back.\<close>

definition big_num :: "jsnum \<Rightarrow> bool" where
  "big_num x = (x = PInf \<or> (\<exists>q. x = Fin q \<and> 2 ^ 53 \<le> q))"

lemma fl_rat_big: "2 ^ 53 \<le> z \<Longrightarrow> 2 ^ 53 \<le> fl_rat z"
proof -
  assume z: "2 ^ 53 \<le> z"
  then have z0: "0 < z" by (rule less_le_trans [rotated]) simp
  have "2 powi 53 \<le> z" using z by (simp add: power_int_def)
  then have k: "53 \<le> ilog2 z" by (rule ilog2_ge)
  define e where "e = ilog2 z - 52"
  have m: "max (ilog2 \<bar>z\<bar> - 52) (- 1074) = e" using k z0 by (simp add: e_def)
  have pe: "(0::rat) < 2 powi e" by simp
  have "2 powi (52 + e) \<le> z" using ilog2_bounds(1) [OF z0] by (simp add: e_def)
  then have "of_int (2 ^ 52) * 2 powi e \<le> z" by (simp add: power_int_add)
  then have "of_int (2 ^ 52) \<le> z / 2 powi e" using pe by (simp only: pos_le_divide_eq)
  then have "2 ^ 52 \<le> round_even (z / 2 powi e)" by (rule round_even_ge)
  then have "(of_int (2 ^ 52) :: rat) \<le> of_int (round_even (z / 2 powi e))" by (simp only: of_int_le_iff)
  moreover have "(2 :: rat) powi 1 \<le> 2 powi e" using k by (simp only: powi2_le_iff e_def)
  ultimately have "of_int (2 ^ 52) * 2 powi 1 \<le> of_int (round_even (z / 2 powi e)) * (2::rat) powi e"
    using pe by (intro mult_mono) auto
  then show ?thesis using z0 m by (simp add: fl_rat_def)
qed

lemma to_num_big: "2 ^ 53 \<le> z \<Longrightarrow> big_num (to_num z)"
  using fl_rat_big [of z] num_limit_pos(1) by (auto simp: to_num_def Let_def big_num_def)

lemma num_add_big: "big_num x \<Longrightarrow> y = PInf \<or> (\<exists>c > 0. y = num_of_int c) \<Longrightarrow> big_num (num_add x y)"
  by (auto simp: big_num_def [of x]) (auto simp: big_num_def [of PInf] intro!: to_num_big)

lemma to_cents_shape: "to_cents v = NaN \<or> to_cents v = PInf \<or> to_cents v = NInf \<or> (\<exists>n. to_cents v = num_of_int n)"
proof -
  have "math_round x = NaN \<or> math_round x = PInf \<or> math_round x = NInf \<or> (\<exists>n. math_round x = num_of_int n)" for x
    by (cases x) (auto simp: math_round.simps)
  then have "cents_of x = NaN \<or> cents_of x = PInf \<or> cents_of x = NInf \<or> (\<exists>n. cents_of x = num_of_int n)" for x
    by (simp add: cents_of_def)
  moreover have "\<exists>n. Fin 0 = num_of_int n" by (rule exI [of _ 0]) simp
  ultimately show ?thesis by (induction v rule: to_cents.induct) auto
qed

lemma positive_cents:
  assumes "to_cents v \<noteq> NaN" and "\<not> num_le (to_cents v) (Fin 0)"
  shows "to_cents v = PInf \<or> (\<exists>c > 0. to_cents v = num_of_int c)"
  using to_cents_shape [of v] assms by (auto simp: num_le_def num_eq_def not_le)

lemma items_loop_big:
  "items_loop what sd memo i a items = Inr (lines, tot) \<Longrightarrow> big_num a \<Longrightarrow> big_num tot"
proof (induction items arbitrary: i a lines)
  case (Cons item items)
  let ?c = "to_cents (js_prop item (js ''amount''))"
  have c: "?c \<noteq> NaN" "\<not> num_le ?c (Fin 0)"
    and r: "\<exists>ls. items_loop what sd memo (Suc i) (num_add a ?c) items = Inr (ls, tot)"
    using Cons.prems(1) by (auto simp: Let_def bp_error_def res_simps split: if_splits)
  then show ?case using Cons.IH num_add_big [OF Cons.prems(2)] positive_cents [OF c] by blast
qed simp


lemma side_cents_item [simp]:
  "\<bar>c\<bar> \<le> 2 ^ 50 \<Longrightarrow> side_cents sd (item_line sd' memo item (num_of_int c)) = (if sd = sd' then c else 0)"
  by (cases sd; cases sd') (simp_all add: side_cents_def item_line_def)

lemma side_cents_alloc [simp]:
  "\<bar>c\<bar> \<le> 2 ^ 50 \<Longrightarrow> side_cents sd (alloc_line env memo sd' (a, num_of_int c)) = (if sd = sd' then c else 0)"
  by (cases sd; cases sd') (simp_all add: side_cents_def alloc_line_def)

lemma items_loop_sum:
  "items_loop what sd memo i (num_of_int a) items = Inr (lines, num_of_int t) \<Longrightarrow> 0 \<le> a \<Longrightarrow> t \<le> 2 ^ 39 \<Longrightarrow>
     a \<le> t \<and> sum_list (map (side_cents sd') lines) = (if sd' = sd then t - a else 0)"
proof (induction items arbitrary: i a lines)
  case (Cons item items)
  let ?c = "to_cents (js_prop item (js ''amount''))"
  obtain ls where c: "?c \<noteq> NaN" "\<not> num_le ?c (Fin 0)"
    and ls: "items_loop what sd memo (Suc i) (num_add (num_of_int a) ?c) items = Inr (ls, num_of_int t)"
    and lines: "lines = item_line sd memo item ?c # ls"
    using Cons.prems(1) by (auto simp: Let_def bp_error_def res_simps split: if_splits)
  have nb: "\<not> big_num (num_of_int t)"
  proof
    assume "big_num (num_of_int t)"
    then have "of_int (2 ^ 53) \<le> (of_int t :: rat)" by (simp add: big_num_def)
    then have "2 ^ 53 \<le> t" by (simp only: of_int_le_iff)
    then show False using Cons.prems(3) by simp
  qed
  have nb': "\<not> big_num (num_add (num_of_int a) ?c)" using items_loop_big [OF ls] nb by blast
  have "?c \<noteq> PInf" using nb' by (auto simp: big_num_def)
  then obtain k where k: "0 < k" "?c = num_of_int k" using positive_cents [OF c] by blast
  have "a + k \<le> 2 ^ 53"
  proof (rule ccontr)
    assume "\<not> a + k \<le> 2 ^ 53"
    then have "of_int (2 ^ 53) \<le> (of_int (a + k) :: rat)" by (simp only: of_int_le_iff)
    then have "big_num (to_num (of_int a + of_int k))" by (intro to_num_big) simp
    then show False using nb' k by simp
  qed
  then have "num_add (num_of_int a) ?c = num_of_int (a + k)" using k Cons.prems(2) num_add_of_int [of a k] by simp
  then have IH: "a + k \<le> t \<and> sum_list (map (side_cents sd') ls) = (if sd' = sd then t - (a + k) else 0)"
    using Cons.IH [of "Suc i" "a + k" ls] ls k Cons.prems by simp
  then have "\<bar>k\<bar> \<le> 2 ^ 50" using k Cons.prems by simp
  then show ?case using IH k by (simp add: lines)
qed simp

definition allocations_ok :: "posting_allocation list \<Rightarrow> bool" where
  "allocations_ok as = (\<exists>bs. map al_bp as = map num_of_int bs \<and> bs \<noteq> [] \<and> list_all (\<lambda>b. 0 < b) bs
     \<and> sum_list bs = 10000)"

definition has_items :: "jstr option \<Rightarrow> bool" where
  "has_items path = (path \<noteq> None \<and> path \<noteq> Some [])"

definition group_ok :: "posting_group \<Rightarrow> bool" where
  "group_ok g = ((has_items (pg_debit_line_items_path g) \<or> allocations_ok (pg_debit_allocations g))
     \<and> (has_items (pg_credit_line_items_path g) \<or> allocations_ok (pg_credit_allocations g)))"

lemma alloc_lines_sum:
  assumes "allocations_ok as" and "0 < t" and "t \<le> 2 ^ 39"
  shows "sum_list (map (side_cents sd') (alloc_lines env memo sd (num_of_int t) as)) = (if sd' = sd then t else 0)"
proof -
  obtain bs where bs: "map al_bp as = map num_of_int bs" "bs \<noteq> []" "list_all (\<lambda>b. 0 < b) bs" "sum_list bs = 10000"
    using assms(1) by (auto simp: allocations_ok_def)
  obtain cs where cs: "allocate_cents (num_of_int t) (map num_of_int bs) = map num_of_int cs"
    "length cs = length bs" "sum_list cs = t" "list_all (\<lambda>c. \<bar>c\<bar> \<le> 2 ^ 50) cs"
    using allocate_cents_of_int [OF assms(2,3) bs(2-4)] by blast
  have len: "length as = length cs" using arg_cong [OF bs(1), of length] cs(2) by simp
  have "sum_list (map (side_cents sd') (map (alloc_line env memo sd) (zip as (map num_of_int cs))))
      = (if sd' = sd then sum_list cs else 0)"
    using len cs(4) by (induction as cs rule: list_induct2) auto
  then show ?thesis using cs bs by (simp add: alloc_lines_def)
qed


lemma resolve_base_positive:
  assumes "resolve_base_amount_cents path env = Inr base"
  shows "base = PInf \<or> (\<exists>t > 0. base = num_of_int t)"
  using assms positive_cents [of "resolve_envelope_path env path"]
  by (auto simp: resolve_base_amount_cents_def Let_def bp_error_def split: if_splits)

lemma side_lines_sum:
  assumes "side_lines env memo g (num_of_int t) sd = Inr ls" and "group_ok g" and "0 < t" and "t \<le> 2 ^ 39"
  shows "sum_list (map (side_cents sd') ls) = (if sd' = sd then t else 0)"
proof -
  define path where "path = (case sd of Dr \<Rightarrow> pg_debit_line_items_path g | Cr \<Rightarrow> pg_credit_line_items_path g)"
  define allocs where "allocs = (case sd of Dr \<Rightarrow> pg_debit_allocations g | Cr \<Rightarrow> pg_credit_allocations g)"
  show ?thesis
  proof (cases "has_items path")
    case False
    then have "ls = alloc_lines env memo sd (num_of_int t) allocs"
      using assms(1) by (cases sd) (auto simp: side_lines_def has_items_def path_def allocs_def)
    moreover have "allocations_ok allocs"
      using False assms(2) by (cases sd) (auto simp: group_ok_def path_def allocs_def)
    ultimately show ?thesis using assms(3,4) by (simp add: alloc_lines_sum)
  next
    case True
    then obtain p field where p: "path = Some p" "p \<noteq> []" by (auto simp: has_items_def)
    then obtain field where r: "resolve_line_items field p env memo sd = Inr (ls, num_of_int t)"
      using assms(1)
      by (cases sd) (auto simp: side_lines_def path_def res_simps bp_error_def num_eq_def split: if_splits)
    then obtain what v vs where "items_loop what sd memo 0 (num_of_int 0) (v # vs) = Inr (ls, num_of_int t)"
      by (auto simp: resolve_line_items_def Let_def bp_error_def simp del: items_loop.simps
          split: option.splits json.splits list.splits)
    from items_loop_sum [OF this _ assms(4), of sd'] show ?thesis by simp
  qed
qed

lemma group_lines_sum:
  assumes "group_lines env template g = Inr ls" and "group_ok g"
    and "\<And>base. resolve_base_amount_cents (pg_base_amount_path g) env = Inr base \<Longrightarrow> num_le base (num_of_int (2 ^ 39))"
  shows "\<exists>t > 0. resolve_base_amount_cents (pg_base_amount_path g) env = Inr (num_of_int t)
     \<and> (\<forall>sd. sum_list (map (side_cents sd) ls) = t)"
proof -
  obtain base ds cs where b: "resolve_base_amount_cents (pg_base_amount_path g) env = Inr base"
    and d: "side_lines env (resolve_memo_template template env) g base Dr = Inr ds"
    and c: "side_lines env (resolve_memo_template template env) g base Cr = Inr cs" and ls: "ls = ds @ cs"
    using assms(1) by (auto simp: group_lines_def Let_def res_simps)
  have "base \<noteq> PInf" using assms(3) [OF b] by (auto simp: num_le_def num_eq_def)
  then obtain t where t: "0 < t" "base = num_of_int t" using resolve_base_positive [OF b] by blast
  then have "(of_int t :: rat) \<le> of_int (2 ^ 39)" using assms(3) [OF b] by (auto simp: num_le_def num_eq_def)
  then have "t \<le> 2 ^ 39" by (simp only: of_int_le_iff)
  then have "sum_list (map (side_cents sd) ls) = t" for sd
    using side_lines_sum [OF d [unfolded t] assms(2)] side_lines_sum [OF c [unfolded t] assms(2)] t
    by (cases sd) (simp_all add: ls)
  then show ?thesis using b t by blast
qed

lemma blueprint_balanced:
  assumes "generate_blueprint rule env = Inr lines"
    and "list_all group_ok (bd_posting_groups (ru_blueprint rule))"
    and "\<And>g base. g \<in> set (bd_posting_groups (ru_blueprint rule)) \<Longrightarrow>
           resolve_base_amount_cents (pg_base_amount_path g) env = Inr base \<Longrightarrow> num_le base (num_of_int (2 ^ 39))"
  shows "\<exists>ts. list_all2 (\<lambda>g t. 0 < t \<and> resolve_base_amount_cents (pg_base_amount_path g) env = Inr (num_of_int t))
            (bd_posting_groups (ru_blueprint rule)) ts
     \<and> sum_list (map (side_cents Dr) lines) = sum_list ts \<and> sum_list (map (side_cents Cr) lines) = sum_list ts"
proof -
  obtain gs where gs: "list_all2 (\<lambda>g ls. group_lines env (bd_memo_template (ru_blueprint rule)) g = Inr ls)
      (bd_posting_groups (ru_blueprint rule)) gs" and lines: "lines = concat gs"
    using assms(1) by (auto simp: generate_blueprint_def res_simps map_res_Inr)
  from gs assms(2,3) show ?thesis unfolding lines
  proof (induction rule: list_all2_induct)
    case (Cons g rest ls lss)
    obtain t where t: "0 < t" "resolve_base_amount_cents (pg_base_amount_path g) env = Inr (num_of_int t)"
      "\<forall>sd. sum_list (map (side_cents sd) ls) = t"
      using group_lines_sum [OF Cons(1)] Cons.prems by auto
    obtain ts where "list_all2 (\<lambda>g t. 0 < t \<and> resolve_base_amount_cents (pg_base_amount_path g) env = Inr (num_of_int t)) rest ts"
      "sum_list (map (side_cents Dr) (concat lss)) = sum_list ts" "sum_list (map (side_cents Cr) (concat lss)) = sum_list ts"
      using Cons.IH Cons.prems by auto
    then show ?case using t by (intro exI [of _ "t # ts"]) simp
  qed simp
qed

text \<open>
  C16: what \<open>generateBlueprint\<close> returns is balanced to the cent.
\<close>

theorem generate_blueprint_balanced:
  assumes "generate_blueprint rule env = Inr lines"
    and "list_all group_ok (bd_posting_groups (ru_blueprint rule))"
    and "\<And>g base. g \<in> set (bd_posting_groups (ru_blueprint rule)) \<Longrightarrow>
           resolve_base_amount_cents (pg_base_amount_path g) env = Inr base \<Longrightarrow> num_le base (num_of_int (2 ^ 39))"
  shows "\<exists>ts. list_all2 (\<lambda>g t. 0 < t \<and> resolve_base_amount_cents (pg_base_amount_path g) env = Inr (num_of_int t))
            (bd_posting_groups (ru_blueprint rule)) ts
     \<and> sum_list (map (side_cents Dr) lines) = sum_list ts \<and> sum_list (map (side_cents Cr) lines) = sum_list ts"
  using assms by (rule blueprint_balanced)

definition demo_envelope :: "(jstr \<times> json) list \<Rightarrow> source_event_envelope" where
  "demo_envelope payload =
     \<lparr>se_event_id = js ''e1'', se_tenant_id = js ''t1'', se_legal_entity_id = js ''E1'',
      se_event_type = js ''ap.invoice.v1'', se_event_schema_version = js ''1'', se_occurred_at = js ''o'',
      se_published_at = js ''p'', se_source_system = js ''apar'', se_source_entity_type = js ''invoice'',
      se_source_entity_id = js ''i1'', se_correlation_id = js ''c1'', se_causation_id = None,
      se_business_date = js ''2026-08-15'', se_payload = JObj payload, se_metadata = JNull\<rparr>"

definition demo_alloc :: "string \<Rightarrow> int \<Rightarrow> posting_allocation" where
  "demo_alloc acct bp = \<lparr>al_account_number = js acct, al_store_id = js ''S1'', al_dept_code = None,
     al_bp = num_of_int bp, al_control_number_path = None, al_apply_number_path = None\<rparr>"

definition demo_rule :: "int list \<Rightarrow> rule_definition" where
  "demo_rule bps = \<lparr>ru_rule_id = js ''r1'', ru_priority = Fin 1, ru_description = js ''d'', ru_condition = None,
     ru_blueprint = \<lparr>bd_memo_template = None, bd_posting_groups =
       [\<lparr>pg_group_id = js ''g1'', pg_base_amount_path = js ''payload.amount'',
         pg_debit_allocations = map (demo_alloc ''cost'') bps, pg_debit_line_items_path = None,
         pg_credit_allocations = [demo_alloc ''cash'' 10000], pg_credit_line_items_path = None\<rparr>]\<rparr>\<rparr>"

lemma demo_payload_path:
  "resolve_envelope_path (demo_envelope ps) (js ''payload.amount'') = map_of ps (js ''amount'')"
proof -
  have s: "js_split (cu CHR ''.'') (js ''payload.amount'') = [js ''payload'', js ''amount'']" by code_simp
  show ?thesis unfolding resolve_envelope_path_def s
    by (auto simp: demo_envelope_def envelope_json_def simp del: js_Nil)
qed

lemma demo_base: "resolve_base_amount_cents (js ''payload.amount'') (demo_envelope [(js ''amount'', JNum (Fin 2))]) = Inr (Fin 200)"
  by (simp add: resolve_base_amount_cents_def demo_payload_path Let_def cents_of_def num_le_def num_eq_def)

lemma demo_generates: "\<exists>lines. generate_blueprint (demo_rule [3333, 3333, 3334]) (demo_envelope [(js ''amount'', JNum (Fin 2))]) = Inr lines"
  by (simp add: generate_blueprint_def demo_rule_def group_lines_def demo_base side_lines_def Let_def)

lemma demo_allocations_ok:
  "bs \<noteq> [] \<Longrightarrow> list_all (\<lambda>b. 0 < b) bs \<Longrightarrow> sum_list bs = 10000 \<Longrightarrow> allocations_ok (map (demo_alloc acct) bs)"
  unfolding allocations_ok_def by (intro exI [of _ bs]) (simp add: demo_alloc_def)

lemma demo_group_ok: "list_all group_ok (bd_posting_groups (ru_blueprint (demo_rule [3333, 3333, 3334])))"
  using demo_allocations_ok [of "[3333, 3333, 3334]" "''cost''"] demo_allocations_ok [of "[10000]" "''cash''"]
  by (simp add: demo_rule_def group_ok_def)

theorem generate_blueprint_balanced_witness:
  "\<exists>lines ts. generate_blueprint (demo_rule [3333, 3333, 3334]) (demo_envelope [(js ''amount'', JNum (Fin 2))]) = Inr lines
     \<and> sum_list (map (side_cents Dr) lines) = sum_list ts \<and> sum_list (map (side_cents Cr) lines) = sum_list ts"
proof -
  obtain lines where l: "generate_blueprint (demo_rule [3333, 3333, 3334]) (demo_envelope [(js ''amount'', JNum (Fin 2))]) = Inr lines"
    using demo_generates by blast
  have b: "num_le base (num_of_int (2 ^ 39))"
    if "g \<in> set (bd_posting_groups (ru_blueprint (demo_rule [3333, 3333, 3334])))"
      "resolve_base_amount_cents (pg_base_amount_path g) (demo_envelope [(js ''amount'', JNum (Fin 2))]) = Inr base" for g base
    using that by (auto simp: demo_rule_def demo_base num_le_def)
  have "\<exists>ts. sum_list (map (side_cents Dr) lines) = sum_list ts \<and> sum_list (map (side_cents Cr) lines) = sum_list ts"
    using generate_blueprint_balanced [OF l demo_group_ok] b by blast
  with l show ?thesis by blast
qed


definition demo_pack :: "rule_definition list \<Rightarrow> rule_pack" where
  "demo_pack rules = \<lparr>pk_dsl_version = Fin 1, pk_pack_key = js ''ap'', pk_semver = js ''1.0.0'',
     pk_event_type = js ''ap.invoice.v1'', pk_schema_versions = [js ''1''], pk_tenant_scope = js ''t1'',
     pk_entity_id = js ''E1'', pk_effective_from = js ''2026-01-01'', pk_effective_to = None,
     pk_journal_source_code = js ''AP'', pk_match_strategy = js ''FIRST_MATCH'',
     pk_no_match_behavior = js ''NO_RULE_MATCH_EXCEPTION'', pk_rules = rules\<rparr>"


text \<open>
  Allocation by basis points loses no cent.
\<close>

theorem allocate_cents_exact:
  assumes "0 < t" and "t \<le> 2 ^ 39" and "bs \<noteq> []"
    and "list_all (\<lambda>b. 0 < b) bs" and "sum_list bs = 10000"
  shows "\<exists>cs. allocate_cents (num_of_int t) (map num_of_int bs) = map num_of_int cs
     \<and> length cs = length bs \<and> sum_list cs = t
     \<and> list_all2 (\<lambda>c b. \<bar>10000 * c - t * b\<bar> \<le> 5000) (butlast cs) (butlast bs)
     \<and> \<bar>10000 * last cs - t * last bs\<bar> \<le> 5000 * int (length bs - 1)"
  using allocate_cents_of_int [OF assms] by blast

theorem allocate_cents_exact_witness:
  "\<exists>cs. allocate_cents (num_of_int 1001) (map num_of_int [3333, 3333, 3334]) = map num_of_int cs \<and> sum_list cs = 1001"
  using allocate_cents_exact [of 1001 "[3333, 3333, 3334]"] by auto

section \<open>What the re-verification checks\<close>

definition line_defects :: "nat \<times> blueprint_line \<Rightarrow> blueprint_violation list" where
  "line_defects il = vs_violations (verify_line \<lparr>vs_violations = [], vs_total_dr = Fin 0, vs_total_cr = Fin 0,
                        vs_has_debit = False, vs_has_credit = False\<rparr> il)"

lemma verify_fold:
  assumes "\<And>l. l \<in> set lines \<Longrightarrow> to_cents (Some (JNum (bl_dr l))) = num_of_int (d l)
                        \<and> to_cents (Some (JNum (bl_cr l))) = num_of_int (c l)"
    and "\<bar>a\<bar> + sum_list (map (\<lambda>l. \<bar>d l\<bar>) lines) \<le> 2 ^ 53" and "\<bar>b\<bar> + sum_list (map (\<lambda>l. \<bar>c l\<bar>) lines) \<le> 2 ^ 53"
  shows "foldl verify_line \<lparr>vs_violations = vs, vs_total_dr = num_of_int a, vs_total_cr = num_of_int b,
            vs_has_debit = hdb, vs_has_credit = hcr\<rparr> (enumerate k lines) =
     \<lparr>vs_violations = vs @ concat (map line_defects (enumerate k lines)),
      vs_total_dr = num_of_int (a + sum_list (map d lines)), vs_total_cr = num_of_int (b + sum_list (map c lines)),
      vs_has_debit = (hdb \<or> (\<exists>l \<in> set lines. 0 < d l)), vs_has_credit = (hcr \<or> (\<exists>l \<in> set lines. 0 < c l))\<rparr>"
  using assms
proof (induction lines arbitrary: vs a b hdb hcr k)
  case (Cons l ls)
  have n: "0 \<le> sum_list (map (\<lambda>l. \<bar>d l\<bar>) ls)" "0 \<le> sum_list (map (\<lambda>l. \<bar>c l\<bar>) ls)"
    by (rule sum_list_nonneg; auto)+
  have lc: "to_cents (Some (JNum (bl_dr l))) = num_of_int (d l)" "to_cents (Some (JNum (bl_cr l))) = num_of_int (c l)"
    using Cons.prems(1) by auto
  have bd: "\<bar>a + d l\<bar> \<le> 2 ^ 53" "\<bar>b + c l\<bar> \<le> 2 ^ 53" using Cons.prems(2,3) n by auto
  have step: "verify_line \<lparr>vs_violations = vs, vs_total_dr = num_of_int a, vs_total_cr = num_of_int b,
            vs_has_debit = hdb, vs_has_credit = hcr\<rparr> (k, l) =
      \<lparr>vs_violations = vs @ line_defects (k, l), vs_total_dr = num_of_int (a + d l), vs_total_cr = num_of_int (b + c l),
       vs_has_debit = (hdb \<or> 0 < d l), vs_has_credit = (hcr \<or> 0 < c l)\<rparr>"
    using num_add_of_int [OF bd(1)] num_add_of_int [OF bd(2)] lc
    by (simp add: verify_line_def line_defects_def Let_def del: to_cents.simps num_add.simps)
  show ?case
    unfolding enumerate_simps foldl.simps step
    using Cons.prems by (subst Cons.IH) (auto simp: add.assoc)
qed simp

lemma line_defects_Nil:
  assumes "to_cents (Some (JNum (bl_dr l))) = num_of_int d" "to_cents (Some (JNum (bl_cr l))) = num_of_int c"
  shows "line_defects (k, l) = [] \<longleftrightarrow> \<not> (0 < d \<and> 0 < c) \<and> \<not> (d = 0 \<and> c = 0) \<and> bl_store_id l \<noteq> []"
  using assms by (auto simp: line_defects_def verify_line_def num_eq_def simp del: to_cents.simps)

lemma verify_blueprint_clean:
  assumes "\<And>l. l \<in> set lines \<Longrightarrow> to_cents (Some (JNum (bl_dr l))) = num_of_int (d l)
                        \<and> to_cents (Some (JNum (bl_cr l))) = num_of_int (c l)"
    and "sum_list (map (\<lambda>l. \<bar>d l\<bar>) lines) \<le> 2 ^ 53" and "sum_list (map (\<lambda>l. \<bar>c l\<bar>) lines) \<le> 2 ^ 53"
  shows "verify_blueprint lines = [] \<longleftrightarrow>
     (\<forall>l \<in> set lines. \<not> (0 < d l \<and> 0 < c l) \<and> \<not> (d l = 0 \<and> c l = 0) \<and> bl_store_id l \<noteq> [])
     \<and> (\<exists>l \<in> set lines. 0 < d l) \<and> (\<exists>l \<in> set lines. 0 < c l)
     \<and> sum_list (map d lines) = sum_list (map c lines)"
proof -
  have "concat (map line_defects (enumerate k ls)) = [] \<longleftrightarrow>
      (\<forall>l \<in> set ls. \<not> (0 < d l \<and> 0 < c l) \<and> \<not> (d l = 0 \<and> c l = 0) \<and> bl_store_id l \<noteq> [])"
    if "set ls \<subseteq> set lines" for k ls
    using that
  proof (induction ls arbitrary: k)
    case (Cons l ls)
    then have "l \<in> set lines" by simp
    then have "line_defects (k, l) = [] \<longleftrightarrow> \<not> (0 < d l \<and> 0 < c l) \<and> \<not> (d l = 0 \<and> c l = 0) \<and> bl_store_id l \<noteq> []"
      using assms(1) line_defects_Nil by metis
    with Cons show ?case by auto
  qed simp
  from this [of lines 0] show ?thesis
    using verify_fold [OF assms(1), where a = 0 and b = 0 and vs = "[]" and hdb = False and hcr = False and k = 0] assms(2,3)
    by (cases "lines = []") (auto simp: verify_blueprint_def Let_def num_eq_def bviol_def)
qed

text \<open>
  The re-verification accepts a blueprint of whole cents exactly when it has a debit and a credit
  line, no line with two positive or two zero sides, a store on each line and equal totals.
\<close>

theorem verify_blueprint_clean_iff:
  assumes "\<And>l. l \<in> set lines \<Longrightarrow> to_cents (Some (JNum (bl_dr l))) = num_of_int (d l)
                        \<and> to_cents (Some (JNum (bl_cr l))) = num_of_int (c l)"
    and "sum_list (map (\<lambda>l. \<bar>d l\<bar>) lines) \<le> 2 ^ 53" and "sum_list (map (\<lambda>l. \<bar>c l\<bar>) lines) \<le> 2 ^ 53"
  shows "verify_blueprint lines = [] \<longleftrightarrow>
     (\<forall>l \<in> set lines. \<not> (0 < d l \<and> 0 < c l) \<and> \<not> (d l = 0 \<and> c l = 0) \<and> bl_store_id l \<noteq> [])
     \<and> (\<exists>l \<in> set lines. 0 < d l) \<and> (\<exists>l \<in> set lines. 0 < c l)
     \<and> sum_list (map d lines) = sum_list (map c lines)"
  using verify_blueprint_clean [OF assms] .

definition demo_bl :: "jsnum \<Rightarrow> jsnum \<Rightarrow> blueprint_line" where
  "demo_bl dr cr = \<lparr>bl_account_number = js ''cash'', bl_store_id = js ''S1'', bl_dept_code = None, bl_dr = dr,
     bl_cr = cr, bl_memo = None, bl_control_number = None, bl_apply_number = None\<rparr>"

theorem verify_blueprint_clean_iff_witness:
  "verify_blueprint [demo_bl (Fin 2) (Fin 0), demo_bl (Fin 0) (Fin 2)] = []"
  by (rule iffD2 [OF verify_blueprint_clean_iff [where d = "\<lambda>l. if bl_dr l = Fin 2 then 200 else 0"
        and c = "\<lambda>l. if bl_cr l = Fin 2 then 200 else 0"]])
    (auto simp: demo_bl_def cents_of_def)

text \<open>
  Rounding can leave the last allocation negative: two cents over four equal shares round up three
  times. The re-verification has no check for a negative side and accepts the lines.
\<close>

lemma share_cents_half: "share_cents (Fin 2) (Fin 2500) = Fin 1"
proof -
  have "fl_rat (1 / 2) = 1 / 2" by code_simp
  then have "to_num (5000 / 10000) = Fin (1 / 2)" using to_num_near [of "1 / 2"] by simp
  moreover have "math_round (Fin (1 / 2)) = Fin 1" by (simp add: math_round.simps)
  ultimately show ?thesis by (simp add: share_cents_def bp_total_def)
qed

lemma allocate_cents_negative:
  "allocate_cents (Fin 2) (map num_of_int [2500, 2500, 2500, 2500]) = map num_of_int [1, 1, 1, - 1]"
  using to_num_of_int [of "- 1"]
  by (simp add: allocate_cents_def Let_def share_cents_half num_sub_def)

definition debit_of :: "int \<Rightarrow> blueprint_line" where
  "debit_of c = demo_bl (cents_to_dollars (num_of_int c)) (Fin 0)"

definition credit_of :: "int \<Rightarrow> blueprint_line" where
  "credit_of c = demo_bl (Fin 0) (cents_to_dollars (num_of_int c))"

lemma verify_debits_credits:
  assumes "\<forall>c \<in> set ds \<union> set cs. \<bar>c\<bar> \<le> 2 ^ 50 \<and> c \<noteq> 0"
    and "sum_list (map abs ds) \<le> 2 ^ 53" "sum_list (map abs cs) \<le> 2 ^ 53"
    and "\<exists>c \<in> set ds. 0 < c" "\<exists>c \<in> set cs. 0 < c" "sum_list ds = sum_list cs"
  shows "verify_blueprint (map debit_of ds @ map credit_of cs) = []"
proof (rule iffD2 [OF verify_blueprint_clean [where d = "side_cents Dr" and c = "side_cents Cr"]])
  have sc [simp]: "side_cents Dr (debit_of c) = c" "side_cents Cr (debit_of c) = 0"
    "side_cents Dr (credit_of c) = 0" "side_cents Cr (credit_of c) = c" if "\<bar>c\<bar> \<le> 2 ^ 50" for c
    using that by (simp_all add: demo_bl_def side_cents_def debit_of_def credit_of_def)
  show "to_cents (Some (JNum (bl_dr l))) = num_of_int (side_cents Dr l)
      \<and> to_cents (Some (JNum (bl_cr l))) = num_of_int (side_cents Cr l)"
    if "l \<in> set (map debit_of ds @ map credit_of cs)" for l
  proof -
    have "to_cents (Some (JNum (Fin 0))) = Fin 0" by (simp add: cents_of_def)
    then show ?thesis using that assms(1)
      by (auto simp: demo_bl_def side_cents_def debit_of_def credit_of_def cents_of_dollars)
  qed
  have m: "map (\<lambda>l. f (side_cents sd l)) (map debit_of ds @ map credit_of cs)
      = (case sd of Dr \<Rightarrow> map f ds @ map (\<lambda>_. f 0) cs | Cr \<Rightarrow> map (\<lambda>_. f 0) ds @ map f cs)" for f :: "int \<Rightarrow> int" and sd
    using assms(1) by (cases sd) auto
  show "(\<Sum>l\<leftarrow>map debit_of ds @ map credit_of cs. \<bar>side_cents Dr l\<bar>) \<le> 2 ^ 53"
    "(\<Sum>l\<leftarrow>map debit_of ds @ map credit_of cs. \<bar>side_cents Cr l\<bar>) \<le> 2 ^ 53"
    unfolding m using assms(2,3) by simp_all
  have e: "sum_list (map (side_cents Dr) (map debit_of ds @ map credit_of cs))
      = sum_list (map (side_cents Cr) (map debit_of ds @ map credit_of cs))"
    using arg_cong [OF m [of "\<lambda>x. x" Dr], of sum_list] arg_cong [OF m [of "\<lambda>x. x" Cr], of sum_list] assms(6)
    by (simp only: side.case sum_list_append map_ident sum_list_0 map_replicate_const) (simp add: sum_list_replicate)
  have st: "bl_store_id (debit_of c) \<noteq> []" "bl_store_id (credit_of c) \<noteq> []" for c
    by (simp_all add: debit_of_def credit_of_def demo_bl_def)
  have z: "x \<in> set ds \<Longrightarrow> side_cents Cr (debit_of x) = 0" "x \<in> set cs \<Longrightarrow> side_cents Dr (credit_of x) = 0" for x
    using assms(1) by auto
  show "(\<forall>l\<in>set (map debit_of ds @ map credit_of cs).
        \<not> (0 < side_cents Dr l \<and> 0 < side_cents Cr l) \<and> \<not> (side_cents Dr l = 0 \<and> side_cents Cr l = 0)
        \<and> bl_store_id l \<noteq> []) \<and>
    (\<exists>l\<in>set (map debit_of ds @ map credit_of cs). 0 < side_cents Dr l) \<and>
    (\<exists>l\<in>set (map debit_of ds @ map credit_of cs). 0 < side_cents Cr l) \<and>
    sum_list (map (side_cents Dr) (map debit_of ds @ map credit_of cs)) =
    sum_list (map (side_cents Cr) (map debit_of ds @ map credit_of cs))"
    using assms(1,4,5) by (intro conjI e) (auto simp: st bex_Un z)
qed

lemma verify_accepts_negative_line:
  "verify_blueprint (map debit_of [1, 1, 1, - 1] @ map credit_of [2]) = []"
  by (rule verify_debits_credits) auto

end
