(* ===== verification/RulePackValidator.thy ===== *)
theory RulePackValidator
  imports Blueprint
begin

text \<open>
  \<open>domain/posting-engine/validator.ts\<close>: structural, semantic and static-balance validation of a rule
  pack source. Findings are produced in the order the code pushes them. The account lookup is the
  injected contract of the source; \<open>Date.parse\<close>, whose result on texts that are not ISO 8601 is
  up to the platform, is a parameter (milliseconds, or \<open>NaN\<close>).
\<close>

datatype severity = ERROR | WARNING

record finding =
  fi_severity :: severity
  fi_code :: jstr
  fi_path :: jstr
  fi_rule_id :: "jstr option"
  fi_message :: jstr

record account_ref =
  ar_account_number :: jstr
  ar_type :: jstr
  ar_postable :: bool
  ar_status :: jstr

type_synonym account_lookup = "jstr \<Rightarrow> jstr \<Rightarrow> account_ref option"

record validation_result =
  vr_valid :: bool
  vr_findings :: "finding list"
  vr_pack :: "json option"

definition add_finding :: "severity \<Rightarrow> jstr option \<Rightarrow> jstr \<Rightarrow> jstr \<Rightarrow> jstr \<Rightarrow> finding list" where
  "add_finding sev rid code path msg =
     [\<lparr>fi_severity = sev, fi_code = code, fi_path = path,
       fi_rule_id = (if rid = Some [] then None else rid), fi_message = msg\<rparr>]"

definition err :: "jstr option \<Rightarrow> string \<Rightarrow> jstr \<Rightarrow> jstr \<Rightarrow> finding list" where
  "err rid code path msg = add_finding ERROR rid (js code) path msg"

definition warn :: "jstr option \<Rightarrow> string \<Rightarrow> jstr \<Rightarrow> jstr \<Rightarrow> finding list" where
  "warn rid code path msg = add_finding WARNING rid (js code) path msg"

definition no_errors :: "finding list \<Rightarrow> bool" where
  "no_errors fs = list_all (\<lambda>f. fi_severity f \<noteq> ERROR) fs"

definition quoted :: "jstr \<Rightarrow> jstr" where
  "quoted s = dq @ s @ dq"

definition indexed :: "jstr \<Rightarrow> nat \<Rightarrow> jstr" where
  "indexed path i = path @ js ''['' @ nat_str i @ js '']''"

section \<open>Paths and patterns\<close>

definition allowed_path_roots :: "jstr list" where
  "allowed_path_roots = map js
     [''eventId'', ''tenantId'', ''eventType'', ''eventSchemaVersion'', ''occurredAt'', ''publishedAt'',
      ''sourceSystem'', ''sourceEntityType'', ''sourceEntityId'', ''correlationId'', ''causationId'',
      ''businessDate'', ''payload'', ''metadata'']"

definition is_allowed_path :: "json option \<Rightarrow> bool" where
  "is_allowed_path path =
     (case path of
        Some (JStr p) \<Rightarrow> p \<noteq> [] \<and> hd (js_split (cu CHR ''.'') p) \<in> set allowed_path_roots
      | _ \<Rightarrow> False)"

definition lower_alnum :: "cu \<Rightarrow> bool" where
  "lower_alnum c = (is_lower c \<or> is_digit c)"

definition event_type_pattern :: "jstr \<Rightarrow> bool" where
  "event_type_pattern s =
     (let segs = js_split (cu CHR ''.'') s; v = last segs
      in 2 \<le> length segs \<and> hd segs \<noteq> [] \<and> list_all lower_alnum (hd segs)
         \<and> list_all (\<lambda>g. g \<noteq> [] \<and> list_all (\<lambda>c. lower_alnum c \<or> c = cu CHR ''-'') g) (butlast (tl segs))
         \<and> (case v of [] \<Rightarrow> False | c # ds \<Rightarrow> c = cu CHR ''v'' \<and> ds \<noteq> [] \<and> list_all is_digit ds))"

definition semver_pattern :: "jstr \<Rightarrow> bool" where
  "semver_pattern s =
     (let segs = js_split (cu CHR ''.'') s
      in length segs = 3 \<and> list_all (\<lambda>g. g \<noteq> [] \<and> list_all is_digit g) segs)"

function placeholders :: "jstr \<Rightarrow> jstr list" where
  "placeholders [] = []"
| "placeholders (c # cs) =
     (case match_placeholder (c # cs) of
        Some (p, r) \<Rightarrow> p # placeholders r
      | None \<Rightarrow> placeholders cs)"
  by pat_completeness auto
termination
  by (relation "measure length") (auto dest: match_placeholder_length)

section \<open>Conditions\<close>

abbreviation opt_prop :: "json \<Rightarrow> string \<Rightarrow> json option" where
  "opt_prop v k \<equiv> js_prop v (js k)"

definition path_findings :: "jstr \<Rightarrow> jstr \<Rightarrow> jstr \<Rightarrow> json \<Rightarrow> finding list" where
  "path_findings rid path opn body =
     (if is_allowed_path (opt_prop body ''path'') then []
      else err (Some rid) ''INVALID_EVENT_PATH'' (path @ js ''.'' @ opn @ js ''.path'')
             (quoted opn @ js '' has an invalid or missing event path.''))"

definition values_findings :: "jstr \<Rightarrow> jstr \<Rightarrow> jstr \<Rightarrow> json \<Rightarrow> finding list" where
  "values_findings rid path opn body =
     (if nonempty_array (opt_prop body ''values'') then []
      else err (Some rid) ''INVALID_CONDITION_SHAPE'' (path @ js ''.'' @ opn @ js ''.values'')
             (quoted opn @ js '' requires a non-empty values array.''))"

definition numeric_operators :: "jstr list" where
  "numeric_operators = map js [''greaterThan'', ''greaterThanOrEqual'', ''lessThan'', ''lessThanOrEqual'']"

definition value_findings :: "jstr \<Rightarrow> jstr \<Rightarrow> jstr \<Rightarrow> json \<Rightarrow> finding list" where
  "value_findings rid path opn body =
     (let here = path @ js ''.'' @ opn @ js ''.value''
      in (if opt_prop body ''value'' = None
          then err (Some rid) ''INVALID_CONDITION_SHAPE'' here (quoted opn @ js '' requires a comparison value.'')
          else [])
       @ (if opn \<in> set numeric_operators \<and> (case opt_prop body ''value'' of Some (JNum n) \<Rightarrow> False | _ \<Rightarrow> True)
          then err (Some rid) ''INVALID_CONDITION_SHAPE'' here
                 (quoted opn @ js '' requires a numeric comparison value.'')
          else []))"

fun validate_condition_shape :: "jstr \<Rightarrow> jstr \<Rightarrow> json \<Rightarrow> finding list"
  and validate_clauses :: "jstr \<Rightarrow> jstr \<Rightarrow> nat \<Rightarrow> json list \<Rightarrow> finding list" where
  "validate_condition_shape rid path expr =
     (case expr of
        JObj ps \<Rightarrow>
          (case ps of
             [(opn, body)] \<Rightarrow>
               if opn \<notin> set condition_operators
               then err (Some rid) ''UNSUPPORTED_OPERATOR'' (path @ js ''.'' @ opn)
                      (js ''Unsupported condition operator '' @ quoted opn @ js ''.'')
               else if opn = js ''and'' \<or> opn = js ''or'' then
                 (case body of
                    JArr cs \<Rightarrow> if cs \<noteq> [] then validate_clauses rid (path @ js ''.'' @ opn) 0 cs
                      else err (Some rid) ''INVALID_CONDITION_SHAPE'' (path @ js ''.'' @ opn)
                             (quoted opn @ js '' requires a non-empty array of conditions.'')
                  | _ \<Rightarrow> err (Some rid) ''INVALID_CONDITION_SHAPE'' (path @ js ''.'' @ opn)
                             (quoted opn @ js '' requires a non-empty array of conditions.''))
               else if opn = js ''not'' then validate_condition_shape rid (path @ js ''.not'') body
               else if opn = js ''exists'' \<or> opn = js ''isNull'' \<or> opn = js ''isNotNull''
               then path_findings rid path opn body
               else if opn = js ''in'' \<or> opn = js ''notIn''
               then path_findings rid path opn body @ values_findings rid path opn body
               else path_findings rid path opn body @ value_findings rid path opn body
           | _ \<Rightarrow> err (Some rid) ''INVALID_CONDITION_SHAPE'' path
                    (js ''Condition object must have exactly one operator key.''))
      | _ \<Rightarrow> err (Some rid) ''INVALID_CONDITION_SHAPE'' path
               (js ''Condition must be an object with exactly one operator key.''))"
| "validate_clauses rid path i [] = []"
| "validate_clauses rid path i (c # cs) =
     validate_condition_shape rid (indexed path i) c @ validate_clauses rid path (Suc i) cs"

declare validate_condition_shape.simps [simp del]

definition unknown_field_findings :: "jstr option \<Rightarrow> jstr list \<Rightarrow> jstr \<Rightarrow> (jstr \<times> json) list \<Rightarrow> finding list" where
  "unknown_field_findings rid allowed path ps =
     concat (map (\<lambda>key. if key \<in> set allowed then []
        else err rid ''UNKNOWN_FIELD'' (path @ js ''.'' @ key)
               (js ''Unknown field '' @ quoted key @ js '' is not permitted in the Posting DSL v1.'')) (js_keys ps))"

section \<open>Allocations\<close>

definition bad_optional_path :: "json option \<Rightarrow> bool" where
  "bad_optional_path v = (\<not> is_nullish v \<and> \<not> is_allowed_path v)"

definition positive_integer :: "json option \<Rightarrow> bool" where
  "positive_integer v = (case v of Some (JNum n) \<Rightarrow> is_integer_num n \<and> \<not> num_le n (Fin 0) | _ \<Rightarrow> False)"

definition num_of_prop :: "json option \<Rightarrow> jsnum" where
  "num_of_prop v = (case v of Some (JNum n) \<Rightarrow> n | _ \<Rightarrow> NaN)"

text \<open>The account reference of one allocation, through the injected lookup.\<close>

definition account_findings :: "account_lookup \<Rightarrow> jstr \<Rightarrow> jstr \<Rightarrow> jstr \<Rightarrow> json \<Rightarrow> finding list" where
  "account_findings look entity rid path aobj =
     (let acct = string_or_empty (opt_prop aobj ''accountNumber''); here = path @ js ''.accountNumber''
      in if opt_prop aobj ''accountNumber'' = Some (JStr account_mapping_values_pending)
         then warn (Some rid) ''ACCOUNT_MAPPING_VALUES_PENDING'' here
                (js ''Row is a pending tenant account mapping '' @ [0x2014]
                 @ js '' events matching this rule will be rejected until a real account is configured.'')
         else if nonblank_string (opt_prop aobj ''accountNumber'') \<and> entity \<noteq> [] then
           (case look entity acct of
              None \<Rightarrow> err (Some rid) ''ACCOUNT_NOT_FOUND'' here
                (js ''Account '' @ acct @ js '' was not found for entity '' @ entity @ js ''.'')
            | Some a \<Rightarrow>
                (if \<not> ar_postable a
                 then err (Some rid) ''ACCOUNT_NOT_POSTABLE'' here (js ''Account '' @ acct @ js '' is not postable.'')
                 else [])
              @ (if ar_status a \<noteq> js ''ACTIVE''
                 then err (Some rid) ''ACCOUNT_NOT_ACTIVE'' here (js ''Account '' @ acct @ js '' is not ACTIVE.'')
                 else [])
              @ (if (ar_type a = js ''REVENUE'' \<or> ar_type a = js ''EXPENSE'')
                    \<and> (\<not> truthy (opt_prop aobj ''deptCode'') \<or> js_trim (opt_string (opt_prop aobj ''deptCode'')) = [])
                 then err (Some rid) ''MISSING_DEPT_CODE'' (path @ js ''.deptCode'')
                        (js ''P&L account '' @ acct @ js '' ('' @ ar_type a @ js '') requires a deptCode.'')
                 else []))
         else [])"

definition allocation_field_findings :: "jstr \<Rightarrow> jstr \<Rightarrow> json \<Rightarrow> finding list" where
  "allocation_field_findings rid path aobj =
     (if nonblank_string (opt_prop aobj ''accountNumber'') then []
      else err (Some rid) ''MISSING_ACCOUNT_NUMBER'' (path @ js ''.accountNumber'') (js ''accountNumber is required.''))
   @ (if nonblank_string (opt_prop aobj ''storeId'') then []
      else err (Some rid) ''MISSING_STORE_ID'' (path @ js ''.storeId'') (js ''storeId is required.''))
   @ (if \<not> is_nullish (opt_prop aobj ''deptCode'') \<and> \<not> is_string_value (opt_prop aobj ''deptCode'')
      then err (Some rid) ''INVALID_DEPT_CODE'' (path @ js ''.deptCode'') (js ''deptCode must be a string when present.'')
      else [])
   @ (if positive_integer (opt_prop aobj ''bp'') then []
      else err (Some rid) ''INVALID_ALLOCATION_BP'' (path @ js ''.bp'') (js ''bp must be a positive integer.''))
   @ (if bad_optional_path (opt_prop aobj ''controlNumberPath'')
      then err (Some rid) ''INVALID_EVENT_PATH'' (path @ js ''.controlNumberPath'')
             (js ''controlNumberPath references a disallowed path.'')
      else [])
   @ (if bad_optional_path (opt_prop aobj ''applyNumberPath'')
      then err (Some rid) ''INVALID_EVENT_PATH'' (path @ js ''.applyNumberPath'')
             (js ''applyNumberPath references a disallowed path.'')
      else [])"

text \<open>One allocation: its findings and the sum of basis points after it.\<close>

definition allocation_findings :: "account_lookup \<Rightarrow> jstr \<Rightarrow> jstr \<Rightarrow> jstr \<Rightarrow> finding list \<times> jsnum \<Rightarrow> nat \<times> json
    \<Rightarrow> finding list \<times> jsnum" where
  "allocation_findings look entity rid path acc ia =
     (let here = indexed path (fst ia); alloc = snd ia
      in case alloc of
           JObj ps \<Rightarrow>
             (fst acc @ unknown_field_findings (Some rid) allocation_fields here ps
                @ allocation_field_findings rid here alloc @ account_findings look entity rid here alloc,
              if positive_integer (opt_prop alloc ''bp'') then num_add (snd acc) (num_of_prop (opt_prop alloc ''bp''))
              else snd acc)
         | _ \<Rightarrow> (fst acc @ err (Some rid) ''INVALID_ALLOCATION_SHAPE'' here (js ''Each allocation must be an object.''),
                 snd acc))"


section \<open>Posting groups\<close>

text \<open>The two sides of a group: the allocation field, the line-items field and the label.\<close>

definition side_fields :: "side \<Rightarrow> string \<times> string \<times> string \<times> string" where
  "side_fields sd = (case sd of
       Dr \<Rightarrow> (''debitAllocations'', ''debitLineItemsPath'', ''debit'', ''DEBIT'')
     | Cr \<Rightarrow> (''creditAllocations'', ''creditLineItemsPath'', ''credit'', ''CREDIT''))"

definition has_items_path :: "json \<Rightarrow> side \<Rightarrow> bool" where
  "has_items_path gobj sd = (case side_fields sd of (af, itf, l, u) \<Rightarrow> \<not> is_nullish (opt_prop gobj itf))"

definition side_mode_findings :: "jstr \<Rightarrow> jstr \<Rightarrow> json \<Rightarrow> side \<Rightarrow> finding list" where
  "side_mode_findings rid path gobj sd =
     (case side_fields sd of (af, itf, label, upper) \<Rightarrow>
       let has_allocs = nonempty_array (opt_prop gobj af); items = opt_prop gobj itf;
           has_items = (\<not> is_nullish items)
       in if has_allocs \<and> has_items
          then add_finding ERROR (Some rid) (js ''BOTH_'' @ js upper @ js ''_MODES_SET'') (path @ js ''.'' @ js af)
                 (js ''A posting group may set '' @ js af @ js '' OR '' @ js itf @ js '', never both.'')
          else if \<not> has_allocs \<and> \<not> has_items
          then add_finding ERROR (Some rid) (js ''MISSING_'' @ js upper @ js ''_ALLOCATION'') (path @ js ''.'' @ js af)
                 (js ''At least one '' @ js label @ js '' allocation, or '' @ js itf @ js '', is required.'')
          else if has_items \<and> \<not> is_allowed_path items
          then err (Some rid) ''INVALID_EVENT_PATH'' (path @ js ''.'' @ js itf)
                 (js itf @ js '' is missing or references a disallowed path.'')
          else [])"

definition side_allocation_findings :: "account_lookup \<Rightarrow> jstr \<Rightarrow> jstr \<Rightarrow> jstr \<Rightarrow> json \<Rightarrow> side \<Rightarrow> finding list" where
  "side_allocation_findings look entity rid path gobj sd =
     (case side_fields sd of (af, itf, label, upper) \<Rightarrow>
       case opt_prop gobj af of
         Some (JArr (a # as)) \<Rightarrow>
           let acc = foldl (allocation_findings look entity rid (path @ js ''.'' @ js af)) ([], Fin 0)
                       (enumerate 0 (a # as))
           in fst acc
              @ (if \<not> num_eq (snd acc) (num_of_int bp_total)
                 then add_finding ERROR (Some rid) (js upper @ js ''_BP_NOT_10000'') (path @ js ''.'' @ js af)
                        (js label @ js '' allocation basis points must total exactly '' @ int_str bp_total
                         @ js ''; found '' @ num_str (snd acc) @ js ''.'')
                 else [])
       | _ \<Rightarrow> add_finding ERROR (Some rid) (js ''MISSING_'' @ js upper @ js ''_ALLOCATION'') (path @ js ''.'' @ js af)
                (js ''At least one '' @ js label @ js '' allocation is required.''))"

definition group_findings :: "account_lookup \<Rightarrow> jstr \<Rightarrow> jstr \<Rightarrow> jstr \<Rightarrow> nat \<times> json \<Rightarrow> finding list" where
  "group_findings look entity rid rpath ig =
     (let path = indexed (rpath @ js ''.blueprint.postingGroups'') (fst ig); gobj = snd ig
      in case gobj of
           JObj ps \<Rightarrow>
             unknown_field_findings (Some rid) posting_group_fields path ps
           @ (if nonblank_string (opt_prop gobj ''groupId'') then []
              else err (Some rid) ''MISSING_GROUP_ID'' (path @ js ''.groupId'') (js ''groupId is required.''))
           @ (if is_allowed_path (opt_prop gobj ''baseAmountPath'') then []
              else err (Some rid) ''INVALID_EVENT_PATH'' (path @ js ''.baseAmountPath'')
                     (js ''baseAmountPath is missing or references a disallowed path.''))
           @ side_mode_findings rid path gobj Dr @ side_mode_findings rid path gobj Cr
           @ concat (map (side_allocation_findings look entity rid path gobj)
                         (filter (\<lambda>sd. \<not> has_items_path gobj sd) [Dr, Cr]))
         | _ \<Rightarrow> err (Some rid) ''INVALID_POSTING_GROUP_SHAPE'' path (js ''Each posting group must be an object.''))"

section \<open>Rules\<close>

record rules_state =
  st_findings :: "finding list"
  st_seen_rule_ids :: "jstr list"
  st_priorities :: "(jsnum \<times> jstr list) list"

definition memo_findings :: "jstr \<Rightarrow> jstr \<Rightarrow> json option \<Rightarrow> finding list" where
  "memo_findings rid rpath memo =
     (if is_nullish memo then []
      else case memo of
          Some (JStr t) \<Rightarrow> concat (map (\<lambda>p. if is_allowed_path (Some (JStr p)) then []
             else err (Some rid) ''INVALID_TEMPLATE_PLACEHOLDER'' (rpath @ js ''.blueprint.memoTemplate'')
                    (js ''Template placeholder '' @ dq @ js ''{{'' @ p @ js ''}}'' @ dq
                     @ js '' references a disallowed path.'')) (placeholders t))
        | _ \<Rightarrow> err (Some rid) ''INVALID_MEMO_TEMPLATE'' (rpath @ js ''.blueprint.memoTemplate'')
                 (js ''memoTemplate must be a string.''))"

definition blueprint_findings :: "account_lookup \<Rightarrow> jstr \<Rightarrow> jstr \<Rightarrow> jstr \<Rightarrow> json option \<Rightarrow> finding list" where
  "blueprint_findings look entity rid rpath bp =
     (case bp of
        Some (JObj ps) \<Rightarrow>
          unknown_field_findings (Some rid) blueprint_fields (rpath @ js ''.blueprint'') ps
        @ memo_findings rid rpath (opt_prop (JObj ps) ''memoTemplate'')
        @ (case opt_prop (JObj ps) ''postingGroups'' of
             Some (JArr (g # gs)) \<Rightarrow> concat (map (group_findings look entity rid rpath) (enumerate 0 (g # gs)))
           | _ \<Rightarrow> err (Some rid) ''MISSING_POSTING_GROUPS'' (rpath @ js ''.blueprint.postingGroups'')
                    (js ''At least one posting group is required.''))
      | _ \<Rightarrow> err (Some rid) ''MISSING_BLUEPRINT'' (rpath @ js ''.blueprint'') (js ''blueprint is required.''))"

definition rule_id_of :: "nat \<Rightarrow> json \<Rightarrow> jstr" where
  "rule_id_of i r = (case opt_prop r ''ruleId'' of Some (JStr s) \<Rightarrow> s
                     | _ \<Rightarrow> js ''(index '' @ nat_str i @ js '')'')"

definition rule_head_findings :: "jstr \<Rightarrow> jstr \<Rightarrow> jstr list \<Rightarrow> json \<Rightarrow> finding list" where
  "rule_head_findings rid path seen r =
     (if nonblank_string (opt_prop r ''ruleId'')
      then (if rid \<in> set seen
            then err (Some rid) ''DUPLICATE_RULE_ID'' (path @ js ''.ruleId'')
                   (js ''Duplicate ruleId '' @ quoted rid @ js ''.'')
            else [])
      else err (Some rid) ''MISSING_RULE_ID'' (path @ js ''.ruleId'') (js ''ruleId is required.''))
   @ (if is_integer_num (num_of_prop (opt_prop r ''priority'')) then []
      else err (Some rid) ''INVALID_PRIORITY'' (path @ js ''.priority'') (js ''priority must be an integer.''))
   @ (if nonblank_string (opt_prop r ''description'') then []
      else err (Some rid) ''MISSING_DESCRIPTION'' (path @ js ''.description'') (js ''description is required.''))
   @ (if is_nullish (opt_prop r ''condition'') then []
      else validate_condition_shape rid (path @ js ''.condition'') (the (opt_prop r ''condition'')))"

definition add_priority :: "jsnum \<Rightarrow> jstr \<Rightarrow> (jsnum \<times> jstr list) list \<Rightarrow> (jsnum \<times> jstr list) list" where
  "add_priority p rid m = put p ((case map_of m p of None \<Rightarrow> [] | Some ids \<Rightarrow> ids) @ [rid]) m"

definition rule_step :: "account_lookup \<Rightarrow> jstr \<Rightarrow> rules_state \<Rightarrow> nat \<times> json \<Rightarrow> rules_state" where
  "rule_step look entity st ir =
     (let i = fst ir; r = snd ir; path = indexed (js ''$.rules'') i; rid = rule_id_of i r;
          prio = num_of_prop (opt_prop r ''priority'')
      in case r of
           JObj ps \<Rightarrow>
             \<lparr>st_findings = st_findings st
                @ unknown_field_findings (Some rid) rule_fields path ps
                @ rule_head_findings rid path (st_seen_rule_ids st) r
                @ blueprint_findings look entity rid path (opt_prop r ''blueprint''),
              st_seen_rule_ids = (if nonblank_string (opt_prop r ''ruleId'') then rid # st_seen_rule_ids st
                                  else st_seen_rule_ids st),
              st_priorities = (if is_integer_num prio then add_priority prio rid (st_priorities st)
                               else st_priorities st)\<rparr>
         | _ \<Rightarrow> st\<lparr>st_findings := st_findings st
                @ err None ''INVALID_RULE_SHAPE'' path (js ''Each rule must be an object.'')\<rparr>)"

definition priority_findings :: "(jsnum \<times> jstr list) list \<Rightarrow> finding list" where
  "priority_findings m =
     concat (map (\<lambda>(p, ids). if 1 < length ids
        then concat (map (\<lambda>rid. err (Some rid) ''AMBIGUOUS_PRIORITY'' (js ''$.rules'')
               (js ''Priority '' @ num_str p @ js '' is used by more than one rule: ''
                @ js_join (js '', '') ids @ js ''.'')) ids)
        else []) m)"

definition rules_findings :: "account_lookup \<Rightarrow> jstr \<Rightarrow> json list \<Rightarrow> finding list" where
  "rules_findings look entity rules =
     (let st = foldl (rule_step look entity) \<lparr>st_findings = [], st_seen_rule_ids = [], st_priorities = []\<rparr>
                 (enumerate 0 rules)
      in st_findings st @ priority_findings (st_priorities st))"

section \<open>The document\<close>

definition date_of :: "(jstr \<Rightarrow> jsnum) \<Rightarrow> json option \<Rightarrow> jsnum" where
  "date_of date_parse v = (case v of Some (JStr s) \<Rightarrow> date_parse s | _ \<Rightarrow> NaN)"

definition identity_findings :: "jstr \<Rightarrow> json \<Rightarrow> finding list" where
  "identity_findings tenant doc =
     (if strict_eq (opt_prop doc ''dslVersion'') (JNum dsl_version) then []
      else err None ''UNSUPPORTED_DSL_VERSION'' (js ''$.dslVersion'')
             (js ''dslVersion must be '' @ num_str dsl_version @ js ''.''))
   @ (if nonblank_string (opt_prop doc ''packKey'') then []
      else err None ''MISSING_PACK_KEY'' (js ''$.packKey'') (js ''packKey is required.''))
   @ (if is_string_value (opt_prop doc ''semver'') \<and> semver_pattern (string_or_empty (opt_prop doc ''semver'')) then []
      else err None ''INVALID_SEMVER'' (js ''$.semver'') (js ''semver must be MAJOR.MINOR.PATCH.''))
   @ (if is_string_value (opt_prop doc ''eventType'') \<and> event_type_pattern (string_or_empty (opt_prop doc ''eventType'')) then []
      else err None ''INVALID_EVENT_TYPE'' (js ''$.eventType'')
             (js ''eventType must look like '' @ quoted (js ''a.b.c.vN'') @ js ''.''))
   @ (case opt_prop doc ''supportedEventSchemaVersions'' of
        Some (JArr vs) \<Rightarrow> if vs \<noteq> [] \<and> list_all (\<lambda>v. nonblank_string (Some v)) vs then []
          else err None ''MISSING_EVENT_SCHEMA_VERSIONS'' (js ''$.supportedEventSchemaVersions'')
                 (js ''supportedEventSchemaVersions must be a non-empty array of strings.'')
      | _ \<Rightarrow> err None ''MISSING_EVENT_SCHEMA_VERSIONS'' (js ''$.supportedEventSchemaVersions'')
               (js ''supportedEventSchemaVersions must be a non-empty array of strings.''))
   @ (if \<not> nonblank_string (opt_prop doc ''tenantScope'')
      then err None ''MISSING_TENANT_SCOPE'' (js ''$.tenantScope'') (js ''tenantScope is required.'')
      else if string_or_empty (opt_prop doc ''tenantScope'') \<noteq> tenant
      then err None ''TENANT_SCOPE_MISMATCH'' (js ''$.tenantScope'')
             (js ''tenantScope does not match the authenticated tenant.'')
      else [])
   @ (if nonblank_string (opt_prop doc ''entityId'') then []
      else err None ''MISSING_ENTITY_ID'' (js ''$.entityId'') (js ''entityId is required.''))"

definition in_supported :: "json option \<Rightarrow> jstr list \<Rightarrow> bool" where
  "in_supported v xs = (case v of Some (JStr s) \<Rightarrow> s \<in> set xs | _ \<Rightarrow> False)"

definition schedule_findings :: "(jstr \<Rightarrow> jsnum) \<Rightarrow> json \<Rightarrow> finding list" where
  "schedule_findings date_parse doc =
     (let f = date_of date_parse (opt_prop doc ''effectiveFrom''); t = date_of date_parse (opt_prop doc ''effectiveTo'')
      in (if f = NaN
          then err None ''INVALID_EFFECTIVE_FROM'' (js ''$.effectiveFrom'')
                 (js ''effectiveFrom must be a valid ISO 8601 date/time.'')
          else [])
       @ (if \<not> is_nullish (opt_prop doc ''effectiveTo'') \<and> t = NaN
          then err None ''INVALID_EFFECTIVE_TO'' (js ''$.effectiveTo'')
                 (js ''effectiveTo must be a valid ISO 8601 date/time when present.'')
          else [])
       @ (if f \<noteq> NaN \<and> t \<noteq> NaN \<and> num_le t f
          then err None ''INVALID_EFFECTIVE_RANGE'' (js ''$.effectiveTo'') (js ''effectiveTo must be after effectiveFrom.'')
          else [])
       @ (if nonblank_string (opt_prop doc ''journalSourceCode'') then []
          else err None ''MISSING_JOURNAL_SOURCE'' (js ''$.journalSourceCode'') (js ''journalSourceCode is required.''))
       @ (if in_supported (opt_prop doc ''matchStrategy'') supported_match_strategies then []
          else err None ''UNSUPPORTED_MATCH_STRATEGY'' (js ''$.matchStrategy'')
                 (js ''matchStrategy must be one of: '' @ js_join (js '', '') supported_match_strategies @ js ''.''))
       @ (if in_supported (opt_prop doc ''noMatchBehavior'') supported_no_match_behaviors then []
          else err None ''UNSUPPORTED_NO_MATCH_BEHAVIOR'' (js ''$.noMatchBehavior'')
                 (js ''noMatchBehavior must be one of: '' @ js_join (js '', '') supported_no_match_behaviors @ js ''.'')))"

definition document_findings :: "(jstr \<Rightarrow> jsnum) \<Rightarrow> account_lookup \<Rightarrow> jstr \<Rightarrow> (jstr \<times> json) list \<Rightarrow> finding list" where
  "document_findings date_parse look tenant ps =
     (let doc = JObj ps
      in unknown_field_findings None rule_pack_top_level_fields (js ''$'') ps
       @ identity_findings tenant doc @ schedule_findings date_parse doc
       @ (case opt_prop doc ''rules'' of
            Some (JArr (r # rs)) \<Rightarrow> rules_findings look (string_or_empty (opt_prop doc ''entityId'')) (r # rs)
          | _ \<Rightarrow> err None ''MISSING_RULES'' (js ''$.rules'') (js ''At least one rule is required.'')))"

definition parse_error_message :: "strict_json_error \<Rightarrow> jstr" where
  "parse_error_message e = (case e of StrictJsonParseError msg pos \<Rightarrow> msg | FuelExhausted \<Rightarrow> [])"

definition validate_rule_pack_source :: "(jstr \<Rightarrow> jsnum) \<Rightarrow> jstr \<Rightarrow> jstr \<Rightarrow> account_lookup \<Rightarrow> validation_result" where
  "validate_rule_pack_source date_parse source tenant look =
     (case parse_strict_json source of
        Inl e \<Rightarrow> \<lparr>vr_valid = False, vr_findings = err None ''JSON_PARSE_ERROR'' (js ''$'')
                    (js ''Rule pack is not valid strict JSON: '' @ parse_error_message e), vr_pack = None\<rparr>
      | Inr (JObj ps) \<Rightarrow>
          (let fs = document_findings date_parse look tenant ps
           in if no_errors fs then \<lparr>vr_valid = True, vr_findings = fs, vr_pack = Some (JObj ps)\<rparr>
              else \<lparr>vr_valid = False, vr_findings = fs, vr_pack = None\<rparr>)
      | Inr _ \<Rightarrow> \<lparr>vr_valid = False, vr_findings = err None ''INVALID_ROOT_SHAPE'' (js ''$'')
                    (js ''Rule pack document must be a JSON object.''), vr_pack = None\<rparr>)"

section \<open>The validated document as a rule pack\<close>

text \<open>
  \<open>doc as unknown as RulePackDefinition\<close>: the typed view the rest of the engine reads. A field
  the type makes optional is \<open>None\<close> when it is absent or \<open>null\<close>.
\<close>

definition field_list :: "json \<Rightarrow> string \<Rightarrow> json list" where
  "field_list v k = (case opt_prop v k of Some (JArr xs) \<Rightarrow> xs | _ \<Rightarrow> [])"

definition allocation_of :: "json \<Rightarrow> posting_allocation" where
  "allocation_of v =
     \<lparr>al_account_number = string_or_empty (opt_prop v ''accountNumber''),
      al_store_id = string_or_empty (opt_prop v ''storeId''), al_dept_code = opt_str_prop v ''deptCode'',
      al_bp = num_of_prop (opt_prop v ''bp''), al_control_number_path = opt_str_prop v ''controlNumberPath'',
      al_apply_number_path = opt_str_prop v ''applyNumberPath''\<rparr>"

definition group_of :: "json \<Rightarrow> posting_group" where
  "group_of v =
     \<lparr>pg_group_id = string_or_empty (opt_prop v ''groupId''),
      pg_base_amount_path = string_or_empty (opt_prop v ''baseAmountPath''),
      pg_debit_allocations = map allocation_of (field_list v ''debitAllocations''),
      pg_debit_line_items_path = opt_str_prop v ''debitLineItemsPath'',
      pg_credit_allocations = map allocation_of (field_list v ''creditAllocations''),
      pg_credit_line_items_path = opt_str_prop v ''creditLineItemsPath''\<rparr>"

definition rule_of :: "json \<Rightarrow> rule_definition" where
  "rule_of v =
     (let bp = (case opt_prop v ''blueprint'' of Some b \<Rightarrow> b | None \<Rightarrow> JNull)
      in \<lparr>ru_rule_id = string_or_empty (opt_prop v ''ruleId''), ru_priority = num_of_prop (opt_prop v ''priority''),
          ru_description = string_or_empty (opt_prop v ''description''), ru_condition = opt_prop v ''condition'',
          ru_blueprint = \<lparr>bd_memo_template = opt_str_prop bp ''memoTemplate'',
            bd_posting_groups = map group_of (field_list bp ''postingGroups'')\<rparr>\<rparr>)"

definition rule_pack_of :: "json \<Rightarrow> rule_pack" where
  "rule_pack_of v =
     \<lparr>pk_dsl_version = num_of_prop (opt_prop v ''dslVersion''), pk_pack_key = string_or_empty (opt_prop v ''packKey''),
      pk_semver = string_or_empty (opt_prop v ''semver''), pk_event_type = string_or_empty (opt_prop v ''eventType''),
      pk_schema_versions = map (\<lambda>s. string_or_empty (Some s)) (field_list v ''supportedEventSchemaVersions''),
      pk_tenant_scope = string_or_empty (opt_prop v ''tenantScope''),
      pk_entity_id = string_or_empty (opt_prop v ''entityId''),
      pk_effective_from = string_or_empty (opt_prop v ''effectiveFrom''),
      pk_effective_to = opt_str_prop v ''effectiveTo'',
      pk_journal_source_code = string_or_empty (opt_prop v ''journalSourceCode''),
      pk_match_strategy = string_or_empty (opt_prop v ''matchStrategy''),
      pk_no_match_behavior = string_or_empty (opt_prop v ''noMatchBehavior''),
      pk_rules = map rule_of (field_list v ''rules'')\<rparr>"

definition hash_rule_pack :: "(jstr \<Rightarrow> jstr) \<Rightarrow> json \<Rightarrow> jstr" where
  "hash_rule_pack sha256 pack = sha256 (canonical_stringify (Some pack))"


section \<open>Reading a clean result\<close>

named_theorems clean_simps \<open>when a findings expression has no error\<close>

lemma no_errors_simps [simp, clean_simps]:
  "no_errors []" "no_errors (xs @ ys) \<longleftrightarrow> no_errors xs \<and> no_errors ys"
  "\<not> no_errors (err rid code path msg)" "no_errors (warn rid code path msg)"
  "\<not> no_errors (add_finding ERROR rid c path msg)"
  "no_errors (concat fss) \<longleftrightarrow> list_all no_errors fss"
  by (induction fss) (auto simp: no_errors_def err_def warn_def add_finding_def)

lemma no_errors_if [clean_simps]:
  "no_errors (if P then [] else err rid code path msg) \<longleftrightarrow> P"
  "no_errors (if P then err rid code path msg else []) \<longleftrightarrow> \<not> P"
  by simp_all

text \<open>A condition the validator accepts.\<close>

definition condition_ok :: "json \<Rightarrow> bool" where
  "condition_ok c = no_errors (validate_condition_shape [] [] c)"

lemma allowed_path_string: "is_allowed_path v \<Longrightarrow> \<exists>p. v = Some (JStr p)"
  by (auto simp: is_allowed_path_def split: option.splits json.splits)

lemma allowed_resolves: "is_allowed_path v \<Longrightarrow> \<exists>w. resolve_dynamic env v = Inr w"
  by (drule allowed_path_string) (auto simp: resolve_dynamic_def)

lemma condition_operator_cases:
  "opn \<in> set condition_operators \<longleftrightarrow> opn = js ''and'' \<or> opn = js ''or'' \<or> opn = js ''not'' \<or>
     opn = js ''equals'' \<or> opn = js ''notEquals'' \<or> opn = js ''greaterThan'' \<or> opn = js ''greaterThanOrEqual''
     \<or> opn = js ''lessThan'' \<or> opn = js ''lessThanOrEqual'' \<or> opn = js ''in'' \<or> opn = js ''notIn''
     \<or> opn = js ''exists'' \<or> opn = js ''isNull'' \<or> opn = js ''isNotNull''"
  by (simp add: condition_operators_def)

lemma allowed_body: "is_allowed_path (opt_prop body ''path'') \<Longrightarrow> \<not> is_nullish (Some body)"
  by (cases body) (auto simp: is_allowed_path_def)

lemma leaf_condition_total:
  assumes "is_allowed_path (opt_prop body ''path'')"
    and "opn \<in> set condition_operators" "opn \<notin> {js ''and'', js ''or'', js ''not''}"
    and "opn = js ''in'' \<or> opn = js ''notIn'' \<Longrightarrow> nonempty_array (opt_prop body ''values'')"
  shows "\<exists>b. leaf_condition opn env (Some body) = Inr b"
proof -
  obtain v where v: "resolve_dynamic env (opt_prop body ''path'') = Inr v" using allowed_resolves [OF assms(1)] by blast
  have p: "prop_of (Some body) k = Inr (opt_prop body k)" for k
    using allowed_body [OF assms(1)] by (simp add: prop_of_def)
  have "\<exists>b. compare_path rel env (Some body) = Inr b" for rel by (simp add: compare_path_def p v)
  moreover have "\<exists>b. equals_path env (Some body) = Inr b" by (simp add: equals_path_def p v)
  moreover have "\<exists>b. test_path P env (Some body) = Inr b" for P by (simp add: test_path_def p v)
  moreover have "\<exists>b. member_path env (Some body) = Inr b" if "opn = js ''in'' \<or> opn = js ''notIn''"
    using assms(4) [OF that]
    by (auto simp: member_path_def p v split: option.splits json.splits elim!: nonempty_array.elims)
  moreover have "\<exists>b. negate_res r = Inr b" if "\<exists>b. r = Inr b" for r using that by (auto simp: negate_res_def)
  ultimately show ?thesis using assms(2,3)
    unfolding condition_operator_cases by (elim disjE) (simp_all add: leaf_condition_def)
qed

lemma every_res_ex: "\<forall>x \<in> set xs. \<exists>b. f x = Inr b \<Longrightarrow> \<exists>b. every_res f xs = Inr b"
  by (induction xs) auto

lemma some_res_ex: "\<forall>x \<in> set xs. \<exists>b. f x = Inr b \<Longrightarrow> \<exists>b. some_res f xs = Inr b"
  by (induction xs) auto

lemma evaluate_single:
  "evaluate_condition env (JObj [(opn, body)]) =
     (if opn = js ''and'' then
        (case body of JArr cs \<Rightarrow> every_res (evaluate_condition env) cs | _ \<Rightarrow> Inl ConditionTypeError)
      else if opn = js ''or'' then
        (case body of JArr cs \<Rightarrow> some_res (evaluate_condition env) cs | _ \<Rightarrow> Inl ConditionTypeError)
      else if opn = js ''not'' then negate_res (evaluate_condition env body)
      else leaf_condition opn env (Some body))"
  by (simp add: evaluate_condition.simps [of env "JObj [(opn, body)]"])

lemma condition_total_aux:
  "no_errors (validate_condition_shape rid path e) \<Longrightarrow> \<exists>b. evaluate_condition env e = Inr b"
  "no_errors (validate_clauses rid path i cs) \<Longrightarrow> \<forall>c \<in> set cs. \<exists>b. evaluate_condition env c = Inr b"
proof (induction rid path e and rid path i cs rule: validate_condition_shape_validate_clauses.induct)
  case (1 rid path e)
  from 1(3) obtain opn body where e: "e = JObj [(opn, body)]" and known: "opn \<in> set condition_operators"
    by (auto simp: validate_condition_shape.simps [of rid path e] split: json.splits list.splits if_splits)
  note ok = 1(3) [unfolded e validate_condition_shape.simps [of rid path "JObj [(opn, body)]"]]
  show ?case
  proof (cases "opn = js ''and'' \<or> opn = js ''or''")
    case True
    then obtain cs where body: "body = JArr cs" and cs: "cs \<noteq> []"
      "no_errors (validate_clauses rid (path @ js ''.'' @ opn) 0 cs)"
      using ok known by (auto split: json.splits if_splits)
    have "\<forall>c \<in> set cs. \<exists>b. evaluate_condition env c = Inr b"
      using 1(1) [OF e refl refl refl _ True body cs(1,2)] known by simp
    then show ?thesis using True body every_res_ex some_res_ex by (auto simp: e evaluate_single)
  next
    case no: False
    show ?thesis
    proof (cases "opn = js ''not''")
      case True
      then have "no_errors (validate_condition_shape rid (path @ js ''.not'') body)" using ok known by simp
      then have "\<exists>b. evaluate_condition env body = Inr b"
        using 1(2) [OF e refl refl refl _ no True] known by simp
      then show ?thesis using True by (auto simp: e evaluate_single negate_res_def)
    next
      case False
      have "is_allowed_path (opt_prop body ''path'')"
        using ok known no False by (auto simp: path_findings_def clean_simps split: if_splits)
      moreover have "nonempty_array (opt_prop body ''values'')" if "opn = js ''in'' \<or> opn = js ''notIn''"
        using ok known no False that by (auto simp: values_findings_def clean_simps split: if_splits)
      ultimately have "\<exists>b. leaf_condition opn env (Some body) = Inr b"
        using leaf_condition_total [of body opn env] known no False by auto
      then show ?thesis using no False by (auto simp: e evaluate_single)
    qed
  qed
qed auto


lemma positive_integerE:
  assumes "positive_integer v"
  obtains b where "0 < b" "v = Some (JNum (num_of_int b))"
proof -
  obtain n where n: "v = Some (JNum n)" "is_integer_num n" "\<not> num_le n (Fin 0)"
    using assms by (auto simp: positive_integer_def split: option.splits json.splits)
  from n(2) obtain b where "n = num_of_int b" by (rule is_integer_numE)
  with n that [of b] show ?thesis by (auto simp: num_le_def num_eq_def not_le)
qed

text \<open>What a clean validation says of an allocation, besides its basis points.\<close>

definition account_ref_ok :: "account_lookup \<Rightarrow> jstr \<Rightarrow> posting_allocation \<Rightarrow> bool" where
  "account_ref_ok look entity al =
     (al_account_number al = account_mapping_values_pending \<or>
      (\<exists>a. look entity (al_account_number al) = Some a \<and> ar_postable a \<and> ar_status a = js ''ACTIVE''
         \<and> (ar_type a = js ''REVENUE'' \<or> ar_type a = js ''EXPENSE'' \<longrightarrow>
              (\<exists>d. al_dept_code al = Some d \<and> \<not> is_blank d))))"

definition allocation_ok :: "account_lookup \<Rightarrow> jstr \<Rightarrow> posting_allocation \<Rightarrow> bool" where
  "allocation_ok look entity al \<longleftrightarrow> \<not> is_blank (al_account_number al) \<and> \<not> is_blank (al_store_id al)
     \<and> (entity \<noteq> [] \<longrightarrow> account_ref_ok look entity al)"

lemma nonblank_stringE:
  assumes "nonblank_string v" obtains s where "v = Some (JStr s)" "\<not> is_blank s"
  using assms by (auto elim!: nonblank_string.elims)

lemma clean_account:
  assumes "no_errors (account_findings look entity rid path v)" and "nonblank_string (opt_prop v ''accountNumber'')"
    and "entity \<noteq> []" and dept: "is_nullish (opt_prop v ''deptCode'') \<or> is_string_value (opt_prop v ''deptCode'')"
  shows "account_ref_ok look entity (allocation_of v)"
proof -
  obtain s where s: "opt_prop v ''accountNumber'' = Some (JStr s)" using assms(2) by (rule nonblank_stringE)
  show ?thesis
  proof (cases "s = account_mapping_values_pending")
    case False
    then obtain a where a: "look entity s = Some a"
      using assms(1-3) s by (auto simp: account_findings_def Let_def split: option.splits)
    have clean: "ar_postable a" "ar_status a = js ''ACTIVE''"
      "ar_type a = js ''REVENUE'' \<or> ar_type a = js ''EXPENSE'' \<Longrightarrow>
        truthy (opt_prop v ''deptCode'') \<and> js_trim (opt_string (opt_prop v ''deptCode'')) \<noteq> []"
      using assms(1-3) s a False by (auto simp: account_findings_def Let_def clean_simps split: if_splits)
    have "\<exists>d. opt_str_prop v ''deptCode'' = Some d \<and> \<not> is_blank d"
      if "truthy (opt_prop v ''deptCode'') \<and> js_trim (opt_string (opt_prop v ''deptCode'')) \<noteq> []"
      using that dept
      by (auto simp: opt_str_prop_def is_blank_def is_string_value_def split: option.splits json.splits)
    with a clean show ?thesis by (auto simp: account_ref_ok_def allocation_of_def s)
  qed (simp add: account_ref_ok_def allocation_of_def s)
qed

lemma clean_allocation:
  assumes "no_errors (allocation_field_findings rid path v)" and "no_errors (account_findings look entity rid path v)"
  shows "allocation_ok look entity (allocation_of v)" "positive_integer (opt_prop v ''bp'')"
proof -
  have f: "nonblank_string (opt_prop v ''accountNumber'')" "nonblank_string (opt_prop v ''storeId'')"
    "is_nullish (opt_prop v ''deptCode'') \<or> is_string_value (opt_prop v ''deptCode'')"
    and p: "positive_integer (opt_prop v ''bp'')"
    using assms(1) by (auto simp: allocation_field_findings_def clean_simps split: if_splits)
  show "positive_integer (opt_prop v ''bp'')" by (rule p)
  from f(1,2) obtain s t where "opt_prop v ''accountNumber'' = Some (JStr s)" "\<not> is_blank s"
    "opt_prop v ''storeId'' = Some (JStr t)" "\<not> is_blank t" by (auto elim!: nonblank_stringE)
  then show "allocation_ok look entity (allocation_of v)"
    using clean_account [OF assms(2) f(1) _ f(3)] by (simp add: allocation_ok_def allocation_of_def)
qed

lemma fold_big: "big_num x \<Longrightarrow> list_all (\<lambda>b. 0 < b) bs \<Longrightarrow> big_num (foldl num_add x (map num_of_int bs))"
proof (induction bs arbitrary: x)
  case (Cons b bs)
  then have "big_num (num_add x (num_of_int b))" by (intro num_add_big) auto
  with Cons show ?case by simp
qed simp

lemma sum_or_big:
  "0 \<le> a \<Longrightarrow> list_all (\<lambda>b. 0 < b) bs \<Longrightarrow>
     foldl num_add (num_of_int a) (map num_of_int bs) = num_of_int (a + sum_list bs)
     \<or> big_num (foldl num_add (num_of_int a) (map num_of_int bs))"
proof (induction bs arbitrary: a)
  case (Cons b bs)
  show ?case
  proof (cases "a + b \<le> 2 ^ 53")
    case True
    then have "num_add (num_of_int a) (num_of_int b) = num_of_int (a + b)"
      using Cons.prems by (intro num_add_of_int) simp
    then show ?thesis using Cons.IH [of "a + b"] Cons.prems by (simp add: add.assoc del: num_add.simps)
  next
    case False
    then have "of_int (2 ^ 53) \<le> (of_int (a + b) :: rat)" by (simp only: of_int_le_iff)
    then have "big_num (to_num (of_int a + of_int b))" by (intro to_num_big) simp
    then show ?thesis using fold_big Cons.prems by simp
  qed
qed simp

lemma clean_allocations:
  assumes "foldl (allocation_findings look entity rid path) (fs, x) (enumerate k as) = (gs, tot)" and "no_errors gs"
  shows "no_errors fs \<and> list_all (\<lambda>v. allocation_ok look entity (allocation_of v)) as
     \<and> (\<exists>bs. map al_bp (map allocation_of as) = map num_of_int bs \<and> list_all (\<lambda>b. 0 < b) bs
           \<and> tot = foldl num_add x (map num_of_int bs))"
  using assms
proof (induction as arbitrary: fs x k)
  case (Cons v as)
  obtain fs' y where step: "allocation_findings look entity rid path (fs, x) (k, v) = (fs', y)" by force
  then obtain bs where fs': "no_errors fs'" and
    ih: "list_all (\<lambda>v. allocation_ok look entity (allocation_of v)) as"
      "map al_bp (map allocation_of as) = map num_of_int bs" "list_all (\<lambda>b. 0 < b) bs"
      "tot = foldl num_add y (map num_of_int bs)"
    using Cons.IH [of fs' y "Suc k"] Cons.prems by auto
  then obtain ps where v: "v = JObj ps" using step by (auto simp: allocation_findings_def Let_def split: json.splits)
  have clean: "no_errors fs" "no_errors (allocation_field_findings rid (indexed path k) v)"
    "no_errors (account_findings look entity rid (indexed path k) v)"
    using step fs' by (auto simp: allocation_findings_def Let_def v)
  note ok = clean_allocation [OF clean(2,3)]
  from ok(2) obtain b where b: "0 < b" "opt_prop v ''bp'' = Some (JNum (num_of_int b))" by (rule positive_integerE)
  have "y = num_add x (num_of_int b)"
    using step ok(2) b by (auto simp: allocation_findings_def Let_def v num_of_prop_def)
  moreover have "al_bp (allocation_of v) = num_of_int b" using b by (simp add: allocation_of_def num_of_prop_def)
  ultimately show ?case using clean(1) ok(1) ih b
    by (intro conjI exI [of _ "b # bs"]) simp_all
qed auto

lemma clean_side:
  assumes "no_errors (side_allocation_findings look entity rid path gobj sd)"
  shows "allocations_ok (map allocation_of (field_list gobj (fst (side_fields sd))))
     \<and> list_all (allocation_ok look entity) (map allocation_of (field_list gobj (fst (side_fields sd))))"
proof -
  obtain af itf label upper where sf: "side_fields sd = (af, itf, label, upper)" by (cases "side_fields sd") auto
  obtain a as where as: "opt_prop gobj af = Some (JArr (a # as))"
    using assms by (auto simp: side_allocation_findings_def sf split: option.splits json.splits list.splits)
  obtain gs tot where acc: "foldl (allocation_findings look entity rid (path @ js ''.'' @ js af)) ([], Fin 0)
      (enumerate 0 (a # as)) = (gs, tot)" by force
  have clean: "no_errors gs" "num_eq tot (num_of_int bp_total)"
    using assms by (auto simp: side_allocation_findings_def sf as acc Let_def simp del: enumerate_simps split: if_splits)
  obtain bs where bs: "map al_bp (map allocation_of (a # as)) = map num_of_int bs" "list_all (\<lambda>b. 0 < b) bs"
      "tot = foldl num_add (Fin 0) (map num_of_int bs)"
    and ok: "list_all (\<lambda>v. allocation_ok look entity (allocation_of v)) (a # as)"
    using clean_allocations [OF acc clean(1)] by blast
  have nb: "\<not> big_num (num_of_int 10000)" by (simp add: big_num_def)
  have "sum_list bs = 10000"
    using sum_or_big [of 0 bs] bs clean(2) nb by (auto simp: num_eq_def bp_total_def simp del: of_int_numeral)
  then have "allocations_ok (map allocation_of (a # as))"
    unfolding allocations_ok_def using bs by (intro exI [of _ bs]) auto
  with ok show ?thesis by (simp add: field_list_def sf as list_all_iff)
qed


lemma allowed_has_items: "is_allowed_path (opt_prop g k) \<Longrightarrow> has_items (opt_str_prop g k)"
  by (auto simp: is_allowed_path_def opt_str_prop_def has_items_def split: option.splits json.splits)

lemma no_array: "\<not> nonempty_array (opt_prop g k) \<Longrightarrow> field_list g k = []"
  by (auto simp: field_list_def split: option.splits json.splits)

lemma clean_side_mode:
  assumes "no_errors (side_mode_findings rid path gobj sd)"
    and "\<not> has_items_path gobj sd \<Longrightarrow> no_errors (side_allocation_findings look entity rid path gobj sd)"
  shows "(has_items (opt_str_prop gobj (fst (snd (side_fields sd))))
            \<or> allocations_ok (map allocation_of (field_list gobj (fst (side_fields sd)))))
     \<and> list_all (allocation_ok look entity) (map allocation_of (field_list gobj (fst (side_fields sd))))"
proof -
  obtain af itf label upper where sf: "side_fields sd = (af, itf, label, upper)" by (cases "side_fields sd") auto
  show ?thesis
  proof (cases "has_items_path gobj sd")
    case True
    then have "\<not> nonempty_array (opt_prop gobj af)" "is_allowed_path (opt_prop gobj itf)"
      using assms(1) by (auto simp: side_mode_findings_def has_items_path_def sf Let_def split: if_splits)
    then show ?thesis by (simp add: sf allowed_has_items no_array)
  next
    case False
    from clean_side [OF assms(2) [OF this]] show ?thesis by blast
  qed
qed

definition group_accounts :: "posting_group \<Rightarrow> posting_allocation list" where
  "group_accounts g = pg_debit_allocations g @ pg_credit_allocations g"

lemma clean_group:
  assumes "no_errors (group_findings look entity rid rpath (i, gobj))"
  shows "group_ok (group_of gobj) \<and> list_all (allocation_ok look entity) (group_accounts (group_of gobj))"
proof -
  obtain ps where g: "gobj = JObj ps" using assms by (auto simp: group_findings_def Let_def split: json.splits)
  let ?path = "indexed (rpath @ js ''.blueprint.postingGroups'') i"
  have "no_errors (side_mode_findings rid ?path gobj sd)"
    and "\<not> has_items_path gobj sd \<Longrightarrow> no_errors (side_allocation_findings look entity rid ?path gobj sd)" for sd
    using assms by (cases sd; auto simp: group_findings_def Let_def g split: if_splits)+
  from clean_side_mode [OF this] have s: "(has_items (opt_str_prop gobj (fst (snd (side_fields sd))))
            \<or> allocations_ok (map allocation_of (field_list gobj (fst (side_fields sd)))))
     \<and> list_all (allocation_ok look entity) (map allocation_of (field_list gobj (fst (side_fields sd))))" for sd .
  from s [of Dr] s [of Cr] show ?thesis
    by (simp add: side_fields_def group_ok_def group_of_def group_accounts_def)
qed

definition rule_ok :: "account_lookup \<Rightarrow> jstr \<Rightarrow> rule_definition \<Rightarrow> bool" where
  "rule_ok look entity r \<longleftrightarrow> \<not> is_blank (ru_rule_id r) \<and> is_integer_num (ru_priority r)
     \<and> (truthy (ru_condition r) \<longrightarrow> (\<exists>rid path. no_errors (validate_condition_shape rid path (the (ru_condition r)))))
     \<and> bd_posting_groups (ru_blueprint r) \<noteq> [] \<and> list_all group_ok (bd_posting_groups (ru_blueprint r))
     \<and> list_all (allocation_ok look entity) (concat (map group_accounts (bd_posting_groups (ru_blueprint r))))"

lemma clean_blueprint:
  assumes "no_errors (blueprint_findings look entity rid rpath bp)"
  shows "\<exists>b. bp = Some b \<and> field_list b ''postingGroups'' \<noteq> []
     \<and> list_all (\<lambda>g. group_ok (group_of g) \<and> list_all (allocation_ok look entity) (group_accounts (group_of g)))
         (field_list b ''postingGroups'')"
proof -
  obtain ps where bp: "bp = Some (JObj ps)"
    using assms by (auto simp: blueprint_findings_def split: option.splits json.splits)
  then obtain g gs where gs: "opt_prop (JObj ps) ''postingGroups'' = Some (JArr (g # gs))"
    using assms by (auto simp: blueprint_findings_def split: option.splits json.splits list.splits)
  have "no_errors (group_findings look entity rid rpath (i, v))" if "(i, v) \<in> set (enumerate 0 (g # gs))" for i v
    using assms that gs by (fastforce simp: blueprint_findings_def bp list_all_iff simp del: enumerate_simps js_prop.simps)
  then have "group_ok (group_of v) \<and> list_all (allocation_ok look entity) (group_accounts (group_of v))"
    if v: "v \<in> set (g # gs)" for v
  proof -
    have "v \<in> snd ` set (enumerate 0 (g # gs))" using v by (simp only: list.set_map [symmetric] map_snd_enumerate)
    then obtain i where "(i, v) \<in> set (enumerate 0 (g # gs))" by force
    then show ?thesis using clean_group \<open>\<And>i v. (i, v) \<in> _ \<Longrightarrow> _\<close> by blast
  qed
  then show ?thesis using gs by (simp add: bp field_list_def list_all_iff)
qed

lemma clean_rule:
  assumes "no_errors (rule_head_findings rid path seen r)" and "rid = rule_id_of i r"
    and "no_errors (blueprint_findings look entity rid path (opt_prop r ''blueprint''))"
  shows "rule_ok look entity (rule_of r) \<and> ru_rule_id (rule_of r) = rid \<and> rid \<notin> set seen"
proof -
  from clean_blueprint [OF assms(3)] obtain b where b: "opt_prop r ''blueprint'' = Some b"
    "field_list b ''postingGroups'' \<noteq> []"
    "list_all (\<lambda>g. group_ok (group_of g) \<and> list_all (allocation_ok look entity) (group_accounts (group_of g)))
         (field_list b ''postingGroups'')" by blast
  have id: "nonblank_string (opt_prop r ''ruleId'')" and seen: "rid \<notin> set seen"
    and p: "is_integer_num (num_of_prop (opt_prop r ''priority''))"
    and c: "\<not> is_nullish (opt_prop r ''condition'') \<Longrightarrow>
              no_errors (validate_condition_shape rid (path @ js ''.condition'') (the (opt_prop r ''condition'')))"
    using assms(1) by (auto simp: rule_head_findings_def clean_simps split: if_splits)
  from id obtain s where s: "opt_prop r ''ruleId'' = Some (JStr s)" "\<not> is_blank s" by (rule nonblank_stringE)
  have "\<not> is_nullish (opt_prop r ''condition'')" if "truthy (opt_prop r ''condition'')"
    using that by (cases "opt_prop r ''condition''") auto
  with s seen p c b show ?thesis
    by (auto simp: rule_ok_def rule_of_def rule_id_of_def assms(2) list_all_iff)
qed

section \<open>Distinct priorities\<close>

definition ids_of :: "(jsnum \<times> jstr list) list \<Rightarrow> jsnum \<Rightarrow> jstr list" where
  "ids_of m p = (case map_of m p of None \<Rightarrow> [] | Some ids \<Rightarrow> ids)"

lemma ids_of_add: "ids_of (add_priority p rid m) q = (if q = p then ids_of m q @ [rid] else ids_of m q)"
  by (simp add: ids_of_def add_priority_def)

lemma ids_of_fold:
  "length (ids_of (foldl (\<lambda>m (p, rid). add_priority p rid m) m prs) q) = length (ids_of m q) + count_list (map fst prs) q"
  by (induction prs arbitrary: m) (auto simp: ids_of_add)

lemma distinct_count: "(\<And>x. count_list xs x \<le> 1) \<Longrightarrow> distinct xs"
proof (induction xs)
  case (Cons a xs)
  have "count_list xs a = 0" using Cons.prems [of a] by simp
  then have "a \<notin> set xs" by (simp add: count_list_0_iff)
  moreover have "distinct xs" using Cons.prems by (intro Cons.IH) (metis count_list.simps(2) le_add1 le_trans)
  ultimately show ?case by simp
qed simp

lemma clean_priorities:
  assumes "no_errors (priority_findings (foldl (\<lambda>m (p, rid). add_priority p rid m) [] prs))"
  shows "distinct (map fst prs)"
proof (rule distinct_count)
  fix q
  let ?m = "foldl (\<lambda>m (p, rid). add_priority p rid m) [] prs"
  have "length (ids_of ?m q) \<le> 1"
  proof (cases "map_of ?m q")
    case (Some ids)
    then have "(q, ids) \<in> set ?m" by (rule map_of_SomeD)
    then have "no_errors (if 1 < length ids
        then concat (map (\<lambda>rid. err (Some rid) ''AMBIGUOUS_PRIORITY'' (js ''$.rules'')
               (js ''Priority '' @ num_str q @ js '' is used by more than one rule: ''
                @ js_join (js '', '') ids @ js ''.'')) ids)
        else [])"
      using assms unfolding priority_findings_def no_errors_simps list_all_iff by force
    then show ?thesis using Some by (cases ids) (auto simp: ids_of_def split: if_splits)
  qed (simp add: ids_of_def)
  then show "count_list (map fst prs) q \<le> 1" unfolding ids_of_fold by simp
qed


lemma clean_rules:
  assumes "no_errors (st_findings (foldl (rule_step look entity) st (enumerate k rules)))"
  shows "no_errors (st_findings st) \<and> list_all (rule_ok look entity) (map rule_of rules)
     \<and> distinct (map ru_rule_id (map rule_of rules))
     \<and> set (map ru_rule_id (map rule_of rules)) \<inter> set (st_seen_rule_ids st) = {}
     \<and> st_priorities (foldl (rule_step look entity) st (enumerate k rules))
        = foldl (\<lambda>m (p, rid). add_priority p rid m) (st_priorities st)
            (map (\<lambda>r. (ru_priority r, ru_rule_id r)) (map rule_of rules))"
  using assms
proof (induction rules arbitrary: st k)
  case (Cons r rules)
  let ?st = "rule_step look entity st (k, r)"
  from Cons.IH [of ?st "Suc k"] Cons.prems have ih: "no_errors (st_findings ?st)"
    "list_all (rule_ok look entity) (map rule_of rules)" "distinct (map ru_rule_id (map rule_of rules))"
    "set (map ru_rule_id (map rule_of rules)) \<inter> set (st_seen_rule_ids ?st) = {}"
    "st_priorities (foldl (rule_step look entity) ?st (enumerate (Suc k) rules))
        = foldl (\<lambda>m (p, rid). add_priority p rid m) (st_priorities ?st)
            (map (\<lambda>r. (ru_priority r, ru_rule_id r)) (map rule_of rules))" by auto
  obtain ps where r: "r = JObj ps" using ih(1) by (auto simp: rule_step_def Let_def split: json.splits)
  let ?rid = "rule_id_of k r" and ?path = "indexed (js ''$.rules'') k"
  have clean: "no_errors (st_findings st)" "no_errors (rule_head_findings ?rid ?path (st_seen_rule_ids st) r)"
    "no_errors (blueprint_findings look entity ?rid ?path (opt_prop r ''blueprint''))"
    using ih(1) by (auto simp: rule_step_def Let_def r)
  from clean_rule [OF clean(2) refl clean(3)] have ok: "rule_ok look entity (rule_of r)"
    and id: "ru_rule_id (rule_of r) = ?rid" and seen: "?rid \<notin> set (st_seen_rule_ids st)" by blast+
  have nb: "nonblank_string (opt_prop r ''ruleId'')" and ip: "is_integer_num (num_of_prop (opt_prop r ''priority''))"
    using clean(2) by (auto simp: rule_head_findings_def clean_simps split: if_splits)
  have st: "st_seen_rule_ids ?st = ?rid # st_seen_rule_ids st"
    "st_priorities ?st = add_priority (ru_priority (rule_of r)) ?rid (st_priorities st)"
    using nb ip by (simp_all add: rule_step_def Let_def r rule_of_def)
  show ?case using clean(1) ok ih(2-5) id seen st by auto
qed simp

lemma clean_document:
  assumes "no_errors (document_findings date_parse look tenant ps)"
  defines "pack \<equiv> rule_pack_of (JObj ps)"
  shows "pk_rules pack \<noteq> []" "list_all (rule_ok look (pk_entity_id pack)) (pk_rules pack)"
    "distinct (map ru_rule_id (pk_rules pack))" "distinct (map ru_priority (pk_rules pack))"
    "pk_tenant_scope pack = tenant" "pk_entity_id pack \<noteq> []"
proof -
  obtain r rs where rs: "opt_prop (JObj ps) ''rules'' = Some (JArr (r # rs))"
    using assms(1) by (auto simp: document_findings_def Let_def split: option.splits json.splits list.splits)
  let ?st = "foldl (rule_step look (pk_entity_id pack)) \<lparr>st_findings = [], st_seen_rule_ids = [], st_priorities = []\<rparr>
                 (enumerate 0 (r # rs))"
  have rules: "pk_rules pack = map rule_of (r # rs)" using rs by (simp add: pack_def rule_pack_of_def field_list_def)
  have ident: "no_errors (identity_findings tenant (JObj ps))"
    using assms(1) by (simp add: document_findings_def Let_def)
  have "no_errors (rules_findings look (pk_entity_id pack) (r # rs))"
    using assms(1) rs by (simp add: document_findings_def Let_def pack_def rule_pack_of_def)
  then have fold: "no_errors (st_findings ?st)" and prio: "no_errors (priority_findings (st_priorities ?st))"
    by (simp_all only: rules_findings_def Let_def no_errors_simps)
  from clean_rules [OF fold] have
    "list_all (rule_ok look (pk_entity_id pack)) (map rule_of (r # rs))" "distinct (map ru_rule_id (map rule_of (r # rs)))"
    and pr: "st_priorities ?st = foldl (\<lambda>m (p, rid). add_priority p rid m) []
            (map (\<lambda>r. (ru_priority r, ru_rule_id r)) (map rule_of (r # rs)))" by simp_all
  then show "pk_rules pack \<noteq> []" "list_all (rule_ok look (pk_entity_id pack)) (pk_rules pack)"
    "distinct (map ru_rule_id (pk_rules pack))" unfolding rules by simp_all
  have "distinct (map fst (map (\<lambda>r. (ru_priority r, ru_rule_id r)) (map rule_of (r # rs))))"
    by (rule clean_priorities) (use prio pr in simp)
  then show "distinct (map ru_priority (pk_rules pack))" unfolding rules by (simp add: comp_def)
  have t: "nonblank_string (opt_prop (JObj ps) ''tenantScope'')"
    "string_or_empty (opt_prop (JObj ps) ''tenantScope'') = tenant" "nonblank_string (opt_prop (JObj ps) ''entityId'')"
    using ident by (auto simp: identity_findings_def clean_simps simp del: js_prop.simps split: if_splits)
  then show "pk_tenant_scope pack = tenant" by (simp add: pack_def rule_pack_of_def)
  from t(3) show "pk_entity_id pack \<noteq> []"
    by (elim nonblank_stringE) (auto simp: pack_def rule_pack_of_def)
qed

lemma validated_document:
  assumes "validate_rule_pack_source date_parse source tenant look = r" and "vr_valid r"
  obtains ps where "parse_strict_json source = Inr (JObj ps)" "vr_pack r = Some (JObj ps)"
    "no_errors (document_findings date_parse look tenant ps)"
  using assms by (auto simp: validate_rule_pack_source_def Let_def split: sum.splits json.splits if_splits)

lemma rule_ok_matches: "rule_ok look entity r \<Longrightarrow> \<exists>b. rule_matches env r = Inr b"
  using condition_total_aux(1) by (auto simp: rule_ok_def rule_matches_def)

lemma first_match_total: "\<forall>r \<in> set rs. \<exists>b. rule_matches env r = Inr b \<Longrightarrow> \<exists>m. first_match env rs = Inr m"
  by (induction rs) auto

section \<open>Properties\<close>

text \<open>
  A valid rule pack is safe to execute. Its tenant is the authenticated one, rule ids and priorities
  are unique, and on every event rule selection returns: no condition of the pack can throw.
\<close>

theorem valid_pack_selects:
  assumes "validate_rule_pack_source date_parse source tenant look = r" and "vr_valid r"
  shows "\<exists>doc. vr_pack r = Some doc \<and> pk_tenant_scope (rule_pack_of doc) = tenant
     \<and> pk_rules (rule_pack_of doc) \<noteq> []
     \<and> distinct (map ru_rule_id (pk_rules (rule_pack_of doc)))
     \<and> distinct (map ru_priority (pk_rules (rule_pack_of doc)))
     \<and> (\<forall>env. \<exists>m. select_rule (rule_pack_of doc) env = Inr m)"
proof -
  from assms obtain ps where ps: "vr_pack r = Some (JObj ps)" "no_errors (document_findings date_parse look tenant ps)"
    by (rule validated_document)
  note d = clean_document [OF ps(2)]
  have "\<exists>m. select_rule (rule_pack_of (JObj ps)) env = Inr m" for env
    unfolding select_rule_def
    by (rule first_match_total) (use d(2) rule_ok_matches in \<open>force simp: list_all_iff\<close>)
  with ps(1) d show ?thesis by blast
qed

text \<open>
  A valid rule pack is balanced by construction. Every group of every rule names a path to line
  items or has allocations of positive integer basis points that total exactly 10000, on each side,
  and every allocation posts to an active, postable account of the pack's entity (with a department on
  a profit-and-loss account) or carries the sentinel of a pending mapping.
\<close>

theorem valid_pack_balanced:
  assumes "validate_rule_pack_source date_parse source tenant look = r" and "vr_valid r"
  shows "\<exists>doc. vr_pack r = Some doc \<and>
     (\<forall>rule \<in> set (pk_rules (rule_pack_of doc)).
        bd_posting_groups (ru_blueprint rule) \<noteq> []
        \<and> list_all group_ok (bd_posting_groups (ru_blueprint rule))
        \<and> (\<forall>g \<in> set (bd_posting_groups (ru_blueprint rule)). \<forall>al \<in> set (group_accounts g).
             \<not> is_blank (al_store_id al) \<and> account_ref_ok look (pk_entity_id (rule_pack_of doc)) al))"
proof -
  from assms obtain ps where ps: "vr_pack r = Some (JObj ps)" "no_errors (document_findings date_parse look tenant ps)"
    by (rule validated_document)
  note d = clean_document [OF ps(2)]
  show ?thesis
    using ps(1) d(2,6) by (intro exI [of _ "JObj ps"]) (auto simp: list_all_iff rule_ok_def allocation_ok_def)
qed

end
