(* ===== verification/Digits.thy ===== *)
theory Digits
  imports JsString
begin

text \<open>
  Decimal numerals as strings: their digits, value and length, zero padding, and the agreement of the
  code-unit order with the numeric order on numerals of one width. Shared by the date, sequence and
  number theories.
\<close>

lemma lt10_cases: "(d::nat) < 10 \<Longrightarrow> d = 0 \<or> d = 1 \<or> d = 2 \<or> d = 3 \<or> d = 4 \<or> d = 5 \<or> d = 6 \<or> d = 7 \<or> d = 8 \<or> d = 9"
  by arith

lemma digit_unit: "d < 10 \<Longrightarrow> is_digit (cu CHR ''0'' + of_nat d) \<and> digit_val (cu CHR ''0'' + of_nat d) = d"
  by (drule lt10_cases) (auto simp: is_digit_def digit_val_def)

lemma digit_unit_zero: "d < 10 \<Longrightarrow> cu CHR ''0'' + of_nat d = cu CHR ''0'' \<longleftrightarrow> d = 0"
  by (drule lt10_cases) auto

lemma digit_val_zero [simp]: "digit_val 48 = 0"
  by (simp add: digit_val_def)

lemma is_digit_zero [simp]: "is_digit 48"
  by (simp add: is_digit_def)

lemma digit_val_lt10: "is_digit c \<Longrightarrow> digit_val c < 10"
proof -
  assume "is_digit c"
  then have "unat c \<le> unat (57 :: cu)" by (simp add: is_digit_def word_le_nat_alt)
  then show ?thesis by (simp add: digit_val_def)
qed

lemma digit_less_iff: "is_digit c \<Longrightarrow> is_digit d \<Longrightarrow> c < d \<longleftrightarrow> digit_val c < digit_val d"
proof -
  assume "is_digit c" "is_digit d"
  then have "48 \<le> unat c" "48 \<le> unat d" by (simp_all add: is_digit_def word_le_nat_alt)
  then show ?thesis by (auto simp: digit_val_def word_less_nat_alt)
qed

lemma digit_eq_iff: "is_digit c \<Longrightarrow> is_digit d \<Longrightarrow> c = d \<longleftrightarrow> digit_val c = digit_val d"
  using digit_less_iff [of c d] digit_less_iff [of d c]
  by (cases c d rule: linorder_cases) auto

lemma nat_str_digits: "list_all is_digit (nat_str n)"
proof (induction n rule: nat_str.induct)
  case (1 n)
  then show ?case using digit_unit [of n] digit_unit [of "n mod 10"]
    by (subst nat_str.simps) auto
qed

lemma nat_str_not_Nil [simp]: "nat_str n \<noteq> []"
  by (subst nat_str.simps) simp

lemma digits_val_snoc [simp]: "digits_val (s @ [c]) = 10 * digits_val s + digit_val c"
  by (simp add: digits_val_def)

lemma digits_val_Nil [simp]: "digits_val [] = 0"
  by (simp add: digits_val_def)

lemma digits_val_append: "digits_val (s @ t) = digits_val s * 10 ^ length t + digits_val t"
  by (induction t rule: rev_induct) (auto simp: algebra_simps simp flip: append_assoc)

lemma digits_val_Cons: "digits_val (c # s) = digit_val c * 10 ^ length s + digits_val s"
  using digits_val_append [of "[c]" s] digits_val_snoc [of "[]" c] by simp

lemma digits_val_nat_str [simp]: "digits_val (nat_str n) = n"
proof (induction n rule: nat_str.induct)
  case (1 n)
  show ?case
  proof (cases "n < 10")
    case True
    then show ?thesis using digit_unit [of n] digits_val_snoc [of "[]" "cu CHR ''0'' + of_nat n"]
      by (subst nat_str.simps) simp
  next
    case False
    then show ?thesis using 1 digit_unit [of "n mod 10"] by (subst nat_str.simps) simp
  qed
qed

lemma hd_nat_str: "hd (nat_str n) = cu CHR ''0'' \<longleftrightarrow> n = 0"
proof (induction n rule: nat_str.induct)
  case (1 n)
  then show ?case using digit_unit_zero [of n]
    by (subst nat_str.simps) (auto simp: hd_append)
qed

lemma length_nat_str: "10 ^ k \<le> n \<Longrightarrow> n < 10 ^ Suc k \<Longrightarrow> length (nat_str n) = Suc k"
proof (induction k arbitrary: n)
  case 0
  then show ?case by (subst nat_str.simps) simp
next
  case (Suc k)
  have "(1::nat) \<le> 10 ^ k" by simp
  then have "(10::nat) \<le> 10 ^ Suc k" by simp
  then have n: "\<not> n < 10" using Suc.prems(1) by linarith
  moreover have "length (nat_str (n div 10)) = Suc k"
    using Suc.prems by (intro Suc.IH) auto
  ultimately show ?case by (subst nat_str.simps) simp
qed

lemma nat_str_inject [simp]: "nat_str m = nat_str n \<longleftrightarrow> m = n"
  by (metis digits_val_nat_str)

lemma digits_val_zeros [simp]: "digits_val (zeros n) = 0"
proof (induction n)
  case (Suc n)
  have "zeros (Suc n) = zeros n @ [48]" by (simp add: zeros_def replicate_append_same)
  with Suc show ?case by simp
qed (simp add: zeros_def)

lemma zeros_digits: "list_all is_digit (zeros n)"
  by (induction n) (auto simp: zeros_def)

lemma length_zeros [simp]: "length (zeros n) = n"
  by (simp add: zeros_def)

section \<open>Padding\<close>

lemma pad_start_zeros: "pad_start n 48 s = zeros (n - length s) @ s"
  by (simp add: pad_start_def zeros_def)

lemma pad_digits: "list_all is_digit s \<Longrightarrow> list_all is_digit (pad_start n 48 s)"
  unfolding pad_start_zeros by (simp add: zeros_digits)

lemma pad_val [simp]: "digits_val (pad_start n 48 s) = digits_val s"
  unfolding pad_start_zeros by (simp add: digits_val_append)

lemma length_pad: "length (pad_start n c s) = max n (length s)"
  by (simp add: pad_start_def)

lemma length_nat_str_le: "0 < k \<Longrightarrow> n < 10 ^ k \<Longrightarrow> length (nat_str n) \<le> k"
proof (induction k arbitrary: n)
  case (Suc k)
  show ?case
  proof (cases "n < 10")
    case True
    then show ?thesis by (subst nat_str.simps) simp
  next
    case False
    then have "k \<noteq> 0" using Suc.prems(2) by (cases k) auto
    then have "length (nat_str (n div 10)) \<le> k" using Suc.prems by (intro Suc.IH) auto
    then show ?thesis using False by (subst nat_str.simps) simp
  qed
qed simp

lemma length_pad_nat: "0 < k \<Longrightarrow> n < 10 ^ k \<Longrightarrow> length (pad_start k 48 (nat_str n)) = k"
  using length_nat_str_le [of k n] by (simp only: length_pad max_def) simp

section \<open>Order\<close>

lemma digits_val_bound: "list_all is_digit s \<Longrightarrow> digits_val s < 10 ^ length s"
proof (induction s rule: rev_induct)
  case (snoc c s)
  then show ?case using digit_val_lt10 [of c] by simp
qed simp

lemma digits_less_iff:
  "length s = length t \<Longrightarrow> list_all is_digit s \<Longrightarrow> list_all is_digit t \<Longrightarrow> s < t \<longleftrightarrow> digits_val s < digits_val t"
proof (induction s t rule: list_induct2)
  case (Cons c s d t)
  have b: "digits_val s < 10 ^ length t" "digits_val t < 10 ^ length t"
    using digits_val_bound [of s] digits_val_bound [of t] Cons by auto
  have "digit_val c * 10 ^ length t + digits_val s < digit_val d * 10 ^ length t + digits_val t \<longleftrightarrow>
      digit_val c < digit_val d \<or> digit_val c = digit_val d \<and> digits_val s < digits_val t"
  proof (cases "digit_val c" "digit_val d" rule: linorder_cases)
    case less
    then have "(digit_val c + 1) * 10 ^ length t \<le> digit_val d * 10 ^ length t" by (intro mult_right_mono) auto
    then show ?thesis using less b by (simp add: algebra_simps)
  next
    case greater
    then have "(digit_val d + 1) * 10 ^ length t \<le> digit_val c * 10 ^ length t" by (intro mult_right_mono) auto
    then show ?thesis using greater b by (simp add: algebra_simps)
  qed simp
  then show ?case using Cons digit_less_iff [of c d] digit_eq_iff [of c d]
    by (auto simp: digits_val_Cons)
qed simp

lemma digits_eq_iff:
  assumes "length s = length t" "list_all is_digit s" "list_all is_digit t"
  shows "s = t \<longleftrightarrow> digits_val s = digits_val t"
  using digits_less_iff [OF assms] digits_less_iff [OF assms(1) [symmetric] assms(3,2)]
  by (cases s t rule: linorder_cases) auto

lemma append_less_iff:
  "length (s :: 'a :: linorder list) = length t \<Longrightarrow> s @ u < t @ v \<longleftrightarrow> s < t \<or> s = t \<and> u < v"
  by (induction s t rule: list_induct2) auto

end
