(* ===== verification/Outbox.thy ===== *)
theory Outbox
  imports Digits JsValue
begin

text \<open>
  The two append-only tables every service writes in its transactions: the audit outbox
  (\<open>audit_outbox\<close>) and the event outbox (\<open>coa_outbox\<close>), and the shared helpers of the services: clock
  readings are integers (milliseconds) and the random identifiers a call draws are its arguments.
\<close>

record audit_event =
  ae_tenant :: jstr
  ae_doc_type :: jstr
  ae_doc_id :: jstr
  ae_action :: jstr
  ae_before :: "json option"
  ae_after :: "json option"
  ae_actor :: jstr

record outbox_event =
  oe_tenant :: jstr
  oe_type :: jstr
  oe_aggregate :: jstr
  oe_payload :: json

definition opt_str :: "jstr option \<Rightarrow> jstr" where
  "opt_str v = (case v of None \<Rightarrow> [] | Some s \<Rightarrow> s)"

text \<open>\<open>!!v\<close> for an optional string: present and not empty.\<close>

definition given :: "jstr option \<Rightarrow> bool" where
  "given v = (case v of None \<Rightarrow> False | Some s \<Rightarrow> s \<noteq> [])"

text \<open>\<open>v?.trim()\<close> is truthy.\<close>

definition given_trimmed :: "jstr option \<Rightarrow> bool" where
  "given_trimmed v = (case v of None \<Rightarrow> False | Some s \<Rightarrow> js_trim s \<noteq> [])"

definition bool_str :: "bool \<Rightarrow> jstr" where
  "bool_str b = (if b then js ''true'' else js ''false'')"

section \<open>Clock readings\<close>

text \<open>
  \<open>Date.toISOString\<close>: the proleptic Gregorian date of a day number (days since 1970-01-01), and the
  text of an instant in milliseconds.
\<close>

definition civil_from_days :: "int \<Rightarrow> int \<times> int \<times> int" where
  "civil_from_days n =
     (let z = n + 719468; era = z div 146097; doe = z mod 146097;
          yoe = (doe - doe div 1460 + doe div 36524 - doe div 146096) div 365;
          doy = doe - (365 * yoe + yoe div 4 - yoe div 100); mp = (5 * doy + 2) div 153;
          d = doy - (153 * mp + 2) div 5 + 1; m = (if mp < 10 then mp + 3 else mp - 9);
          y = yoe + era * 400 + (if m \<le> 2 then 1 else 0)
      in (y, m, d))"

definition padded :: "nat \<Rightarrow> int \<Rightarrow> jstr" where
  "padded n i = pad_start n (cu CHR ''0'') (int_str i)"

definition iso_year :: "int \<Rightarrow> jstr" where
  "iso_year y = (if 0 \<le> y \<and> y \<le> 9999 then padded 4 y
                 else (if y < 0 then js ''-'' else js ''+'') @ padded 6 \<bar>y\<bar>)"

definition iso_time :: "int \<Rightarrow> jstr" where
  "iso_time ms =
     (let (y, m, d) = civil_from_days (ms div 86400000); t = ms mod 86400000
      in iso_year y @ js ''-'' @ padded 2 m @ js ''-'' @ padded 2 d @ js ''T'' @ padded 2 (t div 3600000)
         @ js '':'' @ padded 2 (t div 60000 mod 60) @ js '':'' @ padded 2 (t div 1000 mod 60)
         @ js ''.'' @ padded 3 (t mod 1000) @ js ''Z'')"

definition iso_day :: "int \<Rightarrow> jstr" where
  "iso_day ms = take 10 (iso_time ms)"

end
