(* ===== verification/ConfigService.thy ===== *)
theory ConfigService
  imports Outbox Prelude
begin

text \<open>
  \<open>domain/config-catalog.ts\<close> and \<open>application/config-service.ts\<close>: catalog-controlled configuration keys
  with typed values, resolved store first, then entity, then tenant, then the catalog default, from the
  versions effective at a moment. The in-process cache is part of the state.
\<close>

section \<open>Typed values and scopes\<close>

definition config_scopes :: "jstr list" where
  "config_scopes = [js ''TENANT'', js ''ENTITY'', js ''STORE'']"

definition scope_order :: "jstr list" where
  "scope_order = [js ''STORE'', js ''ENTITY'', js ''TENANT'']"

definition is_int_text :: "jstr \<Rightarrow> bool" where
  "is_int_text s = (let ds = (case s of c # cs \<Rightarrow> if c = cu CHR ''-'' then cs else s | [] \<Rightarrow> s)
                    in ds \<noteq> [] \<and> list_all is_digit ds)"

definition validate_typed_value :: "jstr \<Rightarrow> jstr \<Rightarrow> jstr list \<Rightarrow> jstr option" where
  "validate_typed_value ty v enum_values =
     (let got = js '' (got '' @ sq @ v @ sq @ js '')''
      in if ty = js ''BOOL'' then
           (if v = js ''true'' \<or> v = js ''false'' then None
            else Some (js ''BOOL value must be '' @ sq @ js ''true'' @ sq @ js '' or '' @ sq @ js ''false'' @ sq @ got))
         else if ty = js ''INT'' then
           (if is_int_text v then None else Some (js ''INT value must be an integer'' @ got))
         else if ty = js ''ENUM'' then
           (if v \<in> set enum_values then None
            else Some (js ''ENUM value must be one of ['' @ js_join (js '', '') enum_values @ js '']'' @ got))
         else if ty = js ''STRING'' then
           (if v \<noteq> [] then None else Some (js ''STRING value must be non-empty''))
         else Some (js ''unknown type '' @ sq @ ty @ sq))"

definition validate_scope :: "jstr \<Rightarrow> jstr list \<Rightarrow> jstr option \<Rightarrow> jstr option \<Rightarrow> jstr option" where
  "validate_scope scope allowed entity_id store_id =
     (if scope \<notin> set config_scopes
      then Some (js ''scope must be one of ['' @ js_join (js '', '') config_scopes @ js ''] (got '' @ sq @ scope @ sq @ js '')'')
      else if scope \<notin> set allowed
      then Some (js ''scope '' @ sq @ scope @ sq @ js '' is not permitted for this key (allowed: [''
                 @ js_join (js '', '') allowed @ js ''])'')
      else if (scope = js ''ENTITY'' \<or> scope = js ''STORE'') \<and> \<not> given entity_id
      then Some (js ''entityId is required for scope '' @ sq @ scope @ sq)
      else if scope = js ''STORE'' \<and> \<not> given store_id
      then Some (js ''storeId is required for scope '' @ sq @ js ''STORE'' @ sq)
      else None)"

section \<open>State\<close>

record config_key =
  ck_key :: jstr
  ck_type :: jstr
  ck_allowed_scope :: "jstr list"
  ck_enum_values :: "jstr list"
  ck_default_value :: jstr

record config_setting =
  cs_id :: jstr
  cs_tenant :: jstr
  cs_key :: jstr
  cs_type :: jstr
  cs_scope :: jstr
  cs_entity :: "jstr option"
  cs_store :: "jstr option"
  cs_value :: jstr
  cs_effective_from :: int
  cs_status :: jstr
  cs_actor :: jstr
  cs_superseded_at :: "int option"

record resolved_config =
  rc_key :: jstr
  rc_type :: jstr
  rc_value :: jstr
  rc_scope :: jstr

record config_state =
  cf_catalog :: "config_key list"
  cf_settings :: "config_setting list"
  cf_audit :: "audit_event list"
  cf_outbox :: "outbox_event list"
  cf_cache :: "(jstr \<times> (resolved_config \<times> int)) list"

record put_config_dto =
  pd_tenant :: jstr
  pd_key :: jstr
  pd_scope :: jstr
  pd_entity :: "jstr option"
  pd_store :: "jstr option"
  pd_value :: jstr
  pd_effective_from :: "int option"
  pd_actor :: jstr

record resolve_query =
  rq_tenant :: jstr
  rq_key :: jstr
  rq_entity :: "jstr option"
  rq_store :: "jstr option"
  rq_as_of :: "int option"

datatype config_error = ConfigUnknownKey jstr | ConfigValidation jstr jstr

definition cache_ttl_ms :: int where
  "cache_ttl_ms = 30000"

section \<open>Resolution\<close>

definition require_catalog :: "config_state \<Rightarrow> jstr \<Rightarrow> config_error + config_key" where
  "require_catalog st key =
     (case find_row (\<lambda>k. ck_key k = key) (cf_catalog st) of
        None \<Rightarrow> Inl (ConfigUnknownKey key) | Some k \<Rightarrow> Inr k)"

definition active_status :: "jstr \<Rightarrow> bool" where
  "active_status s = (s = js ''SCHEDULED'' \<or> s = js ''EFFECTIVE'')"

definition matches_scope :: "jstr \<Rightarrow> jstr option \<Rightarrow> jstr option \<Rightarrow> config_setting \<Rightarrow> bool" where
  "matches_scope scope entity_id store_id row =
     (cs_scope row = scope
      \<and> (if scope = js ''STORE'' then given store_id \<and> cs_store row = store_id
         else if scope = js ''ENTITY'' then given entity_id \<and> cs_entity row = entity_id
         else True))"

definition candidates :: "config_state \<Rightarrow> jstr \<Rightarrow> jstr \<Rightarrow> int \<Rightarrow> config_setting list" where
  "candidates st tenant key as_of =
     sort_key (\<lambda>c. - cs_effective_from c)
       (filter (\<lambda>c. cs_tenant c = tenant \<and> cs_key c = key \<and> cs_effective_from c \<le> as_of
                    \<and> active_status (cs_status c)) (cf_settings st))"

fun pick_scope :: "config_setting list \<Rightarrow> jstr option \<Rightarrow> jstr option \<Rightarrow> jstr list \<Rightarrow> (jstr \<times> config_setting) option" where
  "pick_scope cands entity_id store_id [] = None"
| "pick_scope cands entity_id store_id (scope # scopes) =
     (case find_row (matches_scope scope entity_id store_id) cands of
        Some c \<Rightarrow> Some (scope, c) | None \<Rightarrow> pick_scope cands entity_id store_id scopes)"

definition resolve_as_of :: "config_state \<Rightarrow> resolve_query \<Rightarrow> int \<Rightarrow> config_error + resolved_config" where
  "resolve_as_of st q as_of =
     bind_res (require_catalog st (rq_key q)) (\<lambda>k.
       Inr (case pick_scope (candidates st (rq_tenant q) (rq_key q) as_of) (rq_entity q) (rq_store q) scope_order of
              Some (scope, c) \<Rightarrow> \<lparr>rc_key = rq_key q, rc_type = ck_type k, rc_value = cs_value c, rc_scope = scope\<rparr>
            | None \<Rightarrow> \<lparr>rc_key = rq_key q, rc_type = ck_type k, rc_value = ck_default_value k,
                       rc_scope = js ''DEFAULT''\<rparr>))"

definition cache_key :: "jstr \<Rightarrow> jstr \<Rightarrow> jstr option \<Rightarrow> jstr option \<Rightarrow> jstr" where
  "cache_key tenant key entity_id store_id =
     tenant @ js ''|'' @ key @ js ''|'' @ opt_str entity_id @ js ''|'' @ opt_str store_id"

definition config_resolve :: "int \<Rightarrow> resolve_query \<Rightarrow> config_state \<Rightarrow> (config_error + resolved_config) \<times> config_state" where
  "config_resolve now q st =
     (case rq_as_of q of
        Some t \<Rightarrow> (resolve_as_of st q t, st)
      | None \<Rightarrow>
          (let ck = cache_key (rq_tenant q) (rq_key q) (rq_entity q) (rq_store q);
               fresh = (case resolve_as_of st q now of
                   Inl e \<Rightarrow> (Inl e, st)
                 | Inr r \<Rightarrow> (Inr r, st\<lparr>cf_cache := put ck (r, now + cache_ttl_ms) (cf_cache st)\<rparr>))
           in case map_of (cf_cache st) ck of
                Some (r, expires) \<Rightarrow> if now < expires then (Inr r, st) else fresh
              | None \<Rightarrow> fresh))"

section \<open>Writes\<close>

definition cache_invalidate :: "jstr \<Rightarrow> jstr \<Rightarrow> config_state \<Rightarrow> config_state" where
  "cache_invalidate tenant key st =
     st\<lparr>cf_cache := filter (\<lambda>(k, v). \<not> starts_with (tenant @ js ''|'' @ key @ js ''|'') k) (cf_cache st)\<rparr>"

definition cache_invalidate_all :: "config_state \<Rightarrow> config_state" where
  "cache_invalidate_all st = st\<lparr>cf_cache := []\<rparr>"

definition resolved_json :: "resolved_config \<Rightarrow> json" where
  "resolved_json r = JObj [(js ''key'', JStr (rc_key r)), (js ''type'', JStr (rc_type r)),
     (js ''value'', JStr (rc_value r)), (js ''resolvedScope'', JStr (rc_scope r))]"

definition supersede :: "put_config_dto \<Rightarrow> int \<Rightarrow> int \<Rightarrow> config_setting list \<Rightarrow> config_setting list" where
  "supersede dto effective_from now =
     update_rows (\<lambda>c. cs_tenant c = pd_tenant dto \<and> cs_key c = pd_key dto \<and> cs_scope c = pd_scope dto
          \<and> cs_entity c = pd_entity dto \<and> cs_store c = pd_store dto \<and> cs_effective_from c \<le> effective_from
          \<and> active_status (cs_status c))
       (\<lambda>c. c\<lparr>cs_status := js ''SUPERSEDED'', cs_superseded_at := Some now\<rparr>)"

definition config_put :: "jstr \<Rightarrow> jstr \<Rightarrow> int \<Rightarrow> put_config_dto \<Rightarrow> config_state
    \<Rightarrow> (config_error + config_setting) \<times> config_state" where
  "config_put row_id event_id now dto st =
     (case require_catalog st (pd_key dto) of
        Inl e \<Rightarrow> (Inl e, st)
      | Inr k \<Rightarrow>
        (case validate_scope (pd_scope dto) (ck_allowed_scope k) (pd_entity dto) (pd_store dto) of
           Some msg \<Rightarrow> (Inl (ConfigValidation (js ''INVALID_SCOPE'') msg), st)
         | None \<Rightarrow>
           (case validate_typed_value (ck_type k) (pd_value dto) (ck_enum_values k) of
              Some msg \<Rightarrow> (Inl (ConfigValidation (js ''INVALID_VALUE'') msg), st)
            | None \<Rightarrow>
              let eff = (case pd_effective_from dto of Some t \<Rightarrow> t | None \<Rightarrow> now);
                  status = (if eff \<le> now then js ''EFFECTIVE'' else js ''SCHEDULED'');
                  q = \<lparr>rq_tenant = pd_tenant dto, rq_key = pd_key dto, rq_entity = pd_entity dto,
                       rq_store = pd_store dto, rq_as_of = Some now\<rparr>
              in case resolve_as_of st q now of
                   Inl e \<Rightarrow> (Inl e, st)
                 | Inr before \<Rightarrow>
                   let row = \<lparr>cs_id = row_id, cs_tenant = pd_tenant dto, cs_key = pd_key dto, cs_type = ck_type k,
                        cs_scope = pd_scope dto, cs_entity = pd_entity dto, cs_store = pd_store dto,
                        cs_value = pd_value dto, cs_effective_from = eff, cs_status = status,
                        cs_actor = pd_actor dto, cs_superseded_at = None\<rparr>;
                       after = JObj [(js ''value'', JStr (pd_value dto)), (js ''scope'', JStr (pd_scope dto)),
                                     (js ''resolvedScope'', JStr (pd_scope dto))];
                       audit = \<lparr>ae_tenant = pd_tenant dto, ae_doc_type = js ''config_setting'', ae_doc_id = row_id,
                         ae_action = js ''PUT'', ae_before = Some (resolved_json before), ae_after = Some after,
                         ae_actor = pd_actor dto\<rparr>;
                       event = \<lparr>oe_tenant = pd_tenant dto, oe_type = js ''config.changed'', oe_aggregate = pd_key dto,
                         oe_payload = JObj [(js ''eventId'', JStr event_id), (js ''key'', JStr (pd_key dto)),
                           (js ''scope'', JStr (pd_scope dto)), (js ''before'', JStr (rc_value before)),
                           (js ''after'', JStr (pd_value dto)), (js ''effectiveFrom'', JStr (iso_time eff)),
                           (js ''actor'', JStr (pd_actor dto)), (js ''ts'', JStr (iso_time now)), (js ''schemaV'', JNum (Fin 1))]\<rparr>;
                       st' = st\<lparr>cf_settings := supersede dto eff now (cf_settings st) @ [row],
                               cf_audit := cf_audit st @ [audit]\<rparr>
                   in (Inr row, (cache_invalidate (pd_tenant dto) (pd_key dto) st')
                                  \<lparr>cf_outbox := cf_outbox st @ [event]\<rparr>))))"

section \<open>Facts\<close>

lemma sorted_find_first:
  assumes "find_row P (sort_key f xs) = Some r" and "x \<in> set xs" and "P x"
  shows "f r \<le> (f x :: 'k :: linorder)"
proof -
  have "find_row P ys = Some r \<Longrightarrow> sorted (map f ys) \<Longrightarrow> x \<in> set ys \<Longrightarrow> f r \<le> f x" for ys
    using assms(3) by (induction ys) (auto split: if_splits dest: find_row_Some)
  from this [of "sort_key f xs"] show ?thesis using assms(1,2) by simp
qed

definition active_match :: "config_state \<Rightarrow> resolve_query \<Rightarrow> int \<Rightarrow> jstr \<Rightarrow> config_setting \<Rightarrow> bool" where
  "active_match st q t scope c \<longleftrightarrow> c \<in> set (cf_settings st) \<and> cs_tenant c = rq_tenant q \<and> cs_key c = rq_key q
     \<and> cs_effective_from c \<le> t \<and> active_status (cs_status c) \<and> matches_scope scope (rq_entity q) (rq_store q) c"

lemma find_candidate:
  "find_row (matches_scope scope (rq_entity q) (rq_store q)) (candidates st (rq_tenant q) (rq_key q) t) = None
     \<longleftrightarrow> (\<forall>c. \<not> active_match st q t scope c)"
  by (auto simp: find_row_None candidates_def active_match_def)


definition demo_key :: config_key where
  "demo_key = \<lparr>ck_key = js ''fiscal.max_open_periods'', ck_type = js ''INT'',
     ck_allowed_scope = [js ''TENANT''], ck_enum_values = [], ck_default_value = js ''2''\<rparr>"

definition demo_setting :: config_setting where
  "demo_setting = \<lparr>cs_id = js ''s1'', cs_tenant = js ''t1'', cs_key = js ''fiscal.max_open_periods'',
     cs_type = js ''INT'', cs_scope = js ''TENANT'', cs_entity = None, cs_store = None, cs_value = js ''5'',
     cs_effective_from = 100, cs_status = js ''EFFECTIVE'', cs_actor = js ''u1'', cs_superseded_at = None\<rparr>"

definition demo_config :: config_state where
  "demo_config = \<lparr>cf_catalog = [demo_key], cf_settings = [demo_setting], cf_audit = [], cf_outbox = [], cf_cache = []\<rparr>"

definition demo_query :: resolve_query where
  "demo_query = \<lparr>rq_tenant = js ''t1'', rq_key = js ''fiscal.max_open_periods'', rq_entity = None, rq_store = None,
     rq_as_of = Some 200\<rparr>"

lemma demo_resolves:
  "resolve_as_of demo_config demo_query 200 = Inr \<lparr>rc_key = js ''fiscal.max_open_periods'', rc_type = js ''INT'',
     rc_value = js ''5'', rc_scope = js ''TENANT''\<rparr>"
  by (simp add: resolve_as_of_def require_catalog_def demo_config_def demo_key_def demo_query_def candidates_def
      demo_setting_def active_status_def scope_order_def matches_scope_def)



definition demo_schedule :: put_config_dto where
  "demo_schedule = \<lparr>pd_tenant = js ''t1'', pd_key = js ''fiscal.max_open_periods'', pd_scope = js ''TENANT'',
     pd_entity = None, pd_store = None, pd_value = js ''7'', pd_effective_from = Some 900, pd_actor = js ''u1''\<rparr>"

text \<open>
  Scheduling a change takes the current value away at once. The write supersedes every active
  version of the same dimension effective before the new one, the one in force included, so until the
  scheduled moment the key falls back to the catalog default.
\<close>

theorem scheduled_put_drops_current_value:
  "resolve_as_of demo_config demo_query 200 = Inr \<lparr>rc_key = js ''fiscal.max_open_periods'', rc_type = js ''INT'',
       rc_value = js ''5'', rc_scope = js ''TENANT''\<rparr>
   \<and> resolve_as_of (snd (config_put (js ''s2'') (js ''e1'') 200 demo_schedule demo_config)) demo_query 200
     = Inr \<lparr>rc_key = js ''fiscal.max_open_periods'', rc_type = js ''INT'', rc_value = js ''2'', rc_scope = js ''DEFAULT''\<rparr>"
proof -
  have t: "validate_typed_value (js ''INT'') (js ''7'') [] = None" by code_simp
  show ?thesis
    by (simp add: demo_resolves)
      (simp add: resolve_as_of_def require_catalog_def demo_config_def demo_key_def demo_query_def candidates_def
        demo_setting_def active_status_def scope_order_def matches_scope_def config_put_def demo_schedule_def
        validate_scope_def config_scopes_def t supersede_def Let_def cache_invalidate_def)
qed

end
