(* ===== verification/PeriodControl.thy ===== *)
theory PeriodControl
  imports ConfigService Conditions JournalPosting
begin

text \<open>
  \<open>domain/period-status.ts\<close> and \<open>application/period-service.ts\<close>: the life cycle of an accounting period,
  the database trigger that guards it (\<open>enforce_period_transition\<close> of the S008 migration), and the
  operations open, soft-close, hard-close, reopen, reopen-hard-closed and lock.
\<close>

section \<open>Status\<close>

datatype period_status = FUTURE | OPEN | SOFT_CLOSED | HARD_CLOSED | LOCKED

definition period_statuses :: "period_status list" where
  "period_statuses = [FUTURE, OPEN, SOFT_CLOSED, HARD_CLOSED, LOCKED]"

fun status_str :: "period_status \<Rightarrow> jstr" where
  "status_str FUTURE = js ''FUTURE''"
| "status_str OPEN = js ''OPEN''"
| "status_str SOFT_CLOSED = js ''SOFT_CLOSED''"
| "status_str HARD_CLOSED = js ''HARD_CLOSED''"
| "status_str LOCKED = js ''LOCKED''"

fun legal_transitions :: "period_status \<Rightarrow> period_status list" where
  "legal_transitions FUTURE = [OPEN]"
| "legal_transitions OPEN = [SOFT_CLOSED]"
| "legal_transitions SOFT_CLOSED = [OPEN, HARD_CLOSED]"
| "legal_transitions HARD_CLOSED = [OPEN, LOCKED]"
| "legal_transitions LOCKED = []"

definition can_transition :: "period_status \<Rightarrow> period_status \<Rightarrow> bool" where
  "can_transition a b = (b \<in> set (legal_transitions a))"

definition eligibility :: "period_status \<Rightarrow> bool \<Rightarrow> bool \<times> jstr" where
  "eligibility st adjusting =
     (if st = OPEN then (True, js ''Period is OPEN'')
      else if st = SOFT_CLOSED \<and> adjusting
      then (True, js ''Period is SOFT_CLOSED '' @ [0x2014] @ js '' postable only for an authorized adjusting entry'')
      else (False, case st of
          FUTURE \<Rightarrow> js ''Period is FUTURE '' @ [0x2014] @ js '' not yet opened for business''
        | OPEN \<Rightarrow> js ''Period is OPEN''
        | SOFT_CLOSED \<Rightarrow> js ''Period is SOFT_CLOSED '' @ [0x2014]
            @ js '' postings blocked pending review (adjusting entries require fiscal.je.mark_adjusting)''
        | HARD_CLOSED \<Rightarrow> js ''Period is HARD_CLOSED '' @ [0x2014] @ js '' no further postings permitted''
        | LOCKED \<Rightarrow> js ''Period is LOCKED '' @ [0x2014] @ js '' permanently sealed''))"

section \<open>Periods\<close>

record fiscal_period =
  fp_id :: jstr
  fp_tenant :: jstr
  fp_entity :: jstr
  fp_calendar :: jstr
  fp_fiscal_year :: int
  fp_period_number :: int
  fp_code :: jstr
  fp_start :: int
  fp_end :: int
  fp_status :: period_status
  fp_adjustments_only :: bool
  fp_has_postings :: bool
  fp_opened_by :: "jstr option"
  fp_opened_at :: "int option"
  fp_closed_by :: "jstr option"
  fp_closed_at :: "int option"
  fp_locked_by :: "jstr option"
  fp_locked_at :: "int option"

definition period_order :: "fiscal_period \<Rightarrow> int" where
  "period_order p = fp_fiscal_year p * 100 + fp_period_number p"

definition detect_skipped_periods :: "fiscal_period \<Rightarrow> fiscal_period list \<Rightarrow> jstr list" where
  "detect_skipped_periods target all_periods =
     map fp_code (sort_key period_order
       (filter (\<lambda>p. \<not> fp_adjustments_only p \<and> fp_status p = FUTURE \<and> period_order p < period_order target)
               all_periods))"

section \<open>The database trigger\<close>

record period_transition =
  pt_tenant :: jstr
  pt_entity :: jstr
  pt_period :: jstr
  pt_from :: period_status
  pt_to :: period_status
  pt_actor :: jstr

datatype period_error =
    PeriodNotFound jstr
  | InvalidTransition jstr jstr
  | MaxOpenReached jsnum
  | PeriodReasonRequired jstr
  | PeriodLockedTerminal jstr
  | HardCloseBlockedByDrafts "(jstr \<times> jstr option \<times> jstr \<times> jstr) list"
  | ActorContextRequired
  | AmountRangeError

text \<open>The SQLSTATEs the trigger raises.\<close>

datatype db_error = AMPR0 | AMPR4 | AMPR5

definition enforce_period_transition :: "jstr \<Rightarrow> int \<Rightarrow> fiscal_period \<Rightarrow> fiscal_period
    \<Rightarrow> db_error + fiscal_period \<times> period_transition list" where
  "enforce_period_transition actor now old new =
     (if fp_status new = fp_status old then Inr (new, [])
      else if actor = [] then Inl AMPR4
      else if fp_status old = LOCKED then Inl AMPR5
      else if (fp_status old, fp_status new) \<notin> {(FUTURE, OPEN), (OPEN, SOFT_CLOSED), (SOFT_CLOSED, OPEN),
                 (SOFT_CLOSED, HARD_CLOSED), (HARD_CLOSED, OPEN), (HARD_CLOSED, LOCKED)} then Inl AMPR0
      else
        let r1 = (if fp_status new = SOFT_CLOSED \<or> fp_status new = HARD_CLOSED
                  then new\<lparr>fp_closed_by := Some actor, fp_closed_at := Some now\<rparr>
                  else if fp_status new = OPEN then new\<lparr>fp_closed_by := None, fp_closed_at := None\<rparr>
                  else new);
            r2 = (if fp_status new = LOCKED then r1\<lparr>fp_locked_by := Some actor, fp_locked_at := Some now\<rparr> else r1)
        in Inr (r2, [\<lparr>pt_tenant = fp_tenant new, pt_entity = fp_entity new, pt_period = fp_id new,
                     pt_from = fp_status old, pt_to = fp_status new, pt_actor = actor\<rparr>]))"

section \<open>The service\<close>

record je_draft_row =
  jd_id :: jstr
  jd_tenant :: jstr
  jd_entity :: jstr
  jd_status :: jstr
  jd_entry_date :: "int option"
  jd_preparer :: jstr
  jd_lines :: json

record period_state =
  ps_periods :: "fiscal_period list"
  ps_drafts :: "je_draft_row list"
  ps_transitions :: "period_transition list"
  ps_audit :: "audit_event list"
  ps_outbox :: "outbox_event list"
  ps_config :: config_state

record open_period_dto =
  od_tenant :: jstr
  od_period :: jstr
  od_actor :: jstr
  od_confirm :: bool

record period_transition_dto =
  td_tenant :: jstr
  td_period :: jstr
  td_actor :: jstr
  td_reason :: "jstr option"
  td_confirm :: bool

record open_result =
  or_opened :: bool
  or_status :: period_status
  or_requires_confirmation :: bool
  or_warning :: "jstr option"
  or_skipped :: "jstr list option"
  or_period :: "fiscal_period option"

record transition_result =
  tr_transitioned :: bool
  tr_status :: period_status
  tr_requires_confirmation :: bool
  tr_message :: "jstr option"
  tr_period :: "fiscal_period option"

definition get_period :: "period_state \<Rightarrow> jstr \<Rightarrow> jstr \<Rightarrow> period_error + fiscal_period" where
  "get_period st tenant pid =
     (case find_row (\<lambda>p. fp_id p = pid) (ps_periods st) of
        None \<Rightarrow> Inl (PeriodNotFound pid)
      | Some p \<Rightarrow> if fp_tenant p \<noteq> tenant then Inl (PeriodNotFound pid) else Inr p)"

text \<open>\<open>sumDebits\<close>: \<open>BigInt\<close> of an infinite number throws.\<close>

definition debit_cents :: "json \<Rightarrow> int option" where
  "debit_cents raw =
     (let dr = js_prop raw (js ''dr'')
      in if is_nullish dr \<or> dr = Some (JStr []) then Some 0
         else (let n = js_to_number dr
               in if \<not> is_finite_num n then Some 0
                  else (case math_round (num_mul n (Fin 100)) of Fin c \<Rightarrow> Some \<lfloor>c\<rfloor> | _ \<Rightarrow> None)))"

definition sum_debits :: "json \<Rightarrow> jstr option" where
  "sum_debits lines =
     (let arr = (case lines of JArr xs \<Rightarrow> xs | _ \<Rightarrow> []); cs = map debit_cents arr
      in if None \<in> set cs then None
         else (let cents = sum_list (map the cs); a = nat \<bar>cents\<bar>
               in Some ((if cents < 0 then js ''-'' else []) @ nat_str (a div 100) @ js ''.''
                        @ pad_start 2 (cu CHR ''0'') (nat_str (a mod 100)))))"

definition blocking_rows :: "period_state \<Rightarrow> fiscal_period \<Rightarrow> je_draft_row list" where
  "blocking_rows st p =
     sort_key (\<lambda>d. the (jd_entry_date d))
       (filter (\<lambda>d. jd_tenant d = fp_tenant p \<and> jd_entity d = fp_entity p
                 \<and> (jd_status d = js ''DRAFT'' \<or> jd_status d = js ''VALIDATED'')
                 \<and> (case jd_entry_date d of None \<Rightarrow> False | Some t \<Rightarrow> fp_start p \<le> t \<and> t \<le> fp_end p)) (ps_drafts st))"

definition find_blocking_drafts :: "period_state \<Rightarrow> fiscal_period
    \<Rightarrow> period_error + (jstr \<times> jstr option \<times> jstr \<times> jstr) list" where
  "find_blocking_drafts st p =
     map_res (\<lambda>d. case sum_debits (jd_lines d) of
          None \<Rightarrow> Inl AmountRangeError
        | Some amount \<Rightarrow> Inr (jd_id d, map_option iso_day (jd_entry_date d), amount, jd_preparer d))
       (blocking_rows st p)"

definition leading_digits :: "jstr \<Rightarrow> jstr" where
  "leading_digits = takeWhile is_digit"

definition parse_int10 :: "jstr \<Rightarrow> jsnum" where
  "parse_int10 s =
     (let t = dropWhile is_ws s;
          (neg, u) = (case t of c # cs \<Rightarrow> if c = cu CHR ''-'' then (True, cs) else if c = cu CHR ''+'' then (False, cs)
                                 else (False, t) | [] \<Rightarrow> (False, []))
      in if leading_digits u = [] then NaN
         else to_num (of_int ((if neg then - 1 else 1) * int (digits_val (leading_digits u)))))"

definition default_max_open :: jsnum where
  "default_max_open = Fin 2"

definition resolve_max_open :: "int \<Rightarrow> jstr \<Rightarrow> jstr \<Rightarrow> config_state \<Rightarrow> jsnum \<times> config_state" where
  "resolve_max_open now tenant entity cfg =
     (case config_resolve now \<lparr>rq_tenant = tenant, rq_key = js ''fiscal.max_open_periods'', rq_entity = Some entity,
              rq_store = None, rq_as_of = None\<rparr> cfg of
        (Inl e, cfg') \<Rightarrow> (default_max_open, cfg')
      | (Inr r, cfg') \<Rightarrow>
          (let n = parse_int10 (rc_value r)
           in (if is_finite_num n \<and> num_lt (Fin 0) n then n else default_max_open, cfg')))"

definition period_audit :: "jstr \<Rightarrow> jstr \<Rightarrow> jstr \<Rightarrow> jstr \<Rightarrow> json \<Rightarrow> json \<Rightarrow> audit_event" where
  "period_audit tenant pid actor action before after =
     \<lparr>ae_tenant = tenant, ae_doc_type = js ''fiscal_period'', ae_doc_id = pid, ae_action = action,
      ae_before = Some before, ae_after = Some after, ae_actor = actor\<rparr>"

definition opt_time_json :: "int option \<Rightarrow> json" where
  "opt_time_json t = (case t of None \<Rightarrow> JNull | Some m \<Rightarrow> JStr (iso_time m))"

definition opt_jstr_json :: "jstr option \<Rightarrow> json" where
  "opt_jstr_json s = (case s of None \<Rightarrow> JNull | Some t \<Rightarrow> JStr t)"

text \<open>An \<open>UPDATE\<close> of one period through the trigger.\<close>

definition update_period :: "jstr \<Rightarrow> int \<Rightarrow> fiscal_period \<Rightarrow> fiscal_period \<Rightarrow> period_state \<Rightarrow> db_error + period_state" where
  "update_period actor now old new st =
     bind_res (enforce_period_transition actor now old new) (\<lambda>(row, ts).
       Inr (st\<lparr>ps_periods := update_rows (\<lambda>p. fp_id p = fp_id old) (\<lambda>_. row) (ps_periods st),
              ps_transitions := ps_transitions st @ ts\<rparr>))"

definition map_db_error :: "jstr \<Rightarrow> period_status \<Rightarrow> period_status \<Rightarrow> db_error \<Rightarrow> period_error" where
  "map_db_error pid a b e = (case e of AMPR4 \<Rightarrow> ActorContextRequired | AMPR5 \<Rightarrow> PeriodLockedTerminal []
                              | AMPR0 \<Rightarrow> InvalidTransition (status_str a) (status_str b))"

definition open_period :: "jstr \<Rightarrow> int \<Rightarrow> open_period_dto \<Rightarrow> period_state
    \<Rightarrow> (period_error + open_result) \<times> period_state" where
  "open_period event_id now dto st =
     (case get_period st (od_tenant dto) (od_period dto) of
        Inl e \<Rightarrow> (Inl e, st)
      | Inr p \<Rightarrow>
        if fp_status p = OPEN
        then (Inr \<lparr>or_opened = True, or_status = OPEN, or_requires_confirmation = False, or_warning = None,
                   or_skipped = None, or_period = Some p\<rparr>, st)
        else if \<not> can_transition (fp_status p) OPEN
        then (Inl (InvalidTransition (status_str (fp_status p)) (status_str OPEN)), st)
        else
          let (max_open, cfg) = resolve_max_open now (od_tenant dto) (fp_entity p) (ps_config st);
              st1 = st\<lparr>ps_config := cfg\<rparr>;
              siblings = filter (\<lambda>r. fp_tenant r = od_tenant dto \<and> fp_entity r = fp_entity p) (ps_periods st);
              open_count = length (filter (\<lambda>r. fp_status r = OPEN) siblings);
              skipped = detect_skipped_periods p siblings
          in if num_le max_open (num_of_int (int open_count)) then (Inl (MaxOpenReached max_open), st1)
             else if skipped \<noteq> [] \<and> \<not> od_confirm dto
             then (Inr \<lparr>or_opened = False, or_status = fp_status p, or_requires_confirmation = True,
                        or_warning = Some (js ''SKIP_OPEN''), or_skipped = Some skipped, or_period = None\<rparr>, st1)
             else
               let new = p\<lparr>fp_status := OPEN, fp_opened_by := Some (od_actor dto), fp_opened_at := Some now\<rparr>
               in case update_period (od_actor dto) now p new st1 of
                    Inl e \<Rightarrow> (Inl (map_db_error (fp_id p) (fp_status p) OPEN e), st1)
                  | Inr st2 \<Rightarrow>
                    let audit = period_audit (od_tenant dto) (fp_id p) (od_actor dto) (js ''OPEN'')
                          (JObj [(js ''status'', JStr (status_str (fp_status p))),
                                 (js ''openedBy'', opt_jstr_json (fp_opened_by p)),
                                 (js ''openedAt'', opt_time_json (fp_opened_at p))])
                          (JObj [(js ''status'', JStr (status_str OPEN)), (js ''openedBy'', JStr (od_actor dto)),
                                 (js ''openedAt'', JStr (iso_time now))]);
                        event = \<lparr>oe_tenant = od_tenant dto, oe_type = js ''fiscal.period.opened'', oe_aggregate = fp_code p,
                          oe_payload = JObj [(js ''eventId'', JStr event_id), (js ''entityId'', JStr (fp_entity p)),
                            (js ''periodCode'', JStr (fp_code p)), (js ''actor'', JStr (od_actor dto)),
                            (js ''ts'', JStr (iso_time now)), (js ''schemaV'', JNum (Fin 1))]\<rparr>
                    in (Inr \<lparr>or_opened = True, or_status = OPEN, or_requires_confirmation = False, or_warning = None,
                             or_skipped = (if skipped \<noteq> [] then Some skipped else None),
                             or_period = find_row (\<lambda>r. fp_id r = fp_id p) (ps_periods st2)\<rparr>,
                        st2\<lparr>ps_audit := ps_audit st2 @ [audit], ps_outbox := ps_outbox st2 @ [event]\<rparr>))"

definition already :: "fiscal_period \<Rightarrow> transition_result" where
  "already p = \<lparr>tr_transitioned = True, tr_status = fp_status p, tr_requires_confirmation = False, tr_message = None,
                tr_period = Some p\<rparr>"

definition ask_confirmation :: "fiscal_period \<Rightarrow> jstr \<Rightarrow> transition_result" where
  "ask_confirmation p msg = \<lparr>tr_transitioned = False, tr_status = fp_status p, tr_requires_confirmation = True,
                             tr_message = Some msg, tr_period = None\<rparr>"

definition apply_transition :: "int \<Rightarrow> period_transition_dto \<Rightarrow> period_status \<Rightarrow> period_status \<Rightarrow> string \<Rightarrow> period_state
    \<Rightarrow> (period_error + transition_result) \<times> period_state" where
  "apply_transition now dto a b action st =
     (case find_row (\<lambda>p. fp_id p = td_period dto \<and> fp_tenant p = td_tenant dto \<and> fp_status p = a) (ps_periods st) of
        None \<Rightarrow> (Inl (InvalidTransition
                  (case find_row (\<lambda>p. fp_id p = td_period dto) (ps_periods st) of
                     Some p \<Rightarrow> status_str (fp_status p) | None \<Rightarrow> status_str a) (status_str b)), st)
      | Some p \<Rightarrow>
        (case update_period (td_actor dto) now p (p\<lparr>fp_status := b\<rparr>) st of
           Inl e \<Rightarrow> (Inl (map_db_error (fp_id p) a b e), st)
         | Inr st' \<Rightarrow>
             (Inr \<lparr>tr_transitioned = True, tr_status = b, tr_requires_confirmation = False, tr_message = None,
                   tr_period = find_row (\<lambda>p. fp_id p = td_period dto) (ps_periods st')\<rparr>,
              st'\<lparr>ps_audit := ps_audit st' @ [period_audit (td_tenant dto) (td_period dto) (td_actor dto) (js action)
                    (JObj [(js ''status'', JStr (status_str a))])
                    (JObj [(js ''status'', JStr (status_str b)), (js ''reason'', opt_jstr_json (td_reason dto))])]\<rparr>)))"

definition soft_close :: "int \<Rightarrow> period_transition_dto \<Rightarrow> period_state
    \<Rightarrow> (period_error + transition_result) \<times> period_state" where
  "soft_close now dto st =
     (case get_period st (td_tenant dto) (td_period dto) of
        Inl e \<Rightarrow> (Inl e, st)
      | Inr p \<Rightarrow>
        if fp_status p = SOFT_CLOSED then (Inr (already p), st)
        else if fp_status p = LOCKED then (Inl (PeriodLockedTerminal (fp_id p)), st)
        else if \<not> can_transition (fp_status p) SOFT_CLOSED
        then (Inl (InvalidTransition (status_str (fp_status p)) (status_str SOFT_CLOSED)), st)
        else if \<not> given_trimmed (td_reason dto) then (Inl (PeriodReasonRequired (js ''soft-close a period'')), st)
        else apply_transition now dto (fp_status p) SOFT_CLOSED ''SOFT_CLOSE'' st)"

definition hard_close :: "int \<Rightarrow> period_transition_dto \<Rightarrow> period_state
    \<Rightarrow> (period_error + transition_result) \<times> period_state" where
  "hard_close now dto st =
     (case get_period st (td_tenant dto) (td_period dto) of
        Inl e \<Rightarrow> (Inl e, st)
      | Inr p \<Rightarrow>
        if fp_status p = HARD_CLOSED then (Inr (already p), st)
        else if fp_status p = LOCKED then (Inl (PeriodLockedTerminal (fp_id p)), st)
        else if \<not> can_transition (fp_status p) HARD_CLOSED
        then (Inl (InvalidTransition (status_str (fp_status p)) (status_str HARD_CLOSED)), st)
        else if \<not> given_trimmed (td_reason dto) then (Inl (PeriodReasonRequired (js ''hard-close a period'')), st)
        else (case find_blocking_drafts st p of
            Inl e \<Rightarrow> (Inl e, st)
          | Inr (b # bs) \<Rightarrow> (Inl (HardCloseBlockedByDrafts (b # bs)), st)
          | Inr [] \<Rightarrow> apply_transition now dto (fp_status p) HARD_CLOSED ''HARD_CLOSE'' st))"

definition reopen :: "int \<Rightarrow> period_transition_dto \<Rightarrow> period_state
    \<Rightarrow> (period_error + transition_result) \<times> period_state" where
  "reopen now dto st =
     (case get_period st (td_tenant dto) (td_period dto) of
        Inl e \<Rightarrow> (Inl e, st)
      | Inr p \<Rightarrow>
        if fp_status p = OPEN then (Inr (already p), st)
        else if fp_status p = LOCKED then (Inl (PeriodLockedTerminal (fp_id p)), st)
        else if fp_status p \<noteq> SOFT_CLOSED
        then (Inl (InvalidTransition (status_str (fp_status p))
               (js ''OPEN (use reopen-hard-closed for a HARD_CLOSED period)'')), st)
        else if \<not> given_trimmed (td_reason dto) then (Inl (PeriodReasonRequired (js ''reopen a period'')), st)
        else apply_transition now dto (fp_status p) OPEN ''REOPEN'' st)"

definition reopen_hard_closed :: "int \<Rightarrow> period_transition_dto \<Rightarrow> period_state
    \<Rightarrow> (period_error + transition_result) \<times> period_state" where
  "reopen_hard_closed now dto st =
     (case get_period st (td_tenant dto) (td_period dto) of
        Inl e \<Rightarrow> (Inl e, st)
      | Inr p \<Rightarrow>
        if fp_status p = OPEN then (Inr (already p), st)
        else if fp_status p = LOCKED then (Inl (PeriodLockedTerminal (fp_id p)), st)
        else if fp_status p \<noteq> HARD_CLOSED
        then (Inl (InvalidTransition (status_str (fp_status p))
               (js ''OPEN (reopen-hard-closed only applies to a HARD_CLOSED period)'')), st)
        else if \<not> given_trimmed (td_reason dto)
        then (Inl (PeriodReasonRequired (js ''reopen a hard-closed period'')), st)
        else if \<not> td_confirm dto
        then (Inr (ask_confirmation p (js ''Reopening a HARD_CLOSED period is a high-severity action. ''
                @ js ''Re-submit with confirm=true and a reason.'')), st)
        else apply_transition now dto (fp_status p) OPEN ''PERIOD_REOPENED_FROM_HARD_CLOSE'' st)"

definition lock_period :: "int \<Rightarrow> period_transition_dto \<Rightarrow> period_state
    \<Rightarrow> (period_error + transition_result) \<times> period_state" where
  "lock_period now dto st =
     (case get_period st (td_tenant dto) (td_period dto) of
        Inl e \<Rightarrow> (Inl e, st)
      | Inr p \<Rightarrow>
        if fp_status p = LOCKED then (Inr (already p), st)
        else if \<not> can_transition (fp_status p) LOCKED
        then (Inl (InvalidTransition (status_str (fp_status p)) (status_str LOCKED)), st)
        else if \<not> given_trimmed (td_reason dto) then (Inl (PeriodReasonRequired (js ''lock a period'')), st)
        else if \<not> td_confirm dto
        then (Inr (ask_confirmation p (js ''Locking a period is PERMANENT and IRREVERSIBLE in S008 v1 '' @ [0x2014]
                @ js '' no unlock path exists. Re-submit with confirm=true and a reason.'')), st)
        else apply_transition now dto (fp_status p) LOCKED ''LOCK'' st)"

definition period_eligibility :: "period_state \<Rightarrow> jstr \<Rightarrow> jstr
    \<Rightarrow> period_error + jstr \<times> jstr \<times> period_status \<times> bool \<times> jstr" where
  "period_eligibility st tenant pid =
     bind_res (get_period st tenant pid) (\<lambda>p.
       let (postable, reason) = eligibility (fp_status p) False
       in Inr (fp_id p, fp_code p, fp_status p, postable, reason))"

text \<open>The board: every period of the entity, its open drafts and its latest audited transition.\<close>

record board_row =
  br_period :: fiscal_period
  br_open_drafts :: nat
  br_last :: "audit_event option"

definition period_board :: "period_state \<Rightarrow> jstr \<Rightarrow> jstr \<Rightarrow> board_row list" where
  "period_board st tenant entity =
     map (\<lambda>p. \<lparr>br_period = p,
         br_open_drafts = length (filter (\<lambda>d. jd_tenant d = tenant \<and> jd_entity d = entity
              \<and> (jd_status d = js ''DRAFT'' \<or> jd_status d = js ''VALIDATED'')
              \<and> (case jd_entry_date d of None \<Rightarrow> False | Some t \<Rightarrow> fp_start p \<le> t \<and> t \<le> fp_end p)) (ps_drafts st)),
         br_last = find_row (\<lambda>e. ae_tenant e = tenant \<and> ae_doc_type e = js ''fiscal_period'' \<and> ae_doc_id e = fp_id p)
              (rev (ps_audit st))\<rparr>)
       (sort_key fp_fiscal_year (sort_key fp_period_number
         (filter (\<lambda>p. fp_tenant p = tenant \<and> fp_entity p = entity) (ps_periods st))))"


section \<open>The contract of the transition trigger\<close>

text \<open>A recorded history leads from one status to another by legal moves.\<close>

fun chain :: "('s \<Rightarrow> 's \<Rightarrow> bool) \<Rightarrow> 's \<Rightarrow> ('s \<times> 's) list \<Rightarrow> 's \<Rightarrow> bool" where
  "chain legal a [] c = (a = c)"
| "chain legal a ((x, y) # ms) c = (x = a \<and> legal x y \<and> chain legal y ms c)"

lemma chain_append: "chain legal a (ms @ ns) c \<longleftrightarrow> (\<exists>b. chain legal a ms b \<and> chain legal b ns c)"
  by (induction ms arbitrary: a) auto

text \<open>
  What the services rely on: the trigger keeps the key of a row, writes no history for an unchanged
  status, and exactly one record of a legal move otherwise.
\<close>

locale status_trigger =
  fixes trig :: "'a \<Rightarrow> 'n \<Rightarrow> 'r \<Rightarrow> 'r \<Rightarrow> 'e + 'r \<times> 'l list"
    and key :: "'r \<Rightarrow> 'k" and status :: "'r \<Rightarrow> 's" and legal :: "'s \<Rightarrow> 's \<Rightarrow> bool"
    and lkey :: "'l \<Rightarrow> 'k" and move :: "'l \<Rightarrow> 's \<times> 's"
  assumes keeps_key: "trig a n old new = Inr (r, ls) \<Longrightarrow> key new = key old \<Longrightarrow> key r = key old"
    and history: "trig a n old new = Inr (r, ls) \<Longrightarrow> key new = key old \<Longrightarrow>
      (status r = status old \<and> ls = []) \<or> (\<exists>l. ls = [l] \<and> lkey l = key old \<and> move l = (status old, status r)
         \<and> legal (status old) (status r))"
begin

lemma logged_under_key:
  "trig a n old new = Inr (r, ls) \<Longrightarrow> key new = key old \<Longrightarrow> k \<noteq> key old \<Longrightarrow> filter (\<lambda>l. lkey l = k) ls = []"
  using history [of a n old new r ls] by auto

lemma extends_chain:
  assumes "trig a n old new = Inr (r, ls)" and "key new = key old" and "chain legal s0 ms (status old)"
  shows "chain legal s0 (ms @ map move (filter (\<lambda>l. lkey l = key old) ls)) (status r)"
  using history [OF assms(1,2)] assms(3) by (auto simp: chain_append)

lemma update_keeps_chains:
  assumes "trig a n old new = Inr (r, ls)" and "key new = key old" and "old \<in> set rows"
    and inv: "\<forall>x \<in> set rows. chain legal (init (key x)) (map move (filter (\<lambda>l. lkey l = key x) hist)) (status x)"
  shows "\<forall>x \<in> set (update_rows (\<lambda>x. key x = key old) (\<lambda>_. r) rows).
      chain legal (init (key x)) (map move (filter (\<lambda>l. lkey l = key x) (hist @ ls))) (status x)"
proof
  fix x assume "x \<in> set (update_rows (\<lambda>x. key x = key old) (\<lambda>_. r) rows)"
  then consider "x = r" | "x \<in> set rows" "key x \<noteq> key old" by (auto simp: set_update_rows)
  then show "chain legal (init (key x)) (map move (filter (\<lambda>l. lkey l = key x) (hist @ ls))) (status x)"
  proof cases
    case 1
    then show ?thesis using extends_chain [OF assms(1,2)] inv assms(3) keeps_key [OF assms(1,2)] by auto
  next
    case 2
    then show ?thesis using inv logged_under_key [OF assms(1,2) 2(2)] by simp
  qed
qed

end

definition period_move :: "period_transition \<Rightarrow> period_status \<times> period_status" where
  "period_move t = (pt_from t, pt_to t)"

interpretation pt: status_trigger enforce_period_transition fp_id fp_status can_transition pt_period period_move
proof
  fix a n old new r ls
  assume t: "enforce_period_transition a n old new = Inr (r, ls)" and k: "fp_id new = fp_id old"
  show "fp_id r = fp_id old"
    using t k by (auto simp: enforce_period_transition_def Let_def split: if_splits)
  show "fp_status r = fp_status old \<and> ls = [] \<or>
      (\<exists>l. ls = [l] \<and> pt_period l = fp_id old \<and> period_move l = (fp_status old, fp_status r)
           \<and> can_transition (fp_status old) (fp_status r))"
    using t k by (auto simp: enforce_period_transition_def Let_def can_transition_def period_move_def split: if_splits)
qed

section \<open>Steps of the service\<close>

text \<open>One call of the service, whatever it returns.\<close>

inductive period_step :: "period_state \<Rightarrow> period_state \<Rightarrow> bool" where
  step_open: "open_period ev now d st = (r, st') \<Longrightarrow> period_step st st'"
| step_soft: "soft_close now dto st = (rt, st') \<Longrightarrow> period_step st st'"
| step_hard: "hard_close now dto st = (rt, st') \<Longrightarrow> period_step st st'"
| step_reopen: "reopen now dto st = (rt, st') \<Longrightarrow> period_step st st'"
| step_reopen_hard: "reopen_hard_closed now dto st = (rt, st') \<Longrightarrow> period_step st st'"
| step_lock: "lock_period now dto st = (rt, st') \<Longrightarrow> period_step st st'"

inductive period_reach :: "period_state \<Rightarrow> period_state \<Rightarrow> bool" for st0 where
  reach_here: "period_reach st0 st0"
| reach_step: "period_reach st0 st \<Longrightarrow> period_step st st' \<Longrightarrow> period_reach st0 st'"

inductive_cases period_stepE: "period_step st st'"

text \<open>What a call does to the tables: nothing, or one trigger-guarded update with one audit event.\<close>

definition period_keeps :: "period_state \<Rightarrow> period_state \<Rightarrow> bool" where
  "period_keeps st st' \<longleftrightarrow> ps_periods st' = ps_periods st \<and> ps_transitions st' = ps_transitions st
     \<and> ps_audit st' = ps_audit st"

definition audit_move :: "audit_event \<Rightarrow> (json option \<times> json option)" where
  "audit_move e = (case (ae_before e, ae_after e) of
     (Some b, Some a) \<Rightarrow> (js_prop b (js ''status''), js_prop a (js ''status'')) | _ \<Rightarrow> (None, None))"

definition period_moves :: "period_state \<Rightarrow> period_state \<Rightarrow> bool" where
  "period_moves st st' \<longleftrightarrow> (\<exists>actor now p q row t e. p \<in> set (ps_periods st) \<and> fp_id q = fp_id p
     \<and> enforce_period_transition actor now p q = Inr (row, [t])
     \<and> ps_periods st' = update_rows (\<lambda>r. fp_id r = fp_id p) (\<lambda>_. row) (ps_periods st)
     \<and> ps_transitions st' = ps_transitions st @ [t] \<and> ps_audit st' = ps_audit st @ [e]
     \<and> ae_doc_id e = pt_period t \<and> ae_actor e = pt_actor t
     \<and> audit_move e = (Some (JStr (status_str (pt_from t))), Some (JStr (status_str (pt_to t)))))"

lemma update_period_Inr:
  assumes "update_period actor now p q st = Inr st'" and "fp_status q \<noteq> fp_status p"
  shows "\<exists>row. enforce_period_transition actor now p q = Inr (row,
            [\<lparr>pt_tenant = fp_tenant q, pt_entity = fp_entity q, pt_period = fp_id q,
                     pt_from = fp_status p, pt_to = fp_status q, pt_actor = actor\<rparr>])
      \<and> st' = st\<lparr>ps_periods := update_rows (\<lambda>r. fp_id r = fp_id p) (\<lambda>_. row) (ps_periods st),
              ps_transitions := ps_transitions st @ [\<lparr>pt_tenant = fp_tenant q, pt_entity = fp_entity q, pt_period = fp_id q,
                     pt_from = fp_status p, pt_to = fp_status q, pt_actor = actor\<rparr>]\<rparr>"
  using assms by (auto simp: update_period_def enforce_period_transition_def res_simps Let_def split: if_splits)

lemma get_period_Inr: "get_period st tenant pid = Inr p \<Longrightarrow> p \<in> set (ps_periods st) \<and> fp_id p = pid \<and> fp_tenant p = tenant"
  by (auto simp: get_period_def dest: find_row_Some split: option.splits if_splits)

lemma apply_transition_effect:
  assumes "apply_transition now dto a b action st = (r, st')" and "a \<noteq> b"
  shows "period_keeps st st' \<or> period_moves st st'"
proof (cases "find_row (\<lambda>p. fp_id p = td_period dto \<and> fp_tenant p = td_tenant dto \<and> fp_status p = a) (ps_periods st)")
  case None
  then show ?thesis using assms by (auto simp: apply_transition_def period_keeps_def)
next
  case (Some p)
  have p: "p \<in> set (ps_periods st)" "fp_id p = td_period dto" "fp_status p = a" using find_row_Some [OF Some] by auto
  show ?thesis
  proof (cases "update_period (td_actor dto) now p (p\<lparr>fp_status := b\<rparr>) st")
    case (Inl e)
    then show ?thesis using assms Some by (auto simp: apply_transition_def period_keeps_def)
  next
    case (Inr st1)
    obtain row where row: "enforce_period_transition (td_actor dto) now p (p\<lparr>fp_status := b\<rparr>) = Inr (row,
            [\<lparr>pt_tenant = fp_tenant p, pt_entity = fp_entity p, pt_period = fp_id p,
                     pt_from = a, pt_to = b, pt_actor = td_actor dto\<rparr>])"
      and st1: "ps_periods st1 = update_rows (\<lambda>r. fp_id r = fp_id p) (\<lambda>_. row) (ps_periods st)"
        "ps_transitions st1 = ps_transitions st @ [\<lparr>pt_tenant = fp_tenant p, pt_entity = fp_entity p, pt_period = fp_id p,
                     pt_from = a, pt_to = b, pt_actor = td_actor dto\<rparr>]" "ps_audit st1 = ps_audit st"
      using update_period_Inr [OF Inr] p assms(2) by auto
    have "period_moves st st'"
      unfolding period_moves_def
      by (rule exI [where x = "td_actor dto"], rule exI [where x = now], rule exI [where x = p],
          rule exI [where x = "p\<lparr>fp_status := b\<rparr>"], rule exI [where x = row],
          rule exI, rule exI, intro conjI, rule p(1), simp, rule row)
        (use assms(1) Some Inr st1 p in \<open>auto simp: apply_transition_def audit_move_def period_audit_def\<close>)
    then show ?thesis ..
  qed
qed


lemma resolve_max_open_config: "ps_periods (st\<lparr>ps_config := cfg\<rparr>) = ps_periods st" by simp

lemma open_period_effect:
  assumes "open_period ev now d st = (r, st')"
  shows "period_keeps st st' \<or> period_moves st st'"
proof (cases "get_period st (od_tenant d) (od_period d)")
  case (Inl e)
  then show ?thesis using assms by (auto simp: open_period_def period_keeps_def)
next
  case (Inr p)
  note p = get_period_Inr [OF Inr]
  obtain m cfg where m: "resolve_max_open now (od_tenant d) (fp_entity p) (ps_config st) = (m, cfg)"
    by (cases "resolve_max_open now (od_tenant d) (fp_entity p) (ps_config st)")
  let ?new = "p\<lparr>fp_status := OPEN, fp_opened_by := Some (od_actor d), fp_opened_at := Some now\<rparr>"
  show ?thesis
  proof (cases "period_keeps st st'")
    case False
    then have ne: "fp_status p \<noteq> OPEN"
      and run: "\<exists>st2. update_period (od_actor d) now p ?new (st\<lparr>ps_config := cfg\<rparr>) = Inr st2
        \<and> ps_periods st' = ps_periods st2 \<and> ps_transitions st' = ps_transitions st2
        \<and> (\<exists>e. ps_audit st' = ps_audit st2 @ [e] \<and> ae_doc_id e = fp_id p \<and> ae_actor e = od_actor d
          \<and> audit_move e = (Some (JStr (status_str (fp_status p))), Some (JStr (status_str OPEN))))"
      using assms Inr m
      by (auto simp: open_period_def period_keeps_def Let_def audit_move_def period_audit_def
          split: if_splits sum.splits)
    obtain st2 where st2: "update_period (od_actor d) now p ?new (st\<lparr>ps_config := cfg\<rparr>) = Inr st2"
      and st': "ps_periods st' = ps_periods st2" "ps_transitions st' = ps_transitions st2"
      and e: "\<exists>e. ps_audit st' = ps_audit st2 @ [e] \<and> ae_doc_id e = fp_id p \<and> ae_actor e = od_actor d
          \<and> audit_move e = (Some (JStr (status_str (fp_status p))), Some (JStr (status_str OPEN)))"
      using run by blast
    obtain row where row: "enforce_period_transition (od_actor d) now p ?new = Inr (row,
            [\<lparr>pt_tenant = fp_tenant p, pt_entity = fp_entity p, pt_period = fp_id p,
                     pt_from = fp_status p, pt_to = OPEN, pt_actor = od_actor d\<rparr>])"
      and st2': "ps_periods st2 = update_rows (\<lambda>r. fp_id r = fp_id p) (\<lambda>_. row) (ps_periods st)"
        "ps_transitions st2 = ps_transitions st @ [\<lparr>pt_tenant = fp_tenant p, pt_entity = fp_entity p, pt_period = fp_id p,
                     pt_from = fp_status p, pt_to = OPEN, pt_actor = od_actor d\<rparr>]" "ps_audit st2 = ps_audit st"
      using update_period_Inr [OF st2] ne by auto
    have "period_moves st st'"
      unfolding period_moves_def
      by (rule exI [where x = "od_actor d"], rule exI [where x = now], rule exI [where x = p],
          rule exI [where x = ?new], rule exI [where x = row])
        (use p row st' st2' e in auto)
    then show ?thesis ..
  qed simp
qed

lemma legal_ne [simp]: "\<not> can_transition a a"
  by (cases a) (simp_all add: can_transition_def)

lemmas period_splits = sum.splits if_splits list.splits

lemma soft_close_effect:
  "soft_close now dto st = (rt, st') \<Longrightarrow> period_keeps st st' \<or> period_moves st st'"
  by (auto simp: soft_close_def period_keeps_def split: period_splits dest!: apply_transition_effect)

lemma hard_close_effect:
  "hard_close now dto st = (rt, st') \<Longrightarrow> period_keeps st st' \<or> period_moves st st'"
  by (auto simp: hard_close_def period_keeps_def split: period_splits dest!: apply_transition_effect)

lemma reopen_effect:
  "reopen now dto st = (rt, st') \<Longrightarrow> period_keeps st st' \<or> period_moves st st'"
  by (auto simp: reopen_def period_keeps_def split: period_splits dest!: apply_transition_effect)

lemma reopen_hard_closed_effect:
  "reopen_hard_closed now dto st = (rt, st') \<Longrightarrow> period_keeps st st' \<or> period_moves st st'"
  by (auto simp: reopen_hard_closed_def period_keeps_def split: period_splits dest!: apply_transition_effect)

lemma lock_period_effect:
  "lock_period now dto st = (rt, st') \<Longrightarrow> period_keeps st st' \<or> period_moves st st'"
  by (auto simp: lock_period_def period_keeps_def split: period_splits dest!: apply_transition_effect)

lemma period_step_effect: "period_step st st' \<Longrightarrow> period_keeps st st' \<or> period_moves st st'"
  by (erule period_stepE) (rule open_period_effect soft_close_effect hard_close_effect reopen_effect
      reopen_hard_closed_effect lock_period_effect, assumption)+

section \<open>The history of a period\<close>

definition history_of :: "period_state \<Rightarrow> jstr \<Rightarrow> (period_status \<times> period_status) list" where
  "history_of st pid = map period_move (filter (\<lambda>t. pt_period t = pid) (ps_transitions st))"

definition history_inv :: "(jstr \<Rightarrow> period_status) \<Rightarrow> period_state \<Rightarrow> bool" where
  "history_inv s0 st \<longleftrightarrow> (\<forall>p \<in> set (ps_periods st). chain can_transition (s0 (fp_id p)) (history_of st (fp_id p)) (fp_status p))"

lemma period_moves_history:
  assumes "period_moves st st'" and "history_inv s0 st"
  shows "history_inv s0 st'"
  using assms unfolding period_moves_def history_inv_def history_of_def
  by (auto dest!: pt.update_keeps_chains [where init = s0 and rows = "ps_periods st" and hist = "ps_transitions st"])

lemma period_step_history:
  "period_step st st' \<Longrightarrow> history_inv s0 st \<Longrightarrow> history_inv s0 st'"
  using period_step_effect [of st st'] period_moves_history [of st st' s0]
  by (auto simp: period_keeps_def history_inv_def history_of_def)

text \<open>
  C17: whatever calls are made, every period's status is the end of its recorded history: the transition
  ledger of each period is a path of legal transitions from its initial status to its current one.
\<close>

theorem period_history_is_path:
  assumes "period_reach st0 st" and "ps_transitions st0 = []"
    and "p \<in> set (ps_periods st)" and "\<forall>q \<in> set (ps_periods st0). fp_status q = s0 (fp_id q)"
  shows "chain can_transition (s0 (fp_id p)) (history_of st (fp_id p)) (fp_status p)"
proof -
  have "history_inv s0 st" using assms(1)
  proof induction
    case reach_here
    then show ?case using assms(2,4) by (simp add: history_inv_def history_of_def)
  qed (rule period_step_history)
  then show ?thesis using assms(3) by (simp add: history_inv_def)
qed


lemma status_str_inj [simp]: "status_str a = status_str b \<longleftrightarrow> a = b"
  by (cases a; cases b) simp_all

section \<open>A small calendar\<close>

definition demo_period :: "string \<Rightarrow> int \<Rightarrow> period_status \<Rightarrow> fiscal_period" where
  "demo_period pid n s = \<lparr>fp_id = js pid, fp_tenant = js ''t1'', fp_entity = js ''E'', fp_calendar = js ''c1'', fp_fiscal_year = 2026,
     fp_period_number = n, fp_code = js pid, fp_start = n * 100, fp_end = n * 100 + 99, fp_status = s,
     fp_adjustments_only = False, fp_has_postings = False, fp_opened_by = None, fp_opened_at = None,
     fp_closed_by = None, fp_closed_at = None, fp_locked_by = None, fp_locked_at = None\<rparr>"

definition demo_calendar :: period_state where
  "demo_calendar = \<lparr>ps_periods = [demo_period ''p1'' 1 LOCKED, demo_period ''p2'' 2 HARD_CLOSED,
       demo_period ''p3'' 3 SOFT_CLOSED], ps_drafts = [], ps_transitions = [], ps_audit = [], ps_outbox = [],
     ps_config = \<lparr>cf_catalog = [], cf_settings = [], cf_audit = [], cf_outbox = [], cf_cache = []\<rparr>\<rparr>"

definition demo_hard_close :: period_transition_dto where
  "demo_hard_close = \<lparr>td_tenant = js ''t1'', td_period = js ''p3'', td_actor = js ''u1'', td_reason = Some (js ''x''),
     td_confirm = False\<rparr>"

definition demo_open :: open_period_dto where
  "demo_open = \<lparr>od_tenant = js ''t1'', od_period = js ''p2'', od_actor = js ''u1'', od_confirm = False\<rparr>"

lemma demo_reason: "given_trimmed (Some (js ''x''))" by code_simp

lemma demo_ids: "distinct (map fp_id (ps_periods demo_calendar))"
  by (simp add: demo_calendar_def demo_period_def)

lemma demo_get:
  "get_period demo_calendar (js ''t1'') (js ''p3'') = Inr (demo_period ''p3'' 3 SOFT_CLOSED)"
  "get_period demo_calendar (js ''t1'') (js ''p2'') = Inr (demo_period ''p2'' 2 HARD_CLOSED)"
  by (simp_all add: get_period_def demo_calendar_def demo_period_def)

definition demo_closed :: period_state where
  "demo_closed = snd (hard_close 900 demo_hard_close demo_calendar)"

lemma demo_reach: "period_reach demo_calendar demo_closed"
  unfolding demo_closed_def
  by (rule reach_step [OF reach_here], rule step_hard, rule prod.collapse [symmetric])

lemma demo_closed_periods:
  "ps_transitions demo_closed = [\<lparr>pt_tenant = js ''t1'', pt_entity = js ''E'', pt_period = js ''p3'',
     pt_from = SOFT_CLOSED, pt_to = HARD_CLOSED, pt_actor = js ''u1''\<rparr>]"
  "find_row (\<lambda>p. fp_id p = js ''p3'') (ps_periods demo_closed) = Some ((demo_period ''p3'' 3 HARD_CLOSED)
     \<lparr>fp_closed_by := Some (js ''u1''), fp_closed_at := Some 900\<rparr>)"
  "map fp_status (ps_periods demo_closed) = [LOCKED, HARD_CLOSED, HARD_CLOSED]"
  unfolding demo_closed_def hard_close_def
  by (simp_all add: demo_hard_close_def demo_get demo_reason)
    (simp_all add: demo_hard_close_def demo_period_def demo_calendar_def can_transition_def find_blocking_drafts_def blocking_rows_def
      apply_transition_def update_period_def enforce_period_transition_def Let_def)

theorem period_history_is_path_witness:
  "\<exists>p \<in> set (ps_periods demo_closed). fp_status p = HARD_CLOSED
     \<and> chain can_transition SOFT_CLOSED (history_of demo_closed (js ''p3'')) (fp_status p)"
proof -
  have p: "(demo_period ''p3'' 3 HARD_CLOSED)\<lparr>fp_closed_by := Some (js ''u1''), fp_closed_at := Some 900\<rparr>
      \<in> set (ps_periods demo_closed)" (is "?p \<in> _")
    using find_row_Some [OF demo_closed_periods(2)] ..
  have "chain can_transition (if fp_id ?p = js ''p1'' then LOCKED else if fp_id ?p = js ''p2'' then HARD_CLOSED else SOFT_CLOSED)
      (history_of demo_closed (fp_id ?p)) (fp_status ?p)"
    by (rule period_history_is_path [OF demo_reach _ p])
      (simp_all add: demo_calendar_def demo_period_def)
  then show ?thesis using p by (intro bexI [OF _ p]) (simp add: demo_period_def)
qed

text \<open>
  The eligibility endpoint and the journal evaluator agree: a period is reported postable for an
  entry of a kind exactly when the evaluator finds no period violation (BR013-2) for it.
\<close>

theorem eligibility_agrees_with_evaluator:
  assumes "pc_period ctx = Some rp" and "rp_status rp = status_str s"
  shows "fst (eligibility s (ph_is_adjusting header)) \<longleftrightarrow> period_violations header ctx = []"
proof -
  have "rp_status rp = js ''OPEN'' \<longleftrightarrow> s = OPEN" "rp_status rp = js ''SOFT_CLOSED'' \<longleftrightarrow> s = SOFT_CLOSED"
    using assms(2) status_str_inj [of s OPEN] status_str_inj [of s SOFT_CLOSED] by simp_all
  then show ?thesis using assms(1)
    by (auto simp: eligibility_def period_violations_def)
qed

theorem eligibility_agrees_with_evaluator_witness:
  "\<exists>ctx header. ph_is_adjusting header \<and> pc_period ctx \<noteq> None \<and> period_violations header ctx = []"
proof -
  let ?h = "\<lparr>ph_entity_id = js ''E'', ph_date = js ''2026-01-05'', ph_source_code = js ''GJ'', ph_memo = None,
      ph_idempotency_key = js ''k'', ph_is_adjusting = True\<rparr>"
  let ?c = "\<lparr>pc_caller_class = js ''USER'', pc_accounts = (\<lambda>_. None), pc_period = Some \<lparr>rp_id = js ''p'',
      rp_code = js ''p'', rp_status = js ''SOFT_CLOSED'', rp_adjustments_only = False\<rparr>, pc_source = None\<rparr>"
  have "fst (eligibility SOFT_CLOSED (ph_is_adjusting ?h)) \<longleftrightarrow> period_violations ?h ?c = []"
    by (rule eligibility_agrees_with_evaluator) (simp, simp)
  then show ?thesis
    by - (rule exI [where x = ?c], rule exI [where x = ?h], simp add: eligibility_def)
qed

section \<open>Terminal and exclusive states\<close>

lemma enforce_locked: "enforce_period_transition actor now old new = Inr (row, [t]) \<Longrightarrow> fp_status old \<noteq> LOCKED"
  by (auto simp: enforce_period_transition_def split: if_splits)

lemma update_rows_ids:
  "fp_id row = pid \<Longrightarrow> map fp_id (update_rows (\<lambda>r. fp_id r = pid) (\<lambda>_. row) ps) = map fp_id ps"
  by (induction ps) auto

lemma period_moves_ids: "period_moves st st' \<Longrightarrow> map fp_id (ps_periods st') = map fp_id (ps_periods st)"
  unfolding period_moves_def using pt.keeps_key update_rows_ids by metis

lemma period_moves_locked:
  assumes "period_moves st st'" and "distinct (map fp_id (ps_periods st))" and "p \<in> set (ps_periods st)" and "fp_status p = LOCKED"
  shows "p \<in> set (ps_periods st')"
proof -
  obtain a n old new row t where *: "old \<in> set (ps_periods st)"
    "enforce_period_transition a n old new = Inr (row, [t])"
    "ps_periods st' = update_rows (\<lambda>r. fp_id r = fp_id old) (\<lambda>_. row) (ps_periods st)"
    using assms(1) by (auto simp: period_moves_def)
  have "p \<noteq> old" using enforce_locked [OF *(2)] assms(4) by auto
  then have "fp_id p \<noteq> fp_id old" using assms(2,3) *(1) by (auto simp: distinct_map dest: inj_onD)
  then show ?thesis using *(3) assms(3) by (auto simp: set_update_rows intro!: image_eqI [where x = p])
qed

text \<open>
  A LOCKED period is permanent: once locked, no sequence of calls of the service changes its row.
\<close>

theorem locked_is_terminal:
  assumes "period_reach st0 st" and "distinct (map fp_id (ps_periods st0))"
    and "p \<in> set (ps_periods st0)" and "fp_status p = LOCKED"
  shows "p \<in> set (ps_periods st)"
proof -
  have "p \<in> set (ps_periods st) \<and> distinct (map fp_id (ps_periods st))" using assms(1)
  proof induction
    case (reach_step st st')
    then show ?case
      using period_step_effect [OF reach_step.hyps(2)] period_moves_locked [of st st' p] period_moves_ids [of st st'] assms(4)
      by (auto simp: period_keeps_def)
  qed (use assms in simp)
  then show ?thesis ..
qed

theorem locked_is_terminal_witness: "demo_period ''p1'' 1 LOCKED \<in> set (ps_periods demo_closed)"
  by (rule locked_is_terminal [OF demo_reach demo_ids]) (simp_all add: demo_calendar_def demo_period_def)

text \<open>
  No transition escapes the audit: in any run, the new rows of the transition ledger and the new audit
  events correspond one to one, in order, with the same period, actor, and statuses before and after,
  and no transition is made without an actor.
\<close>

theorem transitions_are_audited:
  assumes "period_reach st0 st"
  shows "\<exists>ts es. ps_transitions st = ps_transitions st0 @ ts \<and> ps_audit st = ps_audit st0 @ es
    \<and> list_all2 (\<lambda>t e. ae_doc_id e = pt_period t \<and> ae_actor e = pt_actor t \<and> pt_actor t \<noteq> []
        \<and> audit_move e = (Some (JStr (status_str (pt_from t))), Some (JStr (status_str (pt_to t))))) ts es"
  using assms
proof induction
  case (reach_step st st')
  then obtain ts es where IH: "ps_transitions st = ps_transitions st0 @ ts" "ps_audit st = ps_audit st0 @ es"
    "list_all2 (\<lambda>t e. ae_doc_id e = pt_period t \<and> ae_actor e = pt_actor t \<and> pt_actor t \<noteq> []
        \<and> audit_move e = (Some (JStr (status_str (pt_from t))), Some (JStr (status_str (pt_to t))))) ts es" by blast
  have actor: "enforce_period_transition a n old new = Inr (row, [t]) \<Longrightarrow> pt_actor t \<noteq> []" for a n old new row t
    by (auto simp: enforce_period_transition_def Let_def split: if_splits)
  from period_step_effect [OF reach_step.hyps(2)] show ?case
  proof
    assume "period_keeps st st'"
    then show ?thesis using IH by (auto simp: period_keeps_def)
  next
    assume "period_moves st st'"
    then obtain t e where "ps_transitions st' = ps_transitions st @ [t]" "ps_audit st' = ps_audit st @ [e]"
      "ae_doc_id e = pt_period t" "ae_actor e = pt_actor t" "pt_actor t \<noteq> []"
      "audit_move e = (Some (JStr (status_str (pt_from t))), Some (JStr (status_str (pt_to t))))"
      unfolding period_moves_def using actor by blast
    then show ?thesis
      by - (rule exI [where x = "ts @ [t]"], rule exI [where x = "es @ [e]"],
        use IH in \<open>simp add: list_all2_appendI\<close>)
  qed
qed simp

theorem transitions_are_audited_witness:
  "\<exists>e. ps_audit demo_closed = [e] \<and> audit_move e = (Some (JStr (js ''SOFT_CLOSED'')), Some (JStr (js ''HARD_CLOSED'')))"
  using transitions_are_audited [OF demo_reach]
  by (auto simp: demo_closed_periods list_all2_Cons1 demo_calendar_def)

section \<open>When a call moves a period\<close>

lemma find_blocking_drafts_Nil: "find_blocking_drafts st p = Inr [] \<longleftrightarrow> blocking_rows st p = []"
  by (auto simp: find_blocking_drafts_def map_res_Inr)

lemma blocking_rows_Nil:
  "blocking_rows st p = [] \<longleftrightarrow> (\<forall>d \<in> set (ps_drafts st). jd_tenant d = fp_tenant p \<and> jd_entity d = fp_entity p
      \<and> (jd_status d = js ''DRAFT'' \<or> jd_status d = js ''VALIDATED'')
      \<longrightarrow> (\<forall>t. jd_entry_date d = Some t \<longrightarrow> \<not> (fp_start p \<le> t \<and> t \<le> fp_end p)))"
  proof -
  have "sort_key k xs = [] \<longleftrightarrow> xs = []" for k :: "je_draft_row \<Rightarrow> int" and xs
    by (metis length_sort length_0_conv)
  then show ?thesis
    by (simp add: blocking_rows_def filter_empty_conv) (auto split: option.splits)
qed

lemma find_row_key:
  "distinct (map key rs) \<Longrightarrow> r \<in> set rs \<Longrightarrow> Q r \<Longrightarrow> find_row (\<lambda>x. key x = key r \<and> Q x) rs = Some r"
  by (induction rs) (auto simp: rev_image_eqI)

lemma apply_transition_moves:
  assumes "get_period st (td_tenant dto) (td_period dto) = Inr p" and "distinct (map fp_id (ps_periods st))"
    and "can_transition (fp_status p) b"
  shows "(\<exists>r. fst (apply_transition now dto (fp_status p) b action st) = Inr r \<and> tr_transitioned r) \<longleftrightarrow> td_actor dto \<noteq> []"
proof -
  note p = get_period_Inr [OF assms(1)]
  have f: "find_row (\<lambda>q. fp_id q = td_period dto \<and> fp_tenant q = td_tenant dto \<and> fp_status q = fp_status p) (ps_periods st) = Some p"
    using find_row_key [of fp_id "ps_periods st" p "\<lambda>q. fp_tenant q = td_tenant dto \<and> fp_status q = fp_status p"] assms(2) p by simp
  have "fp_status p \<noteq> b" using assms(3) by auto
  moreover have "fp_status p \<noteq> LOCKED" using assms(3) by (auto simp: can_transition_def)
  moreover have "(fp_status p, b) \<in> {(FUTURE, OPEN), (OPEN, SOFT_CLOSED), (SOFT_CLOSED, OPEN),
                 (SOFT_CLOSED, HARD_CLOSED), (HARD_CLOSED, OPEN), (HARD_CLOSED, LOCKED)}"
    using assms(3) by (cases "fp_status p") (auto simp: can_transition_def)
  ultimately show ?thesis
    by (auto simp: apply_transition_def f update_period_def enforce_period_transition_def Let_def)
qed

text \<open>
  HardClose seals a period exactly when it is SOFT_CLOSED, a reason and an actor are given, and no draft
  of the same tenant and entity in DRAFT or VALIDATED is dated inside it.
\<close>

theorem hard_close_iff:
  assumes "get_period st (td_tenant dto) (td_period dto) = Inr p" and "distinct (map fp_id (ps_periods st))"
    and "fp_status p \<noteq> HARD_CLOSED"
  shows "(\<exists>r. fst (hard_close now dto st) = Inr r \<and> tr_transitioned r) \<longleftrightarrow>
    fp_status p = SOFT_CLOSED \<and> given_trimmed (td_reason dto) \<and> td_actor dto \<noteq> []
    \<and> (\<forall>d \<in> set (ps_drafts st). jd_tenant d = fp_tenant p \<and> jd_entity d = fp_entity p
         \<and> (jd_status d = js ''DRAFT'' \<or> jd_status d = js ''VALIDATED'')
         \<longrightarrow> (\<forall>t. jd_entry_date d = Some t \<longrightarrow> \<not> (fp_start p \<le> t \<and> t \<le> fp_end p)))"
proof -
  have c: "can_transition (fp_status p) HARD_CLOSED \<longleftrightarrow> fp_status p = SOFT_CLOSED"
    by (cases "fp_status p") (simp_all add: can_transition_def)
  have m: "fp_status p = SOFT_CLOSED \<Longrightarrow>
      (\<exists>r. fst (apply_transition now dto SOFT_CLOSED HARD_CLOSED a st) = Inr r \<and> tr_transitioned r) \<longleftrightarrow> td_actor dto \<noteq> []" for a
    using apply_transition_moves [OF assms(1,2), of HARD_CLOSED now a] c by simp
  have h: "(\<exists>r. fst (hard_close now dto st) = Inr r \<and> tr_transitioned r) \<longleftrightarrow>
      fp_status p = SOFT_CLOSED \<and> given_trimmed (td_reason dto) \<and> td_actor dto \<noteq> [] \<and> blocking_rows st p = []"
  proof (cases "find_blocking_drafts st p")
    case (Inl e)
    then show ?thesis using assms(1,3) c find_blocking_drafts_Nil [of st p] by (auto simp: hard_close_def)
  next
    case (Inr bs)
    then show ?thesis using assms(1,3) c m find_blocking_drafts_Nil [of st p]
      by (cases bs) (auto simp: hard_close_def)
  qed
  then show ?thesis unfolding blocking_rows_Nil .
qed


theorem hard_close_iff_witness:
  "\<exists>r. fst (hard_close 900 demo_hard_close demo_calendar) = Inr r \<and> tr_transitioned r"
proof -
  have g: "get_period demo_calendar (td_tenant demo_hard_close) (td_period demo_hard_close)
      = Inr (demo_period ''p3'' 3 SOFT_CLOSED)" by (simp add: demo_hard_close_def demo_get)
  show ?thesis
    by (subst hard_close_iff [OF g demo_ids])
      (simp_all add: demo_hard_close_def demo_reason demo_period_def demo_calendar_def)
qed

definition open_count :: "period_state \<Rightarrow> fiscal_period \<Rightarrow> nat" where
  "open_count st p = length (filter (\<lambda>r. fp_tenant r = fp_tenant p \<and> fp_entity r = fp_entity p \<and> fp_status r = OPEN) (ps_periods st))"

definition skipped_before :: "period_state \<Rightarrow> fiscal_period \<Rightarrow> fiscal_period \<Rightarrow> bool" where
  "skipped_before st p q \<longleftrightarrow> q \<in> set (ps_periods st) \<and> fp_tenant q = fp_tenant p \<and> fp_entity q = fp_entity p
     \<and> \<not> fp_adjustments_only q \<and> fp_status q = FUTURE \<and> period_order q < period_order p"

lemma detect_skipped_Nil:
  "detect_skipped_periods p (filter (\<lambda>r. fp_tenant r = fp_tenant p \<and> fp_entity r = fp_entity p) (ps_periods st)) = []
     \<longleftrightarrow> (\<forall>q. \<not> skipped_before st p q)"
proof -
  have "sort_key period_order xs = [] \<longleftrightarrow> xs = []" for xs by (metis length_sort length_0_conv)
  then show ?thesis by (auto simp: detect_skipped_periods_def filter_empty_conv skipped_before_def)
qed

text \<open>
  Open moves a closed or future period to OPEN exactly when it is not LOCKED, an actor is given, the
  number of OPEN periods of its entity is below the configured limit, and either no earlier regular period is
  still FUTURE or the call confirms the skip.
\<close>

theorem open_period_iff:
  assumes "get_period st (od_tenant d) (od_period d) = Inr p" and "fp_status p \<noteq> OPEN"
  shows "(\<exists>r. fst (open_period ev now d st) = Inr r \<and> or_opened r) \<longleftrightarrow>
    fp_status p \<in> {FUTURE, SOFT_CLOSED, HARD_CLOSED} \<and> od_actor d \<noteq> []
    \<and> \<not> num_le (fst (resolve_max_open now (od_tenant d) (fp_entity p) (ps_config st))) (num_of_int (int (open_count st p)))
    \<and> (od_confirm d \<or> (\<forall>q. \<not> skipped_before st p q))"
proof -
  note p = get_period_Inr [OF assms(1)]
  obtain m cfg where m: "resolve_max_open now (od_tenant d) (fp_entity p) (ps_config st) = (m, cfg)"
    by (cases "resolve_max_open now (od_tenant d) (fp_entity p) (ps_config st)")
  have c: "can_transition (fp_status p) OPEN \<longleftrightarrow> fp_status p \<in> {FUTURE, SOFT_CLOSED, HARD_CLOSED}"
    using assms(2) by (cases "fp_status p") (simp_all add: can_transition_def)
  have legal: "can_transition (fp_status p) OPEN \<Longrightarrow> (fp_status p, OPEN) \<in> {(FUTURE, OPEN), (OPEN, SOFT_CLOSED),
      (SOFT_CLOSED, OPEN), (SOFT_CLOSED, HARD_CLOSED), (HARD_CLOSED, OPEN), (HARD_CLOSED, LOCKED)}"
    using c assms(2) by auto
  let ?new = "p\<lparr>fp_status := OPEN, fp_opened_by := Some (od_actor d), fp_opened_at := Some now\<rparr>"
  have u: "can_transition (fp_status p) OPEN \<Longrightarrow>
      (\<exists>st2. update_period (od_actor d) now p ?new (st\<lparr>ps_config := cfg\<rparr>) = Inr st2) \<longleftrightarrow> od_actor d \<noteq> []"
    using legal assms(2) by (auto simp: update_period_def enforce_period_transition_def Let_def can_transition_def)
  have n: "filter (\<lambda>r. fp_status r = OPEN) (filter (\<lambda>r. fp_tenant r = od_tenant d \<and> fp_entity r = fp_entity p) (ps_periods st))
      = filter (\<lambda>r. fp_tenant r = fp_tenant p \<and> fp_entity r = fp_entity p \<and> fp_status r = OPEN) (ps_periods st)"
    using p by (simp add: conj_ac)
  note skip = detect_skipped_Nil [of p st]
  show ?thesis
  proof (cases "can_transition (fp_status p) OPEN")
    case True
    show ?thesis
      using assms m True c u skip p n
      by (cases "update_period (od_actor d) now p ?new (st\<lparr>ps_config := cfg\<rparr>)")
        (auto simp: open_period_def Let_def open_count_def)
  qed (use assms c in \<open>auto simp: open_period_def\<close>)
qed

text \<open>
  The general rule at work: \<open>open\<close>, documented as the FUTURE to OPEN step, reopens a HARD_CLOSED period with
  neither the reason nor the confirmation \<open>reopenHardClosed\<close> insists on.
\<close>

theorem open_reopens_hard_closed:
  "(\<exists>r. fst (open_period (js ''e1'') 900 demo_open demo_calendar) = Inr r \<and> or_opened r)
   \<and> (\<exists>p. get_period demo_calendar (od_tenant demo_open) (od_period demo_open) = Inr p \<and> fp_status p = HARD_CLOSED)
   \<and> \<not> od_confirm demo_open"
proof -
  have g: "get_period demo_calendar (od_tenant demo_open) (od_period demo_open) = Inr (demo_period ''p2'' 2 HARD_CLOSED)"
    by (simp add: demo_open_def demo_get)
  have r: "fst (resolve_max_open 900 (od_tenant demo_open) e (ps_config demo_calendar)) = Fin 2" for e
    by (simp add: resolve_max_open_def demo_calendar_def config_resolve_def resolve_as_of_def require_catalog_def
        default_max_open_def)
  have n2: "fp_status (demo_period ''p2'' 2 HARD_CLOSED) \<noteq> OPEN" by (simp add: demo_period_def)
  have n: "\<not> num_le (Fin 2) (num_of_int 0)" by code_simp
  have "\<exists>r. fst (open_period (js ''e1'') 900 demo_open demo_calendar) = Inr r \<and> or_opened r"
    unfolding open_period_iff [OF g n2] r
      by (use n in \<open>auto simp: demo_open_def demo_period_def demo_calendar_def open_count_def skipped_before_def\<close>)
  then show ?thesis using g by (simp add: demo_open_def demo_period_def)
qed

end
