(* ===== verification/FiscalCalendar.thy ===== *)
theory FiscalCalendar
  imports Digits Prelude
begin

text \<open>
  \<open>domain/fiscal-calendar.ts\<close>: generation of the periods of a fiscal year and the resolution of a
  calendar date to one of them. Years, months and days are integers; dates are ISO strings,
  compared as strings, as in the source.
\<close>

datatype fiscal_structure = TWELVE | TWELVE_PLUS_13TH

datatype calendar_status = DEFINED | CALENDAR_LOCKED

record generated_period =
  gp_period_number :: int
  gp_code :: jstr
  gp_start_date :: jstr
  gp_end_date :: jstr
  gp_adjustments_only :: bool

section \<open>Dates\<close>

definition pad2 :: "int \<Rightarrow> jstr" where
  "pad2 n = pad_start 2 (cu CHR ''0'') (int_str n)"

definition month_code :: "int \<Rightarrow> int \<Rightarrow> jstr" where
  "month_code year month = int_str year @ js ''-'' @ pad2 month"

definition iso_date :: "int \<Rightarrow> int \<Rightarrow> int \<Rightarrow> jstr" where
  "iso_date year month day = int_str year @ js ''-'' @ pad2 month @ js ''-'' @ pad2 day"

text \<open>\<open>Date.UTC\<close> reads the years 0 to 99 as 1900 to 1999.\<close>

definition utc_year :: "int \<Rightarrow> int" where
  "utc_year y = (if 0 \<le> y \<and> y \<le> 99 then 1900 + y else y)"

definition leap_year :: "int \<Rightarrow> bool" where
  "leap_year y = (4 dvd y \<and> (\<not> 100 dvd y \<or> 400 dvd y))"

text \<open>Day 0 of the next month is the last day of this one.\<close>

definition last_day_of_month :: "int \<Rightarrow> int \<Rightarrow> int" where
  "last_day_of_month year month =
     (if month = 2 then (if leap_year (utc_year year) then 29 else 28)
      else if month = 4 \<or> month = 6 \<or> month = 9 \<or> month = 11 then 30 else 31)"

section \<open>Periods\<close>

definition regular_period :: "int \<Rightarrow> int \<Rightarrow> nat \<Rightarrow> generated_period" where
  "regular_period fiscal_year fy_start_month k =
     (let month_index = fy_start_month - 1 + int k;
          year = fiscal_year + month_index div 12; month = month_index mod 12 + 1
      in \<lparr>gp_period_number = int k + 1, gp_code = month_code year month,
          gp_start_date = iso_date year month 1,
          gp_end_date = iso_date year month (last_day_of_month year month),
          gp_adjustments_only = False\<rparr>)"

definition generate_periods :: "int \<Rightarrow> int \<Rightarrow> fiscal_structure \<Rightarrow> generated_period list" where
  "generate_periods fiscal_year fy_start_month structure =
     map (regular_period fiscal_year fy_start_month) [0..<12]
     @ (if structure = TWELVE_PLUS_13TH
        then let month_index = fy_start_month - 1 + 11;
                 year = fiscal_year + month_index div 12; month = month_index mod 12 + 1;
                 last_day = iso_date year month (last_day_of_month year month)
             in [\<lparr>gp_period_number = 13, gp_code = int_str fiscal_year @ js ''-13'',
                  gp_start_date = last_day, gp_end_date = last_day, gp_adjustments_only = True\<rparr>]
        else [])"

definition period_count_for :: "fiscal_structure \<Rightarrow> nat" where
  "period_count_for structure = (if structure = TWELVE_PLUS_13TH then 13 else 12)"

definition resolve_date :: "jstr \<Rightarrow> generated_period list \<Rightarrow> generated_period option" where
  "resolve_date date periods =
     (case filter (\<lambda>p. \<not> gp_adjustments_only p \<and> gp_start_date p \<le> date \<and> date \<le> gp_end_date p) periods of
        [p] \<Rightarrow> Some p | _ \<Rightarrow> None)"

definition validate_fy_start_month :: "jsnum \<Rightarrow> jstr option" where
  "validate_fy_start_month m =
     (if \<not> is_integer_num m \<or> num_lt m (Fin 1) \<or> num_lt (Fin 12) m
      then Some (js ''fyStartMonth must be an integer 1-12, got '' @ num_str m) else None)"

section \<open>ISO dates sort as dates\<close>

definition valid_date :: "int \<Rightarrow> int \<Rightarrow> int \<Rightarrow> bool" where
  "valid_date y m d \<longleftrightarrow> 1000 \<le> y \<and> y \<le> 9999 \<and> 1 \<le> m \<and> m \<le> 12 \<and> 1 \<le> d \<and> d \<le> last_day_of_month y m"

lemma last_day_bounds: "28 \<le> last_day_of_month y m" "last_day_of_month y m \<le> 31"
  by (simp_all add: last_day_of_month_def)

lemma valid_date_day: "valid_date y m d \<Longrightarrow> d \<le> 31"
  using last_day_bounds(2) [of y m] by (simp add: valid_date_def)

lemma int_str_nat: "0 \<le> i \<Longrightarrow> int_str i = nat_str (nat i)"
  by (simp add: int_str_def)

lemma numeral_less:
  assumes "0 \<le> i" "0 \<le> j" "length (pad_start w 48 (nat_str (nat i))) = length (pad_start w 48 (nat_str (nat j)))"
  shows "pad_start w 48 (nat_str (nat i)) < pad_start w 48 (nat_str (nat j)) \<longleftrightarrow> i < j"
    and "pad_start w 48 (nat_str (nat i)) = pad_start w 48 (nat_str (nat j)) \<longleftrightarrow> i = j"
  using assms(1,2) digits_less_iff [OF assms(3)] digits_eq_iff [OF assms(3)]
  by (auto simp: nat_str_digits pad_digits eq_nat_nat_iff)

lemma pad2_order:
  assumes "0 \<le> i" "i < 100" "0 \<le> j" "j < 100"
  shows "pad2 i < pad2 j \<longleftrightarrow> i < j" "pad2 i = pad2 j \<longleftrightarrow> i = j" "length (pad2 i) = 2"
proof -
  have l: "length (pad_start 2 48 (nat_str (nat k))) = 2" if "0 \<le> k" "k < 100" for k
    using that length_pad_nat [of 2 "nat k"] by simp
  show "pad2 i < pad2 j \<longleftrightarrow> i < j" "pad2 i = pad2 j \<longleftrightarrow> i = j" "length (pad2 i) = 2"
    using assms l by (simp_all add: pad2_def int_str_nat numeral_less)
qed

lemma year_order:
  assumes "1000 \<le> i" "i \<le> 9999" "1000 \<le> j" "j \<le> 9999"
  shows "int_str i < int_str j \<longleftrightarrow> i < j" "int_str i = int_str j \<longleftrightarrow> i = j" "length (int_str i) = 4"
proof -
  have l: "length (nat_str (nat k)) = 4" if "1000 \<le> k" "k \<le> 9999" for k
    using that length_nat_str [of 3 "nat k"] by simp
  show "int_str i < int_str j \<longleftrightarrow> i < j" "int_str i = int_str j \<longleftrightarrow> i = j" "length (int_str i) = 4"
    using assms l numeral_less [of i j 0] by (simp_all add: int_str_nat pad_start_def)
qed

lemma iso_date_less:
  assumes "valid_date y m d" "valid_date y' m' d'"
  shows "iso_date y m d < iso_date y' m' d' \<longleftrightarrow> y < y' \<or> y = y' \<and> (m < m' \<or> m = m' \<and> d < d')"
proof -
  have b: "1000 \<le> y" "y \<le> 9999" "1000 \<le> y'" "y' \<le> 9999" "0 \<le> m" "m < 100" "0 \<le> m'" "m' < 100"
    "0 \<le> d" "d < 100" "0 \<le> d'" "d' < 100"
    using assms valid_date_day [OF assms(1)] valid_date_day [OF assms(2)] by (auto simp: valid_date_def)
  note yo = year_order [OF b(1-4)] and yo' = year_order(3) [OF b(3,4,1,2)]
  note mo = pad2_order [OF b(5-8)] and mo' = pad2_order(3) [OF b(7,8,5,6)] and do = pad2_order(1) [OF b(9-12)]
  have dash: "js ''-'' @ u < js ''-'' @ v \<longleftrightarrow> u < v" for u v by (simp add: js_def)
  show ?thesis
    unfolding iso_date_def by (simp add: append_less_iff yo yo' mo mo' do dash)
qed

lemma iso_date_le:
  assumes "valid_date y m d" "valid_date y' m' d'"
  shows "iso_date y m d \<le> iso_date y' m' d' \<longleftrightarrow> y < y' \<or> y = y' \<and> (m < m' \<or> m = m' \<and> d \<le> d')"
  using iso_date_less [OF assms(2,1)] by (auto simp: not_less [symmetric])

section \<open>The calendar months of a fiscal year\<close>

text \<open>Months counted from the start of the era: the fiscal year covers twelve consecutive ones.\<close>

definition month_no :: "int \<Rightarrow> int \<Rightarrow> int" where
  "month_no y m = 12 * y + m - 1"

lemma regular_period_month:
  "regular_period fy s k =
     (let n = month_no fy s + int k; y = n div 12; m = n mod 12 + 1
      in \<lparr>gp_period_number = int k + 1, gp_code = month_code y m, gp_start_date = iso_date y m 1,
          gp_end_date = iso_date y m (last_day_of_month y m), gp_adjustments_only = False\<rparr>)"
proof -
  have n: "month_no fy s + int k = (s - 1 + int k) + fy * 12" by (simp add: month_no_def)
  have "(month_no fy s + int k) div 12 = fy + (s - 1 + int k) div 12"
    unfolding n by (subst div_mult_self1) simp_all
  moreover have "(month_no fy s + int k) mod 12 = (s - 1 + int k) mod 12"
    unfolding n by simp
  ultimately show ?thesis by (simp add: regular_period_def Let_def)
qed

lemma month_no_inverse: "1 \<le> m \<Longrightarrow> m \<le> 12 \<Longrightarrow> month_no y m div 12 = y \<and> month_no y m mod 12 + 1 = m"
proof -
  assume "1 \<le> m" "m \<le> 12"
  then have d: "(m - 1) div 12 = 0" "(m - 1) mod 12 = m - 1" by (simp_all add: div_pos_pos_trivial mod_pos_pos_trivial)
  have "month_no y m = (m - 1) + y * 12" by (simp add: month_no_def)
  then show ?thesis using d by (simp only: div_mult_self1 mod_mult_self1) simp
qed

lemma month_order:
  "1 \<le> m \<Longrightarrow> m \<le> 12 \<Longrightarrow> 1 \<le> m' \<Longrightarrow> m' \<le> 12 \<Longrightarrow>
     month_no y m < month_no y' m' \<longleftrightarrow> y < y' \<or> y = y' \<and> m < m'"
  by (auto simp: month_no_def)

lemma in_period_iff:
  assumes v: "valid_date y m d" and w: "1000 \<le> n div 12" "n div 12 \<le> 9999"
  shows "iso_date (n div 12) (n mod 12 + 1) 1 \<le> iso_date y m d
       \<and> iso_date y m d \<le> iso_date (n div 12) (n mod 12 + 1) (last_day_of_month (n div 12) (n mod 12 + 1))
     \<longleftrightarrow> month_no y m = n"
proof -
  let ?y = "n div 12" and ?m = "n mod 12 + 1"
  have m: "1 \<le> ?m" "?m \<le> 12" using pos_mod_bound [of 12 n] pos_mod_sign [of 12 n] by linarith+
  have v1: "valid_date ?y ?m 1" "valid_date ?y ?m (last_day_of_month ?y ?m)"
    using w m last_day_bounds [of ?y ?m] by (auto simp: valid_date_def)
  have vm: "1 \<le> m" "m \<le> 12" "1 \<le> d" "d \<le> last_day_of_month y m" using v by (auto simp: valid_date_def)
  have nn: "month_no ?y ?m = n" using div_mult_mod_eq [of n 12] by (simp add: month_no_def)
  have "month_no y m = n \<longleftrightarrow> y = ?y \<and> m = ?m"
    using month_no_inverse [OF vm(1,2), of y] nn by auto
  then show ?thesis
    unfolding iso_date_le [OF v1(1) v] iso_date_le [OF v v1(2)] using vm by auto
qed

lemma filter_unique:
  assumes "k < n" and "\<And>i. i < n \<Longrightarrow> P i \<longleftrightarrow> i = k"
  shows "filter P [0..<n] = [k]"
proof -
  have "filter P [0..<n] = filter (\<lambda>i. i = k) [0..<n]" by (rule filter_cong) (use assms(2) in auto)
  also have "\<dots> = [k]" using assms(1) by (induction n) (auto simp: less_Suc_eq)
  finally show ?thesis .
qed

text \<open>
  A date belongs to exactly one period. For four-digit years, every calendar date inside the fiscal
  year resolves to the one regular period of its month, with that month's code; every date outside
  resolves to nothing; and the thirteenth, adjustments-only period never takes part.
\<close>

theorem resolve_date_generated:
  assumes "1 \<le> s" and "s \<le> 12" and "1000 \<le> fy" and "fy + 1 \<le> 9999" and "valid_date y m d"
  shows "resolve_date (iso_date y m d) (generate_periods fy s structure) =
     (if month_no fy s \<le> month_no y m \<and> month_no y m < month_no fy s + 12
      then Some (regular_period fy s (nat (month_no y m - month_no fy s))) else None)"
proof -
  let ?P = "\<lambda>p. \<not> gp_adjustments_only p \<and> gp_start_date p \<le> iso_date y m d \<and> iso_date y m d \<le> gp_end_date p"
  have in_k: "?P (regular_period fy s k) \<longleftrightarrow> month_no y m = month_no fy s + int k" if k: "k < 12" for k
  proof -
    define n where "n = month_no fy s + int k"
    have "fy * 12 \<le> n" "n < (fy + 2) * 12" using k assms(1,2) by (auto simp: month_no_def n_def)
    then have "fy \<le> n div 12 \<and> n div 12 < fy + 2" by presburger
    then show ?thesis unfolding n_def
      using in_period_iff [OF assms(5), of "month_no fy s + int k"] assms(3,4)
      by (simp add: regular_period_month Let_def)
  qed
  have split: "filter ?P (generate_periods fy s structure) =
      map (regular_period fy s) (filter (\<lambda>k. ?P (regular_period fy s k)) [0..<12])"
    by (simp add: generate_periods_def filter_map comp_def Let_def)
  have sel: "filter (\<lambda>k. ?P (regular_period fy s k)) [0..<12] = filter (\<lambda>k. month_no y m = month_no fy s + int k) [0..<12]"
    by (rule filter_cong [OF refl], rule in_k) simp
  show ?thesis
  proof (cases "month_no fy s \<le> month_no y m \<and> month_no y m < month_no fy s + 12")
    case True
    then have "filter (\<lambda>k. month_no y m = month_no fy s + int k) [0..<12] = [nat (month_no y m - month_no fy s)]"
      by (intro filter_unique) auto
    with True show ?thesis by (simp only: resolve_date_def split sel) simp
  next
    case False
    then have "filter (\<lambda>k. month_no y m = month_no fy s + int k) [0..<12] = []"
      by (auto simp: filter_empty_conv)
    with False show ?thesis by (simp only: resolve_date_def split sel) simp
  qed
qed

theorem resolve_date_generated_witness:
  "resolve_date (iso_date 2027 2 28) (generate_periods 2026 7 TWELVE_PLUS_13TH) = Some (regular_period 2026 7 7)"
  using resolve_date_generated [of 7 2026 2027 2 28 TWELVE_PLUS_13TH]
  by (simp add: valid_date_def last_day_of_month_def utc_year_def leap_year_def month_no_def)

end
