(* ===== verification/CalendarDays.thy ===== *)
theory CalendarDays
  imports Outbox FiscalCalendar
begin

text \<open>
  Day numbers and ISO dates: the inverse of the date computation of \<open>toISOString\<close>, so that a calendar day
  written to a date column and read back prints as the same ISO date.
\<close>

section \<open>Calendar days\<close>

text \<open>The day number (days since 1970-01-01) of a proleptic Gregorian date; March-based years of an era of 400.\<close>

definition days_from_civil :: "int \<Rightarrow> int \<Rightarrow> int \<Rightarrow> int" where
  "days_from_civil y m d =
     (let y' = (if m \<le> 2 then y - 1 else y); era = y' div 400; yoe = y' mod 400; mp = (m + 9) mod 12;
          doy = (153 * mp + 2) div 5 + d - 1; doe = yoe * 365 + yoe div 4 - yoe div 100 + doy
      in era * 146097 + doe - 719468)"

lemma div_bounded: "0 \<le> r \<Longrightarrow> r < n \<Longrightarrow> (n * k + r) div n = (k::int)"
  by (simp add: div_pos_pos_trivial)

text \<open>A year of the era is \<open>100 c + 4 q + r\<close>; a day of the year below 365, or the 366th of a leap year.\<close>

lemma year_of_era:
  fixes c q r doy :: int
  assumes c: "0 \<le> c" "c < 4" and q: "0 \<le> q" "q < 25" and r: "0 \<le> r" "r < 4" and doy: "0 \<le> doy"
    and last: "doy \<le> 364 \<or> doy = 365 \<and> r = 3 \<and> (q = 24 \<longrightarrow> c = 3)"
    and D: "D = 36524 * c + 1461 * q + 365 * r + doy"
  shows "0 \<le> D \<and> D < 146097 \<and> (D - D div 1460 + D div 36524 - D div 146096) div 365 = 100 * c + 4 * q + r"
proof (cases "D = 146096")
  case True
  then have "100 * c + 4 * q + r = 399" using assms by auto
  with True show ?thesis by simp
next
  case False
  have R: "0 \<le> 1461 * q + 365 * r + doy" "1461 * q + 365 * r + doy < 36524"
    using assms False by auto
  have D1: "0 \<le> D" "D < 146096" using R c unfolding D by auto
  have d3: "D div 36524 = c" using div_bounded [OF R, of c] by (simp add: D add.assoc)
  define S k where "S = 24 * c + q + 365 * r + doy" and "k = S div 1460"
  have S: "0 \<le> S" "S < 2920" using assms by (auto simp: S_def)
  have "D div 1460 = (1460 * (25 * c + q) + S) div 1460" by (simp add: D S_def algebra_simps)
  then have d1: "D div 1460 = 25 * c + q + k" by (simp add: k_def)
  have k: "k = 0 \<and> S < 1460 \<or> k = 1 \<and> 1460 \<le> S"
    using S div_bounded [of S 1460 0] div_bounded [of "S - 1460" 1460 1] unfolding k_def by (cases "S < 1460") auto
  have "0 \<le> doy - k \<and> doy - k < 365"
    using k
  proof
    assume k0: "k = 0 \<and> S < 1460"
    then have "doy \<noteq> 365" using last c q unfolding S_def by linarith
    then show ?thesis using k0 doy last by linarith
  next
    assume k1: "k = 1 \<and> 1460 \<le> S"
    then have "doy \<noteq> 0" using c q r unfolding S_def by linarith
    then show ?thesis using k1 doy last by linarith
  qed
  then have "(365 * (100 * c + 4 * q + r) + (doy - k)) div 365 = 100 * c + 4 * q + r"
    by (intro div_bounded) auto
  moreover have "D - D div 1460 + D div 36524 - D div 146096 = 365 * (100 * c + 4 * q + r) + (doy - k)"
    using d1 d3 D1 by (simp add: D div_pos_pos_trivial)
  ultimately show ?thesis using D1 by simp
qed

lemma month_cases: "(1::int) \<le> m \<Longrightarrow> m \<le> 12 \<Longrightarrow> m = 1 \<or> m = 2 \<or> m = 3 \<or> m = 4 \<or> m = 5 \<or> m = 6
    \<or> m = 7 \<or> m = 8 \<or> m = 9 \<or> m = 10 \<or> m = 11 \<or> m = 12" by arith

lemma utc_year_id: "1000 \<le> y \<Longrightarrow> utc_year y = y" by (simp add: utc_year_def)

lemma leap_split: "leap_year (y' + 1) \<Longrightarrow> yoe = y' mod 400 \<Longrightarrow>
    yoe mod 4 = 3 \<and> (yoe mod 100 = 99 \<longrightarrow> yoe = 399)"
proof -
  assume l: "leap_year (y' + 1)" and yoe: "yoe = y' mod 400"
  have m: "yoe mod 4 = y' mod 4" "yoe mod 100 = y' mod 100" unfolding yoe by (simp_all add: mod_mod_cancel)
  have "4 dvd y' + 1" using l by (simp add: leap_year_def)
  then have "y' mod 4 = 3" by presburger
  moreover have "yoe = 399" if "y' mod 100 = 99"
  proof -
    have "100 dvd y' + 1" using that by presburger
    then have "400 dvd y' + 1" using l by (simp add: leap_year_def)
    then obtain t where "y' + 1 = 400 * t" by blast
    then have "y' = 399 + 400 * (t - 1)" by simp
    then show ?thesis unfolding yoe by (simp only: mod_mult_self2) simp
  qed
  ultimately show ?thesis using m by simp
qed

lemma day_of_year:
  assumes "1 \<le> m" "m \<le> 12" "1 \<le> d" "d \<le> last_day_of_month y m" and "1000 \<le> y"
    and "mp = (m + 9) mod 12" "doy = (153 * mp + 2) div 5 + d - 1"
  shows "(5 * doy + 2) div 153 = mp \<and> 0 \<le> doy \<and> (doy \<le> 364 \<or> doy = 365 \<and> m = 2 \<and> leap_year y)
    \<and> (if mp < 10 then mp + 3 else mp - 9) = m"
proof -
  have l: "last_day_of_month y m = (if m = 2 then if leap_year y then 29 else 28
      else if m = 4 \<or> m = 6 \<or> m = 9 \<or> m = 11 then 30 else 31)"
    using assms(5) by (simp add: last_day_of_month_def utc_year_id)
  have e: "(5 * doy + 2) div 153 = mp" if "0 \<le> 5 * doy + 2 - 153 * mp" "5 * doy + 2 - 153 * mp < 153"
    using div_bounded [OF that, of mp] by simp
  from month_cases [OF assms(1,2)] show ?thesis
    using assms(3,4) e unfolding l assms(6,7)
    by (elim disjE) ((simp_all split: if_splits), linarith?)
qed


lemma civil_days_inverse:
  assumes "valid_date y m d"
  shows "civil_from_days (days_from_civil y m d) = (y, m, d)"
proof -
  have v: "1 \<le> m" "m \<le> 12" "1 \<le> d" "d \<le> last_day_of_month y m" "1000 \<le> y" using assms by (auto simp: valid_date_def)
  define y' mp where "y' = (if m \<le> 2 then y - 1 else y)" and "mp = (m + 9) mod 12"
  define doy where "doy = (153 * mp + 2) div 5 + d - 1"
  define era yoe where "era = y' div 400" and "yoe = y' mod 400"
  define doe where "doe = yoe * 365 + yoe div 4 - yoe div 100 + doy"
  note mo = day_of_year [OF v mp_def doy_def]
  define c q r where "c = yoe div 100" and "q = yoe mod 100 div 4" and "r = yoe mod 4"
  have yoe: "0 \<le> yoe" "yoe < 400" by (simp_all add: yoe_def)
  have b: "0 \<le> c" "c < 4" "0 \<le> q" "q < 25" "0 \<le> r" "r < 4" using yoe by (auto simp: c_def q_def r_def)
  have m100: "yoe mod 100 = 4 * q + r"
    unfolding q_def r_def using mod_mod_cancel [of 4 100 yoe] mult_div_mod_eq [of 4 "yoe mod 100"] by simp
  have split: "yoe = 100 * c + 4 * q + r" using m100 mult_div_mod_eq [of 100 yoe] by (simp add: c_def)
  have y4: "yoe div 4 = 25 * c + q"
    using div_bounded [of r 4 "25 * c + q"] b by (simp add: split algebra_simps)
  have leap: "doy \<le> 364 \<or> doy = 365 \<and> r = 3 \<and> (q = 24 \<longrightarrow> c = 3)"
  proof -
    have "r = 3 \<and> (q = 24 \<longrightarrow> c = 3)" if "m = 2" "leap_year y"
    proof -
      have "leap_year (y' + 1)" using that by (simp add: y'_def)
      from leap_split [OF this yoe_def] have "r = 3" "yoe mod 100 = 99 \<longrightarrow> yoe = 399" by (auto simp: r_def)
      then show ?thesis using m100 split b by auto
    qed
    then show ?thesis using mo by blast
  qed
  have doe: "doe = 36524 * c + 1461 * q + 365 * r + doy" by (simp add: doe_def y4 c_def [symmetric]) (simp add: split algebra_simps)
  note ye = year_of_era [OF b(1-4) b(5,6) _ leap doe]
  have ye1: "0 \<le> doe" "doe < 146097" "(doe - doe div 1460 + doe div 36524 - doe div 146096) div 365 = yoe"
    using ye mo split by auto
  have "days_from_civil y m d + 719468 = 146097 * era + doe"
    by (simp add: days_from_civil_def Let_def y'_def mp_def doy_def era_def yoe_def doe_def)
  then have z: "(days_from_civil y m d + 719468) div 146097 = era" "(days_from_civil y m d + 719468) mod 146097 = doe"
    using ye1 div_bounded [of doe 146097 era] by (simp_all add: mod_pos_pos_trivial)
  have d1: "doe - (365 * yoe + yoe div 4 - yoe div 100) = doy" by (simp add: doe_def)
  have d2: "doy - (153 * mp + 2) div 5 + 1 = d" by (simp add: doy_def)
  have y2: "yoe + era * 400 + (if m \<le> 2 then 1 else 0) = y"
    using div_mult_mod_eq [of y' 400] by (auto simp: era_def yoe_def y'_def)
  have mq: "(5 * doy + 2) div 153 = mp" and mm: "(if mp < 10 then mp + 3 else mp - 9) = m" using mo by auto
  show ?thesis
    unfolding civil_from_days_def Let_def z ye1(3) d1 mq mm y2 d2 by simp
qed

text \<open>A stored day prints as the ISO date it was read from.\<close>

lemma length_padded: "0 \<le> i \<Longrightarrow> i < 10 ^ k \<Longrightarrow> 0 < k \<Longrightarrow> length (padded k i) = k"
  using length_pad_nat [of k "nat i"] by (simp add: padded_def int_str_nat nat_less_iff)

lemma iso_day_midnight:
  assumes "valid_date y m d"
  shows "iso_day (86400000 * days_from_civil y m d) = iso_date y m d"
proof -
  have v: "1000 \<le> y" "y \<le> 9999" "1 \<le> m" "m \<le> 12" "1 \<le> d" "d \<le> 31"
    using assms valid_date_day [OF assms] by (auto simp: valid_date_def)
  have y: "padded 4 y = int_str y"
    using year_order(3) [of y y] v by (simp add: padded_def pad_start_def)
  have l: "length (int_str y) = 4" "length (padded 2 m) = 2" "length (padded 2 d) = 2"
    using year_order(3) [of y y] v by (simp_all add: length_padded)
  have p: "pad2 = padded 2" by (simp add: pad2_def padded_def fun_eq_iff)
  show ?thesis
    unfolding iso_day_def iso_time_def Let_def
    using civil_days_inverse [OF assms] v l
    by (simp add: iso_year_def y iso_date_def p js_def)
qed

end
