(* ===== verification/FiscalService.thy ===== *)
theory FiscalService
  imports CalendarDays PeriodControl
begin

text \<open>
  \<open>application/fiscal-service.ts\<close>: the definition of an entity's fiscal calendar, the generation of a
  fiscal year's periods into the period table, and the resolution of a date to a stored period. Period
  rows are those of \<open>PeriodControl\<close>.
\<close>

section \<open>State\<close>

record fiscal_calendar =
  fc_id :: jstr
  fc_tenant :: jstr
  fc_entity :: jstr
  fc_start_month :: int
  fc_structure :: fiscal_structure
  fc_status :: calendar_status
  fc_actor :: jstr

record fiscal_state =
  fs_calendars :: "fiscal_calendar list"
  fs_periods :: "fiscal_period list"
  fs_audit :: "audit_event list"
  fs_outbox :: "outbox_event list"

record define_calendar_dto =
  dc_tenant :: jstr
  dc_entity :: jstr
  dc_start_month :: jsnum
  dc_structure :: jstr
  dc_actor :: jstr

record generate_year_dto =
  gy_tenant :: jstr
  gy_entity :: jstr
  gy_fiscal_year :: int
  gy_actor :: jstr

text \<open>\<open>UniqueViolation\<close> and \<open>InvalidDate\<close> are the errors of the database client on a rejected row.\<close>

datatype fiscal_error =
    FiscalValidation jstr jstr
  | CalendarLocked jstr
  | FiscalYearOverlap jstr int
  | CalendarNotFound jstr
  | DateUnresolved jstr jstr
  | UniqueViolation
  | InvalidDate

section \<open>Calendar definition\<close>

definition parse_structure :: "jstr \<Rightarrow> fiscal_structure option" where
  "parse_structure s = (if s = js ''TWELVE'' then Some TWELVE
                        else if s = js ''TWELVE_PLUS_13TH'' then Some TWELVE_PLUS_13TH else None)"

fun structure_str :: "fiscal_structure \<Rightarrow> jstr" where
  "structure_str TWELVE = js ''TWELVE''"
| "structure_str TWELVE_PLUS_13TH = js ''TWELVE_PLUS_13TH''"

definition month_of_num :: "jsnum \<Rightarrow> int" where
  "month_of_num m = (case m of Fin q \<Rightarrow> \<lfloor>q\<rfloor> | _ \<Rightarrow> 0)"

definition fiscal_audit :: "jstr \<Rightarrow> string \<Rightarrow> jstr \<Rightarrow> jstr \<Rightarrow> json option \<Rightarrow> json \<Rightarrow> audit_event" where
  "fiscal_audit tenant action doc_id actor before after =
     \<lparr>ae_tenant = tenant, ae_doc_type = js ''fiscal_calendar'', ae_doc_id = doc_id, ae_action = js action,
      ae_before = before, ae_after = Some after, ae_actor = actor\<rparr>"

definition calendar_of :: "fiscal_state \<Rightarrow> jstr \<Rightarrow> fiscal_calendar option" where
  "calendar_of st entity = find_row (\<lambda>c. fc_entity c = entity) (fs_calendars st)"

definition define_calendar :: "jstr \<Rightarrow> define_calendar_dto \<Rightarrow> fiscal_state
    \<Rightarrow> (fiscal_error + fiscal_calendar \<times> bool) \<times> fiscal_state" where
  "define_calendar new_id dto st =
     (case parse_structure (dc_structure dto) of
        None \<Rightarrow> (Inl (FiscalValidation (js ''INVALID_STRUCTURE'')
                  (js ''structure must be TWELVE or TWELVE_PLUS_13TH, got '' @ dc_structure dto)), st)
      | Some structure \<Rightarrow>
        (case validate_fy_start_month (dc_start_month dto) of
           Some reason \<Rightarrow> (Inl (FiscalValidation (js ''INVALID_START_MONTH'') reason), st)
         | None \<Rightarrow>
           let month = month_of_num (dc_start_month dto);
               fields = [(js ''fyStartMonth'', JNum (num_of_int month)), (js ''structure'', JStr (structure_str structure))]
           in case calendar_of st (dc_entity dto) of
                None \<Rightarrow>
                  let c = \<lparr>fc_id = new_id, fc_tenant = dc_tenant dto, fc_entity = dc_entity dto, fc_start_month = month,
                           fc_structure = structure, fc_status = DEFINED, fc_actor = dc_actor dto\<rparr>
                  in (Inr (c, True), st\<lparr>fs_calendars := fs_calendars st @ [c],
                        fs_audit := fs_audit st @ [fiscal_audit (dc_tenant dto) ''CREATE'' new_id (dc_actor dto) None
                          (JObj ((js ''entityId'', JStr (dc_entity dto)) # fields))]\<rparr>)
              | Some existing \<Rightarrow>
                  let changing = (fc_start_month existing \<noteq> month \<or> fc_structure existing \<noteq> structure);
                      posted = length (filter (\<lambda>p. fp_entity p = dc_entity dto \<and> fp_has_postings p) (fs_periods st));
                      u = existing\<lparr>fc_start_month := month, fc_structure := structure, fc_actor := dc_actor dto\<rparr>;
                      rows = update_rows (\<lambda>c. fc_entity c = dc_entity dto) (\<lambda>_. u) (fs_calendars st);
                      before = JObj [(js ''fyStartMonth'', JNum (num_of_int (fc_start_month existing))),
                                     (js ''structure'', JStr (structure_str (fc_structure existing)))]
                  in if changing \<and> 0 < posted then (Inl (CalendarLocked (dc_entity dto)), st)
                     else (Inr (u, False), st\<lparr>fs_calendars := rows,
                            fs_audit := fs_audit st @ (if changing then [fiscal_audit (dc_tenant dto) ''UPDATE'' (fc_id u)
                              (dc_actor dto) (Some before) (JObj fields)] else [])\<rparr>)))"

definition get_calendar :: "fiscal_state \<Rightarrow> jstr \<Rightarrow> jstr \<Rightarrow> fiscal_error + fiscal_calendar" where
  "get_calendar st tenant entity =
     (case calendar_of st entity of
        None \<Rightarrow> Inl (CalendarNotFound entity)
      | Some c \<Rightarrow> if fc_tenant c \<noteq> tenant then Inl (CalendarNotFound entity) else Inr c)"

section \<open>Year generation\<close>

text \<open>
  \<open>new Date(date + 'T00:00:00.000Z')\<close>: the ISO format needs a four-digit year, a month and a day of that
  month; what a run-time does with any other string is up to it, so it is the parameter \<open>legacy\<close>.
\<close>

definition two_digits :: "jstr \<Rightarrow> nat \<Rightarrow> int" where
  "two_digits s i = int (digits_val (take 2 (drop i s)))"

definition iso_shape :: "jstr \<Rightarrow> bool" where
  "iso_shape s = (length s = 10 \<and> list_all is_digit (take 4 s) \<and> s ! 4 = cu CHR ''-''
     \<and> list_all is_digit (take 2 (drop 5 s)) \<and> s ! 7 = cu CHR ''-'' \<and> list_all is_digit (drop 8 s))"

definition midnight_of :: "(jstr \<Rightarrow> int option) \<Rightarrow> jstr \<Rightarrow> int option" where
  "midnight_of legacy s =
     (let y = int (digits_val (take 4 s)); m = two_digits s 5; d = two_digits s 8
      in if iso_shape s \<and> 1 \<le> m \<and> m \<le> 12 \<and> 1 \<le> d
            \<and> d \<le> (if m = 2 then (if leap_year y then 29 else 28)
                    else if m = 4 \<or> m = 6 \<or> m = 9 \<or> m = 11 then 30 else 31)
         then Some (86400000 * days_from_civil y m d)
         else legacy (s @ js ''T00:00:00.000Z''))"

definition period_row :: "generate_year_dto \<Rightarrow> jstr \<Rightarrow> generated_period \<Rightarrow> jstr \<Rightarrow> int \<Rightarrow> int \<Rightarrow> fiscal_period" where
  "period_row dto calendar_id p pid start_at end_at =
     \<lparr>fp_id = pid, fp_tenant = gy_tenant dto, fp_entity = gy_entity dto, fp_calendar = calendar_id,
      fp_fiscal_year = gy_fiscal_year dto, fp_period_number = gp_period_number p, fp_code = gp_code p,
      fp_start = start_at, fp_end = end_at, fp_status = FUTURE, fp_adjustments_only = gp_adjustments_only p,
      fp_has_postings = False, fp_opened_by = None, fp_opened_at = None, fp_closed_by = None, fp_closed_at = None,
      fp_locked_by = None, fp_locked_at = None\<rparr>"

definition new_period :: "(jstr \<Rightarrow> int option) \<Rightarrow> generate_year_dto \<Rightarrow> jstr \<Rightarrow> jstr \<times> generated_period
    \<Rightarrow> fiscal_error + fiscal_period" where
  "new_period legacy dto calendar_id x =
     (case (midnight_of legacy (gp_start_date (snd x)), midnight_of legacy (gp_end_date (snd x))) of
        (Some a, Some b) \<Rightarrow> Inr (period_row dto calendar_id (snd x) (fst x) a b)
      | _ \<Rightarrow> Inl InvalidDate)"

text \<open>The unique indexes of the period table.\<close>

definition period_clash :: "fiscal_period \<Rightarrow> fiscal_period \<Rightarrow> bool" where
  "period_clash p q = (fp_id p = fp_id q \<or> fp_entity p = fp_entity q
     \<and> (fp_code p = fp_code q \<or> fp_fiscal_year p = fp_fiscal_year q \<and> fp_period_number p = fp_period_number q))"

fun insert_periods :: "fiscal_period list \<Rightarrow> fiscal_period list \<Rightarrow> fiscal_error + fiscal_period list" where
  "insert_periods rows [] = Inr rows"
| "insert_periods rows (p # ps) =
     (if list_ex (period_clash p) rows then Inl UniqueViolation else insert_periods (rows @ [p]) ps)"

definition create_periods :: "(jstr \<Rightarrow> int option) \<Rightarrow> (nat \<Rightarrow> jstr) \<Rightarrow> generate_year_dto \<Rightarrow> fiscal_calendar
    \<Rightarrow> fiscal_period list \<Rightarrow> fiscal_error + fiscal_period list \<times> fiscal_period list" where
  "create_periods legacy ids dto cal existing =
     (let generated = generate_periods (gy_fiscal_year dto) (fc_start_month cal) (fc_structure cal)
      in bind_res (map_res (new_period legacy dto (fc_id cal)) (zip (map ids [0..<length generated]) generated))
           (\<lambda>created. bind_res (insert_periods existing created) (\<lambda>rows. Inr (created, rows))))"

definition generate_year :: "(jstr \<Rightarrow> int option) \<Rightarrow> (nat \<Rightarrow> jstr) \<Rightarrow> jstr \<Rightarrow> int \<Rightarrow> generate_year_dto \<Rightarrow> fiscal_state
    \<Rightarrow> (fiscal_error + fiscal_period list) \<times> fiscal_state" where
  "generate_year legacy ids event_id now dto st =
     (case get_calendar st (gy_tenant dto) (gy_entity dto) of
        Inl e \<Rightarrow> (Inl e, st)
      | Inr cal \<Rightarrow>
        if list_ex (\<lambda>p. fp_entity p = gy_entity dto \<and> fp_fiscal_year p = gy_fiscal_year dto) (fs_periods st)
        then (Inl (FiscalYearOverlap (gy_entity dto) (gy_fiscal_year dto)), st)
        else
          case create_periods legacy ids dto cal (fs_periods st) of
               Inl e \<Rightarrow> (Inl e, st)
             | Inr (created, rows) \<Rightarrow>
                 (Inr created, st\<lparr>fs_periods := rows,
                   fs_audit := fs_audit st @ [fiscal_audit (gy_tenant dto) ''GENERATE_YEAR'' (fc_id cal) (gy_actor dto) None
                     (JObj [(js ''entityId'', JStr (gy_entity dto)), (js ''fiscalYear'', JNum (num_of_int (gy_fiscal_year dto))),
                            (js ''periodCount'', JNum (num_of_int (int (length created))))])],
                   fs_outbox := fs_outbox st @ [\<lparr>oe_tenant = gy_tenant dto, oe_type = js ''fiscal.year.generated'',
                     oe_aggregate = gy_entity dto,
                     oe_payload = JObj [(js ''eventId'', JStr event_id), (js ''entityId'', JStr (gy_entity dto)),
                       (js ''fy'', JNum (num_of_int (gy_fiscal_year dto))),
                       (js ''periodCount'', JNum (num_of_int (int (length created)))), (js ''actor'', JStr (gy_actor dto)),
                       (js ''ts'', JStr (iso_time now)), (js ''schemaV'', JNum (Fin 1))]\<rparr>]\<rparr>))"

definition expected_period_count :: "fiscal_state \<Rightarrow> jstr \<Rightarrow> jstr \<Rightarrow> fiscal_error + nat" where
  "expected_period_count st tenant entity =
     bind_res (get_calendar st tenant entity) (\<lambda>c. Inr (period_count_for (fc_structure c)))"

definition list_periods :: "fiscal_state \<Rightarrow> jstr \<Rightarrow> jstr \<Rightarrow> int option \<Rightarrow> fiscal_period list" where
  "list_periods st tenant entity fy =
     sort_key fp_fiscal_year (sort_key fp_period_number
       (filter (\<lambda>p. fp_tenant p = tenant \<and> fp_entity p = entity \<and> (fy = None \<or> fy = Some (fp_fiscal_year p))) (fs_periods st)))"

section \<open>Date resolution\<close>

definition resolvable :: "fiscal_period \<Rightarrow> generated_period" where
  "resolvable p = \<lparr>gp_period_number = fp_period_number p, gp_code = fp_code p, gp_start_date = iso_day (fp_start p),
     gp_end_date = iso_day (fp_end p), gp_adjustments_only = fp_adjustments_only p\<rparr>"

definition fiscal_resolve :: "fiscal_period list \<Rightarrow> jstr \<Rightarrow> jstr \<Rightarrow> jstr \<Rightarrow> fiscal_error + fiscal_period" where
  "fiscal_resolve rows tenant entity date =
     (let ps = filter (\<lambda>p. fp_tenant p = tenant \<and> fp_entity p = entity) rows
      in case resolve_date date (map resolvable ps) of
           None \<Rightarrow> Inl (DateUnresolved entity date)
         | Some m \<Rightarrow> (case find_row (\<lambda>p. fp_code p = gp_code m) ps of
               Some p \<Rightarrow> Inr p | None \<Rightarrow> Inl (DateUnresolved entity date)))"


section \<open>The stored calendar\<close>

text \<open>
  A regular row covers exactly the calendar month its code names; no two rows clash on a unique index.
\<close>

definition covers_month :: "fiscal_period \<Rightarrow> int \<Rightarrow> int \<Rightarrow> bool" where
  "covers_month p y m \<longleftrightarrow> 1000 \<le> y \<and> y \<le> 9999 \<and> 1 \<le> m \<and> m \<le> 12 \<and> fp_code p = month_code y m
     \<and> fp_start p = 86400000 * days_from_civil y m 1
     \<and> fp_end p = 86400000 * days_from_civil y m (last_day_of_month y m)"

definition calendar_inv :: "fiscal_period list \<Rightarrow> bool" where
  "calendar_inv rows \<longleftrightarrow> (\<forall>p \<in> set rows. fp_adjustments_only p \<or> (\<exists>y m. covers_month p y m))
     \<and> sorted_wrt (\<lambda>p q. \<not> period_clash p q) rows"

lemma period_clash_sym: "period_clash p q = period_clash q p"
  by (auto simp: period_clash_def)

lemma insert_periods_inv:
  assumes "insert_periods rows ps = Inr rows'" and "sorted_wrt (\<lambda>p q. \<not> period_clash p q) rows"
  shows "rows' = rows @ ps \<and> sorted_wrt (\<lambda>p q. \<not> period_clash p q) rows'"
  using assms
proof (induction rows ps rule: insert_periods.induct)
  case (2 rows p ps)
  then have "\<forall>x \<in> set rows. \<not> period_clash x p"
    by (auto simp: list_ex_iff period_clash_sym [of p] split: if_splits)
  with 2 show ?case by (auto simp: sorted_wrt_append list_ex_iff split: if_splits)
qed simp

section \<open>Reading back a generated date\<close>

lemma int_digits: "0 \<le> i \<Longrightarrow> list_all is_digit (int_str i)" "0 \<le> i \<Longrightarrow> int (digits_val (int_str i)) = i"
  by (simp_all add: int_str_nat nat_str_digits)

lemma pad2_digits: "0 \<le> i \<Longrightarrow> list_all is_digit (pad2 i)" "0 \<le> i \<Longrightarrow> int (digits_val (pad2 i)) = i"
  by (simp_all add: pad2_def int_str_nat pad_digits nat_str_digits)

lemma midnight_of_iso:
  assumes "valid_date y m d"
  shows "midnight_of legacy (iso_date y m d) = Some (86400000 * days_from_civil y m d)"
proof -
  have v: "1000 \<le> y" "y \<le> 9999" "1 \<le> m" "m \<le> 12" "1 \<le> d" "d \<le> 31" "d \<le> last_day_of_month y m"
    using assms valid_date_day [OF assms] by (auto simp: valid_date_def)
  have l: "length (int_str y) = 4" "length (pad2 m) = 2" "length (pad2 d) = 2"
    using year_order(3) [of y y] pad2_order(3) [of m m] pad2_order(3) [of d d] v by auto
  obtain a b c e where ys: "int_str y = [a, b, c, e]" using l(1) by (auto simp: length_Suc_conv numeral_eq_Suc)
  obtain f g where ms: "pad2 m = [f, g]" using l(2) by (auto simp: length_Suc_conv numeral_eq_Suc)
  obtain h i where ds: "pad2 d = [h, i]" using l(3) by (auto simp: length_Suc_conv numeral_eq_Suc)
  have iso: "iso_date y m d = [a, b, c, e, cu CHR ''-'', f, g, cu CHR ''-'', h, i]"
    by (simp add: iso_date_def ys ms ds js_def)
  have dg: "list_all is_digit [a, b, c, e]" "list_all is_digit [f, g]" "list_all is_digit [h, i]"
    "int (digits_val [a, b, c, e]) = y" "int (digits_val [f, g]) = m" "int (digits_val [h, i]) = d"
    using int_digits [of y] pad2_digits [of m] pad2_digits [of d] v ys ms ds by auto
  have last: "d \<le> (if m = 2 then if leap_year y then 29 else 28 else if m = 4 \<or> m = 6 \<or> m = 9 \<or> m = 11 then 30 else 31)"
    using v(7) utc_year_id [OF v(1)] by (simp only: last_day_of_month_def)
  have sh: "iso_shape (iso_date y m d)" using dg(1-3) by (simp add: iso iso_shape_def)
  have t: "int (digits_val (take 4 (iso_date y m d))) = y" "two_digits (iso_date y m d) 5 = m" "two_digits (iso_date y m d) 8 = d"
    using dg(4-6) by (simp_all add: iso two_digits_def)
  show ?thesis unfolding midnight_of_def Let_def t using sh last v by simp
qed

lemma month_bounds:
  assumes "1000 \<le> fy" "fy + 1 \<le> 9999" "1 \<le> s" "s \<le> 12" "k < 12" and "n = month_no fy s + int k"
  shows "1000 \<le> n div 12" "n div 12 \<le> 9999" "1 \<le> n mod 12 + 1" "n mod 12 + 1 \<le> 12"
proof -
  define t where "t = s - 1 + int k"
  have t: "0 \<le> t" "t < 24" and n: "n = t + 12 * fy" using assms by (auto simp: month_no_def t_def)
  have "0 \<le> t div 12" "t div 12 < 2" using t by linarith+
  then have "fy \<le> n div 12 \<and> n div 12 < fy + 2" unfolding n by (simp add: div_mult_self2)
  then show "1000 \<le> n div 12" "n div 12 \<le> 9999" using assms by auto
  show "1 \<le> n mod 12 + 1" "n mod 12 + 1 \<le> 12" using pos_mod_bound [of 12 n] pos_mod_sign [of 12 n] by linarith+
qed

lemma valid_ends: "1000 \<le> y \<Longrightarrow> y \<le> 9999 \<Longrightarrow> 1 \<le> m \<Longrightarrow> m \<le> 12 \<Longrightarrow>
    valid_date y m 1 \<and> valid_date y m (last_day_of_month y m)"
  using last_day_bounds [of y m] by (auto simp: valid_date_def)

lemma new_period_covers:
  assumes "1000 \<le> fy" "fy + 1 \<le> 9999" "1 \<le> s" "s \<le> 12"
    and "p \<in> set (generate_periods fy s structure)" and "new_period legacy dto cid (i, p) = Inr row"
  shows "fp_adjustments_only row \<or> (\<exists>y m. covers_month row y m)"
proof (cases "gp_adjustments_only p")
  case True
  then show ?thesis using assms(6) by (auto simp: new_period_def period_row_def split: option.splits)
next
  case False
  then obtain k where k: "k < 12" "p = regular_period fy s k"
    using assms(5) by (auto simp: generate_periods_def Let_def split: if_splits)
  define n where "n = month_no fy s + int k"
  note b = month_bounds [OF assms(1-4) k(1) n_def]
  note v = valid_ends [OF b]
  have "row = period_row dto cid p i (86400000 * days_from_civil (n div 12) (n mod 12 + 1) 1)
      (86400000 * days_from_civil (n div 12) (n mod 12 + 1) (last_day_of_month (n div 12) (n mod 12 + 1)))"
    using assms(6) unfolding new_period_def k(2) regular_period_month Let_def n_def [symmetric]
    by (simp add: midnight_of_iso v)
  then have "covers_month row (n div 12) (n mod 12 + 1)"
    using b by (simp add: covers_month_def period_row_def k(2) regular_period_month n_def [symmetric] Let_def)
  then show ?thesis by blast
qed

lemma generate_year_rows:
  assumes "generate_year legacy ids ev now dto st = (Inr created, st')"
  obtains cal where "get_calendar st (gy_tenant dto) (gy_entity dto) = Inr cal"
    "insert_periods (fs_periods st) created = Inr (fs_periods st')"
    "list_all2 (\<lambda>x row. new_period legacy dto (fc_id cal) x = Inr row)
       (zip (map ids [0..<length (generate_periods (gy_fiscal_year dto) (fc_start_month cal) (fc_structure cal))])
         (generate_periods (gy_fiscal_year dto) (fc_start_month cal) (fc_structure cal))) created"
proof (cases "get_calendar st (gy_tenant dto) (gy_entity dto)")
  case (Inl e)
  then show ?thesis using assms by (simp add: generate_year_def)
next
  case (Inr cal)
  then have run: "create_periods legacy ids dto cal (fs_periods st) = Inr (created, fs_periods st')"
    using assms by (auto simp: generate_year_def Let_def split: if_splits sum.splits)
  show ?thesis
    by (rule that [OF Inr]) (use run in \<open>auto simp: create_periods_def Let_def res_simps map_res_Inr\<close>)
qed

text \<open>
  C32: generating a fiscal year keeps the stored calendar well formed: every regular period covers exactly
  the calendar month of its code, and no two periods of an entity share a code or a number in a year.
\<close>

theorem generate_year_keeps_calendar:
  assumes "generate_year legacy ids ev now dto st = (Inr created, st')" and "calendar_inv (fs_periods st)"
    and "1000 \<le> gy_fiscal_year dto" and "gy_fiscal_year dto + 1 \<le> 9999"
    and "\<forall>c \<in> set (fs_calendars st). 1 \<le> fc_start_month c \<and> fc_start_month c \<le> 12"
  shows "calendar_inv (fs_periods st') \<and> fs_periods st' = fs_periods st @ created"
proof -
  obtain cal where cal: "get_calendar st (gy_tenant dto) (gy_entity dto) = Inr cal"
    and ins: "insert_periods (fs_periods st) created = Inr (fs_periods st')"
    and rows: "list_all2 (\<lambda>x row. new_period legacy dto (fc_id cal) x = Inr row)
       (zip (map ids [0..<length (generate_periods (gy_fiscal_year dto) (fc_start_month cal) (fc_structure cal))])
         (generate_periods (gy_fiscal_year dto) (fc_start_month cal) (fc_structure cal))) created"
    using generate_year_rows [OF assms(1)] by blast
  have s: "1 \<le> fc_start_month cal" "fc_start_month cal \<le> 12"
    using cal assms(5) by (auto simp: get_calendar_def calendar_of_def dest: find_row_Some split: option.splits if_splits)
  have "fp_adjustments_only r \<or> (\<exists>y m. covers_month r y m)" if "r \<in> set created" for r
  proof -
    from that obtain j where j: "j < length created" "created ! j = r" by (auto simp: in_set_conv_nth)
    define g where "g = generate_periods (gy_fiscal_year dto) (fc_start_month cal) (fc_structure cal)"
    have len: "j < length g" using list_all2_lengthD [OF rows] j(1) by (simp add: g_def)
    have "new_period legacy dto (fc_id cal) (ids j, g ! j) = Inr r"
      using list_all2_nthD2 [OF rows j(1)] j(2) len by (simp add: g_def)
    then show ?thesis using new_period_covers [OF assms(3,4) s] nth_mem [OF len] by (auto simp: g_def)
  qed
  then show ?thesis using insert_periods_inv [OF ins] assms(2) by (auto simp: calendar_inv_def)
qed


section \<open>Resolution against the stored calendar\<close>

lemma month_code_inject:
  assumes "1000 \<le> y" "y \<le> 9999" "1 \<le> m" "m \<le> 12" "1000 \<le> y'" "y' \<le> 9999" "1 \<le> m'" "m' \<le> 12"
  shows "month_code y m = month_code y' m' \<longleftrightarrow> y = y' \<and> m = m'"
  using year_order [of y y'] year_order(3) [of y' y] pad2_order(2) [of m m'] assms
  by (auto simp: month_code_def)

lemma covers_iff:
  assumes "covers_month p y' m'" and "valid_date y m d"
  shows "iso_day (fp_start p) \<le> iso_date y m d \<and> iso_date y m d \<le> iso_day (fp_end p) \<longleftrightarrow> fp_code p = month_code y m"
proof -
  have b: "1000 \<le> y'" "y' \<le> 9999" "1 \<le> m'" "m' \<le> 12" using assms(1) by (auto simp: covers_month_def)
  have c: "1000 \<le> y" "y \<le> 9999" "1 \<le> m" "m \<le> 12" using assms(2) by (auto simp: valid_date_def)
  have n: "month_no y' m' div 12 = y'" "month_no y' m' mod 12 + 1 = m'" using month_no_inverse [OF b(3,4)] by auto
  have "month_no y m = month_no y' m' \<longleftrightarrow> y = y' \<and> m = m'"
    using month_no_inverse [OF b(3,4), of y'] month_no_inverse [OF c(3,4), of y] by auto
  then show ?thesis
    using in_period_iff [OF assms(2), of "month_no y' m'"] assms(1) valid_ends [OF b] b c month_code_inject [OF b c]
    unfolding n by (auto simp: covers_month_def iso_day_midnight)
qed

lemma filter_at_most_one:
  "sorted_wrt (\<lambda>p q. \<not> (Q p \<and> Q q)) rows \<Longrightarrow>
     filter Q rows = (case find_row Q rows of None \<Rightarrow> [] | Some p \<Rightarrow> [p])"
proof (induction rows)
  case (Cons p rows)
  show ?case
  proof (cases "Q p")
    case True
    then have "filter Q rows = []" using Cons.prems by (auto simp: filter_empty_conv)
    then show ?thesis using True by simp
  qed (use Cons in simp)
qed simp

text \<open>
  A date resolves, in a well-formed stored calendar, to the one period of its entity whose code is the
  date's month, and to nothing when that month has not been generated: the strings the database
  dates are read back as select exactly that row.
\<close>

theorem fiscal_resolve_iff:
  assumes "calendar_inv rows" and "valid_date y m d"
  shows "fiscal_resolve rows tenant entity (iso_date y m d) =
     (case find_row (\<lambda>p. fp_tenant p = tenant \<and> fp_entity p = entity \<and> \<not> fp_adjustments_only p
                         \<and> fp_code p = month_code y m) rows of
        None \<Rightarrow> Inl (DateUnresolved entity (iso_date y m d)) | Some p \<Rightarrow> Inr p)"
proof -
  let ?Q = "\<lambda>p. fp_tenant p = tenant \<and> fp_entity p = entity \<and> \<not> fp_adjustments_only p \<and> fp_code p = month_code y m"
  let ?ps = "filter (\<lambda>p. fp_tenant p = tenant \<and> fp_entity p = entity) rows"
  let ?P = "\<lambda>g. \<not> gp_adjustments_only g \<and> gp_start_date g \<le> iso_date y m d \<and> iso_date y m d \<le> gp_end_date g"
  have P: "?P (resolvable p) \<longleftrightarrow> \<not> fp_adjustments_only p \<and> fp_code p = month_code y m" if "p \<in> set ?ps" for p
    using that assms(1) covers_iff [OF _ assms(2), of p] by (auto simp: calendar_inv_def resolvable_def)
  have one: "sorted_wrt (\<lambda>p q. \<not> (?Q p \<and> ?Q q)) rows"
    using assms(1) by (auto simp: calendar_inv_def period_clash_def elim!: sorted_wrt_mono_rel [rotated])
  have "filter ?P (map resolvable ?ps) = map resolvable (filter (\<lambda>p. \<not> fp_adjustments_only p \<and> fp_code p = month_code y m) ?ps)"
    unfolding filter_map comp_def using P by (intro arg_cong [where f = "map resolvable"] filter_cong) auto
  also have "\<dots> = map resolvable (filter ?Q rows)" by (simp add: conj_ac)
  finally have res: "resolve_date (iso_date y m d) (map resolvable ?ps) = map_option resolvable (find_row ?Q rows)"
    unfolding resolve_date_def by (simp add: filter_at_most_one [OF one] split: option.splits)
  show ?thesis
  proof (cases "find_row ?Q rows")
    case None
    then show ?thesis using res by (simp add: fiscal_resolve_def)
  next
    case (Some p)
    note p = find_row_Some [OF Some]
    have "find_row (\<lambda>q. fp_code q = fp_code p) ?ps = Some p"
    proof (cases "find_row (\<lambda>q. fp_code q = fp_code p) ?ps")
      case None
      then show ?thesis using p by (auto simp: find_row_None)
    next
      case (Some q)
      have q: "q \<in> set rows" "fp_entity q = fp_entity p" "fp_code q = fp_code p" using find_row_Some [OF Some] p by auto
      have "p = q"
      proof (rule ccontr)
        assume "p \<noteq> q"
        obtain i j where "i < length rows" "j < length rows" "rows ! i = p" "rows ! j = q"
          using p q by (auto simp: in_set_conv_nth)
        then have "\<not> period_clash p q"
          using assms(1) \<open>p \<noteq> q\<close> sorted_wrt_nth_less [of "\<lambda>p q. \<not> period_clash p q" rows i j]
            sorted_wrt_nth_less [of "\<lambda>p q. \<not> period_clash p q" rows j i] period_clash_sym [of p q]
          by (cases i j rule: linorder_cases) (auto simp: calendar_inv_def)
        then show False using q by (auto simp: period_clash_def)
      qed
      then show ?thesis using Some by simp
    qed
    then show ?thesis using res Some by (simp add: fiscal_resolve_def resolvable_def)
  qed
qed


section \<open>Generation of a new entity's year\<close>

lemma regular_code: "gp_code (regular_period fy s k) = month_code ((month_no fy s + int k) div 12) ((month_no fy s + int k) mod 12 + 1)"
  by (simp add: regular_period_month Let_def)

lemma generated_codes_distinct:
  assumes "1000 \<le> fy" "fy + 1 \<le> 9999" "1 \<le> s" "s \<le> 12"
  shows "distinct (map gp_code (generate_periods fy s structure))"
proof -
  have eq: "i = j" if "i < 12" "j < 12" "gp_code (regular_period fy s i) = gp_code (regular_period fy s j)" for i j
  proof -
    note bi = month_bounds [OF assms that(1) refl] and bj = month_bounds [OF assms that(2) refl]
    have "(month_no fy s + int i) div 12 = (month_no fy s + int j) div 12"
      "(month_no fy s + int i) mod 12 = (month_no fy s + int j) mod 12"
      using that(3) month_code_inject [OF bi bj] by (simp_all add: regular_code)
    then have "month_no fy s + int i = month_no fy s + int j" by (metis mult_div_mod_eq)
    then show "i = j" by simp
  qed
  then have reg: "distinct (map gp_code (map (regular_period fy s) [0..<12]))"
    by (auto simp: distinct_map inj_on_def)
  have thirteen: "gp_code (regular_period fy s k) \<noteq> int_str fy @ js ''-13''" if "k < 12" for k
  proof
    note b = month_bounds [OF assms that refl]
    assume eq13: "gp_code (regular_period fy s k) = int_str fy @ js ''-13''"
    have "length (int_str ((month_no fy s + int k) div 12)) = length (int_str fy)"
      using year_order(3) [of fy fy] year_order(3) b(1,2) assms by simp
    then have p: "pad2 ((month_no fy s + int k) mod 12 + 1) = js ''13''"
      using eq13 by (simp add: regular_code month_code_def js_def)
    have "js ''13'' = pad2 13" by code_simp
    then show False using p pad2_order(2) [of "(month_no fy s + int k) mod 12 + 1" 13] b by simp
  qed
  have "int_str fy @ js ''-13'' \<notin> set (map gp_code (map (regular_period fy s) [0..<12]))"
    using thirteen by (auto simp del: upt_Suc) (metis less_eq_nat.simps(1) thirteen)
  with reg show ?thesis
    by (simp add: generate_periods_def Let_def del: upt_Suc distinct_map map_map set_map)
qed

lemma generated_numbers_distinct: "distinct (map gp_period_number (generate_periods fy s structure))"
  by (auto simp: generate_periods_def Let_def distinct_map inj_on_def regular_period_def)

lemma length_generated: "length (generate_periods fy s structure) = period_count_for structure"
  by (simp add: generate_periods_def period_count_for_def Let_def)

lemma new_period_total:
  assumes "1000 \<le> fy" "fy + 1 \<le> 9999" "1 \<le> s" "s \<le> 12" and "p \<in> set (generate_periods fy s structure)"
  shows "\<exists>a b. new_period legacy dto cid (i, p) = Inr (period_row dto cid p i a b)"
proof -
  have "(\<exists>y m d. gp_start_date p = iso_date y m d \<and> valid_date y m d)
      \<and> (\<exists>y m d. gp_end_date p = iso_date y m d \<and> valid_date y m d)"
  proof (cases "\<exists>k < 12. p = regular_period fy s k")
    case True
    then obtain k where k: "k < 12" "p = regular_period fy s k" by blast
    note v = valid_ends [OF month_bounds [OF assms(1-4) k(1) refl]]
    show ?thesis unfolding k(2) regular_period_month Let_def generated_period.simps using v by blast
  next
    case False
    then have p: "p = \<lparr>gp_period_number = 13, gp_code = int_str fy @ js ''-13'',
                  gp_start_date = gp_end_date (regular_period fy s 11), gp_end_date = gp_end_date (regular_period fy s 11),
                  gp_adjustments_only = True\<rparr>"
      using assms(5) by (auto simp: generate_periods_def Let_def regular_period_def split: if_splits)
    have e: "(11::nat) < 12" by simp
    note v = valid_ends [OF month_bounds [OF assms(1-4) e refl]]
    show ?thesis unfolding p regular_period_month Let_def generated_period.simps using v by blast
  qed
  then show ?thesis by (auto simp: new_period_def midnight_of_iso) blast
qed

lemma insert_periods_total:
  "sorted_wrt (\<lambda>p q. \<not> period_clash p q) ps \<Longrightarrow> \<forall>p \<in> set rows. \<forall>q \<in> set ps. \<not> period_clash p q
     \<Longrightarrow> insert_periods rows ps = Inr (rows @ ps)"
  by (induction rows ps rule: insert_periods.induct) (auto simp: list_ex_iff period_clash_sym)

lemma generate_year_new:
  assumes "get_calendar st (gy_tenant dto) (gy_entity dto) = Inr cal"
    and "1000 \<le> gy_fiscal_year dto" "gy_fiscal_year dto + 1 \<le> 9999" "1 \<le> fc_start_month cal" "fc_start_month cal \<le> 12"
    and "\<forall>p \<in> set (fs_periods st). fp_entity p \<noteq> gy_entity dto \<and> fp_id p \<notin> range ids" and "inj ids"
  shows "\<exists>created. fst (generate_year legacy ids ev now dto st) = Inr created
     \<and> length created = period_count_for (fc_structure cal)
     \<and> map fp_code created = map gp_code (generate_periods (gy_fiscal_year dto) (fc_start_month cal) (fc_structure cal))"
proof -
  define g where "g = generate_periods (gy_fiscal_year dto) (fc_start_month cal) (fc_structure cal)"
  let ?f = "new_period legacy dto (fc_id cal)"
  let ?xs = "zip (map ids [0..<length g]) g"
  define created where "created = map (\<lambda>x. projr (?f x)) ?xs"
  have tot: "\<exists>a b. ?f x = Inr (period_row dto (fc_id cal) (snd x) (fst x) a b)" if "x \<in> set ?xs" for x
  proof -
    obtain i p where x: "x = (i, p)" by (cases x)
    then have "p \<in> set (generate_periods (gy_fiscal_year dto) (fc_start_month cal) (fc_structure cal))"
      using that by (auto simp: g_def dest: set_zip_rightD)
    from new_period_total [OF assms(2-5) this] show ?thesis by (simp add: x)
  qed
  have m: "map_res ?f ?xs = Inr created"
    unfolding created_def by (rule map_res_total) (use tot in fastforce)
  have len: "length created = length g" by (simp add: created_def)
  have nth: "fp_id (created ! i) = ids i \<and> fp_code (created ! i) = gp_code (g ! i)
      \<and> fp_entity (created ! i) = gy_entity dto \<and> fp_period_number (created ! i) = gp_period_number (g ! i)" if "i < length g" for i
  proof -
    have "(ids i, g ! i) \<in> set ?xs" using that by (force simp: set_zip)
    then show ?thesis using tot [of "(ids i, g ! i)"] that by (auto simp: created_def period_row_def)
  qed
  have "\<not> period_clash (created ! i) (created ! j)" if "i < j" "j < length g" for i j
    using nth [of i] nth [of j] that assms(7) generated_codes_distinct [OF assms(2-5), of "fc_structure cal"]
      generated_numbers_distinct [of "gy_fiscal_year dto" "fc_start_month cal" "fc_structure cal"]
    by (auto simp: period_clash_def g_def [symmetric] distinct_conv_nth inj_def)
  then have s: "sorted_wrt (\<lambda>p q. \<not> period_clash p q) created"
    by (simp add: sorted_wrt_iff_nth_less len)
  have fresh: "\<forall>p \<in> set (fs_periods st). \<forall>q \<in> set created. \<not> period_clash p q"
    using assms(6) nth len by (fastforce simp: period_clash_def in_set_conv_nth)
  have c: "create_periods legacy ids dto cal (fs_periods st) = Inr (created, fs_periods st @ created)"
    using m insert_periods_total [OF s fresh] by (simp add: create_periods_def g_def [symmetric])
  have no: "\<not> list_ex (\<lambda>p. fp_entity p = gy_entity dto \<and> fp_fiscal_year p = gy_fiscal_year dto) (fs_periods st)"
    using assms(6) by (auto simp: list_ex_iff)
  have codes: "map fp_code created = map gp_code g" using nth len by (auto intro!: nth_equalityI)
  have r: "fst (generate_year legacy ids ev now dto st) = Inr created"
    unfolding generate_year_def assms(1) using c no by simp
  show ?thesis
    by (rule exI [where x = created], intro conjI, rule r)
      (use len codes in \<open>simp_all add: g_def length_generated\<close>)
qed

definition demo_year :: fiscal_state where
  "demo_year = \<lparr>fs_calendars = [\<lparr>fc_id = js ''c1'', fc_tenant = js ''t1'', fc_entity = js ''E'', fc_start_month = 7,
       fc_structure = TWELVE_PLUS_13TH, fc_status = DEFINED, fc_actor = js ''u1''\<rparr>], fs_periods = [], fs_audit = [],
     fs_outbox = []\<rparr>"

definition demo_generate :: generate_year_dto where
  "demo_generate = \<lparr>gy_tenant = js ''t1'', gy_entity = js ''E'', gy_fiscal_year = 2026, gy_actor = js ''u1''\<rparr>"

lemma demo_cal: "get_calendar demo_year (gy_tenant demo_generate) (gy_entity demo_generate)
    = Inr (hd (fs_calendars demo_year))"
  by (simp add: get_calendar_def calendar_of_def demo_year_def demo_generate_def)

definition demo_periods_july :: "fiscal_period list" where
  "demo_periods_july = [period_row demo_generate (js ''c1'') (regular_period 2026 7 0) (js ''p0'')
     (86400000 * days_from_civil 2026 7 1) (86400000 * days_from_civil 2026 7 31)]"

lemma demo_calendar_inv: "calendar_inv demo_periods_july"
proof -
  have "last_day_of_month 2026 7 = 31" by (simp add: last_day_of_month_def)
  then have "covers_month (hd demo_periods_july) 2026 7"
    by (simp add: demo_periods_july_def covers_month_def period_row_def regular_period_def)
  then show ?thesis by (auto simp: calendar_inv_def demo_periods_july_def)
qed

theorem fiscal_resolve_iff_witness:
  "\<exists>p. fiscal_resolve demo_periods_july (js ''t1'') (js ''E'') (iso_date 2026 7 15) = Inr p \<and> fp_code p = month_code 2026 7"
proof -
  have v: "valid_date 2026 7 15" by (simp add: valid_date_def last_day_of_month_def)
  show ?thesis
    unfolding fiscal_resolve_iff [OF demo_calendar_inv v]
    by (simp add: demo_periods_july_def period_row_def demo_generate_def regular_period_def)
qed

theorem generate_year_keeps_calendar_witness:
  "\<exists>st' :: fiscal_state. calendar_inv (fs_periods st') \<and> length (fs_periods st') = 13"
proof -
  obtain created where c: "fst (generate_year (\<lambda>_. None) nat_str (js ''e1'') 0 demo_generate demo_year) = Inr created"
    "length created = 13"
    using generate_year_new [OF demo_cal, of nat_str "\<lambda>_. None" "js ''e1''" 0]
    by (auto simp: demo_year_def demo_generate_def inj_def period_count_for_def)
  then obtain st' where "generate_year (\<lambda>_. None) nat_str (js ''e1'') 0 demo_generate demo_year = (Inr created, st')"
    by (cases "generate_year (\<lambda>_. None) nat_str (js ''e1'') 0 demo_generate demo_year") auto
  moreover have "calendar_inv (fs_periods demo_year)" by (simp add: calendar_inv_def demo_year_def)
  ultimately have "calendar_inv (fs_periods st') \<and> fs_periods st' = fs_periods demo_year @ created"
    by (rule generate_year_keeps_calendar) (simp_all add: demo_year_def demo_generate_def)
  with c(2) show ?thesis by (auto simp: demo_year_def)
qed

text \<open>
  C33: generation succeeds for an entity without periods: with a calendar of the tenant and fresh row
  identifiers, the call creates exactly the twelve or thirteen periods of the structure, in order, with
  the codes of the generated year.
\<close>

theorem generate_year_succeeds:
  assumes "get_calendar st (gy_tenant dto) (gy_entity dto) = Inr cal"
    and "1000 \<le> gy_fiscal_year dto" "gy_fiscal_year dto + 1 \<le> 9999" "1 \<le> fc_start_month cal" "fc_start_month cal \<le> 12"
    and "\<forall>p \<in> set (fs_periods st). fp_entity p \<noteq> gy_entity dto \<and> fp_id p \<notin> range ids" and "inj ids"
  shows "\<exists>created. fst (generate_year legacy ids ev now dto st) = Inr created
     \<and> length created = period_count_for (fc_structure cal)
     \<and> map fp_code created = map gp_code (generate_periods (gy_fiscal_year dto) (fc_start_month cal) (fc_structure cal))"
  using assms by (rule generate_year_new)

theorem generate_year_succeeds_witness:
  "\<exists>created. fst (generate_year (\<lambda>_. None) nat_str (js ''e1'') 0 demo_generate demo_year) = Inr created \<and> length created = 13"
proof -
  have "\<exists>created. fst (generate_year (\<lambda>_. None) nat_str (js ''e1'') 0 demo_generate demo_year) = Inr created
     \<and> length created = period_count_for (fc_structure (hd (fs_calendars demo_year)))
     \<and> map fp_code created = map gp_code (generate_periods (gy_fiscal_year demo_generate)
         (fc_start_month (hd (fs_calendars demo_year))) (fc_structure (hd (fs_calendars demo_year))))"
    by (rule generate_year_succeeds [OF demo_cal]) (simp_all add: demo_year_def demo_generate_def inj_def)
  then show ?thesis by (auto simp: demo_year_def period_count_for_def)
qed

end
