(* ===== verification/JournalSequence.thy ===== *)
theory JournalSequence
  imports Outbox Prelude
begin

text \<open>
  \<open>domain/journal-sequence.ts\<close> and \<open>application/sequence-service.ts\<close>: journal numbers
  \<open>SOURCE-YYYY-MM-nnnnnn\<close>, allocated per tenant, source, entity and period by one upsert, and the log
  of the numbers a failed posting left unused.
\<close>

section \<open>Number format\<close>

definition is_valid_period_code :: "jstr \<Rightarrow> bool" where
  "is_valid_period_code v =
     (length v = 7 \<and> list_all is_digit (take 4 v) \<and> v ! 4 = cu CHR ''-'' \<and> list_all is_digit (drop 5 v))"

definition is_valid_source_code :: "jstr \<Rightarrow> bool" where
  "is_valid_source_code v = (2 \<le> length v \<and> length v \<le> 6 \<and> list_all (\<lambda>c. is_upper c \<or> is_digit c) v)"

definition format_journal_number :: "jstr \<Rightarrow> jstr \<Rightarrow> int \<Rightarrow> jstr" where
  "format_journal_number source_code period_code n =
     source_code @ js ''-'' @ period_code @ js ''-'' @ pad_start 6 (cu CHR ''0'') (int_str n)"

text \<open>
  \<open>toUpperCase\<close>, exactly on every string whose upper case is ASCII: the letters, and the code units
  outside ASCII that the Unicode mapping sends to ASCII letters. Any other code unit maps to a string that
  is not ASCII and is kept as it is: a code with one is refused either way.
\<close>

definition upper_unit :: "cu \<Rightarrow> jstr" where
  "upper_unit c =
     (if is_lower c then [c - 32]
      else if c = 0xDF then js ''SS'' else if c = 0x131 then js ''I'' else if c = 0x17F then js ''S''
      else if c = 0xFB00 then js ''FF'' else if c = 0xFB01 then js ''FI'' else if c = 0xFB02 then js ''FL''
      else if c = 0xFB03 then js ''FFI'' else if c = 0xFB04 then js ''FFL''
      else if c = 0xFB05 \<or> c = 0xFB06 then js ''ST'' else [c])"

definition to_upper :: "jstr \<Rightarrow> jstr" where
  "to_upper s = concat (map upper_unit s)"

section \<open>State\<close>

record journal_counter =
  jc_tenant :: jstr
  jc_source :: jstr
  jc_entity :: jstr
  jc_period :: jstr
  jc_next :: int

record sequence_gap =
  sg_tenant :: jstr
  sg_source :: jstr
  sg_entity :: jstr
  sg_period :: jstr
  sg_expected_number :: jstr
  sg_expected_seq :: int
  sg_reason :: jstr
  sg_actor :: "jstr option"

record sequence_state =
  sq_counters :: "journal_counter list"
  sq_gaps :: "sequence_gap list"
  sq_audit :: "audit_event list"

record allocate_dto =
  al_tenant :: jstr
  al_source :: jstr
  al_entity :: jstr
  al_period :: jstr
  al_actor :: "jstr option"

record allocation_result =
  ar_number :: jstr
  ar_seq :: int
  ar_source :: jstr
  ar_entity :: jstr
  ar_period :: jstr

record log_gap_dto =
  lg_tenant :: jstr
  lg_source :: jstr
  lg_entity :: jstr
  lg_period :: jstr
  lg_seq :: int
  lg_reason :: jstr
  lg_actor :: "jstr option"

datatype sequence_error = SequenceValidation jstr jstr | CounterOverflow

definition actor_or_system :: "jstr option \<Rightarrow> jstr" where
  "actor_or_system a = (case a of Some s \<Rightarrow> s | None \<Rightarrow> js ''system'')"

section \<open>Operations\<close>

definition sequence_validate :: "jstr \<Rightarrow> jstr \<Rightarrow> sequence_error option" where
  "sequence_validate source_code period_code =
     (if \<not> is_valid_source_code source_code
      then Some (SequenceValidation (js ''INVALID_SOURCE_CODE'') (js ''sourceCode must be 2-6 uppercase alphanumerics''))
      else if \<not> is_valid_period_code period_code
      then Some (SequenceValidation (js ''INVALID_PERIOD_CODE'') (js ''periodCode must be YYYY-MM''))
      else None)"

definition counter_key :: "journal_counter \<Rightarrow> jstr \<times> jstr \<times> jstr \<times> jstr" where
  "counter_key c = (jc_tenant c, jc_source c, jc_entity c, jc_period c)"

text \<open>
  \<open>INSERT ... ON CONFLICT DO UPDATE SET next_seq = next_seq + 1 RETURNING next_seq - 1\<close> on a 32-bit
  column: the claimed value and the new table, or no value when the increment overflows.
\<close>

definition int4_max :: int where
  "int4_max = 2147483647"

definition claim :: "jstr \<times> jstr \<times> jstr \<times> jstr \<Rightarrow> journal_counter list \<Rightarrow> (int \<times> journal_counter list) option" where
  "claim k rows =
     (case find_row (\<lambda>c. counter_key c = k) rows of
        None \<Rightarrow> (case k of (t, s, e, p) \<Rightarrow>
          Some (1, rows @ [\<lparr>jc_tenant = t, jc_source = s, jc_entity = e, jc_period = p, jc_next = 2\<rparr>]))
      | Some c \<Rightarrow> if int4_max \<le> jc_next c then None
                  else Some (jc_next c, update_rows (\<lambda>c. counter_key c = k) (\<lambda>c. c\<lparr>jc_next := jc_next c + 1\<rparr>) rows))"

definition sequence_audit :: "jstr \<Rightarrow> jstr \<Rightarrow> jstr \<Rightarrow> string \<Rightarrow> json \<Rightarrow> audit_event" where
  "sequence_audit tenant doc_id actor action after =
     \<lparr>ae_tenant = tenant, ae_doc_type = js ''journal_sequence'', ae_doc_id = doc_id, ae_action = js action,
      ae_before = None, ae_after = Some after, ae_actor = actor\<rparr>"

definition allocate :: "allocate_dto \<Rightarrow> sequence_state \<Rightarrow> (sequence_error + allocation_result) \<times> sequence_state" where
  "allocate dto st =
     (let source_code = to_upper (js_trim (al_source dto))
      in case sequence_validate source_code (al_period dto) of
           Some e \<Rightarrow> (Inl e, st)
         | None \<Rightarrow>
           (case claim (al_tenant dto, source_code, al_entity dto, al_period dto) (sq_counters st) of
              None \<Rightarrow> (Inl CounterOverflow, st)
            | Some (n, rows) \<Rightarrow>
                let number = format_journal_number source_code (al_period dto) n;
                    r = \<lparr>ar_number = number, ar_seq = n, ar_source = source_code, ar_entity = al_entity dto,
                         ar_period = al_period dto\<rparr>
                in (Inr r, st\<lparr>sq_counters := rows, sq_audit := sq_audit st @ [sequence_audit (al_tenant dto) number
                     (actor_or_system (al_actor dto)) ''ALLOCATED''
                     (JObj [(js ''journalNumber'', JStr number), (js ''seq'', JNum (num_of_int n)),
                            (js ''sourceCode'', JStr source_code), (js ''entityId'', JStr (al_entity dto)),
                            (js ''periodCode'', JStr (al_period dto))])]\<rparr>)))"

definition log_gap :: "log_gap_dto \<Rightarrow> sequence_state \<Rightarrow> (sequence_error + sequence_gap) \<times> sequence_state" where
  "log_gap dto st =
     (let source_code = to_upper (js_trim (lg_source dto))
      in case sequence_validate source_code (lg_period dto) of
           Some e \<Rightarrow> (Inl e, st)
         | None \<Rightarrow>
           if is_blank (lg_reason dto)
           then (Inl (SequenceValidation (js ''MISSING_REASON'') (js ''gap reason is required'')), st)
           else
             let number = format_journal_number source_code (lg_period dto) (lg_seq dto);
                 row = \<lparr>sg_tenant = lg_tenant dto, sg_source = source_code, sg_entity = lg_entity dto,
                   sg_period = lg_period dto, sg_expected_number = number, sg_expected_seq = lg_seq dto,
                   sg_reason = js_trim (lg_reason dto), sg_actor = lg_actor dto\<rparr>
             in (Inr row, st\<lparr>sq_gaps := sq_gaps st @ [row], sq_audit := sq_audit st @ [sequence_audit (lg_tenant dto)
                  number (actor_or_system (lg_actor dto)) ''GAP_LOGGED''
                  (JObj [(js ''expectedNumber'', JStr number), (js ''reason'', JStr (sg_reason row))])]\<rparr>))"

definition gap_report :: "jstr \<Rightarrow> jstr option \<Rightarrow> jstr option \<Rightarrow> sequence_state \<Rightarrow> sequence_gap list" where
  "gap_report tenant entity period st =
     filter (\<lambda>g. sg_tenant g = tenant \<and> (given entity \<longrightarrow> entity = Some (sg_entity g))
                 \<and> (given period \<longrightarrow> period = Some (sg_period g))) (sq_gaps st)"

section \<open>Numbers identify their allocation\<close>

lemma digit_not_dash: "list_all is_digit s \<Longrightarrow> cu CHR ''-'' \<notin> set s"
  by (auto simp: list_all_iff is_digit_def)

lemma source_not_dash: "is_valid_source_code s \<Longrightarrow> cu CHR ''-'' \<notin> set s"
  by (auto simp: is_valid_source_code_def list_all_iff is_digit_def is_upper_def)

lemma split_at_sep:
  "c \<notin> set s \<Longrightarrow> c \<notin> set s' \<Longrightarrow> s @ c # r = s' @ c # r' \<longleftrightarrow> s = s' \<and> r = r'"
proof (induction s arbitrary: s')
  case Nil
  then show ?case by (cases s') auto
next
  case (Cons a s)
  then show ?case by (cases s') auto
qed

lemma int_str_digits: "0 \<le> n \<Longrightarrow> int_str n = nat_str (nat n)"
  by (simp add: int_str_def)

lemma padded_inject:
  assumes "0 \<le> m" "0 \<le> n" "pad_start 6 48 (int_str m) = pad_start 6 48 (int_str n)"
  shows "m = n"
  using arg_cong [OF assms(3), of digits_val] assms(1,2) by (simp add: int_str_digits)

text \<open>
  C31: a journal number identifies its allocation: two numbers built from valid source and period codes
  and sequence values are equal only if source, period and sequence value are.
\<close>

theorem format_journal_number_inject:
  assumes "is_valid_source_code s" "is_valid_source_code s'" "is_valid_period_code p" "is_valid_period_code p'"
    and "0 \<le> m" "0 \<le> n"
  shows "format_journal_number s p m = format_journal_number s' p' n \<longleftrightarrow> s = s' \<and> p = p' \<and> m = n"
proof
  assume eq: "format_journal_number s p m = format_journal_number s' p' n"
  have dash: "js ''-'' = [cu CHR ''-'']" by (simp add: js_def)
  from eq have "s @ cu CHR ''-'' # (p @ cu CHR ''-'' # pad_start 6 (cu CHR ''0'') (int_str m))
      = s' @ cu CHR ''-'' # (p' @ cu CHR ''-'' # pad_start 6 (cu CHR ''0'') (int_str n))"
    by (simp add: format_journal_number_def dash)
  then have s: "s = s'" and r: "p @ cu CHR ''-'' # pad_start 6 (cu CHR ''0'') (int_str m)
      = p' @ cu CHR ''-'' # pad_start 6 (cu CHR ''0'') (int_str n)"
    using split_at_sep [OF source_not_dash [OF assms(1)] source_not_dash [OF assms(2)]] by auto
  have "length p = length p'" using assms(3,4) by (simp add: is_valid_period_code_def)
  with r have p: "p = p'" and "pad_start 6 48 (int_str m) = pad_start 6 48 (int_str n)" by simp_all
  then show "s = s' \<and> p = p' \<and> m = n" using padded_inject [OF assms(5,6)] s by simp
qed simp

theorem format_journal_number_inject_witness:
  "format_journal_number (js ''GJ'') (js ''2026-01'') 1 = format_journal_number (js ''GJ'') (js ''2026-01'') 2 \<longleftrightarrow> False"
  using format_journal_number_inject [of "js ''GJ''" "js ''GJ''" "js ''2026-01''" "js ''2026-01''" 1 2]
  by (simp add: is_valid_source_code_def is_valid_period_code_def js_def is_digit_def is_upper_def)

section \<open>Allocation\<close>

text \<open>What the client of an allocator relies on: each success hands out the next value of its key, a failure changes nothing.\<close>

locale allocator =
  fixes alloc :: "'q \<Rightarrow> 's \<Rightarrow> ('e + 'r) \<times> 's"
    and qkey :: "'q \<Rightarrow> 'k" and issued :: "'s \<Rightarrow> 'k \<Rightarrow> int" and seq_of :: "'r \<Rightarrow> int"
  assumes fails: "alloc q s = (Inl e, s') \<Longrightarrow> s' = s"
    and next_value: "alloc q s = (Inr r, s') \<Longrightarrow>
       seq_of r = issued s (qkey q) + 1 \<and> issued s' = (issued s)(qkey q := issued s (qkey q) + 1)"
begin

fun run :: "'q list \<Rightarrow> 's \<Rightarrow> ('k \<times> 'r) list \<times> 's" where
  "run [] s = ([], s)"
| "run (q # qs) s = (case alloc q s of
     (Inl e, s1) \<Rightarrow> run qs s1 | (Inr r, s1) \<Rightarrow> (case run qs s1 of (rs, s2) \<Rightarrow> ((qkey q, r) # rs, s2)))"

definition given_out :: "'k \<Rightarrow> ('k \<times> 'r) list \<Rightarrow> int list" where
  "given_out k rs = map (\<lambda>x. seq_of (snd x)) (filter (\<lambda>x. fst x = k) rs)"

lemma run_consecutive: "\<exists>n. given_out k (fst (run qs s)) = map (\<lambda>i. issued s k + 1 + int i) [0..<n]"
proof (induction qs arbitrary: s)
  case (Cons q qs)
  obtain x s1 where x: "alloc q s = (x, s1)" by (cases "alloc q s")
  show ?case
  proof (cases x)
    case (Inl e)
    then show ?thesis using Cons fails [of q s e s1] x by simp
  next
    case (Inr r)
    note nv = next_value [of q s r s1, OF x [unfolded Inr]]
    obtain rs s2 where rs: "run qs s1 = (rs, s2)" by (cases "run qs s1")
    obtain n where n: "given_out k rs = map (\<lambda>i. issued s1 k + 1 + int i) [0..<n]"
      using Cons.IH [of s1] rs by auto
    show ?thesis
    proof (cases "qkey q = k")
      case True
      have "given_out k ((qkey q, r) # rs) = map (\<lambda>i. issued s k + 1 + int i) (0 # map Suc [0..<n])"
        using True nv n by (simp add: given_out_def)
      also have "0 # map Suc [0..<n] = [0..<Suc n]" by (simp add: upt_conv_Cons map_Suc_upt del: upt_Suc)
      finally show ?thesis using x Inr rs by (simp del: upt_Suc) (rule exI, rule refl)
    next
      case False
      then show ?thesis using x Inr rs n nv by (auto simp: given_out_def)
    qed
  qed
qed (simp add: given_out_def exI [of _ 0])

end

definition issued :: "sequence_state \<Rightarrow> jstr \<times> jstr \<times> jstr \<times> jstr \<Rightarrow> int" where
  "issued st k = (case find_row (\<lambda>c. counter_key c = k) (sq_counters st) of None \<Rightarrow> 0 | Some c \<Rightarrow> jc_next c - 1)"

definition dto_key :: "allocate_dto \<Rightarrow> jstr \<times> jstr \<times> jstr \<times> jstr" where
  "dto_key dto = (al_tenant dto, to_upper (js_trim (al_source dto)), al_entity dto, al_period dto)"

lemma find_counter_update:
  "find_row (\<lambda>c. counter_key c = k') (update_rows (\<lambda>c. counter_key c = k) (\<lambda>c. c\<lparr>jc_next := jc_next c + 1\<rparr>) rows)
   = (case find_row (\<lambda>c. counter_key c = k') rows of None \<Rightarrow> None
      | Some c \<Rightarrow> Some (if k = k' then c\<lparr>jc_next := jc_next c + 1\<rparr> else c))"
  by (induction rows) (auto simp: counter_key_def)

lemma allocate_next:
  assumes "allocate dto st = (Inr r, st')"
  shows "ar_seq r = issued st (dto_key dto) + 1 \<and> issued st' = (issued st)(dto_key dto := issued st (dto_key dto) + 1)"
proof -
  let ?k = "dto_key dto"
  obtain n rows where c: "claim ?k (sq_counters st) = Some (n, rows)"
    and r: "ar_seq r = n" "sq_counters st' = rows"
    using assms by (auto simp: allocate_def Let_def dto_key_def split: option.splits)
  show ?thesis
  proof (cases "find_row (\<lambda>c. counter_key c = ?k) (sq_counters st)")
    case None
    then have "n = 1" "rows = sq_counters st @ [\<lparr>jc_tenant = al_tenant dto, jc_source = to_upper (js_trim (al_source dto)),
        jc_entity = al_entity dto, jc_period = al_period dto, jc_next = 2\<rparr>]"
      using c by (auto simp: claim_def dto_key_def)
    then show ?thesis using None r
      by (auto simp: issued_def fun_eq_iff counter_key_def dto_key_def split: option.splits)
  next
    case (Some c')
    then have "n = jc_next c'" "rows = update_rows (\<lambda>c. counter_key c = ?k) (\<lambda>c. c\<lparr>jc_next := jc_next c + 1\<rparr>) (sq_counters st)"
      using c by (auto simp: claim_def split: if_splits)
    then show ?thesis using Some r
      by (auto simp: issued_def fun_eq_iff find_counter_update split: option.splits)
  qed
qed

lemma allocate_fails: "allocate dto st = (Inl e, st') \<Longrightarrow> st' = st"
  by (auto simp: allocate_def Let_def split: option.splits)

interpretation sq: allocator allocate dto_key issued ar_seq
  using allocate_next allocate_fails by unfold_locales blast+

text \<open>A run of allocation requests: the key and the result of every success, in order.\<close>

fun allocate_all :: "allocate_dto list \<Rightarrow> sequence_state \<Rightarrow> ((jstr \<times> jstr \<times> jstr \<times> jstr) \<times> allocation_result) list \<times> sequence_state" where
  "allocate_all [] st = ([], st)"
| "allocate_all (d # ds) st = (case allocate d st of
     (Inl e, st1) \<Rightarrow> allocate_all ds st1
   | (Inr r, st1) \<Rightarrow> (case allocate_all ds st1 of (rs, st2) \<Rightarrow> ((dto_key d, r) # rs, st2)))"

lemma run_allocate_all: "sq.run ds st = allocate_all ds st"
  by (induction ds arbitrary: st) (auto split: sum.splits prod.splits)

text \<open>
  C27: whatever the order in which requests for different keys interleave, the successes of one key (tenant,
  source, entity, period) receive consecutive values starting after the last one issued: no value is handed
  out twice and none is skipped.
\<close>

theorem allocations_consecutive:
  "\<exists>n. map (\<lambda>x. ar_seq (snd x)) (filter (\<lambda>x. fst x = k) (fst (allocate_all ds st)))
        = map (\<lambda>i. issued st k + 1 + int i) [0..<n]"
  using sq.run_consecutive [of k ds st] by (simp add: run_allocate_all sq.given_out_def)

end
