(* ===== verification/AnalysisCodes.thy ===== *)
theory AnalysisCodes
  imports Outbox JournalPosting
begin

text \<open>
  \<open>domain/analysis-code.ts\<close> and \<open>application/analysis-code-service.ts\<close>: the tenant's registry of analysis
  code types and values (never deleted, versioned, deactivated), and the validation of a line's tags
  against it when a journal is posted.
\<close>

section \<open>Tag validation\<close>

definition max_tags_per_line :: nat where
  "max_tags_per_line = 3"

record tag_value_ref =
  tv_type :: jstr
  tv_active :: bool

text \<open>The registry as the validator sees it: a type's activity, a value's type and activity.\<close>

record tag_context =
  tc_types :: "jstr \<Rightarrow> bool option"
  tc_values :: "jstr \<Rightarrow> tag_value_ref option"

datatype tag_rule = TAG_CAP_EXCEEDED | DUPLICATE_TYPE_ON_LINE | UNKNOWN_TYPE | UNKNOWN_VALUE | INACTIVE_TYPE
  | INACTIVE_VALUE | VALUE_TYPE_MISMATCH

record tag_violation =
  tg_line :: "nat option"
  tg_rule :: tag_rule
  tg_message :: jstr
  tg_type :: "jstr option"
  tg_value :: "jstr option"

definition tag_viol :: "nat option \<Rightarrow> tag_rule \<Rightarrow> jstr \<Rightarrow> jstr option \<Rightarrow> jstr option \<Rightarrow> tag_violation" where
  "tag_viol line r msg ty v = \<lparr>tg_line = line, tg_rule = r, tg_message = msg, tg_type = ty, tg_value = v\<rparr>"

text \<open>The checks of a tag whose type has not occurred on the line yet.\<close>

definition check_tag :: "tag_context \<Rightarrow> nat option \<Rightarrow> analysis_tag \<Rightarrow> tag_violation list" where
  "check_tag ctx line tag =
     (let ty = tag_type_id tag; v = tag_value_id tag
      in case tc_types ctx ty of
           None \<Rightarrow> [tag_viol line UNKNOWN_TYPE (js ''Analysis code type '' @ ty @ js '' does not exist for this tenant.'') (Some ty) None]
         | Some False \<Rightarrow> [tag_viol line INACTIVE_TYPE (js ''Analysis code type '' @ ty @ js '' is inactive.'') (Some ty) None]
         | Some True \<Rightarrow>
           (case tc_values ctx v of
              None \<Rightarrow> [tag_viol line UNKNOWN_VALUE (js ''Analysis code value '' @ v @ js '' does not exist for this tenant.'') None (Some v)]
            | Some r \<Rightarrow>
                if tv_type r \<noteq> ty
                then [tag_viol line VALUE_TYPE_MISMATCH (js ''Value '' @ v @ js '' does not belong to type '' @ ty @ js ''.'') (Some ty) (Some v)]
                else if \<not> tv_active r
                then [tag_viol line INACTIVE_VALUE (js ''Analysis code value '' @ v @ js '' is inactive and cannot be used on a new line.'')
                        (Some ty) (Some v)]
                else []))"

fun check_tags :: "tag_context \<Rightarrow> nat option \<Rightarrow> jstr set \<Rightarrow> analysis_tag list \<Rightarrow> tag_violation list" where
  "check_tags ctx line seen [] = []"
| "check_tags ctx line seen (tag # tags) =
     (if tag_type_id tag \<in> seen
      then tag_viol line DUPLICATE_TYPE_ON_LINE (js ''Type '' @ tag_type_id tag
             @ js '' is tagged more than once on the same line; a line may carry at most one value per type.'')
             (Some (tag_type_id tag)) None # check_tags ctx line seen tags
      else check_tag ctx line tag @ check_tags ctx line (insert (tag_type_id tag) seen) tags)"

definition validate_line_tags :: "analysis_tag list \<Rightarrow> tag_context \<Rightarrow> nat option \<Rightarrow> tag_violation list" where
  "validate_line_tags tags ctx line =
     (if tags = [] then []
      else (if max_tags_per_line < length tags
            then [tag_viol line TAG_CAP_EXCEEDED (js ''A line may carry at most '' @ nat_str max_tags_per_line
                    @ js '' analysis tags (proposed default, BLK-13); '' @ nat_str (length tags) @ js '' were supplied.'') None None]
            else []) @ check_tags ctx line {} tags)"

definition is_valid_analysis_code :: "jstr \<Rightarrow> bool" where
  "is_valid_analysis_code code = (js_trim code \<noteq> [] \<and> length (js_trim code) \<le> 20)"

text \<open>What a clean line means: at most three tags, of distinct types, each an active value of an active type.\<close>

definition good_tag :: "tag_context \<Rightarrow> analysis_tag \<Rightarrow> bool" where
  "good_tag ctx tag \<longleftrightarrow> tc_types ctx (tag_type_id tag) = Some True
     \<and> tc_values ctx (tag_value_id tag) = Some \<lparr>tv_type = tag_type_id tag, tv_active = True\<rparr>"

lemma check_tag_Nil: "check_tag ctx line tag = [] \<longleftrightarrow> good_tag ctx tag"
  by (auto simp: check_tag_def good_tag_def Let_def split: option.splits bool.splits)

lemma check_tags_Nil:
  "check_tags ctx line seen tags = [] \<longleftrightarrow> list_all (good_tag ctx) tags \<and> distinct (map tag_type_id tags)
     \<and> seen \<inter> set (map tag_type_id tags) = {}"
  by (induction ctx line seen tags rule: check_tags.induct) (auto simp: check_tag_Nil)

text \<open>
  A line's tags pass exactly when there are at most three, no two of the same type, and each names an
  active value that belongs to the active type it is tagged with.
\<close>

theorem validate_line_tags_clean_iff:
  "validate_line_tags tags ctx line = [] \<longleftrightarrow>
     length tags \<le> 3 \<and> distinct (map tag_type_id tags) \<and> list_all (good_tag ctx) tags"
  by (auto simp: validate_line_tags_def max_tags_per_line_def check_tags_Nil)

section \<open>The registry\<close>

record code_type =
  ct_id :: jstr
  ct_tenant :: jstr
  ct_code :: jstr
  ct_name :: jstr
  ct_active :: bool
  ct_version :: int
  ct_deactivated_by :: "jstr option"
  ct_reason :: "jstr option"

record code_value =
  cv_id :: jstr
  cv_tenant :: jstr
  cv_type :: jstr
  cv_code :: jstr
  cv_name :: jstr
  cv_active :: bool
  cv_version :: int
  cv_deactivated_by :: "jstr option"
  cv_reason :: "jstr option"

record registry =
  rg_types :: "code_type list"
  rg_values :: "code_value list"
  rg_audit :: "audit_event list"
  rg_outbox :: "outbox_event list"

datatype registry_error =
    CodeNotFound jstr jstr
  | CodeConflict jstr jstr
  | CodeInvalid jstr jstr

text \<open>The two kinds of rows as JSON, as the audit images hold them.\<close>

definition type_json :: "code_type \<Rightarrow> json" where
  "type_json t = JObj [(js ''id'', JStr (ct_id t)), (js ''tenantId'', JStr (ct_tenant t)), (js ''code'', JStr (ct_code t)),
     (js ''name'', JStr (ct_name t)), (js ''isActive'', JBool (ct_active t)), (js ''version'', JNum (num_of_int (ct_version t)))]"

definition value_json :: "code_value \<Rightarrow> json" where
  "value_json v = JObj [(js ''id'', JStr (cv_id v)), (js ''tenantId'', JStr (cv_tenant v)), (js ''typeId'', JStr (cv_type v)),
     (js ''code'', JStr (cv_code v)), (js ''name'', JStr (cv_name v)), (js ''isActive'', JBool (cv_active v)),
     (js ''version'', JNum (num_of_int (cv_version v)))]"

definition record_change :: "jstr \<Rightarrow> string \<Rightarrow> jstr \<Rightarrow> string \<Rightarrow> json option \<Rightarrow> json \<Rightarrow> jstr \<Rightarrow> string \<Rightarrow> json \<Rightarrow> registry \<Rightarrow> registry" where
  "record_change tenant doc_type doc_id action before after actor event payload st =
     st\<lparr>rg_audit := rg_audit st @ [\<lparr>ae_tenant = tenant, ae_doc_type = js doc_type, ae_doc_id = doc_id, ae_action = js action,
          ae_before = before, ae_after = Some after, ae_actor = actor\<rparr>],
        rg_outbox := rg_outbox st @ [\<lparr>oe_tenant = tenant, oe_type = js event, oe_aggregate = doc_id, oe_payload = payload\<rparr>]\<rparr>"

definition find_type :: "registry \<Rightarrow> jstr \<Rightarrow> jstr \<Rightarrow> registry_error + code_type" where
  "find_type st tenant tid =
     (case find_row (\<lambda>t. ct_id t = tid \<and> ct_tenant t = tenant) (rg_types st) of
        None \<Rightarrow> Inl (CodeNotFound (js ''type'') tid) | Some t \<Rightarrow> Inr t)"

definition find_value :: "registry \<Rightarrow> jstr \<Rightarrow> jstr \<Rightarrow> registry_error + code_value" where
  "find_value st tenant vid =
     (case find_row (\<lambda>v. cv_id v = vid \<and> cv_tenant v = tenant) (rg_values st) of
        None \<Rightarrow> Inl (CodeNotFound (js ''value'') vid) | Some v \<Rightarrow> Inr v)"

definition get_type :: "registry \<Rightarrow> jstr \<Rightarrow> jstr \<Rightarrow> registry_error + code_type \<times> code_value list" where
  "get_type st tenant tid =
     bind_res (find_type st tenant tid) (\<lambda>t. Inr (t, sort_key cv_code (filter (\<lambda>v. cv_type v = tid) (rg_values st))))"

definition version_conflict :: "int \<Rightarrow> int \<Rightarrow> registry_error" where
  "version_conflict expected current = CodeConflict (js ''VERSION_CONFLICT'')
     (js ''Version conflict: expected '' @ int_str expected @ js '', current is '' @ int_str current)"

definition create_type :: "jstr \<Rightarrow> jstr \<Rightarrow> jstr \<Rightarrow> jstr \<Rightarrow> jstr \<Rightarrow> registry \<Rightarrow> (registry_error + code_type) \<times> registry" where
  "create_type new_id tenant code name actor st =
     (if \<not> is_valid_analysis_code code
      then (Inl (CodeInvalid (js ''INVALID_CODE'') (js ''Type code must be 1-20 characters.'')), st)
      else if list_ex (\<lambda>t. ct_tenant t = tenant \<and> ct_code t = code) (rg_types st)
      then (Inl (CodeConflict (js ''DUPLICATE_TYPE_CODE'')
             (js ''Analysis code type \"'' @ code @ js ''\" already exists for this tenant.'')), st)
      else
        let t = \<lparr>ct_id = new_id, ct_tenant = tenant, ct_code = code, ct_name = name, ct_active = True, ct_version = 1,
                 ct_deactivated_by = None, ct_reason = None\<rparr>
        in (Inr t, record_change tenant ''ANALYSIS_CODE_TYPE'' new_id ''CREATED'' None (type_json t) actor ''analysis.type.created''
              (JObj [(js ''code'', JStr code), (js ''name'', JStr name), (js ''actor'', JStr actor)])
              (st\<lparr>rg_types := rg_types st @ [t]\<rparr>)))"

definition changed_fields :: "jstr option \<Rightarrow> json" where
  "changed_fields name = JArr (case name of None \<Rightarrow> [] | Some _ \<Rightarrow> [JStr (js ''name'')])"

definition update_type :: "jstr \<Rightarrow> jstr \<Rightarrow> int \<Rightarrow> jstr option \<Rightarrow> jstr \<Rightarrow> registry \<Rightarrow> (registry_error + code_type) \<times> registry" where
  "update_type tenant tid version name actor st =
     (case find_type st tenant tid of
        Inl e \<Rightarrow> (Inl e, st)
      | Inr cur \<Rightarrow>
        if ct_version cur \<noteq> version then (Inl (version_conflict version (ct_version cur)), st)
        else if \<not> ct_active cur
        then (Inl (CodeInvalid (js ''TYPE_INACTIVE'') (js ''Cannot edit an inactive analysis code type.'')), st)
        else
          let t = cur\<lparr>ct_version := ct_version cur + 1, ct_name := (case name of None \<Rightarrow> ct_name cur | Some n \<Rightarrow> n)\<rparr>
          in (Inr t, record_change tenant ''ANALYSIS_CODE_TYPE'' tid ''UPDATED'' (Some (type_json cur)) (type_json t) actor
                ''analysis.type.updated'' (JObj [(js ''changes'', changed_fields name), (js ''actor'', JStr actor)])
                (st\<lparr>rg_types := update_rows (\<lambda>r. ct_id r = tid) (\<lambda>_. t) (rg_types st)\<rparr>)))"

definition deactivate_type :: "jstr \<Rightarrow> jstr \<Rightarrow> int \<Rightarrow> jstr \<Rightarrow> jstr \<Rightarrow> registry \<Rightarrow> (registry_error + code_type) \<times> registry" where
  "deactivate_type tenant tid version reason by_whom st =
     (case find_type st tenant tid of
        Inl e \<Rightarrow> (Inl e, st)
      | Inr cur \<Rightarrow>
        if \<not> ct_active cur
        then (Inl (CodeInvalid (js ''ALREADY_INACTIVE'') (js ''Analysis code type is already inactive.'')), st)
        else if ct_version cur \<noteq> version then (Inl (version_conflict version (ct_version cur)), st)
        else
          let n = length (filter (\<lambda>v. cv_type v = tid \<and> cv_active v) (rg_values st));
              t = cur\<lparr>ct_active := False, ct_version := ct_version cur + 1, ct_deactivated_by := Some by_whom, ct_reason := Some reason\<rparr>
          in if 0 < n
             then (Inl (CodeConflict (js ''TYPE_HAS_ACTIVE_VALUES'') (js ''Cannot deactivate: '' @ nat_str n
                    @ js '' active value(s) still reference this type. Deactivate them first.'')), st)
             else (Inr t, record_change tenant ''ANALYSIS_CODE_TYPE'' tid ''DEACTIVATED'' (Some (type_json cur)) (type_json t) by_whom
                ''analysis.type.deactivated'' (JObj [(js ''reason'', JStr reason), (js ''deactivatedBy'', JStr by_whom)])
                (st\<lparr>rg_types := update_rows (\<lambda>r. ct_id r = tid) (\<lambda>_. t) (rg_types st)\<rparr>)))"

definition create_value :: "jstr \<Rightarrow> jstr \<Rightarrow> jstr \<Rightarrow> jstr \<Rightarrow> jstr \<Rightarrow> jstr \<Rightarrow> registry \<Rightarrow> (registry_error + code_value) \<times> registry" where
  "create_value new_id tenant tid code name actor st =
     (if \<not> is_valid_analysis_code code
      then (Inl (CodeInvalid (js ''INVALID_CODE'') (js ''Value code must be 1-20 characters.'')), st)
      else case find_type st tenant tid of
        Inl e \<Rightarrow> (Inl e, st)
      | Inr t \<Rightarrow>
        if \<not> ct_active t
        then (Inl (CodeInvalid (js ''TYPE_INACTIVE'') (js ''Cannot add a value to an inactive analysis code type.'')), st)
        else if list_ex (\<lambda>v. cv_tenant v = tenant \<and> cv_type v = tid \<and> cv_code v = code) (rg_values st)
        then (Inl (CodeConflict (js ''DUPLICATE_VALUE_CODE'')
               (js ''Value code \"'' @ code @ js ''\" already exists for this type.'')), st)
        else
          let v = \<lparr>cv_id = new_id, cv_tenant = tenant, cv_type = tid, cv_code = code, cv_name = name, cv_active = True,
                   cv_version = 1, cv_deactivated_by = None, cv_reason = None\<rparr>
          in (Inr v, record_change tenant ''ANALYSIS_CODE_VALUE'' new_id ''CREATED'' None (value_json v) actor ''analysis.value.created''
                (JObj [(js ''typeId'', JStr tid), (js ''code'', JStr code), (js ''name'', JStr name), (js ''actor'', JStr actor)])
                (st\<lparr>rg_values := rg_values st @ [v]\<rparr>)))"

definition update_value :: "jstr \<Rightarrow> jstr \<Rightarrow> int \<Rightarrow> jstr option \<Rightarrow> jstr \<Rightarrow> registry \<Rightarrow> (registry_error + code_value) \<times> registry" where
  "update_value tenant vid version name actor st =
     (case find_value st tenant vid of
        Inl e \<Rightarrow> (Inl e, st)
      | Inr cur \<Rightarrow>
        if cv_version cur \<noteq> version then (Inl (version_conflict version (cv_version cur)), st)
        else if \<not> cv_active cur
        then (Inl (CodeInvalid (js ''VALUE_INACTIVE'') (js ''Cannot edit an inactive analysis code value.'')), st)
        else
          let v = cur\<lparr>cv_version := cv_version cur + 1, cv_name := (case name of None \<Rightarrow> cv_name cur | Some n \<Rightarrow> n)\<rparr>
          in (Inr v, record_change tenant ''ANALYSIS_CODE_VALUE'' vid ''UPDATED'' (Some (value_json cur)) (value_json v) actor
                ''analysis.value.updated'' (JObj [(js ''changes'', changed_fields name), (js ''actor'', JStr actor)])
                (st\<lparr>rg_values := update_rows (\<lambda>r. cv_id r = vid) (\<lambda>_. v) (rg_values st)\<rparr>)))"

definition deactivate_value :: "jstr \<Rightarrow> jstr \<Rightarrow> int \<Rightarrow> jstr \<Rightarrow> jstr \<Rightarrow> registry \<Rightarrow> (registry_error + code_value) \<times> registry" where
  "deactivate_value tenant vid version reason by_whom st =
     (case find_value st tenant vid of
        Inl e \<Rightarrow> (Inl e, st)
      | Inr cur \<Rightarrow>
        if \<not> cv_active cur
        then (Inl (CodeInvalid (js ''ALREADY_INACTIVE'') (js ''Analysis code value is already inactive.'')), st)
        else if cv_version cur \<noteq> version then (Inl (version_conflict version (cv_version cur)), st)
        else
          let v = cur\<lparr>cv_active := False, cv_version := cv_version cur + 1, cv_deactivated_by := Some by_whom, cv_reason := Some reason\<rparr>
          in (Inr v, record_change tenant ''ANALYSIS_CODE_VALUE'' vid ''DEACTIVATED'' (Some (value_json cur)) (value_json v) by_whom
                ''analysis.value.deactivated'' (JObj [(js ''reason'', JStr reason), (js ''deactivatedBy'', JStr by_whom)])
                (st\<lparr>rg_values := update_rows (\<lambda>r. cv_id r = vid) (\<lambda>_. v) (rg_values st)\<rparr>)))"

definition load_validation_context :: "registry \<Rightarrow> jstr \<Rightarrow> tag_context" where
  "load_validation_context st tenant =
     \<lparr>tc_types = (\<lambda>i. map_option ct_active (find_row (\<lambda>t. ct_tenant t = tenant \<and> ct_id t = i) (rg_types st))),
      tc_values = (\<lambda>i. map_option (\<lambda>v. \<lparr>tv_type = cv_type v, tv_active = cv_active v\<rparr>)
                        (find_row (\<lambda>v. cv_tenant v = tenant \<and> cv_id v = i) (rg_values st)))\<rparr>"


section \<open>Runs of the registry\<close>

inductive registry_step :: "registry \<Rightarrow> registry \<Rightarrow> bool" where
  step_create_type: "create_type new_id tenant code name actor st = (rt, st') \<Longrightarrow> new_id \<notin> ct_id ` set (rg_types st)
     \<Longrightarrow> registry_step st st'"
| step_update_type: "update_type tenant tid version nm actor st = (rt, st') \<Longrightarrow> registry_step st st'"
| step_deactivate_type: "deactivate_type tenant tid version reason by_whom st = (rt, st') \<Longrightarrow> registry_step st st'"
| step_create_value: "create_value new_id tenant tid code name actor st = (rv, st') \<Longrightarrow> new_id \<notin> cv_id ` set (rg_values st)
     \<Longrightarrow> registry_step st st'"
| step_update_value: "update_value tenant vid version nm actor st = (rv, st') \<Longrightarrow> registry_step st st'"
| step_deactivate_value: "deactivate_value tenant vid version reason by_whom st = (rv, st') \<Longrightarrow> registry_step st st'"

inductive_cases registry_stepE: "registry_step st st'"

text \<open>
  Identifiers are unique and an active value hangs under an active type of its own tenant.
\<close>

definition registry_inv :: "registry \<Rightarrow> bool" where
  "registry_inv st \<longleftrightarrow> distinct (map ct_id (rg_types st)) \<and> distinct (map cv_id (rg_values st))
     \<and> (\<forall>v \<in> set (rg_values st). cv_active v \<longrightarrow>
          (\<exists>t \<in> set (rg_types st). ct_id t = cv_type v \<and> ct_tenant t = cv_tenant v \<and> ct_active t))"

lemma record_change_tables [simp, db_simps]:
  "rg_types (record_change a b c d e f g h i st) = rg_types st"
  "rg_values (record_change a b c d e f g h i st) = rg_values st"
  by (simp_all add: record_change_def)

lemma find_type_Inr: "find_type st tenant tid = Inr t \<Longrightarrow> t \<in> set (rg_types st) \<and> ct_id t = tid \<and> ct_tenant t = tenant"
  by (auto simp: find_type_def dest: find_row_Some split: option.splits)

lemma find_value_Inr: "find_value st tenant vid = Inr v \<Longrightarrow> v \<in> set (rg_values st) \<and> cv_id v = vid \<and> cv_tenant v = tenant"
  by (auto simp: find_value_def dest: find_row_Some split: option.splits)

lemma map_key_update: "key r = k \<Longrightarrow> map key (update_rows (\<lambda>x. key x = k) (\<lambda>_. r) rows) = map key rows"
  by (induction rows) auto

lemma unique_row: "distinct (map key rows) \<Longrightarrow> r \<in> set rows \<Longrightarrow> s \<in> set rows \<Longrightarrow> key r = key s \<Longrightarrow> r = s"
  by (auto simp: distinct_map dest: inj_onD)

text \<open>Replacing a type by one that keeps identity, tenant and (or has no active values) activity keeps the invariant.\<close>

lemma replace_type_inv:
  assumes "registry_inv st" and "cur \<in> set (rg_types st)" and "ct_id t = ct_id cur" and "ct_tenant t = ct_tenant cur"
    and "ct_active t = ct_active cur \<or> (\<forall>v \<in> set (rg_values st). cv_type v = ct_id cur \<longrightarrow> \<not> cv_active v)"
    and "rg_types st' = update_rows (\<lambda>r. ct_id r = ct_id cur) (\<lambda>_. t) (rg_types st)" and "rg_values st' = rg_values st"
  shows "registry_inv st'"
proof -
  have u: "x = cur" if "x \<in> set (rg_types st)" "ct_id x = ct_id cur" for x
    using assms(1,2) that unique_row [of ct_id "rg_types st" x cur] by (simp add: registry_inv_def)
  have "\<exists>x \<in> set (rg_types st'). ct_id x = cv_type v \<and> ct_tenant x = cv_tenant v \<and> ct_active x"
    if v: "v \<in> set (rg_values st)" "cv_active v" for v
  proof -
    obtain x where x: "x \<in> set (rg_types st)" "ct_id x = cv_type v" "ct_tenant x = cv_tenant v" "ct_active x"
      using assms(1) v by (auto simp: registry_inv_def)
    show ?thesis
    proof (cases "ct_id x = ct_id cur")
      case True
      then have "t \<in> set (rg_types st')" using x(1) by (auto simp: assms(6) set_update_rows intro: rev_image_eqI)
      then show ?thesis using True u [OF x(1) True] x assms(3-5) v by (intro bexI [of _ t]) auto
    next
      case False
      then show ?thesis using x by (intro bexI [of _ x]) (auto simp: assms(6) set_update_rows intro!: rev_image_eqI)
    qed
  qed
  then show ?thesis using assms(1) map_key_update [of ct_id t "ct_id cur" "rg_types st"] assms(3)
    by (simp add: registry_inv_def assms(6,7))
qed

lemma replace_value_inv:
  assumes "registry_inv st" and "cur \<in> set (rg_values st)" and "cv_id v = cv_id cur" "cv_tenant v = cv_tenant cur" "cv_type v = cv_type cur"
    and "cv_active v \<longrightarrow> cv_active cur"
    and "rg_values st' = update_rows (\<lambda>r. cv_id r = cv_id cur) (\<lambda>_. v) (rg_values st)" and "rg_types st' = rg_types st"
  shows "registry_inv st'"
  using assms map_key_update [of cv_id v "cv_id cur" "rg_values st"]
  by (auto simp: registry_inv_def set_update_rows)

lemma registry_step_inv:
  assumes "registry_step st st'" and "registry_inv st"
  shows "registry_inv st'"
  using assms(1)
proof (cases rule: registry_step.cases)
  case (step_create_type new_id tenant code name actor rt)
  then show ?thesis using assms(2)
    by (auto simp: create_type_def registry_inv_def Let_def split: if_splits)
next
  case (step_update_type tenant tid version nm actor rt)
  show ?thesis
  proof (cases "find_type st tenant tid")
    case (Inr cur)
    note cur = find_type_Inr [OF Inr]
    let ?new = "cur\<lparr>ct_version := ct_version cur + 1, ct_name := (case nm of None \<Rightarrow> ct_name cur | Some n \<Rightarrow> n)\<rparr>"
    show ?thesis
    proof (cases "st' = st")
      case False
      then show ?thesis using step_update_type Inr cur
        by (intro replace_type_inv [where cur = cur and t = ?new, OF assms(2)])
          (auto simp: update_type_def Let_def filter_empty_conv split: if_splits)
    qed (use assms(2) in simp)
  qed (use step_update_type assms(2) in \<open>auto simp: update_type_def\<close>)
next
  case (step_deactivate_type tenant tid version reason by_whom rt)
  show ?thesis
  proof (cases "find_type st tenant tid")
    case (Inr cur)
    note cur = find_type_Inr [OF Inr]
    let ?new = "cur\<lparr>ct_active := False, ct_version := ct_version cur + 1, ct_deactivated_by := Some by_whom, ct_reason := Some reason\<rparr>"
    show ?thesis
    proof (cases "st' = st")
      case False
      then show ?thesis using step_deactivate_type Inr cur
        by (intro replace_type_inv [where cur = cur and t = ?new, OF assms(2)])
          (auto simp: deactivate_type_def Let_def filter_empty_conv split: if_splits)
    qed (use assms(2) in simp)
  qed (use step_deactivate_type assms(2) in \<open>auto simp: deactivate_type_def\<close>)
next
  case (step_create_value new_id tenant tid code name actor rv)
  then show ?thesis using assms(2)
    by (auto simp: create_value_def registry_inv_def Let_def split: sum.splits if_splits dest!: find_type_Inr) blast
next
  case (step_update_value tenant vid version nm actor rv)
  show ?thesis
  proof (cases "find_value st tenant vid")
    case (Inr cur)
    note cur = find_value_Inr [OF Inr]
    let ?new = "cur\<lparr>cv_version := cv_version cur + 1, cv_name := (case nm of None \<Rightarrow> cv_name cur | Some n \<Rightarrow> n)\<rparr>"
    show ?thesis
    proof (cases "st' = st")
      case False
      then show ?thesis using step_update_value Inr cur
        by (intro replace_value_inv [where cur = cur and v = ?new, OF assms(2)])
          (auto simp: update_value_def Let_def filter_empty_conv split: if_splits)
    qed (use assms(2) in simp)
  qed (use step_update_value assms(2) in \<open>auto simp: update_value_def\<close>)
next
  case (step_deactivate_value tenant vid version reason by_whom rv)
  show ?thesis
  proof (cases "find_value st tenant vid")
    case (Inr cur)
    note cur = find_value_Inr [OF Inr]
    let ?new = "cur\<lparr>cv_active := False, cv_version := cv_version cur + 1, cv_deactivated_by := Some by_whom, cv_reason := Some reason\<rparr>"
    show ?thesis
    proof (cases "st' = st")
      case False
      then show ?thesis using step_deactivate_value Inr cur
        by (intro replace_value_inv [where cur = cur and v = ?new, OF assms(2)])
          (auto simp: deactivate_value_def Let_def filter_empty_conv split: if_splits)
    qed (use assms(2) in simp)
  qed (use step_deactivate_value assms(2) in \<open>auto simp: deactivate_value_def\<close>)
qed

inductive registry_reach :: "registry \<Rightarrow> bool" where
  empty_registry: "rg_types st = [] \<Longrightarrow> rg_values st = [] \<Longrightarrow> registry_reach st"
| registry_next: "registry_reach st \<Longrightarrow> registry_step st st' \<Longrightarrow> registry_reach st'"


definition demo_registry0 :: registry where
  "demo_registry0 = \<lparr>rg_types = [], rg_values = [], rg_audit = [], rg_outbox = []\<rparr>"

definition demo_registry1 :: registry where
  "demo_registry1 = snd (create_type (js ''t'') (js ''T'') (js ''CAMP'') (js ''Campaign'') (js ''u'') demo_registry0)"

definition demo_registry2 :: registry where
  "demo_registry2 = snd (create_value (js ''v'') (js ''T'') (js ''t'') (js ''SPRING'') (js ''Spring'') (js ''u'') demo_registry1)"

lemma demo_codes: "is_valid_analysis_code (js ''CAMP'')" "is_valid_analysis_code (js ''SPRING'')"
  by code_simp+

lemma demo_registry1_tables: "rg_types demo_registry1 = [\<lparr>ct_id = js ''t'', ct_tenant = js ''T'', ct_code = js ''CAMP'',
    ct_name = js ''Campaign'', ct_active = True, ct_version = 1, ct_deactivated_by = None, ct_reason = None\<rparr>]"
    "rg_values demo_registry1 = []"
  by (simp_all add: demo_registry1_def create_type_def demo_codes demo_registry0_def Let_def)

lemma demo_registry2_values: "rg_values demo_registry2 = [\<lparr>cv_id = js ''v'', cv_tenant = js ''T'', cv_type = js ''t'',
    cv_code = js ''SPRING'', cv_name = js ''Spring'', cv_active = True, cv_version = 1, cv_deactivated_by = None, cv_reason = None\<rparr>]"
  by (simp add: demo_registry2_def create_value_def demo_codes find_type_def demo_registry1_tables Let_def)

lemma demo_registry_reach: "registry_reach demo_registry2"
proof -
  have "registry_reach demo_registry0" by (rule empty_registry) (simp_all add: demo_registry0_def)
  moreover have "registry_step demo_registry0 demo_registry1" unfolding demo_registry1_def
    by (rule step_create_type, rule prod.collapse [symmetric]) (simp add: demo_registry0_def)
  moreover have "registry_step demo_registry1 demo_registry2" unfolding demo_registry2_def
    by (rule step_create_value, rule prod.collapse [symmetric]) (simp add: demo_registry1_tables)
  ultimately show ?thesis by (blast intro: registry_next)
qed


end
