(* ===== verification/AccountTree.thy ===== *)
theory AccountTree
  imports JsString Prelude
begin

text \<open>
  \<open>domain/account-tree.ts\<close>: the single-parent account hierarchy as a flat list of accounts with parent
  links. Every walk keeps a set of visited identifiers, so it stops on data that already holds a cycle.
\<close>

definition max_tree_depth :: nat where
  "max_tree_depth = 6"

record tree_account =
  ta_id :: jstr
  ta_parent :: "jstr option"
  ta_number :: jstr
  ta_name :: jstr
  ta_type :: jstr
  ta_normal :: jstr
  ta_postable :: bool
  ta_status :: jstr

text \<open>\<open>new Map(pairs)\<close>: a later pair of the same key replaces an earlier one.\<close>

definition by_id :: "tree_account list \<Rightarrow> jstr \<Rightarrow> tree_account option" where
  "by_id accounts = map_of (rev (map (\<lambda>a. (ta_id a, a)) accounts))"

text \<open>A cursor is truthy when it is a non-empty identifier.\<close>

definition live :: "jstr option \<Rightarrow> jstr option" where
  "live c = (case c of None \<Rightarrow> None | Some s \<Rightarrow> if s = [] then None else Some s)"

definition parent_of :: "tree_account list \<Rightarrow> jstr \<Rightarrow> jstr option" where
  "parent_of accounts x = (case by_id accounts x of None \<Rightarrow> None | Some a \<Rightarrow> live (ta_parent a))"

lemma dom_by_id: "dom (by_id accounts) = ta_id ` set accounts"
  by (simp add: by_id_def dom_map_of_conv_image_fst image_image)

lemma finite_by_id [simp]: "finite (dom (by_id accounts))"
  by (simp add: dom_by_id)

lemma parent_of_dom: "parent_of accounts x = Some y \<Longrightarrow> x \<in> dom (by_id accounts)"
  by (auto simp: parent_of_def split: option.splits)

section \<open>Walking up\<close>

text \<open>The loop of \<open>wouldCreateCycle\<close>: does the walk from the cursor meet the account?\<close>

function climbs_to :: "tree_account list \<Rightarrow> jstr \<Rightarrow> jstr set \<Rightarrow> jstr option \<Rightarrow> bool" where
  "climbs_to accounts target seen None = False"
| "climbs_to accounts target seen (Some c) =
     (if c = target then True else if c \<in> seen then False
      else climbs_to accounts target (insert c seen) (parent_of accounts c))"
  by pat_completeness auto
termination
proof (relation "measures [\<lambda>(accounts, _, seen, _). card (dom (by_id accounts) - seen), \<lambda>(_, _, _, c). if c = None then 0 else 1]",
    simp)
  fix accounts :: "tree_account list" and target :: jstr and seen :: "jstr set" and c :: jstr
  assume c: "c \<notin> seen"
  show "((accounts, target, insert c seen, parent_of accounts c), accounts, target, seen, Some c)
      \<in> measures [\<lambda>(accounts, _, seen, _). card (dom (by_id accounts) - seen), \<lambda>(_, _, _, c). if c = None then 0 else 1]"
  proof (cases "c \<in> dom (by_id accounts)")
    case True
    then have "dom (by_id accounts) - insert c seen \<subset> dom (by_id accounts) - seen" using c by auto
    then have "card (dom (by_id accounts) - insert c seen) < card (dom (by_id accounts) - seen)"
      by (intro psubset_card_mono) simp_all
    then show ?thesis by simp
  next
    case False
    then have "dom (by_id accounts) - insert c seen = dom (by_id accounts) - seen" by auto
    moreover have "parent_of accounts c = None" using False parent_of_dom by fastforce
    ultimately show ?thesis by simp
  qed
qed

definition would_create_cycle :: "jstr \<Rightarrow> jstr option \<Rightarrow> tree_account list \<Rightarrow> bool" where
  "would_create_cycle account_id new_parent accounts =
     (case new_parent of None \<Rightarrow> False
      | Some p \<Rightarrow> if p = account_id then True else climbs_to accounts account_id {} (live (Some p)))"

text \<open>The loop of \<open>depthOf\<close>: the number of links followed.\<close>

function climb_length :: "tree_account list \<Rightarrow> jstr set \<Rightarrow> jstr option \<Rightarrow> nat" where
  "climb_length accounts seen None = 0"
| "climb_length accounts seen (Some c) =
     (if c \<in> seen then 1 else Suc (climb_length accounts (insert c seen) (parent_of accounts c)))"
  by pat_completeness auto
termination
proof (relation "measures [\<lambda>(accounts, seen, _). card (dom (by_id accounts) - seen), \<lambda>(_, _, c). if c = None then 0 else 1]",
    simp)
  fix accounts :: "tree_account list" and seen :: "jstr set" and c :: jstr
  assume c: "c \<notin> seen"
  show "((accounts, insert c seen, parent_of accounts c), accounts, seen, Some c)
      \<in> measures [\<lambda>(accounts, seen, _). card (dom (by_id accounts) - seen), \<lambda>(_, _, c). if c = None then 0 else 1]"
  proof (cases "c \<in> dom (by_id accounts)")
    case True
    then have "dom (by_id accounts) - insert c seen \<subset> dom (by_id accounts) - seen" using c by auto
    then have "card (dom (by_id accounts) - insert c seen) < card (dom (by_id accounts) - seen)"
      by (intro psubset_card_mono) simp_all
    then show ?thesis by simp
  next
    case False
    then have "dom (by_id accounts) - insert c seen = dom (by_id accounts) - seen" by auto
    moreover have "parent_of accounts c = None" using False parent_of_dom by fastforce
    ultimately show ?thesis by simp
  qed
qed

definition depth_of :: "jstr \<Rightarrow> tree_account list \<Rightarrow> nat" where
  "depth_of account_id accounts = 1 + climb_length accounts {} (parent_of accounts account_id)"

section \<open>Walking down\<close>

definition children_of :: "tree_account list \<Rightarrow> jstr \<Rightarrow> jstr list" where
  "children_of accounts x = map ta_id (filter (\<lambda>a. live (ta_parent a) = Some x) accounts)"

text \<open>
  The recursive \<open>walk\<close> of \<open>subtreeHeight\<close> with its shared guard set, by a fuel that bounds the nesting of
  its calls: \<open>None\<close> is out of fuel. Every nested call but the last adds an identifier to the guard.
\<close>

fun walk :: "nat \<Rightarrow> (jstr \<Rightarrow> jstr list) \<Rightarrow> jstr \<Rightarrow> jstr set \<Rightarrow> (nat \<times> jstr set) option"
and walk_kids :: "nat \<Rightarrow> (jstr \<Rightarrow> jstr list) \<Rightarrow> jstr list \<Rightarrow> jstr set \<Rightarrow> (nat list \<times> jstr set) option" where
  "walk 0 kids x guard = None"
| "walk (Suc n) kids x guard =
     (if x \<in> guard then Some (0, guard)
      else if kids x = [] then Some (0, insert x guard)
      else (case walk_kids n kids (kids x) (insert x guard) of
              None \<Rightarrow> None | Some (hs, guard') \<Rightarrow> Some (1 + Max (set hs), guard')))"
| "walk_kids n kids [] guard = Some ([], guard)"
| "walk_kids n kids (x # xs) guard =
     (case walk n kids x guard of
        None \<Rightarrow> None
      | Some (h, guard') \<Rightarrow> (case walk_kids n kids xs guard' of
          None \<Rightarrow> None | Some (hs, guard'') \<Rightarrow> Some (h # hs, guard'')))"

definition subtree_height :: "jstr \<Rightarrow> tree_account list \<Rightarrow> nat option" where
  "subtree_height account_id accounts =
     map_option fst (walk (length accounts + 2) (children_of accounts) account_id {})"

definition projected_max_depth :: "jstr \<Rightarrow> jstr option \<Rightarrow> tree_account list \<Rightarrow> nat option" where
  "projected_max_depth account_id new_parent accounts =
     map_option (\<lambda>h. (case new_parent of None \<Rightarrow> 1 | Some p \<Rightarrow> depth_of p accounts + 1) + h)
       (subtree_height account_id accounts)"

section \<open>The nested tree\<close>

datatype tree_node = Node tree_account "tree_node list"

text \<open>
  \<open>nodes\<close> is the map's values: one per identifier, in order of first insertion, with the last data. The
  comparison of account numbers is \<open>localeCompare\<close>, a parameter. Nodes on a cycle hang under no root.
\<close>

definition node_values :: "tree_account list \<Rightarrow> tree_account list" where
  "node_values accounts = map snd (foldl (\<lambda>m a. put (ta_id a) a m) [] accounts)"

text \<open>A stable insertion sort by a three-way comparison, as \<open>Array.prototype.sort\<close>.\<close>

fun insert_by :: "('a \<Rightarrow> 'a \<Rightarrow> bool) \<Rightarrow> 'a \<Rightarrow> 'a list \<Rightarrow> 'a list" where
  "insert_by le x [] = [x]"
| "insert_by le x (y # ys) = (if le x y then x # y # ys else y # insert_by le x ys)"

fun sort_by :: "('a \<Rightarrow> 'a \<Rightarrow> bool) \<Rightarrow> 'a list \<Rightarrow> 'a list" where
  "sort_by le [] = []"
| "sort_by le (x # xs) = insert_by le x (sort_by le xs)"

fun expand :: "nat \<Rightarrow> (jstr \<Rightarrow> jstr \<Rightarrow> bool) \<Rightarrow> tree_account list \<Rightarrow> tree_account \<Rightarrow> tree_node" where
  "expand 0 le nodes a = Node a []"
| "expand (Suc n) le nodes a =
     Node a (map (expand n le nodes) (sort_by (\<lambda>x y. le (ta_number x) (ta_number y))
       (filter (\<lambda>b. live (ta_parent b) = Some (ta_id a)) nodes)))"

definition build_tree :: "(jstr \<Rightarrow> jstr \<Rightarrow> bool) \<Rightarrow> tree_account list \<Rightarrow> tree_node list" where
  "build_tree le accounts =
     (let nodes = node_values accounts; ids = set (map ta_id nodes)
      in map (expand (length nodes) le nodes) (sort_by (\<lambda>x y. le (ta_number x) (ta_number y))
           (filter (\<lambda>a. case live (ta_parent a) of None \<Rightarrow> True | Some p \<Rightarrow> p \<notin> ids) nodes)))"


section \<open>The parent relation\<close>

definition parent_rel :: "tree_account list \<Rightarrow> (jstr \<times> jstr) set" where
  "parent_rel accounts = {(x, y). parent_of accounts x = Some y}"

lemma parent_rel_iff [simp]: "(x, y) \<in> parent_rel accounts \<longleftrightarrow> parent_of accounts x = Some y"
  by (simp add: parent_rel_def)

lemma finite_parent_rel: "finite (parent_rel accounts)"
proof -
  have "parent_rel accounts \<subseteq> (\<lambda>x. (x, the (parent_of accounts x))) ` dom (by_id accounts)"
    using parent_of_dom by (force simp: parent_rel_def)
  then show ?thesis by (rule finite_subset) simp
qed

fun ancestor :: "tree_account list \<Rightarrow> nat \<Rightarrow> jstr \<Rightarrow> jstr option" where
  "ancestor accounts 0 x = Some x"
| "ancestor accounts (Suc n) x = Option.bind (parent_of accounts x) (ancestor accounts n)"

lemma ancestor_add: "ancestor accounts (m + n) x = Option.bind (ancestor accounts m x) (ancestor accounts n)"
proof (induction m arbitrary: x)
  case (Suc m)
  then show ?case by (cases "parent_of accounts x") auto
qed simp

lemma ancestor_relpow: "ancestor accounts n x = Some y \<longleftrightarrow> (x, y) \<in> parent_rel accounts ^^ n"
proof (induction n arbitrary: x)
  case (Suc n)
  show ?case
  proof
    assume "ancestor accounts (Suc n) x = Some y"
    then obtain z where "parent_of accounts x = Some z" "ancestor accounts n z = Some y" by (auto simp: bind_eq_Some_conv)
    then show "(x, y) \<in> parent_rel accounts ^^ Suc n" using Suc by (intro relpow_Suc_I2) auto
  next
    assume "(x, y) \<in> parent_rel accounts ^^ Suc n"
    then obtain z where "(x, z) \<in> parent_rel accounts" "(z, y) \<in> parent_rel accounts ^^ n" by (metis relpow_Suc_D2)
    then show "ancestor accounts (Suc n) x = Some y" using Suc by auto
  qed
qed auto

lemma climbs_sound: "climbs_to accounts t seen c \<Longrightarrow> \<exists>x. c = Some x \<and> (x, t) \<in> (parent_rel accounts)\<^sup>*"
proof (induction accounts t seen c rule: climbs_to.induct)
  case (2 accounts t seen c)
  show ?case
  proof (cases "c = t")
    case False
    then have "climbs_to accounts t (insert c seen) (parent_of accounts c)" and "c \<notin> seen"
      using 2(2) by (auto split: if_splits)
    then obtain x where "parent_of accounts c = Some x" "(x, t) \<in> (parent_rel accounts)\<^sup>*" using 2(1) False by blast
    then show ?thesis by (auto intro: converse_rtrancl_into_rtrancl)
  qed simp
qed simp

lemma climbs_complete:
  "ancestor accounts n c = Some t \<Longrightarrow> \<forall>m < n. ancestor accounts m c \<noteq> Some t
     \<Longrightarrow> \<forall>m < n. \<forall>x. ancestor accounts m c = Some x \<longrightarrow> x \<notin> seen \<Longrightarrow> climbs_to accounts t seen (Some c)"
proof (induction n arbitrary: c seen)
  case (Suc n)
  have c: "c \<noteq> t" "c \<notin> seen" using Suc.prems(2,3) by (auto dest: spec [of _ 0])
  obtain d where d: "parent_of accounts c = Some d" "ancestor accounts n d = Some t"
    using Suc.prems(1) by (auto simp: bind_eq_Some_conv)
  have "climbs_to accounts t (insert c seen) (Some d)"
  proof (rule Suc.IH [OF d(2)])
    show "\<forall>m < n. ancestor accounts m d \<noteq> Some t"
      using Suc.prems(2) d(1) by (auto dest: spec [of _ "Suc m" for m])
    show "\<forall>m < n. \<forall>x. ancestor accounts m d = Some x \<longrightarrow> x \<notin> insert c seen"
    proof (intro allI impI)
      fix m x assume m: "m < n" "ancestor accounts m d = Some x"
      have "x \<noteq> c"
      proof
        assume "x = c"
        then have loop: "ancestor accounts (Suc m) c = Some c" using m d(1) by simp
        have "ancestor accounts (Suc m + (n - m)) c = ancestor accounts (n - m) c"
          unfolding ancestor_add loop by simp
        moreover have "Suc m + (n - m) = Suc n" using m by simp
        ultimately have "ancestor accounts (n - m) c = Some t" using Suc.prems(1) by simp
        then show False using Suc.prems(2) m by (metis diff_le_self le_imp_less_Suc)
      qed
      moreover have "x \<notin> seen" using Suc.prems(3) m d(1) by (auto dest: spec [of _ "Suc m"])
      ultimately show "x \<notin> insert c seen" by simp
    qed
  qed
  then show ?case using c d by simp
qed simp

lemma climbs_iff: "climbs_to accounts t {} (Some c) \<longleftrightarrow> (c, t) \<in> (parent_rel accounts)\<^sup>*"
proof
  assume "(c, t) \<in> (parent_rel accounts)\<^sup>*"
  then obtain n where n: "ancestor accounts n c = Some t" by (auto simp: rtrancl_power ancestor_relpow)
  define k where "k = (LEAST n. ancestor accounts n c = Some t)"
  have "ancestor accounts k c = Some t" unfolding k_def by (rule LeastI) (rule n)
  moreover have "\<forall>m < k. ancestor accounts m c \<noteq> Some t" unfolding k_def by (auto dest: not_less_Least)
  ultimately show "climbs_to accounts t {} (Some c)" by (rule climbs_complete) simp
next
  assume "climbs_to accounts t {} (Some c)"
  from climbs_sound [OF this] show "(c, t) \<in> (parent_rel accounts)\<^sup>*" by (elim exE conjE) simp
qed

lemma would_create_cycle_iff_aux:
  assumes "p \<noteq> []"
  shows "would_create_cycle account (Some p) accounts \<longleftrightarrow> (p, account) \<in> (parent_rel accounts)\<^sup>*"
  using assms climbs_iff [of accounts account p] by (auto simp: would_create_cycle_def live_def simp del: climbs_to.simps)

text \<open>
  The cycle test is exact: for a non-empty parent identifier it answers yes just when the account is the
  proposed parent or one of its ancestors, whatever cycles the data may already hold.
\<close>

theorem would_create_cycle_iff:
  assumes "p \<noteq> []"
  shows "would_create_cycle account (Some p) accounts \<longleftrightarrow> (p, account) \<in> (parent_rel accounts)\<^sup>*"
  using would_create_cycle_iff_aux [OF assms] .

definition demo_node :: "jstr \<Rightarrow> jstr option \<Rightarrow> tree_account" where
  "demo_node x p = \<lparr>ta_id = x, ta_parent = p, ta_number = x, ta_name = x, ta_type = [], ta_normal = [],
     ta_postable = False, ta_status = []\<rparr>"

definition demo_chart :: "tree_account list" where
  "demo_chart = [demo_node [1] None, demo_node [2] (Some [1]), demo_node [3] (Some [1]), demo_node [4] (Some [3])]"

lemma demo_parent: "parent_of demo_chart x = (if x = [2] \<or> x = [3] then Some [1] else if x = [4] then Some [3] else None)"
  by (simp add: parent_of_def by_id_def demo_chart_def demo_node_def live_def)

theorem would_create_cycle_iff_witness:
  "would_create_cycle [1] (Some [4]) demo_chart \<longleftrightarrow> ([4], [1]) \<in> (parent_rel demo_chart)\<^sup>*"
  by (rule would_create_cycle_iff) simp

section \<open>Levels\<close>

text \<open>The level of an account: one more than its parent's, one at a root.\<close>

inductive level :: "tree_account list \<Rightarrow> jstr \<Rightarrow> nat \<Rightarrow> bool" for accounts where
  level_root: "parent_of accounts x = None \<Longrightarrow> level accounts x 1"
| level_child: "parent_of accounts x = Some p \<Longrightarrow> level accounts p n \<Longrightarrow> level accounts x (Suc n)"

lemma level_ex:
  assumes "acyclic (parent_rel accounts)"
  shows "\<exists>n. level accounts x n"
proof -
  have "wf ((parent_rel accounts)\<inverse>)" using finite_parent_rel assms by (rule finite_acyclic_wf_converse)
  then show ?thesis
  proof (induction x rule: wf_induct_rule)
    case (less x)
    show ?case
    proof (cases "parent_of accounts x")
      case None
      then show ?thesis by (blast intro: level_root)
    next
      case (Some p)
      then have "\<exists>n. level accounts p n" by (intro less) simp
      then show ?thesis using Some by (blast intro: level_child)
    qed
  qed
qed

lemma climb_length_level:
  "level accounts c n \<Longrightarrow> acyclic (parent_rel accounts) \<Longrightarrow> \<forall>y. (c, y) \<in> (parent_rel accounts)\<^sup>* \<longrightarrow> y \<notin> seen
     \<Longrightarrow> climb_length accounts seen (Some c) = n"
proof (induction arbitrary: seen rule: level.induct)
  case (level_root x)
  then show ?case by auto
next
  case (level_child x p n)
  have "climb_length accounts (insert x seen) (Some p) = n"
  proof (rule level_child.IH [OF level_child.prems(1)], intro allI impI)
    fix y assume y: "(p, y) \<in> (parent_rel accounts)\<^sup>*"
    have xp: "(x, p) \<in> parent_rel accounts" using level_child.hyps(1) by simp
    have "y \<noteq> x"
    proof
      assume "y = x"
      then have "(x, x) \<in> (parent_rel accounts)\<^sup>+" using rtrancl_into_trancl2 [OF xp y] by simp
      then show False using level_child.prems(1) by (auto simp: acyclic_def)
    qed
    moreover have "y \<notin> seen" using level_child.prems(2) converse_rtrancl_into_rtrancl [OF xp y] by blast
    ultimately show "y \<notin> insert x seen" by simp
  qed
  then show ?case using level_child.hyps(1) level_child.prems(2) by auto
qed

lemma depth_of_level:
  assumes "acyclic (parent_rel accounts)" and "level accounts x n"
  shows "depth_of x accounts = n"
  using assms(2)
proof cases
  case level_root
  then show ?thesis by (simp add: depth_of_def)
next
  case (level_child p m)
  then show ?thesis using climb_length_level [OF level_child(3) assms(1), of "{}"] by (simp add: depth_of_def)
qed

lemma depth_of_parent:
  assumes "acyclic (parent_rel accounts)"
  shows "depth_of x accounts = (case parent_of accounts x of None \<Rightarrow> 1 | Some p \<Rightarrow> Suc (depth_of p accounts))"
proof (cases "parent_of accounts x")
  case None
  then show ?thesis by (simp add: depth_of_def)
next
  case (Some p)
  obtain n where n: "level accounts p n" using level_ex [OF assms] by blast
  show ?thesis using depth_of_level [OF assms n] depth_of_level [OF assms level.level_child [OF Some n]] Some by simp
qed

lemma depth_of_descendant:
  assumes "acyclic (parent_rel accounts)" and "ancestor accounts k y = Some x"
  shows "depth_of y accounts = k + depth_of x accounts"
  using assms(2)
proof (induction k arbitrary: y)
  case (Suc k)
  then show ?case using depth_of_parent [OF assms(1), of y] by (auto simp: bind_eq_Some_conv)
qed simp


section \<open>Heights\<close>

lemma walk_grows:
  "walk n kids x guard = Some (h, guard') \<Longrightarrow> insert x guard \<subseteq> guard'"
  "walk_kids n kids xs guard = Some (hs, guard') \<Longrightarrow> guard \<subseteq> guard' \<and> length hs = length xs"
proof (induction n kids x guard and n kids xs guard arbitrary: h guard' and hs guard' rule: walk_walk_kids.induct)
  case (2 n kids x guard)
  then show ?case by (fastforce split: if_splits option.splits)
next
  case (4 n kids x xs guard)
  then show ?case by (fastforce split: option.splits)
qed auto

lemma walk_fuel:
  assumes "finite A"
  shows "(\<forall>y. set (kids y) \<subseteq> A) \<Longrightarrow> card (A - guard) + (if x \<in> A then 1 else 2) \<le> n \<Longrightarrow> walk n kids x guard \<noteq> None"
    and "(\<forall>y. set (kids y) \<subseteq> A) \<Longrightarrow> set xs \<subseteq> A \<Longrightarrow> card (A - guard) + 1 \<le> n \<Longrightarrow> walk_kids n kids xs guard \<noteq> None"
proof (induction n kids x guard and n kids xs guard rule: walk_walk_kids.induct)
  case (2 n kids x guard)
  show ?case
  proof (cases "x \<in> guard \<or> kids x = []")
    case False
    have "card (A - insert x guard) + 1 \<le> n"
    proof (cases "x \<in> A")
      case True
      then have "A - insert x guard \<subset> A - guard" using False by auto
      then have "card (A - insert x guard) < card (A - guard)" using assms by (intro psubset_card_mono) auto
      then show ?thesis using 2 True by simp
    next
      case False
      then have "A - insert x guard = A - guard" by auto
      then show ?thesis using 2 False by simp
    qed
    then have "walk_kids n kids (kids x) (insert x guard) \<noteq> None" using 2 False by auto
    then show ?thesis using False by auto
  qed auto
next
  case (4 n kids x xs guard)
  then have "walk n kids x guard \<noteq> None" by auto
  then obtain h guard' where w: "walk n kids x guard = Some (h, guard')" by auto
  have "A - guard' \<subseteq> A - guard" using walk_grows(1) [OF w] by auto
  then have "card (A - guard') \<le> card (A - guard)" using assms by (intro card_mono) auto
  then have "walk_kids n kids xs guard' \<noteq> None" using 4 w by auto
  then show ?case using w by auto
qed (auto split: if_splits)

lemma subtree_height_exists: "\<exists>h. subtree_height x accounts = Some h"
proof -
  let ?A = "ta_id ` set accounts"
  have "set (children_of accounts y) \<subseteq> ?A" for y by (auto simp: children_of_def)
  moreover have "card (?A - {}) + 2 \<le> length accounts + 2" by (simp add: card_image_le card_length order_trans [OF card_image_le card_length])
  ultimately have "walk (length accounts + 2) (children_of accounts) x {} \<noteq> None"
    by (intro walk_fuel(1) [where A = ?A]) auto
  then show ?thesis by (auto simp: subtree_height_def)
qed

text \<open>C35: \<open>subtreeHeight\<close> always returns: the fuel never runs out, whatever the data, cycles included.\<close>

theorem subtree_height_returns: "\<exists>h. subtree_height x accounts = Some h"
  by (rule subtree_height_exists)

definition subtree :: "tree_account list \<Rightarrow> jstr \<Rightarrow> jstr set" where
  "subtree accounts x = {y. \<exists>k. ancestor accounts k y = Some x}"

definition height_is :: "tree_account list \<Rightarrow> jstr \<Rightarrow> nat \<Rightarrow> bool" where
  "height_is accounts x h \<longleftrightarrow> (\<forall>y k. ancestor accounts k y = Some x \<longrightarrow> k \<le> h) \<and> (\<exists>y. ancestor accounts h y = Some x)"

lemma subtree_self [simp]: "x \<in> subtree accounts x"
  by (auto simp: subtree_def intro: exI [of _ 0])

lemma no_return: "acyclic (parent_rel accounts) \<Longrightarrow> ancestor accounts (Suc n) x \<noteq> Some x"
  unfolding ancestor_relpow acyclic_def trancl_power by blast

lemma by_id_id: "by_id accounts y = Some a \<Longrightarrow> ta_id a = y"
  unfolding by_id_def by (drule map_of_SomeD) auto

lemma by_id_distinct:
  assumes "distinct (map ta_id accounts)"
  shows "by_id accounts x = Some a \<longleftrightarrow> a \<in> set accounts \<and> ta_id a = x"
proof -
  have "distinct (map fst (rev (map (\<lambda>a. (ta_id a, a)) accounts)))"
    using assms by (simp add: rev_map [symmetric] comp_def)
  from map_of_eq_Some_iff [OF this] show ?thesis by (auto simp: by_id_def)
qed

lemma children_iff:
  assumes "distinct (map ta_id accounts)"
  shows "c \<in> set (children_of accounts x) \<longleftrightarrow> parent_of accounts c = Some x"
proof
  assume "c \<in> set (children_of accounts x)"
  then obtain a where a: "a \<in> set accounts" "ta_id a = c" "live (ta_parent a) = Some x" by (auto simp: children_of_def)
  then have "by_id accounts c = Some a" using by_id_distinct [OF assms] by simp
  then show "parent_of accounts c = Some x" using a(3) by (simp add: parent_of_def)
next
  assume "parent_of accounts c = Some x"
  then obtain a where a: "by_id accounts c = Some a" "live (ta_parent a) = Some x" by (auto simp: parent_of_def split: option.splits)
  then have "a \<in> set accounts" "ta_id a = c" using by_id_distinct [OF assms] by auto
  then show "c \<in> set (children_of accounts x)" using a(2) by (auto simp: children_of_def)
qed

lemma ancestor_one: "ancestor accounts (Suc 0) y = parent_of accounts y"
  by (cases "parent_of accounts y") simp_all

lemma ancestor_last: "ancestor accounts (Suc k) y = Option.bind (ancestor accounts k y) (parent_of accounts)"
  using ancestor_add [of accounts k "Suc 0" y] by (simp only: ancestor_one [abs_def] add_Suc_right add_0_right)

lemma ancestor_last_some:
  "ancestor accounts (Suc k) y = Some x \<longleftrightarrow> (\<exists>c. ancestor accounts k y = Some c \<and> parent_of accounts c = Some x)"
  unfolding ancestor_last bind_eq_Some_conv ..

lemma subtree_children:
  assumes "distinct (map ta_id accounts)"
  shows "subtree accounts x = insert x (\<Union>c \<in> set (children_of accounts x). subtree accounts c)"
proof -
  have "y \<in> subtree accounts x \<longleftrightarrow> y = x \<or> (\<exists>c. parent_of accounts c = Some x \<and> y \<in> subtree accounts c)" for y
  proof
    assume "y \<in> subtree accounts x"
    then obtain k where k: "ancestor accounts k y = Some x" by (auto simp: subtree_def)
    show "y = x \<or> (\<exists>c. parent_of accounts c = Some x \<and> y \<in> subtree accounts c)"
    proof (cases k)
      case (Suc j)
      then obtain c where "ancestor accounts j y = Some c" "parent_of accounts c = Some x"
        using k unfolding Suc ancestor_last_some by blast
      then show ?thesis unfolding subtree_def by blast
    qed (use k in simp)
  next
    assume "y = x \<or> (\<exists>c. parent_of accounts c = Some x \<and> y \<in> subtree accounts c)"
    then show "y \<in> subtree accounts x"
    proof
      assume "\<exists>c. parent_of accounts c = Some x \<and> y \<in> subtree accounts c"
      then obtain c k where "parent_of accounts c = Some x" "ancestor accounts k y = Some c" by (auto simp: subtree_def)
      then have "ancestor accounts (Suc k) y = Some x" unfolding ancestor_last by simp
      then show ?thesis unfolding subtree_def by blast
    qed simp
  qed
  then show ?thesis using children_iff [OF assms] by auto
qed

lemma siblings_disjoint:
  assumes "acyclic (parent_rel accounts)" and "parent_of accounts c = Some x" "parent_of accounts d = Some x" "c \<noteq> d"
  shows "subtree accounts c \<inter> subtree accounts d = {}"
proof -
  have False if "ancestor accounts i y = Some c" "ancestor accounts j y = Some d" "i \<le> j"
    and p: "parent_of accounts c = Some x" "parent_of accounts d = Some x" "c \<noteq> d" for i j y c d
  proof -
    have "ancestor accounts (i + (j - i)) y = ancestor accounts (j - i) c" unfolding ancestor_add that(1) by simp
    then have cd: "ancestor accounts (j - i) c = Some d" using that by simp
    then obtain m where m: "j - i = Suc m" using p(3) by (cases "j - i") auto
    then have "ancestor accounts m x = Some d" using cd p(1) by simp
    then have "ancestor accounts (Suc m) x = Some x" unfolding ancestor_last using p(2) by simp
    then show False using no_return [OF assms(1)] by blast
  qed
  note key = this
  show ?thesis
  proof (rule equals0I)
    fix y assume "y \<in> subtree accounts c \<inter> subtree accounts d"
    then obtain i j where ij: "ancestor accounts i y = Some c" "ancestor accounts j y = Some d"
      unfolding subtree_def by blast
    show False
    proof (cases "i \<le> j")
      case True
      then show ?thesis using key [OF ij] assms(2-4) by blast
    next
      case False
      then show ?thesis using key [OF ij(2,1)] assms(2-4) by force
    qed
  qed
qed

lemma distinct_children: "distinct (map ta_id accounts) \<Longrightarrow> distinct (children_of accounts x)"
  unfolding children_of_def by (rule distinct_map_filter)

lemma height_leaf:
  assumes "distinct (map ta_id accounts)" and "children_of accounts x = []"
  shows "height_is accounts x 0" and "subtree accounts x = {x}"
proof -
  have none: "parent_of accounts c \<noteq> Some x" for c using children_iff [OF assms(1), of c x] assms(2) by simp
  have "k = 0" if "ancestor accounts k y = Some x" for k y
    using that none by (cases k) (simp_all only: ancestor_last_some, simp_all)
  then show "height_is accounts x 0" unfolding height_is_def by (auto intro: exI [of _ x])
  show "subtree accounts x = {x}" using subtree_children [OF assms(1), of x] assms(2) by simp
qed

lemma height_node:
  assumes "distinct (map ta_id accounts)" and "children_of accounts x \<noteq> []"
    and "list_all2 (height_is accounts) (children_of accounts x) hs"
  shows "height_is accounts x (1 + Max (set hs))"
proof -
  let ?kids = "children_of accounts x"
  have len: "length hs = length ?kids" using list_all2_lengthD [OF assms(3)] by simp
  then have ne: "set hs \<noteq> {}" using assms(2) by (cases hs) auto
  have below: "\<exists>h \<in> set hs. height_is accounts c h" if "c \<in> set ?kids" for c
    using that assms(3) by (metis in_set_conv_nth list_all2_conv_all_nth)
  have above: "\<exists>c \<in> set ?kids. height_is accounts c h" if "h \<in> set hs" for h
    using that assms(3) by (metis in_set_conv_nth list_all2_conv_all_nth)
  have "k \<le> 1 + Max (set hs)" if k: "ancestor accounts k y = Some x" for y k
  proof (cases k)
    case (Suc j)
    then obtain c where c: "ancestor accounts j y = Some c" "parent_of accounts c = Some x"
      using k unfolding Suc ancestor_last_some by blast
    then obtain h where "h \<in> set hs" "height_is accounts c h" using below children_iff [OF assms(1)] by blast
    then have "j \<le> h" "h \<le> Max (set hs)" using c(1) unfolding height_is_def by auto
    then show ?thesis using Suc by simp
  qed simp
  moreover have "\<exists>y. ancestor accounts (1 + Max (set hs)) y = Some x"
  proof -
    have "Max (set hs) \<in> set hs" using ne by simp
    then obtain c where c: "c \<in> set ?kids" "height_is accounts c (Max (set hs))" using above by blast
    then obtain y where "ancestor accounts (Max (set hs)) y = Some c" unfolding height_is_def by blast
    moreover have "parent_of accounts c = Some x" using c(1) children_iff [OF assms(1)] by simp
    ultimately have "ancestor accounts (Suc (Max (set hs))) y = Some x" unfolding ancestor_last_some by blast
    then show ?thesis by (simp del: ancestor.simps) blast
  qed
  ultimately show ?thesis unfolding height_is_def by blast
qed

lemma walk_height:
  assumes "acyclic (parent_rel accounts)" and "distinct (map ta_id accounts)"
  shows "walk n kids x guard = Some (h, guard') \<Longrightarrow> kids = children_of accounts \<Longrightarrow> guard \<inter> subtree accounts x = {}
      \<Longrightarrow> height_is accounts x h \<and> guard' = guard \<union> subtree accounts x"
    and "walk_kids n kids xs guard = Some (hs, guard') \<Longrightarrow> kids = children_of accounts \<Longrightarrow> distinct xs
      \<Longrightarrow> \<forall>c \<in> set xs. parent_of accounts c = Some p \<and> guard \<inter> subtree accounts c = {}
      \<Longrightarrow> list_all2 (height_is accounts) xs hs \<and> guard' = guard \<union> (\<Union>c \<in> set xs. subtree accounts c)"
proof (induction n kids x guard and n kids xs guard arbitrary: h guard' and hs guard' p rule: walk_walk_kids.induct)
  case (2 n kids x guard)
  have x: "x \<notin> guard" using 2(4) subtree_self [of x accounts] by auto
  show ?case
  proof (cases "kids x = []")
    case True
    then show ?thesis using 2(2,3) x height_leaf [OF assms(2), of x] by auto
  next
    case False
    then obtain hs where hs: "walk_kids n kids (kids x) (insert x guard) = Some (hs, guard')" "h = 1 + Max (set hs)"
      using 2(2) x by (auto split: option.splits)
    have par: "\<forall>c \<in> set (kids x). parent_of accounts c = Some x \<and> insert x guard \<inter> subtree accounts c = {}"
    proof
      fix c assume c: "c \<in> set (kids x)"
      then have p: "parent_of accounts c = Some x" using children_iff [OF assms(2)] 2(3) by simp
      have "x \<notin> subtree accounts c"
      proof
        assume "x \<in> subtree accounts c"
        then obtain k where "ancestor accounts k x = Some c" unfolding subtree_def by blast
        then have "ancestor accounts (Suc k) x = Some x" using p unfolding ancestor_last_some by blast
        then show False using no_return [OF assms(1)] by blast
      qed
      moreover have "subtree accounts c \<subseteq> subtree accounts x"
        using subtree_children [OF assms(2), of x] c 2(3) by auto
      ultimately show "parent_of accounts c = Some x \<and> insert x guard \<inter> subtree accounts c = {}" using 2(4) p by auto
    qed
    have "list_all2 (height_is accounts) (kids x) hs \<and> guard' = insert x guard \<union> (\<Union>c \<in> set (kids x). subtree accounts c)"
      using 2(1) [OF x False hs(1) 2(3) _ par] distinct_children [OF assms(2)] 2(3) by simp
    then show ?thesis using height_node [OF assms(2), of x hs] subtree_children [OF assms(2), of x] 2(3) False hs(2) by auto
  qed
next
  case (4 n kids x xs guard)
  obtain h g hs' where w: "walk n kids x guard = Some (h, g)" "walk_kids n kids xs g = Some (hs', guard')" "hs = h # hs'"
    using 4(3) by (auto split: option.splits)
  have one: "height_is accounts x h \<and> g = guard \<union> subtree accounts x" using 4(1) [OF w(1) 4(4)] 4(6) by simp
  have "subtree accounts x \<inter> subtree accounts c = {}" if "c \<in> set xs" for c
    using siblings_disjoint [OF assms(1), of x p c] 4(5,6) that by auto
  then have "\<forall>c \<in> set xs. parent_of accounts c = Some p \<and> g \<inter> subtree accounts c = {}" using 4(6) one by auto
  then have "list_all2 (height_is accounts) xs hs' \<and> guard' = g \<union> (\<Union>c \<in> set xs. subtree accounts c)"
    using 4(2) [OF w(1) refl w(2) 4(4)] 4(5) by auto
  then show ?case using one w(3) by auto
qed auto

lemma subtree_height_is:
  assumes "acyclic (parent_rel accounts)" and "distinct (map ta_id accounts)" and "subtree_height x accounts = Some h"
  shows "height_is accounts x h"
proof -
  obtain g where "walk (length accounts + 2) (children_of accounts) x {} = Some (h, g)"
    using assms(3) unfolding subtree_height_def by (auto simp del: walk.simps)
  from walk_height(1) [OF assms(1,2) this refl] show ?thesis by simp
qed

section \<open>Moving a subtree\<close>

text \<open>The effect of writing one account's parent link.\<close>

definition set_parent :: "jstr \<Rightarrow> jstr option \<Rightarrow> tree_account list \<Rightarrow> tree_account list" where
  "set_parent x p accounts = map (\<lambda>a. if ta_id a = x then a\<lparr>ta_parent := p\<rparr> else a) accounts"

lemma set_parent_ids [simp]: "map ta_id (set_parent x p accounts) = map ta_id accounts"
  by (simp add: set_parent_def comp_def if_distrib cong: if_cong)

lemma map_of_rekey:
  assumes "\<And>a. ta_id (f a) = ta_id a"
  shows "map_of (map (\<lambda>a. (ta_id a, a)) (map f as)) y = map_option f (map_of (map (\<lambda>a. (ta_id a, a)) as) y)"
  by (induction as) (simp_all add: assms)

lemma by_id_set_parent:
  "by_id (set_parent x p accounts) y = map_option (\<lambda>a. if y = x then a\<lparr>ta_parent := p\<rparr> else a) (by_id accounts y)"
proof -
  let ?f = "\<lambda>a. if ta_id a = x then a\<lparr>ta_parent := p\<rparr> else a"
  have "by_id (set_parent x p accounts) y = map_option ?f (by_id accounts y)"
    unfolding by_id_def set_parent_def rev_map by (rule map_of_rekey) simp
  also have "\<dots> = map_option (\<lambda>a. if y = x then a\<lparr>ta_parent := p\<rparr> else a) (by_id accounts y)"
    by (rule option.map_cong) (auto simp: by_id_id)
  finally show ?thesis .
qed

lemma parent_of_set_parent:
  "parent_of (set_parent x p accounts) y =
     (if y = x then (if x \<in> dom (by_id accounts) then live p else None) else parent_of accounts y)"
  by (auto simp: parent_of_def by_id_set_parent split: option.splits)

lemma set_parent_acyclic:
  assumes "acyclic (parent_rel accounts)" and "\<not> would_create_cycle x p accounts"
  shows "acyclic (parent_rel (set_parent x p accounts))"
proof (cases "live p")
  case None
  then have "parent_rel (set_parent x p accounts) \<subseteq> parent_rel accounts"
    by (auto simp: parent_rel_def parent_of_set_parent split: if_splits)
  then show ?thesis using assms(1) acyclic_subset by blast
next
  case (Some q)
  then have q: "p = Some q" "q \<noteq> []" by (auto simp: live_def split: option.splits if_splits)
  then have "(q, x) \<notin> (parent_rel accounts)\<^sup>*"
    using assms(2) would_create_cycle_iff_aux [OF q(2), of x accounts] by simp
  then have "acyclic (insert (x, q) (parent_rel accounts))" using assms(1) by simp
  moreover have "parent_rel (set_parent x p accounts) \<subseteq> insert (x, q) (parent_rel accounts)"
    using Some by (auto simp: parent_rel_def parent_of_set_parent split: if_splits)
  ultimately show ?thesis using acyclic_subset by blast
qed

lemma level_outside:
  "level accounts y n \<Longrightarrow> (y, x) \<notin> (parent_rel accounts)\<^sup>* \<Longrightarrow> level (set_parent x p accounts) y n"
proof (induction rule: level.induct)
  case (level_root y)
  then have "y \<noteq> x" by auto
  then show ?case using level_root by (intro level.level_root) (simp add: parent_of_set_parent)
next
  case (level_child y q n)
  then have "y \<noteq> x" by auto
  moreover have "(q, x) \<notin> (parent_rel accounts)\<^sup>*"
    using level_child.prems level_child.hyps(1) by (meson converse_rtrancl_into_rtrancl parent_rel_iff)
  ultimately show ?case using level_child by (intro level.level_child [of _ _ q]) (simp_all add: parent_of_set_parent)
qed

lemma level_inside:
  assumes "acyclic (parent_rel accounts)" and "level (set_parent x p accounts) x m"
  shows "ancestor accounts k y = Some x \<Longrightarrow> level (set_parent x p accounts) y (k + m)"
proof (induction k arbitrary: y)
  case (Suc k)
  then obtain z where z: "parent_of accounts y = Some z" "ancestor accounts k z = Some x"
    by (auto simp: bind_eq_Some_conv)
  have "y \<noteq> x" using Suc.prems no_return [OF assms(1)] by blast
  then show ?case using Suc.IH [OF z(2)] z(1) level.level_child by (simp add: parent_of_set_parent)
qed (use assms(2) in simp)

definition shallow :: "tree_account list \<Rightarrow> bool" where
  "shallow accounts \<longleftrightarrow> (\<forall>a \<in> set accounts. depth_of (ta_id a) accounts \<le> max_tree_depth)"

lemma moved_level:
  assumes "acyclic (parent_rel accounts)" and "\<not> would_create_cycle x p accounts"
    and "projected_max_depth x p accounts = Some d" and "subtree_height x accounts = Some h"
  shows "\<exists>m. level (set_parent x p accounts) x m \<and> m + h \<le> d"
proof -
  let ?new = "set_parent x p accounts"
  have d: "d = (case p of None \<Rightarrow> 1 | Some p \<Rightarrow> depth_of p accounts + 1) + h"
    using assms(3,4) by (simp add: projected_max_depth_def)
  show ?thesis
  proof (cases "parent_of ?new x")
    case None
    then have "level ?new x 1" by (rule level_root)
    moreover have "1 + h \<le> d" unfolding d by (simp split: option.splits)
    ultimately show ?thesis by blast
  next
    case (Some q)
    then have q: "p = Some q" "q \<noteq> []" by (auto simp: parent_of_set_parent live_def split: if_splits option.splits)
    then have out: "(q, x) \<notin> (parent_rel accounts)\<^sup>*"
      using assms(2) would_create_cycle_iff_aux [OF q(2), of x accounts] by simp
    obtain n where n: "level accounts q n" using level_ex [OF assms(1)] by blast
    have "level ?new x (Suc n)" using Some level_outside [OF n out] by (rule level_child)
    moreover have "Suc n + h \<le> d" using depth_of_level [OF assms(1) n] q(1) d by simp
    ultimately show ?thesis by blast
  qed
qed

lemma moved_keeps_tree:
  assumes "acyclic (parent_rel accounts)" and "distinct (map ta_id accounts)" and "shallow accounts"
    and "\<not> would_create_cycle x p accounts"
    and "projected_max_depth x p accounts = Some d" and "d \<le> max_tree_depth"
  shows "acyclic (parent_rel (set_parent x p accounts)) \<and> shallow (set_parent x p accounts)"
proof -
  let ?new = "set_parent x p accounts"
  have acyc: "acyclic (parent_rel ?new)" using assms(1,4) by (rule set_parent_acyclic)
  obtain h where h: "subtree_height x accounts = Some h" using assms(5) by (auto simp: projected_max_depth_def)
  obtain m where m: "level ?new x m" "m + h \<le> d" using moved_level [OF assms(1,4,5) h] by blast
  have "depth_of y ?new \<le> max_tree_depth" if y: "y \<in> ta_id ` set accounts" for y
  proof (cases "(y, x) \<in> (parent_rel accounts)\<^sup>*")
    case True
    then obtain k where k: "ancestor accounts k y = Some x" by (auto simp: rtrancl_power ancestor_relpow)
    have "k \<le> h" using subtree_height_is [OF assms(1,2) h] k by (simp add: height_is_def)
    then show ?thesis using depth_of_level [OF acyc level_inside [OF assms(1) m(1) k]] m(2) assms(6) by simp
  next
    case False
    obtain n where n: "level accounts y n" using level_ex [OF assms(1)] by blast
    have "n \<le> max_tree_depth" using depth_of_level [OF assms(1) n] assms(3) y by (auto simp: shallow_def)
    then show ?thesis using depth_of_level [OF acyc level_outside [OF n False]] by simp
  qed
  then have "shallow ?new" unfolding shallow_def by (metis image_eqI set_map set_parent_ids)
  then show ?thesis using acyc by simp
qed

text \<open>
  The two guards of a re-parent are enough: on an acyclic chart of distinct identifiers at most six levels
  deep, a move that the cycle test lets through and whose projected depth is at most six leaves the chart
  acyclic and at most six levels deep, the whole moved subtree included.
\<close>

theorem guarded_move_keeps_tree:
  assumes "acyclic (parent_rel accounts)" and "distinct (map ta_id accounts)" and "shallow accounts"
    and "\<not> would_create_cycle x p accounts"
    and "projected_max_depth x p accounts = Some d" and "d \<le> max_tree_depth"
  shows "acyclic (parent_rel (set_parent x p accounts)) \<and> shallow (set_parent x p accounts)"
  using assms by (rule moved_keeps_tree)

lemma demo_acyclic: "acyclic (parent_rel demo_chart)"
proof -
  have "parent_rel demo_chart \<subseteq> {([2], [1]), ([3], [1]), ([4], [3])}"
    by (auto simp: parent_rel_def demo_parent split: if_splits)
  moreover have "acyclic {([2 :: 16 word], [1 :: 16 word]), ([3], [1]), ([4], [3])}"
    by (rule acyclicI_order [where f = "\<lambda>x. unat (List.hd x)"]) auto
  ultimately show ?thesis using acyclic_subset by blast
qed

theorem guarded_move_keeps_tree_witness:
  "acyclic (parent_rel (set_parent [3] (Some [2]) demo_chart)) \<and> shallow (set_parent [3] (Some [2]) demo_chart)
     \<and> projected_max_depth [3] (Some [2]) demo_chart = Some 4"
proof -
  have d: "projected_max_depth [3] (Some [2]) demo_chart = Some 4" by code_simp
  have n: "\<not> would_create_cycle [3] (Some [2]) demo_chart" by code_simp
  have s: "shallow demo_chart" by code_simp
  have i: "distinct (map ta_id demo_chart)" by code_simp
  show ?thesis using guarded_move_keeps_tree [OF demo_acyclic i s n d] d by (simp add: max_tree_depth_def)
qed

end
