(* ===== verification/AccountService.thy ===== *)
theory AccountService
  imports AccountTree Outbox
begin

text \<open>
  \<open>domain/gl-account.ts\<close> and \<open>application/account-service.ts\<close>: the entity-scoped chart-of-accounts master
  with its creation, update, deactivation and re-parenting. A balance is a \<open>NUMERIC(15,2)\<close> column, here a
  whole number of cents. The random identifiers, the clock and the parser of dates are arguments.
\<close>

section \<open>Account rules\<close>

definition account_types :: "jstr list" where
  "account_types = [js ''ASSET'', js ''LIABILITY'', js ''EQUITY'', js ''REVENUE'', js ''EXPENSE'']"

definition normal_balances :: "jstr list" where
  "normal_balances = [js ''DR'', js ''CR'']"

text \<open>The \<open>switch\<close> has no default branch: another type gives \<open>undefined\<close>.\<close>

definition default_normal_balance :: "jstr \<Rightarrow> jstr option" where
  "default_normal_balance t =
     (if t = js ''ASSET'' \<or> t = js ''EXPENSE'' then Some (js ''DR'')
      else if t = js ''LIABILITY'' \<or> t = js ''EQUITY'' \<or> t = js ''REVENUE'' then Some (js ''CR'')
      else None)"

definition is_contra :: "jstr \<Rightarrow> jstr \<Rightarrow> bool" where
  "is_contra t nb = (Some nb \<noteq> default_normal_balance t)"

definition is_valid_account_number :: "jstr \<Rightarrow> bool" where
  "is_valid_account_number n = (length n = 5 \<and> list_all is_digit n)"

definition is_valid_type :: "jstr \<Rightarrow> bool" where
  "is_valid_type t = (t \<in> set account_types)"

definition is_valid_normal_balance :: "jstr \<Rightarrow> bool" where
  "is_valid_normal_balance b = (b \<in> set normal_balances)"

definition is_valid_name :: "jstr \<Rightarrow> bool" where
  "is_valid_name n = (1 \<le> length n \<and> length n \<le> 120)"

section \<open>Rows, requests and errors\<close>

record gl_account =
  ga_id :: jstr
  ga_tenant :: jstr
  ga_entity :: jstr
  ga_number :: jstr
  ga_name :: jstr
  ga_type :: jstr
  ga_normal :: jstr
  ga_contra :: bool
  ga_contra_reason :: "jstr option"
  ga_postable :: bool
  ga_parent :: "jstr option"
  ga_parent_from :: "int option"
  ga_status :: jstr
  ga_balance :: int
  ga_has_postings :: bool
  ga_schedule :: "jstr option"
  ga_version :: int

record reparent_row =
  rr_tenant :: jstr
  rr_entity :: jstr
  rr_account :: jstr
  rr_old_parent :: "jstr option"
  rr_new_parent :: "jstr option"
  rr_effective_from :: int
  rr_actor :: jstr

record account_state =
  ac_accounts :: "gl_account list"
  ac_reparents :: "reparent_row list"
  ac_audit :: "audit_event list"
  ac_outbox :: "outbox_event list"

datatype account_error =
    AccountValidation jstr jstr
  | DuplicateAccount jstr jstr
  | TypeImmutable jstr
  | NonZeroBalance jstr jstr
  | AccountNotFound jstr
  | CycleDetected jstr jstr
  | MaxDepthExceeded nat
  | ParentNotSummary jstr
  | ParentNotFound jstr
  | InvalidDate

record create_account_dto =
  ca_tenant :: jstr
  ca_entity :: jstr
  ca_number :: jstr
  ca_name :: jstr
  ca_type :: jstr
  ca_normal :: "jstr option"
  ca_postable :: "bool option"
  ca_contra_reason :: "jstr option"
  ca_parent :: "jstr option"
  ca_actor :: jstr

text \<open>The schedule code of an update may be absent, \<open>null\<close>, or a code.\<close>

record update_account_dto =
  ua_tenant :: jstr
  ua_id :: jstr
  ua_actor :: jstr
  ua_name :: "jstr option"
  ua_type :: "jstr option"
  ua_normal :: "jstr option"
  ua_postable :: "bool option"
  ua_contra_reason :: "jstr option"
  ua_schedule :: "jstr option option"

record reparent_account_dto =
  rd_tenant :: jstr
  rd_id :: jstr
  rd_parent :: "jstr option"
  rd_effective_from :: "jstr option"
  rd_actor :: jstr

definition to_tree_account :: "gl_account \<Rightarrow> tree_account" where
  "to_tree_account a = \<lparr>ta_id = ga_id a, ta_parent = ga_parent a, ta_number = ga_number a, ta_name = ga_name a,
     ta_type = ga_type a, ta_normal = ga_normal a, ta_postable = ga_postable a, ta_status = ga_status a\<rparr>"

section \<open>Helpers\<close>

text \<open>\<open>Decimal.toString\<close> of an amount of cents: no trailing zeros after the point.\<close>

definition decimal_str :: "int \<Rightarrow> jstr" where
  "decimal_str c =
     (let m = \<bar>c\<bar>; f = m mod 100
      in (if c < 0 then js ''-'' else []) @ int_str (m div 100)
         @ (if f = 0 then [] else if f mod 10 = 0 then js ''.'' @ int_str (f div 10) else js ''.'' @ padded 2 f))"

definition load_account :: "account_state \<Rightarrow> jstr \<Rightarrow> jstr \<Rightarrow> account_error + gl_account" where
  "load_account st tenant i =
     (case find_row (\<lambda>a. ga_id a = i) (ac_accounts st) of
        None \<Rightarrow> Inl (AccountNotFound i)
      | Some a \<Rightarrow> if ga_tenant a \<noteq> tenant then Inl (AccountNotFound i) else Inr a)"

definition assert_number :: "jstr \<Rightarrow> account_error + unit" where
  "assert_number n = (if is_valid_account_number n then Inr ()
     else Inl (AccountValidation (js ''INVALID_ACCOUNT_NUMBER'') (js ''Account number must be 5 digits, got \"'' @ n @ js ''\"'')))"

definition assert_name :: "jstr \<Rightarrow> account_error + unit" where
  "assert_name n = (if is_valid_name n then Inr ()
     else Inl (AccountValidation (js ''INVALID_NAME'') (js ''Account name must be 1-120 characters'')))"

definition assert_type :: "jstr \<Rightarrow> account_error + jstr" where
  "assert_type t = (if is_valid_type t then Inr t
     else Inl (AccountValidation (js ''INVALID_TYPE'') (js ''Invalid account type \"'' @ t @ js ''\"'')))"

definition resolve_normal_balance :: "jstr \<Rightarrow> jstr option \<Rightarrow> jstr option \<Rightarrow> account_error + jstr option" where
  "resolve_normal_balance t requested contra_reason =
     (case requested of
        None \<Rightarrow> Inr (default_normal_balance t)
      | Some r \<Rightarrow>
        if \<not> is_valid_normal_balance r
        then Inl (AccountValidation (js ''INVALID_NORMAL_BALANCE'') (js ''Invalid normal balance \"'' @ r @ js ''\"''))
        else if is_contra t r \<and> \<not> given_trimmed contra_reason
        then Inl (AccountValidation (js ''CONTRA_REASON_REQUIRED'')
               (js ''Contra normal balance ('' @ r @ js '') for '' @ t @ js '' account requires a reason''))
        else Inr (Some r))"

definition null_or_str :: "jstr option \<Rightarrow> json" where
  "null_or_str v = (case v of None \<Rightarrow> JNull | Some s \<Rightarrow> JStr s)"

definition account_snapshot :: "gl_account \<Rightarrow> json" where
  "account_snapshot a = JObj [(js ''accountNumber'', JStr (ga_number a)), (js ''name'', JStr (ga_name a)),
     (js ''type'', JStr (ga_type a)), (js ''normalBalance'', JStr (ga_normal a)), (js ''isContra'', JBool (ga_contra a)),
     (js ''contraReason'', null_or_str (ga_contra_reason a)), (js ''postable'', JBool (ga_postable a)),
     (js ''status'', JStr (ga_status a)), (js ''version'', JNum (num_of_int (ga_version a))),
     (js ''scheduleCode'', null_or_str (ga_schedule a))]"

definition account_audit :: "jstr \<Rightarrow> jstr \<Rightarrow> string \<Rightarrow> jstr \<Rightarrow> json option \<Rightarrow> json \<Rightarrow> account_state \<Rightarrow> account_state" where
  "account_audit tenant doc_id action actor before after st =
     st\<lparr>ac_audit := ac_audit st @ [\<lparr>ae_tenant = tenant, ae_doc_type = js ''gl_account'', ae_doc_id = doc_id,
          ae_action = js action, ae_before = before, ae_after = Some after, ae_actor = actor\<rparr>]\<rparr>"

definition account_emit :: "string \<Rightarrow> jstr \<Rightarrow> jstr \<Rightarrow> jstr \<Rightarrow> jstr \<Rightarrow> (jstr \<times> json) list \<Rightarrow> jstr \<Rightarrow> int \<Rightarrow> account_state \<Rightarrow> account_state" where
  "account_emit event tenant entity number actor changes event_id now st =
     st\<lparr>ac_outbox := ac_outbox st @ [\<lparr>oe_tenant = tenant, oe_type = js event, oe_aggregate = number,
          oe_payload = JObj [(js ''eventId'', JStr event_id), (js ''entityId'', JStr entity), (js ''accountNumber'', JStr number),
            (js ''changes'', JObj changes), (js ''actor'', JStr actor), (js ''ts'', JStr (iso_time now)),
            (js ''schemaV'', JNum (num_of_int 1))]\<rparr>]\<rparr>"

definition emit_reparented :: "jstr \<Rightarrow> gl_account \<Rightarrow> jstr option \<Rightarrow> jstr option \<Rightarrow> int \<Rightarrow> jstr \<Rightarrow> jstr \<Rightarrow> int \<Rightarrow> account_state \<Rightarrow> account_state" where
  "emit_reparented tenant a old_parent new_parent effective actor event_id now st =
     st\<lparr>ac_outbox := ac_outbox st @ [\<lparr>oe_tenant = tenant, oe_type = js ''coa.account.reparented'', oe_aggregate = ga_number a,
          oe_payload = JObj [(js ''eventId'', JStr event_id), (js ''accountId'', JStr (ga_id a)),
            (js ''oldParentId'', null_or_str old_parent), (js ''newParentId'', null_or_str new_parent),
            (js ''effectiveFrom'', JStr (iso_time effective)), (js ''actor'', JStr actor), (js ''ts'', JStr (iso_time now)),
            (js ''schemaV'', JNum (num_of_int 1))]\<rparr>]\<rparr>"

definition save_account :: "gl_account \<Rightarrow> account_state \<Rightarrow> account_state" where
  "save_account a st = st\<lparr>ac_accounts := update_rows (\<lambda>r. ga_id r = ga_id a) (\<lambda>_. a) (ac_accounts st)\<rparr>"

section \<open>Create\<close>

definition new_account :: "jstr \<Rightarrow> create_account_dto \<Rightarrow> jstr \<Rightarrow> jstr \<Rightarrow> gl_account" where
  "new_account new_id dto t nb =
     (let contra = is_contra t nb
      in \<lparr>ga_id = new_id, ga_tenant = ca_tenant dto, ga_entity = ca_entity dto, ga_number = ca_number dto,
          ga_name = ca_name dto, ga_type = t, ga_normal = nb, ga_contra = contra,
          ga_contra_reason = (if contra then ca_contra_reason dto else None),
          ga_postable = (case ca_postable dto of None \<Rightarrow> True | Some b \<Rightarrow> b),
          ga_parent = ca_parent dto, ga_parent_from = None, ga_status = js ''ACTIVE'', ga_balance = 0,
          ga_has_postings = False, ga_schedule = None, ga_version = 1\<rparr>)"

definition check_create :: "create_account_dto \<Rightarrow> account_error + jstr \<times> jstr" where
  "check_create dto =
     bind_res (assert_number (ca_number dto)) (\<lambda>_. bind_res (assert_name (ca_name dto)) (\<lambda>_.
       bind_res (assert_type (ca_type dto)) (\<lambda>t.
         bind_res (resolve_normal_balance t (ca_normal dto) (ca_contra_reason dto)) (\<lambda>nb. Inr (t, the nb)))))"

definition create_account :: "jstr \<Rightarrow> jstr \<Rightarrow> int \<Rightarrow> create_account_dto \<Rightarrow> account_state \<Rightarrow> (account_error + gl_account) \<times> account_state" where
  "create_account new_id event_id now dto st =
     (case check_create dto of
        Inl e \<Rightarrow> (Inl e, st)
      | Inr (t, nb) \<Rightarrow>
        if list_ex (\<lambda>a. ga_entity a = ca_entity dto \<and> ga_number a = ca_number dto) (ac_accounts st)
        then (Inl (DuplicateAccount (ca_entity dto) (ca_number dto)), st)
        else
          let a = new_account new_id dto t nb
          in (Inr a, account_emit ''coa.account.created'' (ca_tenant dto) (ga_entity a) (ga_number a) (ca_actor dto)
                [(js ''created'', account_snapshot a)] event_id now
                (account_audit (ca_tenant dto) new_id ''CREATE'' (ca_actor dto) None (account_snapshot a)
                  (st\<lparr>ac_accounts := ac_accounts st @ [a]\<rparr>))))"

section \<open>Reads\<close>

definition account_list :: "account_state \<Rightarrow> jstr \<Rightarrow> jstr \<Rightarrow> jstr option \<Rightarrow> gl_account list" where
  "account_list st tenant entity status =
     sort_key ga_number (filter (\<lambda>a. ga_tenant a = tenant \<and> ga_entity a = entity
       \<and> (given status \<longrightarrow> Some (ga_status a) = status)) (ac_accounts st))"

definition entity_accounts :: "account_state \<Rightarrow> jstr \<Rightarrow> jstr \<Rightarrow> gl_account list" where
  "entity_accounts st tenant entity = filter (\<lambda>a. ga_tenant a = tenant \<and> ga_entity a = entity) (ac_accounts st)"

definition account_tree :: "(jstr \<Rightarrow> jstr \<Rightarrow> bool) \<Rightarrow> account_state \<Rightarrow> jstr \<Rightarrow> jstr \<Rightarrow> tree_node list" where
  "account_tree le st tenant entity = build_tree le (map to_tree_account (entity_accounts st tenant entity))"

section \<open>Update\<close>

definition from_to :: "json \<Rightarrow> json \<Rightarrow> json" where
  "from_to a b = JObj [(js ''from'', a), (js ''to'', b)]"

text \<open>The type an update gives the account: its own, or the requested one while nothing has been posted.\<close>

definition updated_type :: "update_account_dto \<Rightarrow> gl_account \<Rightarrow> account_error + jstr" where
  "updated_type dto a =
     (case ua_type dto of
        None \<Rightarrow> Inr (ga_type a)
      | Some t \<Rightarrow> if t = ga_type a then Inr (ga_type a)
                  else if ga_has_postings a then Inl (TypeImmutable (ga_number a)) else assert_type t)"

definition check_new_name :: "update_account_dto \<Rightarrow> account_error + unit" where
  "check_new_name dto = (case ua_name dto of None \<Rightarrow> Inr () | Some n \<Rightarrow> assert_name n)"

definition either_str :: "jstr option \<Rightarrow> jstr option \<Rightarrow> jstr option" where
  "either_str a b = (case a of None \<Rightarrow> b | Some s \<Rightarrow> Some s)"

text \<open>The normal balance and contra reason of an update.\<close>

definition updated_balance :: "update_account_dto \<Rightarrow> gl_account \<Rightarrow> jstr \<Rightarrow> account_error + jstr \<times> jstr option" where
  "updated_balance dto a t =
     (if ua_normal dto = None \<and> ua_type dto = None then Inr (ga_normal a, ga_contra_reason a)
      else bind_res (resolve_normal_balance t (either_str (ua_normal dto) (Some (ga_normal a)))
                       (either_str (ua_contra_reason dto) (ga_contra_reason a))) (\<lambda>nb.
             Inr (the nb, if is_contra t (the nb) then either_str (ua_contra_reason dto) (ga_contra_reason a) else None)))"

definition updated_account :: "update_account_dto \<Rightarrow> gl_account \<Rightarrow> account_error + gl_account" where
  "updated_account dto a =
     bind_res (updated_type dto a) (\<lambda>t. bind_res (check_new_name dto) (\<lambda>_.
       bind_res (updated_balance dto a t) (\<lambda>(nb, reason).
         Inr (a\<lparr>ga_name := (case ua_name dto of None \<Rightarrow> ga_name a | Some n \<Rightarrow> n), ga_type := t, ga_normal := nb,
                ga_contra := is_contra t nb, ga_contra_reason := reason,
                ga_postable := (case ua_postable dto of None \<Rightarrow> ga_postable a | Some b \<Rightarrow> b),
                ga_schedule := (case ua_schedule dto of None \<Rightarrow> ga_schedule a | Some c \<Rightarrow> c),
                ga_version := ga_version a + 1\<rparr>))))"

text \<open>The \<open>changes\<close> object, a key per field that differs; the contra reason is not among them.\<close>

definition account_changes :: "gl_account \<Rightarrow> gl_account \<Rightarrow> (jstr \<times> json) list" where
  "account_changes a u =
     (if ga_type u \<noteq> ga_type a then [(js ''type'', from_to (JStr (ga_type a)) (JStr (ga_type u)))] else [])
   @ (if ga_name u \<noteq> ga_name a then [(js ''name'', from_to (JStr (ga_name a)) (JStr (ga_name u)))] else [])
   @ (if ga_normal u \<noteq> ga_normal a then [(js ''normalBalance'', from_to (JStr (ga_normal a)) (JStr (ga_normal u)))] else [])
   @ (if ga_postable u \<noteq> ga_postable a then [(js ''postable'', from_to (JBool (ga_postable a)) (JBool (ga_postable u)))] else [])
   @ (if ga_schedule u \<noteq> ga_schedule a
      then [(js ''scheduleCode'', from_to (null_or_str (ga_schedule a)) (null_or_str (ga_schedule u)))] else [])"

definition update_account :: "jstr \<Rightarrow> int \<Rightarrow> update_account_dto \<Rightarrow> account_state \<Rightarrow> (account_error + gl_account) \<times> account_state" where
  "update_account event_id now dto st =
     (case load_account st (ua_tenant dto) (ua_id dto) of
        Inl e \<Rightarrow> (Inl e, st)
      | Inr a \<Rightarrow>
        (case updated_account dto a of
           Inl e \<Rightarrow> (Inl e, st)
         | Inr u \<Rightarrow>
           if account_changes a u = [] then (Inr a, st)
           else (Inr u, account_emit ''coa.account.updated'' (ua_tenant dto) (ga_entity u) (ga_number u) (ua_actor dto)
                   (account_changes a u) event_id now
                   (account_audit (ua_tenant dto) (ga_id u) ''UPDATE'' (ua_actor dto) (Some (account_snapshot a)) (account_snapshot u)
                     (save_account u st)))))"

section \<open>Deactivate\<close>

definition deactivate_account :: "jstr \<Rightarrow> int \<Rightarrow> jstr \<Rightarrow> jstr \<Rightarrow> jstr \<Rightarrow> account_state \<Rightarrow> (account_error + gl_account) \<times> account_state" where
  "deactivate_account event_id now tenant i actor st =
     (case load_account st tenant i of
        Inl e \<Rightarrow> (Inl e, st)
      | Inr a \<Rightarrow>
        if ga_status a = js ''INACTIVE'' then (Inr a, st)
        else if ga_balance a \<noteq> 0 then (Inl (NonZeroBalance (ga_number a) (decimal_str (ga_balance a))), st)
        else
          let u = a\<lparr>ga_status := js ''INACTIVE'', ga_version := ga_version a + 1\<rparr>
          in (Inr u, account_emit ''coa.account.deactivated'' tenant (ga_entity u) (ga_number u) actor
                [(js ''status'', from_to (JStr (js ''ACTIVE'')) (JStr (js ''INACTIVE'')))] event_id now
                (account_audit tenant (ga_id u) ''DEACTIVATE'' actor (Some (account_snapshot a)) (account_snapshot u)
                  (save_account u st))))"

section \<open>Re-parent\<close>

definition exceeds_depth :: "jstr \<Rightarrow> jstr option \<Rightarrow> tree_account list \<Rightarrow> bool" where
  "exceeds_depth i p accounts =
     (case projected_max_depth i p accounts of None \<Rightarrow> False | Some d \<Rightarrow> max_tree_depth < d)"

definition check_parent :: "gl_account \<Rightarrow> jstr option \<Rightarrow> gl_account list \<Rightarrow> account_error + unit" where
  "check_parent a new_parent siblings =
     (case new_parent of
        None \<Rightarrow> Inr ()
      | Some p \<Rightarrow>
        (case find_row (\<lambda>b. ga_id b = p) siblings of
           None \<Rightarrow> Inl (ParentNotFound p)
         | Some b \<Rightarrow>
           if ga_postable b then Inl (ParentNotSummary (ga_number b))
           else if would_create_cycle (ga_id a) new_parent (map to_tree_account siblings)
           then Inl (CycleDetected (ga_id a) p) else Inr ()))"

text \<open>\<open>new Date(dto.effectiveFrom)\<close>, or now for an absent or empty text; the database refuses an invalid date.\<close>

definition effective_instant :: "(jstr \<Rightarrow> int option) \<Rightarrow> int \<Rightarrow> jstr option \<Rightarrow> account_error + int" where
  "effective_instant parse_date now v =
     (if given v then (case parse_date (opt_str v) of None \<Rightarrow> Inl InvalidDate | Some t \<Rightarrow> Inr t) else Inr now)"

definition reparent_account ::
  "(jstr \<Rightarrow> int option) \<Rightarrow> jstr \<Rightarrow> int \<Rightarrow> reparent_account_dto \<Rightarrow> account_state \<Rightarrow> (account_error + gl_account) \<times> account_state" where
  "reparent_account parse_date event_id now dto st =
     (case load_account st (rd_tenant dto) (rd_id dto) of
        Inl e \<Rightarrow> (Inl e, st)
      | Inr a \<Rightarrow>
        let new_parent = rd_parent dto; siblings = entity_accounts st (rd_tenant dto) (ga_entity a);
            tree = map to_tree_account siblings
        in if new_parent = Some (ga_id a) then (Inl (CycleDetected (ga_id a) (ga_id a)), st)
           else case check_parent a new_parent siblings of
             Inl e \<Rightarrow> (Inl e, st)
           | Inr _ \<Rightarrow>
             if exceeds_depth (ga_id a) new_parent tree then (Inl (MaxDepthExceeded max_tree_depth), st)
             else if ga_parent a = new_parent then (Inr a, st)
             else case effective_instant parse_date now (rd_effective_from dto) of
               Inl e \<Rightarrow> (Inl e, st)
             | Inr effective \<Rightarrow>
               let u = a\<lparr>ga_parent := new_parent, ga_parent_from := Some effective, ga_version := ga_version a + 1\<rparr>;
                   row = \<lparr>rr_tenant = rd_tenant dto, rr_entity = ga_entity a, rr_account = ga_id a, rr_old_parent = ga_parent a,
                          rr_new_parent = new_parent, rr_effective_from = effective, rr_actor = rd_actor dto\<rparr>;
                   st1 = save_account u st
               in (Inr u, emit_reparented (rd_tenant dto) u (ga_parent a) new_parent effective (rd_actor dto) event_id now
                     (account_audit (rd_tenant dto) (ga_id u) ''REPARENT'' (rd_actor dto) (Some (account_snapshot a)) (account_snapshot u)
                       (st1\<lparr>ac_reparents := ac_reparents st1 @ [row]\<rparr>))))"


section \<open>The chart of an entity\<close>

text \<open>
  A chart is in order when its links form no cycle, no account lies below level six, and every parent is a
  summary account of the same entity.
\<close>

definition chart_ok :: "account_state \<Rightarrow> jstr \<Rightarrow> jstr \<Rightarrow> bool" where
  "chart_ok st tenant entity \<longleftrightarrow>
     acyclic (parent_rel (map to_tree_account (entity_accounts st tenant entity)))
     \<and> shallow (map to_tree_account (entity_accounts st tenant entity))
     \<and> (\<forall>a \<in> set (entity_accounts st tenant entity). \<forall>p. ga_parent a = Some p \<longrightarrow>
          (\<exists>b \<in> set (entity_accounts st tenant entity). ga_id b = p \<and> \<not> ga_postable b))"

lemma to_tree_account_simps [simp]:
  "ta_id (to_tree_account a) = ga_id a" "ta_parent (to_tree_account a) = ga_parent a"
  by (simp_all add: to_tree_account_def)

lemma account_writes [simp, db_simps]:
  "ac_accounts (account_audit t d ac r b f st) = ac_accounts st"
  "ac_accounts (account_emit e t n m r c v w st) = ac_accounts st"
  "ac_accounts (emit_reparented t a q p i r v w st) = ac_accounts st"
  "ac_accounts (save_account u st) = update_rows (\<lambda>r. ga_id r = ga_id u) (\<lambda>_. u) (ac_accounts st)"
  by (simp_all add: account_audit_def account_emit_def emit_reparented_def save_account_def)

lemma load_account_Inr: "load_account st tenant i = Inr a \<Longrightarrow> a \<in> set (ac_accounts st) \<and> ga_id a = i \<and> ga_tenant a = tenant"
  by (auto simp: load_account_def dest: find_row_Some split: option.splits if_splits)

definition moved_rows :: "gl_account \<Rightarrow> jstr option \<Rightarrow> int \<Rightarrow> gl_account" where
  "moved_rows a p t = a\<lparr>ga_parent := p, ga_parent_from := Some t, ga_version := ga_version a + 1\<rparr>"

lemma moved_rows_simps [simp]:
  "ga_id (moved_rows a p t) = ga_id a" "ga_tenant (moved_rows a p t) = ga_tenant a"
  "ga_entity (moved_rows a p t) = ga_entity a" "ga_parent (moved_rows a p t) = p"
  "ga_postable (moved_rows a p t) = ga_postable a"
  "to_tree_account (moved_rows a p t) = (to_tree_account a)\<lparr>ta_parent := p\<rparr>"
  by (simp_all add: moved_rows_def to_tree_account_def)

lemma filter_moved:
  "(\<forall>r \<in> set rows. ga_id r = ga_id a \<longrightarrow> r = a) \<Longrightarrow>
     filter (\<lambda>r. ga_tenant r = tn \<and> ga_entity r = en) (update_rows (\<lambda>r. ga_id r = ga_id a) (\<lambda>_. moved_rows a p t) rows)
     = update_rows (\<lambda>r. ga_id r = ga_id a) (\<lambda>_. moved_rows a p t) (filter (\<lambda>r. ga_tenant r = tn \<and> ga_entity r = en) rows)"
  by (induction rows) auto

lemma tree_moved:
  "(\<forall>r \<in> set rows. ga_id r = ga_id a \<longrightarrow> r = a) \<Longrightarrow>
     map to_tree_account (update_rows (\<lambda>r. ga_id r = ga_id a) (\<lambda>_. moved_rows a p t) rows)
     = set_parent (ga_id a) p (map to_tree_account rows)"
  unfolding set_parent_def by (induction rows) auto

lemma no_cycle_None: "\<not> would_create_cycle x None T"
  by (simp add: would_create_cycle_def)

lemma set_parent_absent: "x \<notin> ta_id ` set T \<Longrightarrow> set_parent x p T = T"
  unfolding set_parent_def by (induction T) auto

lemma unique_account:
  "distinct (map ga_id rows) \<Longrightarrow> a \<in> set rows \<Longrightarrow> \<forall>r \<in> set rows. ga_id r = ga_id a \<longrightarrow> r = a"
  by (auto simp: distinct_map dest: inj_onD)

lemma entity_accounts_set: "a \<in> set (entity_accounts st tn en) \<longleftrightarrow> a \<in> set (ac_accounts st) \<and> ga_tenant a = tn \<and> ga_entity a = en"
  by (auto simp: entity_accounts_def)

text \<open>A checked move of one account keeps every chart in order.\<close>

lemma move_keeps_chart:
  assumes ids: "distinct (map ga_id (ac_accounts st))" and ok: "chart_ok st tn en" and a: "a \<in> set (ac_accounts st)"
    and accounts: "ac_accounts st' = update_rows (\<lambda>r. ga_id r = ga_id a) (\<lambda>_. moved_rows a p t) (ac_accounts st)"
    and checked: "check_parent a p (entity_accounts st (ga_tenant a) (ga_entity a)) = Inr u"
    and depth: "\<not> exceeds_depth (ga_id a) p (map to_tree_account (entity_accounts st (ga_tenant a) (ga_entity a)))"
  shows "chart_ok st' tn en"
proof -
  let ?E = "entity_accounts st tn en" and ?E' = "entity_accounts st' tn en"
  let ?T = "map to_tree_account ?E"
  have one: "\<forall>r \<in> set (ac_accounts st). ga_id r = ga_id a \<longrightarrow> r = a" using ids a by (rule unique_account)
  have E': "?E' = update_rows (\<lambda>r. ga_id r = ga_id a) (\<lambda>_. moved_rows a p t) ?E"
    unfolding entity_accounts_def accounts by (rule filter_moved) (rule one)
  have T': "map to_tree_account ?E' = set_parent (ga_id a) p ?T"
    unfolding E' by (rule tree_moved) (use one in \<open>simp add: entity_accounts_set\<close>)
  have dist: "distinct (map ta_id ?T)"
    using ids unfolding entity_accounts_def by (simp add: comp_def distinct_map_filter)
  show ?thesis
  proof (cases "a \<in> set ?E")
    case False
    then have "\<forall>x \<in> set ?E. ga_id x \<noteq> ga_id a" using one by (auto simp: entity_accounts_set)
    then have "?E' = ?E" unfolding E' update_rows_def by (intro map_idI) auto
    then show ?thesis using ok by (simp add: chart_ok_def)
  next
    case True
    then have te: "ga_tenant a = tn" "ga_entity a = en" by (auto simp: entity_accounts_set)
    have cyc: "\<not> would_create_cycle (ga_id a) p ?T"
      using checked te by (cases p) (auto simp: check_parent_def no_cycle_None split: option.splits if_splits)
    obtain h where "subtree_height (ga_id a) ?T = Some h" using subtree_height_exists by blast
    then obtain d where d: "projected_max_depth (ga_id a) p ?T = Some d" "d \<le> max_tree_depth"
      using depth te by (auto simp: exceeds_depth_def projected_max_depth_def)
    have moved: "acyclic (parent_rel (map to_tree_account ?E')) \<and> shallow (map to_tree_account ?E')"
      unfolding T' using ok dist cyc d by (intro moved_keeps_tree) (auto simp: chart_ok_def)
    have "\<exists>b \<in> set ?E'. ga_id b = q \<and> \<not> ga_postable b" if r: "r \<in> set ?E'" "ga_parent r = Some q" for r q
    proof -
      have "\<exists>b \<in> set ?E. ga_id b = q \<and> \<not> ga_postable b"
      proof (cases "r = moved_rows a p t")
        case True
        then have "p = Some q" using r(2) by simp
        then show ?thesis using checked te by (auto simp: check_parent_def dest: find_row_Some split: option.splits if_splits)
      next
        case False
        then have "r \<in> set ?E" using r(1) unfolding E' set_update_rows by (auto split: if_splits)
        then show ?thesis using ok r(2) by (auto simp: chart_ok_def)
      qed
      then obtain b where b: "b \<in> set ?E" "ga_id b = q" "\<not> ga_postable b" by blast
      let ?b = "if ga_id b = ga_id a then moved_rows a p t else b"
      have "?b \<in> set ?E'" unfolding E' set_update_rows using b(1) by blast
      moreover have "ga_id ?b = q \<and> \<not> ga_postable ?b" using b one by (auto simp: entity_accounts_set)
      ultimately show ?thesis by blast
    qed
    then show ?thesis using moved by (simp add: chart_ok_def)
  qed
qed

lemma reparent_account_cases:
  assumes "reparent_account parse_date event_id now dto st = (r, st')"
  shows "st' = st \<or> (\<exists>a t u. a \<in> set (ac_accounts st) \<and> ga_tenant a = rd_tenant dto
    \<and> ac_accounts st' = update_rows (\<lambda>r. ga_id r = ga_id a) (\<lambda>_. moved_rows a (rd_parent dto) t) (ac_accounts st)
    \<and> check_parent a (rd_parent dto) (entity_accounts st (ga_tenant a) (ga_entity a)) = Inr u
    \<and> \<not> exceeds_depth (ga_id a) (rd_parent dto) (map to_tree_account (entity_accounts st (ga_tenant a) (ga_entity a))))"
proof (cases "load_account st (rd_tenant dto) (rd_id dto)")
  case (Inl e)
  then show ?thesis using assms by (simp add: reparent_account_def)
next
  case (Inr a)
  note a = load_account_Inr [OF this]
  let ?E = "entity_accounts st (rd_tenant dto) (ga_entity a)"
  show ?thesis
  proof (cases "rd_parent dto = Some (ga_id a) \<or> (\<exists>e. check_parent a (rd_parent dto) ?E = Inl e)
      \<or> exceeds_depth (ga_id a) (rd_parent dto) (map to_tree_account ?E) \<or> ga_parent a = rd_parent dto
      \<or> (\<exists>e. effective_instant parse_date now (rd_effective_from dto) = Inl e)")
    case True
    then have "st' = st" using assms Inr
      unfolding reparent_account_def by (auto simp: Let_def split: sum.splits if_splits)
    then show ?thesis ..
  next
    case False
    then obtain u t where ok: "check_parent a (rd_parent dto) ?E = Inr u"
      "effective_instant parse_date now (rd_effective_from dto) = Inr t"
      by (metis old.sum.exhaust)
    then have "ac_accounts st' = update_rows (\<lambda>r. ga_id r = ga_id a) (\<lambda>_. moved_rows a (rd_parent dto) t) (ac_accounts st)"
      using assms Inr False unfolding reparent_account_def by (auto simp: Let_def moved_rows_def)
    then show ?thesis using a ok False
      by (intro disjI2 exI [of _ a] exI [of _ t] exI [of _ u]) simp
  qed
qed

text \<open>
  C18: re-parenting keeps every chart of the master in order, in whatever way the call ends: no cycle, at most
  six levels even for the deepest descendant that moves along, and every parent a summary account of the entity.
\<close>

theorem reparent_keeps_charts:
  assumes "distinct (map ga_id (ac_accounts st))" and "chart_ok st tenant entity"
    and "reparent_account parse_date event_id now dto st = (r, st')"
  shows "chart_ok st' tenant entity"
  using reparent_account_cases [OF assms(3)]
proof
  assume "st' = st"
  then show ?thesis using assms(2) by simp
next
  assume "\<exists>a t u. a \<in> set (ac_accounts st) \<and> ga_tenant a = rd_tenant dto
    \<and> ac_accounts st' = update_rows (\<lambda>r. ga_id r = ga_id a) (\<lambda>_. moved_rows a (rd_parent dto) t) (ac_accounts st)
    \<and> check_parent a (rd_parent dto) (entity_accounts st (ga_tenant a) (ga_entity a)) = Inr u
    \<and> \<not> exceeds_depth (ga_id a) (rd_parent dto) (map to_tree_account (entity_accounts st (ga_tenant a) (ga_entity a)))"
  then show ?thesis using move_keeps_chart [OF assms(1,2)] by blast
qed

definition demo_gl :: "jstr \<Rightarrow> bool \<Rightarrow> jstr option \<Rightarrow> gl_account" where
  "demo_gl x post p = \<lparr>ga_id = x, ga_tenant = [7], ga_entity = [8], ga_number = x, ga_name = x, ga_type = js ''ASSET'',
     ga_normal = js ''DR'', ga_contra = False, ga_contra_reason = None, ga_postable = post, ga_parent = p, ga_parent_from = None,
     ga_status = js ''ACTIVE'', ga_balance = 0, ga_has_postings = False, ga_schedule = None, ga_version = 1\<rparr>"

definition demo_master :: account_state where
  "demo_master = \<lparr>ac_accounts = [demo_gl [1] False None, demo_gl [2] True None], ac_reparents = [], ac_audit = [], ac_outbox = []\<rparr>"

definition demo_move :: reparent_account_dto where
  "demo_move = \<lparr>rd_tenant = [7], rd_id = [2], rd_parent = Some [1], rd_effective_from = None, rd_actor = [9]\<rparr>"

lemma demo_tree_no_parent: "parent_of (map to_tree_account [demo_gl [1] False None, demo_gl [2] True None]) x = None"
  by (simp add: parent_of_def by_id_def to_tree_account_def demo_gl_def live_def)

theorem reparent_keeps_charts_witness:
  "chart_ok (snd (reparent_account (\<lambda>_. None) [3] 0 demo_move demo_master)) [7] [8]
     \<and> map ga_parent (ac_accounts (snd (reparent_account (\<lambda>_. None) [3] 0 demo_move demo_master))) = [None, Some [1]]"
proof
  have d: "distinct (map ga_id (ac_accounts demo_master))" by (simp add: demo_master_def demo_gl_def)
  have e: "entity_accounts demo_master [7] [8] = [demo_gl [1] False None, demo_gl [2] True None]"
    by (simp add: entity_accounts_def demo_master_def demo_gl_def)
  have "parent_rel (map to_tree_account [demo_gl [1] False None, demo_gl [2] True None]) = {}"
    by (simp add: parent_rel_def demo_tree_no_parent del: list.map)
  then have "chart_ok demo_master [7] [8]"
    by (simp add: chart_ok_def e acyclic_def shallow_def depth_of_def max_tree_depth_def demo_tree_no_parent [simplified])
       (simp add: demo_gl_def)
  from reparent_keeps_charts [OF d this surjective_pairing]
  show "chart_ok (snd (reparent_account (\<lambda>_. None) [3] 0 demo_move demo_master)) [7] [8]" .
  show "map ga_parent (ac_accounts (snd (reparent_account (\<lambda>_. None) [3] 0 demo_move demo_master))) = [None, Some [1]]"
    by code_simp
qed

section \<open>The master over any run\<close>

text \<open>
  A run of the service; posting, which maintains the balance and the posted flag of an account, is a step of the
  environment. A created account has a fresh identifier.
\<close>

inductive account_step :: "account_state \<Rightarrow> account_state \<Rightarrow> bool" where
  create_step: "create_account new_id event_id now dto st = (r, st') \<Longrightarrow> new_id \<notin> ga_id ` set (ac_accounts st) \<Longrightarrow> account_step st st'"
| update_step: "update_account event_id now dto' st = (r, st') \<Longrightarrow> account_step st st'"
| deactivate_step: "deactivate_account event_id now tenant i actor st = (r, st') \<Longrightarrow> account_step st st'"
| reparent_step: "reparent_account parse_date event_id now dto'' st = (r, st') \<Longrightarrow> account_step st st'"
| posting_step: "account_step st (st\<lparr>ac_accounts := update_rows (\<lambda>a. ga_id a = i)
     (\<lambda>a. a\<lparr>ga_balance := b, ga_has_postings := True\<rparr>) (ac_accounts st)\<rparr>)"

definition account_row_ok :: "gl_account \<Rightarrow> bool" where
  "account_row_ok a \<longleftrightarrow> is_valid_account_number (ga_number a) \<and> is_valid_name (ga_name a) \<and> is_valid_type (ga_type a)
     \<and> is_valid_normal_balance (ga_normal a) \<and> ga_contra a = is_contra (ga_type a) (ga_normal a)
     \<and> (ga_contra a \<longrightarrow> given_trimmed (ga_contra_reason a)) \<and> (\<not> ga_contra a \<longrightarrow> ga_contra_reason a = None)
     \<and> ga_status a \<in> {js ''ACTIVE'', js ''INACTIVE''} \<and> 1 \<le> ga_version a"

text \<open>What a service call does to one row: nothing, or a change that keeps its identity and (once posted) its type.\<close>

definition row_step :: "gl_account \<Rightarrow> gl_account \<Rightarrow> bool" where
  "row_step a u \<longleftrightarrow> ga_id u = ga_id a \<and> ga_tenant u = ga_tenant a \<and> ga_entity u = ga_entity a \<and> ga_number u = ga_number a
     \<and> (ga_has_postings a \<longrightarrow> ga_has_postings u \<and> ga_type u = ga_type a) \<and> (account_row_ok a \<longrightarrow> account_row_ok u)
     \<and> ga_version a \<le> ga_version u"

lemma row_step_refl [simp]: "row_step a a"
  by (simp add: row_step_def)

lemma assert_Inr [simp]:
  "assert_number n = Inr u \<longleftrightarrow> is_valid_account_number n" "assert_name n = Inr u \<longleftrightarrow> is_valid_name n"
  "assert_type t = Inr t' \<longleftrightarrow> is_valid_type t \<and> t' = t"
  by (auto simp: assert_number_def assert_name_def assert_type_def)

lemma resolve_normal_balance_Inr:
  assumes "resolve_normal_balance t requested reason = Inr v" and "is_valid_type t"
  shows "\<exists>nb. v = Some nb \<and> is_valid_normal_balance nb \<and> (is_contra t nb \<longrightarrow> given_trimmed reason)"
proof (cases requested)
  case None
  then have "v = default_normal_balance t" using assms(1) by (simp add: resolve_normal_balance_def)
  then show ?thesis using assms(2)
    by (auto simp: is_valid_type_def account_types_def default_normal_balance_def is_valid_normal_balance_def
          normal_balances_def is_contra_def)
next
  case (Some r)
  then show ?thesis using assms(1) by (auto simp: resolve_normal_balance_def split: if_splits)
qed

lemma updated_type_Inr:
  "updated_type dto a = Inr t \<Longrightarrow> is_valid_type (ga_type a) \<Longrightarrow> is_valid_type t"
  "updated_type dto a = Inr t \<Longrightarrow> ga_has_postings a \<Longrightarrow> t = ga_type a"
  "updated_type dto a = Inr t \<Longrightarrow> ua_type dto = None \<Longrightarrow> t = ga_type a"
  by (auto simp: updated_type_def split: option.splits if_splits)

lemma updated_balance_Inr:
  assumes "updated_balance dto a t = Inr (nb, reason)" and "account_row_ok a" and "is_valid_type t"
    and "ua_type dto = None \<longrightarrow> t = ga_type a"
  shows "is_valid_normal_balance nb \<and> (is_contra t nb \<longrightarrow> given_trimmed reason) \<and> (\<not> is_contra t nb \<longrightarrow> reason = None)"
proof (cases "ua_normal dto = None \<and> ua_type dto = None")
  case True
  then show ?thesis using assms by (auto simp: updated_balance_def account_row_ok_def)
next
  case False
  then obtain v where v: "resolve_normal_balance t (either_str (ua_normal dto) (Some (ga_normal a)))
      (either_str (ua_contra_reason dto) (ga_contra_reason a)) = Inr v"
    and out: "nb = the v" "reason = (if is_contra t nb then either_str (ua_contra_reason dto) (ga_contra_reason a) else None)"
    using assms(1) by (auto simp: updated_balance_def bind_res_Inr)
  then show ?thesis using resolve_normal_balance_Inr [OF v assms(3)] by auto
qed

lemma updated_account_row:
  assumes "updated_account dto a = Inr u"
  shows "row_step a u"
proof -
  obtain t nb reason where t: "updated_type dto a = Inr t" and n: "check_new_name dto = Inr ()"
    and nb: "updated_balance dto a t = Inr (nb, reason)"
    and u: "u = a\<lparr>ga_name := (case ua_name dto of None \<Rightarrow> ga_name a | Some n \<Rightarrow> n), ga_type := t, ga_normal := nb,
        ga_contra := is_contra t nb, ga_contra_reason := reason,
        ga_postable := (case ua_postable dto of None \<Rightarrow> ga_postable a | Some b \<Rightarrow> b),
        ga_schedule := (case ua_schedule dto of None \<Rightarrow> ga_schedule a | Some c \<Rightarrow> c),
        ga_version := ga_version a + 1\<rparr>"
    using assms by (auto simp: updated_account_def bind_res_Inr)
  have "account_row_ok u" if a: "account_row_ok a"
  proof -
    have ty: "is_valid_type t" using updated_type_Inr(1) [OF t] a by (simp add: account_row_ok_def)
    have name: "is_valid_name (case ua_name dto of None \<Rightarrow> ga_name a | Some n \<Rightarrow> n)"
      using n a by (auto simp: check_new_name_def account_row_ok_def split: option.splits)
    show ?thesis using updated_balance_Inr [OF nb a ty] updated_type_Inr(3) [OF t] ty name a by (simp add: u account_row_ok_def)
  qed
  then show ?thesis using updated_type_Inr(2) [OF t] by (simp add: row_step_def u)
qed

lemma moved_row: "row_step a (moved_rows a p t)"
  by (auto simp: row_step_def moved_rows_def account_row_ok_def)

lemma deactivated_row: "row_step a (a\<lparr>ga_status := js ''INACTIVE'', ga_version := ga_version a + 1\<rparr>)"
  by (auto simp: row_step_def account_row_ok_def)

text \<open>A step replaces rows in place, by row steps, or adds one fresh row in order.\<close>

definition rows_step :: "account_state \<Rightarrow> account_state \<Rightarrow> bool" where
  "rows_step st st' \<longleftrightarrow> list_all2 row_step (ac_accounts st) (ac_accounts st')
     \<or> (\<exists>a. ac_accounts st' = ac_accounts st @ [a] \<and> account_row_ok a \<and> ga_id a \<notin> ga_id ` set (ac_accounts st)
          \<and> (\<forall>b \<in> set (ac_accounts st). \<not> (ga_entity b = ga_entity a \<and> ga_number b = ga_number a)))"

lemma rows_step_refl [simp]: "rows_step st st"
  by (simp add: rows_step_def list_all2_refl)

lemma list_all2_update: "(\<forall>a \<in> set rows. P a \<longrightarrow> row_step a (f a)) \<Longrightarrow> list_all2 row_step rows (update_rows P f rows)"
  by (induction rows) auto

lemma replace_rows_step:
  assumes "distinct (map ga_id (ac_accounts st))" and "a \<in> set (ac_accounts st)" and "row_step a u"
    and "ac_accounts st' = update_rows (\<lambda>r. ga_id r = ga_id a) (\<lambda>_. u) (ac_accounts st)"
  shows "rows_step st st'"
  unfolding rows_step_def assms(4)
  using unique_account [OF assms(1,2)] assms(3) by (intro disjI1 list_all2_update) auto

lemma check_create_Inr:
  assumes "check_create dto = Inr (t, nb)"
  shows "is_valid_account_number (ca_number dto) \<and> is_valid_name (ca_name dto) \<and> is_valid_type t \<and> t = ca_type dto
     \<and> is_valid_normal_balance nb \<and> (is_contra t nb \<longrightarrow> given_trimmed (ca_contra_reason dto))"
proof -
  obtain v where v: "is_valid_account_number (ca_number dto)" "is_valid_name (ca_name dto)" "is_valid_type t" "t = ca_type dto"
    "resolve_normal_balance t (ca_normal dto) (ca_contra_reason dto) = Inr v" "nb = the v"
    using assms by (auto simp: check_create_def bind_res_Inr)
  show ?thesis using resolve_normal_balance_Inr [OF v(5,3)] v by auto
qed

lemma create_rows_step:
  assumes "create_account new_id event_id now dto st = (r, st')" and "new_id \<notin> ga_id ` set (ac_accounts st)"
  shows "rows_step st st'"
proof (cases "check_create dto")
  case (Inr v)
  then obtain t nb where c: "check_create dto = Inr (t, nb)" by (cases v) simp
  let ?dup = "list_ex (\<lambda>a. ga_entity a = ca_entity dto \<and> ga_number a = ca_number dto) (ac_accounts st)"
  show ?thesis
  proof (cases ?dup)
    case False
    let ?a = "new_account new_id dto t nb"
    have rows: "ac_accounts st' = ac_accounts st @ [?a]" using assms(1) c False by (auto simp: create_account_def Let_def)
    have "account_row_ok ?a" using check_create_Inr [OF c] by (auto simp: account_row_ok_def new_account_def Let_def)
    moreover have "ga_id ?a = new_id" "ga_entity ?a = ca_entity dto" "ga_number ?a = ca_number dto"
      by (simp_all add: new_account_def Let_def)
    ultimately show ?thesis using rows assms(2) False unfolding rows_step_def by (auto simp: list_ex_iff)
  qed (use assms(1) c in \<open>simp add: create_account_def\<close>)
qed (use assms(1) in \<open>simp add: create_account_def\<close>)

lemma update_rows_step:
  assumes "update_account event_id now dto st = (r, st')" and "distinct (map ga_id (ac_accounts st))"
  shows "rows_step st st'"
proof (cases "load_account st (ua_tenant dto) (ua_id dto)")
  case (Inr a)
  show ?thesis
  proof (cases "updated_account dto a")
    case (Inr u)
    have row: "row_step a u" using Inr by (rule updated_account_row)
    then have u: "ga_id u = ga_id a" by (simp add: row_step_def)
    show ?thesis
    proof (cases "account_changes a u = []")
      case False
      then have "ac_accounts st' = update_rows (\<lambda>r. ga_id r = ga_id a) (\<lambda>_. u) (ac_accounts st)"
        using assms(1) Inr \<open>load_account st (ua_tenant dto) (ua_id dto) = Inr a\<close> u by (auto simp: update_account_def)
      then show ?thesis using replace_rows_step [OF assms(2) _ row] load_account_Inr [OF \<open>load_account st _ _ = Inr a\<close>] by blast
    qed (use assms(1) Inr \<open>load_account st (ua_tenant dto) (ua_id dto) = Inr a\<close> in \<open>simp add: update_account_def\<close>)
  qed (use assms(1) Inr in \<open>simp add: update_account_def\<close>)
qed (use assms(1) in \<open>simp add: update_account_def\<close>)

lemma deactivate_rows_step:
  assumes "deactivate_account event_id now tenant i actor st = (r, st')" and "distinct (map ga_id (ac_accounts st))"
  shows "rows_step st st'"
proof (cases "load_account st tenant i")
  case (Inr a)
  let ?u = "a\<lparr>ga_status := js ''INACTIVE'', ga_version := ga_version a + 1\<rparr>"
  show ?thesis
  proof (cases "ga_status a = js ''INACTIVE'' \<or> ga_balance a \<noteq> 0")
    case False
    then have "ac_accounts st' = update_rows (\<lambda>r. ga_id r = ga_id a) (\<lambda>_. ?u) (ac_accounts st)"
      using assms(1) Inr by (auto simp: deactivate_account_def Let_def)
    then show ?thesis using replace_rows_step [OF assms(2) _ deactivated_row] load_account_Inr [OF Inr] by blast
  qed (use assms(1) Inr in \<open>auto simp: deactivate_account_def split: if_splits\<close>)
qed (use assms(1) in \<open>simp add: deactivate_account_def\<close>)

lemma reparent_rows_step:
  assumes "reparent_account parse_date event_id now dto st = (r, st')" and "distinct (map ga_id (ac_accounts st))"
  shows "rows_step st st'"
  using reparent_account_cases [OF assms(1)] replace_rows_step [OF assms(2) _ moved_row] by auto

lemma account_step_rows: "account_step st st' \<Longrightarrow> distinct (map ga_id (ac_accounts st)) \<Longrightarrow> rows_step st st'"
proof (induction rule: account_step.induct)
  case (posting_step st i b)
  have "list_all2 row_step (ac_accounts st) (update_rows (\<lambda>a. ga_id a = i) (\<lambda>a. a\<lparr>ga_balance := b, ga_has_postings := True\<rparr>) (ac_accounts st))"
    by (rule list_all2_update) (simp add: row_step_def account_row_ok_def)
  then show ?case by (simp add: rows_step_def)
qed (simp_all add: create_rows_step update_rows_step deactivate_rows_step reparent_rows_step)

definition master_inv :: "account_state \<Rightarrow> bool" where
  "master_inv st \<longleftrightarrow> distinct (map ga_id (ac_accounts st)) \<and> distinct (map (\<lambda>a. (ga_entity a, ga_number a)) (ac_accounts st))
     \<and> (\<forall>a \<in> set (ac_accounts st). account_row_ok a)"

lemma row_step_maps:
  "list_all2 row_step rows rows' \<Longrightarrow> map ga_id rows' = map ga_id rows
     \<and> map (\<lambda>a. (ga_entity a, ga_number a)) rows' = map (\<lambda>a. (ga_entity a, ga_number a)) rows"
  by (induction rule: list_all2_induct) (simp_all add: row_step_def)

lemma row_step_ok: "list_all2 row_step rows rows' \<Longrightarrow> \<forall>a \<in> set rows. account_row_ok a \<Longrightarrow> \<forall>a \<in> set rows'. account_row_ok a"
  by (induction rule: list_all2_induct) (auto simp: row_step_def)

lemma rows_step_inv: "rows_step st st' \<Longrightarrow> master_inv st \<Longrightarrow> master_inv st'"
  unfolding rows_step_def
proof (elim disjE exE conjE)
  assume "list_all2 row_step (ac_accounts st) (ac_accounts st')" and "master_inv st"
  then show ?thesis using row_step_maps [of "ac_accounts st" "ac_accounts st'"] row_step_ok [of "ac_accounts st" "ac_accounts st'"]
    unfolding master_inv_def by simp
next
  fix a assume "master_inv st" and "ac_accounts st' = ac_accounts st @ [a]" and "account_row_ok a"
    and "ga_id a \<notin> ga_id ` set (ac_accounts st)"
    and "\<forall>b \<in> set (ac_accounts st). \<not> (ga_entity b = ga_entity a \<and> ga_number b = ga_number a)"
  then show ?thesis by (auto simp: master_inv_def)
qed

lemma account_step_inv: "account_step st st' \<Longrightarrow> master_inv st \<Longrightarrow> master_inv st'"
  using rows_step_inv account_step_rows unfolding master_inv_def by blast

lemma account_run_inv: "account_step\<^sup>*\<^sup>* st st' \<Longrightarrow> master_inv st \<Longrightarrow> master_inv st'"
  by (induction rule: rtranclp_induct) (auto intro: account_step_inv)

definition empty_master :: account_state where
  "empty_master = \<lparr>ac_accounts = [], ac_reparents = [], ac_audit = [], ac_outbox = []\<rparr>"

text \<open>
  C25: whatever sequence of calls built the master, an account number occurs once per entity, is five digits, the
  account has a known type and normal balance, its contra flag says exactly that the balance side is not the
  type's default, and a contra account has a reason.
\<close>

theorem account_master_invariant:
  assumes "account_step\<^sup>*\<^sup>* empty_master st"
  shows "distinct (map (\<lambda>a. (ga_entity a, ga_number a)) (ac_accounts st)) \<and> (\<forall>a \<in> set (ac_accounts st). account_row_ok a)"
  using account_run_inv [OF assms] by (simp add: master_inv_def empty_master_def)

definition demo_create :: create_account_dto where
  "demo_create = \<lparr>ca_tenant = [7], ca_entity = [8], ca_number = js ''10100'', ca_name = js ''Cash'', ca_type = js ''ASSET'',
     ca_normal = Some (js ''CR''), ca_postable = None, ca_contra_reason = Some (js ''x''), ca_parent = Some [5], ca_actor = [9]\<rparr>"

theorem account_master_invariant_witness:
  "list_all account_row_ok (ac_accounts (snd (create_account [1] [2] 0 demo_create empty_master)))
     \<and> map ga_contra (ac_accounts (snd (create_account [1] [2] 0 demo_create empty_master))) = [True]"
proof -
  have "account_step empty_master (snd (create_account [1] [2] 0 demo_create empty_master))"
    by (rule create_step [OF surjective_pairing]) (simp add: empty_master_def)
  from account_master_invariant [OF r_into_rtranclp [of account_step, OF this]]
  have "list_all account_row_ok (ac_accounts (snd (create_account [1] [2] 0 demo_create empty_master)))"
    by (simp add: list_all_iff)
  moreover have "map ga_contra (ac_accounts (snd (create_account [1] [2] 0 demo_create empty_master))) = [True]" by code_simp
  ultimately show ?thesis by blast
qed

definition demo_created :: account_state where
  "demo_created = snd (create_account [1] [2] 0 demo_create empty_master)"

definition demo_posted :: account_state where
  "demo_posted = demo_created\<lparr>ac_accounts := update_rows (\<lambda>a. ga_id a = [1])
     (\<lambda>a. a\<lparr>ga_balance := 5, ga_has_postings := True\<rparr>) (ac_accounts demo_created)\<rparr>"

text \<open>An account of one state lives on in the next, by a row step.\<close>

lemma rows_step_live: "rows_step st st' \<Longrightarrow> a \<in> set (ac_accounts st) \<Longrightarrow> \<exists>u \<in> set (ac_accounts st'). row_step a u"
  unfolding rows_step_def
proof (elim disjE exE conjE)
  assume "list_all2 row_step (ac_accounts st) (ac_accounts st')" and "a \<in> set (ac_accounts st)"
  then show ?thesis by (metis in_set_conv_nth list_all2_conv_all_nth)
qed (auto intro: bexI [of _ a])

lemma row_step_trans: "row_step a b \<Longrightarrow> row_step b c \<Longrightarrow> row_step a c"
  by (auto simp: row_step_def)

lemma account_run_live:
  "account_step\<^sup>*\<^sup>* st st' \<Longrightarrow> master_inv st \<Longrightarrow> a \<in> set (ac_accounts st) \<Longrightarrow> \<exists>u \<in> set (ac_accounts st'). row_step a u"
proof (induction rule: rtranclp_induct)
  case (step y z)
  have "master_inv y" using step.hyps(1) step.prems(1) by (rule account_run_inv)
  then have "rows_step y z" using account_step_rows [OF step.hyps(2)] by (simp add: master_inv_def)
  then show ?case using step.IH [OF step.prems] rows_step_live row_step_trans by blast
qed (auto intro: bexI [of _ a])

text \<open>
  An account is never removed or renumbered, and once it has a posting its type never changes again, under
  any sequence of creations, updates, deactivations, moves and postings.
\<close>

theorem posted_type_immutable:
  assumes "account_step\<^sup>*\<^sup>* empty_master st" and "account_step\<^sup>*\<^sup>* st st'" and "a \<in> set (ac_accounts st)" and "ga_has_postings a"
  shows "\<exists>u \<in> set (ac_accounts st'). ga_id u = ga_id a \<and> ga_number u = ga_number a \<and> ga_type u = ga_type a \<and> ga_has_postings u"
proof -
  have "master_inv st" using account_run_inv [OF assms(1)] by (simp add: master_inv_def empty_master_def)
  then show ?thesis using account_run_live [OF assms(2) _ assms(3)] assms(4) by (auto simp: row_step_def)
qed

theorem posted_type_immutable_witness:
  "\<exists>u \<in> set (ac_accounts (demo_posted)). ga_id u = [1] \<and> ga_type u = js ''ASSET'' \<and> ga_has_postings u"
proof -
  have c: "account_step empty_master demo_created"
    unfolding demo_created_def by (rule create_step [OF surjective_pairing]) (simp add: empty_master_def)
  have p: "account_step demo_created demo_posted" unfolding demo_posted_def by (rule posting_step)
  have rows: "map (\<lambda>a. (ga_id a, ga_type a, ga_has_postings a)) (ac_accounts demo_posted) = [([1], js ''ASSET'', True)]" by code_simp
  then obtain a where a: "ac_accounts demo_posted = [a]" "ga_id a = [1]" "ga_type a = js ''ASSET''" "ga_has_postings a"
    by (cases "ac_accounts demo_posted") auto
  have run: "account_step\<^sup>*\<^sup>* empty_master demo_posted" using c p by (meson converse_rtranclp_into_rtranclp r_into_rtranclp)
  show ?thesis using posted_type_immutable [OF run rtranclp.rtrancl_refl, of a] a by auto
qed

text \<open>The balance side a creation asks for, if any.\<close>

definition side_request_ok :: "create_account_dto \<Rightarrow> bool" where
  "side_request_ok dto = (case ca_normal dto of None \<Rightarrow> True
     | Some nb \<Rightarrow> is_valid_normal_balance nb \<and> (if is_contra (ca_type dto) nb then given_trimmed (ca_contra_reason dto) else True))"

definition number_taken :: "account_state \<Rightarrow> jstr \<Rightarrow> jstr \<Rightarrow> bool" where
  "number_taken st entity number = list_ex (\<lambda>a. ga_entity a = entity \<and> ga_number a = number) (ac_accounts st)"

text \<open>
  Creating an account looks at its number, name, type, balance side and at duplicates only: with these in
  order it succeeds whatever parent is named, existing or not, postable or not, at any depth.
\<close>

theorem create_account_iff:
  "(\<exists>a. fst (create_account new_id event_id now dto st) = Inr a \<and> ga_parent a = ca_parent dto) \<longleftrightarrow>
     is_valid_account_number (ca_number dto) \<and> is_valid_name (ca_name dto) \<and> is_valid_type (ca_type dto)
     \<and> side_request_ok dto \<and> \<not> number_taken st (ca_entity dto) (ca_number dto)"
  by (auto simp: create_account_def check_create_def bind_res_def assert_number_def assert_name_def assert_type_def
      resolve_normal_balance_def side_request_ok_def number_taken_def Let_def new_account_def split: option.splits if_splits)

end
