(* ===== verification/SourceService.thy ===== *)
theory SourceService
  imports JournalSequence
begin

text \<open>
  \<open>domain/journal-source.ts\<close> and \<open>application/source-service.ts\<close>: the registry of journal sources, with the
  reserved set that a tenant is bootstrapped with and may never change, and the tenant's own MANUAL sources.
\<close>

section \<open>Sources\<close>

record source_flags =
  fl_auto :: bool
  fl_year_end :: bool
  fl_thirteenth :: bool

text \<open>The flags of a request: any JSON value, or absent.\<close>

record flags_input =
  fi_auto :: "json option"
  fi_year_end :: "json option"
  fi_thirteenth :: "json option"

record reserved_source =
  rv_code :: jstr
  rv_alias :: int
  rv_name :: jstr
  rv_class :: jstr
  rv_flags :: source_flags

record journal_source =
  js_id :: jstr
  js_tenant :: jstr
  js_code :: jstr
  js_alias :: "int option"
  js_name :: jstr
  js_class :: jstr
  js_reserved :: bool
  js_flags :: source_flags
  js_status :: jstr
  js_version :: int

definition source_classes :: "jstr list" where
  "source_classes = [js ''MANUAL'', js ''SYSTEM'']"

definition no_flags :: source_flags where
  "no_flags = \<lparr>fl_auto = False, fl_year_end = False, fl_thirteenth = False\<rparr>"

definition reserved :: "string \<Rightarrow> int \<Rightarrow> string \<Rightarrow> string \<Rightarrow> source_flags \<Rightarrow> reserved_source" where
  "reserved code alias_no name cls flags =
     \<lparr>rv_code = js code, rv_alias = alias_no, rv_name = js name, rv_class = js cls, rv_flags = flags\<rparr>"

definition reserved_sources :: "reserved_source list" where
  "reserved_sources =
     [reserved ''GJ'' 88 ''Standard General Journal'' ''MANUAL'' no_flags,
      reserved ''ADJ'' 3 ''Prior Month / Adjusting Entries'' ''MANUAL'' no_flags,
      reserved ''YE'' 90 ''Year-End Entries'' ''MANUAL'' (no_flags\<lparr>fl_year_end := True\<rparr>),
      reserved ''M13'' 91 ''13th Month Entries'' ''MANUAL'' (no_flags\<lparr>fl_thirteenth := True\<rparr>),
      reserved ''SVC'' 30 ''Service ROs'' ''SYSTEM'' (no_flags\<lparr>fl_auto := True\<rparr>),
      reserved ''PART'' 32 ''Parts Sales'' ''SYSTEM'' (no_flags\<lparr>fl_auto := True\<rparr>),
      reserved ''WARR'' 40 ''Warranty Remittances'' ''SYSTEM'' (no_flags\<lparr>fl_auto := True\<rparr>),
      reserved ''PAY'' 95 ''Payroll'' ''SYSTEM'' (no_flags\<lparr>fl_auto := True\<rparr>),
      reserved ''RT'' 50 ''Recurring Journal Template'' ''MANUAL'' no_flags]"

definition is_valid_code :: "jstr \<Rightarrow> bool" where
  "is_valid_code c = (2 \<le> length c \<and> length c \<le> 6 \<and> list_all (\<lambda>x. is_upper x \<or> is_digit x) c)"

definition is_valid_source_name :: "jstr \<Rightarrow> bool" where
  "is_valid_source_name n = (1 \<le> length (js_trim n) \<and> length n \<le> 120)"

definition is_valid_class :: "jstr \<Rightarrow> bool" where
  "is_valid_class c = (c = js ''MANUAL'' \<or> c = js ''SYSTEM'')"

definition is_true :: "json option \<Rightarrow> bool" where
  "is_true v = (v = Some (JBool True))"

definition normalize_flags :: "flags_input option \<Rightarrow> source_flags" where
  "normalize_flags input = (case input of None \<Rightarrow> no_flags
     | Some f \<Rightarrow> \<lparr>fl_auto = is_true (fi_auto f), fl_year_end = is_true (fi_year_end f), fl_thirteenth = is_true (fi_thirteenth f)\<rparr>)"

section \<open>Registry\<close>

record source_state =
  so_sources :: "journal_source list"
  so_audit :: "audit_event list"
  so_outbox :: "outbox_event list"

datatype source_error =
    SourceValidation jstr jstr
  | DuplicateSource jstr
  | SystemSourceCreation
  | ReservedImmutable jstr
  | SystemSourceNotManual jstr
  | SourceNotFound jstr

record create_source_dto =
  cd_tenant :: jstr
  cd_code :: jstr
  cd_name :: jstr
  cd_class :: "jstr option"
  cd_alias :: "int option"
  cd_flags :: "flags_input option"
  cd_actor :: jstr

record update_source_dto =
  us_tenant :: jstr
  us_code :: jstr
  us_name :: "jstr option"
  us_flags :: "flags_input option"
  us_actor :: jstr

definition flags_json :: "source_flags \<Rightarrow> json" where
  "flags_json f = JObj [(js ''autoPost'', JBool (fl_auto f)), (js ''yearEndOnly'', JBool (fl_year_end f)),
     (js ''thirteenthOnly'', JBool (fl_thirteenth f))]"

definition source_snapshot :: "journal_source \<Rightarrow> json" where
  "source_snapshot r = JObj [(js ''code'', JStr (js_code r)), (js ''name'', JStr (js_name r)),
     (js ''numericAlias'', case js_alias r of None \<Rightarrow> JNull | Some n \<Rightarrow> JNum (num_of_int n)), (js ''class'', JStr (js_class r)),
     (js ''reserved'', JBool (js_reserved r)), (js ''flags'', flags_json (js_flags r)), (js ''status'', JStr (js_status r)),
     (js ''version'', JNum (num_of_int (js_version r)))]"

definition load_source :: "source_state \<Rightarrow> jstr \<Rightarrow> jstr \<Rightarrow> source_error + journal_source" where
  "load_source st tenant raw =
     (let code = to_upper (js_trim raw)
      in case find_row (\<lambda>r. js_tenant r = tenant \<and> js_code r = code) (so_sources st) of
           None \<Rightarrow> Inl (SourceNotFound code) | Some r \<Rightarrow> Inr r)"

definition source_audit :: "jstr \<Rightarrow> jstr \<Rightarrow> jstr \<Rightarrow> string \<Rightarrow> json option \<Rightarrow> json \<Rightarrow> source_state \<Rightarrow> source_state" where
  "source_audit tenant code actor action before after st =
     st\<lparr>so_audit := so_audit st @ [\<lparr>ae_tenant = tenant, ae_doc_type = js ''journal_source'', ae_doc_id = code,
          ae_action = js action, ae_before = before, ae_after = Some after, ae_actor = actor\<rparr>]\<rparr>"

definition source_emit :: "string \<Rightarrow> jstr \<Rightarrow> journal_source \<Rightarrow> jstr \<Rightarrow> jstr \<Rightarrow> int \<Rightarrow> source_state \<Rightarrow> source_state" where
  "source_emit event tenant r actor event_id now st =
     st\<lparr>so_outbox := so_outbox st @ [\<lparr>oe_tenant = tenant, oe_type = js event, oe_aggregate = js_code r,
          oe_payload = JObj [(js ''eventId'', JStr event_id), (js ''code'', JStr (js_code r)), (js ''class'', JStr (js_class r)),
            (js ''flags'', flags_json (js_flags r)), (js ''actor'', JStr actor), (js ''ts'', JStr (iso_time now)),
            (js ''schemaV'', JNum (num_of_int 1))]\<rparr>]\<rparr>"

definition save_source :: "journal_source \<Rightarrow> source_state \<Rightarrow> source_state" where
  "save_source u st = st\<lparr>so_sources := update_rows (\<lambda>r. js_id r = js_id u) (\<lambda>_. u) (so_sources st)\<rparr>"

definition create_source :: "jstr \<Rightarrow> jstr \<Rightarrow> int \<Rightarrow> create_source_dto \<Rightarrow> source_state \<Rightarrow> (source_error + journal_source) \<times> source_state" where
  "create_source new_id event_id now dto st =
     (let code = to_upper (js_trim (cd_code dto))
      in if \<not> is_valid_code code
         then (Inl (SourceValidation (js ''INVALID_CODE'') (js ''code must be 2-6 uppercase alphanumerics'')), st)
         else if \<not> is_valid_source_name (cd_name dto)
         then (Inl (SourceValidation (js ''INVALID_NAME'') (js ''name must be 1-120 characters'')), st)
         else if (case cd_class dto of None \<Rightarrow> False | Some c \<Rightarrow> \<not> is_valid_class c)
         then (Inl (SourceValidation (js ''INVALID_CLASS'') (js ''class must be MANUAL or SYSTEM'')), st)
         else if cd_class dto = Some (js ''SYSTEM'') then (Inl SystemSourceCreation, st)
         else if list_ex (\<lambda>r. js_tenant r = cd_tenant dto \<and> js_code r = code) (so_sources st)
         then (Inl (DuplicateSource code), st)
         else
           let r = \<lparr>js_id = new_id, js_tenant = cd_tenant dto, js_code = code, js_alias = cd_alias dto,
                    js_name = js_trim (cd_name dto), js_class = js ''MANUAL'', js_reserved = False,
                    js_flags = normalize_flags (cd_flags dto), js_status = js ''ACTIVE'', js_version = 1\<rparr>
           in (Inr r, source_emit ''coa.source.created'' (cd_tenant dto) r (cd_actor dto) event_id now
                 (source_audit (cd_tenant dto) code (cd_actor dto) ''CREATE'' None (source_snapshot r)
                   (st\<lparr>so_sources := so_sources st @ [r]\<rparr>))))"

definition source_list :: "source_state \<Rightarrow> jstr \<Rightarrow> jstr option \<Rightarrow> jstr option \<Rightarrow> journal_source list" where
  "source_list st tenant cls status =
     sort_key js_code (filter (\<lambda>r. js_tenant r = tenant \<and> (given cls \<longrightarrow> Some (js_class r) = cls)
       \<and> (given status \<longrightarrow> Some (js_status r) = status)) (so_sources st))"

text \<open>\<open>{ ...currentFlags, ...dto.flags }\<close>: a flag that is present replaces the current one.\<close>

definition merge_flags :: "source_flags \<Rightarrow> flags_input \<Rightarrow> flags_input" where
  "merge_flags cur f =
     (let pick = \<lambda>v b. case v of None \<Rightarrow> Some (JBool b) | Some x \<Rightarrow> Some x
      in \<lparr>fi_auto = pick (fi_auto f) (fl_auto cur), fi_year_end = pick (fi_year_end f) (fl_year_end cur),
          fi_thirteenth = pick (fi_thirteenth f) (fl_thirteenth cur)\<rparr>)"

definition update_source :: "jstr \<Rightarrow> int \<Rightarrow> update_source_dto \<Rightarrow> source_state \<Rightarrow> (source_error + journal_source) \<times> source_state" where
  "update_source event_id now dto st =
     (case load_source st (us_tenant dto) (us_code dto) of
        Inl e \<Rightarrow> (Inl e, st)
      | Inr r \<Rightarrow>
        if js_reserved r then (Inl (ReservedImmutable (js_code r)), st)
        else if (case us_name dto of None \<Rightarrow> False | Some n \<Rightarrow> \<not> is_valid_source_name n)
        then (Inl (SourceValidation (js ''INVALID_NAME'') (js ''name must be 1-120 characters'')), st)
        else if us_name dto = None \<and> us_flags dto = None then (Inr r, st)
        else
          let u = r\<lparr>js_name := (case us_name dto of None \<Rightarrow> js_name r | Some n \<Rightarrow> js_trim n),
                   js_flags := (case us_flags dto of None \<Rightarrow> js_flags r | Some f \<Rightarrow> normalize_flags (Some (merge_flags (js_flags r) f))),
                   js_version := js_version r + 1\<rparr>
          in (Inr u, source_emit ''coa.source.updated'' (us_tenant dto) u (us_actor dto) event_id now
                (source_audit (us_tenant dto) (js_code r) (us_actor dto) ''UPDATE'' (Some (source_snapshot r)) (source_snapshot u)
                  (save_source u st))))"

definition deactivate_source :: "jstr \<Rightarrow> int \<Rightarrow> jstr \<Rightarrow> jstr \<Rightarrow> jstr \<Rightarrow> source_state \<Rightarrow> (source_error + journal_source) \<times> source_state" where
  "deactivate_source event_id now tenant code actor st =
     (case load_source st tenant code of
        Inl e \<Rightarrow> (Inl e, st)
      | Inr r \<Rightarrow>
        if js_reserved r then (Inl (ReservedImmutable (js_code r)), st)
        else if js_status r = js ''INACTIVE'' then (Inr r, st)
        else
          let u = r\<lparr>js_status := js ''INACTIVE'', js_version := js_version r + 1\<rparr>
          in (Inr u, source_emit ''coa.source.deactivated'' tenant u actor event_id now
                (source_audit tenant (js_code r) actor ''DEACTIVATE'' (Some (source_snapshot r)) (source_snapshot u)
                  (save_source u st))))"

definition assert_usable_by_manual :: "source_state \<Rightarrow> jstr \<Rightarrow> jstr \<Rightarrow> source_error + journal_source" where
  "assert_usable_by_manual st tenant code =
     bind_res (load_source st tenant code) (\<lambda>r.
       if js_class r = js ''SYSTEM'' then Inl (SystemSourceNotManual (js_code r))
       else if js_status r \<noteq> js ''ACTIVE''
       then Inl (SourceValidation (js ''SOURCE_INACTIVE'') (js ''Journal source \"'' @ js_code r @ js ''\" is inactive''))
       else Inr r)"

section \<open>Bootstrap\<close>

definition reserved_row :: "jstr \<Rightarrow> jstr \<Rightarrow> reserved_source \<Rightarrow> journal_source" where
  "reserved_row tenant new_id v =
     \<lparr>js_id = new_id, js_tenant = tenant, js_code = rv_code v, js_alias = Some (rv_alias v), js_name = rv_name v,
      js_class = rv_class v, js_reserved = True, js_flags = rv_flags v, js_status = js ''ACTIVE'', js_version = 1\<rparr>"

text \<open>\<open>ids\<close> and \<open>event_ids\<close> are the identifiers drawn for the rows and for their events, in order.\<close>

definition missing_sources :: "source_state \<Rightarrow> jstr \<Rightarrow> reserved_source list" where
  "missing_sources st tenant =
     filter (\<lambda>v. \<not> list_ex (\<lambda>r. js_tenant r = tenant \<and> js_code r = rv_code v) (so_sources st)) reserved_sources"

definition bootstrap_reserved ::
  "(nat \<Rightarrow> jstr) \<Rightarrow> (nat \<Rightarrow> jstr) \<Rightarrow> int \<Rightarrow> jstr \<Rightarrow> jstr \<Rightarrow> source_state \<Rightarrow> (nat \<times> nat) \<times> source_state" where
  "bootstrap_reserved ids event_ids now tenant actor st =
     (let missing = missing_sources st tenant; merged = length reserved_sources - length missing;
          rows = map (\<lambda>(i, v). reserved_row tenant (ids i) v) (enumerate 0 missing);
          st1 = source_audit tenant (js ''*reserved*'') actor ''BOOTSTRAP'' None
                  (JObj [(js ''created'', JNum (num_of_int (int (length rows)))), (js ''merged'', JNum (num_of_int (int merged)))])
                  (st\<lparr>so_sources := so_sources st @ rows\<rparr>)
      in ((length rows, merged),
          foldl (\<lambda>s (i, r). source_emit ''coa.source.created'' tenant r actor (event_ids i) now s) st1 (enumerate 0 rows)))"


section \<open>Properties\<close>

inductive source_step :: "source_state \<Rightarrow> source_state \<Rightarrow> bool" where
  source_created: "create_source new_id event_id now dto st = (r, st') \<Longrightarrow> new_id \<notin> js_id ` set (so_sources st) \<Longrightarrow> source_step st st'"
| source_updated: "update_source event_id now dto' st = (r, st') \<Longrightarrow> source_step st st'"
| source_deactivated: "deactivate_source event_id now tenant code actor st = (r, st') \<Longrightarrow> source_step st st'"
| source_bootstrapped: "bootstrap_reserved ids event_ids now tenant actor st = (n, st') \<Longrightarrow> inj ids
     \<Longrightarrow> range ids \<inter> js_id ` set (so_sources st) = {} \<Longrightarrow> source_step st st'"

lemma source_writes [simp, db_simps]:
  "so_sources (source_audit t c a e b f st) = so_sources st"
  "so_sources (source_emit ev t r a v w st) = so_sources st"
  "so_sources (save_source u st) = update_rows (\<lambda>r. js_id r = js_id u) (\<lambda>_. u) (so_sources st)"
  by (simp_all add: source_audit_def source_emit_def save_source_def)

lemma foldl_emit_sources [simp]:
  "so_sources (foldl (\<lambda>s (i, r). source_emit ev t r a (e i) w s) st rs) = so_sources st"
  by (induction rs arbitrary: st) auto

lemma load_source_Inr:
  "load_source st tenant raw = Inr r \<Longrightarrow> r \<in> set (so_sources st) \<and> js_tenant r = tenant \<and> js_code r = to_upper (js_trim raw)"
  by (auto simp: load_source_def Let_def dest: find_row_Some split: option.splits)

text \<open>
  What a call does to the table: replace an unreserved row by one of the same identity, or add rows with new
  identifiers and codes, of which only reserved ones are SYSTEM sources.
\<close>

definition same_key :: "journal_source \<Rightarrow> journal_source \<Rightarrow> bool" where
  "same_key r u \<longleftrightarrow> js_id u = js_id r \<and> js_tenant u = js_tenant r \<and> js_code u = js_code r \<and> js_class u = js_class r
     \<and> js_reserved u = js_reserved r"

definition source_row_ok :: "journal_source \<Rightarrow> bool" where
  "source_row_ok r \<longleftrightarrow> is_valid_code (js_code r) \<and> is_valid_class (js_class r) \<and> (js_class r = js ''SYSTEM'' \<longrightarrow> js_reserved r)"

definition source_inv :: "source_state \<Rightarrow> bool" where
  "source_inv st \<longleftrightarrow> distinct (map js_id (so_sources st)) \<and> distinct (map (\<lambda>r. (js_tenant r, js_code r)) (so_sources st))
     \<and> (\<forall>r \<in> set (so_sources st). source_row_ok r)"

definition source_change :: "source_state \<Rightarrow> source_state \<Rightarrow> bool" where
  "source_change st st' \<longleftrightarrow> so_sources st' = so_sources st
     \<or> (\<exists>r u. r \<in> set (so_sources st) \<and> \<not> js_reserved r \<and> same_key r u
          \<and> so_sources st' = update_rows (\<lambda>x. js_id x = js_id r) (\<lambda>_. u) (so_sources st))
     \<or> (\<exists>new. so_sources st' = so_sources st @ new \<and> (\<forall>r \<in> set new. source_row_ok r)
          \<and> distinct (map js_id new) \<and> distinct (map (\<lambda>r. (js_tenant r, js_code r)) new)
          \<and> js_id ` set new \<inter> js_id ` set (so_sources st) = {}
          \<and> (\<lambda>r. (js_tenant r, js_code r)) ` set new \<inter> (\<lambda>r. (js_tenant r, js_code r)) ` set (so_sources st) = {})"

lemma create_source_change:
  assumes "create_source new_id event_id now dto st = (r, st')" and "new_id \<notin> js_id ` set (so_sources st)"
  shows "source_change st st'"
proof -
  let ?code = "to_upper (js_trim (cd_code dto))"
  show ?thesis
  proof (cases "is_valid_code ?code \<and> is_valid_source_name (cd_name dto)
      \<and> \<not> (case cd_class dto of None \<Rightarrow> False | Some c \<Rightarrow> \<not> is_valid_class c) \<and> cd_class dto \<noteq> Some (js ''SYSTEM'')
      \<and> \<not> list_ex (\<lambda>r. js_tenant r = cd_tenant dto \<and> js_code r = ?code) (so_sources st)")
    case True
    then obtain r' where "so_sources st' = so_sources st @ [r']" "js_id r' = new_id" "js_tenant r' = cd_tenant dto" "js_code r' = ?code"
      "js_class r' = js ''MANUAL''"
      using assms(1) by (auto simp: create_source_def Let_def)
    moreover have "js ''MANUAL'' \<noteq> js ''SYSTEM''" by (simp add: js_def)
    ultimately show ?thesis using True assms(2) unfolding source_change_def
      by (intro disjI2 exI [of _ "[r']"]) (auto simp: source_row_ok_def is_valid_class_def list_ex_iff)
  next
    case False
    then have "st' = st" using assms(1) by (auto simp: create_source_def Let_def split: if_splits)
    then show ?thesis by (simp add: source_change_def)
  qed
qed

lemma replace_source_change:
  "r \<in> set (so_sources st) \<Longrightarrow> \<not> js_reserved r \<Longrightarrow> same_key r u \<Longrightarrow>
     so_sources st' = update_rows (\<lambda>x. js_id x = js_id r) (\<lambda>_. u) (so_sources st) \<Longrightarrow> source_change st st'"
  unfolding source_change_def by blast

lemma update_source_change:
  assumes "update_source event_id now dto st = (r, st')"
  shows "source_change st st'"
proof (cases "load_source st (us_tenant dto) (us_code dto)")
  case (Inr c)
  let ?u = "c\<lparr>js_name := (case us_name dto of None \<Rightarrow> js_name c | Some n \<Rightarrow> js_trim n),
     js_flags := (case us_flags dto of None \<Rightarrow> js_flags c | Some f \<Rightarrow> normalize_flags (Some (merge_flags (js_flags c) f))),
     js_version := js_version c + 1\<rparr>"
  show ?thesis
  proof (cases "js_reserved c \<or> (case us_name dto of None \<Rightarrow> False | Some n \<Rightarrow> \<not> is_valid_source_name n)
      \<or> us_name dto = None \<and> us_flags dto = None")
    case True
    then have "st' = st" using assms Inr by (auto simp: update_source_def split: if_splits)
    then show ?thesis by (simp add: source_change_def)
  next
    case False
    then have "so_sources st' = update_rows (\<lambda>x. js_id x = js_id c) (\<lambda>_. ?u) (so_sources st)"
      using assms Inr by (simp only: update_source_def Let_def) auto
    then show ?thesis using load_source_Inr [OF Inr] False by (intro replace_source_change [of c _ ?u]) (auto simp: same_key_def)
  qed
qed (use assms in \<open>simp add: update_source_def source_change_def\<close>)

lemma deactivate_source_change:
  assumes "deactivate_source event_id now tenant code actor st = (r, st')"
  shows "source_change st st'"
proof (cases "load_source st tenant code")
  case (Inr c)
  let ?u = "c\<lparr>js_status := js ''INACTIVE'', js_version := js_version c + 1\<rparr>"
  show ?thesis
  proof (cases "js_reserved c \<or> js_status c = js ''INACTIVE''")
    case True
    then have "st' = st" using assms Inr by (auto simp: deactivate_source_def split: if_splits)
    then show ?thesis by (simp add: source_change_def)
  next
    case False
    then have "so_sources st' = update_rows (\<lambda>x. js_id x = js_id c) (\<lambda>_. ?u) (so_sources st)"
      using assms Inr by (auto simp: deactivate_source_def Let_def)
    then show ?thesis using load_source_Inr [OF Inr] False by (intro replace_source_change [of c _ ?u]) (auto simp: same_key_def)
  qed
qed (use assms in \<open>simp add: deactivate_source_def source_change_def\<close>)

lemma reserved_valid: "v \<in> set reserved_sources \<Longrightarrow> is_valid_code (rv_code v) \<and> is_valid_class (rv_class v)"
proof -
  have "list_all (\<lambda>v. is_valid_code (rv_code v) \<and> is_valid_class (rv_class v)) reserved_sources" by code_simp
  then show "v \<in> set reserved_sources \<Longrightarrow> ?thesis" by (auto simp: list_all_iff)
qed

lemma reserved_distinct: "distinct (map rv_code reserved_sources)"
  by code_simp

lemma bootstrap_rows:
  "so_sources (snd (bootstrap_reserved ids event_ids now tenant actor st)) =
     so_sources st @ map (\<lambda>(i, v). reserved_row tenant (ids i) v) (enumerate 0 (missing_sources st tenant))"
  by (simp add: bootstrap_reserved_def Let_def)

lemma map_enumerate_snd: "map (\<lambda>(i, v). f v) (enumerate n xs) = map f xs"
  by (induction xs arbitrary: n) auto

lemma bootstrap_change:
  assumes "bootstrap_reserved ids event_ids now tenant actor st = (n, st')" and "inj ids"
    and "range ids \<inter> js_id ` set (so_sources st) = {}"
  shows "source_change st st'"
proof -
  let ?miss = "missing_sources st tenant"
  let ?new = "map (\<lambda>(i, v). reserved_row tenant (ids i) v) (enumerate 0 ?miss)"
  have rows: "so_sources st' = so_sources st @ ?new" using bootstrap_rows [of ids event_ids now tenant actor st] assms(1) by simp
  have simps [simp]: "js_id (reserved_row tenant i v) = i" "js_tenant (reserved_row tenant i v) = tenant"
    "js_code (reserved_row tenant i v) = rv_code v" "js_class (reserved_row tenant i v) = rv_class v"
    "js_reserved (reserved_row tenant i v)" for i v by (simp_all add: reserved_row_def)
  have m: "set ?miss \<subseteq> set reserved_sources" "distinct (map rv_code ?miss)"
    using reserved_distinct by (auto simp: missing_sources_def distinct_map_filter)
  have "map js_id ?new = map (\<lambda>(i, v). ids i) (enumerate 0 ?miss)" by (simp add: comp_def case_prod_unfold)
  also have "\<dots> = map ids [0..<length ?miss]"
    by (simp add: enumerate_eq_zip case_prod_unfold map_zip_map [of fst, symmetric] comp_def flip: map_map [of ids fst, unfolded comp_def])
  finally have ids: "map js_id ?new = map ids [0..<length ?miss]" .
  have codes: "map (\<lambda>r. (js_tenant r, js_code r)) ?new = map (\<lambda>v. (tenant, rv_code v)) ?miss"
    using map_enumerate_snd [of "\<lambda>v. (tenant, rv_code v)" 0 ?miss] by (simp add: comp_def case_prod_unfold)
  have "\<forall>r \<in> set ?new. source_row_ok r"
    using m(1) reserved_valid by (auto simp: source_row_ok_def in_set_enumerate_eq dest!: nth_mem)
  moreover have "distinct (map js_id ?new)" unfolding ids using assms(2) by (simp add: distinct_map inj_on_def)
  moreover have "distinct (map (\<lambda>r. (js_tenant r, js_code r)) ?new)"
    unfolding codes using m(2) by (auto simp: distinct_map inj_on_def)
  moreover have "js_id ` set ?new \<inter> js_id ` set (so_sources st) = {}"
  proof -
    have "js_id ` set ?new \<subseteq> range ids" by auto
    then show ?thesis using assms(3) by blast
  qed
  moreover have "(\<lambda>r. (js_tenant r, js_code r)) ` set ?new \<inter> (\<lambda>r. (js_tenant r, js_code r)) ` set (so_sources st) = {}"
  proof -
    have "(\<lambda>r. (js_tenant r, js_code r)) ` set ?new = (\<lambda>v. (tenant, rv_code v)) ` set ?miss"
      using arg_cong [OF codes, of set] by (simp only: set_map)
    moreover have "(tenant, rv_code v) \<noteq> (js_tenant r, js_code r)" if "v \<in> set ?miss" "r \<in> set (so_sources st)" for v r
      using that by (auto simp: missing_sources_def list_ex_iff)
    ultimately show ?thesis by auto
  qed
  ultimately show ?thesis unfolding source_change_def using rows by blast
qed

lemma source_step_change: "source_step st st' \<Longrightarrow> source_change st st'"
  by (induction rule: source_step.induct)
     (rule create_source_change update_source_change deactivate_source_change bootstrap_change; assumption)+

lemma source_change_keeps:
  assumes "source_change st st'" and "distinct (map js_id (so_sources st))"
  shows "r \<in> set (so_sources st) \<Longrightarrow> js_reserved r \<Longrightarrow> r \<in> set (so_sources st')"
  using assms(1) unfolding source_change_def
proof (elim disjE exE conjE)
  fix c u
  assume r: "r \<in> set (so_sources st)" "js_reserved r" and c: "c \<in> set (so_sources st)" "\<not> js_reserved c"
    and st': "so_sources st' = update_rows (\<lambda>x. js_id x = js_id c) (\<lambda>_. u) (so_sources st)"
  have "js_id r \<noteq> js_id c" using assms(2) r c by (auto simp: distinct_map dest: inj_onD)
  then show "r \<in> set (so_sources st')" unfolding st' set_update_rows using r(1) by (intro image_eqI [where x = r]) simp_all
qed auto

lemma map_update_key:
  "(\<And>x. x \<in> set rows \<Longrightarrow> P x \<Longrightarrow> f x = f u) \<Longrightarrow> map f (update_rows P (\<lambda>_. u) rows) = map f rows"
  by (induction rows) auto

lemma source_change_inv:
  assumes "source_change st st'" and "source_inv st"
  shows "source_inv st'"
  using assms(1) unfolding source_change_def
proof (elim disjE exE conjE)
  fix c u
  assume c: "c \<in> set (so_sources st)" "same_key c u"
    and st': "so_sources st' = update_rows (\<lambda>x. js_id x = js_id c) (\<lambda>_. u) (so_sources st)"
  have one: "x = c" if "x \<in> set (so_sources st)" "js_id x = js_id c" for x
    using assms(2) that c(1) by (auto simp: source_inv_def distinct_map dest: inj_onD)
  have "map js_id (so_sources st') = map js_id (so_sources st)"
    "map (\<lambda>r. (js_tenant r, js_code r)) (so_sources st') = map (\<lambda>r. (js_tenant r, js_code r)) (so_sources st)"
    unfolding st' using c(2) by (auto intro!: map_update_key dest!: one simp: same_key_def)
  moreover have "source_row_ok u" using assms(2) c by (auto simp: source_inv_def source_row_ok_def same_key_def)
  ultimately show "source_inv st'" using assms(2) by (auto simp: source_inv_def st' set_update_rows)
next
  fix new
  assume "so_sources st' = so_sources st @ new" "\<forall>r \<in> set new. source_row_ok r" "distinct (map js_id new)"
    "distinct (map (\<lambda>r. (js_tenant r, js_code r)) new)" "js_id ` set new \<inter> js_id ` set (so_sources st) = {}"
    "(\<lambda>r. (js_tenant r, js_code r)) ` set new \<inter> (\<lambda>r. (js_tenant r, js_code r)) ` set (so_sources st) = {}"
  then show "source_inv st'" using assms(2) by (simp add: source_inv_def) blast
qed (use assms(2) in \<open>simp add: source_inv_def\<close>)

definition empty_sources :: source_state where
  "empty_sources = \<lparr>so_sources = [], so_audit = [], so_outbox = []\<rparr>"

lemma source_run_inv: "source_step\<^sup>*\<^sup>* st st' \<Longrightarrow> source_inv st \<Longrightarrow> source_inv st'"
  by (induction rule: rtranclp_induct) (auto intro: source_change_inv source_step_change)

lemma empty_sources_inv: "source_inv empty_sources"
  by (simp add: source_inv_def empty_sources_def)

lemma source_run_keeps:
  "source_step\<^sup>*\<^sup>* st st' \<Longrightarrow> source_inv st \<Longrightarrow> r \<in> set (so_sources st) \<Longrightarrow> js_reserved r \<Longrightarrow> r \<in> set (so_sources st')"
proof (induction rule: rtranclp_induct)
  case (step y z)
  then show ?case using source_change_keeps [OF source_step_change [OF step.hyps(2)]] source_run_inv [OF step.hyps(1)]
    by (simp add: source_inv_def)
qed simp

text \<open>
  A reserved source is immutable: once in the table, its row stays as it is under every sequence of calls,
  and every SYSTEM source is a reserved one, so no tenant can add or change one.
\<close>

theorem reserved_sources_immutable:
  assumes "source_step\<^sup>*\<^sup>* empty_sources st" and "source_step\<^sup>*\<^sup>* st st'" and "r \<in> set (so_sources st)"
    and "js_reserved r \<or> js_class r = js ''SYSTEM''"
  shows "js_reserved r \<and> r \<in> set (so_sources st')"
proof -
  have inv: "source_inv st" using source_run_inv [OF assms(1) empty_sources_inv] .
  then have "js_reserved r" using assms(3,4) by (auto simp: source_inv_def source_row_ok_def)
  then show ?thesis using source_run_keeps [OF assms(2) inv assms(3)] by simp
qed

definition demo_ids :: "nat \<Rightarrow> jstr" where
  "demo_ids i = replicate (Suc i) 1"

definition demo_boot :: source_state where
  "demo_boot = snd (bootstrap_reserved demo_ids demo_ids 0 [7] [9] empty_sources)"

lemma demo_boot_step: "source_step empty_sources demo_boot"
proof -
  have "inj demo_ids" by (rule injI) (metis demo_ids_def length_replicate old.nat.inject)
  then show ?thesis unfolding demo_boot_def
    by (intro source_bootstrapped [OF surjective_pairing]) (simp_all add: empty_sources_def)
qed

theorem reserved_sources_immutable_witness:
  "list_all (\<lambda>r. r \<in> set (so_sources (snd (deactivate_source [2] 0 [7] (js ''svc'') [9] demo_boot)))) (so_sources demo_boot)
     \<and> length (so_sources demo_boot) = 9"
proof
  have run: "source_step\<^sup>*\<^sup>* empty_sources demo_boot" using demo_boot_step by (rule r_into_rtranclp)
  have step: "source_step\<^sup>*\<^sup>* demo_boot (snd (deactivate_source [2] 0 [7] (js ''svc'') [9] demo_boot))"
    by (rule r_into_rtranclp, rule source_deactivated [OF surjective_pairing])
  have "list_all js_reserved (so_sources demo_boot)" by code_simp
  then show "list_all (\<lambda>r. r \<in> set (so_sources (snd (deactivate_source [2] 0 [7] (js ''svc'') [9] demo_boot)))) (so_sources demo_boot)"
    using reserved_sources_immutable [OF run step] unfolding list_all_iff by blast
  show "length (so_sources demo_boot) = 9" by code_simp
qed

lemma bootstrap_complete:
  "v \<in> set reserved_sources \<Longrightarrow>
     \<exists>r \<in> set (so_sources (snd (bootstrap_reserved ids event_ids now tenant actor st))). js_tenant r = tenant \<and> js_code r = rv_code v"
proof (cases "v \<in> set (missing_sources st tenant)")
  case True
  then obtain i where "i < length (missing_sources st tenant)" "v = missing_sources st tenant ! i"
    by (auto simp: in_set_conv_nth)
  then have "(i, v) \<in> set (enumerate 0 (missing_sources st tenant))" by (simp add: in_set_enumerate_eq)
  then have "reserved_row tenant (ids i) v \<in> set (so_sources (snd (bootstrap_reserved ids event_ids now tenant actor st)))"
    unfolding bootstrap_rows by force
  then show ?thesis by (intro bexI) (simp_all add: reserved_row_def)
qed (auto simp: bootstrap_rows missing_sources_def list_ex_iff)

text \<open>
  Bootstrap is idempotent: after a first run, whatever the tenant had, a second run creates nothing, merges
  the nine reserved sources and leaves the table as it is.
\<close>

theorem bootstrap_idempotent:
  "(case bootstrap_reserved ids event_ids now tenant actor st of
      (_, st1) \<Rightarrow> (case bootstrap_reserved ids' event_ids' now' tenant actor' st1 of
        (result, st2) \<Rightarrow> result = (0, 9) \<and> so_sources st2 = so_sources st1))"
proof -
  let ?st1 = "snd (bootstrap_reserved ids event_ids now tenant actor st)"
  have none: "missing_sources ?st1 tenant = []"
    using bootstrap_complete [of _ ids event_ids now tenant actor st] unfolding missing_sources_def
    by (auto simp: filter_empty_conv list_ex_iff)
  have "length reserved_sources = 9" by (simp add: reserved_sources_def)
  then show ?thesis using none bootstrap_rows [of ids' event_ids' now' tenant actor' ?st1]
    by (simp add: case_prod_unfold) (simp add: bootstrap_reserved_def none Let_def)
qed

end
