(* ===== verification/PostingService.thy ===== *)
theory PostingService
  imports AccountService AnalysisCodes FiscalService SourceService
begin

text \<open>
  \<open>application/posting-service.ts\<close> and \<open>lib/serializable-retry.ts\<close>: the one door by which journals enter
  the ledger. A posting has two phases, which other calls may interleave: \<open>post_prepare\<close> (idempotency
  look-up, resolution of the reference data, evaluation, allocation of the number) and \<open>post_commit\<close> (the
  serializable transaction with its constraints and triggers, its retries, and the gap log on failure).
\<close>

section \<open>Rows\<close>

record journal_entry =
  je_id :: jstr
  je_tenant :: jstr
  je_entity :: jstr
  je_number :: jstr
  je_source :: jstr
  je_period :: jstr
  je_period_code :: jstr
  je_date :: int
  je_memo :: "jstr option"
  je_status :: jstr
  je_key :: jstr
  je_debits :: int
  je_credits :: int
  je_reversal_of :: "jstr option"
  je_reversed_by :: "jstr option"
  je_reversal_reason :: "jstr option"
  je_draft :: "jstr option"
  je_posted_by :: jstr
  je_adjusting :: bool
  je_adjusting_reason :: "jstr option"
  je_correction_ref :: "jstr option"

record journal_line =
  jl_id :: jstr
  jl_entry :: jstr
  jl_tenant :: jstr
  jl_index :: nat
  jl_account :: jstr
  jl_number :: jstr
  jl_store :: jstr
  jl_dept :: "jstr option"
  jl_control :: "jstr option"
  jl_apply :: "jstr option"
  jl_dr :: int
  jl_cr :: int
  jl_memo :: "jstr option"

record line_tag =
  lt_line :: jstr
  lt_tenant :: jstr
  lt_type :: jstr
  lt_value :: jstr

record balance_snapshot =
  bs_tenant :: jstr
  bs_entity :: jstr
  bs_account :: jstr
  bs_entry :: jstr
  bs_number :: jstr
  bs_period :: jstr
  bs_dr :: int
  bs_cr :: int
  bs_delta :: int
  bs_after :: int

text \<open>
  The tables a posting reads and writes. An attestation is a draft and its tenant; \<open>lb_published\<close> holds the
  messages handed to the broker after a commit.
\<close>

record ledger =
  lb_accounts :: "gl_account list"
  lb_periods :: "fiscal_period list"
  lb_sources :: "journal_source list"
  lb_registry :: registry
  lb_sequence :: sequence_state
  lb_entries :: "journal_entry list"
  lb_lines :: "journal_line list"
  lb_tags :: "line_tag list"
  lb_snapshots :: "balance_snapshot list"
  lb_attestations :: "(jstr \<times> jstr) list"
  lb_audit :: "audit_event list"
  lb_outbox :: "outbox_event list"
  lb_published :: "outbox_event list"

datatype tx_error =
    SerializationFailure
  | PeriodNotPostable
  | PeriodRowMissing
  | PeriodMismatch
  | AttestationInvalid
  | DuplicateNumber
  | DuplicateKey
  | NumericOverflow
  | TextTooLong
  | BadDate
  | LineNotOneSided
  | AccountRowMissing
  | JournalUnbalanced
  | RetryExhausted

datatype post_error =
    PostingInput jstr
  | PostingViolations "violation list"
  | TagViolations "tag_violation list"
  | PostingSequence sequence_error
  | PostingFailed tx_error

record post_journal_dto =
  pj_tenant :: jstr
  pj_entity :: jstr
  pj_date :: jstr
  pj_source :: jstr
  pj_memo :: "jstr option"
  pj_key :: jstr
  pj_caller_class :: "jstr option"
  pj_posted_by :: "jstr option"
  pj_draft :: "jstr option"
  pj_adjusting :: bool
  pj_adjusting_reason :: "jstr option"
  pj_correction_ref :: "jstr option"
  pj_reversal_of :: "jstr option"
  pj_reversal_reason :: "jstr option"
  pj_lines :: "posting_line list"

record post_result =
  po_id :: jstr
  po_number :: jstr
  po_period :: jstr
  po_debits :: jsnum
  po_credits :: jsnum
  po_status :: jstr
  po_idempotent :: bool

section \<open>Columns\<close>

text \<open>
  A number written to a \<open>NUMERIC(15,2)\<close> column, in cents: rounded half away from zero, refused when it needs
  more than thirteen digits before the point. Every number the code writes is a whole number of cents divided
  by 100, for which rounding the double and rounding its shortest decimal text agree.
\<close>

definition half_away :: "rat \<Rightarrow> int" where
  "half_away x = (if 0 \<le> x then \<lfloor>x + 1 / 2\<rfloor> else - \<lfloor>1 / 2 - x\<rfloor>)"

definition fits_money :: "int \<Rightarrow> bool" where
  "fits_money c = (\<bar>c\<bar> < 10 ^ 15)"

fun rounded_cents :: "jsnum \<Rightarrow> tx_error + int" where
  "rounded_cents (Fin q) = Inr (half_away (q * 100))"
| "rounded_cents n = Inl NumericOverflow"

definition money :: "int \<Rightarrow> tx_error + int" where
  "money c = (if fits_money c then Inr c else Inl NumericOverflow)"

definition money_of :: "jsnum \<Rightarrow> tx_error + int" where
  "money_of n = bind_res (rounded_cents n) money"

text \<open>A \<open>VARCHAR(n)\<close> column counts characters: a surrogate pair is one.\<close>

fun char_count :: "jstr \<Rightarrow> nat" where
  "char_count [] = 0"
| "char_count [c] = 1"
| "char_count (c # d # s) =
     (if 0xD800 \<le> c \<and> c \<le> 0xDBFF \<and> 0xDC00 \<le> d \<and> d \<le> 0xDFFF then Suc (char_count s) else Suc (char_count (d # s)))"

definition short_text :: "nat \<Rightarrow> jstr option \<Rightarrow> tx_error + jstr option" where
  "short_text n v = (case v of None \<Rightarrow> Inr None | Some s \<Rightarrow> if char_count s \<le> n then Inr (Some s) else Inl TextTooLong)"

section \<open>Triggers and constraints\<close>

text \<open>\<open>enforce_period_postable\<close>, before an insert into \<open>journal_entry\<close>.\<close>

definition enforce_period_postable :: "ledger \<Rightarrow> journal_entry \<Rightarrow> tx_error + unit" where
  "enforce_period_postable st e =
     (case find_row (\<lambda>p. fp_id p = je_period e) (lb_periods st) of
        None \<Rightarrow> Inl PeriodRowMissing
      | Some p \<Rightarrow>
        if fp_tenant p \<noteq> je_tenant e \<or> fp_entity p \<noteq> je_entity e then Inl PeriodMismatch
        else if fp_status p = OPEN then Inr ()
        else if fp_status p = SOFT_CLOSED \<and> je_adjusting e
        then (case je_draft e of
                None \<Rightarrow> Inl AttestationInvalid
              | Some d \<Rightarrow> if (d, je_tenant e) \<in> set (lb_attestations st) then Inr () else Inl AttestationInvalid)
        else Inl PeriodNotPostable)"

definition insert_entry :: "journal_entry \<Rightarrow> ledger \<Rightarrow> tx_error + ledger" where
  "insert_entry e st =
     bind_res (enforce_period_postable st e) (\<lambda>_.
       if list_ex (\<lambda>r. je_entity r = je_entity e \<and> je_number r = je_number e) (lb_entries st) then Inl DuplicateNumber
       else if list_ex (\<lambda>r. je_tenant r = je_tenant e \<and> je_key r = je_key e) (lb_entries st) then Inl DuplicateKey
       else Inr (st\<lparr>lb_entries := lb_entries st @ [e]\<rparr>))"

text \<open>The check constraint \<open>journal_line_one_side\<close>.\<close>

definition insert_line :: "journal_line \<Rightarrow> ledger \<Rightarrow> tx_error + ledger" where
  "insert_line l st =
     (if 0 < jl_dr l \<and> jl_cr l = 0 \<or> 0 < jl_cr l \<and> jl_dr l = 0
      then Inr (st\<lparr>lb_lines := lb_lines st @ [l]\<rparr>) else Inl LineNotOneSided)"

text \<open>\<open>je_check_balanced\<close>, deferred to the end of the transaction.\<close>

definition je_check_balanced :: "jstr \<Rightarrow> ledger \<Rightarrow> tx_error + unit" where
  "je_check_balanced i st =
     (let ls = filter (\<lambda>l. jl_entry l = i) (lb_lines st); d = sum_list (map jl_dr ls); c = sum_list (map jl_cr ls)
      in if d = 0 \<or> d \<noteq> c then Inl JournalUnbalanced else Inr ())"

section \<open>Reference data\<close>

definition resolved_row :: "gl_account \<Rightarrow> resolved_account" where
  "resolved_row r = \<lparr>ra_id = ga_id r, ra_account_number = ga_number r, ra_type = ga_type r, ra_normal_balance = ga_normal r,
     ra_postable = ga_postable r, ra_status = ga_status r, ra_schedule_code = ga_schedule r\<rparr>"

definition resolve_context :: "post_journal_dto \<Rightarrow> jstr \<Rightarrow> ledger \<Rightarrow> posting_context" where
  "resolve_context dto caller st =
     (let ids = filter (\<lambda>i. i \<noteq> []) (map pl_account_id (pj_lines dto))
      in \<lparr>pc_caller_class = caller,
          pc_accounts = (\<lambda>i. if i \<in> set ids
            then map_option resolved_row (find_row (\<lambda>a. ga_id a = i \<and> ga_tenant a = pj_tenant dto \<and> ga_entity a = pj_entity dto)
                   (lb_accounts st)) else None),
          pc_period = (case fiscal_resolve (lb_periods st) (pj_tenant dto) (pj_entity dto) (pj_date dto) of
             Inl _ \<Rightarrow> None
           | Inr p \<Rightarrow> Some \<lparr>rp_id = fp_id p, rp_code = fp_code p, rp_status = status_str (fp_status p),
                             rp_adjustments_only = fp_adjustments_only p\<rparr>),
          pc_source = map_option (\<lambda>r. \<lparr>rs_code = js_code r, rs_class = js_class r, rs_status = js_status r\<rparr>)
            (find_row (\<lambda>r. js_tenant r = pj_tenant dto \<and> js_code r = pj_source dto) (lb_sources st))\<rparr>)"

section \<open>First phase\<close>

definition find_entry :: "jstr \<Rightarrow> jstr \<Rightarrow> ledger \<Rightarrow> journal_entry option" where
  "find_entry tenant key st = find_row (\<lambda>e. je_tenant e = tenant \<and> je_key e = key) (lb_entries st)"

definition earlier_result :: "journal_entry \<Rightarrow> post_result" where
  "earlier_result e = \<lparr>po_id = je_id e, po_number = je_number e, po_period = je_period_code e,
     po_debits = cents_to_dollars (num_of_int (je_debits e)), po_credits = cents_to_dollars (num_of_int (je_credits e)),
     po_status = je_status e, po_idempotent = True\<rparr>"

definition check_input :: "post_journal_dto \<Rightarrow> post_error + unit" where
  "check_input dto =
     (if pj_tenant dto = [] then Inl (PostingInput (js ''tenantId is required''))
      else if pj_entity dto = [] then Inl (PostingInput (js ''entityId is required''))
      else if pj_date dto = [] then Inl (PostingInput (js ''date is required''))
      else if pj_source dto = [] then Inl (PostingInput (js ''sourceCode is required''))
      else if pj_key dto = [] then Inl (PostingInput (js ''idempotencyKey is required''))
      else Inr ())"

definition posting_header_of :: "post_journal_dto \<Rightarrow> posting_header" where
  "posting_header_of dto = \<lparr>ph_entity_id = pj_entity dto, ph_date = pj_date dto, ph_source_code = pj_source dto,
     ph_memo = pj_memo dto, ph_idempotency_key = pj_key dto, ph_is_adjusting = pj_adjusting dto\<rparr>"

definition caller_class :: "post_journal_dto \<Rightarrow> jstr" where
  "caller_class dto = (case pj_caller_class dto of None \<Rightarrow> js ''MANUAL'' | Some c \<Rightarrow> c)"

definition tag_violations :: "post_journal_dto \<Rightarrow> ledger \<Rightarrow> tag_violation list" where
  "tag_violations dto st =
     (if list_ex (\<lambda>l. pl_tags l \<noteq> []) (pj_lines dto)
      then let ctx = load_validation_context (lb_registry st) (pj_tenant dto)
           in concat (map (\<lambda>(i, l). validate_line_tags (pl_tags l) ctx (Some i)) (enumerate 0 (pj_lines dto)))
      else [])"

record prepared =
  pr_dto :: post_journal_dto
  pr_ctx :: posting_context
  pr_period :: resolved_period
  pr_debits :: jsnum
  pr_credits :: jsnum
  pr_alloc :: allocation_result

datatype prepare_outcome = AlreadyPosted post_result | ReadyToCommit prepared

definition post_prepare :: "post_journal_dto \<Rightarrow> ledger \<Rightarrow> (post_error + prepare_outcome) \<times> ledger" where
  "post_prepare dto st =
     (case check_input dto of
        Inl e \<Rightarrow> (Inl e, st)
      | Inr _ \<Rightarrow>
        (case find_entry (pj_tenant dto) (pj_key dto) st of
           Some e \<Rightarrow> (Inr (AlreadyPosted (earlier_result e)), st)
         | None \<Rightarrow>
           let ctx = resolve_context dto (caller_class dto) st;
               result = evaluate (posting_header_of dto) (pj_lines dto) ctx;
               period = the (pc_period ctx)
           in if \<not> er_pass result then (Inl (PostingViolations (er_violations result)), st)
              else if tag_violations dto st \<noteq> [] then (Inl (TagViolations (tag_violations dto st)), st)
              else
                (case allocate \<lparr>al_tenant = pj_tenant dto, al_source = pj_source dto, al_entity = pj_entity dto,
                        al_period = rp_code period, al_actor = Some (actor_or_system (pj_posted_by dto))\<rparr> (lb_sequence st) of
                   (Inl e, sqs) \<Rightarrow> (Inl (PostingSequence e), st\<lparr>lb_sequence := sqs\<rparr>)
                 | (Inr alloc, sqs) \<Rightarrow>
                     (Inr (ReadyToCommit \<lparr>pr_dto = dto, pr_ctx = ctx, pr_period = period,
                        pr_debits = er_total_debits_cents result, pr_credits = er_total_credits_cents result, pr_alloc = alloc\<rparr>),
                      st\<lparr>lb_sequence := sqs\<rparr>))))"

section \<open>Second phase\<close>

text \<open>
  What the transaction takes from outside: the parser of dates, which attempts the database aborts with a
  serialization failure, the text of a failure, the clock, and the identifiers drawn.
\<close>

record posting_env =
  px_parse_date :: "jstr \<Rightarrow> int option"
  px_conflict :: "nat \<Rightarrow> bool"
  px_message :: "tx_error \<Rightarrow> jstr"
  px_now :: int
  px_entry_id :: jstr
  px_line_id :: "nat \<Rightarrow> jstr"
  px_event_id :: jstr

definition entry_instant :: "posting_env \<Rightarrow> prepared \<Rightarrow> tx_error + int" where
  "entry_instant px p = (case px_parse_date px (pj_date (pr_dto p)) of None \<Rightarrow> Inl BadDate | Some t \<Rightarrow> Inr t)"

definition entry_row :: "posting_env \<Rightarrow> prepared \<Rightarrow> tx_error + journal_entry" where
  "entry_row px p =
     (let dto = pr_dto p in
      bind_res (entry_instant px p) (\<lambda>t.
      bind_res (short_text 500 (pj_memo dto)) (\<lambda>memo.
      bind_res (short_text 500 (pj_reversal_reason dto)) (\<lambda>reversal_reason.
      bind_res (short_text 500 (pj_adjusting_reason dto)) (\<lambda>adjusting_reason.
      bind_res (short_text 120 (pj_correction_ref dto)) (\<lambda>correction_ref.
      bind_res (money_of (cents_to_dollars (pr_debits p))) (\<lambda>d.
      bind_res (money_of (cents_to_dollars (pr_credits p))) (\<lambda>c.
        Inr \<lparr>je_id = px_entry_id px, je_tenant = pj_tenant dto, je_entity = pj_entity dto, je_number = ar_number (pr_alloc p),
             je_source = pj_source dto, je_period = rp_id (pr_period p), je_period_code = rp_code (pr_period p),
             je_date = t - t mod 86400000, je_memo = memo, je_status = js ''POSTED'', je_key = pj_key dto, je_debits = d,
             je_credits = c, je_reversal_of = pj_reversal_of dto, je_reversed_by = None, je_reversal_reason = reversal_reason,
             je_draft = pj_draft dto, je_posted_by = actor_or_system (pj_posted_by dto), je_adjusting = pj_adjusting dto,
             je_adjusting_reason = adjusting_reason, je_correction_ref = correction_ref\<rparr>))))))))"

definition line_row :: "posting_env \<Rightarrow> prepared \<Rightarrow> nat \<Rightarrow> posting_line \<Rightarrow> tx_error + journal_line" where
  "line_row px p i line =
     bind_res (money_of (cents_to_dollars (to_cents (pl_dr line)))) (\<lambda>d.
     bind_res (money_of (cents_to_dollars (to_cents (pl_cr line)))) (\<lambda>c.
     bind_res (short_text 500 (pl_memo line)) (\<lambda>memo.
       Inr \<lparr>jl_id = px_line_id px i, jl_entry = px_entry_id px, jl_tenant = pj_tenant (pr_dto p), jl_index = i,
            jl_account = pl_account_id line,
            jl_number = ra_account_number (the (pc_accounts (pr_ctx p) (pl_account_id line))),
            jl_store = pl_store_id line, jl_dept = pl_dept_code line, jl_control = pl_control_number line,
            jl_apply = pl_apply_number line, jl_dr = d, jl_cr = c, jl_memo = memo\<rparr>)))"

text \<open>The schedule-service message of a line whose account opted in and that carries a control number.\<close>

definition bridge_events :: "posting_env \<Rightarrow> prepared \<Rightarrow> int \<Rightarrow> posting_line \<Rightarrow> outbox_event list" where
  "bridge_events px p t line =
     (let dto = pr_dto p; acct = the (pc_accounts (pr_ctx p) (pl_account_id line));
          control = take 10 (opt_str (pl_control_number line));
          description = take 35 (case pl_memo line of Some m \<Rightarrow> m | None \<Rightarrow> opt_str (pj_memo dto))
      in if given (ra_schedule_code acct) \<and> given (pl_control_number line)
         then [\<lparr>oe_tenant = pj_tenant dto, oe_type = js ''JOURNAL_ENTRY_POSTED'',
                oe_aggregate = px_entry_id px @ js ''-schedule-bridge-'' @ ra_account_number acct @ js ''-'' @ control,
                oe_payload = JObj [(js ''tenantId'', JStr (pj_tenant dto)), (js ''journalEntryId'', JStr (px_entry_id px)),
                  (js ''glAccountNumber'', JStr (ra_account_number acct)), (js ''scheduleNumber'', JStr (opt_str (ra_schedule_code acct))),
                  (js ''controlNumber'', JStr control),
                  (js ''amount'', JStr (num_str (num_sub (num_div_by (to_cents (pl_dr line)) 100) (num_div_by (to_cents (pl_cr line)) 100)))),
                  (js ''referenceNumber'', JStr control), (js ''journalSource'', JStr (pj_source dto)),
                  (js ''transactionDate'', JStr (iso_time t)),
                  (js ''description'', if description = [] then JNull else JStr description),
                  (js ''applyNumber'', if given (pl_apply_number line) then JStr (take 12 (opt_str (pl_apply_number line))) else JNull),
                  (js ''applyCd'', if given (pl_apply_number line) then JStr (js ''#'') else JNull)]\<rparr>]
         else [])"

text \<open>Adding a line to its account's sides, in cents, as doubles.\<close>

definition add_sides :: "posting_line \<Rightarrow> (jstr \<times> jsnum \<times> jsnum) list \<Rightarrow> (jstr \<times> jsnum \<times> jsnum) list" where
  "add_sides line agg =
     (let (d, c) = (case map_of agg (pl_account_id line) of None \<Rightarrow> (Fin 0, Fin 0) | Some s \<Rightarrow> s)
      in put (pl_account_id line) (num_add d (to_cents (pl_dr line)), num_add c (to_cents (pl_cr line))) agg)"

definition tags_of :: "posting_env \<Rightarrow> prepared \<Rightarrow> nat \<Rightarrow> posting_line \<Rightarrow> line_tag list" where
  "tags_of px p i line = map (\<lambda>t. \<lparr>lt_line = px_line_id px i, lt_tenant = pj_tenant (pr_dto p), lt_type = tag_type_id t,
     lt_value = tag_value_id t\<rparr>) (pl_tags line)"

fun fold_res :: "('s \<Rightarrow> 'a \<Rightarrow> 'e + 's) \<Rightarrow> 's \<Rightarrow> 'a list \<Rightarrow> 'e + 's" where
  "fold_res f s [] = Inr s"
| "fold_res f s (x # xs) = bind_res (f s x) (\<lambda>s'. fold_res f s' xs)"

definition write_line :: "posting_env \<Rightarrow> prepared \<Rightarrow> ledger \<Rightarrow> nat \<times> posting_line \<Rightarrow> tx_error + ledger" where
  "write_line px p st il =
     (case il of (i, line) \<Rightarrow> bind_res (line_row px p i line) (\<lambda>row. bind_res (insert_line row st) (\<lambda>st1.
        Inr (st1\<lparr>lb_tags := lb_tags st1 @ tags_of px p i line\<rparr>))))"

definition write_account :: "posting_env \<Rightarrow> prepared \<Rightarrow> ledger \<Rightarrow> jstr \<times> jsnum \<times> jsnum \<Rightarrow> tx_error + ledger" where
  "write_account px p st agg =
     (case agg of (aid, drC, crC) \<Rightarrow>
        let acct = the (pc_accounts (pr_ctx p) aid); delta = balance_delta (ra_normal_balance acct) drC crC
        in case find_row (\<lambda>a. ga_id a = aid) (lb_accounts st) of
             None \<Rightarrow> Inl AccountRowMissing
           | Some a \<Rightarrow>
             bind_res (rounded_cents delta) (\<lambda>inc. bind_res (money (ga_balance a + inc)) (\<lambda>after.
             bind_res (money_of (cents_to_dollars drC)) (\<lambda>d. bind_res (money_of (cents_to_dollars crC)) (\<lambda>c.
             bind_res (money inc) (\<lambda>col.
               Inr (st\<lparr>lb_accounts := update_rows (\<lambda>a. ga_id a = aid)
                          (\<lambda>a. a\<lparr>ga_balance := after, ga_has_postings := True, ga_version := ga_version a + 1\<rparr>) (lb_accounts st),
                       lb_snapshots := lb_snapshots st @ [\<lparr>bs_tenant = pj_tenant (pr_dto p), bs_entity = pj_entity (pr_dto p),
                          bs_account = aid, bs_entry = px_entry_id px, bs_number = ar_number (pr_alloc p),
                          bs_period = rp_code (pr_period p), bs_dr = d, bs_cr = c, bs_delta = col, bs_after = after\<rparr>]\<rparr>)))))))"

definition posted_payload :: "posting_env \<Rightarrow> prepared \<Rightarrow> json" where
  "posted_payload px p =
     (let dto = pr_dto p in
      JObj [(js ''eventId'', JStr (px_event_id px)), (js ''tenantId'', JStr (pj_tenant dto)), (js ''entityId'', JStr (pj_entity dto)),
        (js ''journalNumber'', JStr (ar_number (pr_alloc p))), (js ''sourceCode'', JStr (pj_source dto)),
        (js ''periodCode'', JStr (rp_code (pr_period p))), (js ''reversalOf'', null_or_str (pj_reversal_of dto)),
        (js ''lines'', JArr (map (\<lambda>l. JObj [
            (js ''account'', JStr (ra_account_number (the (pc_accounts (pr_ctx p) (pl_account_id l))))),
            (js ''store'', JStr (pl_store_id l)), (js ''dept'', null_or_str (pl_dept_code l)),
            (js ''dr'', JNum (cents_to_dollars (to_cents (pl_dr l)))), (js ''cr'', JNum (cents_to_dollars (to_cents (pl_cr l))))])
          (pj_lines dto))),
        (js ''postedBy'', JStr (actor_or_system (pj_posted_by dto))), (js ''ts'', JStr (iso_time (px_now px))),
        (js ''schemaV'', JNum (num_of_int 1))])"

definition close_posting :: "posting_env \<Rightarrow> prepared \<Rightarrow> ledger \<Rightarrow> ledger" where
  "close_posting px p st =
     st\<lparr>lb_periods := update_rows (\<lambda>r. fp_id r = rp_id (pr_period p)) (\<lambda>r. r\<lparr>fp_has_postings := True\<rparr>) (lb_periods st),
        lb_outbox := lb_outbox st @ [\<lparr>oe_tenant = pj_tenant (pr_dto p), oe_type = js ''acct.je.posted'',
          oe_aggregate = px_entry_id px, oe_payload = posted_payload px p\<rparr>],
        lb_audit := lb_audit st @ [\<lparr>ae_tenant = pj_tenant (pr_dto p), ae_doc_type = js ''JOURNAL_ENTRY'',
          ae_doc_id = px_entry_id px,
          ae_action = (if given (pj_reversal_of (pr_dto p)) then js ''REVERSAL_POSTED'' else js ''POSTED''),
          ae_before = None, ae_after = Some (posted_payload px p), ae_actor = actor_or_system (pj_posted_by (pr_dto p))\<rparr>]\<rparr>"

definition account_sides :: "posting_line list \<Rightarrow> (jstr \<times> jsnum \<times> jsnum) list" where
  "account_sides ls = foldl (\<lambda>agg l. add_sides l agg) [] ls"

text \<open>The body of the transaction. Its reads and writes are all or nothing: a failure leaves the ledger as it was.\<close>

definition post_tx :: "posting_env \<Rightarrow> prepared \<Rightarrow> ledger \<Rightarrow> tx_error + ledger" where
  "post_tx px p st =
     bind_res (entry_row px p) (\<lambda>e.
     bind_res (insert_entry e st) (\<lambda>st1.
     bind_res (fold_res (write_line px p) st1 (enumerate 0 (pj_lines (pr_dto p)))) (\<lambda>st2.
     bind_res (fold_res (write_account px p) st2 (account_sides (pj_lines (pr_dto p)))) (\<lambda>st3.
     bind_res (je_check_balanced (px_entry_id px) st3) (\<lambda>_. Inr (close_posting px p st3))))))"

section \<open>Retries\<close>

definition max_retries :: nat where
  "max_retries = 5"

text \<open>The loop over attempts: only a serialization failure before the last attempt is tried again.\<close>

fun attempts_from :: "(nat \<Rightarrow> tx_error + 'a) \<Rightarrow> nat list \<Rightarrow> tx_error + 'a" where
  "attempts_from run [] = Inl RetryExhausted"
| "attempts_from run (n # ns) =
     (case run n of
        Inr v \<Rightarrow> Inr v
      | Inl e \<Rightarrow> if e = SerializationFailure \<and> n < max_retries then attempts_from run ns else Inl e)"

definition with_serializable_retry :: "(nat \<Rightarrow> tx_error + 'a) \<Rightarrow> tx_error + 'a" where
  "with_serializable_retry run = attempts_from run [1..<Suc max_retries]"

section \<open>Posting\<close>

definition publish_posting :: "posting_env \<Rightarrow> prepared \<Rightarrow> ledger \<Rightarrow> ledger" where
  "publish_posting px p st =
     (let t = (case px_parse_date px (pj_date (pr_dto p)) of None \<Rightarrow> 0 | Some t \<Rightarrow> t)
      in st\<lparr>lb_published := lb_published st @ [\<lparr>oe_tenant = pj_tenant (pr_dto p), oe_type = js ''acct.je.posted'',
             oe_aggregate = px_entry_id px, oe_payload = posted_payload px p\<rparr>]
           @ concat (map (bridge_events px p t) (pj_lines (pr_dto p)))\<rparr>)"

definition fail_posting :: "posting_env \<Rightarrow> prepared \<Rightarrow> tx_error \<Rightarrow> ledger \<Rightarrow> (post_error + post_result) \<times> ledger" where
  "fail_posting px p e st =
     (Inl (PostingFailed e), st\<lparr>lb_sequence := snd (log_gap \<lparr>lg_tenant = pj_tenant (pr_dto p), lg_source = pj_source (pr_dto p),
        lg_entity = pj_entity (pr_dto p), lg_period = rp_code (pr_period p), lg_seq = ar_seq (pr_alloc p),
        lg_reason = js ''posting failed after allocation: '' @ px_message px e, lg_actor = pj_posted_by (pr_dto p)\<rparr>
        (lb_sequence st))\<rparr>)"

definition post_commit :: "posting_env \<Rightarrow> prepared \<Rightarrow> ledger \<Rightarrow> (post_error + post_result) \<times> ledger" where
  "post_commit px p st =
     (case with_serializable_retry (\<lambda>n. if px_conflict px n then Inl SerializationFailure else post_tx px p st) of
        Inr st1 \<Rightarrow>
          (Inr \<lparr>po_id = px_entry_id px, po_number = ar_number (pr_alloc p), po_period = rp_code (pr_period p),
                po_debits = cents_to_dollars (pr_debits p), po_credits = cents_to_dollars (pr_credits p),
                po_status = js ''POSTED'', po_idempotent = False\<rparr>, publish_posting px p st1)
      | Inl e \<Rightarrow>
          (case (if e = DuplicateKey then find_entry (pj_tenant (pr_dto p)) (pj_key (pr_dto p)) st else None) of
             Some w \<Rightarrow> (Inr (earlier_result w), st)
           | None \<Rightarrow> fail_posting px p e st))"

definition post :: "posting_env \<Rightarrow> post_journal_dto \<Rightarrow> ledger \<Rightarrow> (post_error + post_result) \<times> ledger" where
  "post px dto st =
     (case post_prepare dto st of
        (Inl e, st1) \<Rightarrow> (Inl e, st1)
      | (Inr (AlreadyPosted r), st1) \<Rightarrow> (Inr r, st1)
      | (Inr (ReadyToCommit p), st1) \<Rightarrow> post_commit px p st1)"

end
