(* ===== verification/PostingMoney.thy ===== *)
theory PostingMoney
  imports PostingService
begin

text \<open>
  The arithmetic of \<open>PostingService\<close>: cents are added up as doubles, and the result is written to a
  \<open>NUMERIC(15,2)\<close> column. Whatever passes through the column is the exact sum: a sum of whole cents is exact
  up to 2 ^ 53, and beyond that it stays too large for the column.
\<close>

section \<open>Sums of doubles that fit a money column\<close>

lemma fl_rat_large:
  assumes "2 ^ 52 \<le> x"
  shows "2 ^ 52 \<le> fl_rat x"
proof -
  define e where "e = ilog2 \<bar>x\<bar> - 52"
  have x: "0 < x" using assms by (rule less_le_trans [rotated]) simp
  have p: "(2 :: rat) powi 52 = 2 ^ 52" by (simp add: power_int_def)
  then have "52 \<le> ilog2 \<bar>x\<bar>" using assms x by (intro ilog2_ge) simp
  then have e0: "0 \<le> e" by (simp add: e_def)
  have "2 powi (ilog2 \<bar>x\<bar>) \<le> \<bar>x\<bar>" using x ilog2_bounds(1) by simp
  moreover have "(2 :: rat) powi (ilog2 \<bar>x\<bar>) = 2 ^ 52 * 2 powi e"
    using power_int_add [of "2 :: rat" 52 "ilog2 \<bar>x\<bar> - 52"] unfolding p [symmetric] e_def by (simp only: add_diff_eq add_diff_cancel_left') simp
  ultimately have "2 ^ 52 \<le> x / 2 powi e" using x by (simp add: pos_le_divide_eq)
  then have "(2 :: int) ^ 52 \<le> round_even (x / 2 powi e)" by (intro round_even_ge) simp
  then have "of_int ((2 :: int) ^ 52) \<le> (of_int (round_even (x / 2 powi e)) :: rat)" by (simp only: of_int_le_iff)
  then have r: "(2 :: rat) ^ 52 \<le> of_int (round_even (x / 2 powi e))" by simp
  have "(1 :: rat) \<le> 2 powi e" using e0 by (simp add: one_le_power power_int_def)
  then have "(2 :: rat) ^ 52 * 1 \<le> of_int (round_even (x / 2 powi e)) * 2 powi e"
    using r by (intro mult_mono) auto
  moreover have "fl_rat x = of_int (round_even (x / 2 powi e)) * 2 powi e"
    using x e0 by (simp add: fl_rat_def e_def Let_def)
  ultimately show ?thesis by simp
qed

lemma above_neg_limit: "2 ^ 52 \<le> x \<Longrightarrow> \<not> x \<le> - num_limit"
proof -
  assume "2 ^ 52 \<le> x"
  then have "0 \<le> x" by (rule order_trans [rotated]) simp
  then show ?thesis using num_limit_pos(1) by linarith
qed

text \<open>A double too large for a money column once divided by 100.\<close>

definition huge :: "jsnum \<Rightarrow> bool" where
  "huge n \<longleftrightarrow> n = PInf \<or> (\<exists>q. n = Fin q \<and> 2 ^ 50 \<le> q)"

lemma half_away_ge: "of_int n \<le> x \<Longrightarrow> 0 \<le> n \<Longrightarrow> n \<le> half_away x"
proof -
  assume a: "of_int n \<le> x" "0 \<le> n"
  then have "0 \<le> x" by (metis of_int_0_le_iff order_trans)
  then show ?thesis using a by (simp add: half_away_def le_floor_iff)
qed

lemma huge_overflows:
  assumes "huge n"
  shows "money_of (cents_to_dollars n) = Inl NumericOverflow"
proof (cases "n = PInf")
  case False
  then obtain q where q: "n = Fin q" "2 ^ 50 \<le> q" using assms by (auto simp: huge_def)
  define z where "z = (of_int \<lfloor>q + 1 / 2\<rfloor> :: rat)"
  have "(2 :: int) ^ 50 \<le> \<lfloor>q + 1 / 2\<rfloor>" using q(2) by (simp add: le_floor_iff)
  then have z: "2 ^ 50 \<le> z" using of_int_le_iff [of "2 ^ 50" "\<lfloor>q + 1 / 2\<rfloor>", where 'a = rat] by (simp add: z_def)
  define d where "d = fl_rat (z / 100)"
  have "1 / 1024 \<le> \<bar>z / 100\<bar>" using z by simp
  from fl_rat_near [OF this] have "\<bar>d - z / 100\<bar> \<le> z / 100 / 2 ^ 53" using z by (simp add: d_def)
  then have "z / 100 - z / 100 / 2 ^ 53 \<le> d" unfolding abs_le_iff by linarith
  then have "z / 100 * (1 - 1 / 2 ^ 53) \<le> d" by (simp add: right_diff_distrib)
  moreover have "(10 :: rat) ^ 13 \<le> 2 ^ 50 / 100 * (1 - 1 / 2 ^ 53)" by simp
  moreover have "2 ^ 50 / 100 * (1 - 1 / 2 ^ 53) \<le> z / 100 * (1 - 1 / 2 ^ (53 :: nat))"
    using z by (intro mult_right_mono divide_right_mono) simp_all
  ultimately have d: "10 ^ 13 \<le> d" by linarith
  have big: "cents_to_dollars n = to_num (z / 100)" by (simp add: cents_to_dollars_def q(1) z_def math_round.simps)
  show ?thesis
  proof (cases "num_limit \<le> d")
    case True
    then show ?thesis by (simp add: big to_num_def d_def [symmetric] money_of_def)
  next
    case False
    have "0 \<le> d" using d by (rule order_trans [rotated]) simp
    then have nn: "\<not> d \<le> - num_limit" using num_limit_pos(1) by linarith
    have "(10 :: int) ^ 15 \<le> half_away (d * 100)" using d by (intro half_away_ge) simp_all
    then have "\<not> fits_money (half_away (d * 100))" by (simp add: fits_money_def)
    then show ?thesis using False nn by (simp add: big to_num_def d_def [symmetric] money_of_def money_def)
  qed
qed (simp add: cents_to_dollars_def money_of_def)

lemma half_away_near:
  assumes "\<bar>x - of_int n\<bar> < 1 / 2"
  shows "half_away x = n"
proof -
  have b: "of_int n - 1 / 2 < x" "x < of_int n + 1 / 2" using assms unfolding abs_less_iff by linarith+
  show ?thesis
  proof (cases "0 \<le> x")
    case True
    then show ?thesis using b by (simp add: half_away_def floor_eq_iff)
  next
    case False
    have "\<lfloor>1 / 2 - x\<rfloor> = - n" using b by (simp add: floor_eq_iff)
    then show ?thesis using False by (simp add: half_away_def)
  qed
qed

lemma rounded_exact:
  assumes "\<bar>c\<bar> \<le> 2 ^ 50"
  shows "rounded_cents (cents_to_dollars (num_of_int c)) = Inr c"
proof (cases "c = 0")
  case True
  have "\<lfloor>1 / 2 :: rat\<rfloor> = 0" by (simp add: floor_eq_iff)
  with True show ?thesis by (simp add: cents_to_dollars_def half_away_def)
next
  case False
  define z where "z = (of_int c :: rat)"
  have "1 \<le> \<bar>c\<bar>" using False by linarith
  then have 1: "1 \<le> \<bar>z\<bar>" using of_int_le_iff [of 1 "\<bar>c\<bar>", where 'a = rat] by (simp add: z_def)
  have 2: "\<bar>z\<bar> \<le> 2 ^ 50" using assms of_int_le_iff [of "\<bar>c\<bar>" "2 ^ 50", where 'a = rat] by (simp add: z_def)
  have "\<bar>fl_rat (z / 100) - z / 100\<bar> \<le> \<bar>z / 100\<bar> / 2 ^ 53"
    using 1 by (intro fl_rat_near) (simp add: abs_if split: if_splits)
  then have "\<bar>fl_rat (z / 100) * 100 - z\<bar> \<le> \<bar>z\<bar> / 2 ^ 53" by (simp add: abs_if field_simps split: if_splits)
  also have "\<dots> < 1 / 2" using 2 by simp
  finally have "half_away (fl_rat (z / 100) * 100) = c" unfolding z_def by (rule half_away_near)
  then show ?thesis by (simp add: cents_to_dollars_Fin [OF assms] z_def)
qed

lemma money_exact: "\<bar>c\<bar> \<le> 2 ^ 50 \<Longrightarrow> money_of (cents_to_dollars (num_of_int c)) = money c"
  by (simp add: money_of_def rounded_exact)

lemma money_Inr [simp]: "money c = Inr d \<longleftrightarrow> d = c \<and> fits_money c"
  by (auto simp: money_def)

text \<open>What passes through a money column is a whole number of cents, unchanged.\<close>

lemma money_of_int:
  assumes "money_of (cents_to_dollars (num_of_int k)) = Inr c" and "0 \<le> k"
  shows "k = c \<and> fits_money c"
proof (cases "k \<le> 2 ^ 50")
  case True
  then show ?thesis using assms money_exact [of k] by simp
next
  case False
  then have "of_int (2 ^ 50) \<le> (of_int k :: rat)" by (simp only: of_int_le_iff)
  then have "huge (num_of_int k)" by (simp add: huge_def)
  then show ?thesis using huge_overflows assms(1) by fastforce
qed

lemma huge_add:
  assumes "n = PInf \<or> (\<exists>q. n = Fin q \<and> 2 ^ 52 \<le> q)" and "0 \<le> k"
  shows "num_add n (num_of_int k) = PInf \<or> (\<exists>q. num_add n (num_of_int k) = Fin q \<and> 2 ^ 52 \<le> q)"
proof (cases "n = PInf")
  case False
  then obtain q where q: "n = Fin q" "2 ^ 52 \<le> q" using assms(1) by blast
  have "(0 :: rat) \<le> of_int k" using assms(2) by simp
  then have l: "2 ^ 52 \<le> fl_rat (q + of_int k)" using q(2) by (intro fl_rat_large) linarith
  then have "\<not> fl_rat (q + of_int k) \<le> - num_limit" using above_neg_limit by blast
  then show ?thesis using l by (auto simp: q(1) to_num_def Let_def)
qed simp

text \<open>A running sum of whole cents is exact, or has become too large for the column for good.\<close>

definition sum_state :: "jsnum \<Rightarrow> int \<Rightarrow> bool" where
  "sum_state n s \<longleftrightarrow> (n = num_of_int s \<and> 0 \<le> s \<and> s \<le> 2 ^ 53) \<or> n = PInf \<or> (\<exists>q. n = Fin q \<and> 2 ^ 52 \<le> q)"

lemma sum_state_0 [simp]: "sum_state (Fin 0) 0"
  by (simp add: sum_state_def)

lemma sum_state_add: "sum_state n s \<Longrightarrow> 0 \<le> k \<Longrightarrow> sum_state (num_add n (num_of_int k)) (s + k)"
proof -
  assume s: "sum_state n s" and k: "0 \<le> k"
  show ?thesis
  proof (cases "n = PInf \<or> (\<exists>q. n = Fin q \<and> 2 ^ 52 \<le> q)")
    case True
    then show ?thesis using huge_add [OF _ k] unfolding sum_state_def by blast
  next
    case False
    then have n: "n = num_of_int s" "0 \<le> s" "s \<le> 2 ^ 53" using s by (auto simp: sum_state_def)
    show ?thesis
    proof (cases "s + k \<le> 2 ^ 53")
      case True
      then have "num_add (num_of_int s) (num_of_int k) = num_of_int (s + k)" using n k by (intro num_add_of_int) simp
      then show ?thesis using True n k unfolding sum_state_def by simp
    next
      case False
      have "of_int (2 ^ 53) \<le> (of_int (s + k) :: rat)" using False by (simp only: of_int_le_iff)
      then have "2 ^ 52 \<le> fl_rat (of_int s + of_int k)" by (intro fl_rat_large) simp
      moreover from this have "\<not> fl_rat (of_int s + of_int k) \<le> - num_limit"
        using above_neg_limit by blast
      ultimately show ?thesis by (auto simp: n(1) to_num_def Let_def sum_state_def)
    qed
  qed
qed

lemma sum_state_money:
  assumes "sum_state n s" and "money_of (cents_to_dollars n) = Inr c"
  shows "n = num_of_int s \<and> s = c \<and> 0 \<le> c \<and> fits_money c"
proof -
  have "\<not> huge n" using huge_overflows assms(2) by fastforce
  then have "n = num_of_int s" "0 \<le> s" using assms(1) by (auto simp: sum_state_def huge_def)
  then show ?thesis using money_of_int assms(2) by fastforce
qed

text \<open>\<open>toCents\<close> yields whole numbers.\<close>

lemma cents_of_whole: "cents_of n = Fin q \<Longrightarrow> \<exists>k. q = of_int k"
  by (cases "num_mul n (Fin 100)") (auto simp: cents_of_def math_round.simps split: if_splits)

lemma to_cents_whole: "to_cents v = Fin q \<Longrightarrow> \<exists>k. q = of_int k"
  by (cases v rule: to_cents.cases) (auto dest: cents_of_whole split: if_splits intro: exI [of _ 0])

lemma to_cents_money:
  assumes "money_of (cents_to_dollars (to_cents v)) = Inr c" and "to_cents v = Fin 0 \<or> num_lt (Fin 0) (to_cents v)"
  shows "to_cents v = num_of_int c \<and> 0 \<le> c \<and> fits_money c"
proof (cases "to_cents v")
  case (Fin q)
  then obtain k where "q = of_int k" using to_cents_whole by blast
  moreover from this have "0 \<le> k" using assms(2) Fin by auto
  ultimately show ?thesis using assms(1) Fin money_of_int [of k c] by auto
qed (use assms in \<open>auto simp: cents_to_dollars_def money_of_def\<close>)

end
