(* ===== verification/PostingEffect.thy ===== *)
theory PostingEffect
  imports PostingMoney
begin

text \<open>
  What a committed transaction of \<open>PostingService\<close> does to the ledger, in whole cents: the stored lines carry
  the amounts of the request, the totals of the entry are their sums, and every account moves by the signed
  difference of its lines, however many lines name it.
\<close>

section \<open>The lines of a transaction\<close>

definition acct_sum :: "(journal_line \<Rightarrow> int) \<Rightarrow> jstr \<Rightarrow> journal_line list \<Rightarrow> int" where
  "acct_sum f i rows = sum_list (map f (filter (\<lambda>r. jl_account r = i) rows))"

lemma acct_sum_simps [simp]:
  "acct_sum f i [] = 0"
  "acct_sum f i (r # rows) = (if jl_account r = i then f r else 0) + acct_sum f i rows"
  "acct_sum f i (rows @ rows') = acct_sum f i rows + acct_sum f i rows'"
  by (simp_all add: acct_sum_def)

definition signed_cents :: "jstr \<Rightarrow> int \<Rightarrow> int \<Rightarrow> int" where
  "signed_cents normal d c = (if normal = js ''CR'' then c - d else d - c)"

text \<open>A stored line carries exactly the cents of its input line.\<close>

definition line_matches :: "jstr \<Rightarrow> posting_line \<Rightarrow> journal_line \<Rightarrow> bool" where
  "line_matches i l r \<longleftrightarrow> jl_account r = pl_account_id l \<and> jl_entry r = i \<and> to_cents (pl_dr l) = num_of_int (jl_dr r)
     \<and> to_cents (pl_cr l) = num_of_int (jl_cr r) \<and> 0 \<le> jl_dr r \<and> 0 \<le> jl_cr r"

definition one_sided_line :: "posting_line \<Rightarrow> bool" where
  "one_sided_line l = one_sided (to_cents (pl_dr l)) (to_cents (pl_cr l))"

lemma line_row_matches:
  assumes "line_row px p i l = Inr r" and "one_sided_line l"
  shows "line_matches (px_entry_id px) l r"
proof -
  obtain d c memo where m: "money_of (cents_to_dollars (to_cents (pl_dr l))) = Inr d" "money_of (cents_to_dollars (to_cents (pl_cr l))) = Inr c"
    and r: "jl_account r = pl_account_id l" "jl_entry r = px_entry_id px" "jl_dr r = d" "jl_cr r = c"
    using assms(1) by (auto simp: line_row_def bind_res_Inr)
  then show ?thesis using to_cents_money [OF m(1)] to_cents_money [OF m(2)] assms(2)
    by (auto simp: line_matches_def one_sided_line_def one_sided_def)
qed

lemma write_lines:
  "fold_res (write_line px p) st (enumerate k ls) = Inr st' \<Longrightarrow> list_all one_sided_line ls \<Longrightarrow>
     \<exists>rows tags. st' = st\<lparr>lb_lines := lb_lines st @ rows, lb_tags := lb_tags st @ tags\<rparr>
       \<and> list_all2 (line_matches (px_entry_id px)) ls rows"
proof (induction ls arbitrary: k st)
  case (Cons l ls)
  obtain st1 where st1: "write_line px p st (k, l) = Inr st1" "fold_res (write_line px p) st1 (enumerate (Suc k) ls) = Inr st'"
    using Cons.prems(1) by (auto simp: bind_res_Inr)
  obtain r where r: "line_row px p k l = Inr r"
    and s: "st1 = st\<lparr>lb_lines := lb_lines st @ [r], lb_tags := lb_tags st @ tags_of px p k l\<rparr>"
    using st1(1) by (auto simp: write_line_def insert_line_def bind_res_Inr split: if_splits)
  have ls: "one_sided_line l" "list_all one_sided_line ls" using Cons.prems(2) by auto
  obtain rows tags where i: "st' = st1\<lparr>lb_lines := lb_lines st1 @ rows, lb_tags := lb_tags st1 @ tags\<rparr>"
    "list_all2 (line_matches (px_entry_id px)) ls rows" using Cons.IH [OF st1(2) ls(2)] by blast
  have "list_all2 (line_matches (px_entry_id px)) (l # ls) (r # rows)" using line_row_matches [OF r ls(1)] i(2) by simp
  moreover have "st' = st\<lparr>lb_lines := lb_lines st @ r # rows, lb_tags := lb_tags st @ (tags_of px p k l @ tags)\<rparr>"
    unfolding i(1) s by simp
  ultimately show ?case by blast
qed (auto intro: exI [of _ "[]"])

section \<open>The sides of an account\<close>

definition sides_ok :: "(jstr \<times> jsnum \<times> jsnum) list \<Rightarrow> (jstr \<Rightarrow> int) \<Rightarrow> (jstr \<Rightarrow> int) \<Rightarrow> bool" where
  "sides_ok agg S T \<longleftrightarrow> distinct (map fst agg)
     \<and> (\<forall>i. case map_of agg i of None \<Rightarrow> S i = 0 \<and> T i = 0 | Some (x, y) \<Rightarrow> sum_state x (S i) \<and> sum_state y (T i))"

lemma sides_ok_add:
  assumes "sides_ok agg S T" and "line_matches e l r"
  shows "sides_ok (add_sides l agg) (\<lambda>i. S i + acct_sum jl_dr i [r]) (\<lambda>i. T i + acct_sum jl_cr i [r])"
proof -
  let ?a = "pl_account_id l"
  obtain x y where xy: "(case map_of agg ?a of None \<Rightarrow> (Fin 0, Fin 0) | Some s \<Rightarrow> s) = (x, y)" by fastforce
  have st: "sum_state x (S ?a) \<and> sum_state y (T ?a)"
    using assms(1) xy by (auto simp: sides_ok_def split: option.splits dest: spec [of _ ?a])
  have r: "to_cents (pl_dr l) = num_of_int (jl_dr r)" "to_cents (pl_cr l) = num_of_int (jl_cr r)" "0 \<le> jl_dr r" "0 \<le> jl_cr r"
    "jl_account r = ?a" using assms(2) by (simp_all add: line_matches_def)
  have "sum_state (num_add x (to_cents (pl_dr l))) (S ?a + jl_dr r)" "sum_state (num_add y (to_cents (pl_cr l))) (T ?a + jl_cr r)"
    unfolding r(1,2) using st r(3,4) by (auto intro: sum_state_add simp del: num_add.simps)
  then show ?thesis using assms(1) r(5) by (auto simp: sides_ok_def add_sides_def xy simp del: num_add.simps cong: option.case_cong)
qed

lemma account_sides_ok:
  "list_all2 (line_matches e) ls rows \<Longrightarrow> sides_ok agg S T \<Longrightarrow>
     sides_ok (foldl (\<lambda>agg l. add_sides l agg) agg ls) (\<lambda>i. S i + acct_sum jl_dr i rows) (\<lambda>i. T i + acct_sum jl_cr i rows)"
proof (induction arbitrary: agg S T rule: list_all2_induct)
  case (Cons l ls r rows)
  from Cons.IH [OF sides_ok_add [OF Cons.prems Cons.hyps(1)]] show ?case by (simp add: add.assoc)
qed simp

lemma sides_of_lines:
  assumes "list_all2 (line_matches e) ls rows"
  shows "sides_ok (account_sides ls) (\<lambda>i. acct_sum jl_dr i rows) (\<lambda>i. acct_sum jl_cr i rows)"
  using account_sides_ok [OF assms, of "[]" "\<lambda>_. 0" "\<lambda>_. 0"] by (simp add: sides_ok_def account_sides_def)

section \<open>The balances\<close>

definition account_at :: "ledger \<Rightarrow> jstr \<Rightarrow> gl_account option" where
  "account_at st i = find_row (\<lambda>a. ga_id a = i) (lb_accounts st)"

definition balance_of :: "ledger \<Rightarrow> jstr \<Rightarrow> int" where
  "balance_of st i = (case account_at st i of None \<Rightarrow> 0 | Some a \<Rightarrow> ga_balance a)"

definition normal_of :: "prepared \<Rightarrow> jstr \<Rightarrow> jstr" where
  "normal_of p i = ra_normal_balance (the (pc_accounts (pr_ctx p) i))"

lemma find_row_update:
  "(\<And>a. ga_id (f a) = ga_id a) \<Longrightarrow> find_row (\<lambda>a. ga_id a = i) (update_rows (\<lambda>a. ga_id a = j) f rows)
     = (if i = j then map_option f (find_row (\<lambda>a. ga_id a = i) rows) else find_row (\<lambda>a. ga_id a = i) rows)"
  by (induction rows) auto

text \<open>The columns of an account that no posting touches.\<close>

definition account_static :: "gl_account \<Rightarrow> jstr \<times> jstr \<times> jstr \<times> jstr \<times> jstr" where
  "account_static a = (ga_id a, ga_tenant a, ga_entity a, ga_normal a, ga_type a)"

definition only_balances :: "ledger \<Rightarrow> ledger \<Rightarrow> bool" where
  "only_balances st st' \<longleftrightarrow> (\<exists>accs snaps. st' = st\<lparr>lb_accounts := accs, lb_snapshots := snaps\<rparr>)"

lemma only_balances_refl [simp]: "only_balances st st"
  unfolding only_balances_def by (intro exI [of _ "lb_accounts st"] exI [of _ "lb_snapshots st"]) simp

lemma only_balances_trans: "only_balances a b \<Longrightarrow> only_balances b c \<Longrightarrow> only_balances a c"
  by (clarsimp simp: only_balances_def) (rule exI, rule exI, rule refl)

lemma balance_delta_exact:
  assumes "fits_money d" and "fits_money c" and "0 \<le> d" and "0 \<le> c"
  shows "rounded_cents (balance_delta normal (num_of_int d) (num_of_int c)) = Inr (signed_cents normal d c)"
proof -
  have b: "\<bar>d - c\<bar> \<le> 10 ^ 15" "\<bar>c - d\<bar> \<le> 10 ^ 15" using assms by (auto simp: fits_money_def)
  have "(10 :: int) ^ 15 \<le> 2 ^ 50" by simp
  then have "\<bar>d - c\<bar> \<le> 2 ^ 50" "\<bar>c - d\<bar> \<le> 2 ^ 50" "\<bar>d - c\<bar> \<le> 2 ^ 53" "\<bar>c - d\<bar> \<le> 2 ^ 53" using b by auto
  then show ?thesis by (simp only: balance_delta_def num_sub_of_int rounded_exact signed_cents_def split: if_splits) auto
qed

lemma write_account_effect:
  assumes "write_account px p st (i, x, y) = Inr st'" and "sum_state x D" and "sum_state y C"
  shows "\<exists>snap. lb_snapshots st' = lb_snapshots st @ [snap] \<and> bs_account snap = i \<and> bs_entry snap = px_entry_id px
      \<and> bs_delta snap = signed_cents (normal_of p i) D C
    \<and> (\<forall>j. balance_of st' j = balance_of st j + (if j = i then signed_cents (normal_of p i) D C else 0))
    \<and> map account_static (lb_accounts st') = map account_static (lb_accounts st)
    \<and> only_balances st st' \<and> account_at st i \<noteq> None"
proof -
  obtain a inc after d c where a: "find_row (\<lambda>a. ga_id a = i) (lb_accounts st) = Some a"
    and inc: "rounded_cents (balance_delta (normal_of p i) x y) = Inr inc" and after: "after = ga_balance a + inc"
    and dc: "money_of (cents_to_dollars x) = Inr d" "money_of (cents_to_dollars y) = Inr c"
    and st': "st' = st\<lparr>lb_accounts := update_rows (\<lambda>a. ga_id a = i)
        (\<lambda>a. a\<lparr>ga_balance := after, ga_has_postings := True, ga_version := ga_version a + 1\<rparr>) (lb_accounts st),
      lb_snapshots := lb_snapshots st @ [\<lparr>bs_tenant = pj_tenant (pr_dto p), bs_entity = pj_entity (pr_dto p),
        bs_account = i, bs_entry = px_entry_id px, bs_number = ar_number (pr_alloc p),
        bs_period = rp_code (pr_period p), bs_dr = d, bs_cr = c, bs_delta = inc, bs_after = after\<rparr>]\<rparr>"
    using assms(1) by (auto simp: write_account_def normal_of_def Let_def bind_res_Inr split: option.splits)
  have x: "x = num_of_int D" "fits_money D" "0 \<le> D" using sum_state_money [OF assms(2) dc(1)] by auto
  have y: "y = num_of_int C" "fits_money C" "0 \<le> C" using sum_state_money [OF assms(3) dc(2)] by auto
  have i: "inc = signed_cents (normal_of p i) D C" using inc balance_delta_exact x y by simp
  have "balance_of st' j = balance_of st j + (if j = i then inc else 0)" for j
    using a by (auto simp: balance_of_def account_at_def st' find_row_update after)
  moreover have "map account_static (lb_accounts st') = map account_static (lb_accounts st)"
    unfolding st' by (simp add: map_update_rows account_static_def)
  ultimately show ?thesis using a i by (auto simp: account_at_def st' only_balances_def)
qed

lemma write_accounts_effect:
  "fold_res (write_account px p) st agg = Inr st' \<Longrightarrow> distinct (map fst agg)
     \<Longrightarrow> \<forall>(i, x, y) \<in> set agg. sum_state x (S i) \<and> sum_state y (T i) \<Longrightarrow>
   (\<forall>j. balance_of st' j = balance_of st j + (if j \<in> fst ` set agg then signed_cents (normal_of p j) (S j) (T j) else 0))
     \<and> map account_static (lb_accounts st') = map account_static (lb_accounts st)
     \<and> only_balances st st'
     \<and> (\<forall>j \<in> fst ` set agg. \<exists>a \<in> set (lb_accounts st'). ga_id a = j)"
proof (induction agg arbitrary: st)
  case (Cons s agg)
  obtain i x y where s: "s = (i, x, y)" by (cases s)
  obtain st1 where st1: "write_account px p st (i, x, y) = Inr st1" "fold_res (write_account px p) st1 agg = Inr st'"
    using Cons.prems(1) by (auto simp: bind_res_Inr s)
  have ss: "sum_state x (S i)" "sum_state y (T i)" "i \<notin> fst ` set agg" using Cons.prems(2,3) by (auto simp: s)
  note w = write_account_effect [OF st1(1) ss(1,2)]
  note ih = Cons.IH [OF st1(2)]
  have ih': "(\<forall>j. balance_of st' j = balance_of st1 j + (if j \<in> fst ` set agg then signed_cents (normal_of p j) (S j) (T j) else 0))
     \<and> map account_static (lb_accounts st') = map account_static (lb_accounts st1)
     \<and> only_balances st1 st'
     \<and> (\<forall>j \<in> fst ` set agg. \<exists>a \<in> set (lb_accounts st'). ga_id a = j)"
    using Cons.prems(2,3) by (intro ih) (auto simp: s)
  have "\<exists>a \<in> set (lb_accounts st'). ga_id a = i"
  proof -
    have "i \<in> fst ` account_static ` set (lb_accounts st)"
      using w by (auto simp: account_at_def account_static_def image_image dest!: find_row_Some intro: rev_image_eqI)
    then have "i \<in> fst ` account_static ` set (lb_accounts st')" using w ih' by (metis set_map)
    then show ?thesis by (auto simp: account_static_def)
  qed
  moreover have "balance_of st' j = balance_of st j
      + (if j \<in> fst ` set (s # agg) then signed_cents (normal_of p j) (S j) (T j) else 0)" for j
  proof -
    obtain w1 where "balance_of st1 j = balance_of st j + w1" "w1 = (if j = i then signed_cents (normal_of p i) (S i) (T i) else 0)"
      using w by blast
    moreover have "balance_of st' j = balance_of st1 j + (if j \<in> fst ` set agg then signed_cents (normal_of p j) (S j) (T j) else 0)"
      using ih' by blast
    ultimately show ?thesis using ss(3) by (auto simp: s)
  qed
  moreover have "only_balances st st'" using w ih' only_balances_trans by blast
  moreover have "map account_static (lb_accounts st1) = map account_static (lb_accounts st)" using w by blast
  ultimately show ?case using w ih' by (simp add: s)
qed auto

lemma add_sides_keys: "fst ` set (add_sides l agg) = insert (pl_account_id l) (fst ` set agg)"
  by (simp add: add_sides_def case_prod_unfold Let_def)

lemma list_all2_right: "list_all2 P xs ys \<Longrightarrow> y \<in> set ys \<Longrightarrow> \<exists>x \<in> set xs. P x y"
  by (induction rule: list_all2_induct) auto

lemma account_sides_keys: "fst ` set (account_sides ls) = pl_account_id ` set ls"
proof -
  have "fst ` set (foldl (\<lambda>agg l. add_sides l agg) agg ls) = fst ` set agg \<union> pl_account_id ` set ls" for agg
    by (induction ls arbitrary: agg) (auto simp: add_sides_keys)
  from this [of "[]"] show ?thesis by (simp add: account_sides_def)
qed

section \<open>A committed posting\<close>

text \<open>What a prepared posting carries after a clean evaluation.\<close>

definition clean :: "prepared \<Rightarrow> bool" where
  "clean p \<longleftrightarrow> list_all one_sided_line (pj_lines (pr_dto p)) \<and> pr_debits p = total_side pl_dr (pj_lines (pr_dto p))
     \<and> pr_credits p = total_side pl_cr (pj_lines (pr_dto p))"

lemma total_side_state:
  assumes "\<And>l r. line_matches e l r \<Longrightarrow> to_cents (side l) = num_of_int (f r) \<and> 0 \<le> f r"
  shows "list_all2 (line_matches e) ls rows \<Longrightarrow> sum_state t s \<Longrightarrow> sum_state (foldl (add_side side) t ls) (s + sum_list (map f rows))"
proof (induction arbitrary: t s rule: list_all2_induct)
  case (Cons l ls r rows)
  have m: "to_cents (pl_dr l) = num_of_int (jl_dr r)" "to_cents (pl_cr l) = num_of_int (jl_cr r)"
    using Cons.hyps(1) by (simp_all add: line_matches_def)
  have f: "to_cents (side l) = num_of_int (f r)" "0 \<le> f r" using assms [OF Cons.hyps(1)] by auto
  then have "add_side side t l = num_add t (num_of_int (f r))"
    unfolding add_side_def m f(1) math_max_0_of_int using f(2) by (simp del: num_add.simps)
  then show ?case using Cons.IH [OF sum_state_add [OF Cons.prems f(2)]] by (simp add: add.assoc)
qed simp

lemma totals_state:
  assumes "list_all2 (line_matches e) ls rows"
  shows "sum_state (total_side pl_dr ls) (sum_list (map jl_dr rows))" "sum_state (total_side pl_cr ls) (sum_list (map jl_cr rows))"
  using total_side_state [OF _ assms sum_state_0, of pl_dr jl_dr] total_side_state [OF _ assms sum_state_0, of pl_cr jl_cr]
  by (simp_all add: line_matches_def total_side_def)

text \<open>
  The effect of a committed transaction: one entry, its lines with the sums of its totals, each account moved by
  the signed sum of its lines, and nothing else of what the ledger's invariant speaks about.
\<close>

definition posted_effect :: "posting_env \<Rightarrow> prepared \<Rightarrow> ledger \<Rightarrow> ledger \<Rightarrow> journal_entry \<Rightarrow> journal_line list \<Rightarrow> bool" where
  "posted_effect px p st st' e rows \<longleftrightarrow>
     entry_row px p = Inr e \<and> insert_entry e st = Inr (st\<lparr>lb_entries := lb_entries st @ [e]\<rparr>)
     \<and> lb_entries st' = lb_entries st @ [e] \<and> lb_lines st' = lb_lines st @ rows
     \<and> list_all2 (line_matches (px_entry_id px)) (pj_lines (pr_dto p)) rows
     \<and> sum_list (map jl_dr rows) = je_debits e \<and> sum_list (map jl_cr rows) = je_credits e
     \<and> je_check_balanced (px_entry_id px) (st'\<lparr>lb_periods := lb_periods st\<rparr>) = Inr ()
     \<and> (\<forall>j. balance_of st' j = balance_of st j + signed_cents (normal_of p j) (acct_sum jl_dr j rows) (acct_sum jl_cr j rows))
     \<and> map account_static (lb_accounts st') = map account_static (lb_accounts st)
     \<and> (\<forall>r \<in> set rows. \<exists>a \<in> set (lb_accounts st'). ga_id a = jl_account r)
     \<and> map (\<lambda>r. r\<lparr>fp_has_postings := False\<rparr>) (lb_periods st') = map (\<lambda>r. r\<lparr>fp_has_postings := False\<rparr>) (lb_periods st)
     \<and> lb_sequence st' = lb_sequence st \<and> lb_attestations st' = lb_attestations st"

lemma entry_row_fields:
  assumes "entry_row px p = Inr e"
  shows "je_id e = px_entry_id px" "je_tenant e = pj_tenant (pr_dto p)" "je_key e = pj_key (pr_dto p)"
    "je_entity e = pj_entity (pr_dto p)" "je_number e = ar_number (pr_alloc p)" "je_period e = rp_id (pr_period p)"
    "je_adjusting e = pj_adjusting (pr_dto p)" "je_draft e = pj_draft (pr_dto p)" "je_status e = js ''POSTED''"
    "money_of (cents_to_dollars (pr_debits p)) = Inr (je_debits e)" "money_of (cents_to_dollars (pr_credits p)) = Inr (je_credits e)"
  using assms by (auto simp: entry_row_def Let_def bind_res_Inr)

lemma je_check_balanced_cong:
  "lb_lines st = lb_lines st' \<Longrightarrow> je_check_balanced i st = je_check_balanced i st'"
  by (simp add: je_check_balanced_def)

lemma post_tx_effect:
  assumes "post_tx px p st = Inr st'" and "clean p"
  shows "\<exists>e rows. posted_effect px p st st' e rows"
proof -
  obtain e st1 st2 st3 where e: "entry_row px p = Inr e" and i: "insert_entry e st = Inr st1"
    and l: "fold_res (write_line px p) st1 (enumerate 0 (pj_lines (pr_dto p))) = Inr st2"
    and a: "fold_res (write_account px p) st2 (account_sides (pj_lines (pr_dto p))) = Inr st3"
    and b: "je_check_balanced (px_entry_id px) st3 = Inr ()" and st': "st' = close_posting px p st3"
    using assms(1) by (auto simp: post_tx_def bind_res_Inr)
  have st1: "st1 = st\<lparr>lb_entries := lb_entries st @ [e]\<rparr>" using i by (auto simp: insert_entry_def bind_res_Inr split: if_splits)
  obtain rows tags where st2: "st2 = st1\<lparr>lb_lines := lb_lines st1 @ rows, lb_tags := lb_tags st1 @ tags\<rparr>"
    and rows: "list_all2 (line_matches (px_entry_id px)) (pj_lines (pr_dto p)) rows"
    using write_lines [OF l] assms(2) by (auto simp: clean_def)
  let ?agg = "account_sides (pj_lines (pr_dto p))"
  let ?S = "\<lambda>j. acct_sum jl_dr j rows" and ?T = "\<lambda>j. acct_sum jl_cr j rows"
  have ok: "sides_ok ?agg ?S ?T" by (rule sides_of_lines) (rule rows)
  then have dist: "distinct (map fst ?agg)" by (simp add: sides_ok_def)
  have ss: "\<forall>(i, x, y) \<in> set ?agg. sum_state x (?S i) \<and> sum_state y (?T i)"
  proof clarify
    fix i x y assume "(i, x, y) \<in> set ?agg"
    then have "map_of ?agg i = Some (x, y)" using dist by simp
    then show "sum_state x (?S i) \<and> sum_state y (?T i)" using ok by (auto simp: sides_ok_def dest: spec [of _ i])
  qed
  note w = write_accounts_effect [OF a dist ss]
  have zero: "signed_cents (normal_of p j) (?S j) (?T j) = 0" if "j \<notin> fst ` set ?agg" for j
  proof -
    have "map_of ?agg j = None" using that by (simp add: map_of_eq_None_iff)
    then show ?thesis using ok by (auto simp: sides_ok_def signed_cents_def dest: spec [of _ j])
  qed
  have ob: "only_balances st2 st3" using w by blast
  have bal: "balance_of st' j = balance_of st j + signed_cents (normal_of p j) (?S j) (?T j)" for j
  proof -
    have "balance_of st' j = balance_of st3 j" by (simp add: st' close_posting_def balance_of_def account_at_def)
    moreover have "balance_of st2 j = balance_of st j" by (simp add: st2 st1 balance_of_def account_at_def)
    moreover have "balance_of st3 j = balance_of st2 j + (if j \<in> fst ` set ?agg then signed_cents (normal_of p j) (?S j) (?T j) else 0)"
      using w by blast
    ultimately show ?thesis using zero by auto
  qed
  have acc: "lb_accounts st' = lb_accounts st3" by (simp add: st' close_posting_def)
  have present: "\<forall>r \<in> set rows. \<exists>a \<in> set (lb_accounts st'). ga_id a = jl_account r"
  proof
    fix r assume "r \<in> set rows"
    then obtain l where "l \<in> set (pj_lines (pr_dto p))" "jl_account r = pl_account_id l"
      using list_all2_right [OF rows] by (auto simp: line_matches_def)
    then have "jl_account r \<in> fst ` set ?agg" by (auto simp: account_sides_keys)
    then show "\<exists>a \<in> set (lb_accounts st'). ga_id a = jl_account r" unfolding acc using w by blast
  qed
  note f = entry_row_fields [OF e]
  have sums: "sum_list (map jl_dr rows) = je_debits e" "sum_list (map jl_cr rows) = je_credits e"
    using sum_state_money [OF totals_state(1) [OF rows], of "je_debits e"] sum_state_money [OF totals_state(2) [OF rows], of "je_credits e"]
      assms(2) f(10,11) by (auto simp: clean_def)
  obtain accs snaps where st3: "st3 = st2\<lparr>lb_accounts := accs, lb_snapshots := snaps\<rparr>" using ob by (auto simp: only_balances_def)
  have lines: "lb_lines st' = lb_lines st @ rows" "lb_entries st' = lb_entries st @ [e]" "lb_sequence st' = lb_sequence st"
    "lb_attestations st' = lb_attestations st" "lb_periods st3 = lb_periods st"
    by (simp_all add: st' close_posting_def st3 st2 st1)
  have stat: "map account_static (lb_accounts st') = map account_static (lb_accounts st)"
    using w acc by (simp add: st2 st1)
  have pers: "map (\<lambda>r. r\<lparr>fp_has_postings := False\<rparr>) (lb_periods st') = map (\<lambda>r. r\<lparr>fp_has_postings := False\<rparr>) (lb_periods st)"
    by (simp add: st' close_posting_def lines(5) [symmetric] map_update_rows)
  have bal': "je_check_balanced (px_entry_id px) (st'\<lparr>lb_periods := lb_periods st\<rparr>) = Inr ()"
    using b by (simp add: je_check_balanced_def st' close_posting_def)
  show ?thesis
    unfolding posted_effect_def using e i st1 lines rows sums bal' bal stat present pers by blast
qed

end
