(* ===== verification/PostingLedger.thy ===== *)
theory PostingLedger
  imports PostingEffect
begin

text \<open>
  Interleaved postings of \<open>PostingService\<close>: the invariant of the ledger over every run, and what follows from
  it for the trial balance, the account balances and idempotency.
\<close>

section \<open>Interleaved postings\<close>

text \<open>
  Any number of callers post at once. Each first prepares, against the ledger of that moment; later, and in any
  order, its transaction is committed against the ledger as it is then. \<open>ru_answers\<close> records the tenant, the
  idempotency key and the entry identifier of every successful answer.
\<close>

record posting_run =
  ru_ledger :: ledger
  ru_pending :: "prepared list"
  ru_answers :: "(jstr \<times> jstr \<times> jstr) list"

definition answer :: "post_journal_dto \<Rightarrow> post_result \<Rightarrow> jstr \<times> jstr \<times> jstr" where
  "answer dto r = (pj_tenant dto, pj_key dto, po_id r)"

inductive run_step :: "posting_run \<Rightarrow> posting_run \<Rightarrow> bool" where
  run_prepare: "post_prepare dto (ru_ledger r) = (Inr (ReadyToCommit p), st)
     \<Longrightarrow> run_step r (r\<lparr>ru_ledger := st, ru_pending := p # ru_pending r\<rparr>)"
| run_replay: "post_prepare dto (ru_ledger r) = (Inr (AlreadyPosted res), st)
     \<Longrightarrow> run_step r (r\<lparr>ru_ledger := st, ru_answers := answer dto res # ru_answers r\<rparr>)"
| run_reject: "post_prepare dto (ru_ledger r) = (Inl e, st) \<Longrightarrow> run_step r (r\<lparr>ru_ledger := st\<rparr>)"
| run_commit: "p \<in> set (ru_pending r) \<Longrightarrow> post_commit px p (ru_ledger r) = (Inr res, st)
     \<Longrightarrow> px_entry_id px \<notin> je_id ` set (lb_entries (ru_ledger r))
     \<Longrightarrow> run_step r (r\<lparr>ru_ledger := st, ru_pending := remove1 p (ru_pending r), ru_answers := answer (pr_dto p) res # ru_answers r\<rparr>)"
| run_fail: "p \<in> set (ru_pending r) \<Longrightarrow> post_commit px p (ru_ledger r) = (Inl e, st)
     \<Longrightarrow> run_step r (r\<lparr>ru_ledger := st, ru_pending := remove1 p (ru_pending r)\<rparr>)"

inductive_cases run_stepE: "run_step r r'"

definition fresh_ledger :: "ledger \<Rightarrow> bool" where
  "fresh_ledger base \<longleftrightarrow> lb_entries base = [] \<and> lb_lines base = [] \<and> distinct (map ga_id (lb_accounts base))"

definition start_run :: "ledger \<Rightarrow> posting_run" where
  "start_run base = \<lparr>ru_ledger = base, ru_pending = [], ru_answers = []\<rparr>"

section \<open>What preparing and committing do\<close>

definition normal_at :: "ledger \<Rightarrow> jstr \<Rightarrow> jstr" where
  "normal_at st i = (case account_at st i of None \<Rightarrow> [] | Some a \<Rightarrow> ga_normal a)"

definition prepared_ok :: "ledger \<Rightarrow> prepared \<Rightarrow> bool" where
  "prepared_ok base p \<longleftrightarrow> clean p \<and> (\<forall>l \<in> set (pj_lines (pr_dto p)). normal_of p (pl_account_id l) = normal_at base (pl_account_id l))"

definition core_tables :: "ledger \<Rightarrow> _" where
  "core_tables st = (lb_accounts st, lb_entries st, lb_lines st)"

lemma post_prepare_core: "post_prepare dto st = (r, st') \<Longrightarrow> core_tables st' = core_tables st"
  by (auto simp: post_prepare_def core_tables_def Let_def split: sum.splits option.splits if_splits prod.splits)

lemma post_prepare_replay:
  "post_prepare dto st = (Inr (AlreadyPosted res), st') \<Longrightarrow>
     \<exists>e \<in> set (lb_entries st). je_tenant e = pj_tenant dto \<and> je_key e = pj_key dto \<and> po_id res = je_id e"
  by (auto simp: post_prepare_def find_entry_def earlier_result_def Let_def
      split: sum.splits option.splits if_splits prod.splits dest!: find_row_Some)

lemma find_row_extra:
  "distinct (map ga_id rows) \<Longrightarrow> find_row (\<lambda>a. ga_id a = i \<and> Q a) rows = Some a \<Longrightarrow> find_row (\<lambda>a. ga_id a = i) rows = Some a"
proof (induction rows)
  case (Cons r rows)
  show ?case
  proof (cases "ga_id r = i")
    case True
    then have "find_row (\<lambda>a. ga_id a = i) rows = None" using Cons.prems(1) by (auto simp: find_row_None intro: rev_image_eqI)
    then have "find_row (\<lambda>a. ga_id a = i \<and> Q a) rows = None" by (auto simp: find_row_None)
    then show ?thesis using True Cons.prems(2) by (auto split: if_splits)
  qed (use Cons in auto)
qed simp

lemma post_prepare_ready:
  assumes "post_prepare dto st = (Inr (ReadyToCommit p), st')"
  shows "pr_dto p = dto" "er_pass (evaluate (posting_header_of dto) (pj_lines dto) (pr_ctx p))"
    "pr_ctx p = resolve_context dto (caller_class dto) st" "pr_period p = the (pc_period (pr_ctx p))"
    "pr_debits p = total_side pl_dr (pj_lines dto)" "pr_credits p = total_side pl_cr (pj_lines dto)"
  using assms by (auto simp: post_prepare_def Let_def evaluate_totals split: sum.splits option.splits if_splits prod.splits)

lemma post_prepare_ok:
  assumes "post_prepare dto st = (Inr (ReadyToCommit p), st')" and "distinct (map ga_id (lb_accounts st))"
  shows "prepared_ok st p"
proof -
  note r = post_prepare_ready [OF assms(1)]
  have lines: "list_all (line_ok (pr_ctx p)) (pj_lines dto)" using r(2) by (simp add: evaluate_pass)
  have "normal_of p (pl_account_id l) = normal_at st (pl_account_id l)" if "l \<in> set (pj_lines dto)" for l
  proof -
    have "account_ok (pr_ctx p) l" using lines that by (auto simp: list_all_iff line_ok_def)
    then obtain a where a: "pc_accounts (pr_ctx p) (pl_account_id l) = Some a" by (auto simp: account_ok_def split: option.splits)
    then obtain row where row: "a = resolved_row row"
      "find_row (\<lambda>a. ga_id a = pl_account_id l \<and> ga_tenant a = pj_tenant dto \<and> ga_entity a = pj_entity dto) (lb_accounts st) = Some row"
      unfolding r(3) by (auto simp: resolve_context_def Let_def split: if_splits)
    then have "account_at st (pl_account_id l) = Some row"
      using find_row_extra [OF assms(2)] by (simp add: account_at_def)
    then show ?thesis using a row(1) by (simp add: normal_of_def normal_at_def resolved_row_def)
  qed
  moreover have "clean p" using lines r by (auto simp: clean_def list_all_iff line_ok_def one_sided_line_def)
  ultimately show ?thesis using r(1) by (simp add: prepared_ok_def)
qed

lemma attempts_Inr: "attempts_from run ns = Inr v \<Longrightarrow> \<exists>n \<in> set ns. run n = Inr v"
  by (induction ns) (auto split: sum.splits if_splits)

lemma retry_Inr:
  "with_serializable_retry (\<lambda>n. if conflict n then Inl SerializationFailure else tx) = Inr v \<Longrightarrow> tx = Inr v"
  unfolding with_serializable_retry_def by (drule attempts_Inr) (auto split: if_splits)

lemma post_commit_cases:
  assumes "post_commit px p st = (r, st')"
  obtains (posted) st1 where "post_tx px p st = Inr st1" "st' = publish_posting px p st1" "\<exists>res. r = Inr res \<and> po_id res = px_entry_id px"
  | (lost) w where "find_entry (pj_tenant (pr_dto p)) (pj_key (pr_dto p)) st = Some w" "st' = st" "r = Inr (earlier_result w)"
  | (failed) e where "r = Inl (PostingFailed e)" "st' = snd (fail_posting px p e st)"
proof (cases "with_serializable_retry (\<lambda>n. if px_conflict px n then Inl SerializationFailure else post_tx px p st)")
  case (Inr st1)
  then show ?thesis using assms retry_Inr [OF Inr] by (intro posted) (auto simp: post_commit_def)
next
  case (Inl e)
  show ?thesis
  proof (cases "if e = DuplicateKey then find_entry (pj_tenant (pr_dto p)) (pj_key (pr_dto p)) st else None")
    case None
    then show ?thesis using assms Inl by (intro failed) (auto simp: post_commit_def fail_posting_def)
  next
    case (Some w)
    then show ?thesis using assms Inl by (intro lost) (auto simp: post_commit_def split: if_splits)
  qed
qed

lemma core_after [simp]:
  "core_tables (publish_posting px p st) = core_tables st" "core_tables (snd (fail_posting px p e st)) = core_tables st"
  by (simp_all add: core_tables_def publish_posting_def fail_posting_def Let_def)

section \<open>The invariant of the ledger\<close>

definition entry_sum :: "(journal_line \<Rightarrow> int) \<Rightarrow> jstr \<Rightarrow> journal_line list \<Rightarrow> int" where
  "entry_sum f i rows = sum_list (map f (filter (\<lambda>r. jl_entry r = i) rows))"

lemma entry_sum_append [simp]: "entry_sum f i (rows @ rows') = entry_sum f i rows + entry_sum f i rows'"
  by (simp add: entry_sum_def)

lemma entry_sum_other: "\<forall>r \<in> set rows. jl_entry r \<noteq> i \<Longrightarrow> entry_sum f i rows = 0"
  by (induction rows) (auto simp: entry_sum_def)

lemma entry_sum_own: "\<forall>r \<in> set rows. jl_entry r = i \<Longrightarrow> entry_sum f i rows = sum_list (map f rows)"
  by (induction rows) (auto simp: entry_sum_def)

definition entry_ok :: "journal_line list \<Rightarrow> journal_entry \<Rightarrow> bool" where
  "entry_ok lines e \<longleftrightarrow> entry_sum jl_dr (je_id e) lines = je_debits e \<and> entry_sum jl_cr (je_id e) lines = je_credits e
     \<and> je_debits e = je_credits e \<and> 0 < je_debits e"

definition ledger_inv :: "ledger \<Rightarrow> ledger \<Rightarrow> bool" where
  "ledger_inv base st \<longleftrightarrow> map account_static (lb_accounts st) = map account_static (lb_accounts base)
     \<and> (\<forall>i. balance_of st i = balance_of base i
          + signed_cents (normal_at base i) (acct_sum jl_dr i (lb_lines st)) (acct_sum jl_cr i (lb_lines st)))
     \<and> (\<forall>r \<in> set (lb_lines st). jl_account r \<in> ga_id ` set (lb_accounts st) \<and> jl_entry r \<in> je_id ` set (lb_entries st))
     \<and> sum_list (map jl_dr (lb_lines st)) = sum_list (map jl_cr (lb_lines st))
     \<and> distinct (map je_id (lb_entries st)) \<and> distinct (map (\<lambda>e. (je_tenant e, je_key e)) (lb_entries st))
     \<and> distinct (map (\<lambda>e. (je_entity e, je_number e)) (lb_entries st))
     \<and> (\<forall>e \<in> set (lb_entries st). entry_ok (lb_lines st) e)"

lemma ledger_inv_core:
  assumes "core_tables st' = core_tables st" and "ledger_inv base st"
  shows "ledger_inv base st'"
proof -
  have c: "lb_accounts st' = lb_accounts st" "lb_entries st' = lb_entries st" "lb_lines st' = lb_lines st"
    using assms(1) by (simp_all add: core_tables_def)
  have "balance_of st' i = balance_of st i" for i by (simp add: balance_of_def account_at_def c)
  then show ?thesis using assms(2) by (simp add: ledger_inv_def c)
qed

lemma fresh_ledger_inv: "fresh_ledger base \<Longrightarrow> ledger_inv base base"
  by (simp add: fresh_ledger_def ledger_inv_def signed_cents_def)

lemma signed_cents_add: "signed_cents n (a + b) (c + d) = signed_cents n a c + signed_cents n b d"
  by (simp add: signed_cents_def)

lemma acct_sum_none: "\<forall>r \<in> set rows. jl_account r \<noteq> i \<Longrightarrow> acct_sum f i rows = 0"
  by (induction rows) auto

lemma line_matches_all:
  assumes "list_all2 (line_matches i) ls rows"
  shows "\<forall>r \<in> set rows. jl_entry r = i \<and> 0 \<le> jl_dr r \<and> 0 \<le> jl_cr r \<and> jl_account r \<in> pl_account_id ` set ls"
  using list_all2_right [OF assms] by (fastforce simp: line_matches_def)

lemma account_ids_static: "map account_static rows = map account_static rows' \<Longrightarrow> map ga_id rows = map ga_id rows'"
proof -
  assume "map account_static rows = map account_static rows'"
  then have "map fst (map account_static rows) = map fst (map account_static rows')" by simp
  then show ?thesis by (simp add: account_static_def comp_def)
qed

lemma commit_keeps_inv:
  assumes eff: "posted_effect px p st st' e rows" and inv: "ledger_inv base st" and ok: "prepared_ok base p"
    and fresh: "px_entry_id px \<notin> je_id ` set (lb_entries st)"
  shows "ledger_inv base st'"
proof -
  note E = eff [unfolded posted_effect_def]
  note I = inv [unfolded ledger_inv_def]
  have e: "entry_row px p = Inr e" using E by blast
  note f = entry_row_fields [OF e]
  have rows: "list_all2 (line_matches (px_entry_id px)) (pj_lines (pr_dto p)) rows" using E by blast
  note R = line_matches_all [OF rows]
  have L: "lb_lines st' = lb_lines st @ rows" "lb_entries st' = lb_entries st @ [e]" using E by auto
  have stat: "map account_static (lb_accounts st') = map account_static (lb_accounts st)" using E by blast
  have ids: "ga_id ` set (lb_accounts st') = ga_id ` set (lb_accounts st)" using account_ids_static [OF stat] by (metis set_map)
  have old: "\<forall>r \<in> set (lb_lines st). jl_entry r \<noteq> je_id e"
  proof
    fix r assume "r \<in> set (lb_lines st)"
    then have "jl_entry r \<in> je_id ` set (lb_entries st)" using I by blast
    then show "jl_entry r \<noteq> je_id e" using fresh f(1) by metis
  qed
  have new: "\<forall>r \<in> set rows. jl_entry r = je_id e" using R f(1) by simp
  have sums: "sum_list (map jl_dr rows) = je_debits e" "sum_list (map jl_cr rows) = je_credits e" using E by auto
  have "filter (\<lambda>l. jl_entry l = px_entry_id px) (lb_lines st @ rows) = rows" using old new f(1) by (simp add: filter_empty_conv)
  then have bal: "je_debits e \<noteq> 0" "je_debits e = je_credits e"
    using E sums by (auto simp: je_check_balanced_def L Let_def split: if_splits)
  moreover have "0 \<le> sum_list (map jl_dr rows)" using R by (intro sum_list_nonneg) auto
  ultimately have pos: "0 < je_debits e" using sums by simp
  have nodup: "\<not> list_ex (\<lambda>r. je_entity r = je_entity e \<and> je_number r = je_number e) (lb_entries st)"
    "\<not> list_ex (\<lambda>r. je_tenant r = je_tenant e \<and> je_key r = je_key e) (lb_entries st)"
    using E by (auto simp: insert_entry_def bind_res_Inr split: if_splits)
  have balance: "balance_of st' i = balance_of base i
      + signed_cents (normal_at base i) (acct_sum jl_dr i (lb_lines st')) (acct_sum jl_cr i (lb_lines st'))" for i
  proof -
    have "signed_cents (normal_of p i) (acct_sum jl_dr i rows) (acct_sum jl_cr i rows)
        = signed_cents (normal_at base i) (acct_sum jl_dr i rows) (acct_sum jl_cr i rows)"
    proof (cases "i \<in> pl_account_id ` set (pj_lines (pr_dto p))")
      case True
      then show ?thesis using ok by (auto simp: prepared_ok_def)
    next
      case False
      then have "\<forall>r \<in> set rows. jl_account r \<noteq> i" using R by auto
      then show ?thesis by (simp add: acct_sum_none signed_cents_def)
    qed
    moreover have "balance_of st' i = balance_of st i + signed_cents (normal_of p i) (acct_sum jl_dr i rows) (acct_sum jl_cr i rows)"
      using E by blast
    ultimately show ?thesis using I by (simp add: L signed_cents_add)
  qed
  have lines: "\<forall>r \<in> set (lb_lines st'). jl_account r \<in> ga_id ` set (lb_accounts st') \<and> jl_entry r \<in> je_id ` set (lb_entries st')"
  proof
    fix r assume "r \<in> set (lb_lines st')"
    then consider "r \<in> set (lb_lines st)" | "r \<in> set rows" using L by auto
    then show "jl_account r \<in> ga_id ` set (lb_accounts st') \<and> jl_entry r \<in> je_id ` set (lb_entries st')"
    proof cases
      case 1
      then show ?thesis using I ids L by auto
    next
      case 2
      then have "\<exists>a \<in> set (lb_accounts st'). ga_id a = jl_account r" using E by blast
      then show ?thesis using 2 new L by force
    qed
  qed
  have entries: "\<forall>x \<in> set (lb_entries st'). entry_ok (lb_lines st') x"
  proof
    fix x assume "x \<in> set (lb_entries st')"
    then consider "x \<in> set (lb_entries st)" | "x = e" using L by auto
    then show "entry_ok (lb_lines st') x"
    proof cases
      case 1
      then have "je_id x \<noteq> je_id e" using fresh f(1) by (metis imageI)
      then have "entry_sum g (je_id x) rows = 0" for g using new by (intro entry_sum_other) auto
      then show ?thesis using 1 I by (auto simp: entry_ok_def L)
    next
      case 2
      then show ?thesis using sums bal pos entry_sum_other [OF old] entry_sum_own [OF new] by (simp add: entry_ok_def L)
    qed
  qed
  have keys: "distinct (map je_id (lb_entries st'))" "distinct (map (\<lambda>e. (je_tenant e, je_key e)) (lb_entries st'))"
    "distinct (map (\<lambda>e. (je_entity e, je_number e)) (lb_entries st'))"
    using I fresh nodup f(1) by (auto simp: L list_ex_iff)
  have total: "sum_list (map jl_dr (lb_lines st')) = sum_list (map jl_cr (lb_lines st'))" using I sums bal by (simp add: L)
  show ?thesis unfolding ledger_inv_def using stat I balance lines total keys entries by simp
qed

section \<open>The invariant of a run\<close>

definition answered :: "journal_entry list \<Rightarrow> jstr \<times> jstr \<times> jstr \<Rightarrow> bool" where
  "answered es a = (case a of (t, k, i) \<Rightarrow> list_ex (\<lambda>e. je_tenant e = t \<and> je_key e = k \<and> je_id e = i) es)"

lemma answered_mono: "answered es a \<Longrightarrow> set es \<subseteq> set es' \<Longrightarrow> answered es' a"
  by (auto simp: answered_def list_ex_iff)

definition run_inv :: "ledger \<Rightarrow> posting_run \<Rightarrow> bool" where
  "run_inv base r \<longleftrightarrow> ledger_inv base (ru_ledger r) \<and> (\<forall>p \<in> set (ru_pending r). prepared_ok base p)
     \<and> (\<forall>a \<in> set (ru_answers r). answered (lb_entries (ru_ledger r)) a)"

lemma normal_at_static:
  assumes "map account_static (lb_accounts st) = map account_static (lb_accounts base)"
  shows "normal_at st i = normal_at base i"
proof -
  have "map_option account_static (find_row (\<lambda>a. ga_id a = i) rows) = find_row (\<lambda>s. fst s = i) (map account_static rows)" for rows
    by (induction rows) (auto simp: account_static_def)
  from this [of "lb_accounts st"] this [of "lb_accounts base"]
  have "map_option account_static (account_at st i) = map_option account_static (account_at base i)"
    by (simp add: account_at_def assms)
  then show ?thesis by (auto simp: normal_at_def account_static_def split: option.splits)
qed

lemma prepared_ok_base: "prepared_ok st p \<Longrightarrow> ledger_inv base st \<Longrightarrow> prepared_ok base p"
  using normal_at_static [of st base] unfolding prepared_ok_def ledger_inv_def by auto

lemma answers_core: "core_tables st' = core_tables st \<Longrightarrow> answered (lb_entries st') = answered (lb_entries st)"
  by (simp add: core_tables_def)

lemma commit_step_inv:
  assumes "post_commit px p st = (r, st')" and "ledger_inv base st" and "prepared_ok base p"
    and "px_entry_id px \<notin> je_id ` set (lb_entries st) \<or> (\<exists>e. r = Inl e)"
  shows "ledger_inv base st' \<and> set (lb_entries st) \<subseteq> set (lb_entries st')
     \<and> (\<forall>res. r = Inr res \<longrightarrow> (\<exists>e \<in> set (lb_entries st'). je_tenant e = pj_tenant (pr_dto p) \<and> je_key e = pj_key (pr_dto p) \<and> je_id e = po_id res))"
  using assms(1)
proof (cases rule: post_commit_cases)
  case (posted st1)
  have fresh: "px_entry_id px \<notin> je_id ` set (lb_entries st)" using assms(4) posted(3) by auto
  obtain e rows where eff: "posted_effect px p st st1 e rows"
    using post_tx_effect [OF posted(1)] assms(3) by (auto simp: prepared_ok_def)
  have "ledger_inv base st1" using commit_keeps_inv [OF eff assms(2,3) fresh] .
  then have "ledger_inv base st'" unfolding posted(2) by (rule ledger_inv_core [rotated]) simp
  moreover have "lb_entries st' = lb_entries st @ [e]" using eff by (simp add: posted(2) publish_posting_def posted_effect_def Let_def)
  moreover have "je_tenant e = pj_tenant (pr_dto p)" "je_key e = pj_key (pr_dto p)" "je_id e = px_entry_id px"
    using entry_row_fields [of px p e] eff by (auto simp: posted_effect_def)
  ultimately show ?thesis using posted(3) by auto
next
  case (lost w)
  then show ?thesis using assms(2) by (auto simp: find_entry_def earlier_result_def dest!: find_row_Some)
next
  case (failed e)
  have "core_tables st' = core_tables st" by (simp add: failed(2))
  then show ?thesis using ledger_inv_core [OF _ assms(2)] failed(1) by (simp add: core_tables_def)
qed

lemma run_step_inv:
  assumes "run_step r r'" and "run_inv base r" and "distinct (map ga_id (lb_accounts base))"
  shows "run_inv base r'"
  using assms(1)
proof (cases rule: run_step.cases)
  case (run_prepare dto p st)
  have inv: "ledger_inv base (ru_ledger r)" using assms(2) by (simp add: run_inv_def)
  have "map account_static (lb_accounts (ru_ledger r)) = map account_static (lb_accounts base)" using inv by (simp add: ledger_inv_def)
  then have "distinct (map ga_id (lb_accounts (ru_ledger r)))" using account_ids_static assms(3) by metis
  then have "prepared_ok base p" using post_prepare_ok [OF run_prepare(2)] prepared_ok_base inv by blast
  moreover have c: "core_tables st = core_tables (ru_ledger r)" using run_prepare(2) by (rule post_prepare_core)
  ultimately show ?thesis using assms(2) ledger_inv_core [OF c inv] answers_core [OF c] by (simp add: run_inv_def run_prepare(1))
next
  case (run_replay dto res st)
  have inv: "ledger_inv base (ru_ledger r)" using assms(2) by (simp add: run_inv_def)
  have c: "core_tables st = core_tables (ru_ledger r)" using run_replay(2) by (rule post_prepare_core)
  then have "lb_entries st = lb_entries (ru_ledger r)" by (simp add: core_tables_def)
  then show ?thesis using assms(2) ledger_inv_core [OF c inv] post_prepare_replay [OF run_replay(2)]
    by (auto simp: run_inv_def run_replay(1) answer_def answered_def list_ex_iff)
next
  case (run_reject dto e st)
  have inv: "ledger_inv base (ru_ledger r)" using assms(2) by (simp add: run_inv_def)
  have c: "core_tables st = core_tables (ru_ledger r)" using run_reject(2) by (rule post_prepare_core)
  then show ?thesis using assms(2) ledger_inv_core [OF c inv] answers_core [OF c] by (simp add: run_inv_def run_reject(1))
next
  case (run_commit p px res st)
  have inv: "ledger_inv base (ru_ledger r)" "prepared_ok base p" using assms(2) run_commit(2) by (auto simp: run_inv_def)
  have s: "ledger_inv base st" "set (lb_entries (ru_ledger r)) \<subseteq> set (lb_entries st)"
    "\<exists>e \<in> set (lb_entries st). je_tenant e = pj_tenant (pr_dto p) \<and> je_key e = pj_key (pr_dto p) \<and> je_id e = po_id res"
    using commit_step_inv [OF run_commit(3) inv] run_commit(4) by auto
  have p': "set (remove1 p (ru_pending r)) \<subseteq> set (ru_pending r)" by (rule set_remove1_subset)
  show ?thesis unfolding run_inv_def run_commit(1)
  proof (intro conjI ballI)
    show "ledger_inv base (ru_ledger (r\<lparr>ru_ledger := st, ru_pending := remove1 p (ru_pending r), ru_answers := answer (pr_dto p) res # ru_answers r\<rparr>))"
      using s(1) by simp
  next
    fix q assume "q \<in> set (ru_pending (r\<lparr>ru_ledger := st, ru_pending := remove1 p (ru_pending r), ru_answers := answer (pr_dto p) res # ru_answers r\<rparr>))"
    then show "prepared_ok base q" using p' assms(2) by (auto simp: run_inv_def)
  next
    fix x assume "x \<in> set (ru_answers (r\<lparr>ru_ledger := st, ru_pending := remove1 p (ru_pending r), ru_answers := answer (pr_dto p) res # ru_answers r\<rparr>))"
    then have "x = answer (pr_dto p) res \<or> x \<in> set (ru_answers r)" by auto
    then show "answered (lb_entries (ru_ledger (r\<lparr>ru_ledger := st, ru_pending := remove1 p (ru_pending r),
        ru_answers := answer (pr_dto p) res # ru_answers r\<rparr>))) x"
    proof
      assume "x = answer (pr_dto p) res"
      then show ?thesis using s(3) by (auto simp: answer_def answered_def list_ex_iff)
    next
      assume "x \<in> set (ru_answers r)"
      then show ?thesis using assms(2) answered_mono [OF _ s(2)] by (simp add: run_inv_def)
    qed
  qed
next
  case (run_fail p px e st)
  have inv: "ledger_inv base (ru_ledger r)" "prepared_ok base p" using assms(2) run_fail(2) by (auto simp: run_inv_def)
  have s: "ledger_inv base st" "set (lb_entries (ru_ledger r)) \<subseteq> set (lb_entries st)"
    using commit_step_inv [OF run_fail(3) inv] by auto
  have p': "set (remove1 p (ru_pending r)) \<subseteq> set (ru_pending r)" by (rule set_remove1_subset)
  then show ?thesis using s(1) answered_mono [OF _ s(2)] assms(2) by (auto simp: run_inv_def run_fail(1))
qed

lemma run_invariant:
  assumes "fresh_ledger base" and "run_step\<^sup>*\<^sup>* (start_run base) r"
  shows "run_inv base r"
  using assms(2)
proof (induction rule: rtranclp_induct)
  case base
  then show ?case using fresh_ledger_inv [OF assms(1)] by (simp add: run_inv_def start_run_def)
next
  case (step r r')
  then show ?case using run_step_inv assms(1) by (simp add: fresh_ledger_def)
qed

section \<open>The trial balance\<close>

definition debit_balance :: "gl_account \<Rightarrow> int" where
  "debit_balance a = (if ga_normal a = js ''CR'' then - ga_balance a else ga_balance a)"

definition trial_balance :: "ledger \<Rightarrow> int" where
  "trial_balance st = sum_list (map debit_balance (lb_accounts st))"

lemma acct_sum_total:
  fixes rows :: "gl_account list" and lines :: "journal_line list"
  shows "distinct (map ga_id rows) \<Longrightarrow> \<forall>r \<in> set lines. jl_account r \<in> ga_id ` set rows \<Longrightarrow>
     sum_list (map (\<lambda>a. acct_sum f (ga_id a) lines) rows) = sum_list (map f lines)"
proof (induction lines)
  case (Cons r lines)
  have one: "sum_list (map (\<lambda>a. if jl_account r = ga_id a then f r else 0) rows') = (if jl_account r \<in> ga_id ` set rows' then f r else 0)"
    if "distinct (map ga_id rows')" for rows' :: "gl_account list"
    using that by (induction rows') auto
  show ?case using Cons one [OF Cons.prems(1)] by (simp add: sum_list_addf)
qed simp

lemma balance_of_row: "distinct (map ga_id (lb_accounts st)) \<Longrightarrow> a \<in> set (lb_accounts st) \<Longrightarrow> account_at st (ga_id a) = Some a"
proof -
  have "find_row (\<lambda>b. ga_id b = ga_id a) rows = Some a" if "distinct (map ga_id rows)" "a \<in> set rows" for rows
    using that by (induction rows) (auto intro: rev_image_eqI)
  then show "distinct (map ga_id (lb_accounts st)) \<Longrightarrow> a \<in> set (lb_accounts st) \<Longrightarrow> ?thesis" by (simp add: account_at_def)
qed

definition signed_balance :: "ledger \<Rightarrow> jstr \<times> jstr \<times> jstr \<times> jstr \<times> jstr \<Rightarrow> int" where
  "signed_balance st s = (case s of (i, _, _, normal, _) \<Rightarrow> if normal = js ''CR'' then - balance_of st i else balance_of st i)"

lemma trial_balance_static:
  assumes "distinct (map ga_id (lb_accounts st))"
  shows "trial_balance st = sum_list (map (signed_balance st) (map account_static (lb_accounts st)))"
proof -
  have "debit_balance a = signed_balance st (account_static a)" if "a \<in> set (lb_accounts st)" for a
    using balance_of_row [OF assms that] by (simp add: debit_balance_def signed_balance_def account_static_def balance_of_def)
  then show ?thesis unfolding trial_balance_def by (simp add: comp_def cong: map_cong)
qed

lemma trial_balance_kept:
  assumes "ledger_inv base st" and "distinct (map ga_id (lb_accounts base))"
  shows "trial_balance st = trial_balance base"
proof -
  note I = assms(1) [unfolded ledger_inv_def]
  let ?L = "lb_lines st"
  have stat: "map account_static (lb_accounts st) = map account_static (lb_accounts base)" using I by blast
  have ids: "map ga_id (lb_accounts st) = map ga_id (lb_accounts base)" by (rule account_ids_static) (rule stat)
  then have dist: "distinct (map ga_id (lb_accounts st))" using assms(2) by simp
  have "signed_balance st (account_static a) = signed_balance base (account_static a)
      + (acct_sum jl_dr (ga_id a) ?L - acct_sum jl_cr (ga_id a) ?L)" if a: "a \<in> set (lb_accounts base)" for a
  proof -
    have n: "normal_at base (ga_id a) = ga_normal a" using balance_of_row [OF assms(2) a] by (simp add: normal_at_def)
    have "balance_of st (ga_id a) = balance_of base (ga_id a)
      + signed_cents (normal_at base (ga_id a)) (acct_sum jl_dr (ga_id a) ?L) (acct_sum jl_cr (ga_id a) ?L)" using I by blast
    then show ?thesis by (simp add: n signed_balance_def account_static_def signed_cents_def)
  qed
  then have "trial_balance st = trial_balance base
      + sum_list (map (\<lambda>a. acct_sum jl_dr (ga_id a) ?L - acct_sum jl_cr (ga_id a) ?L) (lb_accounts base))"
    unfolding trial_balance_static [OF dist] trial_balance_static [OF assms(2)] stat
    by (simp add: comp_def sum_list_addf [symmetric] cong: map_cong)
  also have "sum_list (map (\<lambda>a. acct_sum jl_dr (ga_id a) ?L - acct_sum jl_cr (ga_id a) ?L) (lb_accounts base)) = 0"
  proof -
    have "\<forall>r \<in> set ?L. jl_account r \<in> ga_id ` set (lb_accounts base)" using I ids by (metis set_map)
    from acct_sum_total [OF assms(2) this] show ?thesis using I by (simp add: sum_list_subtractf)
  qed
  finally show ?thesis by simp
qed

text \<open>
  C1: double entry. Whatever callers post, however their preparations and commits interleave, fail or race, the
  trial balance of the ledger (debit-normal balances minus credit-normal balances, in cents) stays what it was,
  and every stored entry has a positive total that the debits and the credits of its lines both add up to.
\<close>

theorem trial_balance_preserved:
  assumes "fresh_ledger base" and "run_step\<^sup>*\<^sup>* (start_run base) r"
  shows "trial_balance (ru_ledger r) = trial_balance base \<and> list_all (entry_ok (lb_lines (ru_ledger r))) (lb_entries (ru_ledger r))"
proof -
  have inv: "ledger_inv base (ru_ledger r)" using run_invariant [OF assms] by (simp add: run_inv_def)
  then show ?thesis using trial_balance_kept [OF inv] assms(1) by (auto simp: fresh_ledger_def ledger_inv_def list_all_iff)
qed

text \<open>
  C9: the stored balance of every account is its opening balance plus, on its normal side, the difference of the
  debits and credits of all its stored lines, exactly to the cent although the code adds doubles.
\<close>

theorem balance_is_sum_of_lines:
  assumes "fresh_ledger base" and "run_step\<^sup>*\<^sup>* (start_run base) r"
  shows "balance_of (ru_ledger r) i = balance_of base i + signed_cents (normal_at base i)
    (acct_sum jl_dr i (lb_lines (ru_ledger r))) (acct_sum jl_cr i (lb_lines (ru_ledger r)))"
  using run_invariant [OF assms] by (simp add: run_inv_def ledger_inv_def)

text \<open>
  C10: idempotency under races: all successful answers to one tenant and idempotency key, however many callers
  race, name the same entry, which is in the ledger.
\<close>

theorem answers_idempotent:
  assumes "fresh_ledger base" and "run_step\<^sup>*\<^sup>* (start_run base) r"
    and "(t, k, x) \<in> set (ru_answers r)" and "(t, k, y) \<in> set (ru_answers r)"
  shows "x = y \<and> x \<in> je_id ` set (lb_entries (ru_ledger r))"
proof -
  have inv: "run_inv base r" using run_invariant [OF assms(1,2)] .
  then have "answered (lb_entries (ru_ledger r)) (t, k, x)" "answered (lb_entries (ru_ledger r)) (t, k, y)"
    using assms(3,4) by (simp_all add: run_inv_def)
  then obtain e f where e: "e \<in> set (lb_entries (ru_ledger r))" "je_tenant e = t" "je_key e = k" "je_id e = x"
    and f: "f \<in> set (lb_entries (ru_ledger r))" "je_tenant f = t" "je_key f = k" "je_id f = y"
    by (auto simp: answered_def list_ex_iff)
  have "inj_on (\<lambda>e. (je_tenant e, je_key e)) (set (lb_entries (ru_ledger r)))"
    using inv by (simp add: run_inv_def ledger_inv_def distinct_map)
  then have "e = f" using e f by (auto dest: inj_onD)
  then show ?thesis using e f by auto
qed


definition demo_gl_account :: "string \<Rightarrow> string \<Rightarrow> gl_account" where
  "demo_gl_account i nb = \<lparr>ga_id = js i, ga_tenant = js ''t'', ga_entity = js ''e'', ga_number = js ''10100'', ga_name = js i,
     ga_type = js ''ASSET'', ga_normal = js nb, ga_contra = False, ga_contra_reason = None, ga_postable = True, ga_parent = None,
     ga_parent_from = None, ga_status = js ''ACTIVE'', ga_balance = 0, ga_has_postings = False, ga_schedule = None, ga_version = 1\<rparr>"

definition demo_ledger :: ledger where
  "demo_ledger = \<lparr>lb_accounts = [demo_gl_account ''cash'' ''DR'', demo_gl_account ''loan'' ''CR''],
     lb_periods = [\<lparr>fp_id = js ''p'', fp_tenant = js ''t'', fp_entity = js ''e'', fp_calendar = js ''c'', fp_fiscal_year = 1970,
       fp_period_number = 1, fp_code = js ''1970-01'', fp_start = 0, fp_end = 2591999999, fp_status = OPEN,
       fp_adjustments_only = False, fp_has_postings = False, fp_opened_by = None, fp_opened_at = None,
       fp_closed_by = None, fp_closed_at = None, fp_locked_by = None, fp_locked_at = None\<rparr>],
     lb_sources = [\<lparr>js_id = js ''s'', js_tenant = js ''t'', js_code = js ''GJ'', js_alias = None, js_name = js ''GJ'',
       js_class = js ''MANUAL'', js_reserved = False, js_flags = no_flags, js_status = js ''ACTIVE'', js_version = 1\<rparr>],
     lb_registry = \<lparr>rg_types = [], rg_values = [], rg_audit = [], rg_outbox = []\<rparr>,
     lb_sequence = \<lparr>sq_counters = [], sq_gaps = [], sq_audit = []\<rparr>,
     lb_entries = [], lb_lines = [], lb_tags = [], lb_snapshots = [], lb_attestations = [], lb_audit = [], lb_outbox = [],
     lb_published = []\<rparr>"

definition demo_post :: post_journal_dto where
  "demo_post = \<lparr>pj_tenant = js ''t'', pj_entity = js ''e'', pj_date = js ''1970-01-15'', pj_source = js ''GJ'', pj_memo = None,
     pj_key = js ''k'', pj_caller_class = None, pj_posted_by = None, pj_draft = None, pj_adjusting = False,
     pj_adjusting_reason = None, pj_correction_ref = None, pj_reversal_of = None, pj_reversal_reason = None,
     pj_lines = demo_lines\<rparr>"

definition demo_env :: "string \<Rightarrow> posting_env" where
  "demo_env i = \<lparr>px_parse_date = (\<lambda>_. Some 1209600000), px_conflict = (\<lambda>_. False), px_message = (\<lambda>_. []), px_now = 0,
     px_entry_id = js i, px_line_id = (\<lambda>_. []), px_event_id = []\<rparr>"

definition demo_period_row :: resolved_period where
  "demo_period_row = \<lparr>rp_id = js ''p'', rp_code = js ''1970-01'', rp_status = js ''OPEN'', rp_adjustments_only = False\<rparr>"

definition demo_ctx :: posting_context where
  "demo_ctx = resolve_context demo_post (js ''MANUAL'') demo_ledger"

definition demo_alloc :: allocation_result where
  "demo_alloc = \<lparr>ar_number = js ''GJ-1970-01-000001'', ar_seq = 1, ar_source = js ''GJ'', ar_entity = js ''e'', ar_period = js ''1970-01''\<rparr>"

definition demo_prepared :: prepared where
  "demo_prepared = \<lparr>pr_dto = demo_post, pr_ctx = demo_ctx, pr_period = demo_period_row, pr_debits = Fin 10000,
     pr_credits = Fin 10000, pr_alloc = demo_alloc\<rparr>"

definition demo_sequence :: sequence_state where
  "demo_sequence = snd (allocate \<lparr>al_tenant = js ''t'', al_source = js ''GJ'', al_entity = js ''e'', al_period = js ''1970-01'',
     al_actor = Some (js ''system'')\<rparr> (lb_sequence demo_ledger))"

lemma demo_lookup:
  "check_input demo_post = Inr ()" "find_entry (pj_tenant demo_post) (pj_key demo_post) demo_ledger = None"
  "tag_violations demo_post demo_ledger = []" "caller_class demo_post = js ''MANUAL''"
  "fst (allocate \<lparr>al_tenant = js ''t'', al_source = js ''GJ'', al_entity = js ''e'', al_period = js ''1970-01'',
     al_actor = Some (js ''system'')\<rparr> (lb_sequence demo_ledger)) = Inr demo_alloc"
  by code_simp+

lemma demo_days: "iso_day 0 = js ''1970-01-01''" "iso_day 2591999999 = js ''1970-01-30''"
  by code_simp+

lemma demo_fiscal_period: "fiscal_resolve (lb_periods demo_ledger) (js ''t'') (js ''e'') (js ''1970-01-15'') = Inr (List.hd (lb_periods demo_ledger))"
  by (simp add: fiscal_resolve_def demo_ledger_def resolve_date_def resolvable_def demo_days del: js_def) code_simp

lemma demo_ctx_simps:
  "pc_caller_class demo_ctx = js ''MANUAL''" "pc_period demo_ctx = Some demo_period_row"
  "pc_source demo_ctx = Some \<lparr>rs_code = js ''GJ'', rs_class = js ''MANUAL'', rs_status = js ''ACTIVE''\<rparr>"
  "pc_accounts demo_ctx (js ''cash'') = Some (resolved_row (demo_gl_account ''cash'' ''DR''))"
  "pc_accounts demo_ctx (js ''loan'') = Some (resolved_row (demo_gl_account ''loan'' ''CR''))"
proof -
  have d: "pj_tenant demo_post = js ''t''" "pj_entity demo_post = js ''e''" "pj_date demo_post = js ''1970-01-15''"
    "pj_source demo_post = js ''GJ''" "pj_lines demo_post = demo_lines" by (simp_all add: demo_post_def)
  show "pc_caller_class demo_ctx = js ''MANUAL''" by (simp add: demo_ctx_def resolve_context_def Let_def)
  show "pc_period demo_ctx = Some demo_period_row"
    by (simp add: demo_ctx_def resolve_context_def Let_def d demo_fiscal_period) (simp add: demo_ledger_def demo_period_row_def)
  show "pc_source demo_ctx = Some \<lparr>rs_code = js ''GJ'', rs_class = js ''MANUAL'', rs_status = js ''ACTIVE''\<rparr>"
    by (simp add: demo_ctx_def resolve_context_def Let_def d) (simp add: demo_ledger_def)
  show "pc_accounts demo_ctx (js ''cash'') = Some (resolved_row (demo_gl_account ''cash'' ''DR''))"
    "pc_accounts demo_ctx (js ''loan'') = Some (resolved_row (demo_gl_account ''loan'' ''CR''))"
    by (simp_all add: demo_ctx_def resolve_context_def Let_def d)
       (simp_all add: demo_ledger_def demo_lines_def demo_line_def demo_gl_account_def js_def)
qed

lemma demo_resolved [simp]:
  "ra_status (resolved_row (demo_gl_account i n)) = js ''ACTIVE''" "ra_postable (resolved_row (demo_gl_account i n))"
  "ra_type (resolved_row (demo_gl_account i n)) = js ''ASSET''" "ra_normal_balance (resolved_row (demo_gl_account i n)) = js n"
  "ra_schedule_code (resolved_row (demo_gl_account i n)) = None" "ra_account_number (resolved_row (demo_gl_account i n)) = js ''10100''"
  by (simp_all add: resolved_row_def demo_gl_account_def)

lemma demo_dollars: "cents_to_dollars (Fin 10000) = Fin 100" "cents_to_dollars (Fin 0) = Fin 0"
  by (simp_all add: cents_to_dollars_def)

lemma demo_totals: "total_side pl_dr demo_lines = Fin 10000" "total_side pl_cr demo_lines = Fin 10000"
  by (simp_all add: total_side_def add_side_def demo_lines_def demo_line_def math_max_def)

lemma demo_blank: "\<not> is_blank (js ''k'')" by code_simp

lemma demo_evaluates:
  "er_pass (evaluate (posting_header_of demo_post) demo_lines demo_ctx)"
proof -
  have "list_all (line_ok demo_ctx) demo_lines"
    by (simp add: demo_lines_def demo_line_def line_ok_def one_sided_def account_ok_def demo_ctx_simps)
  moreover have "period_ok (posting_header_of demo_post) demo_ctx" by (simp add: period_ok_def demo_ctx_simps demo_period_row_def)
  moreover have "source_ok demo_ctx" by (simp add: source_ok_def demo_ctx_simps)
  moreover have "ph_idempotency_key (posting_header_of demo_post) = js ''k''" by (simp add: posting_header_of_def demo_post_def)
  ultimately show ?thesis using demo_blank demo_totals by (simp add: evaluate_pass num_eq_def) (simp add: demo_lines_def)
qed

lemma demo_prepares:
  "post_prepare demo_post demo_ledger = (Inr (ReadyToCommit demo_prepared), demo_ledger\<lparr>lb_sequence := demo_sequence\<rparr>)"
proof -
  have "pj_lines demo_post = demo_lines" "pj_tenant demo_post = js ''t''" "pj_source demo_post = js ''GJ''" "pj_entity demo_post = js ''e''"
    "pj_posted_by demo_post = None" by (simp_all add: demo_post_def)
  moreover have "rp_code (the (pc_period demo_ctx)) = js ''1970-01''" "the (pc_period demo_ctx) = demo_period_row"
    by (simp_all add: demo_ctx_simps demo_period_row_def)
  moreover have "allocate \<lparr>al_tenant = js ''t'', al_source = js ''GJ'', al_entity = js ''e'', al_period = js ''1970-01'',
     al_actor = Some (js ''system'')\<rparr> (lb_sequence demo_ledger) = (Inr demo_alloc, demo_sequence)"
    using demo_lookup(5) unfolding demo_sequence_def by (simp add: prod_eq_iff)
  ultimately show ?thesis
    using demo_evaluates demo_lookup demo_totals
    by (simp add: post_prepare_def demo_ctx_def [symmetric] Let_def evaluate_totals actor_or_system_def demo_prepared_def del: js_def)
qed

definition demo_entry :: "string \<Rightarrow> journal_entry" where
  "demo_entry i = \<lparr>je_id = js i, je_tenant = js ''t'', je_entity = js ''e'', je_number = js ''GJ-1970-01-000001'', je_source = js ''GJ'',
     je_period = js ''p'', je_period_code = js ''1970-01'', je_date = 1209600000, je_memo = None, je_status = js ''POSTED'',
     je_key = js ''k'', je_debits = 10000, je_credits = 10000, je_reversal_of = None, je_reversed_by = None,
     je_reversal_reason = None, je_draft = None, je_posted_by = js ''system'', je_adjusting = False,
     je_adjusting_reason = None, je_correction_ref = None\<rparr>"

lemma demo_money: "money_of (Fin 100) = Inr 10000" "money_of (Fin 0) = Inr 0" "rounded_cents (Fin 100) = Inr 10000"
proof -
  have "half_away (100 * 100) = 10000" "half_away 0 = 0" using half_away_near [of "100 * 100" 10000] half_away_near [of 0 0] by simp_all
  then show "money_of (Fin 100) = Inr 10000" "money_of (Fin 0) = Inr 0" "rounded_cents (Fin 100) = Inr 10000"
    by (simp_all add: money_of_def fits_money_def)
qed

lemma demo_half: "half_away 10000 = 10000"
  using half_away_near [of 10000 10000] by simp

lemma demo_entry_row: "entry_row (demo_env i) demo_prepared = Inr (demo_entry i)"
  by (simp add: entry_row_def demo_prepared_def demo_post_def demo_env_def entry_instant_def short_text_def demo_dollars demo_money
      demo_entry_def demo_alloc_def demo_period_row_def actor_or_system_def)

lemma demo_rows:
  "line_row (demo_env i) demo_prepared n (demo_line ''cash'' (Some (JNum (Fin 100))) None) =
     Inr \<lparr>jl_id = [], jl_entry = js i, jl_tenant = js ''t'', jl_index = n, jl_account = js ''cash'', jl_number = js ''10100'',
       jl_store = js ''S1'', jl_dept = None, jl_control = None, jl_apply = None, jl_dr = 10000, jl_cr = 0, jl_memo = None\<rparr>"
  "line_row (demo_env i) demo_prepared n (demo_line ''loan'' (Some JNull) (Some (JNum (Fin 100)))) =
     Inr \<lparr>jl_id = [], jl_entry = js i, jl_tenant = js ''t'', jl_index = n, jl_account = js ''loan'', jl_number = js ''10100'',
       jl_store = js ''S1'', jl_dept = None, jl_control = None, jl_apply = None, jl_dr = 0, jl_cr = 10000, jl_memo = None\<rparr>"
  by (simp_all add: line_row_def demo_line_def demo_dollars demo_money short_text_def demo_env_def demo_prepared_def demo_post_def
      demo_ctx_simps)

lemma demo_sides: "account_sides demo_lines = [(js ''cash'', Fin 10000, Fin 0), (js ''loan'', Fin 0, Fin 10000)]"
  by (simp add: account_sides_def demo_lines_def demo_line_def add_sides_def)

lemma demo_deltas:
  "balance_delta (js ''DR'') (Fin 10000) (Fin 0) = Fin 100" "balance_delta (js ''CR'') (Fin 0) (Fin 10000) = Fin 100"
  by (simp_all add: balance_delta_def num_sub_def demo_dollars)

lemma demo_clean: "clean demo_prepared"
  by (simp add: clean_def demo_prepared_def demo_post_def demo_totals demo_lines_def demo_line_def one_sided_line_def one_sided_def)
    (simp add: total_side_def add_side_def math_max_def)

lemma demo_env_id: "px_entry_id (demo_env i) = js i"
  by (simp add: demo_env_def)

lemma close_posting_entries: "lb_entries (close_posting px p st) = lb_entries st"
  by (simp add: close_posting_def)

lemma demo_tx:
  assumes "lb_entries st = []" and "lb_lines st = []" and "lb_accounts st = lb_accounts demo_ledger"
    and "lb_periods st = lb_periods demo_ledger"
  shows "\<exists>st'. post_tx (demo_env i) demo_prepared st = Inr st' \<and> lb_entries st' = [demo_entry i]"
proof -
  have lines: "pj_lines (pr_dto demo_prepared) = demo_lines" by (simp add: demo_prepared_def demo_post_def)
  have enf: "enforce_period_postable st (demo_entry i) = Inr ()"
    by (simp add: enforce_period_postable_def assms demo_entry_def) (simp add: demo_ledger_def)
  have norm: "ra_normal_balance (the (pc_accounts (pr_ctx demo_prepared) (js ''cash''))) = js ''DR''"
    "ra_normal_balance (the (pc_accounts (pr_ctx demo_prepared) (js ''loan''))) = js ''CR''"
    by (simp_all add: demo_prepared_def demo_ctx_simps)
  have acc: "lb_accounts demo_ledger = [demo_gl_account ''cash'' ''DR'', demo_gl_account ''loan'' ''CR'']"
    "ga_id (demo_gl_account a n) = js a" "ga_balance (demo_gl_account a n) = 0" for a n
    by (simp_all add: demo_ledger_def demo_gl_account_def)
  define tags where "tags = lb_tags st @ tags_of (demo_env i) demo_prepared 0 (demo_line ''cash'' (Some (JNum (Fin 100))) None)
    @ tags_of (demo_env i) demo_prepared (Suc 0) (demo_line ''loan'' (Some JNull) (Some (JNum (Fin 100))))"
  have w: "fold_res (write_line (demo_env i) demo_prepared) (st\<lparr>lb_entries := [demo_entry i]\<rparr>) (enumerate 0 demo_lines)
      = Inr (st\<lparr>lb_entries := [demo_entry i], lb_tags := tags, lb_lines :=
         [\<lparr>jl_id = [], jl_entry = js i, jl_tenant = js ''t'', jl_index = 0, jl_account = js ''cash'', jl_number = js ''10100'',
            jl_store = js ''S1'', jl_dept = None, jl_control = None, jl_apply = None, jl_dr = 10000, jl_cr = 0, jl_memo = None\<rparr>,
          \<lparr>jl_id = [], jl_entry = js i, jl_tenant = js ''t'', jl_index = 1, jl_account = js ''loan'', jl_number = js ''10100'',
            jl_store = js ''S1'', jl_dept = None, jl_control = None, jl_apply = None, jl_dr = 0, jl_cr = 10000, jl_memo = None\<rparr>]\<rparr>)"
    by (simp add: demo_lines_def write_line_def demo_rows insert_line_def assms(2) tags_def)
  show ?thesis
    by (simp add: post_tx_def demo_entry_row insert_entry_def enf assms(1,3) lines w demo_sides write_account_def norm acc demo_deltas
        demo_money demo_dollars fits_money_def money_def je_check_balanced_def demo_env_id close_posting_entries demo_half)
qed

text \<open>One caller posts: the run reaches a ledger with one entry.\<close>

lemma demo_commits:
  assumes "lb_entries st = []" and "lb_lines st = []" and "lb_accounts st = lb_accounts demo_ledger"
    and "lb_periods st = lb_periods demo_ledger"
  shows "\<exists>res st'. post_commit (demo_env i) demo_prepared st = (Inr res, st') \<and> lb_entries st' = [demo_entry i]
    \<and> lb_sequence st' = lb_sequence st
    \<and> (\<exists>q. lb_periods st' = [q] \<and> fp_id q = js ''p'' \<and> fp_tenant q = js ''t'' \<and> fp_entity q = js ''e'' \<and> fp_status q = OPEN)"
proof -
  obtain st' where st': "post_tx (demo_env i) demo_prepared st = Inr st'" "lb_entries st' = [demo_entry i]"
    using demo_tx [OF assms] by blast
  have "with_serializable_retry (\<lambda>n. if px_conflict (demo_env i) n then Inl SerializationFailure else post_tx (demo_env i) demo_prepared st)
      = Inr st'"
    using st'(1) by (simp add: with_serializable_retry_def max_retries_def demo_env_def upt_rec)
  moreover have "lb_sequence st' = lb_sequence st"
    using post_tx_effect [OF st'(1)] demo_clean by (auto simp: posted_effect_def)
  moreover have "\<exists>q. lb_periods st' = [q] \<and> fp_id q = js ''p'' \<and> fp_tenant q = js ''t'' \<and> fp_entity q = js ''e'' \<and> fp_status q = OPEN"
  proof -
    let ?f = "\<lambda>r :: fiscal_period. r\<lparr>fp_has_postings := False\<rparr>"
    have same: "map ?f (lb_periods st') = map ?f (lb_periods demo_ledger)"
      using post_tx_effect [OF st'(1)] demo_clean assms(4) by (auto simp: posted_effect_def)
    have "length (lb_periods demo_ledger) = 1" by (simp add: demo_ledger_def)
    then obtain q where q: "lb_periods st' = [q]" using same by (cases "lb_periods st'") (auto dest: map_eq_imp_length_eq)
    obtain o1 where o: "lb_periods demo_ledger = [o1]" "fp_id o1 = js ''p''" "fp_tenant o1 = js ''t''" "fp_entity o1 = js ''e''" "fp_status o1 = OPEN"
      by (simp add: demo_ledger_def)
    have f: "?f q = ?f o1" using same by (simp add: q o(1))
    have "fp_id q = fp_id (?f q)" "fp_tenant q = fp_tenant (?f q)" "fp_entity q = fp_entity (?f q)" "fp_status q = fp_status (?f q)" by simp_all
    then show ?thesis using q o f by simp
  qed
  ultimately show ?thesis using st'(2) by (auto simp: post_commit_def publish_posting_def Let_def)
qed

lemma demo_run:
  "\<exists>r :: posting_run. run_step\<^sup>*\<^sup>* (start_run demo_ledger) r \<and> lb_entries (ru_ledger r) = [demo_entry ''x''] \<and> ru_answers r \<noteq> []"
proof -
  let ?l = "demo_ledger\<lparr>lb_sequence := demo_sequence\<rparr>"
  let ?r1 = "(start_run demo_ledger)\<lparr>ru_ledger := ?l, ru_pending := demo_prepared # ru_pending (start_run demo_ledger)\<rparr>"
  have s1: "run_step (start_run demo_ledger) ?r1" by (rule run_prepare [of demo_post]) (simp add: start_run_def demo_prepares)
  have e: "lb_entries ?l = []" "lb_lines ?l = []" "lb_accounts ?l = lb_accounts demo_ledger" "lb_periods ?l = lb_periods demo_ledger"
    by (simp_all add: demo_ledger_def)
  obtain res st' where c: "post_commit (demo_env ''x'') demo_prepared ?l = (Inr res, st')" "lb_entries st' = [demo_entry ''x'']"
    using demo_commits [OF e] by blast
  let ?r2 = "?r1\<lparr>ru_ledger := st', ru_pending := remove1 demo_prepared (ru_pending ?r1),
      ru_answers := answer (pr_dto demo_prepared) res # ru_answers ?r1\<rparr>"
  have "run_step ?r1 ?r2"
    by (rule run_commit [of demo_prepared _ "demo_env ''x''"]) (simp_all add: c demo_env_id e)
  then have "run_step\<^sup>*\<^sup>* (start_run demo_ledger) ?r2" using s1 by (meson converse_rtranclp_into_rtranclp r_into_rtranclp)
  then show ?thesis using c(2) by (intro exI [of _ ?r2]) simp
qed

lemma demo_fresh: "fresh_ledger demo_ledger"
  by (simp add: fresh_ledger_def demo_ledger_def demo_gl_account_def)

theorem trial_balance_preserved_witness:
  "\<exists>r :: posting_run. lb_entries (ru_ledger r) = [demo_entry ''x''] \<and> trial_balance (ru_ledger r) = 0
     \<and> list_all (entry_ok (lb_lines (ru_ledger r))) (lb_entries (ru_ledger r))"
proof -
  obtain r where r: "run_step\<^sup>*\<^sup>* (start_run demo_ledger) r" "lb_entries (ru_ledger r) = [demo_entry ''x'']" using demo_run by blast
  have "trial_balance demo_ledger = 0" by (simp add: trial_balance_def debit_balance_def demo_ledger_def demo_gl_account_def)
  then show ?thesis using trial_balance_preserved [OF demo_fresh r(1)] r(2) by (intro exI [of _ r]) simp
qed

theorem balance_is_sum_of_lines_witness:
  "\<exists>r :: posting_run. lb_entries (ru_ledger r) = [demo_entry ''x''] \<and> balance_of (ru_ledger r) (js ''loan'') =
     acct_sum jl_cr (js ''loan'') (lb_lines (ru_ledger r)) - acct_sum jl_dr (js ''loan'') (lb_lines (ru_ledger r))"
proof -
  obtain r where r: "run_step\<^sup>*\<^sup>* (start_run demo_ledger) r" "lb_entries (ru_ledger r) = [demo_entry ''x'']" using demo_run by blast
  have "balance_of demo_ledger (js ''loan'') = 0" "normal_at demo_ledger (js ''loan'') = js ''CR''"
    by (simp_all add: balance_of_def normal_at_def account_at_def demo_ledger_def demo_gl_account_def)
  then show ?thesis using balance_is_sum_of_lines [OF demo_fresh r(1), of "js ''loan''"] r(2)
    by (intro exI [of _ r]) (simp add: signed_cents_def)
qed

theorem answers_idempotent_witness:
  "\<exists>(r :: posting_run) a. a \<in> set (ru_answers r) \<and> snd (snd a) \<in> je_id ` set (lb_entries (ru_ledger r))"
proof -
  obtain r where r: "run_step\<^sup>*\<^sup>* (start_run demo_ledger) r" "ru_answers r \<noteq> []" using demo_run by blast
  obtain t k x where a: "(t, k, x) \<in> set (ru_answers r)" using r(2) by (cases "ru_answers r") auto
  show ?thesis using answers_idempotent [OF demo_fresh r(1) a a] a by (intro exI [of _ r] exI [of _ "(t, k, x)"]) simp
qed

section \<open>A lost race\<close>

definition demo_alloc2 :: allocation_result where
  "demo_alloc2 = demo_alloc\<lparr>ar_number := js ''GJ-1970-01-000002'', ar_seq := 2\<rparr>"

definition demo_sequence2 :: sequence_state where
  "demo_sequence2 = snd (allocate \<lparr>al_tenant = js ''t'', al_source = js ''GJ'', al_entity = js ''e'', al_period = js ''1970-01'',
     al_actor = Some (js ''system'')\<rparr> demo_sequence)"

lemma demo_allocates2:
  "fst (allocate \<lparr>al_tenant = js ''t'', al_source = js ''GJ'', al_entity = js ''e'', al_period = js ''1970-01'',
     al_actor = Some (js ''system'')\<rparr> demo_sequence) = Inr demo_alloc2"
  by code_simp

lemma demo_counter2: "map jc_next (sq_counters demo_sequence2) = [3]" "sq_gaps demo_sequence2 = []"
  by code_simp+

lemma resolve_context_sequence: "resolve_context dto c (st\<lparr>lb_sequence := x\<rparr>) = resolve_context dto c st"
  by (simp add: resolve_context_def cong: if_cong)

lemma tag_violations_sequence: "tag_violations dto (st\<lparr>lb_sequence := x\<rparr>) = tag_violations dto st"
  by (simp add: tag_violations_def cong: if_cong)

lemma demo_prepares_again:
  "post_prepare demo_post (demo_ledger\<lparr>lb_sequence := demo_sequence\<rparr>) =
     (Inr (ReadyToCommit (demo_prepared\<lparr>pr_alloc := demo_alloc2\<rparr>)), demo_ledger\<lparr>lb_sequence := demo_sequence2\<rparr>)"
proof -
  let ?l = "demo_ledger\<lparr>lb_sequence := demo_sequence\<rparr>"
  have "pj_lines demo_post = demo_lines" "pj_tenant demo_post = js ''t''" "pj_source demo_post = js ''GJ''" "pj_entity demo_post = js ''e''"
    "pj_posted_by demo_post = None" by (simp_all add: demo_post_def)
  moreover have "rp_code (the (pc_period demo_ctx)) = js ''1970-01''" "the (pc_period demo_ctx) = demo_period_row"
    by (simp_all add: demo_ctx_simps demo_period_row_def)
  moreover have "allocate \<lparr>al_tenant = js ''t'', al_source = js ''GJ'', al_entity = js ''e'', al_period = js ''1970-01'',
     al_actor = Some (js ''system'')\<rparr> demo_sequence = (Inr demo_alloc2, demo_sequence2)"
    using demo_allocates2 unfolding demo_sequence2_def by (simp add: prod_eq_iff)
  moreover have "resolve_context demo_post (js ''MANUAL'') ?l = demo_ctx" by (simp add: demo_ctx_def resolve_context_sequence)
  moreover have "tag_violations demo_post ?l = []" using demo_lookup(3) by (simp add: tag_violations_sequence)
  moreover have "find_entry (js ''t'') (pj_key demo_post) ?l = None" by (simp add: find_entry_def demo_ledger_def)
  ultimately show ?thesis
    using demo_evaluates demo_lookup(1,4) demo_totals
    by (simp add: post_prepare_def Let_def evaluate_totals actor_or_system_def demo_prepared_def)
qed

lemma demo_entry_row2:
  "\<exists>e. entry_row (demo_env i) (demo_prepared\<lparr>pr_alloc := demo_alloc2\<rparr>) = Inr e \<and> je_tenant e = js ''t'' \<and> je_entity e = js ''e''
     \<and> je_key e = js ''k'' \<and> je_number e = js ''GJ-1970-01-000002'' \<and> je_period e = js ''p''"
  by (simp add: entry_row_def demo_prepared_def demo_post_def demo_env_def entry_instant_def short_text_def demo_dollars demo_money
      demo_alloc_def demo_alloc2_def demo_period_row_def actor_or_system_def)

lemma demo_loses:
  assumes "lb_entries st = [demo_entry i]" and "lb_periods st = [q]" and "fp_id q = js ''p''" "fp_tenant q = js ''t''"
    "fp_entity q = js ''e''" "fp_status q = OPEN"
  shows "post_commit (demo_env j) (demo_prepared\<lparr>pr_alloc := demo_alloc2\<rparr>) st = (Inr (earlier_result (demo_entry i)), st)"
proof -
  let ?p = "demo_prepared\<lparr>pr_alloc := demo_alloc2\<rparr>"
  obtain e where e: "entry_row (demo_env j) ?p = Inr e" "je_tenant e = js ''t''" "je_entity e = js ''e''" "je_key e = js ''k''"
    "je_number e = js ''GJ-1970-01-000002''" "je_period e = js ''p''" using demo_entry_row2 by blast
  have "insert_entry e st = Inl DuplicateKey"
    by (simp add: insert_entry_def enforce_period_postable_def assms e demo_entry_def)
  then have "post_tx (demo_env j) ?p st = Inl DuplicateKey" using e(1) by (simp add: post_tx_def)
  moreover have "find_entry (pj_tenant (pr_dto ?p)) (pj_key (pr_dto ?p)) st = Some (demo_entry i)"
    by (simp add: find_entry_def assms(1) demo_entry_def demo_prepared_def demo_post_def)
  ultimately show ?thesis
    by (simp add: post_commit_def with_serializable_retry_def max_retries_def demo_env_def upt_rec)
qed

text \<open>
  A lost race loses a number. Two callers with the same key can both allocate; the one that commits second
  is answered with the first one's entry, and its own number is neither used nor logged as a gap, although the
  service means to log every number that is minted and not used.
\<close>

theorem lost_race_loses_number:
  "\<exists>r :: posting_run. run_step\<^sup>*\<^sup>* (start_run demo_ledger) r \<and> ru_pending r = []
     \<and> map je_number (lb_entries (ru_ledger r)) = [js ''GJ-1970-01-000001'']
     \<and> map jc_next (sq_counters (lb_sequence (ru_ledger r))) = [3] \<and> sq_gaps (lb_sequence (ru_ledger r)) = []"
proof -
  let ?p2 = "demo_prepared\<lparr>pr_alloc := demo_alloc2\<rparr>"
  let ?l1 = "demo_ledger\<lparr>lb_sequence := demo_sequence\<rparr>" and ?l2 = "demo_ledger\<lparr>lb_sequence := demo_sequence2\<rparr>"
  let ?r1 = "\<lparr>ru_ledger = ?l1, ru_pending = [demo_prepared], ru_answers = []\<rparr> :: posting_run"
  let ?r2 = "\<lparr>ru_ledger = ?l2, ru_pending = [?p2, demo_prepared], ru_answers = []\<rparr> :: posting_run"
  have s1: "run_step (start_run demo_ledger) ?r1"
    using run_prepare [of demo_post "start_run demo_ledger", unfolded start_run_def] demo_prepares by (simp add: start_run_def)
  have s2: "run_step ?r1 ?r2" using run_prepare [of demo_post ?r1] demo_prepares_again by simp
  have e: "lb_entries ?l2 = []" "lb_lines ?l2 = []" "lb_accounts ?l2 = lb_accounts demo_ledger" "lb_periods ?l2 = lb_periods demo_ledger"
    by (simp_all add: demo_ledger_def)
  have seq: "lb_sequence ?l2 = demo_sequence2" by simp
  obtain res st where c: "post_commit (demo_env ''x'') demo_prepared ?l2 = (Inr res, st)" "lb_entries st = [demo_entry ''x'']"
    "lb_sequence st = demo_sequence2" "\<exists>q. lb_periods st = [q] \<and> fp_id q = js ''p'' \<and> fp_tenant q = js ''t'' \<and> fp_entity q = js ''e'' \<and> fp_status q = OPEN"
    using demo_commits [OF e, of "''x''"] seq by metis
  have ne: "demo_alloc2 \<noteq> demo_alloc" by (simp add: demo_alloc2_def demo_alloc_def)
  let ?a = "answer (pr_dto demo_prepared) res"
  let ?r3 = "\<lparr>ru_ledger = st, ru_pending = [?p2], ru_answers = [?a]\<rparr> :: posting_run"
  have "?p2 \<noteq> demo_prepared" using ne by (simp add: demo_prepared_def)
  then have s3: "run_step ?r2 ?r3" using run_commit [of demo_prepared ?r2 "demo_env ''x''" res st] c(1) e(1) by simp
  obtain q where q: "lb_periods st = [q]" "fp_id q = js ''p''" "fp_tenant q = js ''t''" "fp_entity q = js ''e''" "fp_status q = OPEN"
    using c(4) by blast
  have l: "post_commit (demo_env ''y'') ?p2 st = (Inr (earlier_result (demo_entry ''x'')), st)" by (rule demo_loses) (fact c(2) q)+
  let ?r4 = "\<lparr>ru_ledger = st, ru_pending = [], ru_answers = [answer (pr_dto ?p2) (earlier_result (demo_entry ''x'')), ?a]\<rparr> :: posting_run"
  have "px_entry_id (demo_env ''y'') \<notin> je_id ` set (lb_entries st)" by (simp add: c(2) demo_env_id demo_entry_def)
  then have s4: "run_step ?r3 ?r4" using run_commit [of ?p2 ?r3 "demo_env ''y''"] l by simp
  have "run_step\<^sup>*\<^sup>* (start_run demo_ledger) ?r4" using s1 s2 s3 s4 by (meson rtranclp.rtrancl_into_rtrancl rtranclp.rtrancl_refl)
  then show ?thesis using c(2,3) demo_counter2 by (intro exI [of _ ?r4]) (simp add: demo_entry_def)
qed

end
