(* ===== verification/PostingFailure.thy ===== *)
theory PostingFailure
  imports PostingLedger
begin

text \<open>
  What a failing posting leaves behind, and what the period trigger guarantees of a committing one.
\<close>

section \<open>Failure\<close>

lemma trim_nonblank: "is_blank s \<longleftrightarrow> js_trim s = []"
  by (simp add: is_blank_def)

lemma failure_reason: "\<not> is_blank (js ''posting failed after allocation: '' @ m)"
  by (simp add: js_def is_blank_def js_trim_def is_ws_def)

lemma allocate_valid:
  assumes "allocate dto s = (Inr a, s')"
  shows "sequence_validate (to_upper (js_trim (al_source dto))) (al_period dto) = None"
    "ar_number a = format_journal_number (to_upper (js_trim (al_source dto))) (al_period dto) (ar_seq a)"
    "sq_gaps s' = sq_gaps s"
  using assms by (auto simp: allocate_def Let_def split: option.splits prod.splits)

lemma allocate_Inl: "allocate dto s = (Inl e, s') \<Longrightarrow> s' = s"
  by (auto simp: allocate_def Let_def split: option.splits prod.splits)


definition demo_conflicted :: posting_env where
  "demo_conflicted = (demo_env ''x'')\<lparr>px_conflict := \<lambda>_. True\<rparr>"


text \<open>
  C13: a period that closes between the preparation and the commit stops the posting: whatever was resolved
  when the number was minted, a new entry is committed only if the period it names belongs to its tenant and
  entity and is, at the commit, open, or soft-closed with an adjusting entry whose draft has a valid attestation.
\<close>

theorem commit_needs_postable_period:
  assumes "post_commit px p st = (Inr res, st')" and "\<not> po_idempotent res"
  shows "\<exists>q \<in> set (lb_periods st). fp_id q = rp_id (pr_period p) \<and> fp_tenant q = pj_tenant (pr_dto p)
    \<and> fp_entity q = pj_entity (pr_dto p)
    \<and> (fp_status q = OPEN \<or> fp_status q = SOFT_CLOSED \<and> pj_adjusting (pr_dto p)
         \<and> (\<exists>d. pj_draft (pr_dto p) = Some d \<and> (d, pj_tenant (pr_dto p)) \<in> set (lb_attestations st)))"
  using assms(1)
proof (cases rule: post_commit_cases)
  case (posted st1)
  then obtain e st2 where e: "entry_row px p = Inr e" "insert_entry e st = Inr st2" by (auto simp: post_tx_def bind_res_Inr)
  have f: "je_period e = rp_id (pr_period p)" "je_tenant e = pj_tenant (pr_dto p)" "je_entity e = pj_entity (pr_dto p)"
    "je_adjusting e = pj_adjusting (pr_dto p)" "je_draft e = pj_draft (pr_dto p)"
    using e(1) by (auto simp: entry_row_def Let_def bind_res_Inr)
  have "enforce_period_postable st e = Inr ()" using e(2) by (auto simp: insert_entry_def bind_res_Inr)
  then show ?thesis using f
    by (force simp: enforce_period_postable_def split: option.splits if_splits dest!: find_row_Some)
next
  case (lost w)
  then show ?thesis using assms(2) by (simp add: earlier_result_def)
qed auto

theorem commit_needs_postable_period_witness:
  "\<exists>res st'. post_commit (demo_env ''x'') demo_prepared demo_ledger = (Inr res, st') \<and> \<not> po_idempotent res
     \<and> js ''p'' \<in> fp_id ` set (lb_periods demo_ledger)"
proof -
  have e: "lb_entries demo_ledger = []" "lb_lines demo_ledger = []" by (simp_all add: demo_ledger_def)
  obtain res st' where c: "post_commit (demo_env ''x'') demo_prepared demo_ledger = (Inr res, st')"
    using demo_commits [OF e refl refl, of "''x''"] by blast
  have i: "\<not> po_idempotent res"
    using c
  proof (cases rule: post_commit_cases)
    case (posted st1)
    then show ?thesis using c demo_tx [OF e refl refl, of "''x''"]
      by (auto simp: post_commit_def with_serializable_retry_def max_retries_def demo_env_def upt_rec)
  qed (simp_all add: find_entry_def e)
  have "rp_id (pr_period demo_prepared) = js ''p''" by (simp add: demo_prepared_def demo_period_row_def)
  then show ?thesis using commit_needs_postable_period [OF c i] c i by force
qed

end
