(* ===== verification/ReversalService.thy ===== *)
theory ReversalService
  imports PostingFailure
begin

text \<open>
  \<open>application/reversal-service.ts\<close>: reversing a posted journal by posting its mirror image through
  \<open>PostingService\<close> and linking the two entries.
\<close>

section \<open>Requests and errors\<close>

datatype reversal_error =
    ReversalReasonRequired
  | ReversalTargetNotFound jstr
  | AlreadyReversed jstr "jstr option"
  | ClosedTargetPeriod jstr "jstr list"
  | ReversalPosting post_error
  | ReversalLink tx_error

record reverse_dto =
  rv_target :: "jstr option"
  rv_reason :: jstr

record reverse_result =
  rr_id :: jstr
  rr_number :: jstr
  rr_period :: jstr
  rr_original :: jstr
  rr_original_number :: jstr
  rr_reason :: jstr
  rr_reinstatement :: bool
  rr_idempotent :: bool

section \<open>The mirror image\<close>

text \<open>\<open>gte\<close> on period codes compares strings; the eligible periods come back in code order.\<close>

definition eligible_periods :: "jstr \<Rightarrow> journal_entry \<Rightarrow> ledger \<Rightarrow> fiscal_period list" where
  "eligible_periods tenant original st =
     sort_key fp_code (filter (\<lambda>p. fp_tenant p = tenant \<and> fp_entity p = je_entity original \<and> fp_status p = OPEN
       \<and> je_period_code original \<le> fp_code p) (lb_periods st))"

definition entry_lines :: "jstr \<Rightarrow> jstr \<Rightarrow> ledger \<Rightarrow> journal_line list" where
  "entry_lines tenant i st = sort_key jl_index (filter (\<lambda>l. jl_entry l = i \<and> jl_tenant l = tenant) (lb_lines st))"

text \<open>The mirrored line: sides swapped, and no analysis tags.\<close>

definition mirrored :: "journal_line \<Rightarrow> posting_line" where
  "mirrored l = \<lparr>pl_account_id = jl_account l, pl_store_id = jl_store l, pl_dept_code = jl_dept l,
     pl_control_number = jl_control l, pl_apply_number = jl_apply l,
     pl_dr = Some (JNum (cents_to_dollars (num_of_int (jl_cr l)))), pl_cr = Some (JNum (cents_to_dollars (num_of_int (jl_dr l)))),
     pl_memo = jl_memo l, pl_tags = []\<rparr>"

definition reversal_caller :: "jstr \<Rightarrow> journal_entry \<Rightarrow> ledger \<Rightarrow> jstr" where
  "reversal_caller tenant original st =
     (case find_row (\<lambda>r. js_tenant r = tenant \<and> js_code r = je_source original) (lb_sources st) of
        Some r \<Rightarrow> js_class r | None \<Rightarrow> js ''MANUAL'')"

definition reversal_memo :: "journal_entry \<Rightarrow> jstr \<Rightarrow> jstr" where
  "reversal_memo original reason = js ''Reversal of '' @ je_number original @ js '': '' @ reason"

definition reversal_request :: "jstr \<Rightarrow> journal_entry \<Rightarrow> jstr \<Rightarrow> jstr \<Rightarrow> fiscal_period \<Rightarrow> ledger \<Rightarrow> post_journal_dto" where
  "reversal_request tenant original reason actor target st =
     \<lparr>pj_tenant = tenant, pj_entity = je_entity original, pj_date = iso_day (fp_start target), pj_source = je_source original,
      pj_memo = Some (reversal_memo original reason), pj_key = js ''reverse:'' @ je_id original,
      pj_caller_class = Some (reversal_caller tenant original st), pj_posted_by = Some actor, pj_draft = None,
      pj_adjusting = False, pj_adjusting_reason = None, pj_correction_ref = None, pj_reversal_of = Some (je_id original),
      pj_reversal_reason = Some reason, pj_lines = map mirrored (entry_lines tenant (je_id original) st)\<rparr>"

section \<open>Reversing\<close>

definition check_reversal :: "jstr \<Rightarrow> jstr \<Rightarrow> reverse_dto \<Rightarrow> ledger \<Rightarrow> reversal_error + journal_entry \<times> fiscal_period" where
  "check_reversal tenant i dto st =
     (let reason = js_trim (rv_reason dto) in
      if length reason < 1 \<or> 500 < length reason then Inl ReversalReasonRequired
      else case find_row (\<lambda>e. je_id e = i \<and> je_tenant e = tenant) (lb_entries st) of
        None \<Rightarrow> Inl (ReversalTargetNotFound i)
      | Some original \<Rightarrow>
        if given (je_reversed_by original)
        then Inl (AlreadyReversed (opt_str (je_reversed_by original))
          (map_option je_number (find_row (\<lambda>e. je_id e = opt_str (je_reversed_by original) \<and> je_tenant e = tenant) (lb_entries st))))
        else
          let wanted = js_trim (opt_str (rv_target dto));
              code = (if wanted = [] then je_period_code original else wanted);
              eligible = eligible_periods tenant original st
          in case find_row (\<lambda>p. fp_code p = code) eligible of
               None \<Rightarrow> Inl (ClosedTargetPeriod code (map fp_code eligible))
             | Some target \<Rightarrow> Inr (original, target))"

text \<open>
  The link is a transaction of its own; updating an entry fires the balance trigger again, at its end.
\<close>

definition link_reversal :: "jstr \<Rightarrow> journal_entry \<Rightarrow> post_result \<Rightarrow> jstr \<Rightarrow> jstr \<Rightarrow> ledger \<Rightarrow> tx_error + ledger" where
  "link_reversal tenant original reversal reason actor st =
     bind_res (je_check_balanced (je_id original) st) (\<lambda>_.
       Inr (st\<lparr>lb_entries := update_rows (\<lambda>e. je_id e = je_id original)
                 (\<lambda>e. e\<lparr>je_status := js ''REVERSED'', je_reversed_by := Some (po_id reversal)\<rparr>) (lb_entries st),
               lb_audit := lb_audit st @ [\<lparr>ae_tenant = tenant, ae_doc_type = js ''JOURNAL_ENTRY'', ae_doc_id = je_id original,
                 ae_action = js ''REVERSED'',
                 ae_before = Some (JObj [(js ''status'', JStr (je_status original)), (js ''reversedBy'', JNull)]),
                 ae_after = Some (JObj [(js ''status'', JStr (js ''REVERSED'')), (js ''reversedBy'', JStr (po_id reversal)),
                   (js ''reversalNumber'', JStr (po_number reversal)), (js ''reason'', JStr reason)]),
                 ae_actor = actor\<rparr>]\<rparr>))"

definition reverse_journal :: "posting_env \<Rightarrow> jstr \<Rightarrow> jstr \<Rightarrow> reverse_dto \<Rightarrow> jstr \<Rightarrow> ledger
    \<Rightarrow> (reversal_error + reverse_result) \<times> ledger" where
  "reverse_journal px tenant i dto actor st =
     (let reason = js_trim (rv_reason dto) in
      case check_reversal tenant i dto st of
        Inl e \<Rightarrow> (Inl e, st)
      | Inr (original, target) \<Rightarrow>
        (case post px (reversal_request tenant original reason actor target st) st of
           (Inl e, st1) \<Rightarrow> (Inl (ReversalPosting e), st1)
         | (Inr reversal, st1) \<Rightarrow>
           (case link_reversal tenant original reversal reason actor st1 of
              Inl e \<Rightarrow> (Inl (ReversalLink e), st1)
            | Inr st2 \<Rightarrow>
              (Inr \<lparr>rr_id = po_id reversal, rr_number = po_number reversal, rr_period = po_period reversal,
                    rr_original = je_id original, rr_original_number = je_number original, rr_reason = reason,
                    rr_reinstatement = (je_reversal_of original \<noteq> None), rr_idempotent = po_idempotent reversal\<rparr>, st2))))"


section \<open>What a successful reversal does\<close>

lemma prepared_clean: "post_prepare dto st = (Inr (ReadyToCommit p), st1) \<Longrightarrow> clean p"
  using post_prepare_ready [of dto st p st1] by (auto simp: clean_def evaluate_pass list_all_iff line_ok_def one_sided_line_def)

lemma post_new:
  assumes "post px dto st = (Inr res, st')" and "\<not> po_idempotent res"
  shows "\<exists>p st1 st2 e rows. post_prepare dto st = (Inr (ReadyToCommit p), st1) \<and> posted_effect px p st1 st2 e rows
    \<and> st' = publish_posting px p st2 \<and> po_id res = px_entry_id px"
proof -
  obtain p st1 where p: "post_prepare dto st = (Inr (ReadyToCommit p), st1)" and c: "post_commit px p st1 = (Inr res, st')"
    using assms by (auto simp: post_def earlier_result_def post_prepare_def Let_def split: prod.splits sum.splits prepare_outcome.splits option.splits if_splits)
  have "clean p" using p by (rule prepared_clean)
  from c show ?thesis
  proof (cases rule: post_commit_cases)
    case (posted st2)
    then show ?thesis using p post_tx_effect [OF posted(1) \<open>clean p\<close>] by auto
  next
    case (lost w)
    then show ?thesis using assms(2) by (simp add: earlier_result_def)
  qed auto
qed

lemma check_reversal_Inr:
  assumes "check_reversal tenant i dto st = Inr (o1, q)"
  shows "o1 \<in> set (lb_entries st)" "je_id o1 = i" "je_tenant o1 = tenant" "\<not> given (je_reversed_by o1)"
    "q \<in> set (lb_periods st)" "fp_status q = OPEN" "je_period_code o1 \<le> fp_code q" "fp_entity q = je_entity o1"
    "1 \<le> length (js_trim (rv_reason dto))" "length (js_trim (rv_reason dto)) \<le> 500"
  using assms by (auto simp: check_reversal_def eligible_periods_def Let_def Suc_le_eq split: if_splits option.splits dest!: find_row_Some)

lemma reverse_journal_Inr:
  assumes "reverse_journal px tenant i dto actor st = (Inr r, st')"
  obtains o1 q res st1 where "check_reversal tenant i dto st = Inr (o1, q)"
    "post px (reversal_request tenant o1 (js_trim (rv_reason dto)) actor q st) st = (Inr res, st1)"
    "link_reversal tenant o1 res (js_trim (rv_reason dto)) actor st1 = Inr st'"
    "rr_id r = po_id res" "rr_period r = po_period res" "rr_number r = po_number res"
    "rr_idempotent r = po_idempotent res" "rr_original r = je_id o1"
  using assms by (auto simp: reverse_journal_def Let_def split: sum.splits prod.splits)

lemma link_reversal_Inr:
  assumes "link_reversal tenant o1 res reason actor st = Inr st'"
  shows "lb_accounts st' = lb_accounts st" "lb_lines st' = lb_lines st"
    "lb_entries st' = update_rows (\<lambda>e. je_id e = je_id o1)
       (\<lambda>e. e\<lparr>je_status := js ''REVERSED'', je_reversed_by := Some (po_id res)\<rparr>) (lb_entries st)"
  using assms by (auto simp: link_reversal_def bind_res_Inr)

text \<open>What the columns of a line hold.\<close>

definition columns_ok :: "ledger \<Rightarrow> bool" where
  "columns_ok st = list_all (\<lambda>l. 0 \<le> jl_dr l \<and> 0 \<le> jl_cr l \<and> fits_money (jl_dr l) \<and> fits_money (jl_cr l)) (lb_lines st)"

lemma fits_cents: "fits_money c \<Longrightarrow> cents_of (cents_to_dollars (num_of_int c)) = num_of_int c"
  by (rule cents_of_dollars) (simp add: fits_money_def)

lemma mirrored_sums:
  assumes "list_all2 (line_matches e) (map mirrored ls) rows"
    and "\<forall>l \<in> set ls. fits_money (jl_dr l) \<and> fits_money (jl_cr l)"
  shows "acct_sum jl_dr a rows = acct_sum jl_cr a ls \<and> acct_sum jl_cr a rows = acct_sum jl_dr a ls"
  using assms
proof (induction ls arbitrary: rows)
  case (Cons l ls)
  then obtain r rs where r: "rows = r # rs" "line_matches e (mirrored l) r" "list_all2 (line_matches e) (map mirrored ls) rs"
    by (auto simp: list_all2_Cons1)
  have "jl_dr r = jl_cr l" "jl_cr r = jl_dr l" "jl_account r = jl_account l"
    using r(2) Cons.prems(2) by (auto simp: line_matches_def mirrored_def fits_cents)
  then show ?case using Cons.IH [OF r(3)] Cons.prems(2) by (simp add: r(1))
qed simp

lemma acct_sum_sorted: "acct_sum f a (sort_key k ls) = acct_sum f a ls"
proof -
  have "mset (map f (filter (\<lambda>r. jl_account r = a) (sort_key k ls))) = mset (map f (filter (\<lambda>r. jl_account r = a) ls))" by simp
  then show ?thesis unfolding acct_sum_def by (metis sum_mset_sum_list)
qed

lemma reverse_journal_effect:
  assumes "reverse_journal px tenant i dto actor st = (Inr r, st')" and "\<not> rr_idempotent r"
  obtains p st1 st2 e rows o1 q where "check_reversal tenant i dto st = Inr (o1, q)"
    "post_prepare (reversal_request tenant o1 (js_trim (rv_reason dto)) actor q st) st = (Inr (ReadyToCommit p), st1)"
    "posted_effect px p st1 st2 e rows" "lb_accounts st' = lb_accounts st2" "lb_lines st' = lb_lines st2"
    "lb_entries st' = update_rows (\<lambda>e. je_id e = i)
       (\<lambda>e. e\<lparr>je_status := js ''REVERSED'', je_reversed_by := Some (px_entry_id px)\<rparr>) (lb_entries st @ [e])"
    "rr_id r = px_entry_id px" "rr_original r = i"
proof -
  from assms(1) obtain o1 q res sp where a: "check_reversal tenant i dto st = Inr (o1, q)"
    "post px (reversal_request tenant o1 (js_trim (rv_reason dto)) actor q st) st = (Inr res, sp)"
    "link_reversal tenant o1 res (js_trim (rv_reason dto)) actor sp = Inr st'"
    "rr_id r = po_id res" "rr_idempotent r = po_idempotent res" "rr_original r = je_id o1"
    by (rule reverse_journal_Inr)
  obtain p st1 st2 e rows where p: "post_prepare (reversal_request tenant o1 (js_trim (rv_reason dto)) actor q st) st = (Inr (ReadyToCommit p), st1)"
    "posted_effect px p st1 st2 e rows" "sp = publish_posting px p st2" "po_id res = px_entry_id px"
    using post_new [OF a(2)] assms(2) a(5) by auto
  have core: "core_tables sp = core_tables st2" "core_tables st1 = core_tables st" using post_prepare_core [OF p(1)] by (simp_all add: p(3))
  have "lb_entries st2 = lb_entries st1 @ [e]" using p(2) by (simp add: posted_effect_def)
  then have "lb_entries st' = update_rows (\<lambda>e. je_id e = i)
       (\<lambda>e. e\<lparr>je_status := js ''REVERSED'', je_reversed_by := Some (px_entry_id px)\<rparr>) (lb_entries st @ [e])"
    using link_reversal_Inr [OF a(3)] core p(4) check_reversal_Inr(2) [OF a(1)] by (simp add: core_tables_def)
  then show ?thesis
    using a p link_reversal_Inr [OF a(3)] core check_reversal_Inr(2) [OF a(1)] by (intro that [of o1 q p st1 st2 e rows]) (auto simp: core_tables_def)
qed

text \<open>
  C19: a reversal that posts undoes the original: every account's balance moves by exactly the opposite of what
  the original's lines say, taken on the account's current normal side; and the reversal is linked both ways.
\<close>

theorem reversal_undoes_original:
  assumes "reverse_journal px tenant i dto actor st = (Inr r, st')" and "\<not> rr_idempotent r"
    and "columns_ok st" and "distinct (map ga_id (lb_accounts st))"
  shows "balance_of st' a = balance_of st a - signed_cents (normal_at st a)
      (acct_sum jl_dr a (entry_lines tenant i st)) (acct_sum jl_cr a (entry_lines tenant i st))"
proof -
  from assms(1,2) obtain p st1 st2 e rows o1 q where c: "check_reversal tenant i dto st = Inr (o1, q)"
    and p: "post_prepare (reversal_request tenant o1 (js_trim (rv_reason dto)) actor q st) st = (Inr (ReadyToCommit p), st1)"
    and E: "posted_effect px p st1 st2 e rows" and acc: "lb_accounts st' = lb_accounts st2" by (rule reverse_journal_effect)
  let ?L = "entry_lines tenant i st"
  have dto: "pj_lines (pr_dto p) = map mirrored ?L"
    using post_prepare_ready(1) [OF p] check_reversal_Inr(2) [OF c] by (simp add: reversal_request_def)
  have fits: "\<forall>l \<in> set ?L. fits_money (jl_dr l) \<and> fits_money (jl_cr l)"
    using assms(3) by (auto simp: columns_ok_def list_all_iff entry_lines_def)
  have rows: "list_all2 (line_matches (px_entry_id px)) (map mirrored ?L) rows" using E dto by (simp add: posted_effect_def)
  note sums = mirrored_sums [OF rows fits, of a]
  have core: "core_tables st1 = core_tables st" by (rule post_prepare_core) (rule p)
  have bal: "balance_of st' a = balance_of st a + signed_cents (normal_of p a) (acct_sum jl_dr a rows) (acct_sum jl_cr a rows)"
  proof -
    have "balance_of st' a = balance_of st2 a" "balance_of st1 a = balance_of st a"
      using acc core by (simp_all add: balance_of_def account_at_def core_tables_def)
    then show ?thesis using E by (simp add: posted_effect_def)
  qed
  show ?thesis
  proof (cases "a \<in> pl_account_id ` set (pj_lines (pr_dto p))")
    case True
    then have "normal_of p a = normal_at st a" using post_prepare_ok [OF p assms(4)] by (auto simp: prepared_ok_def)
    then show ?thesis using bal sums by (simp add: signed_cents_def)
  next
    case False
    then have "\<forall>l \<in> set ?L. jl_account l \<noteq> a" by (auto simp: dto mirrored_def image_image)
    then have "acct_sum jl_dr a ?L = 0" "acct_sum jl_cr a ?L = 0" by (simp_all add: acct_sum_none)
    then show ?thesis using bal sums by (simp add: signed_cents_def)
  qed
qed

lemma post_entries_grow:
  assumes "post px dto st = (Inr res, st')"
  shows "set (lb_entries st) \<subseteq> set (lb_entries st')"
proof (cases "post_prepare dto st")
  case (Pair x st1)
  then have core: "core_tables st1 = core_tables st" by (rule post_prepare_core)
  show ?thesis
  proof (cases "\<exists>p. x = Inr (ReadyToCommit p)")
    case True
    then obtain p where p: "x = Inr (ReadyToCommit p)" by blast
    then have "clean p" using Pair prepared_clean by blast
    from p have "post_commit px p st1 = (Inr res, st')" using assms Pair by (simp add: post_def)
    then show ?thesis
    proof (cases rule: post_commit_cases)
      case (posted st2)
      then show ?thesis using post_tx_effect [OF posted(1) \<open>clean p\<close>] core
        by (auto simp: posted_effect_def core_tables_def publish_posting_def Let_def)
    qed (use core in \<open>auto simp: core_tables_def\<close>)
  next
    case False
    then have "st' = st1" using assms Pair by (auto simp: post_def split: sum.splits prepare_outcome.splits)
    then show ?thesis using core by (simp add: core_tables_def)
  qed
qed

text \<open>
  An entry is reversed at most once: after a successful reversal, replays of the same request included, the
  original names its reversal, and every later attempt to reverse it is refused without a write.
\<close>

theorem reversed_once:
  assumes "reverse_journal px tenant i dto actor st = (Inr r, st')" and "rr_id r \<noteq> []"
  shows "\<exists>x. reverse_journal px' tenant i dto' actor' st' = (Inl x, st')
    \<and> (x = ReversalReasonRequired \<or> (\<exists>n. x = AlreadyReversed (rr_id r) n))"
proof -
  from assms(1) obtain o1 q res sp where a: "check_reversal tenant i dto st = Inr (o1, q)"
    "post px (reversal_request tenant o1 (js_trim (rv_reason dto)) actor q st) st = (Inr res, sp)"
    "link_reversal tenant o1 res (js_trim (rv_reason dto)) actor sp = Inr st'" "rr_id r = po_id res"
    by (rule reverse_journal_Inr)
  let ?f = "\<lambda>e :: journal_entry. e\<lparr>je_status := js ''REVERSED'', je_reversed_by := Some (rr_id r)\<rparr>"
  have entries: "lb_entries st' = update_rows (\<lambda>e. je_id e = i) ?f (lb_entries sp)"
    using link_reversal_Inr(3) [OF a(3)] check_reversal_Inr(2) [OF a(1)] a(4) by simp
  have "o1 \<in> set (lb_entries sp)" using post_entries_grow [OF a(2)] check_reversal_Inr(1) [OF a(1)] by auto
  then have "find_row (\<lambda>e. je_id e = i \<and> je_tenant e = tenant) (lb_entries sp) \<noteq> None"
    using check_reversal_Inr(2,3) [OF a(1)] by (auto simp: find_row_None)
  moreover have "find_row (\<lambda>e. je_id e = i \<and> je_tenant e = tenant) (update_rows (\<lambda>e. je_id e = i) ?f es)
      = map_option ?f (find_row (\<lambda>e. je_id e = i \<and> je_tenant e = tenant) es)" for es
    by (induction es) (auto simp: update_rows_def)
  ultimately obtain o2 where o2: "find_row (\<lambda>e. je_id e = i \<and> je_tenant e = tenant) (lb_entries st') = Some (?f o2)"
    unfolding entries by auto
  show ?thesis using o2 assms(2)
    by (auto simp: reverse_journal_def check_reversal_def Let_def given_def opt_str_def)
qed

text \<open>
  A reason within the documented 500 characters can still be too long: the memo it is embedded in has the
  same limit, so an original whose reversal memo exceeds 500 characters is never reversed by a new entry.
\<close>

theorem long_reason_never_posts:
  assumes "find_row (\<lambda>e. je_id e = i \<and> je_tenant e = tenant) (lb_entries st) = Some o1"
    and "500 < char_count (reversal_memo o1 (js_trim (rv_reason dto)))"
  shows "\<not> (\<exists>r st'. reverse_journal px tenant i dto actor st = (Inr r, st') \<and> \<not> rr_idempotent r)"
proof clarify
  fix r st' assume "reverse_journal px tenant i dto actor st = (Inr r, st')" "\<not> rr_idempotent r"
  then obtain p st1 st2 e rows o2 q where c: "check_reversal tenant i dto st = Inr (o2, q)"
    and p: "post_prepare (reversal_request tenant o2 (js_trim (rv_reason dto)) actor q st) st = (Inr (ReadyToCommit p), st1)"
    and E: "posted_effect px p st1 st2 e rows" by (rule reverse_journal_effect)
  have "o2 = o1" using c assms(1) by (auto simp: check_reversal_def Let_def split: if_splits option.splits)
  moreover have "entry_row px p = Inr e" using E by (simp add: posted_effect_def)
  moreover note post_prepare_ready(1) [OF p]
  ultimately show False using assms(2)
    by (auto simp: entry_row_def Let_def bind_res_Inr reversal_request_def short_text_def split: if_splits)
qed

theorem long_reason_never_posts_witness:
  "\<not> (\<exists>r st'. reverse_journal (demo_env ''y'') (js ''t'') (js ''x'')
      \<lparr>rv_target = None, rv_reason = replicate 480 (cu CHR ''r'')\<rparr> (js ''u'') (demo_ledger\<lparr>lb_entries := [demo_entry ''x'']\<rparr>) = (Inr r, st')
      \<and> \<not> rr_idempotent r)"
proof (rule long_reason_never_posts)
  show "find_row (\<lambda>e. je_id e = js ''x'' \<and> je_tenant e = js ''t'') (lb_entries (demo_ledger\<lparr>lb_entries := [demo_entry ''x'']\<rparr>))
    = Some (demo_entry ''x'')" by (simp add: demo_entry_def)
  show "500 < char_count (reversal_memo (demo_entry ''x'')
      (js_trim (rv_reason \<lparr>rv_target = None, rv_reason = replicate 480 (cu CHR ''r'')\<rparr>)))"
    by code_simp
qed

lemma fiscal_resolve_regular:
  assumes "fiscal_resolve rows tenant entity date = Inr row"
    and "distinct (map fp_code (filter (\<lambda>p. fp_tenant p = tenant \<and> fp_entity p = entity) rows))"
  shows "row \<in> set (filter (\<lambda>p. fp_tenant p = tenant \<and> fp_entity p = entity) rows) \<and> \<not> fp_adjustments_only row"
proof -
  let ?ps = "filter (\<lambda>p. fp_tenant p = tenant \<and> fp_entity p = entity) rows"
  obtain m where m: "resolve_date date (map resolvable ?ps) = Some m" "find_row (\<lambda>p. fp_code p = gp_code m) ?ps = Some row"
    using assms(1) by (auto simp: fiscal_resolve_def Let_def split: option.splits)
  then have "m \<in> set (map resolvable ?ps)" "\<not> gp_adjustments_only m"
    by (auto simp: resolve_date_def split: list.splits dest!: arg_cong [of _ _ set])
  then obtain p0 where p0: "p0 \<in> set ?ps" "m = resolvable p0" "\<not> fp_adjustments_only p0" by (auto simp: resolvable_def)
  have row: "row \<in> set ?ps" "fp_code row = fp_code p0" using find_row_Some [OF m(2)] p0(2) by (auto simp: resolvable_def)
  then have "row = p0" using assms(2) p0(1) unfolding distinct_map by (meson inj_onD)
  then show ?thesis using row p0 by simp
qed

text \<open>
  The adjustments-only period is offered as a target and never posted to: a reversal that names it, when it
  posts at all, posts into another period.
\<close>

lemma adjustments_target_ignored:
  assumes "reverse_journal px tenant i dto actor st = (Inr r, st')" and "\<not> rr_idempotent r"
    and "check_reversal tenant i dto st = Inr (o1, q)" and "fp_adjustments_only q"
    and "distinct (map fp_code (filter (\<lambda>p. fp_tenant p = tenant \<and> fp_entity p = je_entity o1) (lb_periods st)))"
  shows "rr_period r \<noteq> fp_code q"
proof -
  from assms(1) obtain o2 q2 res sp where a: "check_reversal tenant i dto st = Inr (o2, q2)"
    "post px (reversal_request tenant o2 (js_trim (rv_reason dto)) actor q2 st) st = (Inr res, sp)"
    "rr_period r = po_period res" "rr_idempotent r = po_idempotent res"
    by (rule reverse_journal_Inr)
  then have q: "o2 = o1" "q2 = q" using assms(3) by simp_all
  let ?dto = "reversal_request tenant o1 (js_trim (rv_reason dto)) actor q st"
  let ?ps = "filter (\<lambda>p. fp_tenant p = tenant \<and> fp_entity p = je_entity o1) (lb_periods st)"
  obtain p st1 where p: "post_prepare ?dto st = (Inr (ReadyToCommit p), st1)" and per: "po_period res = rp_code (pr_period p)"
    using a(2,4) assms(2) q
    by (auto simp: post_def earlier_result_def post_prepare_def Let_def post_commit_def fail_posting_def
        split: prod.splits sum.splits prepare_outcome.splits option.splits if_splits)
  have "period_ok (posting_header_of ?dto) (pr_ctx p)" using post_prepare_ready(2) [OF p] by (simp add: evaluate_pass)
  then obtain m where m: "pc_period (pr_ctx p) = Some m" by (auto simp: period_ok_def split: option.splits)
  obtain row where row: "fiscal_resolve (lb_periods st) tenant (je_entity o1) (iso_day (fp_start q)) = Inr row" "rp_code m = fp_code row"
    using m unfolding post_prepare_ready(3) [OF p] by (auto simp: resolve_context_def reversal_request_def Let_def split: sum.splits)
  note regular = fiscal_resolve_regular [OF row(1) assms(5)]
  have "q \<in> set ?ps" using check_reversal_Inr [OF assms(3)] assms(3)
    by (auto simp: check_reversal_def eligible_periods_def Let_def split: if_splits option.splits dest!: find_row_Some)
  then have "fp_code row \<noteq> fp_code q" using regular assms(4,5) by (auto simp: distinct_map dest: inj_onD)
  then show ?thesis using a(3) per row(2) m post_prepare_ready(4) [OF p] by simp
qed


section \<open>A reversal\<close>

definition demo_row :: "nat \<Rightarrow> string \<Rightarrow> int \<Rightarrow> int \<Rightarrow> journal_line" where
  "demo_row n a d c = \<lparr>jl_id = [], jl_entry = js ''x'', jl_tenant = js ''t'', jl_index = n, jl_account = js a, jl_number = js ''10100'',
     jl_store = js ''S1'', jl_dept = None, jl_control = None, jl_apply = None, jl_dr = d, jl_cr = c, jl_memo = None\<rparr>"

definition demo_booked :: ledger where
  "demo_booked = demo_ledger\<lparr>lb_entries := [demo_entry ''x''], lb_lines := [demo_row 0 ''cash'' 10000 0, demo_row 1 ''loan'' 0 10000],
     lb_sequence := demo_sequence\<rparr>"

definition demo_reverse :: reverse_dto where
  "demo_reverse = \<lparr>rv_target = None, rv_reason = js ''wrong store''\<rparr>"

definition demo_mirror :: "posting_line list" where
  "demo_mirror = [demo_line ''cash'' (Some (JNum (Fin 0))) (Some (JNum (Fin 100))), demo_line ''loan'' (Some (JNum (Fin 100))) (Some (JNum (Fin 0)))]"

definition demo_open_row :: fiscal_period where
  "demo_open_row = List.hd (lb_periods demo_ledger)"

definition demo_request :: post_journal_dto where
  "demo_request = reversal_request (js ''t'') (demo_entry ''x'') (js ''wrong store'') (js ''u'') demo_open_row demo_booked"

lemma demo_booked_tables:
  "lb_accounts demo_booked = lb_accounts demo_ledger" "lb_periods demo_booked = lb_periods demo_ledger"
  "lb_sources demo_booked = lb_sources demo_ledger" "lb_sequence demo_booked = demo_sequence"
  "lb_entries demo_booked = [demo_entry ''x'']" "lb_lines demo_booked = [demo_row 0 ''cash'' 10000 0, demo_row 1 ''loan'' 0 10000]"
  "lb_periods demo_ledger = [demo_open_row]"
  by (simp_all add: demo_booked_def demo_open_row_def) (simp add: demo_ledger_def)

lemma demo_open: 
  "fp_tenant demo_open_row = js ''t''" "fp_entity demo_open_row = js ''e''" "fp_code demo_open_row = js ''1970-01''"
  "fp_status demo_open_row = OPEN" "fp_start demo_open_row = 0" "fp_end demo_open_row = 2591999999" "fp_id demo_open_row = js ''p''"
  "fp_adjustments_only demo_open_row = False"
  by (simp_all add: demo_open_row_def demo_ledger_def)

lemma demo_entry_simps:
  "je_id (demo_entry i) = js i" "je_tenant (demo_entry i) = js ''t''" "je_entity (demo_entry i) = js ''e''"
  "je_number (demo_entry i) = js ''GJ-1970-01-000001''" "je_source (demo_entry i) = js ''GJ''"
  "je_period_code (demo_entry i) = js ''1970-01''" "je_reversed_by (demo_entry i) = None" "je_key (demo_entry i) = js ''k''"
  by (simp_all add: demo_entry_def)

lemma demo_entry_lines: "entry_lines (js ''t'') (js ''x'') demo_booked = [demo_row 0 ''cash'' 10000 0, demo_row 1 ''loan'' 0 10000]"
  by (simp add: entry_lines_def demo_booked_tables) (simp add: demo_row_def)

lemma demo_check: "check_reversal (js ''t'') (js ''x'') demo_reverse demo_booked = Inr (demo_entry ''x'', demo_open_row)"
proof -
  have r: "js_trim (rv_reason demo_reverse) = js ''wrong store''" by code_simp
  have t: "js_trim (opt_str (rv_target demo_reverse)) = []" by (simp add: demo_reverse_def opt_str_def js_trim_def)
  have "length (js ''wrong store'') = 11" by (simp add: js_def)
  then show ?thesis
    by (simp add: check_reversal_def r t demo_booked_tables demo_entry_simps given_def eligible_periods_def demo_open)
qed

lemma demo_request_fields:
  "pj_tenant demo_request = js ''t''" "pj_entity demo_request = js ''e''" "pj_date demo_request = js ''1970-01-01''"
  "pj_source demo_request = js ''GJ''" "pj_key demo_request = js ''reverse:x''" "pj_caller_class demo_request = Some (js ''MANUAL'')"
  "pj_posted_by demo_request = Some (js ''u'')" "pj_draft demo_request = None" "pj_adjusting demo_request = False"
  "pj_adjusting_reason demo_request = None" "pj_correction_ref demo_request = None" "pj_lines demo_request = demo_mirror"
  "pj_memo demo_request = Some (js ''Reversal of GJ-1970-01-000001: wrong store'')" "pj_reversal_reason demo_request = Some (js ''wrong store'')"
proof -
  have "js_class (List.hd (lb_sources demo_ledger)) = js ''MANUAL''" by (simp add: demo_ledger_def)
  have c: "reversal_caller (js ''t'') (demo_entry ''x'') demo_booked = js ''MANUAL''"
    by (simp add: reversal_caller_def demo_booked_tables demo_entry_simps) (simp add: demo_ledger_def)
  have l: "map mirrored (entry_lines (js ''t'') (js ''x'') demo_booked) = demo_mirror"
    by (simp add: demo_entry_lines mirrored_def demo_row_def demo_mirror_def demo_line_def demo_dollars)
  show "pj_tenant demo_request = js ''t''" "pj_entity demo_request = js ''e''" "pj_date demo_request = js ''1970-01-01''"
    "pj_source demo_request = js ''GJ''" "pj_caller_class demo_request = Some (js ''MANUAL'')"
    "pj_posted_by demo_request = Some (js ''u'')" "pj_draft demo_request = None" "pj_adjusting demo_request = False"
    "pj_adjusting_reason demo_request = None" "pj_correction_ref demo_request = None" "pj_lines demo_request = demo_mirror"
    "pj_reversal_reason demo_request = Some (js ''wrong store'')"
    by (simp_all add: demo_request_def reversal_request_def demo_entry_simps demo_open demo_days c l)
  show "pj_key demo_request = js ''reverse:x''"
    "pj_memo demo_request = Some (js ''Reversal of GJ-1970-01-000001: wrong store'')"
    by (simp_all add: demo_request_def reversal_request_def demo_entry_simps reversal_memo_def js_def)
qed

definition demo_rctx :: posting_context where
  "demo_rctx = resolve_context demo_request (js ''MANUAL'') demo_booked"

lemma demo_resolves_first: "fiscal_resolve (lb_periods demo_booked) (js ''t'') (js ''e'') (js ''1970-01-01'') = Inr demo_open_row"
  by (simp add: fiscal_resolve_def demo_booked_tables resolve_date_def resolvable_def demo_open demo_days del: js_def) code_simp

lemma demo_rctx_simps:
  "pc_caller_class demo_rctx = js ''MANUAL''" "pc_period demo_rctx = Some demo_period_row"
  "pc_source demo_rctx = Some \<lparr>rs_code = js ''GJ'', rs_class = js ''MANUAL'', rs_status = js ''ACTIVE''\<rparr>"
  "pc_accounts demo_rctx (js ''cash'') = Some (resolved_row (demo_gl_account ''cash'' ''DR''))"
  "pc_accounts demo_rctx (js ''loan'') = Some (resolved_row (demo_gl_account ''loan'' ''CR''))"
proof -
  note d = demo_request_fields demo_booked_tables
  show "pc_caller_class demo_rctx = js ''MANUAL''" by (simp add: demo_rctx_def resolve_context_def Let_def)
  show "pc_period demo_rctx = Some demo_period_row"
    using demo_resolves_first by (simp add: demo_rctx_def resolve_context_def Let_def d(1-3)) (simp add: demo_open demo_period_row_def)
  show "pc_source demo_rctx = Some \<lparr>rs_code = js ''GJ'', rs_class = js ''MANUAL'', rs_status = js ''ACTIVE''\<rparr>"
    by (simp add: demo_rctx_def resolve_context_def Let_def d) (simp add: demo_ledger_def)
  show "pc_accounts demo_rctx (js ''cash'') = Some (resolved_row (demo_gl_account ''cash'' ''DR''))"
    "pc_accounts demo_rctx (js ''loan'') = Some (resolved_row (demo_gl_account ''loan'' ''CR''))"
    by (simp_all add: demo_rctx_def resolve_context_def Let_def d)
       (simp_all add: demo_ledger_def demo_mirror_def demo_line_def demo_gl_account_def js_def)
qed

lemma demo_mirror_totals: "total_side pl_dr demo_mirror = Fin 10000" "total_side pl_cr demo_mirror = Fin 10000"
  by (simp_all add: total_side_def add_side_def demo_mirror_def demo_line_def math_max_def cents_of_def)

lemma demo_mirror_evaluates: "er_pass (evaluate (posting_header_of demo_request) demo_mirror demo_rctx)"
proof -
  have "list_all (line_ok demo_rctx) demo_mirror"
    by (simp add: demo_mirror_def demo_line_def line_ok_def one_sided_def account_ok_def demo_rctx_simps cents_of_def)
  moreover have "period_ok (posting_header_of demo_request) demo_rctx" by (simp add: period_ok_def demo_rctx_simps demo_period_row_def)
  moreover have "source_ok demo_rctx" by (simp add: source_ok_def demo_rctx_simps)
  moreover have "ph_idempotency_key (posting_header_of demo_request) = js ''reverse:x''" by (simp add: posting_header_of_def demo_request_fields)
  moreover have "\<not> is_blank (js ''reverse:x'')" by code_simp
  ultimately show ?thesis using demo_mirror_totals by (simp add: evaluate_pass num_eq_def) (simp add: demo_mirror_def)
qed

definition demo_rprepared :: prepared where
  "demo_rprepared = \<lparr>pr_dto = demo_request, pr_ctx = demo_rctx, pr_period = demo_period_row, pr_debits = Fin 10000,
     pr_credits = Fin 10000, pr_alloc = demo_alloc2\<rparr>"

definition demo_rsequence :: sequence_state where
  "demo_rsequence = snd (allocate \<lparr>al_tenant = js ''t'', al_source = js ''GJ'', al_entity = js ''e'', al_period = js ''1970-01'',
     al_actor = Some (js ''u'')\<rparr> demo_sequence)"

lemma demo_rallocates:
  "fst (allocate \<lparr>al_tenant = js ''t'', al_source = js ''GJ'', al_entity = js ''e'', al_period = js ''1970-01'',
     al_actor = Some (js ''u'')\<rparr> demo_sequence) = Inr demo_alloc2"
  by code_simp

lemma demo_rprepares:
  "post_prepare demo_request demo_booked = (Inr (ReadyToCommit demo_rprepared), demo_booked\<lparr>lb_sequence := demo_rsequence\<rparr>)"
proof -
  have "check_input demo_request = Inr ()" by (simp add: check_input_def demo_request_fields js_eq_iff)
  moreover have "find_entry (js ''t'') (js ''reverse:x'') demo_booked = None"
    by (simp add: find_entry_def demo_booked_tables demo_entry_simps js_eq_iff)
  moreover have "tag_violations demo_request demo_booked = []"
    by (simp add: tag_violations_def demo_request_fields) (simp add: demo_mirror_def demo_line_def)
  moreover have "rp_code (the (pc_period demo_rctx)) = js ''1970-01''" "the (pc_period demo_rctx) = demo_period_row"
    by (simp_all add: demo_rctx_simps demo_period_row_def)
  moreover have "allocate \<lparr>al_tenant = js ''t'', al_source = js ''GJ'', al_entity = js ''e'', al_period = js ''1970-01'',
     al_actor = Some (js ''u'')\<rparr> (lb_sequence demo_booked) = (Inr demo_alloc2, demo_rsequence)"
    using demo_rallocates unfolding demo_rsequence_def by (simp add: prod_eq_iff demo_booked_tables)
  moreover have "caller_class demo_request = js ''MANUAL''" by (simp add: caller_class_def demo_request_fields)
  ultimately show ?thesis
    using demo_mirror_evaluates demo_mirror_totals demo_request_fields
    by (simp add: post_prepare_def demo_rctx_def [symmetric] Let_def evaluate_totals actor_or_system_def demo_rprepared_def)
qed

definition demo_rledger :: ledger where
  "demo_rledger = demo_booked\<lparr>lb_sequence := demo_rsequence\<rparr>"

lemma demo_rledger_tables:
  "lb_accounts demo_rledger = lb_accounts demo_ledger" "lb_periods demo_rledger = [demo_open_row]"
  "lb_entries demo_rledger = [demo_entry ''x'']" "lb_lines demo_rledger = [demo_row 0 ''cash'' 10000 0, demo_row 1 ''loan'' 0 10000]"
  by (simp_all add: demo_rledger_def demo_booked_tables)

lemma demo_rentry_row:
  "\<exists>e. entry_row (demo_env ''y'') demo_rprepared = Inr e \<and> je_id e = js ''y'' \<and> je_tenant e = js ''t'' \<and> je_entity e = js ''e''
     \<and> je_key e = js ''reverse:x'' \<and> je_number e = js ''GJ-1970-01-000002'' \<and> je_period e = js ''p''"
proof -
  have "char_count (js ''Reversal of GJ-1970-01-000001: wrong store'') \<le> 500" "char_count (js ''wrong store'') \<le> 500" by code_simp+
  then show ?thesis
    by (simp add: entry_row_def demo_rprepared_def demo_request_fields demo_env_def entry_instant_def short_text_def demo_dollars demo_money
      demo_alloc_def demo_alloc2_def demo_period_row_def actor_or_system_def)
qed

lemma demo_rrows:
  "line_row (demo_env ''y'') demo_rprepared n (demo_line ''cash'' (Some (JNum (Fin 0))) (Some (JNum (Fin 100)))) =
     Inr \<lparr>jl_id = [], jl_entry = js ''y'', jl_tenant = js ''t'', jl_index = n, jl_account = js ''cash'', jl_number = js ''10100'',
       jl_store = js ''S1'', jl_dept = None, jl_control = None, jl_apply = None, jl_dr = 0, jl_cr = 10000, jl_memo = None\<rparr>"
  "line_row (demo_env ''y'') demo_rprepared n (demo_line ''loan'' (Some (JNum (Fin 100))) (Some (JNum (Fin 0)))) =
     Inr \<lparr>jl_id = [], jl_entry = js ''y'', jl_tenant = js ''t'', jl_index = n, jl_account = js ''loan'', jl_number = js ''10100'',
       jl_store = js ''S1'', jl_dept = None, jl_control = None, jl_apply = None, jl_dr = 10000, jl_cr = 0, jl_memo = None\<rparr>"
  by (simp_all add: line_row_def demo_line_def cents_of_def demo_dollars demo_money short_text_def demo_env_def demo_rprepared_def
      demo_request_fields demo_rctx_simps)

lemma demo_rsides: "account_sides demo_mirror = [(js ''cash'', Fin 0, Fin 10000), (js ''loan'', Fin 10000, Fin 0)]"
  by (simp add: account_sides_def demo_mirror_def demo_line_def add_sides_def cents_of_def)

lemma demo_rdeltas:
  "balance_delta (js ''DR'') (Fin 0) (Fin 10000) = Fin (- 100)" "balance_delta (js ''CR'') (Fin 10000) (Fin 0) = Fin (- 100)"
proof -
  have "to_num (- 10000) = Fin (- 10000)" "to_num (- 100) = Fin (- 100)"
    using to_num_of_int [of "- 10000"] to_num_of_int [of "- 100"] by simp_all
  then show "balance_delta (js ''DR'') (Fin 0) (Fin 10000) = Fin (- 100)" "balance_delta (js ''CR'') (Fin 10000) (Fin 0) = Fin (- 100)"
    by (simp_all add: balance_delta_def num_sub_def cents_to_dollars_def)
qed

lemma demo_rmoney: "rounded_cents (Fin (- 100)) = Inr (- 10000)" "half_away (- 10000) = - 10000"
  using half_away_near [of "- 10000" "- 10000"] by simp_all

lemma demo_rtx: "\<exists>st'. post_tx (demo_env ''y'') demo_rprepared demo_rledger = Inr st'"
proof -
  obtain e where e: "entry_row (demo_env ''y'') demo_rprepared = Inr e" "je_id e = js ''y''" "je_tenant e = js ''t''" "je_entity e = js ''e''"
    "je_key e = js ''reverse:x''" "je_number e = js ''GJ-1970-01-000002''" "je_period e = js ''p''" using demo_rentry_row by blast
  have lines: "pj_lines (pr_dto demo_rprepared) = demo_mirror" by (simp add: demo_rprepared_def demo_request_fields)
  have enf: "enforce_period_postable demo_rledger e = Inr ()"
    by (simp add: enforce_period_postable_def demo_rledger_tables e demo_open)
  have norm: "ra_normal_balance (the (pc_accounts (pr_ctx demo_rprepared) (js ''cash''))) = js ''DR''"
    "ra_normal_balance (the (pc_accounts (pr_ctx demo_rprepared) (js ''loan''))) = js ''CR''"
    by (simp_all add: demo_rprepared_def demo_rctx_simps)
  have acc: "lb_accounts demo_ledger = [demo_gl_account ''cash'' ''DR'', demo_gl_account ''loan'' ''CR'']"
    "ga_id (demo_gl_account a n) = js a" "ga_balance (demo_gl_account a n) = 0" for a n
    by (simp_all add: demo_ledger_def demo_gl_account_def)
  have ins: "insert_entry e demo_rledger = Inr (demo_rledger\<lparr>lb_entries := [demo_entry ''x'', e]\<rparr>)"
    by (simp add: insert_entry_def enf demo_rledger_tables e demo_entry_simps js_eq_iff)
  show ?thesis
    by (simp add: post_tx_def e(1) ins lines demo_rsides)
      (simp add: demo_mirror_def write_line_def demo_rrows insert_line_def demo_rledger_tables
        write_account_def norm acc demo_rdeltas demo_money demo_rmoney demo_dollars demo_half fits_money_def money_def je_check_balanced_def demo_env_id
        demo_row_def js_eq_iff)
qed

lemma demo_reverses:
  "\<exists>r st'. reverse_journal (demo_env ''y'') (js ''t'') (js ''x'') demo_reverse (js ''u'') demo_booked = (Inr r, st')
    \<and> \<not> rr_idempotent r \<and> rr_id r = js ''y''"
proof -
  obtain st1 where tx: "post_tx (demo_env ''y'') demo_rprepared demo_rledger = Inr st1" using demo_rtx by blast
  have eff: "\<exists>e rows. posted_effect (demo_env ''y'') demo_rprepared demo_rledger st1 e rows"
    using post_tx_effect [OF tx prepared_clean [OF demo_rprepares]] by blast
  obtain res where c: "post (demo_env ''y'') demo_request demo_booked = (Inr res, publish_posting (demo_env ''y'') demo_rprepared st1)"
    "po_id res = js ''y''" "\<not> po_idempotent res"
    using tx by (simp add: post_def demo_rprepares demo_rledger_def [symmetric] post_commit_def with_serializable_retry_def max_retries_def
      demo_env_def upt_rec)
  have bal: "je_check_balanced (js ''x'') (publish_posting (demo_env ''y'') demo_rprepared st1) = Inr ()"
  proof -
    obtain e rows where E: "posted_effect (demo_env ''y'') demo_rprepared demo_rledger st1 e rows" using eff by blast
    then have "list_all2 (line_matches (js ''y'')) (pj_lines (pr_dto demo_rprepared)) rows"
      by (simp add: posted_effect_def demo_env_id)
    then have "\<forall>r \<in> set rows. jl_entry r = js ''y''" using line_matches_all by blast
    then have "filter (\<lambda>l. jl_entry l = js ''x'') rows = []" by (auto simp: filter_empty_conv js_eq_iff)
    moreover have "lb_lines (publish_posting (demo_env ''y'') demo_rprepared st1) = lb_lines demo_rledger @ rows"
      using E by (simp add: posted_effect_def publish_posting_def Let_def)
    ultimately show ?thesis by (simp add: je_check_balanced_def demo_rledger_tables demo_row_def)
  qed
  have r: "js_trim (rv_reason demo_reverse) = js ''wrong store''" by code_simp
  show ?thesis
    using c bal by (simp add: reverse_journal_def demo_check r demo_request_def [symmetric] link_reversal_def demo_entry_simps Let_def)
qed

theorem reversal_undoes_original_witness:
  "\<exists>r st'. reverse_journal (demo_env ''y'') (js ''t'') (js ''x'') demo_reverse (js ''u'') demo_booked = (Inr r, st')
    \<and> balance_of st' (js ''cash'') = - 10000 \<and> balance_of st' (js ''loan'') = - 10000"
proof -
  obtain r st' where r: "reverse_journal (demo_env ''y'') (js ''t'') (js ''x'') demo_reverse (js ''u'') demo_booked = (Inr r, st')"
    "\<not> rr_idempotent r" using demo_reverses by blast
  have c: "columns_ok demo_booked" by (simp add: columns_ok_def demo_booked_tables demo_row_def fits_money_def)
  have d: "distinct (map ga_id (lb_accounts demo_booked))"
    using demo_fresh by (simp add: demo_booked_tables fresh_ledger_def)
  have b: "balance_of demo_booked (js ''cash'') = 0" "normal_at demo_booked (js ''cash'') = js ''DR''"
    "balance_of demo_booked (js ''loan'') = 0" "normal_at demo_booked (js ''loan'') = js ''CR''"
    by (simp_all add: balance_of_def normal_at_def account_at_def demo_booked_tables)
      (simp_all add: demo_ledger_def demo_gl_account_def js_eq_iff)
  have s: "acct_sum jl_dr (js ''cash'') (entry_lines (js ''t'') (js ''x'') demo_booked) = 10000"
    "acct_sum jl_cr (js ''cash'') (entry_lines (js ''t'') (js ''x'') demo_booked) = 0"
    "acct_sum jl_dr (js ''loan'') (entry_lines (js ''t'') (js ''x'') demo_booked) = 0"
    "acct_sum jl_cr (js ''loan'') (entry_lines (js ''t'') (js ''x'') demo_booked) = 10000"
    by (simp_all add: demo_entry_lines demo_row_def js_eq_iff)
  show ?thesis
    using reversal_undoes_original [OF r c d, of "js ''cash''"] reversal_undoes_original [OF r c d, of "js ''loan''"] r(1) b s
    by (simp add: signed_cents_def js_eq_iff)
qed

theorem reversed_once_witness:
  "\<exists>st' x. reverse_journal (demo_env ''z'') (js ''t'') (js ''x'') demo_reverse (js ''u'') st' = (Inl x, st')
    \<and> (x = ReversalReasonRequired \<or> (\<exists>n. x = AlreadyReversed (js ''y'') n))"
proof -
  obtain r st' where r: "reverse_journal (demo_env ''y'') (js ''t'') (js ''x'') demo_reverse (js ''u'') demo_booked = (Inr r, st')"
    "rr_id r = js ''y''" using demo_reverses by blast
  have "rr_id r \<noteq> []" by (simp add: r(2) js_def)
  from reversed_once [OF r(1) this] show ?thesis unfolding r(2) by blast
qed

end
