(* ===== verification/RulePackService.thy ===== *)
theory RulePackService
  imports RulePackValidator AccountService
begin

text \<open>
  The rule-pack half of \<open>application/posting-engine-service.ts\<close>: drafting, validating and activating the
  versions of a pack, with the trigger \<open>enforce_posting_rule_pack_version_immutability\<close> that guards the table.
\<close>

section \<open>Rows\<close>

datatype version_status = V_DRAFT | V_VALIDATED | V_ACTIVE | V_SUPERSEDED

fun version_status_str :: "version_status \<Rightarrow> jstr" where
  "version_status_str V_DRAFT = js ''DRAFT''"
| "version_status_str V_VALIDATED = js ''VALIDATED''"
| "version_status_str V_ACTIVE = js ''ACTIVE''"
| "version_status_str V_SUPERSEDED = js ''SUPERSEDED''"

record rule_pack_row =
  rk_id :: jstr
  rk_tenant :: jstr
  rk_entity :: jstr
  rk_key :: jstr
  rk_created_by :: jstr

record pack_version =
  pv_id :: jstr
  pv_tenant :: jstr
  pv_pack :: jstr
  pv_key :: jstr
  pv_semver :: jstr
  pv_dsl :: int
  pv_event_type :: jstr
  pv_schemas :: "jstr list"
  pv_entity :: jstr
  pv_from :: int
  pv_to :: "int option"
  pv_source :: jstr
  pv_strategy :: jstr
  pv_no_match :: jstr
  pv_definition :: json
  pv_hash :: jstr
  pv_status :: version_status
  pv_findings :: "finding list"
  pv_created_by :: jstr
  pv_validated_at :: "int option"
  pv_activated_by :: "jstr option"
  pv_activated_at :: "int option"
  pv_superseded_at :: "int option"

record pack_store =
  ks_packs :: "rule_pack_row list"
  ks_versions :: "pack_version list"
  ks_audit :: "audit_event list"

datatype pack_error =
    EngineInput jstr
  | RulePackNotFound jstr
  | RulePackVersionNotFound jstr
  | ActivationNotEligible jstr
  | ActivationSoDViolation jstr
  | SelfActivationForbidden jstr
  | ColumnRefused
  | DuplicateVersion
  | VersionImmutable

record create_version_dto =
  kv_tenant :: jstr
  kv_pack_key :: jstr
  kv_source_text :: jstr
  kv_actor :: jstr

text \<open>
  What comes from outside: the clock, the identifiers drawn, \<open>JSON.parse\<close>, \<open>JSON.stringify\<close>,
  \<open>new Date(value)\<close> (no value when the date is invalid), \<open>Date.parse\<close> and the SHA-256 digest. A \<open>jsonb\<close>
  column is taken to return the document it was given.
\<close>

record engine_env =
  ee_now :: int
  ee_pack_id :: jstr
  ee_version_id :: jstr
  ee_json_parse :: "jstr \<Rightarrow> json"
  ee_stringify :: "json \<Rightarrow> jstr"
  ee_new_date :: "json \<Rightarrow> int option"
  ee_date_parse :: "jstr \<Rightarrow> jsnum"
  ee_sha256 :: "jstr \<Rightarrow> jstr"

section \<open>Shared helpers\<close>

definition account_lookup_of :: "gl_account list \<Rightarrow> account_lookup" where
  "account_lookup_of accounts entity number =
     map_option (\<lambda>a. \<lparr>ar_account_number = ga_number a, ar_type = ga_type a, ar_postable = ga_postable a, ar_status = ga_status a\<rparr>)
       (find_row (\<lambda>a. ga_entity a = entity \<and> ga_number a = number) accounts)"

definition engine_audit :: "jstr \<Rightarrow> jstr \<Rightarrow> string \<Rightarrow> jstr \<Rightarrow> json \<Rightarrow> json option \<Rightarrow> audit_event" where
  "engine_audit tenant doc_id action actor after before =
     \<lparr>ae_tenant = tenant, ae_doc_type = js ''POSTING_ENGINE'', ae_doc_id = doc_id, ae_action = js action,
      ae_before = before, ae_after = Some after, ae_actor = actor\<rparr>"

text \<open>\<open>bv ?? null\<close> of a property.\<close>

definition prop_or_null :: "json \<Rightarrow> jstr \<Rightarrow> json" where
  "prop_or_null v k = (case js_prop v k of Some w \<Rightarrow> w | None \<Rightarrow> JNull)"

definition diff_fields :: "(json \<Rightarrow> jstr) \<Rightarrow> json \<Rightarrow> json \<Rightarrow> json" where
  "diff_fields stringify before after =
     (let keys = (case before of JObj ps \<Rightarrow> js_keys ps | _ \<Rightarrow> []);
          more = filter (\<lambda>k. k \<notin> set keys) (case after of JObj ps \<Rightarrow> js_keys ps | _ \<Rightarrow> [])
      in JArr (concat (map (\<lambda>k. let bv = prop_or_null before k; av = prop_or_null after k in
           if stringify bv \<noteq> stringify av
           then [JObj [(js ''field'', JStr k), (js ''before'', bv), (js ''after'', av)]] else []) (keys @ more))))"

definition with_diff :: "(json \<Rightarrow> jstr) \<Rightarrow> json \<Rightarrow> (jstr \<times> json) list \<Rightarrow> json" where
  "with_diff stringify before after = JObj (after @ [(js ''fieldDiffs'', diff_fields stringify before (JObj after))])"

text \<open>\<open>Number(v)\<close> and \<open>String(v ?? '')\<close>.\<close>

definition js_number :: "json \<Rightarrow> jsnum" where
  "js_number v =
     (case v of JNum n \<Rightarrow> n | JNull \<Rightarrow> Fin 0 | JBool b \<Rightarrow> (if b then Fin 1 else Fin 0) | _ \<Rightarrow> str_num (js_string v))"

definition text_or :: "jstr \<Rightarrow> json \<Rightarrow> string \<Rightarrow> jstr" where
  "text_or d doc k = (if is_nullish (js_prop doc (js k)) then d else opt_string (js_prop doc (js k)))"

section \<open>The immutability trigger\<close>

definition enforce_version :: "pack_version \<Rightarrow> pack_version \<Rightarrow> bool" where
  "enforce_version old new \<longleftrightarrow>
     (pv_status old = V_ACTIVE \<or> pv_status old = V_SUPERSEDED \<longrightarrow>
        pv_definition new = pv_definition old \<and> pv_hash new = pv_hash old \<and> pv_event_type new = pv_event_type old
        \<and> pv_from new = pv_from old \<and> pv_to new = pv_to old \<and> pv_source new = pv_source old
        \<and> pv_status new \<noteq> V_DRAFT \<and> pv_status new \<noteq> V_VALIDATED)"

text \<open>An update of the rows that satisfy \<open>P\<close>, refused as a whole when the trigger refuses a row.\<close>

definition update_versions :: "(pack_version \<Rightarrow> bool) \<Rightarrow> (pack_version \<Rightarrow> pack_version) \<Rightarrow> pack_store \<Rightarrow> pack_error + pack_store" where
  "update_versions P f st =
     (if list_all (\<lambda>v. P v \<longrightarrow> enforce_version v (f v)) (ks_versions st)
      then Inr (st\<lparr>ks_versions := update_rows P f (ks_versions st)\<rparr>) else Inl VersionImmutable)"

section \<open>Drafting\<close>

definition draft_columns :: "engine_env \<Rightarrow> json \<Rightarrow> (int \<times> jstr list \<times> int \<times> int option) option" where
  "draft_columns ee doc =
     (let dsl = js_number (case js_prop doc (js ''dslVersion'') of Some v \<Rightarrow> v | None \<Rightarrow> JNull);
          schemas = (case js_prop doc (js ''supportedEventSchemaVersions'') of Some (JArr xs) \<Rightarrow> xs | _ \<Rightarrow> []);
          from = (if truthy (js_prop doc (js ''effectiveFrom'')) then ee_new_date ee (the (js_prop doc (js ''effectiveFrom''))) else Some 0);
          until = (if truthy (js_prop doc (js ''effectiveTo'')) then map_option Some (ee_new_date ee (the (js_prop doc (js ''effectiveTo''))))
                  else Some None)
      in case dsl of
           Fin q \<Rightarrow>
             if is_integer_num dsl \<and> - (2 ^ 31) \<le> q \<and> q < 2 ^ 31 \<and> list_all (\<lambda>v. is_string_value (Some v)) schemas
             then (case from of None \<Rightarrow> None | Some f \<Rightarrow>
                   (case until of None \<Rightarrow> None | Some t \<Rightarrow> Some (\<lfloor>q\<rfloor>, map (\<lambda>v. string_or_empty (Some v)) schemas, f, t)))
             else None
         | _ \<Rightarrow> None)"

definition insert_version :: "pack_version \<Rightarrow> pack_store \<Rightarrow> pack_error + pack_store" where
  "insert_version v st =
     (if list_ex (\<lambda>w. pv_tenant w = pv_tenant v \<and> pv_entity w = pv_entity v \<and> pv_key w = pv_key v \<and> pv_semver w = pv_semver v) (ks_versions st)
      then Inl DuplicateVersion else Inr (st\<lparr>ks_versions := ks_versions st @ [v]\<rparr>))"

definition find_pack :: "jstr \<Rightarrow> jstr \<Rightarrow> jstr \<Rightarrow> pack_store \<Rightarrow> rule_pack_row option" where
  "find_pack tenant entity key st = find_row (\<lambda>r. rk_tenant r = tenant \<and> rk_entity r = entity \<and> rk_key r = key) (ks_packs st)"

definition draft_row :: "engine_env \<Rightarrow> create_version_dto \<Rightarrow> jstr \<Rightarrow> jstr \<Rightarrow> jstr \<Rightarrow> jstr \<Rightarrow> finding list \<Rightarrow> json
    \<Rightarrow> int \<times> jstr list \<times> int \<times> int option \<Rightarrow> pack_version" where
  "draft_row ee dto pack_id key semver entity findings doc columns =
     (case columns of (dsl, schemas, from, until) \<Rightarrow>
        \<lparr>pv_id = ee_version_id ee, pv_tenant = kv_tenant dto, pv_pack = pack_id, pv_key = key, pv_semver = semver,
         pv_dsl = dsl, pv_event_type = text_or [] doc ''eventType'', pv_schemas = schemas, pv_entity = entity,
         pv_from = from, pv_to = until, pv_source = text_or [] doc ''journalSourceCode'',
         pv_strategy = text_or [] doc ''matchStrategy'', pv_no_match = text_or [] doc ''noMatchBehavior'',
         pv_definition = doc, pv_hash = hash_rule_pack (ee_sha256 ee) doc, pv_status = V_DRAFT, pv_findings = findings,
         pv_created_by = kv_actor dto, pv_validated_at = None, pv_activated_by = None, pv_activated_at = None,
         pv_superseded_at = None\<rparr>)"

text \<open>The transaction: find or create the pack of the tenant and entity, then insert the version.\<close>

definition file_draft :: "engine_env \<Rightarrow> create_version_dto \<Rightarrow> jstr \<Rightarrow> jstr \<Rightarrow> jstr \<Rightarrow> finding list \<Rightarrow> json \<Rightarrow> pack_store
    \<Rightarrow> pack_error + pack_version \<times> pack_store" where
  "file_draft ee dto key semver entity findings doc st =
     (let found = find_pack (kv_tenant dto) entity key st;
          pack = (case found of Some r \<Rightarrow> r
            | None \<Rightarrow> \<lparr>rk_id = ee_pack_id ee, rk_tenant = kv_tenant dto, rk_entity = entity, rk_key = key, rk_created_by = kv_actor dto\<rparr>);
          st1 = (if found = None then st\<lparr>ks_packs := ks_packs st @ [pack]\<rparr> else st)
      in case draft_columns ee doc of
           None \<Rightarrow> Inl ColumnRefused
         | Some columns \<Rightarrow>
           let v = draft_row ee dto (rk_id pack) key semver entity findings doc columns
           in bind_res (insert_version v st1) (\<lambda>st2. Inr (v, st2\<lparr>ks_audit := ks_audit st2 @ [engine_audit (kv_tenant dto) (pv_id v)
                ''DRAFT_CREATED'' (kv_actor dto)
                (JObj [(js ''packKey'', JStr key), (js ''semver'', JStr semver), (js ''contentHash'', JStr (pv_hash v))]) None]\<rparr>)))"

definition create_rule_pack_version :: "engine_env \<Rightarrow> gl_account list \<Rightarrow> create_version_dto \<Rightarrow> pack_store
    \<Rightarrow> (pack_error + pack_version) \<times> pack_store" where
  "create_rule_pack_version ee accounts dto st =
     (let check = validate_rule_pack_source (ee_date_parse ee) (kv_source_text dto) (kv_tenant dto) (account_lookup_of accounts) in
      if list_ex (\<lambda>f. fi_code f = js ''JSON_PARSE_ERROR'' \<or> fi_code f = js ''INVALID_ROOT_SHAPE'') (vr_findings check)
      then (Inl (EngineInput (fi_message (List.hd (vr_findings check)))), st)
      else
        let doc = ee_json_parse ee (kv_source_text dto);
            own = string_or_empty (js_prop doc (js ''packKey''));
            key = (if own \<noteq> [] then own else kv_pack_key dto);
            semver = (case js_prop doc (js ''semver'') of Some (JStr s) \<Rightarrow> s | _ \<Rightarrow> js ''0.0.0'');
            entity = string_or_empty (js_prop doc (js ''entityId''))
        in if key = [] then (Inl (EngineInput (js ''packKey is required.'')), st)
           else if entity = [] then (Inl (EngineInput (js ''entityId is required.'')), st)
           else case file_draft ee dto key semver entity (vr_findings check) doc st of
                  Inl e \<Rightarrow> (Inl e, st) | Inr (v, st1) \<Rightarrow> (Inr v, st1))"

section \<open>Validating\<close>

definition find_version :: "jstr \<Rightarrow> jstr \<Rightarrow> pack_store \<Rightarrow> pack_error + pack_version" where
  "find_version tenant i st =
     (case find_row (\<lambda>v. pv_id v = i \<and> pv_tenant v = tenant) (ks_versions st) of
        None \<Rightarrow> Inl (RulePackVersionNotFound i) | Some v \<Rightarrow> Inr v)"

definition validated_status :: "version_status \<Rightarrow> bool \<Rightarrow> version_status" where
  "validated_status s valid = (if s = V_DRAFT \<and> valid then V_VALIDATED else if s = V_DRAFT then V_DRAFT else s)"

definition num_json :: "nat \<Rightarrow> json" where
  "num_json n = JNum (num_of_int (int n))"

definition validate_version :: "engine_env \<Rightarrow> gl_account list \<Rightarrow> jstr \<Rightarrow> jstr \<Rightarrow> jstr \<Rightarrow> pack_store
    \<Rightarrow> (pack_error + validation_result) \<times> pack_store" where
  "validate_version ee accounts tenant i actor st =
     (case find_version tenant i st of
        Inl e \<Rightarrow> (Inl e, st)
      | Inr v \<Rightarrow>
        let result = validate_rule_pack_source (ee_date_parse ee) (ee_stringify ee (pv_definition v)) tenant (account_lookup_of accounts);
            status = validated_status (pv_status v) (vr_valid result);
            before = JObj [(js ''status'', JStr (version_status_str (pv_status v))),
              (js ''validationFindingCount'', num_json (length (pv_findings v)))];
            after = [(js ''status'', JStr (version_status_str status)), (js ''validationFindingCount'', num_json (length (vr_findings result))),
              (js ''valid'', JBool (vr_valid result))]
        in case update_versions (\<lambda>w. pv_id w = i)
                  (\<lambda>w. w\<lparr>pv_findings := vr_findings result, pv_validated_at := Some (ee_now ee), pv_status := status\<rparr>) st of
             Inl e \<Rightarrow> (Inl e, st)
           | Inr st1 \<Rightarrow> (Inr result, st1\<lparr>ks_audit := ks_audit st1
               @ [engine_audit tenant i ''VALIDATION_COMPLETED'' actor (with_diff (ee_stringify ee) before after) (Some before)]\<rparr>))"

section \<open>Activating\<close>

definition is_ce12_pack_key :: "jstr \<Rightarrow> bool" where
  "is_ce12_pack_key key = starts_with (js ''ce12.'') key"

definition refuse_activation :: "jstr \<Rightarrow> jstr \<Rightarrow> string \<Rightarrow> jstr \<Rightarrow> (jstr \<times> json) list \<Rightarrow> pack_error \<Rightarrow> pack_store
    \<Rightarrow> (pack_error + pack_version) \<times> pack_store" where
  "refuse_activation tenant i action actor detail e st =
     (Inl e, st\<lparr>ks_audit := ks_audit st @ [engine_audit tenant i action actor (JObj detail) None]\<rparr>)"

text \<open>The transaction: the active versions of the same pack are superseded, then the version becomes active.\<close>

definition activate_tx :: "engine_env \<Rightarrow> jstr \<Rightarrow> pack_version \<Rightarrow> jstr \<Rightarrow> pack_store \<Rightarrow> pack_error + pack_store" where
  "activate_tx ee tenant v actor st =
     (let current = (\<lambda>w. pv_tenant w = tenant \<and> pv_entity w = pv_entity v \<and> pv_key w = pv_key v \<and> pv_status w = V_ACTIVE);
          before = JObj [(js ''status'', JStr (js ''VALIDATED''))];
          after = [(js ''status'', JStr (js ''ACTIVE'')), (js ''activatedBy'', JStr actor), (js ''packKey'', JStr (pv_key v)),
            (js ''semver'', JStr (pv_semver v)), (js ''contentHash'', JStr (pv_hash v))];
          superseded = map (\<lambda>w. engine_audit tenant (pv_id w) ''SUPERSEDED'' actor
              (JObj [(js ''status'', JStr (js ''SUPERSEDED'')), (js ''supersededBy'', JStr (pv_id v))])
              (Some (JObj [(js ''status'', JStr (js ''ACTIVE''))]))) (filter current (ks_versions st))
      in bind_res (update_versions current (\<lambda>w. w\<lparr>pv_status := V_SUPERSEDED, pv_superseded_at := Some (ee_now ee)\<rparr>) st) (\<lambda>st1.
         bind_res (update_versions (\<lambda>w. pv_id w = pv_id v)
             (\<lambda>w. w\<lparr>pv_status := V_ACTIVE, pv_activated_by := Some actor, pv_activated_at := Some (ee_now ee)\<rparr>) st1) (\<lambda>st2.
           Inr (st2\<lparr>ks_audit := ks_audit st2 @ superseded
             @ [engine_audit tenant (pv_id v) ''ACTIVATION_SUCCEEDED'' actor (with_diff (ee_stringify ee) before after) (Some before)]\<rparr>))))"

definition activate_version :: "engine_env \<Rightarrow> jstr \<Rightarrow> jstr \<Rightarrow> jstr \<Rightarrow> pack_store \<Rightarrow> (pack_error + pack_version) \<times> pack_store" where
  "activate_version ee tenant i actor st =
     (case find_version tenant i st of
        Inl e \<Rightarrow> (Inl e, st)
      | Inr v \<Rightarrow>
        if actor = pv_created_by v
        then refuse_activation tenant i ''ACTIVATION_FAILED'' actor
               [(js ''reason'', JStr (js ''SELF_ACTIVATION_FORBIDDEN'')), (js ''createdBy'', JStr (pv_created_by v))]
               (SelfActivationForbidden i) st
        else if pv_status v \<noteq> V_VALIDATED
        then refuse_activation tenant i ''ACTIVATION_FAILED'' actor
               [(js ''reason'', JStr (js ''status is '' @ version_status_str (pv_status v) @ js '', not VALIDATED''))]
               (ActivationNotEligible (js ''Rule pack version is '' @ quoted (version_status_str (pv_status v))
                  @ [cu CHR '' '', 0x2014] @ js '' only a VALIDATED version may be activated.'')) st
        else if is_ce12_pack_key (pv_key v) \<and> pv_created_by v = actor
        then refuse_activation tenant i ''ACTIVATION_REFUSED_SOD'' actor
               [(js ''reason'', JStr (js ''actor is also the version author'')), (js ''createdBy'', JStr (pv_created_by v))]
               (ActivationSoDViolation i) st
        else
          (case activate_tx ee tenant v actor st of
             Inl e \<Rightarrow> (Inl e, st)
           | Inr st1 \<Rightarrow> (case find_version tenant i st1 of Inl e \<Rightarrow> (Inl e, st1) | Inr u \<Rightarrow> (Inr u, st1))))"

definition get_rule_pack :: "jstr \<Rightarrow> jstr \<Rightarrow> jstr \<Rightarrow> pack_store \<Rightarrow> pack_error + rule_pack_row \<times> pack_version list" where
  "get_rule_pack tenant key entity st =
     (case find_pack tenant entity key st of
        None \<Rightarrow> Inl (RulePackNotFound key)
      | Some r \<Rightarrow> Inr (r, rev (filter (\<lambda>v. pv_tenant v = tenant \<and> pv_entity v = entity \<and> pv_pack v = rk_id r) (ks_versions st))))"

definition list_rule_packs :: "jstr \<Rightarrow> jstr \<Rightarrow> pack_store \<Rightarrow> (rule_pack_row \<times> pack_version list) list" where
  "list_rule_packs tenant entity st =
     (let versions = rev (filter (\<lambda>v. pv_tenant v = tenant \<and> pv_entity v = entity) (ks_versions st))
      in map (\<lambda>r. (r, filter (\<lambda>v. pv_pack v = rk_id r) versions))
           (rev (filter (\<lambda>r. rk_tenant r = tenant \<and> rk_entity r = entity) (ks_packs st))))"

end
