(* ===== verification/PostingExecution.thy ===== *)
theory PostingExecution
  imports RulePackService
begin

text \<open>
  The evidence tables of \<open>application/posting-engine-service.ts\<close> (executions, attempts, exceptions, replays) with
  the constraints of their migrations, the claim on a new event, the finalizers, the failure taxonomy, and the
  reports of \<open>posting-recovery-port.ts\<close>.
\<close>

section \<open>Rows\<close>

datatype exec_status = X_POSTED | X_NO_RULE_MATCH | X_REJECTED | X_FAILED | X_POSTING_IN_PROGRESS | X_REPLAY_IN_PROGRESS

fun exec_status_str :: "exec_status \<Rightarrow> jstr" where
  "exec_status_str X_POSTED = js ''POSTED''"
| "exec_status_str X_NO_RULE_MATCH = js ''NO_RULE_MATCH''"
| "exec_status_str X_REJECTED = js ''REJECTED''"
| "exec_status_str X_FAILED = js ''FAILED''"
| "exec_status_str X_POSTING_IN_PROGRESS = js ''POSTING_IN_PROGRESS''"
| "exec_status_str X_REPLAY_IN_PROGRESS = js ''REPLAY_IN_PROGRESS''"

record execution =
  ex_id :: jstr
  ex_tenant :: jstr
  ex_event :: jstr
  ex_event_type :: jstr
  ex_schema :: jstr
  ex_entity :: jstr
  ex_source_system :: jstr
  ex_source_type :: jstr
  ex_source_id :: jstr
  ex_correlation :: jstr
  ex_causation :: "jstr option"
  ex_business_date :: int
  ex_hash :: jstr
  ex_envelope :: source_event_envelope
  ex_status :: exec_status
  ex_version :: "jstr option"
  ex_rule :: "jstr option"
  ex_blueprint :: "jstr option"
  ex_journal :: "jstr option"
  ex_number :: "jstr option"
  ex_failure :: "jstr option"

record attempt_row =
  at_execution :: jstr
  at_tenant :: jstr
  at_number :: nat
  at_outcome :: jstr
  at_detail :: json

record exception_row =
  xc_execution :: jstr
  xc_tenant :: jstr
  xc_reason :: jstr
  xc_detail :: jstr
  xc_event_type :: jstr
  xc_schema :: jstr
  xc_considered :: json

record replay_row =
  rp_execution :: jstr
  rp_tenant :: jstr
  rp_original_version :: "jstr option"
  rp_version :: "jstr option"
  rp_original_status :: jstr
  rp_original_failure :: "jstr option"
  rp_actor :: jstr
  rp_reason :: jstr
  rp_business_date :: int
  rp_status :: jstr
  rp_journal :: "jstr option"
  rp_number :: "jstr option"

record recovery_case =
  rc_tenant :: jstr
  rc_execution :: jstr
  rc_envelope :: source_event_envelope
  rc_entity :: "jstr option"
  rc_reason :: jstr
  rc_detail :: jstr
  rc_version :: "jstr option"

record engine_store =
  es_executions :: "execution list"
  es_attempts :: "attempt_row list"
  es_exceptions :: "exception_row list"
  es_replays :: "replay_row list"
  es_reports :: "recovery_case list"
  es_audit :: "audit_event list"

record submit_result =
  sr_execution :: jstr
  sr_event :: jstr
  sr_status :: exec_status
  sr_idempotent :: bool
  sr_version :: "jstr option"
  sr_rule :: "jstr option"
  sr_journal :: "jstr option"
  sr_number :: "jstr option"
  sr_failure :: "jstr option"

text \<open>The error classes of the engine, and what it lets through: a condition that throws, a date the database refuses.\<close>

datatype engine_error =
    EventInput jstr
  | EventIdentityConflict jstr jstr
  | ReplayNotEligible jstr
  | ExecutionNotFound jstr
  | ConditionThrew condition_error
  | DateRefused

section \<open>The failure taxonomy\<close>

datatype failure_source = From_resolution | From_verification | From_accounts | From_posting | From_input | From_unexpected

text \<open>\<open>/period/i.test(message)\<close>.\<close>

definition mentions_period :: "jstr \<Rightarrow> bool" where
  "mentions_period msg = js_includes (js ''period'') (to_lower msg)"

definition classify_failure :: "failure_source \<Rightarrow> jstr \<Rightarrow> jstr" where
  "classify_failure source msg =
     (case source of
        From_accounts \<Rightarrow> js ''INVALID_ACCOUNT''
      | From_verification \<Rightarrow>
          if js_includes (js ''UNBALANCED_BLUEPRINT'') msg then js ''UNBALANCED_BLUEPRINT'' else js ''RULE_PACK_EVALUATION_ERROR''
      | From_resolution \<Rightarrow> js ''MISSING_MANDATORY_FIELD''
      | From_posting \<Rightarrow> if mentions_period msg then js ''PERIOD_CLOSED'' else js ''RULE_PACK_EVALUATION_ERROR''
      | From_input \<Rightarrow> js ''MISSING_MANDATORY_FIELD''
      | From_unexpected \<Rightarrow> js ''POSTING_ENGINE_FAILURE'')"

definition reason_code_to_recovery_category :: "jstr \<Rightarrow> jstr" where
  "reason_code_to_recovery_category code =
     (if code = js ''NO_RULE_MATCH'' then js ''RULE_NOT_FOUND''
      else if code = js ''AMBIGUOUS_RULE_PACK_MATCH'' then js ''RULE_CONFIGURATION_INVALID''
      else if code = js ''UNBALANCED_BLUEPRINT'' then js ''RULE_CONFIGURATION_INVALID''
      else if code = js ''RULE_PACK_EVALUATION_ERROR'' then js ''RULE_CONFIGURATION_INVALID''
      else if code = js ''INVALID_ACCOUNT'' then js ''ACCOUNTING_MAPPING_UNRESOLVED''
      else if code = js ''MISSING_MANDATORY_FIELD'' then js ''EVENT_CONTRACT_INVALID''
      else if code = js ''PERIOD_CLOSED'' then js ''ACCOUNTING_PERIOD_BLOCKED''
      else if code = js ''EVENT_IDENTITY_CONFLICT'' then js ''IDEMPOTENCY_CONFLICT''
      else if code = js ''POSTING_ENGINE_FAILURE'' then js ''INFRASTRUCTURE_FAILURE''
      else js ''UNKNOWN_FAILURE'')"

section \<open>Tables\<close>

definition start_of_day :: "int \<Rightarrow> int" where
  "start_of_day t = t div 86400000 * 86400000"

definition find_execution :: "jstr \<Rightarrow> jstr \<Rightarrow> engine_store \<Rightarrow> execution option" where
  "find_execution tenant event st = find_row (\<lambda>x. ex_tenant x = tenant \<and> ex_event x = event) (es_executions st)"

definition update_execution :: "jstr \<Rightarrow> (execution \<Rightarrow> execution) \<Rightarrow> engine_store \<Rightarrow> engine_store" where
  "update_execution i f st = st\<lparr>es_executions := update_rows (\<lambda>x. ex_id x = i) f (es_executions st)\<rparr>"

text \<open>The \<open>CHECK\<close> constraint \<open>posting_execution_attempt_outcome_chk\<close> of the migration.\<close>

definition attempt_outcomes :: "jstr list" where
  "attempt_outcomes = map js [''STARTED'', ''POSTED'', ''DUPLICATE'', ''NO_RULE_MATCH'', ''IDENTITY_CONFLICT'', ''REJECTED'', ''FAILED'']"

text \<open>An insert that a constraint refuses is swallowed by the \<open>catch\<close>.\<close>

definition record_attempt :: "jstr \<Rightarrow> jstr \<Rightarrow> jstr \<Rightarrow> json \<Rightarrow> engine_store \<Rightarrow> engine_store" where
  "record_attempt i tenant outcome detail st =
     (let n = length (filter (\<lambda>a. at_execution a = i) (es_attempts st)) + 1 in
      if list_ex (\<lambda>a. at_execution a = i \<and> at_number a = n) (es_attempts st) \<or> outcome \<notin> set attempt_outcomes then st
      else st\<lparr>es_attempts := es_attempts st @ [\<lparr>at_execution = i, at_tenant = tenant, at_number = n,
             at_outcome = outcome, at_detail = detail\<rparr>]\<rparr>)"

definition add_exception :: "jstr \<Rightarrow> jstr \<Rightarrow> source_event_envelope \<Rightarrow> jstr \<Rightarrow> jstr \<Rightarrow> json \<Rightarrow> engine_store \<Rightarrow> engine_store" where
  "add_exception i tenant env reason detail considered st =
     st\<lparr>es_exceptions := es_exceptions st @ [\<lparr>xc_execution = i, xc_tenant = tenant, xc_reason = reason, xc_detail = detail,
       xc_event_type = se_event_type env, xc_schema = se_event_schema_version env, xc_considered = considered\<rparr>]\<rparr>"

definition add_audit :: "jstr \<Rightarrow> jstr \<Rightarrow> string \<Rightarrow> jstr \<Rightarrow> json \<Rightarrow> engine_store \<Rightarrow> engine_store" where
  "add_audit tenant i action actor after st = st\<lparr>es_audit := es_audit st @ [engine_audit tenant i action actor after None]\<rparr>"

text \<open>\<open>reportFailure\<close> never throws: what reaches the recovery service is the report it is given.\<close>

definition report_failure :: "jstr \<Rightarrow> jstr \<Rightarrow> source_event_envelope \<Rightarrow> jstr \<Rightarrow> jstr \<Rightarrow> jstr option \<Rightarrow> engine_store \<Rightarrow> engine_store" where
  "report_failure tenant i env reason detail version st =
     st\<lparr>es_reports := es_reports st @ [\<lparr>rc_tenant = tenant, rc_execution = i, rc_envelope = env,
       rc_entity = Some (se_legal_entity_id env), rc_reason = reason, rc_detail = detail, rc_version = version\<rparr>]\<rparr>"

definition to_result :: "execution \<Rightarrow> bool \<Rightarrow> submit_result" where
  "to_result x idem = \<lparr>sr_execution = ex_id x, sr_event = ex_event x, sr_status = ex_status x, sr_idempotent = idem,
     sr_version = ex_version x, sr_rule = ex_rule x, sr_journal = ex_journal x, sr_number = ex_number x, sr_failure = ex_failure x\<rparr>"

section \<open>The claim and the create-or-reconcile insert\<close>

text \<open>The row of an event; none when its business date is not a date.\<close>

definition execution_row :: "engine_env \<Rightarrow> jstr \<Rightarrow> jstr \<Rightarrow> source_event_envelope \<Rightarrow> jstr \<Rightarrow> exec_status \<Rightarrow> jstr option \<Rightarrow> jstr option
    \<Rightarrow> jstr option \<Rightarrow> jstr option \<Rightarrow> jstr option \<Rightarrow> jstr option \<Rightarrow> execution option" where
  "execution_row ee i tenant env hash status version rule blueprint journal number failure =
     map_option (\<lambda>day. \<lparr>ex_id = i, ex_tenant = tenant, ex_event = se_event_id env, ex_event_type = se_event_type env,
        ex_schema = se_event_schema_version env, ex_entity = se_legal_entity_id env, ex_source_system = se_source_system env,
        ex_source_type = se_source_entity_type env, ex_source_id = se_source_entity_id env, ex_correlation = se_correlation_id env,
        ex_causation = se_causation_id env, ex_business_date = start_of_day day, ex_hash = hash, ex_envelope = env,
        ex_status = status, ex_version = version, ex_rule = rule, ex_blueprint = blueprint, ex_journal = journal,
        ex_number = number, ex_failure = failure\<rparr>)
       (ee_new_date ee (JStr (se_business_date env)))"

text \<open>
  An insert under \<open>UNIQUE (tenant_id, event_id)\<close>: the row inserted, or the row that holds the identity. The flag
  says which.
\<close>

definition insert_execution :: "execution \<Rightarrow> engine_store \<Rightarrow> (execution \<times> bool) \<times> engine_store" where
  "insert_execution x st =
     (case find_execution (ex_tenant x) (ex_event x) st of
        Some winner \<Rightarrow> ((winner, False), st)
      | None \<Rightarrow> ((x, True), st\<lparr>es_executions := es_executions st @ [x]\<rparr>))"

definition claim_execution :: "engine_env \<Rightarrow> jstr \<Rightarrow> jstr \<Rightarrow> source_event_envelope \<Rightarrow> jstr \<Rightarrow> engine_store
    \<Rightarrow> engine_error + (execution \<times> bool) \<times> engine_store" where
  "claim_execution ee i tenant env hash st =
     (case execution_row ee i tenant env hash X_POSTING_IN_PROGRESS None None None None None None of
        None \<Rightarrow> Inl DateRefused | Some x \<Rightarrow> Inr (insert_execution x st))"

definition create_or_reconcile :: "engine_env \<Rightarrow> jstr \<Rightarrow> jstr \<Rightarrow> source_event_envelope \<Rightarrow> jstr \<Rightarrow> exec_status \<Rightarrow> jstr option
    \<Rightarrow> jstr option \<Rightarrow> jstr option \<Rightarrow> jstr option \<Rightarrow> jstr option \<Rightarrow> jstr option \<Rightarrow> engine_store
    \<Rightarrow> engine_error + execution \<times> engine_store" where
  "create_or_reconcile ee i tenant env hash status version rule blueprint journal number failure st =
     (case execution_row ee i tenant env hash status version rule blueprint journal number failure of
        None \<Rightarrow> Inl DateRefused
      | Some x \<Rightarrow> (case insert_execution x st of ((w, _), st1) \<Rightarrow> Inr (w, st1)))"

section \<open>Finalizers\<close>

text \<open>What every finalizer does after its insert: one exception row per outcome, an attempt, an audit event, a report.\<close>

definition finalize :: "execution \<Rightarrow> exec_status \<Rightarrow> jstr \<Rightarrow> source_event_envelope \<Rightarrow> jstr \<Rightarrow> jstr \<Rightarrow> json \<Rightarrow> string \<Rightarrow> json \<Rightarrow> string \<Rightarrow> json
    \<Rightarrow> jstr option \<Rightarrow> jstr \<Rightarrow> engine_store \<Rightarrow> engine_store" where
  "finalize x status tenant env reason code considered outcome detail action after version actor st =
     (let st1 = (if ex_status x = status \<and> \<not> list_ex (\<lambda>r. xc_execution r = ex_id x) (es_exceptions st)
                 then add_exception (ex_id x) tenant env code reason considered st else st);
          st2 = record_attempt (ex_id x) tenant (js outcome) detail st1;
          st3 = add_audit tenant (ex_id x) action actor after st2
      in report_failure tenant (ex_id x) env code reason version st3)"

definition reason_json :: "source_event_envelope \<Rightarrow> jstr \<Rightarrow> jstr \<Rightarrow> json" where
  "reason_json env reason code = JObj [(js ''eventId'', JStr (se_event_id env)), (js ''reason'', JStr reason), (js ''reasonCode'', JStr code)]"

definition finalize_no_match :: "engine_env \<Rightarrow> jstr \<Rightarrow> jstr \<Rightarrow> source_event_envelope \<Rightarrow> jstr \<Rightarrow> jstr option \<Rightarrow> jstr option \<Rightarrow> json
    \<Rightarrow> jstr \<Rightarrow> jstr \<Rightarrow> engine_store \<Rightarrow> engine_error + submit_result \<times> engine_store" where
  "finalize_no_match ee i tenant env hash version rule considered reason actor st =
     bind_res (create_or_reconcile ee i tenant env hash X_NO_RULE_MATCH version rule None None None (Some reason) st) (\<lambda>(x, st1).
       Inr (to_result x False, finalize x X_NO_RULE_MATCH tenant env reason (js ''NO_RULE_MATCH'') considered
         ''NO_RULE_MATCH'' (JObj [(js ''reason'', JStr reason)]) ''NO_RULE_MATCH_RECORDED''
         (JObj [(js ''eventId'', JStr (se_event_id env)), (js ''reason'', JStr reason)]) version actor st1))"

definition finalize_rejected :: "engine_env \<Rightarrow> jstr \<Rightarrow> jstr \<Rightarrow> source_event_envelope \<Rightarrow> jstr \<Rightarrow> jstr option \<Rightarrow> jstr option \<Rightarrow> jstr option
    \<Rightarrow> jstr \<Rightarrow> jstr \<Rightarrow> jstr \<Rightarrow> engine_store \<Rightarrow> engine_error + submit_result \<times> engine_store" where
  "finalize_rejected ee i tenant env hash version rule blueprint reason code actor st =
     bind_res (create_or_reconcile ee i tenant env hash X_REJECTED version rule blueprint None None (Some reason) st) (\<lambda>(x, st1).
       Inr (to_result x False, finalize x X_REJECTED tenant env reason code (JArr []) ''REJECTED''
         (JObj [(js ''reason'', JStr reason), (js ''reasonCode'', JStr code)]) ''JOURNAL_REJECTED''
         (reason_json env reason code) version actor st1))"

definition finalize_failed :: "engine_env \<Rightarrow> jstr \<Rightarrow> jstr \<Rightarrow> source_event_envelope \<Rightarrow> jstr \<Rightarrow> jstr option \<Rightarrow> jstr option \<Rightarrow> jstr option
    \<Rightarrow> jstr \<Rightarrow> jstr \<Rightarrow> engine_store \<Rightarrow> engine_error + submit_result \<times> engine_store" where
  "finalize_failed ee i tenant env hash version rule blueprint reason actor st =
     bind_res (create_or_reconcile ee i tenant env hash X_FAILED version rule blueprint None None (Some reason) st) (\<lambda>(x, st1).
       Inr (to_result x False, finalize x X_FAILED tenant env reason (js ''POSTING_ENGINE_FAILURE'') (JArr []) ''FAILED''
         (JObj [(js ''reason'', JStr reason)]) ''JOURNAL_SUBMISSION_FAILED''
         (JObj [(js ''eventId'', JStr (se_event_id env)), (js ''reason'', JStr reason)]) version actor st1))"

definition ambiguous_reason :: "jstr list \<Rightarrow> jstr" where
  "ambiguous_reason ids = js ''Ambiguous rule-pack match: '' @ nat_str (length ids)
     @ js '' equally-specific ACTIVE versions match this event ('' @ js_join (js '', '') ids @ js '').''"

definition finalize_ambiguous :: "engine_env \<Rightarrow> jstr \<Rightarrow> jstr \<Rightarrow> source_event_envelope \<Rightarrow> jstr \<Rightarrow> json \<Rightarrow> jstr list \<Rightarrow> jstr
    \<Rightarrow> engine_store \<Rightarrow> engine_error + submit_result \<times> engine_store" where
  "finalize_ambiguous ee i tenant env hash considered ids actor st =
     bind_res (create_or_reconcile ee i tenant env hash X_REJECTED None None None None None (Some (ambiguous_reason ids)) st) (\<lambda>(x, st1).
       Inr (to_result x False, finalize x X_REJECTED tenant env (ambiguous_reason ids) (js ''AMBIGUOUS_RULE_PACK_MATCH'') considered
         ''AMBIGUOUS_RULE_PACK_MATCH'' (JObj [(js ''ambiguousVersionIds'', JArr (map JStr ids))]) ''AMBIGUOUS_RULE_PACK_MATCH_RECORDED''
         (JObj [(js ''eventId'', JStr (se_event_id env)), (js ''ambiguousVersionIds'', JArr (map JStr ids))]) None actor st1))"

section \<open>Inquiries\<close>

definition execution_by_id :: "jstr \<Rightarrow> jstr \<Rightarrow> engine_store \<Rightarrow> execution option" where
  "execution_by_id tenant i st = find_row (\<lambda>x. ex_id x = i \<and> ex_tenant x = tenant) (es_executions st)"

definition search_executions :: "jstr \<Rightarrow> jstr \<Rightarrow> jstr option \<Rightarrow> jstr option \<Rightarrow> jstr option \<Rightarrow> engine_store \<Rightarrow> execution list" where
  "search_executions tenant entity correlation source status st =
     take 100 (rev (filter (\<lambda>x. ex_tenant x = tenant \<and> ex_entity x = entity
        \<and> (given correlation \<longrightarrow> ex_correlation x = opt_str correlation)
        \<and> (given source \<longrightarrow> ex_source_id x = opt_str source)
        \<and> (given status \<longrightarrow> exec_status_str (ex_status x) = opt_str status)) (es_executions st)))"

definition resolve_version_entity :: "jstr \<Rightarrow> jstr \<Rightarrow> pack_store \<Rightarrow> jstr option" where
  "resolve_version_entity tenant i packs = map_option pv_entity (find_row (\<lambda>v. pv_id v = i \<and> pv_tenant v = tenant) (ks_versions packs))"

definition resolve_execution_entity :: "jstr \<Rightarrow> jstr \<Rightarrow> engine_store \<Rightarrow> jstr option" where
  "resolve_execution_entity tenant i st = map_option ex_entity (execution_by_id tenant i st)"

definition resolve_event_entity :: "jstr \<Rightarrow> jstr \<Rightarrow> engine_store \<Rightarrow> jstr option" where
  "resolve_event_entity tenant event st = map_option ex_entity (find_execution tenant event st)"

definition list_exceptions :: "jstr \<Rightarrow> jstr option \<Rightarrow> engine_store \<Rightarrow> exception_row list" where
  "list_exceptions tenant reason st =
     take 100 (rev (filter (\<lambda>r. xc_tenant r = tenant \<and> (given reason \<longrightarrow> xc_reason r = opt_str reason)) (es_exceptions st)))"

definition list_replays :: "jstr \<Rightarrow> jstr \<Rightarrow> engine_store \<Rightarrow> replay_row list" where
  "list_replays tenant i st = rev (filter (\<lambda>r. rp_tenant r = tenant \<and> rp_execution r = i) (es_replays st))"

section \<open>What a report sends\<close>

text \<open>The body of the request to the recovery service; \<open>now\<close> is the clock's ISO text.\<close>

definition dead_letter :: "(jstr \<Rightarrow> jstr) \<Rightarrow> (json \<Rightarrow> jstr) \<Rightarrow> jstr \<Rightarrow> recovery_case \<Rightarrow> json" where
  "dead_letter sha256 stringify now rc =
     (let env = rc_envelope rc; str = (\<lambda>k v. (js k, JStr v)) in
      JObj [(js ''envelope'', JObj
        [(js ''event'', JObj
           [str ''eventId'' (se_event_id env), str ''tenantId'' (rc_tenant rc), (js ''legalEntityId'', opt_json (rc_entity rc)),
            str ''eventType'' (se_event_type env), str ''eventSchemaVersion'' (se_event_schema_version env),
            str ''sourceSystem'' (se_source_system env), str ''sourceEntityType'' (se_source_entity_type env),
            str ''sourceEntityId'' (se_source_entity_id env), str ''sourceTransactionId'' (se_source_entity_id env),
            str ''correlationId'' (se_correlation_id env), (js ''causationId'', opt_json (se_causation_id env)),
            str ''occurredAt'' (se_occurred_at env), str ''publishedAt'' (se_published_at env),
            str ''businessDate'' (se_business_date env),
            str ''postingIdempotencyKey'' (rc_tenant rc @ js '':'' @ se_event_id env),
            (js ''payload'', se_payload env), str ''payloadHash'' (sha256 (stringify (se_payload env)))]),
         (js ''failure'', JObj
           [str ''failureCategory'' (reason_code_to_recovery_category (rc_reason rc)), str ''failureCode'' (rc_reason rc),
            str ''failureStage'' (js ''RULE_RESOLUTION''), str ''failureMessage'' (rc_detail rc), (js ''fieldErrors'', JNull),
            (js ''ruleContext'', JObj [str ''executionId'' (rc_execution rc), (js ''rulePackVersionId'', opt_json (rc_version rc))]),
            str ''occurredAt'' now])]),
        str ''actor'' (js ''coa-service'')])"

end
