(* ===== verification/PostingEngine.thy ===== *)
theory PostingEngine
  imports PostingExecution
begin

text \<open>
  The event half of \<open>application/posting-engine-service.ts\<close>: evaluation of an event against the active packs,
  submission, replay and the two dry runs. The posting bridge (\<open>GlPostingBridge\<close>) is an argument: a function of a
  request and of the state of the ledger behind it, to an error message or a result.
\<close>

section \<open>Evaluation\<close>

definition active_versions_at :: "jstr \<Rightarrow> source_event_envelope \<Rightarrow> int \<Rightarrow> pack_store \<Rightarrow> pack_version list" where
  "active_versions_at tenant env occurred packs =
     filter (\<lambda>v. pv_tenant v = tenant \<and> pv_entity v = se_legal_entity_id env \<and> pv_event_type v = se_event_type env
        \<and> pv_status v = V_ACTIVE \<and> pv_from v \<le> occurred \<and> (case pv_to v of None \<Rightarrow> True | Some t \<Rightarrow> occurred \<le> t))
       (ks_versions packs)"

definition matching_schema :: "source_event_envelope \<Rightarrow> pack_version list \<Rightarrow> pack_version list" where
  "matching_schema env = filter (\<lambda>v. se_event_schema_version env \<in> set (pv_schemas v))"

definition most_specific :: "pack_version list \<Rightarrow> pack_version list" where
  "most_specific vs = (let ranked = sort_key (\<lambda>v. - pv_from v) vs in filter (\<lambda>v. pv_from v = pv_from (List.hd ranked)) ranked)"

definition considered_json :: "pack_version list \<Rightarrow> json" where
  "considered_json vs = JArr (map (\<lambda>v. JObj [(js ''id'', JStr (pv_id v)), (js ''packKey'', JStr (pv_key v)), (js ''semver'', JStr (pv_semver v))]) vs)"

text \<open>The outcomes of an evaluation, in the order the code tests for them.\<close>

datatype evaluation =
    Ev_no_version
  | Ev_ambiguous "pack_version list"
  | Ev_no_rule pack_version
  | Ev_unresolved pack_version rule_definition jstr
  | Ev_unverified pack_version rule_definition "blueprint_violation list"
  | Ev_no_account pack_version rule_definition "blueprint_line list" jstr
  | Ev_lines pack_version rule_definition "blueprint_line list"

definition pack_definition :: "pack_version \<Rightarrow> rule_pack" where
  "pack_definition v = rule_pack_of (pv_definition v)"

definition evaluate_rule :: "source_event_envelope \<Rightarrow> pack_version \<Rightarrow> rule_definition \<Rightarrow> evaluation" where
  "evaluate_rule env v rule =
     (case generate_blueprint rule env of
        Inl e \<Rightarrow> Ev_unresolved v rule (bre_message e)
      | Inr lines \<Rightarrow>
          if verify_blueprint lines \<noteq> [] then Ev_unverified v rule (verify_blueprint lines) else Ev_lines v rule lines)"

definition evaluate_version :: "source_event_envelope \<Rightarrow> pack_version \<Rightarrow> engine_error + evaluation" where
  "evaluate_version env v =
     (case select_rule (pack_definition v) env of
        Inl e \<Rightarrow> Inl (ConditionThrew e)
      | Inr None \<Rightarrow> Inr (Ev_no_rule v)
      | Inr (Some rule) \<Rightarrow> Inr (evaluate_rule env v rule))"

definition evaluate_blueprint :: "source_event_envelope \<Rightarrow> pack_version list \<Rightarrow> engine_error + evaluation" where
  "evaluate_blueprint env vs =
     (let matching = matching_schema env vs in
      if matching = [] then Inr Ev_no_version
      else case most_specific matching of
             [v] \<Rightarrow> evaluate_version env v
           | tops \<Rightarrow> Inr (Ev_ambiguous tops))"

text \<open>The account numbers of the lines are looked up in the pack's entity; the first unknown one is reported.\<close>

definition missing_account :: "gl_account list \<Rightarrow> jstr \<Rightarrow> blueprint_line list \<Rightarrow> jstr option" where
  "missing_account accounts entity lines =
     map_option bl_account_number (find_row (\<lambda>l. find_row (\<lambda>a. ga_entity a = entity \<and> ga_number a = bl_account_number l) accounts = None) lines)"

definition check_accounts :: "gl_account list \<Rightarrow> evaluation \<Rightarrow> evaluation" where
  "check_accounts accounts ev =
     (case ev of
        Ev_lines v rule lines \<Rightarrow>
          (case missing_account accounts (pk_entity_id (pack_definition v)) lines of
             None \<Rightarrow> ev | Some n \<Rightarrow> Ev_no_account v rule lines n)
      | _ \<Rightarrow> ev)"

text \<open>\<open>occurredAt\<close> is a date bound of the query; the database client refuses an invalid one.\<close>

definition event_candidates :: "engine_env \<Rightarrow> jstr \<Rightarrow> source_event_envelope \<Rightarrow> pack_store \<Rightarrow> engine_error + pack_version list" where
  "event_candidates ee tenant env packs =
     (case ee_new_date ee (JStr (se_occurred_at env)) of None \<Rightarrow> Inl DateRefused | Some t \<Rightarrow> Inr (active_versions_at tenant env t packs))"

definition evaluate_event :: "gl_account list \<Rightarrow> source_event_envelope \<Rightarrow> pack_version list \<Rightarrow> engine_error + evaluation" where
  "evaluate_event accounts env vs = bind_res (evaluate_blueprint env vs) (\<lambda>ev. Inr (check_accounts accounts ev))"

section \<open>The bridge's request\<close>

record gl_line =
  gq_account :: jstr
  gq_debit :: jsnum
  gq_credit :: jsnum
  gq_memo :: "jstr option"
  gq_store :: "jstr option"
  gq_dept :: "jstr option"
  gq_control :: "jstr option"
  gq_apply :: "jstr option"

record gl_request =
  gq_tenant :: jstr
  gq_date :: jstr
  gq_source :: jstr
  gq_description :: jstr
  gq_source_ref :: "jstr option"
  gq_lines :: "gl_line list"
  gq_key :: "jstr option"
  gq_entity :: "jstr option"
  gq_execution :: "jstr option"
  gq_pack :: "jstr option"
  gq_pack_version :: "jstr option"
  gq_event :: "jstr option"

text \<open>\<open>gr_number\<close> is \<open>None\<close> when the answer has no \<open>journalNumber\<close>.\<close>

record gl_result =
  gr_journal :: jstr
  gr_number :: "jstr option"
  gr_status :: jstr

type_synonym 'g gl_bridge = "gl_request \<Rightarrow> 'g \<Rightarrow> (jstr + gl_result) \<times> 'g"

definition control_number_for :: "source_event_envelope \<Rightarrow> jstr option" where
  "control_number_for env =
     (let doc = js_prop (se_payload env) (js ''sourceDocId''); inv = js_prop (se_payload env) (js ''invoiceNumber'')
      in if \<not> is_nullish doc then Some (opt_string doc) else if \<not> is_nullish inv then Some (opt_string inv) else None)"

definition gl_line_of :: "source_event_envelope \<Rightarrow> blueprint_line \<Rightarrow> gl_line" where
  "gl_line_of env l = \<lparr>gq_account = bl_account_number l, gq_debit = bl_dr l, gq_credit = bl_cr l, gq_memo = bl_memo l,
     gq_store = Some (bl_store_id l), gq_dept = bl_dept_code l, gq_control = control_number_for env, gq_apply = bl_apply_number l\<rparr>"

definition dash :: jstr where
  "dash = [cu CHR '' '', 0x2014, cu CHR '' '']"

definition submit_request :: "jstr \<Rightarrow> source_event_envelope \<Rightarrow> rule_pack \<Rightarrow> jstr \<Rightarrow> blueprint_line list \<Rightarrow> gl_request" where
  "submit_request tenant env pack i lines =
     \<lparr>gq_tenant = tenant, gq_date = se_business_date env, gq_source = pk_journal_source_code pack,
      gq_description = js ''Posting engine'' @ dash @ se_event_type env @ dash @ se_source_entity_id env,
      gq_source_ref = Some (take 8 (se_source_entity_id env)), gq_lines = map (gl_line_of env) lines,
      gq_key = Some (tenant @ js '':'' @ se_event_id env), gq_entity = Some (se_legal_entity_id env), gq_execution = Some i,
      gq_pack = Some (pk_pack_key pack), gq_pack_version = Some (pk_semver pack), gq_event = Some (se_event_id env)\<rparr>"

definition replay_request :: "jstr \<Rightarrow> source_event_envelope \<Rightarrow> rule_pack \<Rightarrow> jstr \<Rightarrow> blueprint_line list \<Rightarrow> gl_request" where
  "replay_request tenant env pack version lines =
     \<lparr>gq_tenant = tenant, gq_date = se_business_date env, gq_source = pk_journal_source_code pack,
      gq_description = js ''Posting engine replay'' @ dash @ se_event_type env @ dash @ se_source_entity_id env,
      gq_source_ref = Some (take 8 (se_source_entity_id env)), gq_lines = map (gl_line_of env) lines,
      gq_key = Some (tenant @ js '':'' @ se_event_id env @ js '':replay:'' @ version), gq_entity = None, gq_execution = None,
      gq_pack = None, gq_pack_version = None, gq_event = None\<rparr>"

section \<open>Submission\<close>

definition accept_envelope :: "jstr \<Rightarrow> json \<Rightarrow> engine_error + source_event_envelope" where
  "accept_envelope tenant raw =
     (case assert_envelope_shape raw of
        Inl e \<Rightarrow> Inl (EventInput (envelope_error_message e))
      | Inr env \<Rightarrow> if se_tenant_id env \<noteq> tenant
                  then Inl (EventInput (js ''Event tenantId does not match the authenticated tenant context.''))
                  else Inr env)"

text \<open>An event that is ready to be claimed and posted.\<close>

record ticket =
  tk_tenant :: jstr
  tk_env :: source_event_envelope
  tk_hash :: jstr
  tk_pack :: rule_pack
  tk_version :: jstr
  tk_rule :: jstr
  tk_blueprint :: jstr
  tk_lines :: "blueprint_line list"

datatype prepared = Answered "engine_error + submit_result" | Ready ticket

definition again_same :: "execution \<Rightarrow> jstr \<Rightarrow> source_event_envelope \<Rightarrow> jstr \<Rightarrow> jstr \<Rightarrow> engine_store \<Rightarrow> engine_store" where
  "again_same x tenant env hash actor st =
     add_audit tenant (ex_id x) ''DUPLICATE_NOOP'' actor (JObj [(js ''eventId'', JStr (se_event_id env))])
       (record_attempt (ex_id x) tenant (js ''DUPLICATE'') (JObj [(js ''eventHash'', JStr hash)]) st)"

definition conflict_detail :: "source_event_envelope \<Rightarrow> jstr" where
  "conflict_detail env = js ''Event '' @ se_event_id env @ js '' was received again with a different content hash.''"

definition again_different :: "execution \<Rightarrow> jstr \<Rightarrow> source_event_envelope \<Rightarrow> jstr \<Rightarrow> jstr \<Rightarrow> engine_store \<Rightarrow> engine_store" where
  "again_different x tenant env hash actor st =
     report_failure tenant (ex_id x) env (js ''EVENT_IDENTITY_CONFLICT'') (conflict_detail env) (ex_version x)
       (add_audit tenant (ex_id x) ''IDENTITY_CONFLICT'' actor (JObj [(js ''eventId'', JStr (se_event_id env))])
         (add_exception (ex_id x) tenant env (js ''EVENT_IDENTITY_CONFLICT'') (conflict_detail env) (JArr [])
           (record_attempt (ex_id x) tenant (js ''IDENTITY_CONFLICT'')
             (JObj [(js ''existingHash'', JStr (ex_hash x)), (js ''newHash'', JStr hash)]) st)))"

definition verification_message :: "blueprint_violation list \<Rightarrow> jstr" where
  "verification_message vs = js ''Blueprint failed defensive verification: '' @ js_join (js ''; '') (map bv_message vs)"

definition account_message :: "jstr \<Rightarrow> jstr \<Rightarrow> string \<Rightarrow> jstr" where
  "account_message number entity tail =
     js ''Account '' @ number @ js '' could not be resolved for entity '' @ entity @ js tail"

definition no_version_message :: jstr where
  "no_version_message = js ''No active rule pack version covers this event type/schema version/date.''"

definition no_rule_message :: jstr where
  "no_rule_message = js ''An active rule pack was selected but no rule condition matched this event.''"

definition rule_hash :: "engine_env \<Rightarrow> rule_definition \<Rightarrow> blueprint_line list \<Rightarrow> jstr" where
  "rule_hash ee rule lines = hash_blueprint (ee_sha256 ee) (ru_rule_id rule) lines"

text \<open>An outcome other than lines to post is recorded by its finalizer.\<close>

definition conclude :: "engine_env \<Rightarrow> jstr \<Rightarrow> jstr \<Rightarrow> source_event_envelope \<Rightarrow> jstr \<Rightarrow> json \<Rightarrow> evaluation \<Rightarrow> jstr \<Rightarrow> engine_store
    \<Rightarrow> prepared \<times> engine_store" where
  "conclude ee i tenant env hash considered ev actor st =
     (let answer = (\<lambda>r. case r of Inl e \<Rightarrow> (Answered (Inl e), st) | Inr (res, st') \<Rightarrow> (Answered (Inr res), st')) in
      case ev of
        Ev_no_version \<Rightarrow> answer (finalize_no_match ee i tenant env hash None None considered no_version_message actor st)
      | Ev_ambiguous tops \<Rightarrow> answer (finalize_ambiguous ee i tenant env hash considered (map pv_id tops) actor st)
      | Ev_no_rule v \<Rightarrow> answer (finalize_no_match ee i tenant env hash (Some (pv_id v)) None considered no_rule_message actor st)
      | Ev_unresolved v rule msg \<Rightarrow> answer (finalize_rejected ee i tenant env hash (Some (pv_id v)) (Some (ru_rule_id rule)) None msg
          (classify_failure From_resolution msg) actor st)
      | Ev_unverified v rule vs \<Rightarrow> answer (finalize_rejected ee i tenant env hash (Some (pv_id v)) (Some (ru_rule_id rule)) None
          (verification_message vs) (classify_failure From_verification (verification_message vs)) actor st)
      | Ev_no_account v rule lines n \<Rightarrow> answer (finalize_rejected ee i tenant env hash (Some (pv_id v)) (Some (ru_rule_id rule))
          (Some (rule_hash ee rule lines)) (account_message n (pk_entity_id (pack_definition v)) '' at posting time.'')
          (classify_failure From_accounts []) actor st)
      | Ev_lines v rule lines \<Rightarrow> (Ready \<lparr>tk_tenant = tenant, tk_env = env, tk_hash = hash, tk_pack = pack_definition v,
          tk_version = pv_id v, tk_rule = ru_rule_id rule, tk_blueprint = rule_hash ee rule lines, tk_lines = lines\<rparr>, st))"

text \<open>Up to the evaluation: an event that was seen before is answered, a new one is evaluated against the active packs.\<close>

datatype received = Seen "engine_error + submit_result" | Evaluated source_event_envelope jstr json evaluation

definition receive_event :: "engine_env \<Rightarrow> pack_store \<Rightarrow> gl_account list \<Rightarrow> jstr \<Rightarrow> json \<Rightarrow> jstr \<Rightarrow> engine_store
    \<Rightarrow> received \<times> engine_store" where
  "receive_event ee packs accounts tenant raw actor st =
     (case accept_envelope tenant raw of
        Inl e \<Rightarrow> (Seen (Inl e), st)
      | Inr env \<Rightarrow>
        let hash = hash_envelope (ee_sha256 ee) env in
        case find_execution tenant (se_event_id env) st of
          Some x \<Rightarrow>
            if ex_hash x = hash then (Seen (Inr (to_result x True)), again_same x tenant env hash actor st)
            else (Seen (Inl (EventIdentityConflict (ex_id x) (se_event_id env))), again_different x tenant env hash actor st)
        | None \<Rightarrow>
            (case event_candidates ee tenant env packs of
               Inl e \<Rightarrow> (Seen (Inl e), st)
             | Inr vs \<Rightarrow>
                 (case evaluate_event accounts env vs of
                    Inl e \<Rightarrow> (Seen (Inl e), st)
                  | Inr ev \<Rightarrow> (Evaluated env hash (considered_json vs) ev, st))))"

text \<open>Everything \<open>submitEvent\<close> does before the claim.\<close>

definition prepare_submit :: "engine_env \<Rightarrow> jstr \<Rightarrow> pack_store \<Rightarrow> gl_account list \<Rightarrow> jstr \<Rightarrow> json \<Rightarrow> jstr \<Rightarrow> engine_store
    \<Rightarrow> prepared \<times> engine_store" where
  "prepare_submit ee i packs accounts tenant raw actor st =
     (case receive_event ee packs accounts tenant raw actor st of
        (Seen r, st1) \<Rightarrow> (Answered r, st1)
      | (Evaluated env hash considered ev, st1) \<Rightarrow> conclude ee i tenant env hash considered ev actor st1)"

definition reload :: "jstr \<Rightarrow> engine_store \<Rightarrow> engine_error + execution" where
  "reload i st = (case find_row (\<lambda>x. ex_id x = i) (es_executions st) of None \<Rightarrow> Inl (ExecutionNotFound i) | Some x \<Rightarrow> Inr x)"

text \<open>A field set to \<open>undefined\<close> is left as it is.\<close>

definition set_number :: "jstr option \<Rightarrow> jstr option \<Rightarrow> jstr option" where
  "set_number new old = (case new of None \<Rightarrow> old | Some n \<Rightarrow> Some n)"

definition posted_row :: "jstr \<Rightarrow> jstr \<Rightarrow> jstr \<Rightarrow> gl_result \<Rightarrow> execution \<Rightarrow> execution" where
  "posted_row version rule blueprint r x = x\<lparr>ex_status := X_POSTED, ex_version := Some version, ex_rule := Some rule,
     ex_blueprint := Some blueprint, ex_journal := Some (gr_journal r), ex_number := set_number (gr_number r) (ex_number x), ex_failure := None\<rparr>"

definition rejected_row :: "jstr \<Rightarrow> jstr \<Rightarrow> jstr \<Rightarrow> jstr \<Rightarrow> execution \<Rightarrow> execution" where
  "rejected_row version rule blueprint msg x = x\<lparr>ex_status := X_REJECTED, ex_version := Some version, ex_rule := Some rule,
     ex_blueprint := Some blueprint, ex_failure := Some msg\<rparr>"

definition number_json :: "gl_result \<Rightarrow> (jstr \<times> json) list" where
  "number_json r = (case gr_number r of None \<Rightarrow> [] | Some n \<Rightarrow> [(js ''journalNumber'', JStr n)])"

text \<open>What the winner of the claim does with the bridge's answer.\<close>

definition finish_submit :: "ticket \<Rightarrow> jstr \<Rightarrow> jstr \<Rightarrow> jstr + gl_result \<Rightarrow> engine_store \<Rightarrow> (engine_error + submit_result) \<times> engine_store" where
  "finish_submit tk i actor answer st =
     (case answer of
        Inr r \<Rightarrow>
          let st1 = update_execution i (posted_row (tk_version tk) (tk_rule tk) (tk_blueprint tk) r) st;
              st2 = record_attempt i (tk_tenant tk) (js ''POSTED'') (JObj (number_json r @ [(js ''glStatus'', JStr (gr_status r))])) st1;
              st3 = add_audit (tk_tenant tk) i ''JOURNAL_ACCEPTED'' actor (JObj ((js ''eventId'', JStr (se_event_id (tk_env tk)))
                # number_json r @ [(js ''journalEntryId'', JStr (gr_journal r))])) st2
          in (bind_res (reload i st1) (\<lambda>x. Inr (to_result x False)), st3)
      | Inl msg \<Rightarrow>
          let code = classify_failure From_posting msg;
              st1 = update_execution i (rejected_row (tk_version tk) (tk_rule tk) (tk_blueprint tk) msg) st;
              st2 = add_exception i (tk_tenant tk) (tk_env tk) code msg (JArr []) st1;
              st3 = record_attempt i (tk_tenant tk) (js ''REJECTED'') (JObj [(js ''reason'', JStr msg), (js ''reasonCode'', JStr code)]) st2;
              st4 = add_audit (tk_tenant tk) i ''JOURNAL_REJECTED'' actor (reason_json (tk_env tk) msg code) st3;
              st5 = report_failure (tk_tenant tk) i (tk_env tk) code msg (Some (tk_version tk)) st4
          in (bind_res (reload i st5) (\<lambda>x. Inr (to_result x False)), st5))"

definition evaluate_and_post :: "engine_env \<Rightarrow> jstr \<Rightarrow> 'g gl_bridge \<Rightarrow> ticket \<Rightarrow> jstr \<Rightarrow> engine_store \<Rightarrow> 'g
    \<Rightarrow> (engine_error + submit_result) \<times> engine_store \<times> 'g" where
  "evaluate_and_post ee i bridge tk actor st g =
     (case claim_execution ee i (tk_tenant tk) (tk_env tk) (tk_hash tk) st of
        Inl e \<Rightarrow> (Inl e, st, g)
      | Inr ((x, claimed), st1) \<Rightarrow>
          if \<not> claimed then (Inr (to_result x True), st1, g)
          else case bridge (submit_request (tk_tenant tk) (tk_env tk) (tk_pack tk) (ex_id x) (tk_lines tk)) g of
                 (answer, g') \<Rightarrow> (case finish_submit tk (ex_id x) actor answer st1 of (r, st2) \<Rightarrow> (r, st2, g')))"

definition submit_event :: "engine_env \<Rightarrow> jstr \<Rightarrow> pack_store \<Rightarrow> gl_account list \<Rightarrow> 'g gl_bridge \<Rightarrow> jstr \<Rightarrow> json \<Rightarrow> jstr
    \<Rightarrow> engine_store \<Rightarrow> 'g \<Rightarrow> (engine_error + submit_result) \<times> engine_store \<times> 'g" where
  "submit_event ee i packs accounts bridge tenant raw actor st g =
     (case prepare_submit ee i packs accounts tenant raw actor st of
        (Answered r, st1) \<Rightarrow> (r, st1, g)
      | (Ready tk, st1) \<Rightarrow> evaluate_and_post ee i bridge tk actor st1 g)"

section \<open>Replay\<close>

text \<open>The evidence of a replay; \<open>outcome\<close> is the bridge's result when it posted.\<close>

definition record_replay :: "engine_env \<Rightarrow> execution \<Rightarrow> jstr \<Rightarrow> jstr \<Rightarrow> exec_status \<Rightarrow> jstr option \<Rightarrow> gl_result option \<Rightarrow> engine_store
    \<Rightarrow> engine_store" where
  "record_replay ee x actor reason status version outcome st =
     (let before = JObj [(js ''status'', JStr (exec_status_str (ex_status x))), (js ''rulePackVersionId'', opt_json (ex_version x)),
            (js ''failureReason'', opt_json (ex_failure x))];
          after = [(js ''status'', JStr (exec_status_str status)), (js ''rulePackVersionId'', opt_json version)]
            @ (case outcome of None \<Rightarrow> [(js ''journalEntryId'', JNull), (js ''journalNumber'', JNull)]
               | Some r \<Rightarrow> (js ''journalEntryId'', JStr (gr_journal r)) # number_json r)
      in st\<lparr>es_replays := es_replays st @ [\<lparr>rp_execution = ex_id x, rp_tenant = ex_tenant x, rp_original_version = ex_version x,
              rp_version = version, rp_original_status = exec_status_str (ex_status x), rp_original_failure = ex_failure x,
              rp_actor = actor, rp_reason = reason, rp_business_date = ex_business_date x, rp_status = exec_status_str status,
              rp_journal = map_option gr_journal outcome, rp_number = Option.bind outcome gr_number\<rparr>],
            es_audit := es_audit st @ [engine_audit (ex_tenant x) (ex_id x) ''REPLAY_EXECUTED'' actor
              (JObj (after @ [(js ''reason'', JStr reason), (js ''fieldDiffs'', diff_fields (ee_stringify ee) before (JObj after))]))
              (Some before)]\<rparr>)"

definition read_for_replay :: "jstr \<Rightarrow> jstr \<Rightarrow> engine_store \<Rightarrow> engine_error + execution" where
  "read_for_replay tenant i st =
     (case execution_by_id tenant i st of
        None \<Rightarrow> Inl (ExecutionNotFound i)
      | Some x \<Rightarrow> if ex_status x = X_POSTED
                  then Inl (ReplayNotEligible (js ''Execution '' @ quoted i @ js '' is already POSTED'' @ dash @ js ''nothing to replay.''))
                  else Inr x)"

text \<open>The conditional update: it takes effect only while the row has the status that was read.\<close>

definition claim_replay :: "execution \<Rightarrow> engine_store \<Rightarrow> bool \<times> engine_store" where
  "claim_replay x st =
     (let mine = (\<lambda>r. ex_id r = ex_id x \<and> ex_tenant r = ex_tenant x \<and> ex_status r = ex_status x)
      in (list_ex mine (es_executions st),
          st\<lparr>es_executions := update_rows mine (\<lambda>r. r\<lparr>ex_status := X_REPLAY_IN_PROGRESS\<rparr>) (es_executions st)\<rparr>))"

definition replay_answer :: "execution \<Rightarrow> exec_status \<Rightarrow> jstr option \<Rightarrow> jstr option \<Rightarrow> gl_result option \<Rightarrow> jstr option \<Rightarrow> submit_result" where
  "replay_answer x status version rule outcome failure =
     to_result (x\<lparr>ex_status := status, ex_version := version, ex_rule := rule, ex_journal := map_option gr_journal outcome,
       ex_number := Option.bind outcome gr_number, ex_failure := failure\<rparr>) False"

definition replay_attempt :: "execution \<Rightarrow> string \<Rightarrow> json \<Rightarrow> engine_store \<Rightarrow> engine_store" where
  "replay_attempt x outcome detail st = record_attempt (ex_id x) (ex_tenant x) (js outcome) detail st"

definition replay_no_match :: "engine_env \<Rightarrow> execution \<Rightarrow> jstr option \<Rightarrow> string \<Rightarrow> jstr option \<Rightarrow> jstr \<Rightarrow> jstr \<Rightarrow> engine_store
    \<Rightarrow> submit_result \<times> engine_store" where
  "replay_no_match ee x version msg told actor reason st =
     (let st1 = update_execution (ex_id x) (\<lambda>r. r\<lparr>ex_status := X_NO_RULE_MATCH, ex_version := version, ex_failure := Some (js msg)\<rparr>) st;
          st2 = replay_attempt x ''REPLAY_NO_RULE_MATCH'' (JObj [(js ''reason'', JStr reason)]) st1
      in (replay_answer x X_NO_RULE_MATCH version None None told, record_replay ee x actor reason X_NO_RULE_MATCH version None st2))"

definition replay_reject :: "engine_env \<Rightarrow> execution \<Rightarrow> jstr \<Rightarrow> jstr \<Rightarrow> jstr option \<Rightarrow> jstr \<Rightarrow> jstr \<Rightarrow> jstr \<Rightarrow> engine_store
    \<Rightarrow> submit_result \<times> engine_store" where
  "replay_reject ee x version rule blueprint msg actor reason st =
     (let st1 = update_execution (ex_id x) (\<lambda>r. r\<lparr>ex_status := X_REJECTED, ex_version := Some version, ex_rule := Some rule,
            ex_blueprint := (case blueprint of None \<Rightarrow> ex_blueprint r | Some h \<Rightarrow> Some h), ex_failure := Some msg\<rparr>) st;
          st2 = replay_attempt x ''REPLAY_REJECTED'' (JObj [(js ''reason'', JStr msg)]) st1
      in (replay_answer x X_REJECTED (Some version) (Some rule) None (Some msg), record_replay ee x actor reason X_REJECTED (Some version) None st2))"

text \<open>
  After the claim. On an ambiguous match the shared finalizer meets the row it is replaying; \<open>spare\<close> is the
  identifier it draws for the insert that the unique index refuses.
\<close>

definition conclude_replay :: "engine_env \<Rightarrow> jstr \<Rightarrow> execution \<Rightarrow> json \<Rightarrow> evaluation \<Rightarrow> jstr \<Rightarrow> jstr \<Rightarrow> engine_store
    \<Rightarrow> prepared \<times> engine_store" where
  "conclude_replay ee spare x considered ev actor reason st =
     (let answer = (\<lambda>(r, st'). (Answered (Inr r), st')) in
      case ev of
        Ev_no_version \<Rightarrow> answer (replay_no_match ee x None
          ''No active rule pack version covers this event type/schema version/date at replay time.''
          (Some (js ''No active rule pack version covers this event type/schema version/date at replay time.'')) actor reason st)
      | Ev_ambiguous tops \<Rightarrow>
          (case finalize_ambiguous ee spare (ex_tenant x) (ex_envelope x) (ex_hash x) considered (map pv_id tops) actor st of
             Inl e \<Rightarrow> (Answered (Inl e), st)
           | Inr (_, st1) \<Rightarrow> answer (replay_answer x X_REJECTED None None None (Some (js ''Ambiguous rule-pack match at replay time.'')),
               record_replay ee x actor reason X_REJECTED None None st1))
      | Ev_no_rule v \<Rightarrow> answer (replay_no_match ee x (Some (pv_id v))
          ''An active rule pack was selected but no rule condition matched this event at replay time.'' None actor reason st)
      | Ev_unresolved v rule msg \<Rightarrow> answer (replay_reject ee x (pv_id v) (ru_rule_id rule) None msg actor reason st)
      | Ev_unverified v rule vs \<Rightarrow> answer (replay_reject ee x (pv_id v) (ru_rule_id rule) None (verification_message vs) actor reason st)
      | Ev_no_account v rule lines n \<Rightarrow> answer (replay_reject ee x (pv_id v) (ru_rule_id rule) (Some (rule_hash ee rule lines))
          (account_message n (pk_entity_id (pack_definition v)) '' at replay time.'') actor reason st)
      | Ev_lines v rule lines \<Rightarrow> (Ready \<lparr>tk_tenant = ex_tenant x, tk_env = ex_envelope x, tk_hash = ex_hash x, tk_pack = pack_definition v,
          tk_version = pv_id v, tk_rule = ru_rule_id rule, tk_blueprint = rule_hash ee rule lines, tk_lines = lines\<rparr>, st))"

definition prepare_replay :: "engine_env \<Rightarrow> jstr \<Rightarrow> pack_store \<Rightarrow> gl_account list \<Rightarrow> execution \<Rightarrow> jstr \<Rightarrow> jstr \<Rightarrow> engine_store
    \<Rightarrow> prepared \<times> engine_store" where
  "prepare_replay ee spare packs accounts x actor reason st =
     (case event_candidates ee (ex_tenant x) (ex_envelope x) packs of
        Inl e \<Rightarrow> (Answered (Inl e), st)
      | Inr vs \<Rightarrow>
          (case evaluate_event accounts (ex_envelope x) vs of
             Inl e \<Rightarrow> (Answered (Inl e), st)
           | Inr ev \<Rightarrow> conclude_replay ee spare x (considered_json vs) ev actor reason st))"

definition finish_replay :: "engine_env \<Rightarrow> ticket \<Rightarrow> execution \<Rightarrow> jstr \<Rightarrow> jstr \<Rightarrow> jstr + gl_result \<Rightarrow> engine_store
    \<Rightarrow> submit_result \<times> engine_store" where
  "finish_replay ee tk x actor reason answer st =
     (case answer of
        Inr r \<Rightarrow>
          let st1 = update_execution (ex_id x) (posted_row (tk_version tk) (tk_rule tk) (tk_blueprint tk) r) st;
              st2 = replay_attempt x ''REPLAY_POSTED'' (JObj (number_json r @ [(js ''glStatus'', JStr (gr_status r))])) st1
          in (replay_answer x X_POSTED (Some (tk_version tk)) (Some (tk_rule tk)) (Some r) None,
              record_replay ee x actor reason X_POSTED (Some (tk_version tk)) (Some r) st2)
      | Inl msg \<Rightarrow>
          let st1 = update_execution (ex_id x) (rejected_row (tk_version tk) (tk_rule tk) (tk_blueprint tk) msg) st;
              st2 = replay_attempt x ''REPLAY_REJECTED'' (JObj [(js ''reason'', JStr msg)]) st1
          in (replay_answer x X_REJECTED (Some (tk_version tk)) (Some (tk_rule tk)) None (Some msg),
              record_replay ee x actor reason X_REJECTED (Some (tk_version tk)) None st2))"

definition replay_event :: "engine_env \<Rightarrow> jstr \<Rightarrow> pack_store \<Rightarrow> gl_account list \<Rightarrow> 'g gl_bridge \<Rightarrow> jstr \<Rightarrow> jstr \<Rightarrow> jstr \<Rightarrow> jstr
    \<Rightarrow> engine_store \<Rightarrow> 'g \<Rightarrow> (engine_error + submit_result) \<times> engine_store \<times> 'g" where
  "replay_event ee spare packs accounts bridge tenant i actor reason st g =
     (case read_for_replay tenant i st of
        Inl e \<Rightarrow> (Inl e, st, g)
      | Inr x \<Rightarrow>
        (case claim_replay x st of
           (False, st1) \<Rightarrow> (bind_res (reload i st1) (\<lambda>r. Inr (to_result r True)), st1, g)
         | (True, st1) \<Rightarrow>
             (case prepare_replay ee spare packs accounts x actor reason st1 of
                (Answered r, st2) \<Rightarrow> (r, st2, g)
              | (Ready tk, st2) \<Rightarrow>
                  (case bridge (replay_request (tk_tenant tk) (tk_env tk) (tk_pack tk) (tk_version tk) (tk_lines tk)) g of
                     (answer, g') \<Rightarrow> (case finish_replay ee tk x actor reason answer st2 of (r, st3) \<Rightarrow> (Inr r, st3, g'))))))"

section \<open>Dry runs\<close>

record proposed_journal =
  pj_entity :: jstr
  pj_date :: jstr
  pj_source :: jstr
  pj_lines :: "blueprint_line list"

record simulate_result =
  sm_would_post :: bool
  sm_status :: jstr
  sm_version :: "jstr option"
  sm_rule :: "jstr option"
  sm_journal :: "proposed_journal option"
  sm_failure :: "jstr option"

definition would_not :: "string \<Rightarrow> pack_version option \<Rightarrow> rule_definition option \<Rightarrow> jstr \<Rightarrow> simulate_result" where
  "would_not status v rule msg = \<lparr>sm_would_post = False, sm_status = js status, sm_version = map_option pv_id v,
     sm_rule = map_option ru_rule_id rule, sm_journal = None, sm_failure = Some msg\<rparr>"

definition simulation_of :: "source_event_envelope \<Rightarrow> evaluation \<Rightarrow> simulate_result" where
  "simulation_of env ev =
     (case ev of
        Ev_no_version \<Rightarrow> would_not ''NO_RULE_MATCH'' None None no_version_message
      | Ev_ambiguous tops \<Rightarrow> would_not ''AMBIGUOUS_RULE_PACK_MATCH'' None None
          (nat_str (length tops) @ js '' equally-specific ACTIVE versions match this event.'')
      | Ev_no_rule v \<Rightarrow> would_not ''NO_RULE_MATCH'' (Some v) None no_rule_message
      | Ev_unresolved v rule msg \<Rightarrow> would_not ''WOULD_REJECT'' (Some v) (Some rule) msg
      | Ev_unverified v rule vs \<Rightarrow> would_not ''WOULD_REJECT'' (Some v) (Some rule) (verification_message vs)
      | Ev_no_account v rule lines n \<Rightarrow> would_not ''WOULD_REJECT'' (Some v) (Some rule)
          (account_message n (pk_entity_id (pack_definition v)) ''.'')
      | Ev_lines v rule lines \<Rightarrow> \<lparr>sm_would_post = True, sm_status = js ''WOULD_POST'', sm_version = Some (pv_id v),
          sm_rule = Some (ru_rule_id rule),
          sm_journal = Some \<lparr>pj_entity = pk_entity_id (pack_definition v), pj_date = se_business_date env,
            pj_source = pk_journal_source_code (pack_definition v), pj_lines = lines\<rparr>, sm_failure = None\<rparr>)"

definition simulate_event :: "engine_env \<Rightarrow> pack_store \<Rightarrow> gl_account list \<Rightarrow> jstr \<Rightarrow> json \<Rightarrow> jstr \<Rightarrow> engine_store
    \<Rightarrow> (engine_error + simulate_result) \<times> engine_store" where
  "simulate_event ee packs accounts tenant raw actor st =
     (case accept_envelope tenant raw of
        Inl e \<Rightarrow> (Inl e, st)
      | Inr env \<Rightarrow>
          (case event_candidates ee tenant env packs of
             Inl e \<Rightarrow> (Inl e, st)
           | Inr vs \<Rightarrow>
               (bind_res (evaluate_event accounts env vs) (\<lambda>ev. Inr (simulation_of env ev)),
                add_audit tenant (js ''simulate:'' @ se_event_id env) ''SIMULATION_RUN'' actor
                  (JObj [(js ''eventId'', JStr (se_event_id env)), (js ''entityId'', JStr (se_legal_entity_id env)),
                    (js ''eventType'', JStr (se_event_type env))]) st)))"

record blueprint_simulation =
  bs_status :: jstr
  bs_version :: "jstr option"
  bs_rule :: "jstr option"
  bs_hash :: "jstr option"
  bs_lines :: "blueprint_line list"
  bs_failure :: "jstr option"

definition no_blueprint :: "string \<Rightarrow> pack_version option \<Rightarrow> rule_definition option \<Rightarrow> jstr \<Rightarrow> blueprint_simulation" where
  "no_blueprint status v rule msg = \<lparr>bs_status = js status, bs_version = map_option pv_id v, bs_rule = map_option ru_rule_id rule,
     bs_hash = None, bs_lines = [], bs_failure = Some msg\<rparr>"

definition preview_of :: "engine_env \<Rightarrow> evaluation \<Rightarrow> blueprint_simulation" where
  "preview_of ee ev =
     (case ev of
        Ev_no_version \<Rightarrow> no_blueprint ''NO_RULE_MATCH'' None None no_version_message
      | Ev_ambiguous tops \<Rightarrow> no_blueprint ''REJECTED'' None None
          (js ''Ambiguous rule-pack match: '' @ nat_str (length tops) @ js '' equally-specific ACTIVE versions match this event.'')
      | Ev_no_rule v \<Rightarrow> no_blueprint ''NO_RULE_MATCH'' (Some v) None no_rule_message
      | Ev_unresolved v rule msg \<Rightarrow> no_blueprint ''REJECTED'' (Some v) (Some rule) msg
      | Ev_unverified v rule vs \<Rightarrow> no_blueprint ''REJECTED'' (Some v) (Some rule) (verification_message vs)
      | Ev_no_account v rule lines n \<Rightarrow> no_blueprint ''REJECTED'' (Some v) (Some rule) n
      | Ev_lines v rule lines \<Rightarrow> \<lparr>bs_status = js ''BLUEPRINT_GENERATED'', bs_version = Some (pv_id v), bs_rule = Some (ru_rule_id rule),
          bs_hash = Some (rule_hash ee rule lines), bs_lines = lines, bs_failure = None\<rparr>)"

definition simulate :: "engine_env \<Rightarrow> pack_store \<Rightarrow> jstr \<Rightarrow> json \<Rightarrow> engine_error + blueprint_simulation" where
  "simulate ee packs tenant raw =
     bind_res (accept_envelope tenant raw) (\<lambda>env.
     bind_res (event_candidates ee tenant env packs) (\<lambda>vs.
     bind_res (evaluate_blueprint env vs) (\<lambda>ev. Inr (preview_of ee ev))))"

end
