(* ===== verification/RulePackLifecycle.thy ===== *)
theory RulePackLifecycle
  imports RulePackService
begin

text \<open>
  The life of rule-pack versions under any sequence of calls: one active version per pack, activation by a
  second person after a clean validation, no effect across legal entities, and contents that never change.
\<close>

section \<open>Steps\<close>

text \<open>Calls of one deployment: they share the platform's \<open>JSON.stringify\<close>; new versions draw fresh identifiers.\<close>

inductive pack_step :: "(json \<Rightarrow> jstr) \<Rightarrow> pack_store \<Rightarrow> pack_store \<Rightarrow> bool" for sf where
  step_draft: "ee_stringify ee = sf \<Longrightarrow> ee_version_id ee \<notin> pv_id ` set (ks_versions st)
     \<Longrightarrow> create_rule_pack_version ee accounts dto st = (r, st') \<Longrightarrow> pack_step sf st st'"
| step_validate: "ee_stringify ee = sf \<Longrightarrow> validate_version ee accounts tenant i actor st = (r, st') \<Longrightarrow> pack_step sf st st'"
| step_activate: "ee_stringify ee = sf \<Longrightarrow> activate_version ee tenant i actor st = (r, st') \<Longrightarrow> pack_step sf st st'"

inductive_cases pack_stepE: "pack_step sf st st'"

definition no_packs :: pack_store where
  "no_packs = \<lparr>ks_packs = [], ks_versions = [], ks_audit = []\<rparr>"

text \<open>What a version is, whatever its status: its author, its pack and its contents.\<close>

definition content :: "pack_version \<Rightarrow> _" where
  "content v = (pv_id v, pv_tenant v, pv_entity v, pv_key v, pv_semver v, pv_created_by v, pv_definition v, pv_hash v,
     pv_event_type v, pv_schemas v, pv_from v, pv_to v, pv_source v)"

definition pack_of :: "pack_version \<Rightarrow> jstr \<times> jstr \<times> jstr" where
  "pack_of v = (pv_tenant v, pv_entity v, pv_key v)"

definition validates :: "(json \<Rightarrow> jstr) \<Rightarrow> pack_version \<Rightarrow> bool" where
  "validates sf v \<longleftrightarrow> (\<exists>date_parse look. vr_valid (validate_rule_pack_source date_parse (sf (pv_definition v)) (pv_tenant v) look))"

definition version_ok :: "(json \<Rightarrow> jstr) \<Rightarrow> pack_version \<Rightarrow> bool" where
  "version_ok sf v \<longleftrightarrow> (pv_status v \<noteq> V_DRAFT \<longrightarrow> validates sf v)
     \<and> (pv_status v = V_ACTIVE \<or> pv_status v = V_SUPERSEDED \<longrightarrow> (\<exists>a. pv_activated_by v = Some a \<and> a \<noteq> pv_created_by v))"

definition single_active :: "pack_version list \<Rightarrow> bool" where
  "single_active vs \<longleftrightarrow> (\<forall>v \<in> set vs. \<forall>w \<in> set vs.
     pv_status v = V_ACTIVE \<longrightarrow> pv_status w = V_ACTIVE \<longrightarrow> pack_of v = pack_of w \<longrightarrow> pv_id v = pv_id w)"

definition rows_inv :: "(json \<Rightarrow> jstr) \<Rightarrow> pack_version list \<Rightarrow> bool" where
  "rows_inv sf vs \<longleftrightarrow> distinct (map pv_id vs) \<and> list_all (version_ok sf) vs \<and> single_active vs"

lemma single_activeI:
  "(\<And>v w. v \<in> set vs \<Longrightarrow> w \<in> set vs \<Longrightarrow> pv_status v = V_ACTIVE \<Longrightarrow> pv_status w = V_ACTIVE \<Longrightarrow> pack_of v = pack_of w
     \<Longrightarrow> pv_id v = pv_id w) \<Longrightarrow> single_active vs"
  unfolding single_active_def by blast

lemma one_active: "rows_inv sf vs \<Longrightarrow> v \<in> set vs \<Longrightarrow> w \<in> set vs \<Longrightarrow> pv_status v = V_ACTIVE \<Longrightarrow> pv_status w = V_ACTIVE
    \<Longrightarrow> pack_of v = pack_of w \<Longrightarrow> pv_id v = pv_id w"
  unfolding rows_inv_def single_active_def by blast

lemma rows_inv_map:
  assumes "rows_inv sf vs"
    and "\<And>w. w \<in> set vs \<Longrightarrow> pv_id (g w) = pv_id w \<and> pack_of (g w) = pack_of w \<and> version_ok sf (g w)"
    and "\<And>v w. v \<in> set vs \<Longrightarrow> w \<in> set vs \<Longrightarrow> pv_status (g v) = V_ACTIVE \<Longrightarrow> pv_status (g w) = V_ACTIVE
           \<Longrightarrow> pack_of v = pack_of w \<Longrightarrow> pv_id v = pv_id w"
  shows "rows_inv sf (map g vs)"
proof -
  have ids: "map pv_id (map g vs) = map pv_id vs" using assms(2) by simp
  have "distinct (map pv_id (map g vs))" unfolding ids using assms(1) by (simp add: rows_inv_def)
  moreover have "list_all (version_ok sf) (map g vs)" using assms(2) by (simp add: list_all_iff)
  moreover have "single_active (map g vs)"
  proof (rule single_activeI)
    fix v' w' assume "v' \<in> set (map g vs)" "w' \<in> set (map g vs)" and st: "pv_status v' = V_ACTIVE" "pv_status w' = V_ACTIVE" "pack_of v' = pack_of w'"
    then obtain v w where "v \<in> set vs" "v' = g v" "w \<in> set vs" "w' = g w" by auto
    then show "pv_id v' = pv_id w'" using assms(2) [of v] assms(2) [of w] assms(3) [of v w] st by simp
  qed
  ultimately show ?thesis unfolding rows_inv_def by blast
qed

lemma rows_inv_snoc:
  assumes "rows_inv sf vs" and "pv_id v \<notin> pv_id ` set vs" and "version_ok sf v" and "pv_status v \<noteq> V_ACTIVE"
  shows "rows_inv sf (vs @ [v])"
proof -
  have "single_active (vs @ [v])"
  proof (rule single_activeI)
    fix x y assume "x \<in> set (vs @ [v])" "y \<in> set (vs @ [v])" and a: "pv_status x = V_ACTIVE" "pv_status y = V_ACTIVE" "pack_of x = pack_of y"
    then have "x \<in> set vs" "y \<in> set vs" using assms(4) by auto
    then show "pv_id x = pv_id y" using one_active [OF assms(1)] a by blast
  qed
  then show ?thesis using assms(1-3) by (simp add: rows_inv_def)
qed

lemma same_row: "rows_inv sf vs \<Longrightarrow> v \<in> set vs \<Longrightarrow> w \<in> set vs \<Longrightarrow> pv_id v = pv_id w \<Longrightarrow> v = w"
  by (auto simp: rows_inv_def distinct_map dest: inj_onD)

lemma row_ok: "rows_inv sf vs \<Longrightarrow> v \<in> set vs \<Longrightarrow> version_ok sf v"
  by (simp add: rows_inv_def list_all_iff)

section \<open>What the operations do\<close>

lemma file_draft_effect:
  assumes "file_draft ee dto key semver entity findings doc st = Inr (v, st')"
  shows "ks_versions st' = ks_versions st @ [v]" "pv_id v = ee_version_id ee" "pv_status v = V_DRAFT"
  using assms by (auto simp: file_draft_def insert_version_def draft_row_def Let_def split: if_splits option.splits)

lemma create_effect:
  assumes "create_rule_pack_version ee accounts dto st = (r, st')"
  shows "ks_versions st' = ks_versions st \<or>
    (\<exists>v. ks_versions st' = ks_versions st @ [v] \<and> pv_id v = ee_version_id ee \<and> pv_status v = V_DRAFT)"
  using assms file_draft_effect
  by (auto simp: create_rule_pack_version_def Let_def split: if_splits sum.splits)

lemma update_versions_Inr:
  "update_versions P f st = Inr st' \<Longrightarrow> st' = st\<lparr>ks_versions := update_rows P f (ks_versions st)\<rparr>"
  by (auto simp: update_versions_def split: if_splits)

lemma find_version_Inr: "find_version tenant i st = Inr v \<Longrightarrow> v \<in> set (ks_versions st) \<and> pv_id v = i \<and> pv_tenant v = tenant"
  by (auto simp: find_version_def split: option.splits dest!: find_row_Some)

lemma validate_effect:
  assumes "validate_version ee accounts tenant i actor st = (r, st')"
  shows "ks_versions st' = ks_versions st \<or>
    (\<exists>v result. find_version tenant i st = Inr v
       \<and> result = validate_rule_pack_source (ee_date_parse ee) (ee_stringify ee (pv_definition v)) tenant (account_lookup_of accounts)
       \<and> ks_versions st' = update_rows (\<lambda>w. pv_id w = i) (\<lambda>w. w\<lparr>pv_findings := vr_findings result,
            pv_validated_at := Some (ee_now ee), pv_status := validated_status (pv_status v) (vr_valid result)\<rparr>) (ks_versions st))"
  using assms by (auto simp: validate_version_def Let_def split: sum.splits dest!: update_versions_Inr)

definition supersede :: "int \<Rightarrow> pack_version \<Rightarrow> pack_version" where
  "supersede t w = w\<lparr>pv_status := V_SUPERSEDED, pv_superseded_at := Some t\<rparr>"

definition make_active :: "int \<Rightarrow> jstr \<Rightarrow> pack_version \<Rightarrow> pack_version" where
  "make_active t actor w = w\<lparr>pv_status := V_ACTIVE, pv_activated_by := Some actor, pv_activated_at := Some t\<rparr>"

lemma supersede_simps [simp]: "pv_id (supersede t w) = pv_id w" "pack_of (supersede t w) = pack_of w"
  by (simp_all add: supersede_def pack_of_def)

text \<open>The rows after an activation: one pass over the old rows.\<close>

definition activated :: "int \<Rightarrow> jstr \<Rightarrow> pack_version \<Rightarrow> pack_version \<Rightarrow> pack_version" where
  "activated t actor v w = (let w' = (if pack_of w = pack_of v \<and> pv_status w = V_ACTIVE then supersede t w else w)
     in if pv_id w = pv_id v then make_active t actor w' else w')"

lemma activate_tx_rows:
  assumes t: "activate_tx ee tenant v actor st = Inr st1" and f: "pv_tenant v = tenant"
  shows "ks_versions st1 = map (activated (ee_now ee) actor v) (ks_versions st)"
proof -
  obtain sa sb where sa: "update_versions (\<lambda>w. pv_tenant w = tenant \<and> pv_entity w = pv_entity v \<and> pv_key w = pv_key v \<and> pv_status w = V_ACTIVE)
      (\<lambda>w. w\<lparr>pv_status := V_SUPERSEDED, pv_superseded_at := Some (ee_now ee)\<rparr>) st = Inr sa"
    and sb: "update_versions (\<lambda>w. pv_id w = pv_id v)
      (\<lambda>w. w\<lparr>pv_status := V_ACTIVE, pv_activated_by := Some actor, pv_activated_at := Some (ee_now ee)\<rparr>) sa = Inr sb"
    and st1: "ks_versions st1 = ks_versions sb"
    using t by (auto simp: activate_tx_def bind_res_Inr Let_def)
  have rows: "ks_versions st1 = update_rows (\<lambda>w. pv_id w = pv_id v) (make_active (ee_now ee) actor)
      (update_rows (\<lambda>w. pack_of w = pack_of v \<and> pv_status w = V_ACTIVE) (supersede (ee_now ee)) (ks_versions st))"
    using update_versions_Inr [OF sa] update_versions_Inr [OF sb] f
    by (simp add: st1 pack_of_def supersede_def [abs_def] make_active_def [abs_def] conj_assoc)
  show ?thesis unfolding rows by (simp add: update_rows_def activated_def Let_def)
qed

lemma activate_effect:
  assumes "activate_version ee tenant i actor st = (r, st')"
  shows "ks_versions st' = ks_versions st \<or>
    (\<exists>v \<in> set (ks_versions st). pv_id v = i \<and> pv_tenant v = tenant \<and> pv_status v = V_VALIDATED \<and> actor \<noteq> pv_created_by v
       \<and> ks_versions st' = map (activated (ee_now ee) actor v) (ks_versions st))"
proof (cases "\<exists>v st1. find_version tenant i st = Inr v \<and> actor \<noteq> pv_created_by v \<and> pv_status v = V_VALIDATED
    \<and> activate_tx ee tenant v actor st = Inr st1")
  case True
  then obtain v st1 where v: "find_version tenant i st = Inr v" "actor \<noteq> pv_created_by v" "pv_status v = V_VALIDATED"
    and t: "activate_tx ee tenant v actor st = Inr st1" by blast
  note f = find_version_Inr [OF v(1)]
  have "ks_versions st' = ks_versions st1"
    using assms v t by (auto simp: activate_version_def split: sum.splits)
  also have "ks_versions st1 = map (activated (ee_now ee) actor v) (ks_versions st)"
    using activate_tx_rows [OF t] f by simp
  finally show ?thesis using f v by auto
next
  case False
  show ?thesis
  proof (cases "find_version tenant i st")
    case (Inr v)
    then have "actor = pv_created_by v \<or> pv_status v \<noteq> V_VALIDATED \<or> (\<exists>e. activate_tx ee tenant v actor st = Inl e)"
      using False by (cases "activate_tx ee tenant v actor st") auto
    then have "ks_versions st' = ks_versions st"
      using assms Inr by (auto simp: activate_version_def refuse_activation_def split: if_splits)
    then show ?thesis ..
  qed (use assms in \<open>simp add: activate_version_def\<close>)
qed

lemma activated_simps [simp]:
  "content (activated t a v w) = content w" "pv_id (activated t a v w) = pv_id w" "pack_of (activated t a v w) = pack_of w"
  "pv_status (activated t a v w) = (if pv_id w = pv_id v then V_ACTIVE
     else if pack_of w = pack_of v \<and> pv_status w = V_ACTIVE then V_SUPERSEDED else pv_status w)"
  "pv_activated_by (activated t a v w) = (if pv_id w = pv_id v then Some a else pv_activated_by w)"
  "pv_created_by (activated t a v w) = pv_created_by w" "pv_definition (activated t a v w) = pv_definition w"
  "pv_tenant (activated t a v w) = pv_tenant w"
  by (simp_all add: activated_def content_def pack_of_def supersede_def make_active_def Let_def)

lemma validate_keeps:
  assumes inv: "rows_inv (ee_stringify ee) (ks_versions st)" and step: "validate_version ee accounts tenant i actor st = (r, st')"
  shows "rows_inv (ee_stringify ee) (ks_versions st')"
  using validate_effect [OF step]
proof (elim disjE exE conjE)
  fix v :: pack_version and result :: validation_result
  let ?f = "\<lambda>w. w\<lparr>pv_findings := vr_findings result, pv_validated_at := Some (ee_now ee),
      pv_status := validated_status (pv_status v) (vr_valid result)\<rparr>"
  let ?g = "\<lambda>w. if pv_id w = i then ?f w else w"
  assume v: "find_version tenant i st = Inr v"
    and result: "result = validate_rule_pack_source (ee_date_parse ee) (ee_stringify ee (pv_definition v)) tenant (account_lookup_of accounts)"
    and rows: "ks_versions st' = update_rows (\<lambda>w. pv_id w = i) ?f (ks_versions st)"
  note f = find_version_Inr [OF v]
  have this_row: "w = v" if "w \<in> set (ks_versions st)" "pv_id w = i" for w
    by (rule same_row [OF inv that(1)]) (use f that in simp_all)
  have valid: "validates (ee_stringify ee) v" if "vr_valid result" using that f unfolding result validates_def by blast
  have ok: "version_ok (ee_stringify ee) (?f v)"
    using row_ok [OF inv, of v] f valid by (auto simp: version_ok_def validates_def validated_status_def split: if_splits)
  have "rows_inv (ee_stringify ee) (map ?g (ks_versions st))"
  proof (rule rows_inv_map [OF inv])
    fix w assume w: "w \<in> set (ks_versions st)"
    then show "pv_id (?g w) = pv_id w \<and> pack_of (?g w) = pack_of w \<and> version_ok (ee_stringify ee) (?g w)"
      using ok this_row [OF w] row_ok [OF inv w] by (cases "pv_id w = i") (auto simp: pack_of_def)
  next
    fix x y assume x: "x \<in> set (ks_versions st)" and y: "y \<in> set (ks_versions st)"
      and a: "pv_status (?g x) = V_ACTIVE" "pv_status (?g y) = V_ACTIVE" "pack_of x = pack_of y"
    have "pv_status x = V_ACTIVE" "pv_status y = V_ACTIVE"
      using a(1,2) this_row [OF x] this_row [OF y] by (auto simp: validated_status_def split: if_splits)
    then show "pv_id x = pv_id y" using one_active [OF inv x y] a(3) by blast
  qed
  then show ?thesis by (simp add: rows update_rows_def)
qed (simp add: inv)

lemma activate_keeps:
  assumes inv: "rows_inv sf (ks_versions st)" and step: "activate_version ee tenant i actor st = (r, st')"
  shows "rows_inv sf (ks_versions st')"
  using activate_effect [OF step]
proof (elim disjE bexE conjE)
  fix v
  assume v: "v \<in> set (ks_versions st)" "pv_status v = V_VALIDATED" "actor \<noteq> pv_created_by v"
    and rows: "ks_versions st' = map (activated (ee_now ee) actor v) (ks_versions st)"
  show ?thesis unfolding rows
  proof (rule rows_inv_map [OF inv])
    fix w assume w: "w \<in> set (ks_versions st)"
    have wv: "pv_id w = pv_id v \<Longrightarrow> w = v" using same_row [OF inv w v(1)] .
    have "version_ok sf (activated (ee_now ee) actor v w)"
      using row_ok [OF inv w] wv v by (auto simp: version_ok_def validates_def)
    then show "pv_id (activated (ee_now ee) actor v w) = pv_id w \<and> pack_of (activated (ee_now ee) actor v w) = pack_of w
      \<and> version_ok sf (activated (ee_now ee) actor v w)" by simp
  next
    fix x y assume x: "x \<in> set (ks_versions st)" and y: "y \<in> set (ks_versions st)"
      and a: "pv_status (activated (ee_now ee) actor v x) = V_ACTIVE" "pv_status (activated (ee_now ee) actor v y) = V_ACTIVE"
        "pack_of x = pack_of y"
    have c: "pv_id x = pv_id v \<or> pv_status x = V_ACTIVE \<and> pack_of x \<noteq> pack_of v"
      "pv_id y = pv_id v \<or> pv_status y = V_ACTIVE \<and> pack_of y \<noteq> pack_of v" using a(1,2) by (auto split: if_splits)
    have "pv_id x = pv_id v \<Longrightarrow> x = v" "pv_id y = pv_id v \<Longrightarrow> y = v" using same_row [OF inv x v(1)] same_row [OF inv y v(1)] by blast+
    then show "pv_id x = pv_id y" using c a(3) one_active [OF inv x y] by metis
  qed
qed (simp add: inv)

lemma pack_step_inv: "pack_step sf st st' \<Longrightarrow> rows_inv sf (ks_versions st) \<Longrightarrow> rows_inv sf (ks_versions st')"
proof (induction rule: pack_step.induct)
  case (step_draft ee st accounts dto r st')
  from create_effect [OF step_draft(3)] show ?case
  proof (elim disjE exE conjE)
    fix v assume v: "ks_versions st' = ks_versions st @ [v]" "pv_id v = ee_version_id ee" "pv_status v = V_DRAFT"
    then have "version_ok sf v" by (simp add: version_ok_def)
    moreover have "pv_id v \<notin> pv_id ` set (ks_versions st)" using step_draft(2) v(2) by simp
    moreover have "pv_status v \<noteq> V_ACTIVE" using v(3) by simp
    ultimately show ?thesis unfolding v(1) by (intro rows_inv_snoc [OF step_draft(4)])
  qed (use step_draft(4) in simp)
next
  case (step_validate ee accounts tenant i actor st r st')
  then show ?case using validate_keeps by blast
next
  case (step_activate ee tenant i actor st r st')
  then show ?case using activate_keeps by blast
qed

lemma pack_run_inv: "(pack_step sf)\<^sup>*\<^sup>* no_packs st \<Longrightarrow> rows_inv sf (ks_versions st)"
proof (induction rule: rtranclp_induct)
  case base
  show ?case by (simp add: rows_inv_def no_packs_def single_active_def)
next
  case (step st st')
  show ?case by (rule pack_step_inv [OF step.hyps(2) step.IH])
qed


section \<open>Properties of a run\<close>


definition status_rank :: "version_status \<Rightarrow> nat" where
  "status_rank s = (case s of V_DRAFT \<Rightarrow> 0 | V_VALIDATED \<Rightarrow> 1 | V_ACTIVE \<Rightarrow> 2 | V_SUPERSEDED \<Rightarrow> 3)"

definition continues :: "pack_version \<Rightarrow> pack_version \<Rightarrow> bool" where
  "continues v w \<longleftrightarrow> content w = content v \<and> status_rank (pv_status v) \<le> status_rank (pv_status w)"

lemma continues_refl [simp]: "continues v v"
  by (simp add: continues_def)

lemma continues_trans: "continues u v \<Longrightarrow> continues v w \<Longrightarrow> continues u w"
  by (simp add: continues_def)

lemma continues_validated:
  "continues v (v\<lparr>pv_findings := fs, pv_validated_at := t, pv_status := validated_status (pv_status v) b\<rparr>)"
  by (cases "pv_status v") (auto simp: continues_def content_def validated_status_def status_rank_def)

lemma step_continues:
  assumes "pack_step sf st st'" and "rows_inv sf (ks_versions st)" and v: "v \<in> set (ks_versions st)"
  shows "\<exists>w \<in> set (ks_versions st'). continues v w"
  using assms(1,2)
proof (cases rule: pack_step.cases)
  case (step_draft ee accounts dto r)
  from create_effect [OF step_draft(3)] have "set (ks_versions st) \<subseteq> set (ks_versions st')" by auto
  then show ?thesis using v by (intro bexI [of _ v]) auto
next
  case (step_validate ee accounts tenant i actor r)
  from validate_effect [OF step_validate(2)] show ?thesis
  proof (elim disjE exE conjE)
    fix u :: pack_version and result :: validation_result
    assume u: "find_version tenant i st = Inr u"
      and rows: "ks_versions st' = update_rows (\<lambda>w. pv_id w = i) (\<lambda>w. w\<lparr>pv_findings := vr_findings result,
            pv_validated_at := Some (ee_now ee), pv_status := validated_status (pv_status u) (vr_valid result)\<rparr>) (ks_versions st)"
    show ?thesis
    proof (cases "pv_id v = i")
      case True
      then have "v = u" using find_version_Inr [OF u] by (intro same_row [OF assms(2) v]) simp_all
      let ?f = "\<lambda>w. w\<lparr>pv_findings := vr_findings result, pv_validated_at := Some (ee_now ee),
          pv_status := validated_status (pv_status u) (vr_valid result)\<rparr>"
      have "continues v (?f v)" unfolding \<open>v = u\<close> by (rule continues_validated)
      moreover have "?f v \<in> set (ks_versions st')"
        unfolding rows update_rows_def set_map by (rule rev_image_eqI [OF v]) (simp add: True)
      ultimately show ?thesis by (rule bexI)
    next
      case False
      have "v \<in> set (ks_versions st')"
        unfolding rows update_rows_def set_map by (rule rev_image_eqI [OF v]) (simp add: False)
      then show ?thesis by (rule bexI [rotated]) simp
    qed
  qed (use v in \<open>auto intro: bexI [of _ v]\<close>)
next
  case (step_activate ee tenant i actor r)
  from activate_effect [OF step_activate(2)] show ?thesis
  proof (elim disjE bexE conjE)
    fix u assume u: "u \<in> set (ks_versions st)" "pv_status u = V_VALIDATED"
      and rows: "ks_versions st' = map (activated (ee_now ee) actor u) (ks_versions st)"
    have "pv_id v = pv_id u \<Longrightarrow> v = u" by (rule same_row [OF assms(2) v u(1)])
    then have "continues v (activated (ee_now ee) actor u v)"
      using u(2) by (auto simp: continues_def status_rank_def split: version_status.splits)
    then show ?thesis using v unfolding rows set_map by blast
  qed (use v in \<open>auto intro: bexI [of _ v]\<close>)
qed

text \<open>
  Versions are never removed, never change what they say (document, hash, event type, dates, source, pack or
  author), and their status only moves forward: draft, validated, active, superseded.
\<close>

theorem versions_keep_content:
  assumes "(pack_step sf)\<^sup>*\<^sup>* no_packs st" and "(pack_step sf)\<^sup>*\<^sup>* st st'" and "v \<in> set (ks_versions st)"
  shows "\<exists>w \<in> set (ks_versions st'). content w = content v \<and> status_rank (pv_status v) \<le> status_rank (pv_status w)"
proof -
  from assms(2) have "\<exists>w \<in> set (ks_versions st'). continues v w"
  proof (induction rule: rtranclp_induct)
    case (step y z)
    then obtain w where w: "w \<in> set (ks_versions y)" "continues v w" by blast
    have "rows_inv sf (ks_versions y)" using assms(1) step.hyps(1) by (intro pack_run_inv) (rule rtranclp_trans)
    from step_continues [OF step.hyps(2) this w(1)] w(2) show ?case using continues_trans by blast
  qed (use assms(3) in \<open>auto intro: bexI [of _ v]\<close>)
  then show ?thesis by (simp add: continues_def)
qed

text \<open>
  What an activation does, and to whom: it succeeds only for a validated version and an actor other than its
  author; then that version is active, the version of the same tenant, entity and pack that was active is
  superseded, and no other row, of another pack or another legal entity, changes.
\<close>

theorem activation_effect:
  assumes "(pack_step sf)\<^sup>*\<^sup>* no_packs st" and "activate_version ee tenant i actor st = (Inr u, st')"
  shows "\<exists>v \<in> set (ks_versions st). pv_id v = i \<and> pv_status v = V_VALIDATED \<and> actor \<noteq> pv_created_by v
    \<and> list_all2 (\<lambda>w w'. if pv_id w = i then w' = make_active (ee_now ee) actor w
         else if pack_of w = pack_of v \<and> pv_status w = V_ACTIVE then w' = supersede (ee_now ee) w else w' = w)
       (ks_versions st) (ks_versions st')"
proof -
  have inv: "rows_inv sf (ks_versions st)" using assms(1) by (rule pack_run_inv)
  obtain v where v: "find_version tenant i st = Inr v" "pv_status v = V_VALIDATED" "actor \<noteq> pv_created_by v"
    using assms(2) by (auto simp: activate_version_def refuse_activation_def split: sum.splits if_splits)
  note f = find_version_Inr [OF v(1)]
  obtain st1 where t: "activate_tx ee tenant v actor st = Inr st1" and "ks_versions st' = ks_versions st1"
    using assms(2) v by (auto simp: activate_version_def split: sum.splits)
  then have rows: "ks_versions st' = map (activated (ee_now ee) actor v) (ks_versions st)"
    using activate_tx_rows [OF t] f by simp
  have "if pv_id w = i then activated (ee_now ee) actor v w = make_active (ee_now ee) actor w
      else if pack_of w = pack_of v \<and> pv_status w = V_ACTIVE then activated (ee_now ee) actor v w = supersede (ee_now ee) w
      else activated (ee_now ee) actor v w = w" if w: "w \<in> set (ks_versions st)" for w
  proof -
    have "pv_id w = i \<Longrightarrow> w = v" using same_row [OF inv w, of v] f by simp
    then show ?thesis using v(2) f by (auto simp: activated_def)
  qed
  then show ?thesis using f v(2,3) by (intro bexI [of _ v]) (auto simp: rows list_all2_conv_all_nth)
qed

section \<open>A pack that is drafted, validated and activated\<close>

definition demo_pack_text :: string where
  \<open>demo_pack_text = ''{"dslVersion":1,"packKey":"p","semver":"1.0.0","eventType":"sale.posted.v1","supportedEventSchemaVersions":["v1"],"tenantScope":"t","entityId":"e","effectiveFrom":"2026","journalSourceCode":"GJ","matchStrategy":"FIRST_MATCH","noMatchBehavior":"NO_RULE_MATCH_EXCEPTION","rules":[{"ruleId":"r","priority":1,"description":"d","blueprint":{"postingGroups":[{"groupId":"g","baseAmountPath":"payload.amount","debitAllocations":[{"accountNumber":"1","storeId":"S","bp":1e4}],"creditAllocations":[{"accountNumber":"1","storeId":"S","bp":1e4}]}]}}]}''\<close>

definition demo_sides :: json where
  "demo_sides = JArr [JObj [(js ''accountNumber'', JStr (js ''1'')), (js ''storeId'', JStr (js ''S'')), (js ''bp'', JNum (Fin 10000))]]"

definition demo_doc_fields :: "(jstr \<times> json) list" where
  "demo_doc_fields =
     [(js ''dslVersion'', JNum (Fin 1)), (js ''packKey'', JStr (js ''p'')), (js ''semver'', JStr (js ''1.0.0'')),
      (js ''eventType'', JStr (js ''sale.posted.v1'')), (js ''supportedEventSchemaVersions'', JArr [JStr (js ''v1'')]),
      (js ''tenantScope'', JStr (js ''t'')), (js ''entityId'', JStr (js ''e'')), (js ''effectiveFrom'', JStr (js ''2026'')),
      (js ''journalSourceCode'', JStr (js ''GJ'')), (js ''matchStrategy'', JStr (js ''FIRST_MATCH'')),
      (js ''noMatchBehavior'', JStr (js ''NO_RULE_MATCH_EXCEPTION'')),
      (js ''rules'', JArr [JObj [(js ''ruleId'', JStr (js ''r'')), (js ''priority'', JNum (Fin 1)), (js ''description'', JStr (js ''d'')),
         (js ''blueprint'', JObj [(js ''postingGroups'', JArr [JObj [(js ''groupId'', JStr (js ''g'')),
            (js ''baseAmountPath'', JStr (js ''payload.amount'')), (js ''debitAllocations'', demo_sides),
            (js ''creditAllocations'', demo_sides)]])])]])]"

definition demo_pack_accounts :: "gl_account list" where
  "demo_pack_accounts = [\<lparr>ga_id = js ''a'', ga_tenant = js ''t'', ga_entity = js ''e'', ga_number = js ''1'', ga_name = js ''Cash'',
     ga_type = js ''ASSET'', ga_normal = js ''DEBIT'', ga_contra = False, ga_contra_reason = None, ga_postable = True, ga_parent = None,
     ga_parent_from = None, ga_status = js ''ACTIVE'', ga_balance = 0, ga_has_postings = False, ga_schedule = None, ga_version = 1\<rparr>]"

definition demo_engine :: engine_env where
  "demo_engine = \<lparr>ee_now = 5, ee_pack_id = js ''k'', ee_version_id = js ''v'', ee_json_parse = (\<lambda>_. JObj demo_doc_fields),
     ee_stringify = (\<lambda>_. js demo_pack_text), ee_new_date = (\<lambda>_. Some 0), ee_date_parse = (\<lambda>_. Fin 0), ee_sha256 = (\<lambda>_. [])\<rparr>"

definition demo_draft_request :: create_version_dto where
  "demo_draft_request = \<lparr>kv_tenant = js ''t'', kv_pack_key = js ''p'', kv_source_text = js demo_pack_text, kv_actor = js ''ann''\<rparr>"

lemma demo_parse: "parse_strict_json (js demo_pack_text) = Inr (JObj demo_doc_fields)"
  by code_simp

lemma demo_pack_clean: "document_findings (\<lambda>_. Fin 0) (account_lookup_of demo_pack_accounts) (js ''t'') demo_doc_fields = []"
  by code_simp

lemma demo_pack_check: "validate_rule_pack_source (\<lambda>_. Fin 0) (js demo_pack_text) (js ''t'') (account_lookup_of demo_pack_accounts)
    = \<lparr>vr_valid = True, vr_findings = [], vr_pack = Some (JObj demo_doc_fields)\<rparr>"
  by (simp add: validate_rule_pack_source_def demo_parse demo_pack_clean)

definition demo_version :: pack_version where
  "demo_version = draft_row demo_engine demo_draft_request (js ''k'') (js ''p'') (js ''1.0.0'') (js ''e'') [] (JObj demo_doc_fields)
     (1, [js ''v1''], 0, None)"

lemma demo_columns: "draft_columns demo_engine (JObj demo_doc_fields) = Some (1, [js ''v1''], 0, None)"
  by code_simp

lemma demo_names: "string_or_empty (js_prop (JObj demo_doc_fields) (js ''packKey'')) = js ''p''"
  "string_or_empty (js_prop (JObj demo_doc_fields) (js ''entityId'')) = js ''e''"
  "js_prop (JObj demo_doc_fields) (js ''semver'') = Some (JStr (js ''1.0.0''))"
  "js ''p'' \<noteq> []" "js ''e'' \<noteq> []"
  by code_simp+

lemma demo_version_fields [simp]:
  "pv_id demo_version = js ''v''" "pv_tenant demo_version = js ''t''" "pv_entity demo_version = js ''e''" "pv_key demo_version = js ''p''"
  "pv_status demo_version = V_DRAFT" "pv_created_by demo_version = js ''ann''" "pv_definition demo_version = JObj demo_doc_fields"
  "pv_findings demo_version = []" "pv_activated_by demo_version = None" "pv_activated_at demo_version = None" "pv_superseded_at demo_version = None"
  by (simp_all add: demo_version_def draft_row_def demo_engine_def demo_draft_request_def)

definition demo_validated :: pack_version where
  "demo_validated = demo_version\<lparr>pv_findings := [], pv_validated_at := Some 5, pv_status := V_VALIDATED\<rparr>"

definition demo_active :: pack_version where
  "demo_active = make_active 5 (js ''bob'') demo_validated"

lemma demo_engine_simps [simp]:
  "ee_json_parse demo_engine t = JObj demo_doc_fields" "ee_stringify demo_engine = (\<lambda>_. js demo_pack_text)"
  "ee_date_parse demo_engine = (\<lambda>_. Fin 0)" "ee_now demo_engine = 5" "ee_pack_id demo_engine = js ''k''" "ee_version_id demo_engine = js ''v''"
  "kv_source_text demo_draft_request = js demo_pack_text" "kv_tenant demo_draft_request = js ''t''" "kv_actor demo_draft_request = js ''ann''"
  by (simp_all add: demo_engine_def demo_draft_request_def)

lemma demo_file: "\<exists>st. file_draft demo_engine demo_draft_request (js ''p'') (js ''1.0.0'') (js ''e'') [] (JObj demo_doc_fields) no_packs
    = Inr (demo_version, st) \<and> ks_versions st = [demo_version]"
  by (simp add: file_draft_def demo_columns find_pack_def insert_version_def no_packs_def demo_version_def [symmetric] Let_def)

lemma demo_create: "\<exists>st. create_rule_pack_version demo_engine demo_pack_accounts demo_draft_request no_packs = (Inr demo_version, st)
    \<and> ks_versions st = [demo_version]"
  using demo_file by (auto simp: create_rule_pack_version_def demo_pack_check demo_names Let_def simp del: js_prop.simps)

lemma demo_validate:
  assumes "ks_versions st = [demo_version]"
  shows "\<exists>st'. validate_version demo_engine demo_pack_accounts (js ''t'') (js ''v'') (js ''ann'') st
      = (Inr \<lparr>vr_valid = True, vr_findings = [], vr_pack = Some (JObj demo_doc_fields)\<rparr>, st') \<and> ks_versions st' = [demo_validated]"
  using assms by (simp add: validate_version_def find_version_def demo_pack_check update_versions_def enforce_version_def
      validated_status_def demo_validated_def Let_def)

lemma demo_activate:
  assumes "ks_versions st = [demo_validated]"
  shows "\<exists>st'. activate_version demo_engine (js ''t'') (js ''v'') (js ''bob'') st = (Inr demo_active, st') \<and> ks_versions st' = [demo_active]"
proof -
  have ne: "js ''bob'' \<noteq> js ''ann''" "\<not> is_ce12_pack_key (js ''p'')" by code_simp+
  show ?thesis
    using assms ne by (simp add: activate_version_def find_version_def activate_tx_def update_versions_def enforce_version_def
      demo_validated_def demo_active_def make_active_def Let_def)
qed

lemma demo_pack_run: "\<exists>sv st. (pack_step (\<lambda>_. js demo_pack_text))\<^sup>*\<^sup>* no_packs sv \<and> ks_versions sv = [demo_validated]
    \<and> activate_version demo_engine (js ''t'') (js ''v'') (js ''bob'') sv = (Inr demo_active, st) \<and> ks_versions st = [demo_active]
    \<and> pack_step (\<lambda>_. js demo_pack_text) sv st"
proof -
  let ?step = "pack_step (\<lambda>_. js demo_pack_text)"
  obtain sd where d: "create_rule_pack_version demo_engine demo_pack_accounts demo_draft_request no_packs = (Inr demo_version, sd)"
    "ks_versions sd = [demo_version]" using demo_create by blast
  obtain sv where v: "validate_version demo_engine demo_pack_accounts (js ''t'') (js ''v'') (js ''ann'') sd
      = (Inr \<lparr>vr_valid = True, vr_findings = [], vr_pack = Some (JObj demo_doc_fields)\<rparr>, sv)" "ks_versions sv = [demo_validated]"
    using demo_validate [OF d(2)] by blast
  obtain sa where a: "activate_version demo_engine (js ''t'') (js ''v'') (js ''bob'') sv = (Inr demo_active, sa)" "ks_versions sa = [demo_active]"
    using demo_activate [OF v(2)] by blast
  have "?step no_packs sd" by (rule step_draft [OF _ _ d(1)]) (simp_all add: no_packs_def)
  moreover have "?step sd sv" by (rule step_validate [OF _ v(1)]) simp
  ultimately have "?step\<^sup>*\<^sup>* no_packs sv" by simp
  moreover have "?step sv sa" by (rule step_activate [OF _ a(1)]) simp
  ultimately show ?thesis using v(2) a by blast
qed


theorem versions_keep_content_witness:
  "\<exists>w \<in> {demo_active}. content w = content demo_validated \<and> status_rank V_VALIDATED \<le> status_rank (pv_status w)"
proof -
  obtain sv st where r: "(pack_step (\<lambda>_. js demo_pack_text))\<^sup>*\<^sup>* no_packs sv" "ks_versions sv = [demo_validated]" "ks_versions st = [demo_active]"
    "pack_step (\<lambda>_. js demo_pack_text) sv st" using demo_pack_run by blast
  have "demo_validated \<in> set (ks_versions sv)" using r(2) by simp
  from versions_keep_content [OF r(1) r_into_rtranclp [of "pack_step (\<lambda>_. js demo_pack_text)", OF r(4)] this] r(3)
  show ?thesis by (simp add: demo_validated_def)
qed

theorem activation_effect_witness:
  "make_active (ee_now demo_engine) (js ''bob'') demo_validated = demo_active \<and> js ''bob'' \<noteq> pv_created_by demo_validated"
proof -
  obtain sv st where r: "(pack_step (\<lambda>_. js demo_pack_text))\<^sup>*\<^sup>* no_packs sv" "ks_versions sv = [demo_validated]" "ks_versions st = [demo_active]"
    "activate_version demo_engine (js ''t'') (js ''v'') (js ''bob'') sv = (Inr demo_active, st)" using demo_pack_run by blast
  from activation_effect [OF r(1,4)] r(2,3) show ?thesis by (auto simp: demo_validated_def)
qed

section \<open>What an active pack posts\<close>

lemma first_match_in: "first_match env rs = Inr (Some r) \<Longrightarrow> r \<in> set rs"
  by (induction rs) (auto simp: bind_res_Inr split: if_splits)

text \<open>
  C3: an active rule pack posts balanced journals. Whatever sequence of calls built the store, when a version is
  active and its stored document reads back as it was written, then selecting a rule of it returns on every event,
  and every blueprint it generates, from base amounts of at most 2^39 cents, has as many cents of debits as of
  credits: for each group the amount the event names.
\<close>

theorem active_pack_posts_balanced:
  assumes "(pack_step sf)\<^sup>*\<^sup>* no_packs st" and "v \<in> set (ks_versions st)" and "pv_status v = V_ACTIVE"
    and "parse_strict_json (sf (pv_definition v)) = Inr (pv_definition v)"
  shows "\<exists>m. select_rule (rule_pack_of (pv_definition v)) env = Inr m
    \<and> (\<forall>rule lines. m = Some rule \<longrightarrow> generate_blueprint rule env = Inr lines \<longrightarrow>
        list_all (\<lambda>g. case resolve_base_amount_cents (pg_base_amount_path g) env of Inr b \<Rightarrow> num_le b (num_of_int (2 ^ 39)) | Inl _ \<Rightarrow> True)
          (bd_posting_groups (ru_blueprint rule)) \<longrightarrow>
        sum_list (map (side_cents Dr) lines) = sum_list (map (side_cents Cr) lines) \<and> 0 < sum_list (map (side_cents Dr) lines))"
proof -
  have "validates sf v" using row_ok [OF pack_run_inv [OF assms(1)] assms(2)] assms(3) by (simp add: version_ok_def)
  then obtain date_parse look where "vr_valid (validate_rule_pack_source date_parse (sf (pv_definition v)) (pv_tenant v) look)"
    unfolding validates_def by blast
  then obtain ps where ps: "parse_strict_json (sf (pv_definition v)) = Inr (JObj ps)" "no_errors (document_findings date_parse look (pv_tenant v) ps)"
    by (rule validated_document [OF refl])
  then have doc: "pv_definition v = JObj ps" using assms(4) by simp
  let ?pack = "rule_pack_of (JObj ps)"
  note d = clean_document [OF ps(2)]
  have rules: "r \<in> set (pk_rules ?pack) \<Longrightarrow> rule_ok look (pk_entity_id ?pack) r" for r using d(2) by (simp add: list_all_iff)
  have "\<exists>m. select_rule ?pack env = Inr m" unfolding select_rule_def
    by (rule first_match_total) (use rules rule_ok_matches in \<open>force\<close>)
  then obtain m where m: "select_rule ?pack env = Inr m" by blast
  have "sum_list (map (side_cents Dr) lines) = sum_list (map (side_cents Cr) lines) \<and> 0 < sum_list (map (side_cents Dr) lines)"
    if "m = Some rule" "generate_blueprint rule env = Inr lines" "list_all (\<lambda>g. case resolve_base_amount_cents (pg_base_amount_path g) env of
        Inr b \<Rightarrow> num_le b (num_of_int (2 ^ 39)) | Inl _ \<Rightarrow> True) (bd_posting_groups (ru_blueprint rule))" for rule lines
  proof -
    have "rule \<in> set (pk_rules ?pack)" using m that(1) by (auto simp: select_rule_def dest!: first_match_in)
    then have ok: "rule_ok look (pk_entity_id ?pack) rule" by (rule rules)
    note gen = that(2) and small = that(3)
    have b: "num_le base (num_of_int (2 ^ 39))"
      if "g \<in> set (bd_posting_groups (ru_blueprint rule))" "resolve_base_amount_cents (pg_base_amount_path g) env = Inr base" for g base
      using small that by (auto simp: list_all_iff)
    have groups: "list_all group_ok (bd_posting_groups (ru_blueprint rule))" using ok by (auto simp: rule_ok_def)
    obtain ts where ts: "list_all2 (\<lambda>g t. 0 < t \<and> resolve_base_amount_cents (pg_base_amount_path g) env = Inr (num_of_int t))
          (bd_posting_groups (ru_blueprint rule)) ts"
      "sum_list (map (side_cents Dr) lines) = sum_list ts" "sum_list (map (side_cents Cr) lines) = sum_list ts"
      using blueprint_balanced [OF gen groups] b by blast
    have "ts \<noteq> []" using ts(1) ok by (auto simp: rule_ok_def)
    moreover have "list_all (\<lambda>t. 0 < t) ts" using ts(1) by (induction rule: list_all2_induct) auto
    ultimately have "0 < sum_list ts" by (cases ts) (auto simp: list_all_iff intro!: add_pos_nonneg sum_list_nonneg)
    then show ?thesis using ts(2,3) by simp
  qed
  then show ?thesis using m unfolding doc by blast
qed

definition demo_rule_selected :: rule_definition where
  "demo_rule_selected = List.hd (pk_rules (rule_pack_of (JObj demo_doc_fields)))"

definition demo_sale :: source_event_envelope where
  "demo_sale = demo_envelope [(js ''amount'', JNum (Fin 2))]"

lemma demo_selects: "select_rule (rule_pack_of (JObj demo_doc_fields)) demo_sale = Inr (Some demo_rule_selected)"
  by code_simp

lemma demo_posts: "\<exists>lines. generate_blueprint demo_rule_selected demo_sale = Inr lines"
proof -
  have "\<not> isl (generate_blueprint demo_rule_selected demo_sale)" by code_simp
  then show ?thesis by (cases "generate_blueprint demo_rule_selected demo_sale") auto
qed

lemma demo_small: "list_all (\<lambda>g. case resolve_base_amount_cents (pg_base_amount_path g) demo_sale of
    Inr b \<Rightarrow> num_le b (num_of_int (2 ^ 39)) | Inl _ \<Rightarrow> True) (bd_posting_groups (ru_blueprint demo_rule_selected))"
  by code_simp

theorem active_pack_posts_balanced_witness:
  "\<exists>lines. generate_blueprint demo_rule_selected demo_sale = Inr lines
     \<and> sum_list (map (side_cents Dr) lines) = sum_list (map (side_cents Cr) lines) \<and> 0 < sum_list (map (side_cents Dr) lines)"
proof -
  obtain sv st where r: "(pack_step (\<lambda>_. js demo_pack_text))\<^sup>*\<^sup>* no_packs sv" "ks_versions st = [demo_active]"
    "pack_step (\<lambda>_. js demo_pack_text) sv st" using demo_pack_run by blast
  have run: "(pack_step (\<lambda>_. js demo_pack_text))\<^sup>*\<^sup>* no_packs st" using r(1,3) by simp
  have v: "demo_active \<in> set (ks_versions st)" "pv_status demo_active = V_ACTIVE" "pv_definition demo_active = JObj demo_doc_fields"
    using r(2) by (simp_all add: demo_active_def make_active_def demo_validated_def)
  obtain lines where l: "generate_blueprint demo_rule_selected demo_sale = Inr lines" using demo_posts by blast
  show ?thesis
    using active_pack_posts_balanced [OF run v(1,2), of demo_sale] v(3) demo_parse demo_selects demo_small l by auto
qed

end
