(* ===== verification/PostingSubmission.thy ===== *)
theory PostingSubmission
  imports PostingEngine RulePackLifecycle
begin

text \<open>
  Submission of one event at a time: what it leaves in the execution table, how a dry run predicts it, and that
  it is idempotent.
\<close>

section \<open>What each operation does to the execution rows\<close>

named_theorems exec_simps \<open>operations that leave the execution rows alone\<close>

lemma evidence_executions [simp, exec_simps]:
  "es_executions (record_attempt i t oc d st) = es_executions st"
  "es_executions (add_exception i t env c dt cs st) = es_executions st"
  "es_executions (add_audit t i ac a af st) = es_executions st"
  "es_executions (report_failure t i env c dt v st) = es_executions st"
  "es_executions (finalize x status t env rs c cs os d ac af v a st) = es_executions st"
  "es_executions (record_replay ee x a rs status v outcome st) = es_executions st"
  "es_executions (replay_attempt x os d st) = es_executions st"
  "es_executions (again_same x t env h a st) = es_executions st"
  "es_executions (again_different x t env h a st) = es_executions st"
  by (simp_all add: record_attempt_def add_exception_def add_audit_def report_failure_def finalize_def record_replay_def
      replay_attempt_def again_same_def again_different_def Let_def)

lemma es_executions_update [simp]:
  "es_executions (update_execution i f st) = update_rows (\<lambda>x. ex_id x = i) f (es_executions st)"
  by (simp add: update_execution_def)

lemma find_execution_cong: "es_executions st = es_executions st' \<Longrightarrow> find_execution t e st = find_execution t e st'"
  by (simp add: find_execution_def)

lemma reload_cong: "es_executions st = es_executions st' \<Longrightarrow> reload i st = reload i st'"
  by (simp add: reload_def)

lemma execution_row_Some:
  "execution_row ee i t env h s v r b j n f = Some x \<Longrightarrow>
     ex_id x = i \<and> ex_tenant x = t \<and> ex_event x = se_event_id env \<and> ex_hash x = h \<and> ex_status x = s \<and> ex_version x = v
     \<and> ex_rule x = r \<and> ex_failure x = f \<and> ex_journal x = j \<and> ex_envelope x = env"
  by (auto simp: execution_row_def)

lemma create_new:
  assumes "create_or_reconcile ee i t env h s v r b j n f st = Inr (x, st')" and "find_execution t (se_event_id env) st = None"
  shows "es_executions st' = es_executions st @ [x]" "ex_id x = i" "ex_tenant x = t" "ex_event x = se_event_id env" "ex_hash x = h"
    "ex_status x = s" "ex_version x = v" "ex_rule x = r" "ex_failure x = f"
  using assms by (auto simp: create_or_reconcile_def insert_execution_def split: option.splits dest!: execution_row_Some)

section \<open>A dry run tells what a submission does\<close>

lemma find_row_snoc_fresh: "\<not> list_ex P xs \<Longrightarrow> find_row P (xs @ [x]) = (if P x then Some x else None)"
  by (induction xs) auto

lemma claim_new:
  assumes "find_execution t (se_event_id env) st = None" and "ee_new_date ee (JStr (se_business_date env)) = Some d"
  shows "\<exists>x. claim_execution ee i t env h st = Inr ((x, True), st\<lparr>es_executions := es_executions st @ [x]\<rparr>)
    \<and> ex_id x = i \<and> ex_tenant x = t \<and> ex_event x = se_event_id env \<and> ex_hash x = h \<and> ex_status x = X_POSTING_IN_PROGRESS"
  using assms by (auto simp: claim_execution_def insert_execution_def execution_row_def)

definition answered_status :: "jstr + gl_result \<Rightarrow> exec_status" where
  "answered_status answer = (case answer of Inr _ \<Rightarrow> X_POSTED | Inl _ \<Rightarrow> X_REJECTED)"

text \<open>The row a submission leaves, and its answer.\<close>

lemma finish_submit_new:
  assumes "es_executions st = xs @ [x]" and "i \<notin> ex_id ` set xs" and "ex_id x = i"
  shows "\<exists>y st'. finish_submit tk i actor answer st = (Inr (to_result y False), st') \<and> es_executions st' = xs @ [y]
    \<and> ex_id y = i \<and> ex_tenant y = ex_tenant x \<and> ex_event y = ex_event x \<and> ex_hash y = ex_hash x
    \<and> ex_status y = answered_status answer \<and> ex_version y = Some (tk_version tk) \<and> ex_rule y = Some (tk_rule tk)"
proof -
  have xs: "update_rows (\<lambda>r. ex_id r = i) f xs = xs" for f
    using assms(2) unfolding update_rows_def by (intro map_idI) (auto simp: rev_image_eqI)
  have "\<not> list_ex (\<lambda>r. ex_id r = i) xs" using assms(2) by (auto simp: list_ex_iff)
  then have f: "find_row (\<lambda>r. ex_id r = i) (xs @ [y]) = Some y" if "ex_id y = i" for y :: execution
    using find_row_snoc_fresh [of "\<lambda>r. ex_id r = i" xs y] that by simp
  show ?thesis
  proof (cases answer)
    case (Inl msg)
    show ?thesis using assms(1,3) f [of "rejected_row (tk_version tk) (tk_rule tk) (tk_blueprint tk) msg x"]
      by (simp add: finish_submit_def Inl Let_def reload_def xs rejected_row_def answered_status_def)
  next
    case (Inr r)
    show ?thesis using assms(1,3) f [of "posted_row (tk_version tk) (tk_rule tk) (tk_blueprint tk) r x"]
      by (simp add: finish_submit_def Inr Let_def reload_def xs posted_row_def answered_status_def)
  qed
qed

section \<open>A dry run tells what a submission does\<close>

definition ev_status :: "evaluation \<Rightarrow> exec_status" where
  "ev_status ev = (case ev of Ev_no_version \<Rightarrow> X_NO_RULE_MATCH | Ev_no_rule v \<Rightarrow> X_NO_RULE_MATCH | _ \<Rightarrow> X_REJECTED)"

lemma conclude_recorded:
  assumes "find_execution tenant (se_event_id env) st = None" and "ee_new_date ee (JStr (se_business_date env)) = Some d"
    and "\<nexists>v rule lines. ev = Ev_lines v rule lines"
  shows "\<exists>x st'. conclude ee i tenant env hash cs ev actor st = (Answered (Inr (to_result x False)), st')
    \<and> es_executions st' = es_executions st @ [x] \<and> ex_id x = i \<and> ex_tenant x = tenant \<and> ex_event x = se_event_id env \<and> ex_hash x = hash
    \<and> ex_status x = ev_status ev \<and> ex_version x = sm_version (simulation_of env ev) \<and> ex_rule x = sm_rule (simulation_of env ev)"
  using assms
  by (cases ev) (auto simp: conclude_def finalize_no_match_def finalize_rejected_def finalize_ambiguous_def create_or_reconcile_def
      insert_execution_def execution_row_def simulation_of_def would_not_def ev_status_def Let_def)

lemma evaluate_and_post_new:
  assumes "find_execution (tk_tenant tk) (se_event_id (tk_env tk)) st = None" and "ee_new_date ee (JStr (se_business_date (tk_env tk))) = Some d"
    and "i \<notin> ex_id ` set (es_executions st)"
    and "bridge (submit_request (tk_tenant tk) (tk_env tk) (tk_pack tk) i (tk_lines tk)) g = (answer, g')"
  shows "\<exists>y st'. evaluate_and_post ee i bridge tk actor st g = (Inr (to_result y False), st', g')
    \<and> es_executions st' = es_executions st @ [y] \<and> ex_id y = i \<and> ex_tenant y = tk_tenant tk \<and> ex_event y = se_event_id (tk_env tk)
    \<and> ex_hash y = tk_hash tk \<and> ex_status y = answered_status answer \<and> ex_version y = Some (tk_version tk) \<and> ex_rule y = Some (tk_rule tk)"
proof -
  obtain x where x: "claim_execution ee i (tk_tenant tk) (tk_env tk) (tk_hash tk) st = Inr ((x, True), st\<lparr>es_executions := es_executions st @ [x]\<rparr>)"
    "ex_id x = i" "ex_tenant x = tk_tenant tk" "ex_event x = se_event_id (tk_env tk)" "ex_hash x = tk_hash tk"
    using claim_new [OF assms(1,2)] by blast
  obtain y st' where y: "finish_submit tk i actor answer (st\<lparr>es_executions := es_executions st @ [x]\<rparr>) = (Inr (to_result y False), st')"
    "es_executions st' = es_executions st @ [y]" "ex_id y = i" "ex_tenant y = ex_tenant x" "ex_event y = ex_event x" "ex_hash y = ex_hash x"
    "ex_status y = answered_status answer" "ex_version y = Some (tk_version tk)" "ex_rule y = Some (tk_rule tk)"
    using finish_submit_new [of "st\<lparr>es_executions := es_executions st @ [x]\<rparr>" "es_executions st" x i tk actor answer] assms(3) x(2) by auto
  show ?thesis using x y assms(4) by (intro exI [of _ y] exI [of _ st']) (simp add: evaluate_and_post_def)
qed

lemma receive_new:
  assumes "accept_envelope tenant raw = Inr env" and "find_execution tenant (se_event_id env) st = None"
    and "event_candidates ee tenant env packs = Inr vs" and "evaluate_event accounts env vs = Inr ev"
  shows "receive_event ee packs accounts tenant raw actor st = (Evaluated env (hash_envelope (ee_sha256 ee) env) (considered_json vs) ev, st)"
  using assms by (simp add: receive_event_def Let_def)

text \<open>
  C14: the dry run predicts the submission. For a new event, what \<open>simulateEvent\<close> answers is what \<open>submitEvent\<close>
  then does: a proposed journal is exactly what goes over the bridge, once, under the announced rule and version,
  and the event is posted if the ledger accepts it; without one nothing goes over the bridge and the event is
  recorded as unmatched or rejected, with the same rule and version.
\<close>

theorem dry_run_predicts_submission:
  assumes "accept_envelope tenant raw = Inr env" and "find_execution tenant (se_event_id env) st = None"
    and "i \<notin> ex_id ` set (es_executions st)" and "ee_new_date ee (JStr (se_business_date env)) = Some day"
    and "simulate_event ee packs accounts tenant raw watcher st = (Inr s, st1)"
  shows "case sm_journal s of
      None \<Rightarrow> \<not> sm_would_post s \<and> (\<exists>r st2. submit_event ee i packs accounts bridge tenant raw actor st g = (Inr r, st2, g)
        \<and> sr_status r = (if sm_status s = js ''NO_RULE_MATCH'' then X_NO_RULE_MATCH else X_REJECTED)
        \<and> sr_version r = sm_version s \<and> sr_rule r = sm_rule s)
    | Some j \<Rightarrow> sm_would_post s \<and> (\<exists>rq answer g' r st2. bridge rq g = (answer, g')
        \<and> submit_event ee i packs accounts bridge tenant raw actor st g = (Inr r, st2, g')
        \<and> gq_lines rq = map (gl_line_of env) (pj_lines j) \<and> gq_date rq = pj_date j \<and> gq_source rq = pj_source j
        \<and> sr_status r = (case answer of Inr _ \<Rightarrow> X_POSTED | Inl _ \<Rightarrow> X_REJECTED)
        \<and> sr_version r = sm_version s \<and> sr_rule r = sm_rule s)"
proof -
  obtain vs ev where vs: "event_candidates ee tenant env packs = Inr vs" and ev: "evaluate_event accounts env vs = Inr ev"
    and s: "s = simulation_of env ev"
    using assms(5) by (auto simp: simulate_event_def assms(1) bind_res_Inr split: sum.splits)
  note recv = receive_new [OF assms(1,2) vs ev]
  let ?hash = "hash_envelope (ee_sha256 ee) env"
  show ?thesis
  proof (cases "\<exists>v rule lines. ev = Ev_lines v rule lines")
    case True
    then obtain v rule lines where l: "ev = Ev_lines v rule lines" by blast
    let ?tk = "\<lparr>tk_tenant = tenant, tk_env = env, tk_hash = ?hash, tk_pack = pack_definition v, tk_version = pv_id v,
       tk_rule = ru_rule_id rule, tk_blueprint = rule_hash ee rule lines, tk_lines = lines\<rparr>"
    let ?rq = "submit_request tenant env (pack_definition v) i lines"
    obtain answer g' where b: "bridge ?rq g = (answer, g')" by fastforce
    have "submit_event ee i packs accounts bridge tenant raw actor st g = evaluate_and_post ee i bridge ?tk actor st g"
      by (simp add: submit_event_def prepare_submit_def recv conclude_def l Let_def)
    moreover obtain y st' where "evaluate_and_post ee i bridge ?tk actor st g = (Inr (to_result y False), st', g')"
      "ex_status y = answered_status answer" "ex_version y = Some (pv_id v)" "ex_rule y = Some (ru_rule_id rule)"
      using evaluate_and_post_new [of ?tk st ee day i bridge g answer g' actor] assms(2-4) b by auto
    ultimately show ?thesis using b
      by (auto simp: s l simulation_of_def submit_request_def to_result_def answered_status_def split: sum.splits
          intro!: exI [of _ ?rq] exI [of _ answer])
  next
    case False
    then obtain x st' where "conclude ee i tenant env ?hash (considered_json vs) ev actor st = (Answered (Inr (to_result x False)), st')"
      "ex_status x = ev_status ev" "ex_version x = sm_version s" "ex_rule x = sm_rule s"
      using conclude_recorded [OF assms(2,4), of ev] s by blast
    then have sub: "submit_event ee i packs accounts bridge tenant raw actor st g = (Inr (to_result x False), st', g)"
      and "sr_status (to_result x False) = ev_status ev" "sr_version (to_result x False) = sm_version s" "sr_rule (to_result x False) = sm_rule s"
      by (simp_all add: submit_event_def prepare_submit_def recv to_result_def)
    moreover have "sm_journal s = None" "\<not> sm_would_post s"
      and "ev_status ev = (if sm_status s = js ''NO_RULE_MATCH'' then X_NO_RULE_MATCH else X_REJECTED)"
      using False by (cases ev; simp add: s simulation_of_def would_not_def ev_status_def js_def)+
    ultimately show ?thesis by simp
  qed
qed

lemma find_execution_snoc:
  assumes "find_execution t e st = None" and "es_executions st' = es_executions st @ [x]" and "ex_tenant x = t" and "ex_event x = e"
  shows "find_execution t e st' = Some x"
  using assms by (simp add: find_execution_def)

text \<open>
  Submission is idempotent. However the packs, the accounts and the ledger change in between, submitting an
  event again gives the answer of the first submission, marked idempotent, and nothing goes over the bridge.
\<close>

theorem resubmission_is_answered:
  assumes "submit_event ee i packs accounts bridge tenant raw actor st g = (Inr r, st1, g1)"
    and "i \<notin> ex_id ` set (es_executions st)" and "ee_sha256 ee' = ee_sha256 ee"
  shows "\<exists>st2. submit_event ee' i' packs' accounts' bridge' tenant raw actor' st1 g2 = (Inr (r\<lparr>sr_idempotent := True\<rparr>), st2, g2)"
proof -
  obtain env where env: "accept_envelope tenant raw = Inr env"
    using assms(1) by (auto simp: submit_event_def prepare_submit_def receive_event_def split: sum.splits)
  let ?hash = "hash_envelope (ee_sha256 ee) env"
  have "\<exists>x b. find_execution tenant (se_event_id env) st1 = Some x \<and> ex_hash x = ?hash \<and> r = to_result x b"
  proof (cases "find_execution tenant (se_event_id env) st")
    case (Some x)
    then have "ex_hash x = ?hash" "r = to_result x True" "st1 = again_same x tenant env ?hash actor st"
      using assms(1) by (auto simp: submit_event_def prepare_submit_def receive_event_def env Let_def split: if_splits)
    then show ?thesis using Some find_execution_cong [of "again_same x tenant env ?hash actor st" st] by auto
  next
    case None
    obtain vs ev where vs: "event_candidates ee tenant env packs = Inr vs" and ev: "evaluate_event accounts env vs = Inr ev"
      using assms(1) None by (auto simp: submit_event_def prepare_submit_def receive_event_def env Let_def split: sum.splits)
    note recv = receive_new [OF env None vs ev]
    obtain x where x: "es_executions st1 = es_executions st @ [x]" "ex_tenant x = tenant" "ex_event x = se_event_id env" "ex_hash x = ?hash"
      "r = to_result x False"
    proof (cases "\<exists>v rule lines. ev = Ev_lines v rule lines")
      case True
      then obtain v rule lines where l: "ev = Ev_lines v rule lines" by blast
      let ?tk = "\<lparr>tk_tenant = tenant, tk_env = env, tk_hash = ?hash, tk_pack = pack_definition v, tk_version = pv_id v,
         tk_rule = ru_rule_id rule, tk_blueprint = rule_hash ee rule lines, tk_lines = lines\<rparr>"
      have sub: "evaluate_and_post ee i bridge ?tk actor st g = (Inr r, st1, g1)"
        using assms(1) by (simp add: submit_event_def prepare_submit_def recv conclude_def l Let_def)
      then obtain day where day: "ee_new_date ee (JStr (se_business_date env)) = Some day"
        by (auto simp: evaluate_and_post_def claim_execution_def execution_row_def split: option.splits sum.splits)
      obtain answer g' where "bridge (submit_request tenant env (pack_definition v) i lines) g = (answer, g')" by fastforce
      then show ?thesis using that sub evaluate_and_post_new [of ?tk st ee day i bridge g answer g' actor] None day assms(2) by auto
    next
      case False
      have sub: "\<exists>p. conclude ee i tenant env ?hash (considered_json vs) ev actor st = (p, st1) \<and> p = Answered (Inr r)"
        using assms(1) False by (cases ev) (auto simp: submit_event_def prepare_submit_def recv conclude_def Let_def split: sum.splits)
      then obtain day where day: "ee_new_date ee (JStr (se_business_date env)) = Some day"
        using False by (cases ev) (auto simp: conclude_def finalize_no_match_def finalize_rejected_def finalize_ambiguous_def
            create_or_reconcile_def execution_row_def bind_res_Inr Let_def split: sum.splits option.splits)
      show ?thesis using that sub conclude_recorded [OF None day False, of i "?hash" "considered_json vs" actor] by auto
    qed
    then show ?thesis using find_execution_snoc [OF None x(1-3)] by auto
  qed
  then obtain x b where x: "find_execution tenant (se_event_id env) st1 = Some x" "ex_hash x = ?hash" "r = to_result x b" by blast
  then have "r\<lparr>sr_idempotent := True\<rparr> = to_result x True" by (simp add: to_result_def)
  then show ?thesis using x by (simp add: submit_event_def prepare_submit_def receive_event_def env assms(3) Let_def)
qed

section \<open>An event posted through the active demo pack\<close>

definition demo_event :: source_event_envelope where
  "demo_event = \<lparr>se_event_id = js ''E'', se_tenant_id = js ''t'', se_legal_entity_id = js ''e'', se_event_type = js ''sale.posted.v1'',
     se_event_schema_version = js ''v1'', se_occurred_at = js ''2026'', se_published_at = js ''2026'', se_source_system = js ''dms'',
     se_source_entity_type = js ''deal'', se_source_entity_id = js ''D'', se_correlation_id = js ''c'', se_causation_id = None,
     se_business_date = js ''2026'', se_payload = JObj [(js ''amount'', JNum (Fin 2))], se_metadata = JNull\<rparr>"

definition demo_event_text :: json where
  "demo_event_text = envelope_json demo_event"

definition demo_packs :: pack_store where
  "demo_packs = \<lparr>ks_packs = [], ks_versions = [demo_active], ks_audit = []\<rparr>"

definition no_executions :: engine_store where
  "no_executions = \<lparr>es_executions = [], es_attempts = [], es_exceptions = [], es_replays = [], es_reports = [], es_audit = []\<rparr>"

text \<open>A bridge that accepts every request and keeps what it was sent.\<close>

definition keeping_bridge :: "gl_request list gl_bridge" where
  "keeping_bridge rq sent = (Inr \<lparr>gr_journal = js ''J'', gr_number = None, gr_status = js ''PENDING_REVIEW''\<rparr>, sent @ [rq])"

lemma demo_accepted: "accept_envelope (js ''t'') demo_event_text = Inr demo_event"
  by code_simp

lemma demo_active_fields [simp]:
  "pv_tenant demo_active = js ''t''" "pv_entity demo_active = js ''e''" "pv_status demo_active = V_ACTIVE" "pv_definition demo_active = JObj demo_doc_fields"
  "pv_from demo_active = 0" "pv_to demo_active = None" "pv_schemas demo_active = [js ''v1'']"
  by (simp_all add: demo_active_def make_active_def demo_validated_def) (simp_all add: demo_version_def draft_row_def)

lemma demo_event_type: "pv_event_type demo_active = js ''sale.posted.v1''"
  by (simp add: demo_active_def make_active_def demo_validated_def demo_version_def draft_row_def) code_simp

lemma demo_candidates: "event_candidates demo_engine (js ''t'') demo_event demo_packs = Inr [demo_active]"
  by (simp add: event_candidates_def active_versions_at_def demo_packs_def demo_event_type demo_event_def demo_engine_def)

lemma demo_rule_selected: "select_rule (rule_pack_of (JObj demo_doc_fields)) demo_event = Inr (Some demo_rule_selected)"
  by code_simp

lemma demo_lines: "\<exists>lines. generate_blueprint demo_rule_selected demo_event = Inr lines \<and> verify_blueprint lines = []
    \<and> missing_account demo_pack_accounts (js ''e'') lines = None \<and> length lines = 2"
proof -
  have "case generate_blueprint demo_rule_selected demo_event of Inl _ \<Rightarrow> False
      | Inr lines \<Rightarrow> verify_blueprint lines = [] \<and> missing_account demo_pack_accounts (js ''e'') lines = None \<and> length lines = 2" by code_simp
  then show ?thesis by (auto split: sum.splits)
qed

lemma demo_pack_entity: "pk_entity_id (rule_pack_of (JObj demo_doc_fields)) = js ''e''"
  by code_simp

lemma demo_evaluated: "\<exists>lines. evaluate_event demo_pack_accounts demo_event [demo_active] = Inr (Ev_lines demo_active demo_rule_selected lines) \<and> length lines = 2"
proof -
  obtain lines where l: "generate_blueprint demo_rule_selected demo_event = Inr lines" "verify_blueprint lines = []"
    "missing_account demo_pack_accounts (js ''e'') lines = None" "length lines = 2" using demo_lines by blast
  have "matching_schema demo_event [demo_active] = [demo_active]" by (simp add: matching_schema_def demo_event_def)
  then show ?thesis using l demo_rule_selected
    by (simp add: evaluate_event_def evaluate_blueprint_def most_specific_def evaluate_version_def evaluate_rule_def check_accounts_def
        pack_definition_def demo_pack_entity Let_def)
qed

lemma demo_simulated: "\<exists>s st j. simulate_event demo_engine demo_packs demo_pack_accounts (js ''t'') demo_event_text (js ''w'') no_executions = (Inr s, st)
    \<and> sm_journal s = Some j \<and> length (pj_lines j) = 2"
  using demo_evaluated by (auto simp: simulate_event_def demo_accepted demo_candidates simulation_of_def)

theorem dry_run_predicts_submission_witness:
  "\<exists>rq r st. submit_event demo_engine (js ''x'') demo_packs demo_pack_accounts keeping_bridge (js ''t'') demo_event_text (js ''u'') no_executions []
      = (Inr r, st, [rq]) \<and> length (gq_lines rq) = 2 \<and> sr_status r = X_POSTED"
proof -
  obtain s st j where s: "simulate_event demo_engine demo_packs demo_pack_accounts (js ''t'') demo_event_text (js ''w'') no_executions = (Inr s, st)"
    "sm_journal s = Some j" "length (pj_lines j) = 2" using demo_simulated by blast
  have n: "find_execution (js ''t'') (se_event_id demo_event) no_executions = None" by (simp add: find_execution_def no_executions_def)
  have "ee_new_date demo_engine (JStr (se_business_date demo_event)) = Some 0" by (simp add: demo_engine_def)
  from dry_run_predicts_submission [OF demo_accepted n _ this s(1), of "js ''x''" keeping_bridge "js ''u''" "[]"] s(2,3)
  show ?thesis by (auto simp: no_executions_def keeping_bridge_def)
qed

lemma demo_submitted: "\<exists>rq r st. submit_event demo_engine (js ''x'') demo_packs demo_pack_accounts keeping_bridge (js ''t'') demo_event_text (js ''u'')
      no_executions [] = (Inr r, st, [rq]) \<and> sr_status r = X_POSTED"
proof -
  obtain lines where l: "evaluate_event demo_pack_accounts demo_event [demo_active] = Inr (Ev_lines demo_active demo_rule_selected lines)"
    using demo_evaluated by blast
  have n: "find_execution (js ''t'') (se_event_id demo_event) no_executions = None" by (simp add: find_execution_def no_executions_def)
  have d: "ee_new_date demo_engine (JStr (se_business_date demo_event)) = Some 0" by (simp add: demo_engine_def)
  let ?tk = "\<lparr>tk_tenant = js ''t'', tk_env = demo_event, tk_hash = hash_envelope (ee_sha256 demo_engine) demo_event, tk_pack = pack_definition demo_active,
     tk_version = pv_id demo_active, tk_rule = ru_rule_id demo_rule_selected, tk_blueprint = rule_hash demo_engine demo_rule_selected lines, tk_lines = lines\<rparr>"
  have "submit_event demo_engine (js ''x'') demo_packs demo_pack_accounts keeping_bridge (js ''t'') demo_event_text (js ''u'') no_executions []
      = evaluate_and_post demo_engine (js ''x'') keeping_bridge ?tk (js ''u'') no_executions []"
    by (simp add: submit_event_def prepare_submit_def receive_new [OF demo_accepted n demo_candidates l] conclude_def Let_def)
  then show ?thesis
    using evaluate_and_post_new [of ?tk no_executions demo_engine 0 "js ''x''" keeping_bridge "[]" _ _ "js ''u''"] n d
    by (auto simp: keeping_bridge_def no_executions_def to_result_def answered_status_def)
qed

theorem resubmission_is_answered_witness:
  "\<exists>r st1 st2 rq. submit_event demo_engine (js ''x'') demo_packs demo_pack_accounts keeping_bridge (js ''t'') demo_event_text (js ''u'') no_executions []
      = (Inr r, st1, [rq]) \<and> sr_status r = X_POSTED
    \<and> submit_event demo_engine (js ''y'') no_packs [] keeping_bridge (js ''t'') demo_event_text (js ''u'') st1 [rq]
      = (Inr (r\<lparr>sr_idempotent := True\<rparr>), st2, [rq])"
proof -
  obtain rq r st1 where s: "submit_event demo_engine (js ''x'') demo_packs demo_pack_accounts keeping_bridge (js ''t'') demo_event_text (js ''u'')
      no_executions [] = (Inr r, st1, [rq])" "sr_status r = X_POSTED" using demo_submitted by blast
  have "js ''x'' \<notin> ex_id ` set (es_executions no_executions)" by (simp add: no_executions_def)
  from resubmission_is_answered [OF s(1) this refl, of "js ''y''" no_packs "[]" keeping_bridge "js ''u''" "[rq]"] s
  show ?thesis by blast
qed

end
