(* ===== verification/PostingRuns.thy ===== *)
theory PostingRuns
  imports PostingSubmission
begin

text \<open>
  Concurrent requests to the posting engine, as interleaved steps: each database statement that decides (the
  look-up, the claim, the conditional update, the final update) and each bridge call is a step of its own. A request
  may stop between any two of its steps, as when the process dies. The rows an outcome adds besides its execution row
  only record it and go with the step that decides it. The ledger behind the bridge may answer anything.
\<close>

section \<open>Steps\<close>

datatype flight =
    Fl_evaluated jstr source_event_envelope jstr json evaluation
  | Fl_ready ticket
  | Fl_claimed ticket jstr
  | Fl_answered ticket jstr "jstr + gl_result"
  | Fl_read execution
  | Fl_won execution
  | Fl_replay_ready execution ticket
  | Fl_replay_answered execution ticket "jstr + gl_result"

type_synonym gl_call = "gl_request \<times> (jstr + gl_result)"
type_synonym engine_world = "engine_store \<times> flight multiset \<times> gl_call list"

definition ticket_request :: "ticket \<Rightarrow> jstr \<Rightarrow> gl_request" where
  "ticket_request tk i = submit_request (tk_tenant tk) (tk_env tk) (tk_pack tk) i (tk_lines tk)"

definition ticket_replay :: "ticket \<Rightarrow> gl_request" where
  "ticket_replay tk = replay_request (tk_tenant tk) (tk_env tk) (tk_pack tk) (tk_version tk) (tk_lines tk)"

definition fresh_execution :: "jstr \<Rightarrow> engine_store \<Rightarrow> bool" where
  "fresh_execution i st \<longleftrightarrow> i \<notin> ex_id ` set (es_executions st)"

inductive engine_step :: "engine_world \<Rightarrow> engine_world \<Rightarrow> bool" where
  es_seen: "receive_event ee packs accounts tenant raw actor st = (Seen r, st') \<Longrightarrow> engine_step (st, F, L) (st', F, L)"
| es_receive: "receive_event ee packs accounts tenant raw actor st = (Evaluated env hash cs ev, st')
    \<Longrightarrow> engine_step (st, F, L) (st', add_mset (Fl_evaluated tenant env hash cs ev) F, L)"
| es_conclude: "fresh_execution i st \<Longrightarrow> conclude ee i tenant env hash cs ev actor st = (Answered r, st')
    \<Longrightarrow> engine_step (st, add_mset (Fl_evaluated tenant env hash cs ev) F, L) (st', F, L)"
| es_ready: "conclude ee i tenant env hash cs ev actor st = (Ready tk, st')
    \<Longrightarrow> engine_step (st, add_mset (Fl_evaluated tenant env hash cs ev) F, L) (st', add_mset (Fl_ready tk) F, L)"
| es_claim: "fresh_execution i st \<Longrightarrow> claim_execution ee i (tk_tenant tk) (tk_env tk) (tk_hash tk) st = Inr ((x, True), st')
    \<Longrightarrow> engine_step (st, add_mset (Fl_ready tk) F, L) (st', add_mset (Fl_claimed tk (ex_id x)) F, L)"
| es_lose: "claim_execution ee i (tk_tenant tk) (tk_env tk) (tk_hash tk) st = Inr ((x, False), st')
    \<Longrightarrow> engine_step (st, add_mset (Fl_ready tk) F, L) (st', F, L)"
| es_post: "engine_step (st, add_mset (Fl_claimed tk i) F, L)
      (st, add_mset (Fl_answered tk i answer) F, L @ [(ticket_request tk i, answer)])"
| es_finish: "finish_submit tk i actor answer st = (r, st')
    \<Longrightarrow> engine_step (st, add_mset (Fl_answered tk i answer) F, L) (st', F, L)"
| es_read: "read_for_replay tenant i st = Inr x \<Longrightarrow> engine_step (st, F, L) (st, add_mset (Fl_read x) F, L)"
| es_win: "claim_replay x st = (True, st') \<Longrightarrow> engine_step (st, add_mset (Fl_read x) F, L) (st', add_mset (Fl_won x) F, L)"
| es_miss: "claim_replay x st = (False, st') \<Longrightarrow> engine_step (st, add_mset (Fl_read x) F, L) (st', F, L)"
| es_replayed: "fresh_execution i st \<Longrightarrow> prepare_replay ee i packs accounts x actor reason st = (Answered r, st')
    \<Longrightarrow> engine_step (st, add_mset (Fl_won x) F, L) (st', F, L)"
| es_replay_ready: "prepare_replay ee i packs accounts x actor reason st = (Ready tk, st')
    \<Longrightarrow> engine_step (st, add_mset (Fl_won x) F, L) (st', add_mset (Fl_replay_ready x tk) F, L)"
| es_replay_post: "engine_step (st, add_mset (Fl_replay_ready x tk) F, L)
      (st, add_mset (Fl_replay_answered x tk answer) F, L @ [(ticket_replay tk, answer)])"
| es_replay_finish: "finish_replay ee tk x actor reason answer st = (r, st')
    \<Longrightarrow> engine_step (st, add_mset (Fl_replay_answered x tk answer) F, L) (st', F, L)"

definition engine_start :: engine_world where
  "engine_start = (no_executions, {#}, [])"

section \<open>What the steps keep\<close>

text \<open>The identity of a row: its identifier, its tenant and its event.\<close>

definition row_key :: "execution \<Rightarrow> jstr \<times> jstr \<times> jstr" where
  "row_key x = (ex_id x, ex_tenant x, ex_event x)"

definition row_keys :: "engine_store \<Rightarrow> (jstr \<times> jstr \<times> jstr) list" where
  "row_keys st = map row_key (es_executions st)"

lemma row_keys_update [simp]: "(\<And>x. row_key (f x) = row_key x) \<Longrightarrow> row_keys (update_execution i f st) = row_keys st"
  by (simp add: row_keys_def map_update_rows del: map_map)

lemma row_keys_evidence [simp]:
  "row_keys (record_attempt i t oc d st) = row_keys st" "row_keys (add_exception i t env c dt cs st) = row_keys st"
  "row_keys (add_audit t i ac a af st) = row_keys st" "row_keys (report_failure t i env c dt v st) = row_keys st"
  "row_keys (finalize x status t env rs c cs os d ac af v a st) = row_keys st"
  "row_keys (record_replay ee x a rs status v outcome st) = row_keys st" "row_keys (replay_attempt x os d st) = row_keys st"
  "row_keys (again_same x t env h a st) = row_keys st" "row_keys (again_different x t env h a st) = row_keys st"
  by (simp_all add: row_keys_def)

lemma row_key_simps [simp]:
  "row_key (posted_row v r b res x) = row_key x" "row_key (rejected_row v r b m x) = row_key x"
  "row_key (x\<lparr>ex_status := s\<rparr>) = row_key x"
  by (simp_all add: row_key_def posted_row_def rejected_row_def)

text \<open>An insert adds at most one row, and only for an event that has none.\<close>

definition grows :: "engine_store \<Rightarrow> engine_store \<Rightarrow> bool" where
  "grows st st' \<longleftrightarrow> row_keys st' = row_keys st \<or>
     (\<exists>k. row_keys st' = row_keys st @ [k] \<and> fst k \<notin> fst ` set (row_keys st) \<and> snd k \<notin> snd ` set (row_keys st))"

lemma grows_refl [simp]: "grows st st" "row_keys st' = row_keys st \<Longrightarrow> grows st st'"
  by (simp_all add: grows_def)

lemma find_execution_None: "find_execution t e st = None \<Longrightarrow> (t, e) \<notin> snd ` set (row_keys st)"
  by (auto simp: find_execution_def find_row_None row_keys_def row_key_def)

lemma insert_grows:
  assumes "insert_execution x st = (w, st')" and "fresh_execution (ex_id x) st"
  shows "grows st st'"
proof (cases "find_execution (ex_tenant x) (ex_event x) st")
  case None
  then have "row_keys st' = row_keys st @ [row_key x]" using assms(1) by (auto simp: insert_execution_def row_keys_def)
  moreover have "fst (row_key x) \<notin> fst ` set (row_keys st)" using assms(2) by (auto simp: fresh_execution_def row_keys_def row_key_def)
  ultimately show ?thesis using find_execution_None [OF None] by (auto simp: grows_def row_key_def)
qed (use assms(1) in \<open>auto simp: insert_execution_def\<close>)

lemma create_grows:
  "create_or_reconcile ee i t env h s v r b j n f st = Inr (x, st') \<Longrightarrow> fresh_execution i st \<Longrightarrow> grows st st'"
  by (auto simp: create_or_reconcile_def split: option.splits prod.splits dest!: execution_row_Some intro: insert_grows)

lemma grows_evidence: "grows st st1 \<Longrightarrow> row_keys st2 = row_keys st1 \<Longrightarrow> grows st st2"
  by (simp add: grows_def)

lemma finalize_grows:
  assumes "fresh_execution i st"
  shows "finalize_no_match ee i t env h v r cs rs a st = Inr (res, st') \<Longrightarrow> grows st st'"
    "finalize_rejected ee i t env h v r b rs c a st = Inr (res, st') \<Longrightarrow> grows st st'"
    "finalize_ambiguous ee i t env h cs ids a st = Inr (res, st') \<Longrightarrow> grows st st'"
  by (auto simp: finalize_no_match_def finalize_rejected_def finalize_ambiguous_def bind_res_Inr
      intro: grows_evidence [OF create_grows [OF _ assms]])

lemma conclude_grows: "conclude ee i t env h cs ev a st = (p, st') \<Longrightarrow> fresh_execution i st \<or> (\<exists>tk. p = Ready tk) \<Longrightarrow> grows st st'"
  by (cases ev) (auto simp: conclude_def Let_def split: sum.splits intro: finalize_grows)

lemma receive_keys: "receive_event ee packs accounts t raw a st = (p, st') \<Longrightarrow> row_keys st' = row_keys st"
  by (auto simp: receive_event_def Let_def split: sum.splits option.splits if_splits)

lemma finish_submit_keys: "finish_submit tk i a answer st = (r, st') \<Longrightarrow> row_keys st' = row_keys st"
  by (auto simp: finish_submit_def Let_def split: sum.splits)

lemma finish_replay_keys: "finish_replay ee tk x a rs answer st = (r, st') \<Longrightarrow> row_keys st' = row_keys st"
  by (auto simp: finish_replay_def Let_def split: sum.splits)

lemma claim_replay_keys: "claim_replay x st = (b, st') \<Longrightarrow> row_keys st' = row_keys st"
  by (auto simp: claim_replay_def Let_def row_keys_def map_update_rows simp del: map_map)

lemma replay_outcome_keys:
  "replay_no_match ee x v m told a rs st = (r, st') \<Longrightarrow> row_keys st' = row_keys st"
  "replay_reject ee x v' rl b msg a rs st = (r, st') \<Longrightarrow> row_keys st' = row_keys st"
  by (auto simp: replay_no_match_def replay_reject_def Let_def row_key_def)

lemma prepare_replay_grows:
  "prepare_replay ee i packs accounts x a rs st = (p, st') \<Longrightarrow> fresh_execution i st \<or> (\<exists>tk. p = Ready tk) \<Longrightarrow> grows st st'"
  by (auto simp: prepare_replay_def conclude_replay_def Let_def split: sum.splits evaluation.splits prod.splits
      intro: grows_evidence [OF finalize_grows(3)] dest: replay_outcome_keys)


section \<open>One submission per event\<close>

text \<open>The claims held by the requests under way and the claims spent on calls.\<close>

fun fl_claim :: "flight \<Rightarrow> (jstr \<times> jstr \<times> jstr) multiset" where
  "fl_claim (Fl_claimed tk i) = {#(i, tk_tenant tk, se_event_id (tk_env tk))#}"
| "fl_claim _ = {#}"

definition call_claim :: "gl_call \<Rightarrow> (jstr \<times> jstr \<times> jstr) multiset" where
  "call_claim c = (case gq_event (fst c) of None \<Rightarrow> {#} | Some e \<Rightarrow> {#(the (gq_execution (fst c)), gq_tenant (fst c), e)#})"

definition claims :: "flight multiset \<Rightarrow> gl_call list \<Rightarrow> (jstr \<times> jstr \<times> jstr) multiset" where
  "claims F L = (\<Sum>f \<in># F. fl_claim f) + (\<Sum>c \<in># mset L. call_claim c)"

lemma claims_simps [simp]:
  "claims (add_mset f F) L = fl_claim f + claims F L"
  "claims F (L @ [c]) = call_claim c + claims F L"
  "claims {#} [] = {#}"
  by (simp_all add: claims_def ac_simps)

lemma call_claim_simps [simp]:
  "call_claim (ticket_request tk i, a) = {#(i, tk_tenant tk, se_event_id (tk_env tk))#}"
  "call_claim (ticket_replay tk, a) = {#}"
  by (simp_all add: call_claim_def ticket_request_def submit_request_def ticket_replay_def replay_request_def)

lemma claim_won:
  assumes "claim_execution ee i t env h st = Inr ((x, True), st')" and "fresh_execution i st"
  shows "row_keys st' = row_keys st @ [(ex_id x, t, se_event_id env)]" "grows st st'"
proof -
  obtain w where w: "execution_row ee i t env h X_POSTING_IN_PROGRESS None None None None None None = Some w" "insert_execution w st = ((x, True), st')"
    using assms(1) by (auto simp: claim_execution_def split: option.splits)
  note r = execution_row_Some [OF w(1)]
  show "row_keys st' = row_keys st @ [(ex_id x, t, se_event_id env)]"
    using w(2) r by (auto simp: insert_execution_def row_keys_def row_key_def split: option.splits)
  show "grows st st'" using insert_grows [OF w(2)] assms(2) r by simp
qed

lemma claim_lost: "claim_execution ee i t env h st = Inr ((x, False), st') \<Longrightarrow> st' = st"
  by (auto simp: claim_execution_def insert_execution_def split: option.splits)

lemma engine_step_claims:
  assumes "engine_step (st, F, L) (st', F', L')"
  shows "grows st st' \<and> (claims F' L' = claims F L \<or>
     (\<exists>k. claims F' L' = add_mset k (claims F L) \<and> row_keys st' = row_keys st @ [k]))"
  using assms
proof (cases rule: engine_step.cases)
  case (es_claim i ee tk x)
  then show ?thesis using claim_won [OF es_claim(5,4)] by auto
qed (auto dest: receive_keys finish_submit_keys finish_replay_keys claim_replay_keys claim_lost intro: conclude_grows prepare_replay_grows)

definition keys_inv :: "engine_world \<Rightarrow> bool" where
  "keys_inv w = (case w of (st, F, L) \<Rightarrow> distinct (map fst (row_keys st)) \<and> distinct (map snd (row_keys st))
     \<and> claims F L \<subseteq># mset (row_keys st))"

lemma grows_distinct: "grows st st' \<Longrightarrow> distinct (map fst (row_keys st)) \<Longrightarrow> distinct (map snd (row_keys st))
    \<Longrightarrow> distinct (map fst (row_keys st')) \<and> distinct (map snd (row_keys st'))"
  by (auto simp: grows_def)

lemma grows_mset: "grows st st' \<Longrightarrow> mset (row_keys st) \<subseteq># mset (row_keys st')"
  by (auto simp: grows_def)

lemma keys_inv_step: "engine_step w w' \<Longrightarrow> keys_inv w \<Longrightarrow> keys_inv w'"
proof -
  assume step: "engine_step w w'" and inv: "keys_inv w"
  obtain st F L st' F' L' where w: "w = (st, F, L)" "w' = (st', F', L')" by (cases w, cases w')
  note s = engine_step_claims [OF step [unfolded w]]
  have "claims F' L' \<subseteq># mset (row_keys st')"
    using s inv by (auto simp: keys_inv_def w dest: grows_mset intro: subset_mset.order_trans)
  then show ?thesis using s grows_distinct inv by (auto simp: keys_inv_def w)
qed

lemma keys_inv_run: "engine_step\<^sup>*\<^sup>* engine_start w \<Longrightarrow> keys_inv w"
proof (induction rule: rtranclp_induct)
  case base
  show ?case by (simp add: keys_inv_def engine_start_def no_executions_def row_keys_def)
next
  case (step w w')
  then show ?case using keys_inv_step by blast
qed

lemma calls_counted: "length (filter (\<lambda>c. gq_tenant (fst c) = t \<and> gq_event (fst c) = Some e) L)
    = count (image_mset snd (\<Sum>c \<in># mset L. call_claim c)) (t, e)"
  by (induction L) (auto simp: call_claim_def split: option.splits)



section \<open>A posted execution has its journal\<close>

definition call_for :: "gl_call list \<Rightarrow> execution \<Rightarrow> bool" where
  "call_for L x \<longleftrightarrow> (\<exists>rq r. (rq, Inr r) \<in> set L \<and> ex_journal x = Some (gr_journal r) \<and> gq_tenant rq = ex_tenant x
     \<and> (gq_event rq = Some (ex_event x) \<and> gq_execution rq = Some (ex_id x)
        \<or> gq_key rq = Some (ex_tenant x @ js '':'' @ ex_event x @ js '':replay:'' @ opt_str (ex_version x))))"

definition env_ok :: "execution \<Rightarrow> bool" where
  "env_ok x \<longleftrightarrow> ex_event x = se_event_id (ex_envelope x)"

definition row_posted_ok :: "gl_call list \<Rightarrow> execution \<Rightarrow> bool" where
  "row_posted_ok L x \<longleftrightarrow> env_ok x \<and> (ex_status x = X_POSTED \<longrightarrow> call_for L x)"

definition ticket_of :: "ticket \<Rightarrow> execution \<Rightarrow> bool" where
  "ticket_of tk x \<longleftrightarrow> tk_tenant tk = ex_tenant x \<and> se_event_id (tk_env tk) = ex_event x"

fun flight_ok :: "engine_store \<Rightarrow> gl_call list \<Rightarrow> flight \<Rightarrow> bool" where
  "flight_ok st L (Fl_claimed tk i) = ((i, tk_tenant tk, se_event_id (tk_env tk)) \<in> set (row_keys st))"
| "flight_ok st L (Fl_answered tk i a) = ((i, tk_tenant tk, se_event_id (tk_env tk)) \<in> set (row_keys st) \<and> (ticket_request tk i, a) \<in> set L)"
| "flight_ok st L (Fl_read x) = (row_key x \<in> set (row_keys st) \<and> env_ok x)"
| "flight_ok st L (Fl_won x) = (row_key x \<in> set (row_keys st) \<and> env_ok x)"
| "flight_ok st L (Fl_replay_ready x tk) = (row_key x \<in> set (row_keys st) \<and> ticket_of tk x)"
| "flight_ok st L (Fl_replay_answered x tk a) = (row_key x \<in> set (row_keys st) \<and> ticket_of tk x \<and> (ticket_replay tk, a) \<in> set L)"
| "flight_ok st L _ = True"

definition posted_inv :: "engine_world \<Rightarrow> bool" where
  "posted_inv w = (case w of (st, F, L) \<Rightarrow> list_all (row_posted_ok L) (es_executions st) \<and> (\<forall>f \<in># F. flight_ok st L f))"

lemma call_for_mono: "call_for L x \<Longrightarrow> set L \<subseteq> set L' \<Longrightarrow> call_for L' x"
  unfolding call_for_def by blast

lemma row_posted_ok_mono: "row_posted_ok L x \<Longrightarrow> set L \<subseteq> set L' \<Longrightarrow> row_posted_ok L' x"
  unfolding row_posted_ok_def using call_for_mono by blast

lemma flight_ok_mono: "flight_ok st L f \<Longrightarrow> set (row_keys st) \<subseteq> set (row_keys st') \<Longrightarrow> set L \<subseteq> set L' \<Longrightarrow> flight_ok st' L' f"
  by (cases f) auto

lemma grows_keys: "grows st st' \<Longrightarrow> set (row_keys st) \<subseteq> set (row_keys st')"
  by (auto simp: grows_def)

text \<open>A change that posts nothing: every row of the new table is an old one or is sound and not posted.\<close>

definition posts_nothing :: "engine_store \<Rightarrow> engine_store \<Rightarrow> bool" where
  "posts_nothing st st' \<longleftrightarrow> (\<forall>x \<in> set (es_executions st'). x \<in> set (es_executions st) \<or> env_ok x \<and> ex_status x \<noteq> X_POSTED)"

lemma posts_nothing_refl [simp]: "es_executions st' = es_executions st \<Longrightarrow> posts_nothing st st'"
  by (simp add: posts_nothing_def)

lemma posts_nothing_evidence: "posts_nothing st st1 \<Longrightarrow> es_executions st2 = es_executions st1 \<Longrightarrow> posts_nothing st st2"
  by (simp add: posts_nothing_def)

lemma posts_nothing_rows: "posts_nothing st st' \<Longrightarrow> list_all (row_posted_ok L) (es_executions st) \<Longrightarrow> list_all (row_posted_ok L) (es_executions st')"
  unfolding posts_nothing_def list_all_iff row_posted_ok_def by blast

lemma create_posts_nothing:
  "create_or_reconcile ee i t env h s v r b j n f st = Inr (x, st') \<Longrightarrow> s \<noteq> X_POSTED \<Longrightarrow> posts_nothing st st'"
  by (auto simp: create_or_reconcile_def insert_execution_def posts_nothing_def env_ok_def split: option.splits dest!: execution_row_Some)

lemma claim_posts_nothing: "claim_execution ee i t env h st = Inr (xb, st') \<Longrightarrow> posts_nothing st st'"
  by (auto simp: claim_execution_def insert_execution_def posts_nothing_def env_ok_def split: option.splits dest!: execution_row_Some)

lemma finalize_posts_nothing:
  "finalize_no_match ee i t env h v r cs rs a st = Inr (res, st') \<Longrightarrow> posts_nothing st st'"
  "finalize_rejected ee i t env h v r b rs c a st = Inr (res, st') \<Longrightarrow> posts_nothing st st'"
  "finalize_ambiguous ee i t env h cs ids a st = Inr (res, st') \<Longrightarrow> posts_nothing st st'"
  by (auto simp: finalize_no_match_def finalize_rejected_def finalize_ambiguous_def bind_res_Inr
      intro: posts_nothing_evidence [OF create_posts_nothing])

lemma conclude_posts_nothing: "conclude ee i t env h cs ev a st = (p, st') \<Longrightarrow> posts_nothing st st'"
  by (cases ev) (auto simp: conclude_def Let_def split: sum.splits intro: finalize_posts_nothing)

lemma replay_posts_nothing:
  assumes "list_all env_ok (es_executions st)"
  shows "replay_no_match ee x v m told a rs st = (r, st') \<Longrightarrow> posts_nothing st st'"
    "replay_reject ee x v' rl b msg a rs st = (r, st') \<Longrightarrow> posts_nothing st st'"
  using assms by (auto simp: replay_no_match_def replay_reject_def Let_def posts_nothing_def set_update_rows list_all_iff env_ok_def)

lemma prepare_replay_posts_nothing:
  "prepare_replay ee i packs accounts x a rs st = (p, st') \<Longrightarrow> list_all env_ok (es_executions st) \<Longrightarrow> posts_nothing st st'"
  by (auto simp: prepare_replay_def conclude_replay_def Let_def split: sum.splits evaluation.splits prod.splits
      intro: posts_nothing_evidence [OF finalize_posts_nothing(3)] dest: replay_posts_nothing)

lemma prepare_replay_ticket: "prepare_replay ee i packs accounts x a rs st = (Ready tk, st') \<Longrightarrow> env_ok x \<Longrightarrow> ticket_of tk x"
  by (auto simp: prepare_replay_def conclude_replay_def ticket_of_def env_ok_def Let_def split: sum.splits evaluation.splits prod.splits)

lemma claim_replay_posts_nothing: "claim_replay x st = (b, st') \<Longrightarrow> list_all env_ok (es_executions st) \<Longrightarrow> posts_nothing st st'"
  by (auto simp: claim_replay_def Let_def posts_nothing_def set_update_rows list_all_iff env_ok_def)

lemma key_row: "keys_inv (st, F, L) \<Longrightarrow> x \<in> set (es_executions st) \<Longrightarrow> ex_id x = i \<Longrightarrow> (i, t, e) \<in> set (row_keys st) \<Longrightarrow> ex_tenant x = t \<and> ex_event x = e"
proof -
  assume a: "keys_inv (st, F, L)" "x \<in> set (es_executions st)" "ex_id x = i" "(i, t, e) \<in> set (row_keys st)"
  have "row_key x \<in> set (row_keys st)" using a(2) by (simp add: row_keys_def)
  moreover have "inj_on fst (set (row_keys st))" using a(1) by (simp add: keys_inv_def distinct_map)
  ultimately have "row_key x = (i, t, e)" using a(3,4) by (intro inj_onD [of fst "set (row_keys st)"]) (simp_all add: row_key_def)
  then show ?thesis by (simp add: row_key_def)
qed

text \<open>The final updates: every row with the identifier is the request's own.\<close>

lemma finish_rows:
  assumes "es_executions st' = update_rows (\<lambda>x. ex_id x = i) f (es_executions st)" and "list_all (row_posted_ok L) (es_executions st)"
    and "\<And>x. x \<in> set (es_executions st) \<Longrightarrow> ex_id x = i \<Longrightarrow> row_posted_ok L x \<Longrightarrow> row_posted_ok L (f x)"
  shows "list_all (row_posted_ok L) (es_executions st')"
  using assms by (auto simp: set_update_rows list_all_iff)

lemma finish_submit_rows:
  assumes "finish_submit tk i actor answer st = (r, st')" and "list_all (row_posted_ok L) (es_executions st)" and "keys_inv (st, F, L')"
    and "(i, tk_tenant tk, se_event_id (tk_env tk)) \<in> set (row_keys st)" and "(ticket_request tk i, answer) \<in> set L"
  shows "list_all (row_posted_ok L) (es_executions st')"
proof (cases answer)
  case (Inl msg)
  then have "es_executions st' = update_rows (\<lambda>x. ex_id x = i) (rejected_row (tk_version tk) (tk_rule tk) (tk_blueprint tk) msg) (es_executions st)"
    using assms(1) by (auto simp: finish_submit_def Let_def)
  then show ?thesis by (rule finish_rows [OF _ assms(2)]) (simp add: row_posted_ok_def rejected_row_def env_ok_def)
next
  case (Inr res)
  then have "es_executions st' = update_rows (\<lambda>x. ex_id x = i) (posted_row (tk_version tk) (tk_rule tk) (tk_blueprint tk) res) (es_executions st)"
    using assms(1) by (auto simp: finish_submit_def Let_def)
  then show ?thesis
  proof (rule finish_rows [OF _ assms(2)])
    fix x assume x: "x \<in> set (es_executions st)" "ex_id x = i" "row_posted_ok L x"
    have k: "ex_tenant x = tk_tenant tk \<and> ex_event x = se_event_id (tk_env tk)" by (rule key_row [OF assms(3) x(1,2) assms(4)])
    have "call_for L (posted_row (tk_version tk) (tk_rule tk) (tk_blueprint tk) res x)"
      unfolding call_for_def using assms(5) Inr k x(2)
      by (intro exI [of _ "ticket_request tk i"] exI [of _ res]) (simp add: posted_row_def ticket_request_def submit_request_def)
    then show "row_posted_ok L (posted_row (tk_version tk) (tk_rule tk) (tk_blueprint tk) res x)"
      using x(3) by (simp add: row_posted_ok_def posted_row_def env_ok_def)
  qed
qed

lemma finish_replay_rows:
  assumes "finish_replay ee tk y actor reason answer st = (r, st')" and "list_all (row_posted_ok L) (es_executions st)" and "keys_inv (st, F, L')"
    and "row_key y \<in> set (row_keys st)" and "ticket_of tk y" and "(ticket_replay tk, answer) \<in> set L"
  shows "list_all (row_posted_ok L) (es_executions st')"
proof (cases answer)
  case (Inl msg)
  then have "es_executions st' = update_rows (\<lambda>x. ex_id x = ex_id y) (rejected_row (tk_version tk) (tk_rule tk) (tk_blueprint tk) msg) (es_executions st)"
    using assms(1) by (auto simp: finish_replay_def Let_def)
  then show ?thesis by (rule finish_rows [OF _ assms(2)]) (simp add: row_posted_ok_def rejected_row_def env_ok_def)
next
  case (Inr res)
  then have "es_executions st' = update_rows (\<lambda>x. ex_id x = ex_id y) (posted_row (tk_version tk) (tk_rule tk) (tk_blueprint tk) res) (es_executions st)"
    using assms(1) by (auto simp: finish_replay_def Let_def)
  then show ?thesis
  proof (rule finish_rows [OF _ assms(2)])
    fix x assume x: "x \<in> set (es_executions st)" "ex_id x = ex_id y" "row_posted_ok L x"
    have k: "ex_tenant x = ex_tenant y \<and> ex_event x = ex_event y"
      by (rule key_row [OF assms(3) x(1,2)]) (use assms(4) in \<open>simp add: row_key_def\<close>)
    have "call_for L (posted_row (tk_version tk) (tk_rule tk) (tk_blueprint tk) res x)"
      unfolding call_for_def using assms(5,6) Inr k
      by (intro exI [of _ "ticket_replay tk"] exI [of _ res]) (simp add: posted_row_def ticket_replay_def replay_request_def ticket_of_def opt_str_def)
    then show "row_posted_ok L (posted_row (tk_version tk) (tk_rule tk) (tk_blueprint tk) res x)"
      using x(3) by (simp add: row_posted_ok_def posted_row_def env_ok_def)
  qed
qed


lemma posted_rows_env: "list_all (row_posted_ok L) xs \<Longrightarrow> list_all env_ok xs"
  by (auto simp: list_all_iff row_posted_ok_def)

lemma read_row: "read_for_replay t i st = Inr x \<Longrightarrow> x \<in> set (es_executions st)"
  by (auto simp: read_for_replay_def execution_by_id_def split: option.splits if_splits dest!: find_row_Some)

lemma posted_inv_keep:
  assumes "posted_inv (st, F, L)" and "posts_nothing st st'" and "grows st st'" and "\<And>f. f \<in># F' \<Longrightarrow> f \<in># F \<or> flight_ok st' L f"
  shows "posted_inv (st', F', L)"
proof -
  have "list_all (row_posted_ok L) (es_executions st')" using posts_nothing_rows [OF assms(2)] assms(1) by (simp add: posted_inv_def)
  moreover have "flight_ok st' L f" if "f \<in># F'" for f
    using assms(4) [OF that] assms(1) flight_ok_mono [OF _ grows_keys [OF assms(3)] order_refl] by (auto simp: posted_inv_def)
  ultimately show ?thesis by (simp add: posted_inv_def)
qed

lemma posted_inv_call:
  assumes "posted_inv (st, F, L)" and "\<And>f. f \<in># F' \<Longrightarrow> f \<in># F \<or> flight_ok st (L @ [c]) f"
  shows "posted_inv (st, F', L @ [c])"
proof -
  have "list_all (row_posted_ok (L @ [c])) (es_executions st)"
    using assms(1) row_posted_ok_mono [of L _ "L @ [c]"] by (auto simp: posted_inv_def list_all_iff)
  moreover have "flight_ok st (L @ [c]) f" if "f \<in># F'" for f
    using assms(2) [OF that] assms(1) flight_ok_mono [of st L f st "L @ [c]"] by (auto simp: posted_inv_def)
  ultimately show ?thesis by (simp add: posted_inv_def)
qed

lemma posted_inv_finish:
  assumes "posted_inv (st, F, L)" and "list_all (row_posted_ok L) (es_executions st')" and "row_keys st' = row_keys st"
    and "\<And>f. f \<in># F' \<Longrightarrow> f \<in># F"
  shows "posted_inv (st', F', L)"
  using assms flight_ok_mono [of st L _ st' L] by (auto simp: posted_inv_def)

lemma receive_executions: "receive_event ee packs accounts t raw a st = (p, st') \<Longrightarrow> es_executions st' = es_executions st"
  by (auto simp: receive_event_def Let_def split: sum.splits option.splits if_splits)

lemma posted_inv_step: "engine_step w w' \<Longrightarrow> keys_inv w \<Longrightarrow> posted_inv w \<Longrightarrow> posted_inv w'"
proof (induction rule: engine_step.induct)
  case (es_seen ee packs accounts tenant raw actor st r st' F L)
  then show ?case using receive_executions [OF es_seen(1)] receive_keys [OF es_seen(1)] by (auto intro: posted_inv_keep)
next
  case (es_receive ee packs accounts tenant raw actor st env hash cs ev st' F L)
  show ?case by (rule posted_inv_keep [OF es_receive(3)]) (use receive_executions [OF es_receive(1)] receive_keys [OF es_receive(1)] in auto)
next
  case (es_conclude i st ee tenant env hash cs ev actor r st' F L)
  show ?case by (rule posted_inv_keep [OF es_conclude(4) conclude_posts_nothing [OF es_conclude(2)] conclude_grows [OF es_conclude(2)]])
    (use es_conclude(1) in auto)
next
  case (es_ready ee i tenant env hash cs ev actor st tk st' F L)
  show ?case by (rule posted_inv_keep [OF es_ready(3) conclude_posts_nothing [OF es_ready(1)] conclude_grows [OF es_ready(1)]]) auto
next
  case (es_claim i st ee tk x st' F L)
  note k = claim_won [OF es_claim(2,1)]
  show ?case by (rule posted_inv_keep [OF es_claim(4) claim_posts_nothing [OF es_claim(2)] k(2)]) (auto simp: k(1))
next
  case (es_lose ee i tk st x st' F L)
  show ?case by (rule posted_inv_keep [OF es_lose(3)]) (use claim_lost [OF es_lose(1)] in auto)
next
  case (es_post st tk i F L answer)
  then show ?case by (intro posted_inv_call) (auto simp: posted_inv_def)
next
  case (es_finish tk i actor answer st r st' F L)
  then have f: "flight_ok st L (Fl_answered tk i answer)" by (simp add: posted_inv_def)
  have "list_all (row_posted_ok L) (es_executions st')"
    using es_finish f by (intro finish_submit_rows [OF es_finish(1) _ es_finish(2)]) (auto simp: posted_inv_def)
  then show ?case by (rule posted_inv_finish [OF es_finish(3) _ finish_submit_keys [OF es_finish(1)]]) simp
next
  case (es_read tenant i st x F L)
  note x = read_row [OF es_read(1)]
  then have "row_posted_ok L x" using es_read(3) by (auto simp: posted_inv_def list_all_iff)
  then have "flight_ok st L (Fl_read x)" using x by (simp add: row_keys_def row_posted_ok_def)
  then show ?case by (intro posted_inv_keep [OF es_read(3)]) auto
next
  case (es_win x st st' F L)
  then have f: "flight_ok st L (Fl_read x)" and e: "list_all env_ok (es_executions st)" by (auto simp: posted_inv_def posted_rows_env)
  note k = claim_replay_keys [OF es_win(1)]
  show ?case by (rule posted_inv_keep [OF es_win(3) claim_replay_posts_nothing [OF es_win(1) e] grows_refl(2) [OF k]]) (use f k in auto)
next
  case (es_miss x st st' F L)
  then have e: "list_all env_ok (es_executions st)" by (auto simp: posted_inv_def posted_rows_env)
  show ?case by (rule posted_inv_keep [OF es_miss(3) claim_replay_posts_nothing [OF es_miss(1) e]
      grows_refl(2) [OF claim_replay_keys [OF es_miss(1)]]]) auto
next
  case (es_replayed i st ee packs accounts x actor reason r st' F L)
  then have e: "list_all env_ok (es_executions st)" by (auto simp: posted_inv_def posted_rows_env)
  show ?case by (rule posted_inv_keep [OF es_replayed(4) prepare_replay_posts_nothing [OF es_replayed(2) e]
      prepare_replay_grows [OF es_replayed(2)]]) (use es_replayed(1) in auto)
next
  case (es_replay_ready ee i packs accounts x actor reason st tk st' F L)
  then have f: "flight_ok st L (Fl_won x)" and e: "list_all env_ok (es_executions st)" by (auto simp: posted_inv_def posted_rows_env)
  have g: "grows st st'" by (rule prepare_replay_grows [OF es_replay_ready(1)]) simp
  show ?case by (rule posted_inv_keep [OF es_replay_ready(3) prepare_replay_posts_nothing [OF es_replay_ready(1) e] g])
    (use f grows_keys [OF g] prepare_replay_ticket [OF es_replay_ready(1)] in auto)
next
  case (es_replay_post st x tk F L answer)
  then show ?case by (intro posted_inv_call) (auto simp: posted_inv_def)
next
  case (es_replay_finish ee tk x actor reason answer st r st' F L)
  then have f: "flight_ok st L (Fl_replay_answered x tk answer)" by (simp add: posted_inv_def)
  have "list_all (row_posted_ok L) (es_executions st')"
    using es_replay_finish f by (intro finish_replay_rows [OF es_replay_finish(1) _ es_replay_finish(2)]) (auto simp: posted_inv_def)
  then show ?case by (rule posted_inv_finish [OF es_replay_finish(3) _ finish_replay_keys [OF es_replay_finish(1)]]) simp
qed

lemma posted_inv_run: "engine_step\<^sup>*\<^sup>* engine_start w \<Longrightarrow> posted_inv w"
proof (induction rule: rtranclp_induct)
  case base
  show ?case by (simp add: posted_inv_def engine_start_def no_executions_def)
next
  case (step w w')
  then show ?case using posted_inv_step keys_inv_run by blast
qed

text \<open>
  C11: no execution is marked POSTED without a journal. In every reachable state a POSTED row names a journal that the
  ledger returned to a call made for that very row: its own submission, or a replay of its event with the version
  the row names.
\<close>

theorem posted_execution_has_journal:
  assumes "engine_step\<^sup>*\<^sup>* engine_start (st, F, L)" and "x \<in> set (es_executions st)" and "ex_status x = X_POSTED"
  shows "\<exists>rq r. (rq, Inr r) \<in> set L \<and> ex_journal x = Some (gr_journal r) \<and> gq_tenant rq = ex_tenant x
     \<and> (gq_event rq = Some (ex_event x) \<and> gq_execution rq = Some (ex_id x)
        \<or> gq_key rq = Some (ex_tenant x @ js '':'' @ ex_event x @ js '':replay:'' @ opt_str (ex_version x)))"
  using posted_inv_run [OF assms(1)] assms(2,3) by (auto simp: posted_inv_def list_all_iff row_posted_ok_def call_for_def)

section \<open>Runs of the demo event\<close>

lemma demo_start: "\<exists>lines cs. length lines = 2
    \<and> receive_event demo_engine demo_packs demo_pack_accounts (js ''t'') demo_event_text (js ''u'') no_executions
        = (Evaluated demo_event (hash_envelope (ee_sha256 demo_engine) demo_event) cs (Ev_lines demo_active demo_rule_selected lines), no_executions)
    \<and> evaluate_event demo_pack_accounts demo_event [demo_active] = Inr (Ev_lines demo_active demo_rule_selected lines)"
proof -
  obtain lines where l: "evaluate_event demo_pack_accounts demo_event [demo_active] = Inr (Ev_lines demo_active demo_rule_selected lines)" "length lines = 2"
    using demo_evaluated by blast
  have n: "find_execution (js ''t'') (se_event_id demo_event) no_executions = None" by (simp add: find_execution_def no_executions_def)
  show ?thesis using receive_new [OF demo_accepted n demo_candidates l(1)] l by blast
qed

definition demo_ticket :: "blueprint_line list \<Rightarrow> ticket" where
  "demo_ticket lines = \<lparr>tk_tenant = js ''t'', tk_env = demo_event, tk_hash = hash_envelope (ee_sha256 demo_engine) demo_event,
     tk_pack = pack_definition demo_active, tk_version = pv_id demo_active, tk_rule = ru_rule_id demo_rule_selected,
     tk_blueprint = rule_hash demo_engine demo_rule_selected lines, tk_lines = lines\<rparr>"

definition claimed_store :: "execution \<Rightarrow> engine_store" where
  "claimed_store x = no_executions\<lparr>es_executions := [x]\<rparr>"

lemma demo_claimed: "\<exists>x lines. engine_step\<^sup>*\<^sup>* engine_start (claimed_store x, {#Fl_claimed (demo_ticket lines) (ex_id x)#}, [])
    \<and> ex_id x = js ''x'' \<and> ex_tenant x = js ''t'' \<and> ex_event x = js ''E'' \<and> ex_status x = X_POSTING_IN_PROGRESS \<and> ex_envelope x = demo_event \<and> length lines = 2
    \<and> ex_hash x = tk_hash (demo_ticket lines)
    \<and> evaluate_event demo_pack_accounts demo_event [demo_active] = Inr (Ev_lines demo_active demo_rule_selected lines)"
proof -
  obtain lines cs where l: "length lines = 2"
    "receive_event demo_engine demo_packs demo_pack_accounts (js ''t'') demo_event_text (js ''u'') no_executions
        = (Evaluated demo_event (hash_envelope (ee_sha256 demo_engine) demo_event) cs (Ev_lines demo_active demo_rule_selected lines), no_executions)"
    "evaluate_event demo_pack_accounts demo_event [demo_active] = Inr (Ev_lines demo_active demo_rule_selected lines)"
    using demo_start by blast
  let ?tk = "demo_ticket lines"
  have n: "find_execution (js ''t'') (se_event_id demo_event) no_executions = None" by (simp add: find_execution_def no_executions_def)
  have "ee_new_date demo_engine (JStr (se_business_date demo_event)) = Some 0" by (simp add: demo_engine_def)
  then obtain x where x: "execution_row demo_engine (js ''x'') (js ''t'') demo_event (tk_hash ?tk) X_POSTING_IN_PROGRESS None None None None None None = Some x"
    by (simp add: execution_row_def)
  note r = execution_row_Some [OF x]
  have c: "claim_execution demo_engine (js ''x'') (tk_tenant ?tk) (tk_env ?tk) (tk_hash ?tk) no_executions = Inr ((x, True), claimed_store x)"
    using x r n by (simp add: claim_execution_def insert_execution_def demo_ticket_def claimed_store_def) (simp add: no_executions_def)
  have "engine_step engine_start (no_executions, add_mset (Fl_evaluated (js ''t'') demo_event (tk_hash ?tk) cs (Ev_lines demo_active demo_rule_selected lines)) {#}, [])"
    unfolding engine_start_def using es_receive [OF l(2)] by (simp add: demo_ticket_def)
  moreover have "engine_step (no_executions, add_mset (Fl_evaluated (js ''t'') demo_event (tk_hash ?tk) cs (Ev_lines demo_active demo_rule_selected lines)) {#}, [])
      (no_executions, add_mset (Fl_ready ?tk) {#}, [])"
    by (rule es_ready [of demo_engine "[]" _ _ _ _ _ "[]"]) (simp add: conclude_def demo_ticket_def)
  moreover have "engine_step (no_executions, add_mset (Fl_ready ?tk) {#}, []) (claimed_store x, add_mset (Fl_claimed ?tk (ex_id x)) {#}, [])"
    by (rule es_claim [OF _ c]) (simp add: fresh_execution_def no_executions_def)
  ultimately have "engine_step\<^sup>*\<^sup>* engine_start (claimed_store x, add_mset (Fl_claimed ?tk (ex_id x)) {#}, [])" by simp
  moreover have "ex_event x = js ''E''" using r by (simp add: demo_event_def)
  ultimately show ?thesis using r l(1,3) by blast
qed



lemma run_step: "engine_step\<^sup>*\<^sup>* a b \<Longrightarrow> engine_step b c \<Longrightarrow> engine_step\<^sup>*\<^sup>* a c"
  by (rule rtranclp.rtrancl_into_rtrancl)

theorem posted_execution_has_journal_witness:
  "\<exists>st F rq r x. engine_step\<^sup>*\<^sup>* engine_start (st, F, [(rq, Inr r)]) \<and> x \<in> set (es_executions st) \<and> ex_status x = X_POSTED
     \<and> ex_journal x = Some (gr_journal r)"
proof -
  obtain x lines where r: "engine_step\<^sup>*\<^sup>* engine_start (claimed_store x, {#Fl_claimed (demo_ticket lines) (ex_id x)#}, [])"
    and x: "ex_id x = js ''x''" using demo_claimed by blast
  let ?tk = "demo_ticket lines" and ?res = "\<lparr>gr_journal = js ''J'', gr_number = None, gr_status = []\<rparr>"
  obtain y st where y: "finish_submit ?tk (js ''x'') [] (Inr ?res) (claimed_store x) = (Inr (to_result y False), st)" "es_executions st = [y]" "ex_status y = X_POSTED"
    using finish_submit_new [of "claimed_store x" "[]" x "js ''x''" ?tk "[]" "Inr ?res"] x by (auto simp: claimed_store_def answered_status_def)
  note p = es_post [of "claimed_store x" ?tk "ex_id x" "{#}" "[]" "Inr ?res"]
  have run: "engine_step\<^sup>*\<^sup>* engine_start (claimed_store x, {#Fl_answered ?tk (ex_id x) (Inr ?res)#}, [(ticket_request ?tk (ex_id x), Inr ?res)])"
    using rtranclp.rtrancl_into_rtrancl [OF r p] by simp
  have "engine_step (claimed_store x, {#Fl_answered ?tk (ex_id x) (Inr ?res)#}, [(ticket_request ?tk (ex_id x), Inr ?res)])
      (st, {#}, [(ticket_request ?tk (ex_id x), Inr ?res)])" using y(1) x by (intro es_finish) simp
  with run have run': "engine_step\<^sup>*\<^sup>* engine_start (st, {#}, [(ticket_request ?tk (ex_id x), Inr ?res)])" by (rule rtranclp.rtrancl_into_rtrancl)
  have "y \<in> set (es_executions st)" using y(2) by simp
  from posted_execution_has_journal [OF run' this y(3)] have "ex_journal y = Some (gr_journal ?res)" by auto
  then show ?thesis using run' y(2,3) by (intro exI [of _ st] exI [of _ "{#}"] exI [of _ "ticket_request ?tk (ex_id x)"] exI [of _ ?res] exI [of _ y]) simp
qed

section \<open>What replay does not guard\<close>

text \<open>
  A replay can post an event that is being posted. An execution whose submission is under way may be replayed: the
  guard of the replay refuses only a POSTED execution and its conditional update only a status that changed since it
  was read. Both requests then go over the bridge with the same lines under different keys, and the ledger accepts
  two journals for one event.
\<close>

theorem replay_posts_event_again:
  "\<exists>st F rq1 r1 rq2 r2. engine_step\<^sup>*\<^sup>* engine_start (st, F, [(rq1, Inr r1), (rq2, Inr r2)])
     \<and> gq_tenant rq1 = gq_tenant rq2 \<and> gq_lines rq1 = gq_lines rq2 \<and> gq_lines rq1 \<noteq> []
     \<and> gq_key rq1 \<noteq> gq_key rq2 \<and> gr_journal r1 \<noteq> gr_journal r2"
proof -
  obtain x lines where r: "engine_step\<^sup>*\<^sup>* engine_start (claimed_store x, {#Fl_claimed (demo_ticket lines) (ex_id x)#}, [])"
    and x: "ex_id x = js ''x''" "ex_tenant x = js ''t''" "ex_status x = X_POSTING_IN_PROGRESS" "ex_envelope x = demo_event" "ex_hash x = tk_hash (demo_ticket lines)"
    and l: "length lines = 2" "evaluate_event demo_pack_accounts demo_event [demo_active] = Inr (Ev_lines demo_active demo_rule_selected lines)"
    using demo_claimed by blast
  let ?tk = "demo_ticket lines" and ?c = "Fl_claimed (demo_ticket lines) (ex_id x)" and ?st = "claimed_store (x\<lparr>ex_status := X_REPLAY_IN_PROGRESS\<rparr>)"
  let ?r1 = "\<lparr>gr_journal = js ''J'', gr_number = None, gr_status = []\<rparr>" and ?r2 = "\<lparr>gr_journal = js ''K'', gr_number = None, gr_status = []\<rparr>"
  let ?q1 = "(ticket_request ?tk (ex_id x), Inr ?r1)" and ?q2 = "(ticket_replay ?tk, Inr ?r2)"
  have s1: "engine_step (claimed_store x, {#?c#}, []) (claimed_store x, {#Fl_read x, ?c#}, [])"
    by (rule es_read [of "js ''t''" "js ''x''"]) (simp add: read_for_replay_def execution_by_id_def claimed_store_def x)
  have s2: "engine_step (claimed_store x, {#Fl_read x, ?c#}, []) (?st, {#Fl_won x, ?c#}, [])"
    by (rule es_win) (simp add: claim_replay_def claimed_store_def Let_def)
  have "prepare_replay demo_engine [] demo_packs demo_pack_accounts x [] [] ?st = (Ready ?tk, ?st)"
    by (simp add: prepare_replay_def x demo_candidates l(2) conclude_replay_def demo_ticket_def Let_def)
  then have s3: "engine_step (?st, {#Fl_won x, ?c#}, []) (?st, {#Fl_replay_ready x ?tk, ?c#}, [])" by (rule es_replay_ready)
  have s4: "engine_step (?st, {#Fl_replay_ready x ?tk, ?c#}, []) (?st, {#Fl_answered ?tk (ex_id x) (Inr ?r1), Fl_replay_ready x ?tk#}, [?q1])"
    using es_post [of ?st ?tk "ex_id x" "{#Fl_replay_ready x ?tk#}" "[]" "Inr ?r1"] by (simp add: add_mset_commute)
  have s5: "engine_step (?st, {#Fl_answered ?tk (ex_id x) (Inr ?r1), Fl_replay_ready x ?tk#}, [?q1])
      (?st, {#Fl_replay_answered x ?tk (Inr ?r2), Fl_answered ?tk (ex_id x) (Inr ?r1)#}, [?q1, ?q2])"
    using es_replay_post [of ?st x ?tk "{#Fl_answered ?tk (ex_id x) (Inr ?r1)#}" "[?q1]" "Inr ?r2"] by (simp add: add_mset_commute)
  have "engine_step\<^sup>*\<^sup>* engine_start (?st, {#Fl_replay_answered x ?tk (Inr ?r2), Fl_answered ?tk (ex_id x) (Inr ?r1)#}, [?q1, ?q2])"
    by (rule run_step [OF run_step [OF run_step [OF run_step [OF run_step [OF r s1] s2] s3] s4] s5])
  moreover have "gq_tenant (ticket_request ?tk k) = gq_tenant (ticket_replay ?tk) \<and> gq_lines (ticket_request ?tk k) = gq_lines (ticket_replay ?tk)
      \<and> gq_lines (ticket_request ?tk k) \<noteq> [] \<and> gq_key (ticket_request ?tk k) \<noteq> gq_key (ticket_replay ?tk)" for k
    using l(1) by (auto simp: ticket_request_def ticket_replay_def submit_request_def replay_request_def demo_ticket_def js_def)
  moreover have "gr_journal ?r1 \<noteq> gr_journal ?r2" by (simp add: js_def)
  ultimately show ?thesis by blast
qed

lemma unlisted_attempt: "outcome \<notin> set attempt_outcomes \<Longrightarrow> record_attempt i t outcome d st = st"
  by (simp add: record_attempt_def Let_def)

lemma replay_outcomes:
  "js ''REPLAY_POSTED'' \<notin> set attempt_outcomes" "js ''REPLAY_REJECTED'' \<notin> set attempt_outcomes"
  "js ''REPLAY_NO_RULE_MATCH'' \<notin> set attempt_outcomes" "js ''AMBIGUOUS_RULE_PACK_MATCH'' \<notin> set attempt_outcomes"
  by code_simp+

lemma evidence_attempts [simp]:
  "es_attempts (add_exception i t env c dt cs st) = es_attempts st" "es_attempts (add_audit t i ac a af st) = es_attempts st"
  "es_attempts (report_failure t i env c dt v st) = es_attempts st" "es_attempts (record_replay ee x a rs status v outcome st) = es_attempts st"
  "es_attempts (update_execution i f st) = es_attempts st"
  by (simp_all add: add_exception_def add_audit_def report_failure_def record_replay_def update_execution_def Let_def)

lemma replay_attempt_unrecorded [simp]:
  "replay_attempt x ''REPLAY_POSTED'' d st = st" "replay_attempt x ''REPLAY_REJECTED'' d st = st"
  "replay_attempt x ''REPLAY_NO_RULE_MATCH'' d st = st"
  by (simp_all add: replay_attempt_def unlisted_attempt replay_outcomes)

lemma ambiguous_attempts: "finalize_ambiguous ee i t env h cs ids a st = Inr (r, st') \<Longrightarrow> es_attempts st' = es_attempts st"
  by (auto simp: finalize_ambiguous_def bind_res_Inr finalize_def unlisted_attempt replay_outcomes Let_def create_or_reconcile_def
      insert_execution_def split: option.splits)

lemma prepare_replay_attempts: "prepare_replay ee i packs accounts x a rs st = (p, st') \<Longrightarrow> es_attempts st' = es_attempts st"
  by (auto simp: prepare_replay_def conclude_replay_def replay_no_match_def replay_reject_def Let_def
      split: sum.splits evaluation.splits prod.splits dest: ambiguous_attempts)

text \<open>
  No replay is ever recorded in the attempt ledger. Every outcome a replay reports is outside the set the table's
  constraint allows, and the failed insert is swallowed, whatever the replay does.
\<close>

theorem replay_attempts_unrecorded:
  "es_attempts (fst (snd (replay_event ee spare packs accounts bridge tenant i actor reason st g))) = es_attempts st"
  by (auto simp: replay_event_def claim_replay_def finish_replay_def Let_def split: sum.splits prod.splits prepared.splits bool.splits
      dest!: prepare_replay_attempts)


text \<open>
  A replay that meets an ambiguous match answers REJECTED but leaves its execution REPLAY_IN_PROGRESS: the shared
  finalizer finds the row it is replaying instead of inserting one, and neither updates it nor files an exception.
\<close>

theorem ambiguous_replay_left_in_progress:
  assumes "read_for_replay tenant i st = Inr x" and "find_execution (ex_tenant x) (se_event_id (ex_envelope x)) st = Some x"
    and "distinct (map ex_id (es_executions st))" and "ee_new_date ee (JStr (se_business_date (ex_envelope x))) = Some day"
    and "event_candidates ee (ex_tenant x) (ex_envelope x) packs = Inr vs"
    and "evaluate_event accounts (ex_envelope x) vs = Inr (Ev_ambiguous tops)"
  shows "\<exists>r st'. replay_event ee spare packs accounts bridge tenant i actor reason st g = (Inr r, st', g) \<and> sr_status r = X_REJECTED
    \<and> reload i st' = Inr (x\<lparr>ex_status := X_REPLAY_IN_PROGRESS\<rparr>) \<and> es_exceptions st' = es_exceptions st"
proof -
  have x: "ex_id x = i" "ex_tenant x = tenant" "x \<in> set (es_executions st)"
    using assms(1) by (auto simp: read_for_replay_def execution_by_id_def split: option.splits if_splits dest!: find_row_Some)
  let ?mine = "\<lambda>r. ex_id r = ex_id x \<and> ex_tenant r = ex_tenant x \<and> ex_status r = ex_status x" and ?f = "\<lambda>r. r\<lparr>ex_status := X_REPLAY_IN_PROGRESS\<rparr>"
  let ?st1 = "st\<lparr>es_executions := update_rows ?mine ?f (es_executions st)\<rparr>" and ?y = "?f x"
  have c: "claim_replay x st = (True, ?st1)" using x(3) by (auto simp: claim_replay_def Let_def list_ex_iff)
  have row: "find_row P (update_rows ?mine ?f rs) = Some ?y"
    if "find_row P rs = Some x" "\<And>r. P (?f r) = P r" for P rs
    using that by (induction rs) (auto split: if_splits)
  have w: "find_execution (ex_tenant x) (se_event_id (ex_envelope x)) ?st1 = Some ?y"
    using assms(2) row [of "\<lambda>r. ex_tenant r = ex_tenant x \<and> ex_event r = se_event_id (ex_envelope x)"] by (simp add: find_execution_def)
  have "find_row (\<lambda>r. ex_id r = i) rs = Some x" if "x \<in> set rs" "distinct (map ex_id rs)" for rs
    using that x(1) by (induction rs) (auto simp: rev_image_eqI)
  then have rel: "reload i ?st1 = Inr ?y" using row [of "\<lambda>r. ex_id r = i"] x(3) assms(3) by (simp add: reload_def)
  obtain st2 where a: "finalize_ambiguous ee spare (ex_tenant x) (ex_envelope x) (ex_hash x) (considered_json vs) (map pv_id tops) actor ?st1
      = Inr (to_result ?y False, st2)" "es_executions st2 = es_executions ?st1" "es_exceptions st2 = es_exceptions st"
  proof -
    obtain z where "execution_row ee spare (ex_tenant x) (ex_envelope x) (ex_hash x) X_REJECTED None None None None None
        (Some (ambiguous_reason (map pv_id tops))) = Some z" using assms(4) by (simp add: execution_row_def)
    with w execution_row_Some [OF this] show ?thesis
      by (intro that [of "finalize ?y X_REJECTED (ex_tenant x) (ex_envelope x) (ambiguous_reason (map pv_id tops)) (js ''AMBIGUOUS_RULE_PACK_MATCH'')
            (considered_json vs) ''AMBIGUOUS_RULE_PACK_MATCH'' (JObj [(js ''ambiguousVersionIds'', JArr (map JStr (map pv_id tops)))])
            ''AMBIGUOUS_RULE_PACK_MATCH_RECORDED'' (JObj [(js ''eventId'', JStr (se_event_id (ex_envelope x))),
              (js ''ambiguousVersionIds'', JArr (map JStr (map pv_id tops)))]) None actor ?st1"])
        (simp_all add: finalize_ambiguous_def create_or_reconcile_def insert_execution_def finalize_def record_attempt_def
          add_audit_def report_failure_def Let_def)
  qed
  have "prepare_replay ee spare packs accounts x actor reason ?st1 = (Answered (Inr (replay_answer x X_REJECTED None None None
      (Some (js ''Ambiguous rule-pack match at replay time.'')))), record_replay ee x actor reason X_REJECTED None None st2)"
    by (simp add: prepare_replay_def assms(5,6) conclude_replay_def a(1) Let_def)
  then have "replay_event ee spare packs accounts bridge tenant i actor reason st g
      = (Inr (replay_answer x X_REJECTED None None None (Some (js ''Ambiguous rule-pack match at replay time.''))),
         record_replay ee x actor reason X_REJECTED None None st2, g)"
    by (simp add: replay_event_def assms(1) c)
  moreover have "reload i (record_replay ee x actor reason X_REJECTED None None st2) = Inr ?y"
    using rel reload_cong [of "record_replay ee x actor reason X_REJECTED None None st2" ?st1] a(2) by simp
  moreover have "es_exceptions (record_replay ee x actor reason X_REJECTED None None st2) = es_exceptions st"
    using a(3) by (simp add: record_replay_def Let_def)
  moreover have "sr_status (replay_answer x X_REJECTED None None None (Some (js ''Ambiguous rule-pack match at replay time.''))) = X_REJECTED"
    by (simp add: replay_answer_def to_result_def)
  ultimately show ?thesis by blast
qed

definition demo_rival :: pack_version where
  "demo_rival = demo_active\<lparr>pv_id := js ''w'', pv_key := js ''q''\<rparr>"

definition demo_failed :: execution where
  "demo_failed = the (execution_row demo_engine (js ''x'') (js ''t'') demo_event [] X_REJECTED None None None None None None)"

lemma demo_failed_row: "demo_failed = \<lparr>ex_id = js ''x'', ex_tenant = js ''t'', ex_event = js ''E'', ex_event_type = js ''sale.posted.v1'',
    ex_schema = js ''v1'', ex_entity = js ''e'', ex_source_system = js ''dms'', ex_source_type = js ''deal'', ex_source_id = js ''D'',
    ex_correlation = js ''c'', ex_causation = None, ex_business_date = 0, ex_hash = [], ex_envelope = demo_event,
    ex_status = X_REJECTED, ex_version = None, ex_rule = None, ex_blueprint = None, ex_journal = None, ex_number = None, ex_failure = None\<rparr>"
  by (simp add: demo_failed_def execution_row_def demo_engine_def demo_event_def start_of_day_def)

theorem ambiguous_replay_left_in_progress_witness:
  "\<exists>r st. replay_event demo_engine [] \<lparr>ks_packs = [], ks_versions = [demo_active, demo_rival], ks_audit = []\<rparr> demo_pack_accounts keeping_bridge
      (js ''t'') (js ''x'') (js ''op'') (js ''again'') (claimed_store demo_failed) [] = (Inr r, st, [])
    \<and> sr_status r = X_REJECTED \<and> reload (js ''x'') st = Inr (demo_failed\<lparr>ex_status := X_REPLAY_IN_PROGRESS\<rparr>)"
proof -
  have 1: "read_for_replay (js ''t'') (js ''x'') (claimed_store demo_failed) = Inr demo_failed"
    by (simp add: read_for_replay_def execution_by_id_def claimed_store_def demo_failed_row)
  have 2: "find_execution (ex_tenant demo_failed) (se_event_id (ex_envelope demo_failed)) (claimed_store demo_failed) = Some demo_failed"
    by (simp add: find_execution_def claimed_store_def demo_failed_row demo_event_def)
  have 3: "distinct (map ex_id (es_executions (claimed_store demo_failed)))" by (simp add: claimed_store_def)
  have 4: "ee_new_date demo_engine (JStr (se_business_date (ex_envelope demo_failed))) = Some 0" by (simp add: demo_engine_def)
  have 5: "event_candidates demo_engine (ex_tenant demo_failed) (ex_envelope demo_failed)
      \<lparr>ks_packs = [], ks_versions = [demo_active, demo_rival], ks_audit = []\<rparr> = Inr [demo_active, demo_rival]"
    by (simp add: event_candidates_def active_versions_at_def demo_failed_row demo_event_type demo_event_def demo_engine_def demo_rival_def)
  have 6: "evaluate_event demo_pack_accounts (ex_envelope demo_failed) [demo_active, demo_rival] = Inr (Ev_ambiguous [demo_active, demo_rival])"
    by (simp add: evaluate_event_def evaluate_blueprint_def matching_schema_def most_specific_def demo_failed_row demo_event_def demo_rival_def
        check_accounts_def Let_def)
  from ambiguous_replay_left_in_progress [OF 1 2 3 4 5 6, of "[]" keeping_bridge "js ''op''" "js ''again''" "[]"] show ?thesis by blast
qed

section \<open>A failure code that is never given\<close>

definition no_capital_u :: "jstr \<Rightarrow> bool" where
  "no_capital_u s \<longleftrightarrow> cu CHR ''U'' \<notin> set s"

lemma no_capital_u_append [simp]: "no_capital_u (a @ b) \<longleftrightarrow> no_capital_u a \<and> no_capital_u b"
  by (auto simp: no_capital_u_def)

lemma js_includes_set: "js_includes p s \<Longrightarrow> set p \<subseteq> set s"
proof (induction s)
  case (Cons c s)
  then show ?case using set_take_subset [of "length p" "c # s"] by (auto simp: starts_with_def)
qed simp


lemma no_capital_u_js [simp]: "no_capital_u (js s) \<longleftrightarrow> CHR ''U'' \<notin> set s"
  unfolding no_capital_u_def js_def set_map
  by (subst inj_image_mem_iff) (rule injI, simp only: cu_eq_iff, rule refl)

lemma no_capital_u_sub: "set a \<subseteq> set b \<Longrightarrow> no_capital_u b \<Longrightarrow> no_capital_u a"
  by (auto simp: no_capital_u_def)

lemma no_capital_u_nat_str [simp]: "no_capital_u (nat_str n)"
proof -
  have "\<not> is_digit (cu CHR ''U'')" by code_simp
  then show ?thesis using nat_str_digits [of n] by (auto simp: no_capital_u_def list_all_iff)
qed

lemma no_capital_u_zeros [simp]: "no_capital_u (zeros n)"
proof -
  have "cu CHR ''U'' \<noteq> cu CHR ''0''" by (simp only: cu_eq_iff) simp
  then show ?thesis by (auto simp: no_capital_u_def zeros_def simp del: of_char_eq_iff)
qed

lemma no_capital_u_take [simp]: "no_capital_u s \<Longrightarrow> no_capital_u (take n s)" "no_capital_u s \<Longrightarrow> no_capital_u (drop n s)"
  by (auto intro: no_capital_u_sub [OF set_take_subset] no_capital_u_sub [OF set_drop_subset])

lemma no_capital_u_pos: "no_capital_u (pos_num_str x)"
  unfolding pos_num_str_def by (cases "shortest_digits x") (simp add: Let_def)

lemma no_capital_u_num [simp]: "no_capital_u (num_str n)"
  by (cases n) (auto simp: no_capital_u_pos)

lemma no_capital_u_join: "no_capital_u sep \<Longrightarrow> list_all no_capital_u xs \<Longrightarrow> no_capital_u (js_join sep xs)"
  by (induction sep xs rule: js_join.induct) (auto simp: no_capital_u_def)

lemma verify_messages: "list_all (\<lambda>v. no_capital_u (bv_message v)) (vs_violations st)
    \<Longrightarrow> list_all (\<lambda>v. no_capital_u (bv_message v)) (vs_violations (foldl verify_line st ils))"
  by (induction ils arbitrary: st) (auto simp: verify_line_def bviol_def Let_def)

lemma blueprint_messages: "list_all (\<lambda>v. no_capital_u (bv_message v)) (verify_blueprint lines)"
  using verify_messages [of "\<lparr>vs_violations = [], vs_total_dr = Fin 0, vs_total_cr = Fin 0, vs_has_debit = False, vs_has_credit = False\<rparr>"
      "enumerate 0 lines"]
  by (simp add: verify_blueprint_def bviol_def Let_def)

text \<open>
  An unbalanced blueprint is never reported as one. The classification looks for the violation's code in a message
  that is built from the violations' texts, and no text contains it: every failed verification is classified as a
  rule-pack evaluation error.
\<close>

theorem unbalanced_never_reported:
  "classify_failure From_verification (verification_message (verify_blueprint lines)) = js ''RULE_PACK_EVALUATION_ERROR''"
proof -
  have "no_capital_u (verification_message (verify_blueprint lines))"
    unfolding verification_message_def using blueprint_messages [of lines]
    by (simp add: no_capital_u_join list.pred_map comp_def)
  moreover have "cu CHR ''U'' \<in> set (js ''UNBALANCED_BLUEPRINT'')" by code_simp
  ultimately have "\<not> js_includes (js ''UNBALANCED_BLUEPRINT'') (verification_message (verify_blueprint lines))"
    using js_includes_set by (auto simp: no_capital_u_def)
  then show ?thesis by (simp add: classify_failure_def)
qed

lemma demo_unbalanced: "map bv_code (verify_blueprint [demo_bl (Fin 1) (Fin 0), demo_bl (Fin 0) (Fin 2)]) = [js ''UNBALANCED_BLUEPRINT'']"
  by code_simp

end
