(* ===== verification/GlLedger.thy ===== *)
theory GlLedger
  imports PostingService
begin

text \<open>
  The tables of the general ledger and its journal repository: \<open>services/gl-service/prisma/schema.prisma\<close>,
  \<open>infrastructure/journal-repository.ts\<close>, \<open>infrastructure/audit.ts\<close>, \<open>domain/unit-count.ts\<close> and the error
  classes of \<open>application/gl-service.ts\<close>. Money columns are whole cents; a journal is stored with its lines, which
  no operation changes afterwards. The descriptive columns of a line no operation reads are its tags.
\<close>

section \<open>Rows\<close>

datatype gl_status = GL_DRAFT | GL_PENDING | GL_PENDING_REVIEW | GL_POSTED | GL_HELD | GL_REVERSED | GL_VOIDED

fun gl_status_str :: "gl_status \<Rightarrow> jstr" where
  "gl_status_str GL_DRAFT = js ''DRAFT''"
| "gl_status_str GL_PENDING = js ''PENDING''"
| "gl_status_str GL_PENDING_REVIEW = js ''PENDING_REVIEW''"
| "gl_status_str GL_POSTED = js ''POSTED''"
| "gl_status_str GL_HELD = js ''HELD''"
| "gl_status_str GL_REVERSED = js ''REVERSED''"
| "gl_status_str GL_VOIDED = js ''VOIDED''"

record ledger_account =
  la_id :: jstr
  la_tenant :: jstr
  la_code :: jstr
  la_name :: jstr
  la_type :: jstr
  la_allow_posting :: bool
  la_schedule :: "jstr option"
  la_active :: bool
  la_cos :: "jstr option"
  la_inv :: "jstr option"
  la_track_units :: bool
  la_opening :: int
  la_opening_units :: int
  la_req_control :: "jstr option"

record gl_journal_line =
  gn_account :: jstr
  gn_debit :: int
  gn_credit :: int
  gn_memo :: "jstr option"
  gn_store :: jstr
  gn_dept :: "jstr option"
  gn_control :: "jstr option"
  gn_apply_cd :: "jstr option"
  gn_apply_number :: "jstr option"
  gn_company :: "jstr option"
  gn_cost :: "int option"
  gn_apply_to_cost :: "int option"
  gn_units :: int
  gn_rev_adj :: "jstr option"
  gn_tags :: "(jstr \<times> json) list"

record gl_entry =
  gj_id :: jstr
  gj_tenant :: jstr
  gj_date :: int
  gj_description :: jstr
  gj_source :: jstr
  gj_ref :: "jstr option"
  gj_posted_by :: "jstr option"
  gj_posted_at :: "int option"
  gj_status :: gl_status
  gj_agent_reviewed :: bool
  gj_created_at :: int
  gj_created_by :: "jstr option"
  gj_approved_by :: "jstr option"
  gj_approved_at :: "int option"
  gj_prior :: bool
  gj_reason :: "jstr option"
  gj_rev_adj :: "jstr option"
  gj_reversal_of :: "jstr option"
  gj_reversed_by :: "jstr option"
  gj_reconciled :: bool
  gj_key :: "jstr option"
  gj_entity :: "jstr option"
  gj_execution :: "jstr option"
  gj_pack :: "jstr option"
  gj_pack_version :: "jstr option"
  gj_event :: "jstr option"
  gj_lines :: "gl_journal_line list"

record period_balance =
  pb_tenant :: jstr
  pb_account :: jstr
  pb_year :: int
  pb_month :: int
  pb_source :: jstr
  pb_company :: jstr
  pb_store :: jstr
  pb_dept :: jstr
  pb_running :: int
  pb_units :: int

record history_row =
  hi_tenant :: jstr
  hi_source :: jstr
  hi_date :: int
  hi_reference :: jstr
  hi_dupe :: nat
  hi_line :: nat
  hi_type :: jstr
  hi_account :: jstr
  hi_amount :: int
  hi_cost :: int
  hi_apply :: "jstr option"
  hi_control :: "jstr option"
  hi_description :: "jstr option"
  hi_units :: int
  hi_rev_adj :: jstr
  hi_entered :: int
  hi_posted_at :: int
  hi_posted_by :: "jstr option"
  hi_entry :: jstr

record gl_source =
  gs_tenant :: jstr
  gs_code :: jstr
  gs_year_end :: bool
  gs_13th_month :: bool
  gs_auto_post :: bool
  gs_active :: bool

text \<open>A distribution target; \<open>gd_percentage\<close> is a \<open>NUMERIC(5,2)\<close>, in hundredths.\<close>

record gl_distribution =
  gd_tenant :: jstr
  gd_account :: jstr
  gd_target :: jstr
  gd_percentage :: int
  gd_order :: int

record gl_outbox_row =
  go_type :: jstr
  go_tenant :: jstr
  go_payload :: json
  go_correlation :: jstr
  go_published :: "int option"

record gl_store =
  gl_accounts :: "ledger_account list"
  gl_entries :: "gl_entry list"
  gl_balances :: "period_balance list"
  gl_history :: "history_row list"
  gl_outbox :: "gl_outbox_row list"
  gl_audit :: "audit_event list"
  gl_sources :: "gl_source list"
  gl_distributions :: "gl_distribution list"
  gl_cutoffs :: "(jstr \<times> int option) list"
  gl_sent :: "(jstr \<times> jstr \<times> json) list"

datatype gl_error =
    PostingPeriodClosed int int
  | AdjustmentReasonRequired
  | GLAccountNotFound jstr
  | GLAccountInactive jstr jstr
  | GLAccountHeader jstr jstr
  | JournalEntryNotFound jstr
  | InvalidStatusTransition gl_status gl_status
  | SegregationOfDuties
  | CutoffDateViolation jstr jstr
  | SourceReserved jstr
  | DistributionIncomplete jstr
  | ReconciledEntry
  | UniqueClash
  | MissingReference
  | MissingRow
  | EntryUnbalanced
  | EntryWithoutDebits
  | Db tx_error
  | SchemaRejected
  | UnknownAccountCode jstr
  | AccountMissing nat
  | ControlMissing nat jstr

section \<open>Numbers and columns\<close>

text \<open>\<open>Number(d)\<close> of a money column, and a number written to one.\<close>

definition number_of_decimal :: "int \<Rightarrow> jsnum" where
  "number_of_decimal c = to_num (of_int c / 100)"

definition column_error :: "tx_error + 'a \<Rightarrow> gl_error + 'a" where
  "column_error r = (case r of Inl e \<Rightarrow> Inl (Db e) | Inr v \<Rightarrow> Inr v)"

definition optional_money :: "jsnum option \<Rightarrow> tx_error + int option" where
  "optional_money v = (case v of None \<Rightarrow> Inr None | Some n \<Rightarrow> bind_res (money_of n) (\<lambda>c. Inr (Some c)))"

text \<open>\<open>computeUnitCount\<close>.\<close>

definition compute_unit_count :: "jsnum \<Rightarrow> jstr \<Rightarrow> jstr \<Rightarrow> bool \<Rightarrow> int" where
  "compute_unit_count net type flag track =
     (if \<not> track \<or> num_eq net (Fin 0) then 0
      else if type = js ''REVENUE'' \<or> type = js ''LIABILITY'' then (if num_lt (Fin 0) net then - 1 else 1)
      else if type = js ''EXPENSE'' \<or> type = js ''ASSET'' then (if num_lt (Fin 0) net then 1 else - 1)
      else if flag = js ''R'' then - 1 else 1)"

section \<open>Finding rows\<close>

definition find_ledger_account :: "jstr \<Rightarrow> jstr \<Rightarrow> gl_store \<Rightarrow> ledger_account option" where
  "find_ledger_account i tenant st = find_row (\<lambda>a. la_id a = i \<and> la_tenant a = tenant) (gl_accounts st)"

definition gl_entry_row :: "jstr \<Rightarrow> jstr \<Rightarrow> gl_store \<Rightarrow> gl_entry option" where
  "gl_entry_row i tenant st = find_row (\<lambda>e. gj_id e = i \<and> gj_tenant e = tenant) (gl_entries st)"

definition gl_entry_by_key :: "jstr \<Rightarrow> jstr \<Rightarrow> gl_store \<Rightarrow> gl_entry option" where
  "gl_entry_by_key tenant key st = find_row (\<lambda>e. gj_tenant e = tenant \<and> gj_key e = Some key) (gl_entries st)"

text \<open>
  \<open>toDomain\<close>: the object the repository returns has neither the reversal flag and links nor the reconciliation mark of
  the row, and its lines have no reversal flag. Where the service reads them they are undefined.
\<close>

definition line_to_domain :: "gl_journal_line \<Rightarrow> gl_journal_line" where
  "line_to_domain l = l\<lparr>gn_rev_adj := None\<rparr>"

definition to_domain :: "gl_entry \<Rightarrow> gl_entry" where
  "to_domain e = e\<lparr>gj_rev_adj := None, gj_reversal_of := None, gj_reversed_by := None, gj_reconciled := False,
     gj_lines := map line_to_domain (gj_lines e)\<rparr>"

definition gl_find_entry :: "jstr \<Rightarrow> jstr \<Rightarrow> gl_store \<Rightarrow> gl_entry option" where
  "gl_find_entry i tenant st = map_option to_domain (gl_entry_row i tenant st)"

section \<open>Audit rows\<close>

text \<open>\<open>appendAuditRowsTx\<close>: the outbox row is written when an event type is given (\<open>writeEventOutbox\<close>).\<close>

definition append_audit_rows :: "jstr \<Rightarrow> jstr \<Rightarrow> string \<Rightarrow> jstr \<Rightarrow> json option \<Rightarrow> json \<Rightarrow> (string \<times> jstr \<times> int) option \<Rightarrow> gl_store \<Rightarrow> gl_store" where
  "append_audit_rows tenant i action actor before after event st =
     st\<lparr>gl_outbox := gl_outbox st @ (case event of None \<Rightarrow> [] | Some (type, eid, now) \<Rightarrow>
          [\<lparr>go_type = js type, go_tenant = tenant,
            go_payload = JObj [(js ''eventId'', JStr eid), (js ''tenantId'', JStr tenant), (js ''docType'', JStr (js ''JOURNAL_ENTRY'')),
              (js ''docId'', JStr i), (js ''action'', JStr (js action)), (js ''actor'', JStr actor),
              (js ''before'', case before of None \<Rightarrow> JNull | Some b \<Rightarrow> b), (js ''after'', after), (js ''ts'', JStr (iso_time now)),
              (js ''schemaV'', JNum (Fin 1))],
            go_correlation = i, go_published = None\<rparr>]),
        gl_audit := gl_audit st @ [\<lparr>ae_tenant = tenant, ae_doc_type = js ''JOURNAL_ENTRY'', ae_doc_id = i, ae_action = js action,
          ae_before = before, ae_after = Some after, ae_actor = actor\<rparr>]\<rparr>"

definition status_json :: "gl_status \<Rightarrow> json" where
  "status_json s = JObj [(js ''status'', JStr (gl_status_str s))]"

section \<open>Creation\<close>

record gl_line_dto =
  gi_account :: jstr
  gi_debit :: jsnum
  gi_credit :: jsnum
  gi_memo :: "jstr option"
  gi_store :: "jstr option"
  gi_dept :: "jstr option"
  gi_control :: "jstr option"
  gi_apply_cd :: "jstr option"
  gi_apply_number :: "jstr option"
  gi_company :: "jstr option"
  gi_cost :: "jsnum option"
  gi_apply_to_cost :: "jsnum option"
  gi_units :: "int option"
  gi_tags :: "(jstr \<times> json) list"

record gl_entry_dto =
  gc_date :: int
  gc_description :: jstr
  gc_source :: jstr
  gc_ref :: "jstr option"
  gc_created_by :: "jstr option"
  gc_prior :: "bool option"
  gc_reason :: "jstr option"
  gc_key :: "jstr option"
  gc_entity :: "jstr option"
  gc_execution :: "jstr option"
  gc_pack :: "jstr option"
  gc_pack_version :: "jstr option"
  gc_event :: "jstr option"
  gc_year_end :: bool
  gc_13th_month :: bool
  gc_lines :: "gl_line_dto list"

text \<open>
  What a call meets outside the service: the closes the end-of-month service answers (none when it can not be reached),
  the year and month of an instant in the server's time zone, the clock, the identifiers the call draws, whether the
  broker takes its event, and which attempts of its transaction the database refuses to serialize.
\<close>

record gl_env =
  gx_closes :: "(int \<times> int \<times> jstr) list option"
  gx_local :: "int \<Rightarrow> int \<times> int"
  gx_now :: int
  gx_id :: jstr
  gx_correlation :: jstr
  gx_event_id :: jstr
  gx_chain_id :: jstr
  gx_publishes :: bool
  gx_conflict :: "nat \<Rightarrow> bool"

definition stored_line :: "gl_line_dto \<Rightarrow> tx_error + gl_journal_line" where
  "stored_line l =
     bind_res (money_of (gi_debit l)) (\<lambda>d.
     bind_res (money_of (gi_credit l)) (\<lambda>c.
     bind_res (optional_money (gi_cost l)) (\<lambda>cost.
     bind_res (optional_money (gi_apply_to_cost l)) (\<lambda>applied.
     bind_res (short_text 2 (gi_company l)) (\<lambda>company.
     bind_res (short_text 20 (gi_control l)) (\<lambda>control.
     bind_res (short_text 20 (gi_apply_number l)) (\<lambda>apply.
       Inr \<lparr>gn_account = gi_account l, gn_debit = d, gn_credit = c, gn_memo = gi_memo l, gn_store = opt_str (gi_store l),
            gn_dept = gi_dept l, gn_control = control, gn_apply_cd = gi_apply_cd l, gn_apply_number = apply,
            gn_company = company, gn_cost = cost, gn_apply_to_cost = applied,
            gn_units = (case gi_units l of None \<Rightarrow> 0 | Some u \<Rightarrow> u), gn_rev_adj = None, gn_tags = gi_tags l\<rparr>)))))))"

definition draft_entry :: "gl_env \<Rightarrow> gl_entry_dto \<Rightarrow> jstr \<Rightarrow> gl_journal_line list \<Rightarrow> gl_entry" where
  "draft_entry gx dto tenant lines =
     \<lparr>gj_id = gx_id gx, gj_tenant = tenant, gj_date = gc_date dto, gj_description = gc_description dto, gj_source = gc_source dto,
      gj_ref = gc_ref dto, gj_posted_by = None, gj_posted_at = None, gj_status = GL_DRAFT, gj_agent_reviewed = False,
      gj_created_at = gx_now gx, gj_created_by = gc_created_by dto, gj_approved_by = None, gj_approved_at = None,
      gj_prior = (gc_prior dto = Some True), gj_reason = gc_reason dto, gj_rev_adj = None, gj_reversal_of = None,
      gj_reversed_by = None, gj_reconciled = False, gj_key = gc_key dto, gj_entity = gc_entity dto,
      gj_execution = gc_execution dto, gj_pack = gc_pack dto, gj_pack_version = gc_pack_version dto, gj_event = gc_event dto,
      gj_lines = lines\<rparr>"

text \<open>
  The insert of a journal with its lines, under the primary key, the partial unique index on tenant and idempotency key,
  and the foreign key of the lines.
\<close>

definition insert_gl_entry :: "gl_entry \<Rightarrow> gl_store \<Rightarrow> gl_error + gl_store" where
  "insert_gl_entry e st =
     (if list_ex (\<lambda>r. gj_id r = gj_id e \<or> gj_key e \<noteq> None \<and> gj_tenant r = gj_tenant e \<and> gj_key r = gj_key e) (gl_entries st) then Inl UniqueClash
      else if \<not> list_all (\<lambda>l. list_ex (\<lambda>a. la_id a = gn_account l) (gl_accounts st)) (gj_lines e) then Inl MissingReference
      else Inr (st\<lparr>gl_entries := gl_entries st @ [e]\<rparr>))"

definition create_tx :: "gl_env \<Rightarrow> gl_entry_dto \<Rightarrow> jstr \<Rightarrow> gl_store \<Rightarrow> gl_error + gl_entry \<times> gl_store" where
  "create_tx gx dto tenant st =
     bind_res (column_error (map_res stored_line (gc_lines dto))) (\<lambda>lines.
       let e = draft_entry gx dto tenant lines
       in bind_res (insert_gl_entry e st) (\<lambda>st1.
            Inr (e, append_audit_rows tenant (gj_id e) ''CREATE_DRAFT'' (case gc_created_by dto of None \<Rightarrow> js ''system'' | Some u \<Rightarrow> u) None
              (JObj [(js ''description'', JStr (gj_description e)), (js ''source'', JStr (gj_source e)),
                     (js ''status'', JStr (gl_status_str GL_DRAFT)), (js ''lineCount'', JNum (num_of_int (int (length lines))))])
              (Some (''journal_entry.created'', gx_event_id gx, gx_now gx)) st1)))"

text \<open>
  \<open>PrismaJournalRepository.create\<close>: a key already used answers with its journal; the loser of a race meets the unique
  index and reads the winner's.
\<close>

definition gl_create :: "gl_env \<Rightarrow> gl_entry_dto \<Rightarrow> jstr \<Rightarrow> gl_store \<Rightarrow> (gl_error + gl_entry) \<times> gl_store" where
  "gl_create gx dto tenant st =
     (case create_tx gx dto tenant st of
        Inr (e, st1) \<Rightarrow> (Inr (to_domain e), st1)
      | Inl err \<Rightarrow>
          (case (if given (gc_key dto) \<and> err = UniqueClash then gl_entry_by_key tenant (opt_str (gc_key dto)) st else None) of
             Some w \<Rightarrow> (Inr (to_domain w), st)
           | None \<Rightarrow> (Inl err, st)))"

definition gl_known :: "gl_entry_dto \<Rightarrow> jstr \<Rightarrow> gl_store \<Rightarrow> gl_entry option" where
  "gl_known dto tenant st =
     (if given (gc_key dto) then map_option to_domain (gl_entry_by_key tenant (opt_str (gc_key dto)) st) else None)"

definition repository_create :: "gl_env \<Rightarrow> gl_entry_dto \<Rightarrow> jstr \<Rightarrow> gl_store \<Rightarrow> (gl_error + gl_entry) \<times> gl_store" where
  "repository_create gx dto tenant st =
     (case gl_known dto tenant st of Some e \<Rightarrow> (Inr e, st) | None \<Rightarrow> gl_create gx dto tenant st)"

end
