(* ===== verification/GlService.thy ===== *)
theory GlService
  imports GlLedger
begin

text \<open>
  \<open>services/gl-service/src/application/gl-service.ts\<close>: creation of journals with the period, cut-off, source and
  distribution rules, voiding and submission, and the updates of a journal under the trigger that guards its posting.
  Every operation reads its journal before its transaction, so each has a part that takes the journal as it was read:
  other calls may come between. The journal the repository returns has no year-end mark, so the year-end branches of
  posting are never taken.
\<close>

section \<open>Creation\<close>

definition period_close_status :: "gl_env \<Rightarrow> int \<Rightarrow> int \<Rightarrow> jstr" where
  "period_close_status gx y m =
     (case gx_closes gx of
        None \<Rightarrow> js ''NOT_STARTED''
      | Some cs \<Rightarrow> (case find_row (\<lambda>(a, b, s). a = y \<and> b = m) cs of None \<Rightarrow> js ''NOT_STARTED'' | Some (a, b, s) \<Rightarrow> s))"

definition check_period :: "gl_env \<Rightarrow> gl_entry_dto \<Rightarrow> gl_error + unit" where
  "check_period gx dto =
     (let (y, m) = gx_local gx (gc_date dto)
      in if period_close_status gx y m \<noteq> js ''COMPLETED'' then Inr ()
         else if gc_prior dto \<noteq> Some True then Inl (PostingPeriodClosed y m)
         else if \<not> given_trimmed (gc_reason dto) then Inl AdjustmentReasonRequired
         else Inr ())"

definition check_cutoff :: "gl_entry_dto \<Rightarrow> jstr \<Rightarrow> gl_store \<Rightarrow> gl_error + unit" where
  "check_cutoff dto tenant st =
     (case map_of (gl_cutoffs st) tenant of
        Some (Some c) \<Rightarrow> if gc_date dto < c then Inl (CutoffDateViolation (iso_day (gc_date dto)) (iso_day c)) else Inr ()
      | _ \<Rightarrow> Inr ())"

definition check_source :: "gl_entry_dto \<Rightarrow> jstr \<Rightarrow> gl_store \<Rightarrow> gl_error + unit" where
  "check_source dto tenant st =
     (if gc_source dto = [] then Inr ()
      else (case find_row (\<lambda>s. gs_tenant s = tenant \<and> gs_code s = gc_source dto \<and> gs_active s) (gl_sources st) of
              None \<Rightarrow> Inr ()
            | Some s \<Rightarrow>
                if gs_year_end s \<and> \<not> gc_year_end dto then Inl (SourceReserved (js ''Source '' @ gc_source dto @ js '' is reserved for year-end entries only''))
                else if gs_13th_month s \<and> \<not> gc_13th_month dto then Inl (SourceReserved (js ''Source '' @ gc_source dto @ js '' is reserved for 13th-month entries only''))
                else Inr ()))"

text \<open>
  Decimal arithmetic of a distribution. \<open>decimal_value\<close> is the value of the text of a number, which is what \<open>new Decimal\<close>
  reads; the last share takes up what rounding to cents leaves.
\<close>

definition pos_decimal_value :: "rat \<Rightarrow> rat" where
  "pos_decimal_value x = (let (s, n, k) = shortest_digits x in of_int s * 10 powi (n - int k))"

definition decimal_value :: "rat \<Rightarrow> rat" where
  "decimal_value x = (if x = 0 then 0 else if x < 0 then - pos_decimal_value (- x) else pos_decimal_value x)"

definition share_amounts :: "rat \<Rightarrow> int list \<Rightarrow> int list" where
  "share_amounts x ps =
     (let cs = map (\<lambda>p. half_away (x * of_int p / 100)) ps; diff = x * 100 - of_int (sum_list cs)
      in butlast cs @ [half_away (of_int (last cs) + diff)])"

fun distribute :: "jsnum \<Rightarrow> int list \<Rightarrow> jsnum list" where
  "distribute (Fin x) ps = map number_of_decimal (share_amounts (decimal_value x) ps)"
| "distribute n ps = map (\<lambda>p. n) ps"

definition shared_line :: "gl_line_dto \<Rightarrow> gl_distribution \<Rightarrow> jsnum \<Rightarrow> jsnum \<Rightarrow> gl_line_dto" where
  "shared_line l d dr cr = l\<lparr>gi_account := gd_target d, gi_debit := dr, gi_credit := cr,
     gi_memo := Some (js_trim (opt_str (gi_memo l) @ js '' [Dist '' @ num_str (number_of_decimal (gd_percentage d)) @ js ''%]''))\<rparr>"

definition expand_line :: "jstr \<Rightarrow> gl_store \<Rightarrow> gl_line_dto \<Rightarrow> gl_error + gl_line_dto list" where
  "expand_line tenant st l =
     (case find_ledger_account (gi_account l) tenant st of
        None \<Rightarrow> Inr [l]
      | Some a \<Rightarrow>
          if la_type a \<noteq> js ''DISTRIBUTION'' then Inr [l]
          else (let ds = sort_key gd_order (filter (\<lambda>d. gd_tenant d = tenant \<and> gd_account d = la_id a) (gl_distributions st));
                    ps = map gd_percentage ds
                in if length ds < 2 then Inl (DistributionIncomplete (la_code a))
                   else Inr (map (\<lambda>(d, dr, cr). shared_line l d dr cr) (zip ds (zip (distribute (gi_debit l) ps) (distribute (gi_credit l) ps))))))"

definition check_entry :: "gl_env \<Rightarrow> gl_entry_dto \<Rightarrow> jstr \<Rightarrow> gl_store \<Rightarrow> gl_error + gl_entry_dto" where
  "check_entry gx dto tenant st =
     bind_res (check_period gx dto) (\<lambda>_.
     bind_res (check_cutoff dto tenant st) (\<lambda>_.
     bind_res (check_source dto tenant st) (\<lambda>_.
     bind_res (map_res (expand_line tenant st) (gc_lines dto)) (\<lambda>ls.
       Inr (dto\<lparr>gc_lines := concat ls\<rparr>)))))"

definition create_journal_entry :: "gl_env \<Rightarrow> gl_entry_dto \<Rightarrow> jstr \<Rightarrow> gl_store \<Rightarrow> (gl_error + gl_entry) \<times> gl_store" where
  "create_journal_entry gx dto tenant st =
     (case check_entry gx dto tenant st of
        Inl e \<Rightarrow> (Inl e, st)
      | Inr full \<Rightarrow> repository_create gx full tenant st)"

section \<open>Updates of a journal\<close>

text \<open>
  An update by primary key: the trigger \<open>check_journal_balance\<close> guards the step to POSTED, and tolerates a cent.
\<close>

definition check_journal_balance :: "gl_entry \<Rightarrow> gl_entry \<Rightarrow> gl_error + unit" where
  "check_journal_balance old new =
     (if gj_status new = GL_POSTED \<and> gj_status old \<noteq> GL_POSTED
      then (let d = sum_list (map gn_debit (gj_lines new)); c = sum_list (map gn_credit (gj_lines new))
            in if 1 < \<bar>d - c\<bar> then Inl EntryUnbalanced else if d = 0 then Inl EntryWithoutDebits else Inr ())
      else Inr ())"

definition update_gl_entry :: "jstr \<Rightarrow> (gl_entry \<Rightarrow> gl_entry) \<Rightarrow> gl_store \<Rightarrow> gl_error + gl_store" where
  "update_gl_entry i f st =
     (case find_row (\<lambda>e. gj_id e = i) (gl_entries st) of
        None \<Rightarrow> Inl MissingRow
      | Some e \<Rightarrow> bind_res (check_journal_balance e (f e)) (\<lambda>_.
          Inr (st\<lparr>gl_entries := update_rows (\<lambda>r. gj_id r = i) f (gl_entries st)\<rparr>)))"

definition outbox_row :: "string \<Rightarrow> jstr \<Rightarrow> json \<Rightarrow> jstr \<Rightarrow> gl_outbox_row" where
  "outbox_row type tenant payload correlation =
     \<lparr>go_type = js type, go_tenant = tenant, go_payload = payload, go_correlation = correlation, go_published = None\<rparr>"

definition add_outbox :: "gl_outbox_row \<Rightarrow> gl_store \<Rightarrow> gl_store" where
  "add_outbox o' st = st\<lparr>gl_outbox := gl_outbox st @ [o']\<rparr>"

text \<open>After the commit the event goes to the broker, and its outbox row is marked when the broker took it.\<close>

definition publish_event :: "gl_env \<Rightarrow> string \<Rightarrow> jstr \<Rightarrow> json \<Rightarrow> gl_store \<Rightarrow> gl_store" where
  "publish_event gx type tenant payload st =
     (if gx_publishes gx
      then st\<lparr>gl_sent := gl_sent st @ [(js type, tenant, payload)],
              gl_outbox := update_rows (\<lambda>o'. go_correlation o' = gx_correlation gx \<and> go_published o' = None)
                             (\<lambda>o'. o'\<lparr>go_published := Some (gx_now gx)\<rparr>) (gl_outbox st)\<rparr>
      else st)"

definition reload_entry :: "jstr \<Rightarrow> jstr \<Rightarrow> gl_store \<Rightarrow> gl_error + gl_entry" where
  "reload_entry i tenant st = (case gl_find_entry i tenant st of None \<Rightarrow> Inl MissingRow | Some e \<Rightarrow> Inr e)"

section \<open>Voiding and submission\<close>

definition discard_read :: "gl_env \<Rightarrow> gl_entry \<Rightarrow> jstr \<Rightarrow> jstr \<Rightarrow> jstr \<Rightarrow> gl_store \<Rightarrow> (gl_error + gl_entry) \<times> gl_store" where
  "discard_read gx e tenant by reason st =
     (if gj_status e = GL_VOIDED then (Inr e, st)
      else if gj_status e \<noteq> GL_DRAFT then (Inl (InvalidStatusTransition (gj_status e) GL_DRAFT), st)
      else if given (gj_created_by e) \<and> by \<noteq> [] \<and> gj_created_by e = Some by then (Inl SegregationOfDuties, st)
      else let payload = JObj [(js ''entryId'', JStr (gj_id e)), (js ''voidedBy'', JStr by), (js ''reason'', JStr reason)]
      in (case update_gl_entry (gj_id e) (\<lambda>r. r\<lparr>gj_status := GL_VOIDED\<rparr>) st of
            Inl err \<Rightarrow> (Inl err, st)
          | Inr st1 \<Rightarrow>
              (let st2 = append_audit_rows tenant (gj_id e) ''VOIDED'' by (Some (status_json (gj_status e)))
                     (JObj [(js ''status'', JStr (gl_status_str GL_VOIDED)), (js ''reason'', JStr reason), (js ''correlationId'', JStr (gx_correlation gx))]) None st1;
                   st3 = add_outbox (outbox_row ''JOURNAL_ENTRY_VOIDED'' tenant payload (gx_correlation gx)) st2;
                   st4 = publish_event gx ''JOURNAL_ENTRY_VOIDED'' tenant payload st3
               in (reload_entry (gj_id e) tenant st4, st4))))"

definition discard_draft :: "gl_env \<Rightarrow> jstr \<Rightarrow> jstr \<Rightarrow> jstr \<Rightarrow> jstr \<Rightarrow> gl_store \<Rightarrow> (gl_error + gl_entry) \<times> gl_store" where
  "discard_draft gx i tenant by reason st =
     (case gl_find_entry i tenant st of None \<Rightarrow> (Inl (JournalEntryNotFound i), st) | Some e \<Rightarrow> discard_read gx e tenant by reason st)"

definition debits_of :: "gl_entry \<Rightarrow> jsnum" where
  "debits_of e = foldl (\<lambda>s l. num_add s (number_of_decimal (gn_debit l))) (Fin 0) (gj_lines e)"

definition credits_of :: "gl_entry \<Rightarrow> jsnum" where
  "credits_of e = foldl (\<lambda>s l. num_add s (number_of_decimal (gn_credit l))) (Fin 0) (gj_lines e)"

definition submit_read :: "gl_env \<Rightarrow> gl_entry \<Rightarrow> jstr \<Rightarrow> jstr \<Rightarrow> gl_store \<Rightarrow> (gl_error + gl_entry) \<times> gl_store" where
  "submit_read gx e tenant by st =
     (if gj_status e \<noteq> GL_DRAFT then (Inl (InvalidStatusTransition (gj_status e) GL_DRAFT), st)
      else let payload = JObj [(js ''entryId'', JStr (gj_id e)), (js ''description'', JStr (gj_description e)),
                 (js ''lineCount'', JNum (num_of_int (int (length (gj_lines e))))), (js ''totalDebits'', JNum (debits_of e))]
      in (case update_gl_entry (gj_id e) (\<lambda>r. r\<lparr>gj_status := GL_PENDING_REVIEW, gj_agent_reviewed := False\<rparr>) st of
            Inl err \<Rightarrow> (Inl err, st)
          | Inr st1 \<Rightarrow>
              (let st2 = add_outbox (outbox_row ''JOURNAL_ENTRY_SUBMITTED'' tenant payload (gx_correlation gx)) st1;
                   st3 = append_audit_rows tenant (gj_id e) ''SUBMITTED'' by (Some (status_json (gj_status e)))
                     (JObj [(js ''status'', JStr (gl_status_str GL_PENDING_REVIEW)), (js ''correlationId'', JStr (gx_correlation gx))]) None st2;
                   st4 = publish_event gx ''JOURNAL_ENTRY_SUBMITTED'' tenant payload st3
               in (reload_entry (gj_id e) tenant st4, st4))))"

definition post_journal_entry :: "gl_env \<Rightarrow> jstr \<Rightarrow> jstr \<Rightarrow> jstr \<Rightarrow> gl_store \<Rightarrow> (gl_error + gl_entry) \<times> gl_store" where
  "post_journal_entry gx i tenant by st =
     (case gl_find_entry i tenant st of None \<Rightarrow> (Inl (JournalEntryNotFound i), st) | Some e \<Rightarrow> submit_read gx e tenant by st)"

end
