(* ===== verification/GlPosting.thy ===== *)
theory GlPosting
  imports GlService
begin

text \<open>
  The posting of an approved journal in \<open>services/gl-service/src/application/gl-service.ts\<close>: the running balances of the
  period, the history rows under their unique index, the events for the schedules and the chain of a sale to its cost and
  inventory accounts, all in one serializable transaction; then the reversal, the carry-forward of a period, the
  ownership reset and the automatic posting job.
\<close>

section \<open>The two writes of a line\<close>

definition reference_of :: "gl_entry \<Rightarrow> jstr" where
  "reference_of e = take 12 (case gj_ref e of None \<Rightarrow> gj_id e | Some r \<Rightarrow> r)"

definition flag_or_blank :: "jstr option \<Rightarrow> jstr" where
  "flag_or_blank f = (case f of None \<Rightarrow> js '' '' | Some s \<Rightarrow> s)"

definition balance_for :: "gl_env \<Rightarrow> jstr \<Rightarrow> ledger_account \<Rightarrow> gl_entry \<Rightarrow> gl_journal_line \<Rightarrow> period_balance \<Rightarrow> bool" where
  "balance_for gx tenant a e l b \<longleftrightarrow> pb_tenant b = tenant \<and> pb_account b = la_id a
     \<and> (pb_year b, pb_month b) = gx_local gx (gj_date e) \<and> pb_source b = gj_source e
     \<and> pb_company b = opt_str (gn_company l) \<and> pb_store b = gn_store l \<and> pb_dept b = opt_str (gn_dept l)"

definition update_journal_balance :: "gl_env \<Rightarrow> jstr \<Rightarrow> ledger_account \<Rightarrow> gl_entry \<Rightarrow> gl_journal_line \<Rightarrow> jsnum \<Rightarrow> gl_store \<Rightarrow> gl_error + gl_store" where
  "update_journal_balance gx tenant a e l net st =
     (let u = compute_unit_count net (la_type a) (flag_or_blank (gj_rev_adj e)) (la_track_units a)
      in bind_res (column_error (rounded_cents net)) (\<lambda>i.
           case find_row (balance_for gx tenant a e l) (gl_balances st) of
             Some b \<Rightarrow> bind_res (column_error (money (pb_running b + i))) (\<lambda>r.
               Inr (st\<lparr>gl_balances := update_rows (balance_for gx tenant a e l) (\<lambda>b. b\<lparr>pb_running := r, pb_units := pb_units b + u\<rparr>) (gl_balances st)\<rparr>))
           | None \<Rightarrow> bind_res (column_error (money i)) (\<lambda>r.
               Inr (st\<lparr>gl_balances := gl_balances st @ [\<lparr>pb_tenant = tenant, pb_account = la_id a, pb_year = fst (gx_local gx (gj_date e)),
                      pb_month = snd (gx_local gx (gj_date e)), pb_source = gj_source e, pb_company = opt_str (gn_company l),
                      pb_store = gn_store l, pb_dept = opt_str (gn_dept l), pb_running = r, pb_units = u\<rparr>]\<rparr>))))"

definition history_of_line :: "gl_env \<Rightarrow> jstr \<Rightarrow> ledger_account \<Rightarrow> gl_entry \<Rightarrow> gl_journal_line \<Rightarrow> jsnum \<Rightarrow> int \<Rightarrow> nat \<Rightarrow> string \<Rightarrow> jstr option \<Rightarrow> history_row" where
  "history_of_line gx tenant a e l net amount n type by =
     \<lparr>hi_tenant = tenant, hi_source = gj_source e, hi_date = gj_date e, hi_reference = reference_of e, hi_dupe = 0, hi_line = n,
      hi_type = js type, hi_account = la_id a, hi_amount = amount,
      hi_cost = (if type = '' '' \<and> gn_apply_cd l \<noteq> Some (js ''#'') then (case gn_cost l of None \<Rightarrow> 0 | Some c \<Rightarrow> c) else 0),
      hi_apply = (if gn_apply_cd l = Some (js ''#'') then Some (case gn_apply_number l of None \<Rightarrow> reference_of e | Some s \<Rightarrow> s) else None),
      hi_control = gn_control l, hi_description = Some (case gn_memo l of None \<Rightarrow> gj_description e | Some m \<Rightarrow> m),
      hi_units = compute_unit_count net (la_type a) (flag_or_blank (gn_rev_adj l)) (la_track_units a),
      hi_rev_adj = flag_or_blank (gn_rev_adj l), hi_entered = gj_date e, hi_posted_at = gx_now gx, hi_posted_by = by,
      hi_entry = gj_id e\<rparr>"

text \<open>The unique index of the history.\<close>

definition history_key :: "history_row \<Rightarrow> jstr \<times> jstr \<times> int \<times> jstr \<times> nat \<times> nat \<times> jstr" where
  "history_key h = (hi_tenant h, hi_source h, hi_date h, hi_reference h, hi_dupe h, hi_line h, hi_type h)"

definition insert_history :: "history_row \<Rightarrow> gl_store \<Rightarrow> gl_error + gl_store" where
  "insert_history h st =
     (if list_ex (\<lambda>r. history_key r = history_key h) (gl_history st) then Inl UniqueClash
      else Inr (st\<lparr>gl_history := gl_history st @ [h]\<rparr>))"

definition write_history :: "gl_env \<Rightarrow> jstr \<Rightarrow> ledger_account \<Rightarrow> gl_entry \<Rightarrow> gl_journal_line \<Rightarrow> jsnum \<Rightarrow> nat \<Rightarrow> string \<Rightarrow> jstr option
    \<Rightarrow> gl_store \<Rightarrow> gl_error + gl_store" where
  "write_history gx tenant a e l net n type by st =
     bind_res (column_error (money_of net)) (\<lambda>amount. insert_history (history_of_line gx tenant a e l net amount n type by) st)"

section \<open>Events for the schedules\<close>

definition null_or :: "jstr option \<Rightarrow> json" where
  "null_or v = (case v of None \<Rightarrow> JNull | Some s \<Rightarrow> JStr s)"

definition posting_refs :: "gl_entry \<Rightarrow> (jstr \<times> json) list" where
  "posting_refs e = [(js ''sourceEventId'', null_or (gj_event e)), (js ''postingExecutionId'', null_or (gj_execution e)),
     (js ''businessDate'', JStr (iso_day (gj_date e))),
     (js ''postingDate'', case gj_posted_at e of None \<Rightarrow> JNull | Some t \<Rightarrow> JStr (iso_time t)),
     (js ''rulePackKey'', null_or (gj_pack e)), (js ''rulePackVersion'', null_or (gj_pack_version e))]"

definition schedule_refs :: "gl_entry \<Rightarrow> gl_journal_line \<Rightarrow> ledger_account \<Rightarrow> jsnum \<Rightarrow> (jstr \<times> json) list" where
  "schedule_refs e l a net = [(js ''scheduleNumber'', null_or (la_schedule a)), (js ''controlNumber'', JStr (opt_str (gn_control l))),
     (js ''amount'', JStr (num_str net)), (js ''referenceNumber'', JStr (reference_of e)), (js ''journalSource'', JStr (gj_source e)),
     (js ''transactionDate'', JStr (iso_time (gj_date e))),
     (js ''description'', JStr (case gn_memo l of None \<Rightarrow> gj_description e | Some m \<Rightarrow> m))]"

definition line_payload :: "jstr \<Rightarrow> gl_entry \<Rightarrow> gl_journal_line \<Rightarrow> ledger_account \<Rightarrow> jsnum \<Rightarrow> json" where
  "line_payload tenant e l a net = JObj ([(js ''tenantId'', JStr tenant), (js ''legalEntityId'', null_or (gj_entity e)),
       (js ''journalEntryId'', JStr (gj_id e)), (js ''journalNumber'', JNull)] @ posting_refs e
     @ [(js ''glAccountNumber'', JStr (la_code a))] @ schedule_refs e l a net
     @ [(js ''applyNumber'', if gn_apply_cd l = Some (js ''#'') then null_or (gn_apply_number l) else JNull),
        (js ''applyCd'', null_or (gn_apply_cd l))])"

definition chain_payload :: "jstr \<Rightarrow> gl_entry \<Rightarrow> gl_journal_line \<Rightarrow> ledger_account \<Rightarrow> jsnum \<Rightarrow> json" where
  "chain_payload tenant e l a net = JObj ([(js ''tenantId'', JStr tenant), (js ''legalEntityId'', null_or (gj_entity e)),
       (js ''journalEntryId'', JStr (gj_id e)), (js ''glAccountNumber'', JStr (la_code a)), (js ''journalNumber'', JNull)]
     @ posting_refs e @ schedule_refs e l a net)"

definition schedule_event :: "jstr \<Rightarrow> ledger_account \<Rightarrow> json \<Rightarrow> jstr \<Rightarrow> gl_store \<Rightarrow> gl_store" where
  "schedule_event tenant a payload correlation st =
     (if given (la_schedule a) then add_outbox (outbox_row ''JOURNAL_ENTRY_POSTED'' tenant payload correlation) st else st)"

section \<open>A line, and its chain\<close>

definition chain_part :: "gl_env \<Rightarrow> jstr \<Rightarrow> ledger_account \<Rightarrow> gl_entry \<Rightarrow> gl_journal_line \<Rightarrow> jsnum \<Rightarrow> nat \<Rightarrow> string \<Rightarrow> string \<Rightarrow> jstr option
    \<Rightarrow> gl_store \<Rightarrow> gl_error + gl_store" where
  "chain_part gx tenant a e l net n type ending by st =
     bind_res (update_journal_balance gx tenant a e l net st) (\<lambda>st1.
     bind_res (write_history gx tenant a e l net n type by st1) (\<lambda>st2.
       Inr (schedule_event tenant a (chain_payload tenant e l a net) (gx_chain_id gx @ js ending) st2)))"

definition post_cos_inv_chain :: "gl_env \<Rightarrow> jstr \<Rightarrow> ledger_account \<Rightarrow> gl_entry \<Rightarrow> gl_journal_line \<Rightarrow> int \<Rightarrow> nat \<Rightarrow> jstr option
    \<Rightarrow> gl_store \<Rightarrow> gl_error + gl_store" where
  "post_cos_inv_chain gx tenant main e l cost n by st =
     (case find_ledger_account (opt_str (la_cos main)) tenant st of
        None \<Rightarrow> Inr st
      | Some ca \<Rightarrow> bind_res (chain_part gx tenant ca e l (number_of_decimal cost) (n + 1) ''C'' ''-cos'' by st) (\<lambda>st1.
          case find_ledger_account (opt_str (la_inv main)) tenant st1 of
            None \<Rightarrow> Inr st1
          | Some va \<Rightarrow> chain_part gx tenant va e l (num_mul (number_of_decimal cost) (Fin (- 1))) (n + 2) ''I'' ''-inv'' by st1))"

definition chained :: "ledger_account \<Rightarrow> gl_journal_line \<Rightarrow> int option" where
  "chained a l = (if given (la_cos a) \<and> given (la_inv a) \<and> gn_apply_cd l \<noteq> Some (js ''#'')
                  then (case gn_cost l of None \<Rightarrow> None | Some c \<Rightarrow> if c = 0 then None else Some c) else None)"

definition line_net :: "gl_journal_line \<Rightarrow> jsnum" where
  "line_net l = num_sub (number_of_decimal (gn_debit l)) (number_of_decimal (gn_credit l))"

definition post_line :: "gl_env \<Rightarrow> jstr \<Rightarrow> gl_entry \<Rightarrow> jstr option \<Rightarrow> gl_store \<times> nat \<Rightarrow> gl_journal_line \<Rightarrow> gl_error + gl_store \<times> nat" where
  "post_line gx tenant e by sn l =
     (case sn of (st, n) \<Rightarrow>
       case find_ledger_account (gn_account l) tenant st of
         None \<Rightarrow> Inl (GLAccountNotFound (gn_account l))
       | Some a \<Rightarrow>
           bind_res (update_journal_balance gx tenant a e l (line_net l) st) (\<lambda>st1.
           bind_res (write_history gx tenant a e l (line_net l) n '' '' by st1) (\<lambda>st2.
             let st3 = schedule_event tenant a (line_payload tenant e l a (line_net l)) (gx_correlation gx @ js ''-line-'' @ nat_str n) st2
             in (case chained a l of
                   None \<Rightarrow> Inr (st3, n + 1)
                 | Some cost \<Rightarrow> bind_res (post_cos_inv_chain gx tenant a e l cost n by st3) (\<lambda>st4. Inr (st4, n + 3))))))"

section \<open>Approval\<close>

definition agent_or :: "jstr option \<Rightarrow> jstr" where
  "agent_or by = (case by of None \<Rightarrow> js ''GL_AGENT'' | Some u \<Rightarrow> u)"

definition posted_payload_of :: "jstr \<Rightarrow> gl_entry \<Rightarrow> json" where
  "posted_payload_of tenant e = JObj ([(js ''entryId'', JStr (gj_id e)), (js ''tenantId'', JStr tenant), (js ''legalEntityId'', null_or (gj_entity e)),
       (js ''journalNumber'', JNull)] @ posting_refs e
     @ [(js ''totalDebits'', JNum (debits_of e)), (js ''totalCredits'', JNum (credits_of e)),
        (js ''lineCount'', JNum (num_of_int (int (length (gj_lines e)))))])"

definition mark_posted :: "gl_env \<Rightarrow> jstr option \<Rightarrow> gl_entry \<Rightarrow> gl_entry" where
  "mark_posted gx by r = r\<lparr>gj_status := GL_POSTED, gj_posted_by := Some (agent_or by), gj_posted_at := Some (gx_now gx),
     gj_approved_by := Some (agent_or by), gj_approved_at := Some (gx_now gx)\<rparr>"

definition approve_tx :: "gl_env \<Rightarrow> gl_entry \<Rightarrow> jstr \<Rightarrow> jstr option \<Rightarrow> gl_store \<Rightarrow> gl_error + gl_store" where
  "approve_tx gx e tenant by st =
     bind_res (update_gl_entry (gj_id e) (mark_posted gx by) st) (\<lambda>st1.
     bind_res (fold_res (post_line gx tenant e by) (st1, 1) (gj_lines e)) (\<lambda>(st2, n).
       Inr (append_audit_rows tenant (gj_id e) ''APPROVED_POSTED'' (agent_or by) (Some (status_json (gj_status e)))
         (JObj [(js ''status'', JStr (gl_status_str GL_POSTED)), (js ''totalDebits'', JNum (debits_of e)), (js ''totalCredits'', JNum (credits_of e)),
                (js ''lineCount'', JNum (num_of_int (int (length (gj_lines e))))), (js ''postedAt'', JStr (iso_time (gx_now gx)))]) None
         (add_outbox (outbox_row ''JOURNAL_ENTRY_POSTED'' tenant (posted_payload_of tenant e) (gx_correlation gx)) st2))))"

fun check_accounts_of :: "jstr \<Rightarrow> gl_store \<Rightarrow> jstr list \<Rightarrow> gl_error + unit" where
  "check_accounts_of tenant st [] = Inr ()"
| "check_accounts_of tenant st (i # is) =
     (case find_ledger_account i tenant st of
        None \<Rightarrow> Inl (GLAccountNotFound i)
      | Some a \<Rightarrow> if \<not> la_active a then Inl (GLAccountInactive (la_code a) (la_name a))
                   else if \<not> la_allow_posting a then Inl (GLAccountHeader (la_code a) (la_name a))
                   else check_accounts_of tenant st is)"

definition validate_accounts :: "gl_journal_line list \<Rightarrow> jstr \<Rightarrow> gl_store \<Rightarrow> gl_error + unit" where
  "validate_accounts ls tenant st = check_accounts_of tenant st (rev (remdups (rev (map gn_account ls))))"

fun gl_attempts_from :: "(nat \<Rightarrow> gl_error + 'a) \<Rightarrow> nat list \<Rightarrow> gl_error + 'a" where
  "gl_attempts_from run [] = Inl (Db RetryExhausted)"
| "gl_attempts_from run (n # ns) =
     (case run n of
        Inr v \<Rightarrow> Inr v
      | Inl e \<Rightarrow> if e = Db SerializationFailure \<and> n < 5 then gl_attempts_from run ns else Inl e)"

definition gl_serializable :: "gl_env \<Rightarrow> (gl_error + 'a) \<Rightarrow> gl_error + 'a" where
  "gl_serializable gx r = gl_attempts_from (\<lambda>n. if gx_conflict gx n then Inl (Db SerializationFailure) else r) [1, 2, 3, 4, 5]"

text \<open>
  The automatic offset of intercompany lines, after the commit, selects a column \<open>accountCode\<close> that the account table
  does not have: the query is refused and the refusal is swallowed, so there is nothing of it to model.
\<close>

definition approve_read :: "gl_env \<Rightarrow> gl_entry \<Rightarrow> jstr \<Rightarrow> jstr option \<Rightarrow> gl_store \<Rightarrow> (gl_error + gl_entry) \<times> gl_store" where
  "approve_read gx e tenant by st =
     (if gj_status e \<noteq> GL_PENDING_REVIEW then (Inl (InvalidStatusTransition (gj_status e) GL_PENDING_REVIEW), st)
      else if gj_source e \<notin> {js ''DMS-RO'', js ''AUTOMATE_DMS''} \<and> given (gj_created_by e) \<and> given by \<and> gj_created_by e = by
      then (Inl SegregationOfDuties, st)
      else (case bind_res (validate_accounts (gj_lines e) tenant st) (\<lambda>_. gl_serializable gx (approve_tx gx e tenant by st)) of
              Inl err \<Rightarrow> (Inl err, st)
            | Inr st1 \<Rightarrow>
                (let st2 = publish_event gx ''JOURNAL_ENTRY_POSTED'' tenant
                       (JObj [(js ''entryId'', JStr (gj_id e)), (js ''totalDebits'', JNum (debits_of e)), (js ''totalCredits'', JNum (credits_of e))]) st1
                 in (reload_entry (gj_id e) tenant st2, st2))))"

definition approve_journal_entry :: "gl_env \<Rightarrow> jstr \<Rightarrow> jstr \<Rightarrow> jstr option \<Rightarrow> gl_store \<Rightarrow> (gl_error + gl_entry) \<times> gl_store" where
  "approve_journal_entry gx i tenant by st =
     (case gl_find_entry i tenant st of None \<Rightarrow> (Inl (JournalEntryNotFound i), st) | Some e \<Rightarrow> approve_read gx e tenant by st)"

section \<open>Reversal\<close>

text \<open>Amounts read from a column and written back are unchanged; what is not named is empty in the new line.\<close>

definition swapped_line :: "gl_journal_line \<Rightarrow> gl_journal_line" where
  "swapped_line l = \<lparr>gn_account = gn_account l, gn_debit = gn_credit l, gn_credit = gn_debit l,
     gn_memo = Some (js ''REVERSAL: '' @ opt_str (gn_memo l)), gn_store = gn_store l, gn_dept = gn_dept l, gn_control = gn_control l,
     gn_apply_cd = Some (js ''#''), gn_apply_number = None, gn_company = gn_company l, gn_cost = None,
     gn_apply_to_cost = gn_apply_to_cost l, gn_units = gn_units l, gn_rev_adj = None,
     gn_tags = filter (\<lambda>(k, v). k \<in> {js ''technicianId'', js ''roNumber''}) (gn_tags l)\<rparr>"

definition reversal_entry :: "gl_env \<Rightarrow> gl_entry \<Rightarrow> jstr \<Rightarrow> int \<Rightarrow> jstr \<Rightarrow> gl_entry" where
  "reversal_entry gx e tenant date reason =
     (let ref = (case gj_ref e of None \<Rightarrow> gj_id e | Some r \<Rightarrow> r)
      in \<lparr>gj_id = gx_id gx, gj_tenant = tenant, gj_date = date, gj_description = js ''REVERSAL of '' @ ref @ js '': '' @ reason,
          gj_source = gj_source e, gj_ref = Some (js ''REV-'' @ ref), gj_posted_by = None, gj_posted_at = None, gj_status = GL_DRAFT,
          gj_agent_reviewed = False, gj_created_at = gx_now gx, gj_created_by = None, gj_approved_by = None, gj_approved_at = None,
          gj_prior = False, gj_reason = None, gj_rev_adj = Some (js ''R''), gj_reversal_of = Some (gj_id e), gj_reversed_by = None,
          gj_reconciled = False, gj_key = None, gj_entity = None, gj_execution = None, gj_pack = None, gj_pack_version = None,
          gj_event = None, gj_lines = map swapped_line (gj_lines e)\<rparr>)"

definition gl_reverse_tx :: "gl_env \<Rightarrow> gl_entry \<Rightarrow> jstr \<Rightarrow> int \<Rightarrow> jstr \<Rightarrow> jstr \<Rightarrow> gl_store \<Rightarrow> gl_error + gl_store" where
  "gl_reverse_tx gx e tenant date reason by st =
     bind_res (insert_gl_entry (reversal_entry gx e tenant date reason) st) (\<lambda>st1.
     bind_res (update_gl_entry (gj_id e) (\<lambda>r. r\<lparr>gj_status := GL_REVERSED, gj_reversed_by := Some (gx_id gx)\<rparr>) st1) (\<lambda>st2.
       Inr (append_audit_rows tenant (gj_id e) ''REVERSED'' by (Some (status_json (gj_status e)))
         (JObj [(js ''status'', JStr (gl_status_str GL_REVERSED)), (js ''reversalEntryId'', JStr (gx_id gx)),
                (js ''reversalDate'', JStr (iso_time date)), (js ''reason'', JStr reason)])
         (Some (''journal_entry.reversed'', gx_event_id gx, gx_now gx))
         (st2\<lparr>gl_history := update_rows (\<lambda>h. hi_entry h = gj_id e \<and> hi_tenant h = tenant) (\<lambda>h. h\<lparr>hi_rev_adj := js ''R''\<rparr>) (gl_history st2)\<rparr>))))"

definition reverse_read :: "gl_env \<Rightarrow> gl_entry \<Rightarrow> jstr \<Rightarrow> int \<Rightarrow> jstr \<Rightarrow> jstr \<Rightarrow> gl_store \<Rightarrow> (gl_error + gl_entry) \<times> gl_store" where
  "reverse_read gx e tenant date reason by st =
     (if gj_status e \<noteq> GL_POSTED then (Inl (InvalidStatusTransition (gj_status e) GL_POSTED), st)
      else if gj_reconciled e then (Inl ReconciledEntry, st)
      else (case gl_reverse_tx gx e tenant date reason by st of
              Inl err \<Rightarrow> (Inl err, st)
            | Inr st1 \<Rightarrow> (reload_entry (gx_id gx) tenant st1, st1)))"

definition reverse_journal_entry :: "gl_env \<Rightarrow> jstr \<Rightarrow> jstr \<Rightarrow> int \<Rightarrow> jstr \<Rightarrow> jstr \<Rightarrow> gl_store \<Rightarrow> (gl_error + gl_entry) \<times> gl_store" where
  "reverse_journal_entry gx i tenant date reason by st =
     (case gl_find_entry i tenant st of None \<Rightarrow> (Inl (JournalEntryNotFound i), st) | Some e \<Rightarrow> reverse_read gx e tenant date reason by st)"

section \<open>The period's carry-forward and the ownership reset\<close>

definition in_period :: "jstr \<Rightarrow> int \<Rightarrow> int \<Rightarrow> period_balance \<Rightarrow> bool" where
  "in_period tenant y m b \<longleftrightarrow> pb_tenant b = tenant \<and> pb_year b = y \<and> pb_month b = m"

text \<open>One account's group: its balances of the period are added to its opening balance.\<close>

definition carry_account :: "jstr \<Rightarrow> period_balance list \<Rightarrow> ledger_account list \<times> nat \<Rightarrow> jstr \<Rightarrow> gl_error + ledger_account list \<times> nat" where
  "carry_account tenant bs an i =
     (case an of (as, n) \<Rightarrow>
       let net = number_of_decimal (sum_list (map pb_running (filter (\<lambda>b. pb_account b = i) bs)));
           units = sum_list (map pb_units (filter (\<lambda>b. pb_account b = i) bs))
       in if num_eq net (Fin 0) \<and> units = 0 then Inr (as, n)
          else bind_res (column_error (rounded_cents net)) (\<lambda>c.
            bind_res (map_res (\<lambda>a. if la_id a = i \<and> la_tenant a = tenant
                                   then bind_res (column_error (money (la_opening a + c))) (\<lambda>o'. Inr (a\<lparr>la_opening := o', la_opening_units := la_opening_units a + units\<rparr>))
                                   else Inr a) as) (\<lambda>as'. Inr (as', n + 1))))"

record carry_result =
  cf_accounts :: nat
  cf_purged :: nat
  cf_consolidated :: nat

definition carry_forward_tx :: "jstr \<Rightarrow> int \<Rightarrow> int \<Rightarrow> int option \<Rightarrow> gl_store \<Rightarrow> gl_error + carry_result \<times> gl_store" where
  "carry_forward_tx tenant y m cutoff st =
     (let bs = filter (in_period tenant y m) (gl_balances st);
          old = (\<lambda>h. case cutoff of None \<Rightarrow> False | Some t \<Rightarrow> hi_tenant h = tenant \<and> hi_date h < t)
      in bind_res (fold_res (carry_account tenant bs) (gl_accounts st, 0) (remdups (map pb_account bs))) (\<lambda>(as, n).
           Inr (\<lparr>cf_accounts = n, cf_purged = length (filter old (gl_history st)), cf_consolidated = length bs\<rparr>,
                st\<lparr>gl_accounts := as, gl_balances := filter (\<lambda>b. \<not> in_period tenant y m b) (gl_balances st),
                   gl_history := filter (\<lambda>h. \<not> old h) (gl_history st)\<rparr>)))"

definition carry_forward :: "gl_env \<Rightarrow> jstr \<Rightarrow> int \<Rightarrow> int \<Rightarrow> int option \<Rightarrow> gl_store \<Rightarrow> (gl_error + carry_result) \<times> gl_store" where
  "carry_forward gx tenant y m cutoff st =
     (case gl_serializable gx (carry_forward_tx tenant y m cutoff st) of Inl e \<Rightarrow> (Inl e, st) | Inr (r, st1) \<Rightarrow> (Inr r, st1))"

definition reset_ownership :: "gl_env \<Rightarrow> jstr \<Rightarrow> jstr \<Rightarrow> bool \<Rightarrow> bool \<Rightarrow> gl_store \<Rightarrow> (gl_error + nat \<times> nat \<times> nat) \<times> gl_store" where
  "reset_ownership gx tenant by schedules periods st =
     (case gl_serializable gx (Inr ()) of
        Inl e \<Rightarrow> (Inl e, st)
      | Inr _ \<Rightarrow>
         (let mine = (\<lambda>a. la_tenant a = tenant); n = length (filter mine (gl_accounts st));
              s = (if schedules then length (filter (\<lambda>a. mine a \<and> la_schedule a \<noteq> None) (gl_accounts st)) else 0);
              p = (if periods then length (filter (\<lambda>b. pb_tenant b = tenant) (gl_balances st)) else 0);
              num = (\<lambda>k. JNum (num_of_int (int k)))
          in (Inr (n, p, s), add_outbox (outbox_row ''OWNERSHIP_CHANGE_RESET'' tenant
                (JObj [(js ''initiatedBy'', JStr by), (js ''accountsReset'', num n), (js ''periodBalancesDeleted'', num p), (js ''scheduleAssignmentsCleared'', num s),
                   (js ''options'', JObj [(js ''clearScheduleAssignments'', JBool schedules), (js ''clearPeriodBalances'', JBool periods)]),
                   (js ''timestamp'', JStr (iso_time (gx_now gx)))]) (gx_correlation gx))
              (st\<lparr>gl_accounts := update_rows mine (\<lambda>a. a\<lparr>la_opening := 0, la_opening_units := 0, la_schedule := if schedules then None else la_schedule a\<rparr>) (gl_accounts st),
                 gl_balances := if periods then filter (\<lambda>b. pb_tenant b \<noteq> tenant) (gl_balances st) else gl_balances st\<rparr>))))"

section \<open>The automatic posting job\<close>

record auto_result =
  ap_posted :: nat
  ap_failed :: nat
  ap_total :: nat

fun auto_post_all :: "(jstr \<Rightarrow> gl_env) \<Rightarrow> jstr \<Rightarrow> gl_entry list \<Rightarrow> nat \<times> nat \<Rightarrow> gl_store \<Rightarrow> (nat \<times> nat) \<times> gl_store" where
  "auto_post_all gxs tenant [] pf st = (pf, st)"
| "auto_post_all gxs tenant (e # es) pf st =
     (case approve_journal_entry (gxs (gj_id e)) (gj_id e) tenant (Some (js ''AUTO_POST_JOB'')) st of
        (Inr r, st1) \<Rightarrow> auto_post_all gxs tenant es (fst pf + 1, snd pf) st1
      | (Inl err, st1) \<Rightarrow> auto_post_all gxs tenant es (fst pf, snd pf + 1) st1)"

definition auto_post :: "(jstr \<Rightarrow> gl_env) \<Rightarrow> jstr \<Rightarrow> gl_store \<Rightarrow> auto_result \<times> gl_store" where
  "auto_post gxs tenant st =
     (let codes = map gs_code (filter (\<lambda>s. gs_tenant s = tenant \<and> gs_auto_post s \<and> gs_active s) (gl_sources st));
          drafts = take 100 (sort_key gj_created_at (filter (\<lambda>e. gj_tenant e = tenant \<and> gj_status e = GL_DRAFT \<and> gj_source e \<in> set codes) (gl_entries st)))
      in (case auto_post_all gxs tenant drafts (0, 0) st of
            ((p, f), st1) \<Rightarrow> (\<lparr>ap_posted = p, ap_failed = f, ap_total = length drafts\<rparr>, st1)))"

end
