(* ===== verification/GlMoney.thy ===== *)
theory GlMoney
  imports GlPosting PostingMoney
begin

text \<open>
  The arithmetic of the general ledger: amounts leave their columns as doubles, are subtracted, and go back into columns
  of cents. Within the range of the columns nothing is lost.
\<close>

lemma to_num_within:
  assumes "x = 0 \<or> 1 / 1024 \<le> \<bar>x\<bar>" and "\<bar>x\<bar> \<le> 2 ^ 52"
  obtains q where "to_num x = Fin q" and "\<bar>q - x\<bar> \<le> \<bar>x\<bar> / 2 ^ 53"
proof (cases "x = 0")
  case False
  then have x: "1 / 1024 \<le> \<bar>x\<bar>" using assms(1) by simp
  show ?thesis using that [OF to_num_near [OF x assms(2)] fl_rat_near [OF x]] .
qed (use that [of 0] in simp)

lemma rounded_near: "\<bar>q * 100 - of_int c\<bar> < 1 / 2 \<Longrightarrow> rounded_cents (Fin q) = Inr c"
  by (simp add: half_away_near)

lemma half_floor [simp]: "\<lfloor>1 / 2 :: rat\<rfloor> = 0"
  by (simp add: floor_eq_iff)

lemma of_int_bound: "\<bar>c\<bar> \<le> 2 ^ n \<Longrightarrow> \<bar>of_int c :: rat\<bar> \<le> 2 ^ n"
  using of_int_le_iff [of "\<bar>c\<bar>" "2 ^ n", where 'a = rat] by simp

lemma of_int_fits: "fits_money c \<Longrightarrow> \<bar>of_int c :: rat\<bar> \<le> 10 ^ 15"
  using of_int_le_iff [of "\<bar>c\<bar>" "10 ^ 15", where 'a = rat] by (simp add: fits_money_def)

lemma of_int_nonzero: "c \<noteq> 0 \<Longrightarrow> 1 \<le> \<bar>of_int c :: rat\<bar>"
  using of_int_le_iff [of 1 "\<bar>c\<bar>", where 'a = rat] by simp

lemma decimal_close:
  assumes "\<bar>c\<bar> \<le> 2 ^ 51"
  obtains q where "number_of_decimal c = Fin q" and "\<bar>q - of_int c / 100\<bar> \<le> \<bar>of_int c :: rat\<bar> / 100 / 2 ^ 53"
proof -
  have b: "\<bar>of_int c / 100 :: rat\<bar> \<le> 2 ^ 52" using of_int_bound [OF assms] by simp
  have z: "of_int c / 100 = (0 :: rat) \<or> 1 / 1024 \<le> \<bar>of_int c / 100 :: rat\<bar>"
    using of_int_nonzero [of c] by (cases "c = 0") auto
  show ?thesis using to_num_within [OF z b] that unfolding number_of_decimal_def by auto
qed

lemma rounded_decimal:
  assumes "\<bar>c\<bar> \<le> 2 ^ 51"
  shows "rounded_cents (number_of_decimal c) = Inr c"
proof -
  obtain q where q: "number_of_decimal c = Fin q" "\<bar>q - of_int c / 100\<bar> \<le> \<bar>of_int c :: rat\<bar> / 100 / 2 ^ 53"
    using decimal_close [OF assms] .
  have "\<bar>of_int c :: rat\<bar> / 100 / 2 ^ 53 \<le> 1 / 400" using of_int_bound [OF assms] by simp
  then have "\<bar>q - of_int c / 100\<bar> < 1 / 200" using q(2) by linarith
  then have "\<bar>q * 100 - of_int c\<bar> < 1 / 2" by (simp add: abs_if split: if_splits)
  then show ?thesis unfolding q(1) by (rule rounded_near)
qed

lemma decimal_zero: "number_of_decimal 0 = Fin 0"
  by (simp add: number_of_decimal_def)

lemma money_decimal: "fits_money c \<Longrightarrow> money_of (number_of_decimal c) = Inr c"
  using rounded_decimal [of c] by (simp add: money_of_def fits_money_def)

text \<open>A column that takes the sum of a balance and a number takes the exact sum.\<close>

lemma rounded_decimal_small:
  assumes "rounded_cents (number_of_decimal c) = Inr r" and "\<bar>r\<bar> < 2 * 10 ^ 15"
  shows "r = c"
proof (cases "\<bar>c\<bar> \<le> 2 ^ 51")
  case True
  then show ?thesis using assms(1) rounded_decimal by simp
next
  case False
  define z where "z = (of_int c / 100 :: rat)"
  have l: "2 ^ 51 / 100 \<le> \<bar>z\<bar>" using False of_int_le_iff [of "2 ^ 51" "\<bar>c\<bar>", where 'a = rat] by (simp add: z_def)
  have "\<bar>fl_rat z - z\<bar> \<le> \<bar>z\<bar> / 2 ^ 53" by (intro fl_rat_near order_trans [OF _ l]) simp
  then have "\<bar>z\<bar> * (1 - 1 / 2 ^ 53) \<le> \<bar>fl_rat z\<bar>" by (simp add: right_diff_distrib abs_if split: if_splits)
  moreover have "2 ^ 51 / 100 * (1 - 1 / 2 ^ 53) \<le> \<bar>z\<bar> * (1 - 1 / 2 ^ (53 :: nat))" using l by (intro mult_right_mono) simp_all
  ultimately have "2 ^ 51 / 100 * (1 - 1 / 2 ^ (53 :: nat)) \<le> \<bar>fl_rat z\<bar>" by linarith
  then have big: "2 * 10 ^ 15 + 1 \<le> \<bar>fl_rat z * 100\<bar>" by (simp add: abs_mult)
  have "number_of_decimal c = Fin (fl_rat z)"
    using assms(1) by (auto simp: number_of_decimal_def z_def [symmetric] to_num_def Let_def split: if_splits)
  then have r: "r = half_away (fl_rat z * 100)" using assms(1) by simp
  have "of_int (2 * 10 ^ 15) \<le> \<bar>fl_rat z * 100\<bar> - 1" using big by simp
  moreover have "\<bar>fl_rat z * 100\<bar> - 1 \<le> \<bar>of_int r :: rat\<bar>"
    unfolding r half_away_def by (cases "0 \<le> fl_rat z * 100") (simp_all, linarith+)
  ultimately have "of_int (2 * 10 ^ 15) \<le> (of_int \<bar>r\<bar> :: rat)" by simp
  then have "2 * 10 ^ 15 \<le> \<bar>r\<bar>" by (simp only: of_int_le_iff)
  then show ?thesis using assms(2) by simp
qed

lemma decimal_nonzero:
  assumes "num_eq (number_of_decimal c) (Fin 0)"
  shows "c = 0"
proof -
  have "number_of_decimal c = Fin 0" using assms by (cases "number_of_decimal c") (auto simp: num_eq_def)
  then show ?thesis using rounded_decimal_small [of c 0] by (simp add: half_away_def)
qed

text \<open>The net amount of a line, from its two columns.\<close>

lemma line_net_exact:
  assumes "fits_money d" and "fits_money c"
  shows "rounded_cents (num_sub (number_of_decimal d) (number_of_decimal c)) = Inr (d - c)"
proof (cases "d = c")
  case True
  have "\<bar>c\<bar> \<le> 2 ^ 51" using assms(2) by (simp add: fits_money_def)
  then obtain q where "number_of_decimal c = Fin q" by (rule decimal_close)
  then show ?thesis using True by (simp add: num_sub_def half_away_def)
next
  case False
  have r: "\<bar>d\<bar> \<le> 2 ^ 51" "\<bar>c\<bar> \<le> 2 ^ 51" using assms by (simp_all add: fits_money_def)
  obtain a where a: "number_of_decimal d = Fin a" "\<bar>a - of_int d / 100\<bar> \<le> \<bar>of_int d :: rat\<bar> / 100 / 2 ^ 53" using decimal_close [OF r(1)] .
  obtain b where b: "number_of_decimal c = Fin b" "\<bar>b - of_int c / 100\<bar> \<le> \<bar>of_int c :: rat\<bar> / 100 / 2 ^ 53" using decimal_close [OF r(2)] .
  define z where "z = (of_int (d - c) / 100 :: rat)"
  have z: "1 / 100 \<le> \<bar>z\<bar>" "\<bar>z\<bar> \<le> 2 * 10 ^ 13"
    using of_int_nonzero [of "d - c"] False of_int_fits [OF assms(1)] of_int_fits [OF assms(2)] by (simp_all add: z_def)
  have near: "\<bar>(a - b) - z\<bar> \<le> 223 / 100000"
  proof -
    have "\<bar>a - of_int d / 100\<bar> \<le> 1115 / 1000000" using of_int_fits [OF assms(1)] by (intro order_trans [OF a(2)]) simp
    moreover have "\<bar>b - of_int c / 100\<bar> \<le> 1115 / 1000000" using of_int_fits [OF assms(2)] by (intro order_trans [OF b(2)]) simp
    moreover have "(a - b) - z = (a - of_int d / 100) - (b - of_int c / 100)" by (simp add: z_def diff_divide_distrib)
    moreover have "\<bar>(a - of_int d / 100) - (b - of_int c / 100)\<bar> \<le> \<bar>a - of_int d / 100\<bar> + \<bar>b - of_int c / 100\<bar>" by (rule abs_triangle_ineq4)
    ultimately show ?thesis by linarith
  qed
  have x: "1 / 1024 \<le> \<bar>a - b\<bar>" "\<bar>a - b\<bar> \<le> 2 * 10 ^ 13 + 1" using near z by linarith+
  then have x2: "\<bar>a - b\<bar> \<le> 2 ^ 52" by simp
  obtain q where q: "to_num (a - b) = Fin q" "\<bar>q - (a - b)\<bar> \<le> \<bar>a - b\<bar> / 2 ^ 53"
    using to_num_within [OF disjI2 [OF x(1)] x2] .
  have "\<bar>a - b\<bar> / 2 ^ 53 \<le> 223 / 100000" using x(2) by simp
  then have "\<bar>q - z\<bar> < 1 / 200" using q(2) near by linarith
  moreover have "z * 100 = of_int (d - c)" by (simp add: z_def)
  ultimately have "\<bar>q * 100 - of_int (d - c)\<bar> < 1 / 2" unfolding abs_less_iff by linarith
  then have "rounded_cents (Fin q) = Inr (d - c)" by (rule rounded_near)
  then show ?thesis by (simp add: a(1) b(1) num_sub_def q(1))
qed

lemma negated_decimal:
  assumes "fits_money c"
  shows "rounded_cents (num_mul (number_of_decimal c) (Fin (- 1))) = Inr (- c)"
proof (cases "c = 0")
  case True
  have "rounded_cents (number_of_decimal 0) = Inr 0" by (rule rounded_decimal) simp
  then show ?thesis by (simp add: True decimal_zero)
next
  case False
  have r: "\<bar>c\<bar> \<le> 2 ^ 51" using assms by (simp add: fits_money_def)
  obtain a where a: "number_of_decimal c = Fin a" "\<bar>a - of_int c / 100\<bar> \<le> \<bar>of_int c :: rat\<bar> / 100 / 2 ^ 53" using decimal_close [OF r] .
  have c: "1 \<le> \<bar>of_int c :: rat\<bar>" "\<bar>of_int c :: rat\<bar> \<le> 10 ^ 15" using of_int_nonzero [OF False] of_int_fits [OF assms] .
  have near: "\<bar>a - of_int c / 100\<bar> \<le> 223 / 100000" using c(2) by (intro order_trans [OF a(2)]) simp
  have x: "1 / 1024 \<le> \<bar>- a\<bar>" "\<bar>- a\<bar> \<le> 10 ^ 13 + 1" using near c by (simp_all add: abs_if split: if_splits)
  then have x2: "\<bar>- a\<bar> \<le> 2 ^ 52" by simp
  obtain q where q: "to_num (- a) = Fin q" "\<bar>q - - a\<bar> \<le> \<bar>- a\<bar> / 2 ^ 53" using to_num_within [OF disjI2 [OF x(1)] x2] .
  have "\<bar>- a\<bar> / 2 ^ 53 \<le> 223 / 100000" using x(2) by simp
  then have "\<bar>q - - (of_int c / 100)\<bar> < 1 / 200" using q(2) near by linarith
  then have "\<bar>q * 100 - of_int (- c)\<bar> < 1 / 2" by (simp add: abs_if split: if_splits)
  then have "rounded_cents (Fin q) = Inr (- c)" by (rule rounded_near)
  then show ?thesis by (simp add: a(1) q(1))
qed

end
