(* ===== verification/GlEffect.thy ===== *)
theory GlEffect
  imports GlMoney
begin

text \<open>
  What a posting transaction of the general ledger does to the running balances and the history: the history rows it
  appends belong to the journal, and every account's balance moves by the sum of its new rows.
\<close>

section \<open>Balances and totals of an account\<close>

definition balance_key :: "period_balance \<Rightarrow> jstr \<times> jstr \<times> int \<times> int \<times> jstr \<times> jstr \<times> jstr \<times> jstr" where
  "balance_key b = (pb_tenant b, pb_account b, pb_year b, pb_month b, pb_source b, pb_company b, pb_store b, pb_dept b)"

definition of_account :: "jstr \<Rightarrow> jstr \<Rightarrow> period_balance \<Rightarrow> bool" where
  "of_account t a b \<longleftrightarrow> pb_tenant b = t \<and> pb_account b = a"

definition running_sum :: "jstr \<Rightarrow> jstr \<Rightarrow> period_balance list \<Rightarrow> int" where
  "running_sum t a bs = sum_list (map pb_running (filter (of_account t a) bs))"

definition amount_sum :: "jstr \<Rightarrow> jstr \<Rightarrow> history_row list \<Rightarrow> int" where
  "amount_sum t a hs = sum_list (map hi_amount (filter (\<lambda>h. hi_tenant h = t \<and> hi_account h = a) hs))"

definition opening_sum :: "jstr \<Rightarrow> jstr \<Rightarrow> ledger_account list \<Rightarrow> int" where
  "opening_sum t a as = sum_list (map la_opening (filter (\<lambda>x. la_tenant x = t \<and> la_id x = a) as))"

lemma running_sum_simps [simp]:
  "running_sum t a [] = 0"
  "running_sum t a (b # bs) = (if of_account t a b then pb_running b else 0) + running_sum t a bs"
  "running_sum t a (bs @ cs) = running_sum t a bs + running_sum t a cs"
  by (simp_all add: running_sum_def)

lemma amount_sum_simps [simp]:
  "amount_sum t a [] = 0"
  "amount_sum t a (h # hs) = (if hi_tenant h = t \<and> hi_account h = a then hi_amount h else 0) + amount_sum t a hs"
  "amount_sum t a (hs @ ks) = amount_sum t a hs + amount_sum t a ks"
  by (simp_all add: amount_sum_def)

lemma opening_sum_simps [simp]:
  "opening_sum t a [] = 0"
  "opening_sum t a (x # xs) = (if la_tenant x = t \<and> la_id x = a then la_opening x else 0) + opening_sum t a xs"
  by (simp_all add: opening_sum_def)

text \<open>A table with a unique index has one row of a key; updating it changes a sum by the change of that row.\<close>

lemma update_absent: "K \<notin> key ` set bs \<Longrightarrow> update_rows (\<lambda>b. key b = K) f bs = bs"
  by (induction bs) auto

lemma running_sum_update:
  assumes "distinct (map balance_key bs)" and "find_row (\<lambda>b. balance_key b = K) bs = Some r"
    and "\<And>b. of_account t a (f b) = of_account t a b"
  shows "running_sum t a (update_rows (\<lambda>b. balance_key b = K) f bs)
    = running_sum t a bs + (if of_account t a r then pb_running (f r) - pb_running r else 0)"
  using assms
proof (induction bs)
  case (Cons b bs)
  show ?case
  proof (cases "balance_key b = K")
    case True
    then have "K \<notin> balance_key ` set bs" using Cons.prems(1) by auto
    then have "update_rows (\<lambda>b. balance_key b = K) f bs = bs" by (rule update_absent)
    moreover have "r = b" using Cons.prems(2) True by simp
    ultimately show ?thesis using True by (simp add: assms(3))
  next
    case False
    then show ?thesis using Cons by simp
  qed
qed simp

section \<open>One write\<close>

definition same_static :: "gl_store \<Rightarrow> gl_store \<Rightarrow> bool" where
  "same_static st st' \<longleftrightarrow> gl_accounts st' = gl_accounts st \<and> gl_entries st' = gl_entries st"

definition owners :: "gl_store \<Rightarrow> (jstr \<times> jstr) set" where
  "owners st = (\<lambda>a. (la_tenant a, la_id a)) ` set (gl_accounts st)"

definition balances_ok :: "gl_store \<Rightarrow> bool" where
  "balances_ok st \<longleftrightarrow> distinct (map balance_key (gl_balances st))
     \<and> (\<lambda>b. (pb_tenant b, pb_account b)) ` set (gl_balances st) \<subseteq> owners st"

lemma balance_for_key:
  "balance_for gx t a e l = (\<lambda>b. balance_key b = (t, la_id a, fst (gx_local gx (gj_date e)), snd (gx_local gx (gj_date e)), gj_source e,
     opt_str (gn_company l), gn_store l, opt_str (gn_dept l)))"
  by (auto simp: fun_eq_iff balance_for_def balance_key_def prod_eq_iff)

lemma find_account_owner: "find_ledger_account i t st = Some a \<Longrightarrow> la_id a = i \<and> la_tenant a = t \<and> (t, i) \<in> owners st"
  unfolding find_ledger_account_def owners_def by (drule find_row_Some) force

lemma money_rounded: "column_error (money x) = Inr r \<longleftrightarrow> r = x \<and> fits_money x"
  by (auto simp: column_error_def money_def)

lemma column_Inr [simp]: "column_error r = Inr v \<longleftrightarrow> r = Inr v"
  by (cases r) (auto simp: column_error_def)

lemma balance_effect:
  assumes "update_journal_balance gx T A e l net st = Inr st'" and "rounded_cents net = Inr i"
    and "(T, la_id A) \<in> owners st" and "balances_ok st"
  shows "st' = st\<lparr>gl_balances := gl_balances st'\<rparr> \<and> balances_ok st'
     \<and> (\<forall>t a. running_sum t a (gl_balances st') = running_sum t a (gl_balances st) + (if t = T \<and> a = la_id A then i else 0))"
proof -
  define K where "K = (T, la_id A, fst (gx_local gx (gj_date e)), snd (gx_local gx (gj_date e)), gj_source e,
     opt_str (gn_company l), gn_store l, opt_str (gn_dept l))"
  have k: "balance_for gx T A e l = (\<lambda>b. balance_key b = K)" by (simp add: balance_for_key K_def)
  have d: "distinct (map balance_key (gl_balances st))" and sub: "(\<lambda>b. (pb_tenant b, pb_account b)) ` set (gl_balances st) \<subseteq> owners st"
    using assms(4) by (simp_all add: balances_ok_def)
  show ?thesis
  proof (cases "find_row (\<lambda>b. balance_key b = K) (gl_balances st)")
    case None
    then have new: "K \<notin> balance_key ` set (gl_balances st)" by (auto simp: find_row_None)
    from assms(1,2) None obtain b where b: "st' = st\<lparr>gl_balances := gl_balances st @ [b]\<rparr>" "balance_key b = K" "pb_running b = i"
      by (auto simp: update_journal_balance_def k Let_def bind_res_Inr K_def balance_key_def)
    have o: "of_account t a b \<longleftrightarrow> t = T \<and> a = la_id A" for t a using b(2) by (auto simp: of_account_def K_def balance_key_def)
    show ?thesis using b new d sub assms(3) by (auto simp: balances_ok_def owners_def o K_def balance_key_def)
  next
    case (Some r)
    from assms(1,2) Some obtain u where s: "st' = st\<lparr>gl_balances := update_rows (\<lambda>b. balance_key b = K)
        (\<lambda>b. b\<lparr>pb_running := pb_running r + i, pb_units := pb_units b + u\<rparr>) (gl_balances st)\<rparr>"
      by (auto simp: update_journal_balance_def k Let_def bind_res_Inr)
    let ?f = "\<lambda>b. b\<lparr>pb_running := pb_running r + i, pb_units := pb_units b + u\<rparr>"
    have r: "balance_key r = K" using find_row_Some [OF Some] by simp
    have o: "of_account t a r \<longleftrightarrow> t = T \<and> a = la_id A" for t a using r by (auto simp: of_account_def K_def balance_key_def)
    have f: "balance_key (?f b) = balance_key b" "of_account t a (?f b) = of_account t a b" for b t a
      by (simp_all add: balance_key_def of_account_def)
    have keys: "map balance_key (update_rows (\<lambda>b. balance_key b = K) ?f (gl_balances st)) = map balance_key (gl_balances st)"
      using f(1) by (intro map_update_rows) simp
    have own: "(\<lambda>b. (pb_tenant b, pb_account b)) ` set (update_rows (\<lambda>b. balance_key b = K) ?f (gl_balances st)) \<subseteq> owners st"
      using sub by (auto simp: set_update_rows)
    have sum: "running_sum t a (gl_balances st') = running_sum t a (gl_balances st) + (if t = T \<and> a = la_id A then i else 0)" for t a
      using running_sum_update [OF d Some, where f = ?f and t = t and a = a] f(2) by (simp add: s o)
    show ?thesis using keys own d sum by (simp add: s balances_ok_def owners_def)
  qed
qed

section \<open>Posting a journal\<close>

definition belongs :: "jstr \<Rightarrow> gl_entry \<Rightarrow> history_row \<Rightarrow> bool" where
  "belongs t e h \<longleftrightarrow> hi_entry h = gj_id e \<and> hi_tenant h = t \<and> hi_source h = gj_source e \<and> hi_date h = gj_date e
     \<and> hi_reference h = reference_of e \<and> hi_dupe h = 0"

definition plain :: "history_row \<Rightarrow> bool" where
  "plain h \<longleftrightarrow> hi_type h = js '' ''"

definition appends :: "jstr \<Rightarrow> gl_entry \<Rightarrow> gl_store \<Rightarrow> gl_store \<Rightarrow> history_row list \<Rightarrow> bool" where
  "appends t e st st' hs \<longleftrightarrow> gl_accounts st' = gl_accounts st \<and> gl_entries st' = gl_entries st
     \<and> gl_history st' = gl_history st @ hs \<and> list_all (belongs t e) hs \<and> balances_ok st'
     \<and> (\<forall>u a. running_sum u a (gl_balances st') = running_sum u a (gl_balances st) + amount_sum u a hs)"

lemma appends_Nil: "balances_ok st \<Longrightarrow> appends t e st st []"
  by (simp add: appends_def)

lemma appends_trans: "appends t e st st1 hs \<Longrightarrow> appends t e st1 st2 ks \<Longrightarrow> appends t e st st2 (hs @ ks)"
  by (simp add: appends_def)

lemma appends_owners: "appends t e st st' hs \<Longrightarrow> owners st' = owners st"
  by (simp add: appends_def owners_def)

lemma appends_find: "appends t e st st' hs \<Longrightarrow> find_ledger_account i u st' = find_ledger_account i u st"
  by (simp add: appends_def find_ledger_account_def)

lemma schedule_event_simps [simp]:
  "gl_accounts (schedule_event t a p c st) = gl_accounts st" "gl_entries (schedule_event t a p c st) = gl_entries st"
  "gl_balances (schedule_event t a p c st) = gl_balances st" "gl_history (schedule_event t a p c st) = gl_history st"
  by (simp_all add: schedule_event_def add_outbox_def)

lemma balances_ok_cong: "gl_balances st' = gl_balances st \<Longrightarrow> gl_accounts st' = gl_accounts st \<Longrightarrow> balances_ok st' = balances_ok st"
  by (simp add: balances_ok_def owners_def)

lemma js_types [simp]: "js ''C'' \<noteq> js '' ''" "js ''I'' \<noteq> js '' ''"
  by (simp_all add: js_def)

text \<open>The balance and the history row of a line or of a part of its chain.\<close>

lemma write_both:
  assumes "update_journal_balance gx t a e l net st = Inr st1" and "write_history gx t a e l net n ty by st1 = Inr st2"
    and "rounded_cents net = Inr i" and "(t, la_id a) \<in> owners st" and "balances_ok st"
  obtains h where "appends t e st st2 [h]" and "hi_account h = la_id a" and "hi_amount h = i" and "hi_line h = n" and "hi_type h = js ty"
    and "\<not> list_ex (\<lambda>r. history_key r = history_key h) (gl_history st)"
proof -
  note b = balance_effect [OF assms(1,3,4,5)]
  define h where "h = history_of_line gx t a e l net i n ty by"
  have "money_of net = Inr i" using assms(2,3) by (auto simp: write_history_def bind_res_Inr money_of_def)
  then have s: "st2 = st1\<lparr>gl_history := gl_history st1 @ [h]\<rparr>" "\<not> list_ex (\<lambda>r. history_key r = history_key h) (gl_history st1)"
    using assms(2) by (auto simp: write_history_def bind_res_Inr insert_history_def h_def split: if_splits)
  have e: "gl_accounts st1 = gl_accounts st" "gl_entries st1 = gl_entries st" "gl_history st1 = gl_history st"
    using b by (metis gl_store.select_convs gl_store.surjective gl_store.update_convs(3))+
  have "balances_ok st2" using b balances_ok_cong [of st2 st1] by (simp add: s)
  then have "appends t e st st2 [h]" using b e by (auto simp: appends_def s h_def history_of_line_def belongs_def)
  then show ?thesis using that [of h] s(2) e by (simp add: h_def history_of_line_def)
qed

definition line_fits :: "gl_journal_line \<Rightarrow> bool" where
  "line_fits l \<longleftrightarrow> fits_money (gn_debit l) \<and> fits_money (gn_credit l) \<and> (case gn_cost l of None \<Rightarrow> True | Some c \<Rightarrow> fits_money c)"

lemma net_of_line: "line_fits l \<Longrightarrow> rounded_cents (line_net l) = Inr (gn_debit l - gn_credit l)"
  by (simp add: line_net_def line_net_exact line_fits_def)

lemma cost_of_line: "line_fits l \<Longrightarrow> chained a l = Some c \<Longrightarrow> fits_money c"
  by (auto simp: chained_def line_fits_def split: if_splits option.splits)

lemma appends_schedule:
  "appends t e st st1 hs \<Longrightarrow> appends t e st (schedule_event t' a p c st1) hs"
  using balances_ok_cong [of "schedule_event t' a p c st1" st1] by (simp add: appends_def)

lemma chain_part_effect:
  assumes "chain_part gx t a e l net n ty ending by st = Inr st'" and "rounded_cents net = Inr i"
    and "(t, la_id a) \<in> owners st" and "balances_ok st"
  obtains h where "appends t e st st' [h]" and "hi_type h = js ty"
proof -
  obtain st1 st2 where s: "update_journal_balance gx t a e l net st = Inr st1" "write_history gx t a e l net n ty by st1 = Inr st2"
    and st': "st' = schedule_event t a (chain_payload t e l a net) (gx_chain_id gx @ js ending) st2"
    using assms(1) by (auto simp: chain_part_def bind_res_Inr)
  obtain h where h: "appends t e st st2 [h]" "hi_type h = js ty" using write_both [OF s assms(2-4)] by blast
  show ?thesis by (rule that [of h]) (use h in \<open>simp_all add: st' appends_schedule\<close>)
qed

lemma chain_effect:
  assumes "post_cos_inv_chain gx t main e l cost n by st = Inr st'" and "fits_money cost" and "balances_ok st"
  obtains hs where "appends t e st st' hs" and "filter plain hs = []"
proof (cases "find_ledger_account (opt_str (la_cos main)) t st")
  case None
  then show ?thesis using assms(1,3) that [of "[]"] by (simp add: post_cos_inv_chain_def appends_Nil)
next
  case (Some ca)
  then obtain st1 where s1: "chain_part gx t ca e l (number_of_decimal cost) (n + 1) ''C'' ''-cos'' by st = Inr st1"
    and s2: "(case find_ledger_account (opt_str (la_inv main)) t st1 of None \<Rightarrow> Inr st1
      | Some va \<Rightarrow> chain_part gx t va e l (num_mul (number_of_decimal cost) (Fin (- 1))) (n + 2) ''I'' ''-inv'' by st1) = Inr st'"
    using assms(1) by (auto simp: post_cos_inv_chain_def bind_res_Inr)
  have c: "rounded_cents (number_of_decimal cost) = Inr cost" using assms(2) by (intro rounded_decimal) (simp add: fits_money_def)
  have "(t, la_id ca) \<in> owners st" using find_account_owner [OF Some] by simp
  then obtain h where h: "appends t e st st1 [h]" "hi_type h = js ''C''" using chain_part_effect [OF s1 c _ assms(3)] by blast
  show ?thesis
  proof (cases "find_ledger_account (opt_str (la_inv main)) t st1")
    case None
    then show ?thesis using s2 h that [of "[h]"] by (simp add: plain_def)
  next
    case (Some va)
    then have s: "chain_part gx t va e l (num_mul (number_of_decimal cost) (Fin (- 1))) (n + 2) ''I'' ''-inv'' by st1 = Inr st'" using s2 by simp
    have "(t, la_id va) \<in> owners st1" using find_account_owner [OF Some] by simp
    moreover have "balances_ok st1" using h(1) by (simp add: appends_def)
    ultimately obtain k where k: "appends t e st1 st' [k]" "hi_type k = js ''I''"
      using chain_part_effect [OF s negated_decimal [OF assms(2)]] by blast
    show ?thesis using that [OF appends_trans [OF h(1) k(1)]] h(2) k(2) by (simp add: plain_def)
  qed
qed

definition account_amount :: "history_row \<Rightarrow> jstr \<times> int" where
  "account_amount h = (hi_account h, hi_amount h)"

definition line_amount :: "gl_journal_line \<Rightarrow> jstr \<times> int" where
  "line_amount l = (gn_account l, gn_debit l - gn_credit l)"

lemma post_line_effect:
  assumes "post_line gx t e by (st, n) l = Inr (st', n')" and "line_fits l" and "balances_ok st"
  obtains h hs where "appends t e st st' (h # hs)" and "account_amount h = line_amount l" and "plain h" and "filter plain hs = []"
    and "hi_line h = n" and "\<not> list_ex (\<lambda>r. history_key r = history_key h) (gl_history st)"
proof -
  obtain a where a: "find_ledger_account (gn_account l) t st = Some a"
    using assms(1) by (auto simp: post_line_def split: option.splits)
  obtain st1 st2 where s: "update_journal_balance gx t a e l (line_net l) st = Inr st1" "write_history gx t a e l (line_net l) n '' '' by st1 = Inr st2"
    and r: "(let st3 = schedule_event t a (line_payload t e l a (line_net l)) (gx_correlation gx @ js ''-line-'' @ nat_str n) st2
             in (case chained a l of
                   None \<Rightarrow> Inr (st3, n + 1)
                 | Some cost \<Rightarrow> bind_res (post_cos_inv_chain gx t a e l cost n by st3) (\<lambda>st4. Inr (st4, n + 3)))) = Inr (st', n')"
    using assms(1) a by (auto simp: post_line_def bind_res_Inr)
  have own: "(t, la_id a) \<in> owners st" "la_id a = gn_account l" using find_account_owner [OF a] by simp_all
  obtain h where h: "appends t e st st2 [h]" "hi_account h = la_id a" "hi_amount h = gn_debit l - gn_credit l" "hi_line h = n" "hi_type h = js '' ''"
    "\<not> list_ex (\<lambda>r. history_key r = history_key h) (gl_history st)"
    by (rule write_both [OF s net_of_line [OF assms(2)] own(1) assms(3)]) blast
  define st3 where "st3 = schedule_event t a (line_payload t e l a (line_net l)) (gx_correlation gx @ js ''-line-'' @ nat_str n) st2"
  have 3: "appends t e st st3 [h]" using h(1) appends_schedule by (simp add: st3_def)
  have facts: "account_amount h = line_amount l" "plain h" using h own by (simp_all add: account_amount_def line_amount_def plain_def)
  show ?thesis
  proof (cases "chained a l")
    case None
    then have "st' = st3" using r by (simp add: st3_def Let_def)
    then show ?thesis using 3 facts h(4,6) that [of h "[]"] by simp
  next
    case (Some cost)
    then have "post_cos_inv_chain gx t a e l cost n by st3 = Inr st'" using r by (auto simp: st3_def Let_def bind_res_Inr)
    moreover have "balances_ok st3" using 3 by (simp add: appends_def)
    ultimately obtain hs where hs: "appends t e st3 st' hs" "filter plain hs = []"
      using chain_effect cost_of_line [OF assms(2) Some] by blast
    show ?thesis using appends_trans [OF 3 hs(1)] facts h(4,6) hs(2) that [of h hs] by simp
  qed
qed

lemma post_lines_effect:
  assumes "fold_res (post_line gx t e by) (st, n) ls = Inr (st', n')" and "list_all line_fits ls" and "balances_ok st"
  obtains hs where "appends t e st st' hs" and "map account_amount (filter plain hs) = map line_amount ls"
    and "ls \<noteq> [] \<Longrightarrow> \<exists>h \<in> set hs. plain h \<and> hi_line h = n \<and> \<not> list_ex (\<lambda>r. history_key r = history_key h) (gl_history st)"
  using assms
proof (induction ls arbitrary: st n thesis)
  case Nil
  then show ?case using appends_Nil by fastforce
next
  case (Cons l ls)
  obtain st1 n1 where s: "post_line gx t e by (st, n) l = Inr (st1, n1)" "fold_res (post_line gx t e by) (st1, n1) ls = Inr (st', n')"
    using Cons.prems(2) by (auto simp: bind_res_Inr)
  obtain h hs where h: "appends t e st st1 (h # hs)" "account_amount h = line_amount l" "plain h" "filter plain hs = []"
    "hi_line h = n" "\<not> list_ex (\<lambda>r. history_key r = history_key h) (gl_history st)"
    using post_line_effect [OF s(1)] Cons.prems(3,4) by auto
  have ok: "list_all line_fits ls" "balances_ok st1" using Cons.prems(3) h(1) by (simp_all add: appends_def)
  obtain ks where k: "appends t e st1 st' ks" "map account_amount (filter plain ks) = map line_amount ls"
    using Cons.IH [OF _ s(2) ok] by blast
  show ?case using Cons.prems(1) [OF appends_trans [OF h(1) k(1)]] h k(2) by auto
qed

end
