(* ===== verification/GlRuns.thy ===== *)
theory GlRuns
  imports GlEffect
begin

text \<open>
  Runs of the general ledger. Every call reads its journal and later acts on what it read, so a state of a run is the
  store with the journals some call has read; a step acts on any of them, however old. The runs leave out the purge of
  old history and the ownership reset, which destroy records on purpose. The invariant: identifiers and idempotency
  keys are unique, the balances have one row per key, and the history of a journal is empty or exactly one posting
  of it.
\<close>

section \<open>Steps\<close>

type_synonym gl_world = "gl_store \<times> gl_entry list"

inductive gl_step :: "gl_world \<Rightarrow> gl_world \<Rightarrow> bool" where
  gs_read: "gl_find_entry i tenant st = Some e \<Longrightarrow> gl_step (st, E) (st, e # E)"
| gs_create: "gl_create gx dto tenant st = (r, st') \<Longrightarrow> gl_step (st, E) (st', E)"
| gs_discard: "e \<in> set E \<Longrightarrow> discard_read gx e (gj_tenant e) by reason st = (r, st') \<Longrightarrow> gl_step (st, E) (st', E)"
| gs_submit: "e \<in> set E \<Longrightarrow> submit_read gx e (gj_tenant e) by st = (r, st') \<Longrightarrow> gl_step (st, E) (st', E)"
| gs_approve: "e \<in> set E \<Longrightarrow> approve_read gx e (gj_tenant e) approver st = (r, st') \<Longrightarrow> gl_step (st, E) (st', E)"
| gs_reverse: "e \<in> set E \<Longrightarrow> reverse_read gx e (gj_tenant e) date reason by st = (r, st') \<Longrightarrow> gl_step (st, E) (st', E)"
| gs_carry: "carry_forward gx tenant y m None st = (c, st') \<Longrightarrow> gl_step (st, E) (st', E)"

text \<open>A ledger before its first journal.\<close>

definition gl_start :: "gl_store \<Rightarrow> bool" where
  "gl_start st \<longleftrightarrow> gl_entries st = [] \<and> gl_balances st = [] \<and> gl_history st = [] \<and> distinct (map la_id (gl_accounts st))
     \<and> list_all (\<lambda>a. fits_money (la_opening a)) (gl_accounts st)"

section \<open>The invariant\<close>

definition entry_key :: "gl_entry \<Rightarrow> jstr \<times> jstr option" where
  "entry_key e = (gj_tenant e, gj_key e)"

definition keys_of :: "gl_entry list \<Rightarrow> (jstr \<times> jstr option) list" where
  "keys_of es = map entry_key (filter (\<lambda>e. gj_key e \<noteq> None) es)"

definition rows_of :: "jstr \<Rightarrow> history_row list \<Rightarrow> history_row list" where
  "rows_of i hs = filter (\<lambda>h. hi_entry h = i) hs"

text \<open>What no operation changes of a journal, and what a call knows of it.\<close>

definition fixed_part :: "gl_entry \<Rightarrow> jstr \<times> jstr \<times> jstr \<times> int \<times> jstr option \<times> (jstr \<times> int) list" where
  "fixed_part e = (gj_id e, gj_tenant e, gj_source e, gj_date e, gj_ref e, map line_amount (gj_lines e))"

definition posted_in :: "gl_entry \<Rightarrow> history_row list \<Rightarrow> bool" where
  "posted_in e hs \<longleftrightarrow> list_all (belongs (gj_tenant e) e) hs \<and> map account_amount (filter plain hs) = map line_amount (gj_lines e)
     \<and> (\<exists>h \<in> set hs. plain h \<and> hi_line h = 1)
     \<and> \<bar>sum_list (map (snd \<circ> line_amount) (gj_lines e))\<bar> \<le> 1"

definition entry_inv :: "history_row list \<Rightarrow> gl_entry \<Rightarrow> bool" where
  "entry_inv hs e \<longleftrightarrow> list_all line_fits (gj_lines e)
     \<and> (rows_of (gj_id e) hs = [] \<or> posted_in e (rows_of (gj_id e) hs))
     \<and> (gj_status e \<in> {GL_POSTED, GL_REVERSED} \<longrightarrow> rows_of (gj_id e) hs \<noteq> [])"

definition gl_inv :: "gl_store \<Rightarrow> bool" where
  "gl_inv st \<longleftrightarrow> distinct (map gj_id (gl_entries st)) \<and> distinct (keys_of (gl_entries st))
     \<and> list_all (entry_inv (gl_history st)) (gl_entries st)
     \<and> hi_entry ` set (gl_history st) \<subseteq> gj_id ` set (gl_entries st)
     \<and> balances_ok st \<and> distinct (map la_id (gl_accounts st)) \<and> list_all (\<lambda>a. fits_money (la_opening a)) (gl_accounts st)"

definition knows :: "gl_store \<Rightarrow> gl_entry \<Rightarrow> bool" where
  "knows st s \<longleftrightarrow> list_all line_fits (gj_lines s) \<and> (\<exists>e \<in> set (gl_entries st). fixed_part s = fixed_part e)
     \<and> (gj_status s = GL_POSTED \<longrightarrow> rows_of (gj_id s) (gl_history st) \<noteq> [])"

definition gl_world_inv :: "gl_world \<Rightarrow> bool" where
  "gl_world_inv w \<longleftrightarrow> gl_inv (fst w) \<and> list_all (knows (fst w)) (snd w)"

lemma start_inv: "gl_start st \<Longrightarrow> gl_world_inv (st, [])"
  by (simp add: gl_start_def gl_world_inv_def gl_inv_def keys_of_def balances_ok_def)

section \<open>Operations that touch the journals only\<close>

lemma rows_of_simps [simp]:
  "rows_of i [] = []" "rows_of i (h # hs) = (if hi_entry h = i then h # rows_of i hs else rows_of i hs)"
  "rows_of i (hs @ ks) = rows_of i hs @ rows_of i ks"
  by (simp_all add: rows_of_def)

lemma fixed_line [simp]: "line_amount (line_to_domain l) = line_amount l" "line_fits (line_to_domain l) = line_fits l"
  by (simp_all add: line_amount_def line_to_domain_def line_fits_def)

lemma fixed_to_domain [simp]: "fixed_part (to_domain e) = fixed_part e"
  by (simp add: fixed_part_def to_domain_def)

text \<open>Two stores with the same ledger tables, the journals apart.\<close>

definition same_ledger :: "gl_store \<Rightarrow> gl_store \<Rightarrow> bool" where
  "same_ledger st st' \<longleftrightarrow> gl_accounts st' = gl_accounts st \<and> gl_balances st' = gl_balances st \<and> gl_history st' = gl_history st"

lemma same_ledger_simps [simp]:
  "same_ledger st st"
  "same_ledger st (append_audit_rows t i ac u b af ev st') = same_ledger st st'"
  "same_ledger st (add_outbox o' st') = same_ledger st st'"
  "same_ledger st (publish_event gx ty t p st') = same_ledger st st'"
  by (simp_all add: same_ledger_def append_audit_rows_def add_outbox_def publish_event_def)

lemma side_tables [simp]:
  "gl_entries (append_audit_rows t i ac u b af ev st) = gl_entries st"
  "gl_entries (add_outbox o' st) = gl_entries st"
  "gl_entries (publish_event gx ty t p st) = gl_entries st"
  "gl_accounts (append_audit_rows t i ac u b af ev st) = gl_accounts st"
  "gl_accounts (add_outbox o' st) = gl_accounts st"
  "gl_accounts (publish_event gx ty t p st) = gl_accounts st"
  "gl_history (append_audit_rows t i ac u b af ev st) = gl_history st"
  "gl_history (add_outbox o' st) = gl_history st"
  "gl_history (publish_event gx ty t p st) = gl_history st"
  "gl_balances (append_audit_rows t i ac u b af ev st) = gl_balances st"
  "gl_balances (add_outbox o' st) = gl_balances st"
  "gl_balances (publish_event gx ty t p st) = gl_balances st"
  by (simp_all add: append_audit_rows_def add_outbox_def publish_event_def)

text \<open>An update of a journal that leaves its fixed part, its key and its lines.\<close>

definition keeps_entry :: "(gl_entry \<Rightarrow> gl_entry) \<Rightarrow> bool" where
  "keeps_entry f \<longleftrightarrow> (\<forall>e. fixed_part (f e) = fixed_part e \<and> gj_key (f e) = gj_key e \<and> gj_lines (f e) = gj_lines e)"

lemma keeps_entryD:
  assumes "keeps_entry f"
  shows "gj_id (f e) = gj_id e" "gj_tenant (f e) = gj_tenant e" "gj_key (f e) = gj_key e" "gj_lines (f e) = gj_lines e"
    "gj_source (f e) = gj_source e" "gj_date (f e) = gj_date e" "gj_ref (f e) = gj_ref e"
  using assms by (auto simp: keeps_entry_def fixed_part_def)

lemma keys_of_update:
  assumes "keeps_entry f"
  shows "keys_of (update_rows P f es) = keys_of es" and "map gj_id (update_rows P f es) = map gj_id es"
proof -
  show "keys_of (update_rows P f es) = keys_of es"
    by (induction es) (auto simp: keys_of_def entry_key_def keeps_entryD [OF assms])
  show "map gj_id (update_rows P f es) = map gj_id es" using keeps_entryD(1) [OF assms] by (intro map_update_rows) simp
qed

lemma posted_in_cong: "fixed_part e' = fixed_part e \<Longrightarrow> posted_in e' hs = posted_in e hs"
proof -
  assume f: "fixed_part e' = fixed_part e"
  have "reference_of e' = reference_of e" using f by (cases "gj_ref e") (simp_all add: reference_of_def fixed_part_def)
  then have "belongs t e' = belongs t e" for t using f by (simp add: fun_eq_iff belongs_def fixed_part_def)
  moreover have "map (snd \<circ> line_amount) (gj_lines e') = map (snd \<circ> line_amount) (gj_lines e)"
    using f by (simp add: fixed_part_def flip: map_map)
  ultimately show ?thesis using f by (simp add: posted_in_def fixed_part_def)
qed

text \<open>The two ways a journal table changes: a row is updated, a draft is added.\<close>

lemma update_inv:
  assumes "gl_inv st" and "keeps_entry f" and "same_ledger st st'"
    and "gl_entries st' = update_rows (\<lambda>r. gj_id r = i) f (gl_entries st)"
    and "\<And>e. e \<in> set (gl_entries st) \<Longrightarrow> gj_id e = i \<Longrightarrow> gj_status (f e) \<in> {GL_POSTED, GL_REVERSED} \<Longrightarrow> rows_of i (gl_history st) \<noteq> []"
  shows "gl_inv st' \<and> (knows st s \<longrightarrow> knows st' s)"
proof -
  note k = keeps_entryD [OF assms(2)]
  have l: "gl_accounts st' = gl_accounts st" "gl_balances st' = gl_balances st" "gl_history st' = gl_history st"
    using assms(3) by (simp_all add: same_ledger_def)
  have f: "fixed_part (f e) = fixed_part e" for e using assms(2) by (simp add: keeps_entry_def)
  have one: "entry_inv (gl_history st) (if gj_id e = i then f e else e)" if "e \<in> set (gl_entries st)" for e
  proof -
    have "entry_inv (gl_history st) e" using assms(1) that by (simp add: gl_inv_def list_all_iff)
    then show ?thesis using assms(5) [OF that] posted_in_cong [OF f] by (auto simp: entry_inv_def k)
  qed
  have "list_all (entry_inv (gl_history st)) (gl_entries st')" unfolding assms(4) list_all_iff set_update_rows using one by blast
  moreover have "gj_id ` set (gl_entries st') = gj_id ` set (gl_entries st)"
    using keys_of_update(2) [OF assms(2), of "\<lambda>r. gj_id r = i" "gl_entries st"] by (metis assms(4) set_map)
  moreover have "balances_ok st'" using assms(1) balances_ok_cong [of st' st] l by (simp add: gl_inv_def)
  ultimately have inv: "gl_inv st'" using assms(1) keys_of_update [OF assms(2)] by (simp add: gl_inv_def l assms(4))
  have "knows st' s" if kn: "knows st s"
  proof -
    obtain e where e: "e \<in> set (gl_entries st)" "fixed_part s = fixed_part e" using kn by (auto simp: knows_def)
    have "(if gj_id e = i then f e else e) \<in> set (gl_entries st')" using e(1) by (simp add: assms(4) set_update_rows)
    moreover have "fixed_part s = fixed_part (if gj_id e = i then f e else e)" using e(2) f by simp
    ultimately have "\<exists>e \<in> set (gl_entries st'). fixed_part s = fixed_part e" by (rule rev_bexI)
    then show ?thesis using kn by (simp add: knows_def l)
  qed
  with inv show ?thesis by blast
qed

lemma not_in_history: "gl_inv st \<Longrightarrow> i \<notin> gj_id ` set (gl_entries st) \<Longrightarrow> rows_of i (gl_history st) = []"
  by (auto simp: gl_inv_def rows_of_def filter_empty_conv)

lemma keys_of_append:
  "keys_of (es @ [e]) = keys_of es @ (if gj_key e = None then [] else [entry_key e])"
  by (simp add: keys_of_def)

lemma append_inv:
  assumes "gl_inv st" and "insert_gl_entry e st = Inr st1" and "same_ledger st1 st'" and "gl_entries st' = gl_entries st1"
    and "gj_status e = GL_DRAFT" and "list_all line_fits (gj_lines e)"
  shows "gl_inv st' \<and> (knows st s \<longrightarrow> knows st' s)"
proof -
  have new: "gj_id e \<notin> gj_id ` set (gl_entries st)" "gj_key e \<noteq> None \<Longrightarrow> entry_key e \<notin> entry_key ` set (gl_entries st)"
    and st1: "st1 = st\<lparr>gl_entries := gl_entries st @ [e]\<rparr>"
    using assms(2) by (auto simp: insert_gl_entry_def list_ex_iff entry_key_def split: if_splits)
  have l: "gl_accounts st' = gl_accounts st" "gl_balances st' = gl_balances st" "gl_history st' = gl_history st" "gl_entries st' = gl_entries st @ [e]"
    using assms(3,4) by (simp_all add: same_ledger_def st1)
  have "entry_inv (gl_history st) e" using not_in_history [OF assms(1) new(1)] assms(5,6) by (simp add: entry_inv_def)
  moreover have "distinct (keys_of (gl_entries st @ [e]))"
  proof (cases "gj_key e")
    case (Some key)
    then have "entry_key e \<notin> set (keys_of (gl_entries st))" using new(2) by (auto simp: keys_of_def)
    then show ?thesis using assms(1) Some by (simp add: keys_of_append gl_inv_def)
  qed (use assms(1) in \<open>simp add: keys_of_append gl_inv_def\<close>)
  moreover have "balances_ok st'" using assms(1) balances_ok_cong [of st' st] l by (simp add: gl_inv_def)
  moreover have "distinct (map gj_id (gl_entries st @ [e]))" using assms(1) new(1) by (simp add: gl_inv_def)
  ultimately have inv: "gl_inv st'" using assms(1) by (auto simp: gl_inv_def l)
  have "knows st' s" if kn: "knows st s" using kn by (auto simp: knows_def l)
  with inv show ?thesis by blast
qed

section \<open>The steps keep the invariant\<close>

lemma update_gl_entryD:
  assumes "update_gl_entry i f st = Inr st1"
  obtains e where "find_row (\<lambda>e. gj_id e = i) (gl_entries st) = Some e" and "check_journal_balance e (f e) = Inr ()"
    and "st1 = st\<lparr>gl_entries := update_rows (\<lambda>r. gj_id r = i) f (gl_entries st)\<rparr>"
  using assms by (auto simp: update_gl_entry_def bind_res_Inr split: option.splits)

lemma money_of_fits: "money_of n = Inr c \<Longrightarrow> fits_money c"
  by (auto simp: money_of_def bind_res_Inr)

lemma optional_money_fits: "optional_money v = Inr c \<Longrightarrow> case c of None \<Rightarrow> True | Some d \<Rightarrow> fits_money d"
  by (auto simp: optional_money_def bind_res_Inr money_of_fits split: option.splits)

lemma stored_line_fits: "stored_line d = Inr l \<Longrightarrow> line_fits l"
  by (auto simp: stored_line_def bind_res_Inr line_fits_def money_of_fits dest: optional_money_fits)

lemma stored_lines_fit: "map_res stored_line ds = Inr ls \<Longrightarrow> list_all line_fits ls"
  by (induction ds arbitrary: ls) (auto simp: bind_res_Inr stored_line_fits)

lemma create_inv:
  assumes "gl_create gx dto tenant st = (r, st')" and "gl_inv st"
  shows "gl_inv st' \<and> (knows st s \<longrightarrow> knows st' s)"
proof (cases "create_tx gx dto tenant st")
  case (Inl err)
  then have "st' = st" using assms(1) by (auto simp: gl_create_def split: option.splits)
  then show ?thesis using assms(2) by simp
next
  case (Inr v)
  obtain e st2 where v: "v = (e, st2)" by (cases v)
  then have st': "st' = st2" using assms(1) Inr by (simp add: gl_create_def)
  obtain lines st1 where l: "map_res stored_line (gc_lines dto) = Inr lines" and e: "e = draft_entry gx dto tenant lines"
    and i: "insert_gl_entry e st = Inr st1" and s: "same_ledger st1 st'" "gl_entries st' = gl_entries st1"
    using Inr v st' by (auto simp: create_tx_def bind_res_Inr Let_def)
  show ?thesis using append_inv [OF assms(2) i s] stored_lines_fit [OF l] by (simp add: e draft_entry_def)
qed

lemma keeps_status [simp]:
  "keeps_entry (\<lambda>r. r\<lparr>gj_status := x\<rparr>)" "keeps_entry (\<lambda>r. r\<lparr>gj_status := x, gj_agent_reviewed := b\<rparr>)"
  "keeps_entry (\<lambda>r. r\<lparr>gj_status := x, gj_reversed_by := v\<rparr>)" "keeps_entry (mark_posted gx by)"
  by (simp_all add: keeps_entry_def fixed_part_def mark_posted_def)

lemma discard_inv:
  assumes "discard_read gx e tenant by reason st = (r, st')" and "gl_inv st"
  shows "gl_inv st' \<and> (knows st s \<longrightarrow> knows st' s)"
proof (cases "st' = st")
  case False
  then obtain st1 where u: "update_gl_entry (gj_id e) (\<lambda>r. r\<lparr>gj_status := GL_VOIDED\<rparr>) st = Inr st1"
    and s: "same_ledger st1 st'" "gl_entries st' = gl_entries st1"
    using assms(1) by (auto simp: discard_read_def Let_def split: if_splits sum.splits)
  obtain x where x: "st1 = st\<lparr>gl_entries := update_rows (\<lambda>r. gj_id r = gj_id e) (\<lambda>r. r\<lparr>gj_status := GL_VOIDED\<rparr>) (gl_entries st)\<rparr>"
    by (rule update_gl_entryD [OF u]) blast
  show ?thesis by (rule update_inv [OF assms(2), where f = "\<lambda>r. r\<lparr>gj_status := GL_VOIDED\<rparr>" and i = "gj_id e"]) (use s in \<open>simp_all add: x same_ledger_def\<close>)
qed (use assms(2) in simp)

lemma submit_inv:
  assumes "submit_read gx e tenant by st = (r, st')" and "gl_inv st"
  shows "gl_inv st' \<and> (knows st s \<longrightarrow> knows st' s)"
proof (cases "st' = st")
  case False
  let ?f = "\<lambda>r. r\<lparr>gj_status := GL_PENDING_REVIEW, gj_agent_reviewed := False\<rparr>"
  obtain st1 where u: "update_gl_entry (gj_id e) ?f st = Inr st1" and s: "same_ledger st1 st'" "gl_entries st' = gl_entries st1"
    using assms(1) False by (auto simp: submit_read_def Let_def split: if_splits sum.splits)
  have x: "st1 = st\<lparr>gl_entries := update_rows (\<lambda>r. gj_id r = gj_id e) ?f (gl_entries st)\<rparr>"
    by (rule update_gl_entryD [OF u]) blast
  show ?thesis by (rule update_inv [OF assms(2), where f = ?f and i = "gj_id e"]) (use s in \<open>simp_all add: x same_ledger_def\<close>)
qed (use assms(2) in simp)

text \<open>Flagging history rows changes nothing the invariant speaks of.\<close>

abbreviation flag_rows :: "(history_row \<Rightarrow> bool) \<Rightarrow> jstr \<Rightarrow> history_row list \<Rightarrow> history_row list" where
  "flag_rows P c \<equiv> update_rows P (\<lambda>h. h\<lparr>hi_rev_adj := c\<rparr>)"

lemma update_rows_empty [simp]: "update_rows P f hs = [] \<longleftrightarrow> hs = []"
  by (simp add: update_rows_def)

lemma rows_of_flag: "rows_of i (flag_rows P c hs) = flag_rows P c (rows_of i hs)"
  by (induction hs) auto

lemma amount_sum_flag: "amount_sum t a (flag_rows P c hs) = amount_sum t a hs"
  by (induction hs) auto

lemma posted_in_flag: "posted_in e (flag_rows P c hs) = posted_in e hs"
proof -
  have "list_all (belongs t e) (flag_rows P c hs) = list_all (belongs t e) hs" for t by (induction hs) (auto simp: belongs_def)
  moreover have "map account_amount (filter plain (flag_rows P c hs)) = map account_amount (filter plain hs)"
    by (induction hs) (auto simp: plain_def account_amount_def)
  moreover have "(\<exists>h \<in> set (flag_rows P c hs). plain h \<and> hi_line h = 1) \<longleftrightarrow> (\<exists>h \<in> set hs. plain h \<and> hi_line h = 1)"
    by (induction hs) (auto simp: plain_def)
  ultimately show ?thesis by (simp add: posted_in_def)
qed

lemma flag_inv:
  assumes "gl_inv st"
  shows "gl_inv (st\<lparr>gl_history := flag_rows P c (gl_history st)\<rparr>) \<and> (knows st s \<longrightarrow> knows (st\<lparr>gl_history := flag_rows P c (gl_history st)\<rparr>) s)"
proof -
  have e: "entry_inv (flag_rows P c hs) = entry_inv hs" for hs
    by (simp add: fun_eq_iff entry_inv_def rows_of_flag posted_in_flag)
  have "hi_entry ` set (flag_rows P c (gl_history st)) \<subseteq> hi_entry ` set (gl_history st)" by (auto simp: set_update_rows)
  then show ?thesis using assms by (auto simp: gl_inv_def knows_def e rows_of_flag balances_ok_def owners_def)
qed

lemma swapped_fits: "line_fits l \<Longrightarrow> line_fits (swapped_line l)"
  by (simp add: line_fits_def swapped_line_def)

lemma reverse_inv:
  assumes "reverse_read gx e tenant date reason by st = (r, st')" and "gl_inv st" and "knows st e"
  shows "gl_inv st' \<and> (knows st s \<longrightarrow> knows st' s)"
proof (cases "gl_reverse_tx gx e tenant date reason by st")
  case (Inl err)
  then have "st' = st" using assms(1) by (auto simp: reverse_read_def split: if_splits)
  then show ?thesis using assms(2) by simp
next
  case (Inr v)
  show ?thesis
  proof (cases "gj_status e = GL_POSTED \<and> \<not> gj_reconciled e")
    case False
    then have "st' = st" using assms(1) by (auto simp: reverse_read_def split: if_splits)
    then show ?thesis using assms(2) by simp
  next
    case True
    let ?new = "reversal_entry gx e tenant date reason" and ?f = "\<lambda>r. r\<lparr>gj_status := GL_REVERSED, gj_reversed_by := Some (gx_id gx)\<rparr>"
    let ?P = "\<lambda>h. hi_entry h = gj_id e \<and> hi_tenant h = tenant"
    obtain st1 st2 where i: "insert_gl_entry ?new st = Inr st1" and u: "update_gl_entry (gj_id e) ?f st1 = Inr st2"
      and v: "same_ledger (st2\<lparr>gl_history := flag_rows ?P (js ''R'') (gl_history st2)\<rparr>) v" "gl_entries v = gl_entries st2"
      using Inr by (auto simp: gl_reverse_tx_def bind_res_Inr)
    have st': "st' = v" using assms(1) True Inr by (simp add: reverse_read_def)
    have "list_all line_fits (gj_lines ?new)"
      using assms(3) swapped_fits by (auto simp: reversal_entry_def Let_def knows_def list_all_iff)
    then have 1: "gl_inv st1 \<and> (knows st s \<longrightarrow> knows st1 s)" for s
      using append_inv [OF assms(2) i, of st1] by (simp add: reversal_entry_def Let_def)
    have x: "st2 = st1\<lparr>gl_entries := update_rows (\<lambda>r. gj_id r = gj_id e) ?f (gl_entries st1)\<rparr>"
      by (rule update_gl_entryD [OF u]) blast
    have "rows_of (gj_id e) (gl_history st1) \<noteq> []" using 1 [of e] assms(3) True by (simp add: knows_def)
    then have 2: "gl_inv st2 \<and> (knows st1 s \<longrightarrow> knows st2 s)" for s
      using 1 by (intro update_inv [where f = ?f and i = "gj_id e"]) (simp_all add: x same_ledger_def)
    have 3: "gl_inv (st2\<lparr>gl_history := flag_rows ?P (js ''R'') (gl_history st2)\<rparr>) \<and>
        (knows st2 s \<longrightarrow> knows (st2\<lparr>gl_history := flag_rows ?P (js ''R'') (gl_history st2)\<rparr>) s)" for s
      using 2 by (intro flag_inv) blast
    have "v = v\<lparr>gl_entries := gl_entries st2\<rparr>" using v(2) by simp
    then have "gl_inv v = gl_inv (st2\<lparr>gl_history := flag_rows ?P (js ''R'') (gl_history st2)\<rparr>)"
      and "knows v s = knows (st2\<lparr>gl_history := flag_rows ?P (js ''R'') (gl_history st2)\<rparr>) s"
      using v by (simp_all add: gl_inv_def knows_def same_ledger_def balances_ok_def owners_def)
    then show ?thesis using 1 [of s] 2 [of s] 3 [of s] by (simp add: st')
  qed
qed

lemma serializable_Inr: "gl_serializable gx r = Inr v \<Longrightarrow> r = Inr v"
  by (auto simp: gl_serializable_def split: if_splits sum.splits)

lemma belongs_cong: "fixed_part e' = fixed_part e \<Longrightarrow> belongs t e' = belongs t e"
proof -
  assume f: "fixed_part e' = fixed_part e"
  have "reference_of e' = reference_of e" using f by (cases "gj_ref e") (simp_all add: reference_of_def fixed_part_def)
  then show ?thesis using f by (simp add: fun_eq_iff belongs_def fixed_part_def)
qed

lemma rows_of_belongs: "list_all (belongs t e) hs \<Longrightarrow> rows_of i hs = (if i = gj_id e then hs else [])"
  by (induction hs) (auto simp: belongs_def)

lemma same_id: "distinct (map gj_id es) \<Longrightarrow> x \<in> set es \<Longrightarrow> y \<in> set es \<Longrightarrow> gj_id x = gj_id y \<Longrightarrow> x = y"
  by (simp add: distinct_map inj_on_def)

text \<open>A posting commits only for a journal without history, and then appends one posting of it.\<close>

lemma approve_effect:
  assumes "approve_tx gx s (gj_tenant s) by st = Inr st'" and "gl_inv st" and "knows st s"
  obtains x hs where "x \<in> set (gl_entries st)" and "fixed_part s = fixed_part x" and "rows_of (gj_id x) (gl_history st) = []"
    and "gl_entries st' = update_rows (\<lambda>r. gj_id r = gj_id x) (mark_posted gx by) (gl_entries st)"
    and "gl_history st' = gl_history st @ hs" and "posted_in x hs" and "gl_accounts st' = gl_accounts st" and "balances_ok st'"
    and "\<And>t a. running_sum t a (gl_balances st') = running_sum t a (gl_balances st) + amount_sum t a hs"
proof -
  obtain st1 st2 n where u: "update_gl_entry (gj_id s) (mark_posted gx by) st = Inr st1"
    and p: "fold_res (post_line gx (gj_tenant s) s by) (st1, 1) (gj_lines s) = Inr (st2, n)"
    and st': "gl_accounts st' = gl_accounts st2" "gl_entries st' = gl_entries st2" "gl_balances st' = gl_balances st2" "gl_history st' = gl_history st2"
    using assms(1) by (auto simp: approve_tx_def bind_res_Inr)
  obtain x where x: "find_row (\<lambda>e. gj_id e = gj_id s) (gl_entries st) = Some x" "check_journal_balance x (mark_posted gx by x) = Inr ()"
    and st1: "st1 = st\<lparr>gl_entries := update_rows (\<lambda>r. gj_id r = gj_id s) (mark_posted gx by) (gl_entries st)\<rparr>"
    by (rule update_gl_entryD [OF u])
  have xs: "x \<in> set (gl_entries st)" "gj_id x = gj_id s" using find_row_Some [OF x(1)] by simp_all
  obtain e where e: "e \<in> set (gl_entries st)" "fixed_part s = fixed_part e" using assms(3) by (auto simp: knows_def)
  have "e = x" using same_id [OF _ e(1) xs(1)] assms(2) e(2) xs(2) by (simp add: gl_inv_def fixed_part_def)
  then have f: "fixed_part s = fixed_part x" using e(2) by simp
  have inv: "entry_inv (gl_history st) x" using assms(2) xs(1) by (simp add: gl_inv_def list_all_iff)
  have b: "balances_ok st1" using assms(2) balances_ok_cong [of st1 st] by (simp add: st1 gl_inv_def)
  have fits: "list_all line_fits (gj_lines s)" using assms(3) by (simp add: knows_def)
  obtain hs where hs: "appends (gj_tenant s) s st1 st2 hs" "map account_amount (filter plain hs) = map line_amount (gj_lines s)"
    and first: "gj_lines s \<noteq> [] \<Longrightarrow> \<exists>h \<in> set hs. plain h \<and> hi_line h = 1 \<and> \<not> list_ex (\<lambda>r. history_key r = history_key h) (gl_history st1)"
    by (rule post_lines_effect [OF p fits b]) blast
  have lines: "map line_amount (gj_lines s) = map line_amount (gj_lines x)" and t: "gj_tenant s = gj_tenant x" using f by (simp_all add: fixed_part_def)
  have bel: "list_all (belongs (gj_tenant x) x) hs" using hs(1) belongs_cong [OF f] t by (simp add: appends_def)
  have ne: "gj_lines s \<noteq> []"
  proof
    assume "gj_lines s = []"
    then have l: "gj_lines x = []" using lines by simp
    then have "gj_status x = GL_POSTED" using x(2) by (auto simp: check_journal_balance_def mark_posted_def split: if_splits)
    then have "posted_in x (rows_of (gj_id x) (gl_history st))" using inv by (auto simp: entry_inv_def)
    then show False using l by (auto simp: posted_in_def filter_empty_conv)
  qed
  obtain h where h: "h \<in> set hs" "plain h" "hi_line h = 1" "\<not> list_ex (\<lambda>r. history_key r = history_key h) (gl_history st)"
    using first [OF ne] by (auto simp: st1)
  have new: "rows_of (gj_id x) (gl_history st) = []"
  proof (rule ccontr)
    assume "rows_of (gj_id x) (gl_history st) \<noteq> []"
    then have "posted_in x (rows_of (gj_id x) (gl_history st))" using inv by (auto simp: entry_inv_def)
    then obtain k where k: "k \<in> set (gl_history st)" "belongs (gj_tenant x) x k" "plain k" "hi_line k = 1"
      by (auto simp: posted_in_def list_all_iff rows_of_def)
    have "belongs (gj_tenant x) x h" using bel h(1) by (simp add: list_all_iff)
    then have "history_key k = history_key h" using k h(2,3) by (simp add: history_key_def belongs_def plain_def)
    then show False using h(4) k(1) by (auto simp: list_ex_iff)
  qed
  then have "gj_status x \<noteq> GL_POSTED" using inv by (auto simp: entry_inv_def)
  then have "\<bar>sum_list (map gn_debit (gj_lines x)) - sum_list (map gn_credit (gj_lines x))\<bar> \<le> 1"
    using x(2) by (auto simp: check_journal_balance_def mark_posted_def Let_def split: if_splits)
  moreover have "sum_list (map (snd \<circ> line_amount) ls) = sum_list (map gn_debit ls) - sum_list (map gn_credit ls)" for ls
    by (induction ls) (simp_all add: line_amount_def)
  ultimately have "posted_in x hs" using bel hs(2) lines h(1-3) by (auto simp: posted_in_def)
  moreover have "balances_ok st'" using hs(1) balances_ok_cong [of st' st2] st' by (simp add: appends_def)
  ultimately show ?thesis using that [OF xs(1) f new, of hs] hs(1) by (simp add: appends_def st' st1 xs(2))
qed

lemma approve_inv:
  assumes "approve_read gx s (gj_tenant s) by st = (r, st')" and "gl_inv st" and "knows st s"
  shows "gl_inv st' \<and> (knows st u \<longrightarrow> knows st' u)"
    and "opening_sum t a (gl_accounts st') + running_sum t a (gl_balances st') - amount_sum t a (gl_history st')
       = opening_sum t a (gl_accounts st) + running_sum t a (gl_balances st) - amount_sum t a (gl_history st)"
proof -
  have "(gl_inv st' \<and> (knows st u \<longrightarrow> knows st' u)) \<and>
     opening_sum t a (gl_accounts st') + running_sum t a (gl_balances st') - amount_sum t a (gl_history st')
       = opening_sum t a (gl_accounts st) + running_sum t a (gl_balances st) - amount_sum t a (gl_history st)"
  proof (cases "st' = st")
    case False
    then obtain v where tx: "approve_tx gx s (gj_tenant s) by st = Inr v" and l: "same_ledger v st'" "gl_entries st' = gl_entries v"
      using assms(1) by (auto simp: approve_read_def Let_def bind_res_Inr split: if_splits sum.splits dest!: serializable_Inr)
    obtain x hs where x: "x \<in> set (gl_entries st)" "fixed_part s = fixed_part x" "rows_of (gj_id x) (gl_history st) = []"
      and e: "gl_entries v = update_rows (\<lambda>r. gj_id r = gj_id x) (mark_posted gx by) (gl_entries st)"
      and h: "gl_history v = gl_history st @ hs" "posted_in x hs" and acc: "gl_accounts v = gl_accounts st" "balances_ok v"
      and run: "\<And>t a. running_sum t a (gl_balances v) = running_sum t a (gl_balances st) + amount_sum t a hs"
      by (rule approve_effect [OF tx assms(2,3)]) blast
    have k: "keeps_entry (mark_posted gx by)" by simp
    have bel: "list_all (belongs (gj_tenant x) x) hs" using h(2) by (simp add: posted_in_def)
    have ne: "hs \<noteq> []" using h(2) by (auto simp: posted_in_def)
    have same: "gl_accounts st' = gl_accounts st" "gl_history st' = gl_history st @ hs" "gl_balances st' = gl_balances v"
      using l(1) acc(1) h(1) by (simp_all add: same_ledger_def)
    have d: "distinct (map gj_id (gl_entries st))" using assms(2) by (simp add: gl_inv_def)
    have one: "entry_inv (gl_history st @ hs) (if gj_id y = gj_id x then mark_posted gx by y else y)" if y: "y \<in> set (gl_entries st)" for y
    proof (cases "gj_id y = gj_id x")
      case True
      then have "y = x" using same_id [OF d y x(1)] by simp
      moreover have "list_all line_fits (gj_lines x)" using assms(2) x(1) by (simp add: gl_inv_def list_all_iff entry_inv_def)
      ultimately show ?thesis using x(3) h(2) rows_of_belongs [OF bel, of "gj_id x"] posted_in_cong [of "mark_posted gx by x" x] k ne
        by (simp add: entry_inv_def keeps_entry_def mark_posted_def)
    next
      case False
      then show ?thesis using assms(2) y rows_of_belongs [OF bel, of "gj_id y"] by (simp add: gl_inv_def list_all_iff entry_inv_def)
    qed
    have all: "list_all (entry_inv (gl_history st')) (gl_entries st')" unfolding l(2) e list_all_iff set_update_rows same(2) using one by blast
    have ids: "map gj_id (gl_entries st') = map gj_id (gl_entries st)" "keys_of (gl_entries st') = keys_of (gl_entries st)"
      using keys_of_update [OF k] by (simp_all add: l(2) e)
    then have img: "gj_id ` set (gl_entries st') = gj_id ` set (gl_entries st)" by (metis set_map)
    have "hi_entry ` set hs \<subseteq> {gj_id x}" using bel by (auto simp: list_all_iff belongs_def)
    then have own: "hi_entry ` set (gl_history st') \<subseteq> gj_id ` set (gl_entries st')" using assms(2) x(1) by (auto simp: gl_inv_def same(2) img)
    have "balances_ok st'" using acc(2) balances_ok_cong [of st' v] l(1) by (simp add: same_ledger_def)
    then have inv: "gl_inv st'" using assms(2) all own ids by (simp add: gl_inv_def same(1))
    have "knows st' u" if kn: "knows st u"
    proof -
      obtain y where y: "y \<in> set (gl_entries st)" "fixed_part u = fixed_part y" using kn by (auto simp: knows_def)
      have "(if gj_id y = gj_id x then mark_posted gx by y else y) \<in> set (gl_entries st')" using y(1) by (simp add: l(2) e set_update_rows)
      moreover have "fixed_part u = fixed_part (if gj_id y = gj_id x then mark_posted gx by y else y)" using y(2) k by (simp add: keeps_entry_def)
      ultimately have "\<exists>e \<in> set (gl_entries st'). fixed_part u = fixed_part e" by (rule rev_bexI)
      then show ?thesis using kn by (auto simp: knows_def same(2))
    qed
    then show ?thesis using inv run by (simp add: same)
  qed (use assms(2) in simp)
  then show "gl_inv st' \<and> (knows st u \<longrightarrow> knows st' u)"
    and "opening_sum t a (gl_accounts st') + running_sum t a (gl_balances st') - amount_sum t a (gl_history st')
       = opening_sum t a (gl_accounts st) + running_sum t a (gl_balances st) - amount_sum t a (gl_history st)" by blast+
qed

section \<open>The carry-forward\<close>

definition owner_of :: "ledger_account \<Rightarrow> jstr \<times> jstr" where
  "owner_of a = (la_tenant a, la_id a)"

definition open_ok :: "ledger_account list \<Rightarrow> bool" where
  "open_ok as \<longleftrightarrow> distinct (map la_id as) \<and> list_all (\<lambda>a. fits_money (la_opening a)) as"

lemma opening_absent: "a \<notin> la_id ` set as \<Longrightarrow> opening_sum t a as = 0"
  by (induction as) auto

lemma carry_rows:
  assumes "map_res (\<lambda>a. if la_id a = i \<and> la_tenant a = T
      then bind_res (column_error (money (la_opening a + c))) (\<lambda>o'. Inr (a\<lparr>la_opening := o', la_opening_units := la_opening_units a + n\<rparr>))
      else Inr a) as = Inr as'" and "open_ok as"
  shows "map owner_of as' = map owner_of as \<and> open_ok as' \<and> ((T, i) \<in> owner_of ` set as \<longrightarrow> \<bar>c\<bar> < 2 * 10 ^ 15)
    \<and> opening_sum t a as' = opening_sum t a as + (if t = T \<and> a = i \<and> (T, i) \<in> owner_of ` set as then c else 0)"
  using assms
proof (induction as arbitrary: as')
  case (Cons x xs)
  obtain y ys where y: "as' = y # ys" and xs: "map_res (\<lambda>a. if la_id a = i \<and> la_tenant a = T
      then bind_res (column_error (money (la_opening a + c))) (\<lambda>o'. Inr (a\<lparr>la_opening := o', la_opening_units := la_opening_units a + n\<rparr>))
      else Inr a) xs = Inr ys"
    and hd: "(if la_id x = i \<and> la_tenant x = T
      then bind_res (column_error (money (la_opening x + c))) (\<lambda>o'. Inr (x\<lparr>la_opening := o', la_opening_units := la_opening_units x + n\<rparr>))
      else Inr x) = (Inr y :: gl_error + ledger_account)"
    using Cons.prems(1) by (auto simp: bind_res_Inr)
  have ok: "open_ok xs" using Cons.prems(2) by (simp add: open_ok_def)
  note IH = Cons.IH [OF xs ok]
  have ids: "map la_id ys = map la_id xs" using arg_cong [OF conjunct1 [OF IH], of "map snd"] by (simp add: owner_of_def comp_def)
  then have idset: "la_id ` set ys = la_id ` set xs" by (metis set_map)
  show ?case
  proof (cases "la_id x = i \<and> la_tenant x = T")
    case True
    then have o: "y = x\<lparr>la_opening := la_opening x + c, la_opening_units := la_opening_units x + n\<rparr>" "fits_money (la_opening x + c)"
      using hd by (auto simp: bind_res_Inr)
    have no: "i \<notin> la_id ` set xs" using Cons.prems(2) True by (auto simp: open_ok_def)
    then have "(T, i) \<notin> owner_of ` set xs" by (auto simp: owner_of_def)
    moreover have "fits_money (la_opening x)" using Cons.prems(2) by (simp add: open_ok_def)
    then have "\<bar>c\<bar> < 2 * 10 ^ 15" using o(2) unfolding fits_money_def by arith
    ultimately show ?thesis using IH True o Cons.prems(2) no idset by (auto simp: y open_ok_def owner_of_def)
  next
    case False
    then have "y = x" using hd by auto
    then show ?thesis using IH False Cons.prems(2) idset by (auto simp: y open_ok_def owner_of_def)
  qed
qed (simp add: open_ok_def)

definition account_total :: "period_balance list \<Rightarrow> jstr \<Rightarrow> int" where
  "account_total bs i = sum_list (map pb_running (filter (\<lambda>b. pb_account b = i) bs))"

lemma carry_account_effect:
  assumes "carry_account T bs (as, n) i = Inr (as', n')" and "open_ok as"
  shows "map owner_of as' = map owner_of as \<and> open_ok as'
    \<and> opening_sum t a as' = opening_sum t a as + (if t = T \<and> a = i \<and> (T, i) \<in> owner_of ` set as then account_total bs i else 0)"
proof (cases "num_eq (number_of_decimal (account_total bs i)) (Fin 0) \<and> sum_list (map pb_units (filter (\<lambda>b. pb_account b = i) bs)) = 0")
  case True
  then have "account_total bs i = 0" using decimal_nonzero by blast
  moreover have "as' = as" using assms(1) True by (simp add: carry_account_def account_total_def Let_def)
  ultimately show ?thesis using assms(2) by simp
next
  case False
  then obtain c where c: "rounded_cents (number_of_decimal (account_total bs i)) = Inr c"
    and m: "map_res (\<lambda>a. if la_id a = i \<and> la_tenant a = T
        then bind_res (column_error (money (la_opening a + c))) (\<lambda>o'. Inr (a\<lparr>la_opening := o',
          la_opening_units := la_opening_units a + sum_list (map pb_units (filter (\<lambda>b. pb_account b = i) bs))\<rparr>))
        else Inr a) as = Inr as'"
    using assms(1) by (auto simp: carry_account_def account_total_def Let_def bind_res_Inr)
  note r = carry_rows [OF m assms(2), of t a]
  have "(T, i) \<in> owner_of ` set as \<Longrightarrow> c = account_total bs i" using rounded_decimal_small [OF c] r by blast
  then show ?thesis using r by auto
qed

lemma carry_accounts_effect:
  assumes "fold_res (carry_account T bs) (as, n) is = Inr (as', n')" and "open_ok as" and "distinct is"
  shows "map owner_of as' = map owner_of as \<and> open_ok as'
    \<and> opening_sum t a as' = opening_sum t a as + (if t = T \<and> a \<in> set is \<and> (T, a) \<in> owner_of ` set as then account_total bs a else 0)"
  using assms
proof (induction "is" arbitrary: as n)
  case (Cons i ns)
  obtain as1 n1 where s: "carry_account T bs (as, n) i = Inr (as1, n1)" "fold_res (carry_account T bs) (as1, n1) ns = Inr (as', n')"
    using Cons.prems(1) by (auto simp: bind_res_Inr)
  note h = carry_account_effect [OF s(1) Cons.prems(2), of t a]
  have "map owner_of as' = map owner_of as1 \<and> open_ok as'
    \<and> opening_sum t a as' = opening_sum t a as1 + (if t = T \<and> a \<in> set ns \<and> (T, a) \<in> owner_of ` set as1 then account_total bs a else 0)"
    using Cons.IH [OF s(2)] h Cons.prems(3) by simp
  moreover have "owner_of ` set as1 = owner_of ` set as" using h by (metis set_map)
  ultimately show ?case using h Cons.prems(3) by auto
qed simp

lemma running_split: "running_sum t a bs = running_sum t a (filter P bs) + running_sum t a (filter (\<lambda>b. \<not> P b) bs)"
  by (induction bs) auto

lemma running_period: "running_sum t a (filter (in_period T y m) bs) = (if t = T then account_total (filter (in_period T y m) bs) a else 0)"
  by (induction bs) (auto simp: account_total_def in_period_def of_account_def)

lemma carry_forwardD:
  assumes "carry_forward gx T y m None st = (r, st')" and "st' \<noteq> st"
  obtains as n where "fold_res (carry_account T (filter (in_period T y m) (gl_balances st))) (gl_accounts st, 0)
        (remdups (map pb_account (filter (in_period T y m) (gl_balances st)))) = Inr (as, n)"
    and "st' = st\<lparr>gl_accounts := as, gl_balances := filter (\<lambda>b. \<not> in_period T y m b) (gl_balances st)\<rparr>"
proof -
  obtain c where "gl_serializable gx (carry_forward_tx T y m None st) = Inr (c, st')"
    using assms by (auto simp: carry_forward_def split: sum.splits)
  then have tx: "carry_forward_tx T y m None st = Inr (c, st')" by (rule serializable_Inr)
  obtain as n where "fold_res (carry_account T (filter (in_period T y m) (gl_balances st))) (gl_accounts st, 0)
        (remdups (map pb_account (filter (in_period T y m) (gl_balances st)))) = Inr (as, n)"
    and "st' = st\<lparr>gl_accounts := as, gl_balances := filter (\<lambda>b. \<not> in_period T y m b) (gl_balances st),
      gl_history := filter (\<lambda>h. True) (gl_history st)\<rparr>"
    using tx unfolding carry_forward_tx_def Let_def bind_res_Inr by force
  then show ?thesis using that by simp
qed

lemma carry_inv:
  assumes "carry_forward gx T y m None st = (r, st')" and "gl_inv st"
  shows "gl_inv st' \<and> (knows st u \<longrightarrow> knows st' u)"
    and "opening_sum t a (gl_accounts st') + running_sum t a (gl_balances st') - amount_sum t a (gl_history st')
       = opening_sum t a (gl_accounts st) + running_sum t a (gl_balances st) - amount_sum t a (gl_history st)"
proof -
  have "(gl_inv st' \<and> (knows st u \<longrightarrow> knows st' u)) \<and>
     opening_sum t a (gl_accounts st') + running_sum t a (gl_balances st') - amount_sum t a (gl_history st')
       = opening_sum t a (gl_accounts st) + running_sum t a (gl_balances st) - amount_sum t a (gl_history st)"
  proof (cases "st' = st")
    case False
    let ?bs = "filter (in_period T y m) (gl_balances st)"
    obtain as n where f: "fold_res (carry_account T ?bs) (gl_accounts st, 0) (remdups (map pb_account ?bs)) = Inr (as, n)"
      and st': "st' = st\<lparr>gl_accounts := as, gl_balances := filter (\<lambda>b. \<not> in_period T y m b) (gl_balances st)\<rparr>"
      by (rule carry_forwardD [OF assms(1) False]) blast
    have ok: "open_ok (gl_accounts st)" using assms(2) by (simp add: gl_inv_def open_ok_def)
    note e = carry_accounts_effect [OF f ok distinct_remdups, of t a]
    have own: "owner_of ` set as = owner_of ` set (gl_accounts st)" using e by (metis set_map)
    have b: "distinct (map balance_key (gl_balances st))" "(\<lambda>b. (pb_tenant b, pb_account b)) ` set (gl_balances st) \<subseteq> owner_of ` set (gl_accounts st)"
      using assms(2) by (simp_all add: gl_inv_def balances_ok_def owners_def owner_of_def)
    have sub: "(\<lambda>b. (pb_tenant b, pb_account b)) ` set (filter (\<lambda>b. \<not> in_period T y m b) (gl_balances st)) \<subseteq> owner_of ` set as"
      unfolding own using b(2) by auto
    have "balances_ok st'" using sub distinct_map_filter [OF b(1)] by (simp add: st' balances_ok_def owners_def flip: owner_of_def)
    then have inv: "gl_inv st'" using assms(2) e by (simp add: gl_inv_def st' open_ok_def)
    have "account_total ?bs a = 0" if "a \<notin> set (remdups (map pb_account ?bs)) \<or> (T, a) \<notin> owner_of ` set (gl_accounts st)"
    proof -
      have "filter (\<lambda>b. pb_account b = a) ?bs = []" using that b(2) by (auto simp: filter_empty_conv in_period_def)
      then show ?thesis by (simp add: account_total_def)
    qed
    then have "opening_sum t a as = opening_sum t a (gl_accounts st) + (if t = T then account_total ?bs a else 0)" using e by auto
    moreover have "running_sum t a (gl_balances st) = (if t = T then account_total ?bs a else 0) + running_sum t a (gl_balances st')"
      using running_split [of t a "gl_balances st" "in_period T y m"] by (simp add: running_period st')
    ultimately have "opening_sum t a (gl_accounts st') + running_sum t a (gl_balances st') = opening_sum t a (gl_accounts st) + running_sum t a (gl_balances st)"
      by (simp add: st')
    then show ?thesis using inv by (simp add: st' knows_def)
  qed (use assms(2) in simp)
  then show "gl_inv st' \<and> (knows st u \<longrightarrow> knows st' u)"
    and "opening_sum t a (gl_accounts st') + running_sum t a (gl_balances st') - amount_sum t a (gl_history st')
       = opening_sum t a (gl_accounts st) + running_sum t a (gl_balances st) - amount_sum t a (gl_history st)" by blast+
qed

section \<open>Runs\<close>

lemma world_step:
  assumes "gl_world_inv (st, E)" and "\<And>s. gl_inv st' \<and> (knows st s \<longrightarrow> knows st' s)"
  shows "gl_world_inv (st', E)"
  using assms by (auto simp: gl_world_inv_def list_all_iff)

lemma world_invD: "gl_world_inv (st, E) \<Longrightarrow> gl_inv st" "gl_world_inv (st, E) \<Longrightarrow> e \<in> set E \<Longrightarrow> knows st e"
  by (simp_all add: gl_world_inv_def list_all_iff)

lemma step_inv: "gl_step w w' \<Longrightarrow> gl_world_inv w \<Longrightarrow> gl_world_inv w'"
proof (induction rule: gl_step.induct)
  case (gs_read i tenant st e E)
  then obtain x where x: "gl_entry_row i tenant st = Some x" "e = to_domain x" by (auto simp: gl_find_entry_def)
  then have "x \<in> set (gl_entries st)" unfolding gl_entry_row_def by (auto dest: find_row_Some)
  moreover from this have "entry_inv (gl_history st) x" using gs_read.prems by (simp add: gl_world_inv_def gl_inv_def list_all_iff)
  ultimately have "knows st e" by (auto simp: knows_def x(2) entry_inv_def to_domain_def list_all_iff fixed_part_def comp_def)
  then show ?case using gs_read.prems by (simp add: gl_world_inv_def)
next
  case (gs_create gx dto tenant st r st' E)
  show ?case by (rule world_step [OF gs_create.prems create_inv [OF gs_create.hyps world_invD(1) [OF gs_create.prems]]])
next
  case (gs_discard e E gx v reason st r st')
  show ?case by (rule world_step [OF gs_discard.prems discard_inv [OF gs_discard.hyps(2) world_invD(1) [OF gs_discard.prems]]])
next
  case (gs_submit e E gx v st r st')
  show ?case by (rule world_step [OF gs_submit.prems submit_inv [OF gs_submit.hyps(2) world_invD(1) [OF gs_submit.prems]]])
next
  case (gs_approve e E gx approver st r st')
  note k = world_invD(1) [OF gs_approve.prems] world_invD(2) [OF gs_approve.prems gs_approve.hyps(1)]
  show ?case by (rule world_step [OF gs_approve.prems approve_inv(1) [OF gs_approve.hyps(2) k]])
next
  case (gs_reverse e E gx date reason v st r st')
  note k = world_invD(1) [OF gs_reverse.prems] world_invD(2) [OF gs_reverse.prems gs_reverse.hyps(1)]
  show ?case by (rule world_step [OF gs_reverse.prems reverse_inv [OF gs_reverse.hyps(2) k]])
next
  case (gs_carry gx tenant y m st c st' E)
  show ?case by (rule world_step [OF gs_carry.prems carry_inv(1) [OF gs_carry.hyps world_invD(1) [OF gs_carry.prems]]])
qed

lemma run_inv: "gl_step\<^sup>*\<^sup>* w w' \<Longrightarrow> gl_world_inv w \<Longrightarrow> gl_world_inv w'"
  by (induction rule: rtranclp_induct) (simp_all add: step_inv)

text \<open>The opening and running balances of an account move with its history.\<close>

definition drift :: "jstr \<Rightarrow> jstr \<Rightarrow> gl_store \<Rightarrow> int" where
  "drift t a st = opening_sum t a (gl_accounts st) + running_sum t a (gl_balances st) - amount_sum t a (gl_history st)"

lemma drift_same: "same_ledger st st' \<Longrightarrow> drift t a st' = drift t a st"
  by (simp add: same_ledger_def drift_def)

lemma create_ledger: "gl_create gx dto tenant st = (r, st') \<Longrightarrow> same_ledger st st'"
  by (auto simp: gl_create_def create_tx_def insert_gl_entry_def bind_res_Inr Let_def split: sum.splits option.splits if_splits)
     (simp_all add: same_ledger_def)

lemma update_ledger: "update_gl_entry i f st = Inr st1 \<Longrightarrow> same_ledger st st1"
  by (auto simp: update_gl_entry_def bind_res_Inr same_ledger_def split: option.splits)

lemma discard_ledger: "discard_read gx e tenant by reason st = (r, st') \<Longrightarrow> same_ledger st st'"
  by (auto simp: discard_read_def Let_def split: if_splits sum.splits dest: update_ledger)

lemma submit_ledger: "submit_read gx e tenant by st = (r, st') \<Longrightarrow> same_ledger st st'"
  by (auto simp: submit_read_def Let_def split: if_splits sum.splits dest: update_ledger)

lemma reverse_drift: "reverse_read gx e tenant date reason by st = (r, st') \<Longrightarrow> drift t a st' = drift t a st"
proof (cases "st' = st")
  case False
  assume "reverse_read gx e tenant date reason by st = (r, st')"
  then obtain st1 st2 where "insert_gl_entry (reversal_entry gx e tenant date reason) st = Inr st1"
    and "update_gl_entry (gj_id e) (\<lambda>r. r\<lparr>gj_status := GL_REVERSED, gj_reversed_by := Some (gx_id gx)\<rparr>) st1 = Inr st2"
    and "gl_accounts st' = gl_accounts st2" "gl_balances st' = gl_balances st2"
      "gl_history st' = flag_rows (\<lambda>h. hi_entry h = gj_id e \<and> hi_tenant h = tenant) (js ''R'') (gl_history st2)"
    using False by (auto simp: reverse_read_def gl_reverse_tx_def bind_res_Inr split: if_splits sum.splits)
  then show ?thesis using update_ledger [of "gj_id e" _ st1 st2]
    by (auto simp: drift_def amount_sum_flag same_ledger_def insert_gl_entry_def split: if_splits)
qed simp

lemma step_drift: "gl_step w w' \<Longrightarrow> gl_world_inv w \<Longrightarrow> drift t a (fst w') = drift t a (fst w)"
proof (induction rule: gl_step.induct)
  case (gs_approve e E gx approver st r st')
  note k = world_invD(1) [OF gs_approve.prems] world_invD(2) [OF gs_approve.prems gs_approve.hyps(1)]
  show ?case using approve_inv(2) [OF gs_approve.hyps(2) k] by (simp add: drift_def)
next
  case (gs_carry gx tenant y m st c st' E)
  show ?case using carry_inv(2) [OF gs_carry.hyps world_invD(1) [OF gs_carry.prems]] by (simp add: drift_def)
qed (auto dest: create_ledger discard_ledger submit_ledger drift_same reverse_drift)

lemma run_drift: "gl_step\<^sup>*\<^sup>* w w' \<Longrightarrow> gl_world_inv w \<Longrightarrow> drift t a (fst w') = drift t a (fst w)"
proof (induction rule: rtranclp_induct)
  case (step u v)
  then show ?case using step_drift [OF step.hyps(2) run_inv [OF step.hyps(1) step.prems]] by simp
qed simp

end
