(* ===== verification/GlTrace.thy ===== *)
theory GlTrace
  imports GlRuns
begin

text \<open>
  What a run of the general ledger guarantees, and a run: a journal of two lines is created, submitted and approved, every
  call acting on a reading of its own.
\<close>

section \<open>What a run of the ledger guarantees\<close>

text \<open>
  C4: a journal is posted at most once and as a whole. Whatever calls interleave, on however old readings, the history of a
  journal is empty or holds one row per line with exactly the line's account and debit less credit, adding up to at
  most a cent; and a journal that is POSTED or REVERSED is posted.
\<close>

theorem journal_posted_once:
  assumes "gl_start books" and "gl_step\<^sup>*\<^sup>* (books, []) (st, E)" and "e \<in> set (gl_entries st)"
  shows "(rows_of (gj_id e) (gl_history st) = []
      \<or> map account_amount (filter plain (rows_of (gj_id e) (gl_history st))) = map line_amount (gj_lines e)
         \<and> \<bar>sum_list (map (snd \<circ> line_amount) (gj_lines e))\<bar> \<le> 1)
    \<and> (gj_status e = GL_POSTED \<or> gj_status e = GL_REVERSED \<longrightarrow> rows_of (gj_id e) (gl_history st) \<noteq> [])"
proof -
  have "entry_inv (gl_history st) e"
    using world_invD(1) [OF run_inv [OF assms(2) start_inv [OF assms(1)]]] assms(3) by (simp add: gl_inv_def list_all_iff)
  then show ?thesis by (auto simp: entry_inv_def posted_in_def)
qed


section \<open>A run\<close>

definition demo_gx :: gl_env where
  "demo_gx = \<lparr>gx_closes = None, gx_local = (\<lambda>_. (2026, 1)), gx_now = 0, gx_id = js ''j'', gx_correlation = js ''c'', gx_event_id = js ''v'',
     gx_chain_id = js ''h'', gx_publishes = False, gx_conflict = (\<lambda>_. False)\<rparr>"

definition demo_ledger_account :: "jstr \<Rightarrow> ledger_account" where
  "demo_ledger_account i = \<lparr>la_id = i, la_tenant = js ''t'', la_code = i, la_name = i, la_type = js ''ASSET'', la_allow_posting = True,
     la_schedule = None, la_active = True, la_cos = None, la_inv = None, la_track_units = False, la_opening = 0, la_opening_units = 0,
     la_req_control = None\<rparr>"

definition demo_books :: gl_store where
  "demo_books = \<lparr>gl_accounts = [demo_ledger_account (js ''A''), demo_ledger_account (js ''B'')], gl_entries = [], gl_balances = [], gl_history = [],
     gl_outbox = [], gl_audit = [], gl_sources = [], gl_distributions = [], gl_cutoffs = [], gl_sent = []\<rparr>"

definition demo_dto_line :: "jstr \<Rightarrow> jsnum \<Rightarrow> jsnum \<Rightarrow> gl_line_dto" where
  "demo_dto_line a d c = \<lparr>gi_account = a, gi_debit = d, gi_credit = c, gi_memo = None, gi_store = None, gi_dept = None, gi_control = None,
     gi_apply_cd = None, gi_apply_number = None, gi_company = None, gi_cost = None, gi_apply_to_cost = None, gi_units = None, gi_tags = []\<rparr>"

definition demo_gl_line :: "jstr \<Rightarrow> int \<Rightarrow> int \<Rightarrow> gl_journal_line" where
  "demo_gl_line a d c = \<lparr>gn_account = a, gn_debit = d, gn_credit = c, gn_memo = None, gn_store = [], gn_dept = None, gn_control = None,
     gn_apply_cd = None, gn_apply_number = None, gn_company = None, gn_cost = None, gn_apply_to_cost = None, gn_units = 0, gn_rev_adj = None, gn_tags = []\<rparr>"

definition demo_dto :: gl_entry_dto where
  "demo_dto = \<lparr>gc_date = 0, gc_description = js ''d'', gc_source = js ''S'', gc_ref = None, gc_created_by = None, gc_prior = None,
     gc_reason = None, gc_key = Some (js ''k''), gc_entity = None, gc_execution = None, gc_pack = None, gc_pack_version = None,
     gc_event = None, gc_year_end = False, gc_13th_month = False,
     gc_lines = [demo_dto_line (js ''A'') (Fin 3) (Fin 0), demo_dto_line (js ''B'') (Fin 0) (Fin 3)]\<rparr>"

definition demo_draft :: gl_entry where
  "demo_draft = draft_entry demo_gx demo_dto (js ''t'') [demo_gl_line (js ''A'') 300 0, demo_gl_line (js ''B'') 0 300]"

definition demo_pending :: gl_entry where
  "demo_pending = demo_draft\<lparr>gj_status := GL_PENDING_REVIEW, gj_agent_reviewed := False\<rparr>"

lemma demo_books_start: "gl_start demo_books"
  by (simp add: gl_start_def demo_books_def demo_ledger_account_def fits_money_def)

lemma demo_numbers: "money_of (Fin 3) = Inr 300" "money_of (Fin 0) = Inr 0"
  by code_simp+

lemma demo_stored:
  "stored_line (demo_dto_line a (Fin 3) (Fin 0)) = Inr (demo_gl_line a 300 0)"
  "stored_line (demo_dto_line a (Fin 0) (Fin 3)) = Inr (demo_gl_line a 0 300)"
  by (simp_all add: stored_line_def demo_dto_line_def demo_gl_line_def demo_numbers optional_money_def short_text_def opt_str_def)

lemma demo_domain: "to_domain demo_draft = demo_draft" "to_domain demo_pending = demo_pending"
  by (simp_all add: to_domain_def demo_pending_def demo_draft_def draft_entry_def demo_gl_line_def line_to_domain_def)

lemma demo_insert: "insert_gl_entry demo_draft demo_books = Inr (demo_books\<lparr>gl_entries := [demo_draft]\<rparr>)"
  by (simp add: insert_gl_entry_def demo_books_def demo_draft_def draft_entry_def demo_gl_line_def demo_ledger_account_def)

lemma demo_created:
  "\<exists>st. gl_create demo_gx demo_dto (js ''t'') demo_books = (Inr demo_draft, st) \<and> gl_entries st = [demo_draft] \<and> same_ledger demo_books st"
proof -
  have l: "map_res stored_line (gc_lines demo_dto) = Inr [demo_gl_line (js ''A'') 300 0, demo_gl_line (js ''B'') 0 300]"
    by (simp add: demo_dto_def demo_stored)
  have "\<exists>st. create_tx demo_gx demo_dto (js ''t'') demo_books = Inr (demo_draft, st) \<and> gl_entries st = [demo_draft] \<and> same_ledger demo_books st"
    unfolding create_tx_def l column_error_def by (simp add: Let_def demo_insert same_ledger_def flip: demo_draft_def)
  then show ?thesis by (auto simp: gl_create_def demo_domain)
qed


lemma demo_journal_ids: "gj_id demo_draft = js ''j''" "gj_tenant demo_draft = js ''t''" "gj_status demo_draft = GL_DRAFT"
  "gj_id demo_pending = js ''j''" "gj_tenant demo_pending = js ''t''" "gj_status demo_pending = GL_PENDING_REVIEW"
  "gj_lines demo_pending = [demo_gl_line (js ''A'') 300 0, demo_gl_line (js ''B'') 0 300]" "gj_created_by demo_pending = None"
  by (simp_all add: demo_pending_def demo_draft_def draft_entry_def demo_gx_def demo_dto_def)

lemma demo_find: "gl_entries st = [e] \<Longrightarrow> to_domain e = e \<Longrightarrow> gl_find_entry (gj_id e) (gj_tenant e) st = Some e"
  by (simp add: gl_find_entry_def gl_entry_row_def)

lemma demo_under_review:
  assumes "gl_entries st = [demo_draft]"
  shows "\<exists>st'. submit_read demo_gx demo_draft (js ''t'') (js ''u'') st = (Inr demo_pending, st') \<and> gl_entries st' = [demo_pending]
    \<and> same_ledger st st'"
proof -
  have u: "update_gl_entry (js ''j'') (\<lambda>r. r\<lparr>gj_status := GL_PENDING_REVIEW, gj_agent_reviewed := False\<rparr>) st = Inr (st\<lparr>gl_entries := [demo_pending]\<rparr>)"
    using assms by (simp add: update_gl_entry_def check_journal_balance_def demo_journal_ids demo_pending_def [symmetric])
  have "reload_entry (js ''j'') (js ''t'') st' = Inr demo_pending" if "gl_entries st' = [demo_pending]" for st'
    using demo_find [OF that demo_domain(2)] by (simp add: reload_entry_def demo_journal_ids)
  then show ?thesis by (simp add: submit_read_def demo_journal_ids u Let_def same_ledger_def)
qed

lemma demo_line_fits: "line_fits (demo_gl_line a 300 0)" "line_fits (demo_gl_line a 0 300)"
  by (simp_all add: line_fits_def demo_gl_line_def fits_money_def)

lemma demo_posts_line:
  assumes "find_ledger_account (gn_account l) t st = Some a" and "la_id a = gn_account l" and "la_cos a = None" and "line_fits l" and "fits_money (gn_debit l - gn_credit l)"
    and "\<And>b. b \<in> set (gl_balances st) \<Longrightarrow> pb_account b \<noteq> gn_account l"
    and "\<And>h. h \<in> set (gl_history st) \<Longrightarrow> hi_line h \<noteq> n"
  shows "\<exists>b h st'. post_line gx t e by (st, n) l = Inr (st', n + 1) \<and> gl_balances st' = gl_balances st @ [b] \<and> gl_history st' = gl_history st @ [h]
    \<and> pb_account b = gn_account l \<and> hi_line h = n \<and> gl_accounts st' = gl_accounts st \<and> gl_entries st' = gl_entries st"
proof -
  have "find_row (balance_for gx t a e l) (gl_balances st) = None"
    using assms(2,6) by (auto simp: find_row_None balance_for_def)
  then obtain b where b: "update_journal_balance gx t a e l (line_net l) st = Inr (st\<lparr>gl_balances := gl_balances st @ [b]\<rparr>)" "pb_account b = gn_account l"
    using assms(2,4,5) by (simp add: update_journal_balance_def Let_def net_of_line money_def column_error_def)
  moreover obtain h where "write_history gx t a e l (line_net l) n '' '' by (st\<lparr>gl_balances := gl_balances st @ [b]\<rparr>)
      = Inr (st\<lparr>gl_balances := gl_balances st @ [b], gl_history := gl_history st @ [h]\<rparr>)" "hi_line h = n"
    using assms(4,5,7) by (force simp: write_history_def column_error_def money_of_def net_of_line money_def insert_history_def
      history_of_line_def history_key_def list_ex_iff)
  ultimately show ?thesis using assms(1,3) by (simp add: post_line_def Let_def chained_def given_def schedule_event_def)
qed

lemma demo_account:
  assumes "same_ledger demo_books st"
  shows "find_ledger_account (js ''A'') (js ''t'') st = Some (demo_ledger_account (js ''A''))"
    and "find_ledger_account (js ''B'') (js ''t'') st = Some (demo_ledger_account (js ''B''))"
  using assms by (simp_all add: find_ledger_account_def same_ledger_def demo_books_def demo_ledger_account_def)

definition demo_journal_lines :: "gl_journal_line list" where
  "demo_journal_lines = [demo_gl_line (js ''A'') 300 0, demo_gl_line (js ''B'') 0 300]"

lemma demo_posts_both:
  assumes "same_ledger demo_books st"
  shows "\<exists>st' n. fold_res (post_line demo_gx (js ''t'') demo_pending None) (st, 1) demo_journal_lines = Inr (st', n) \<and> gl_entries st' = gl_entries st"
proof -
  have e: "gl_balances st = []" "gl_history st = []" using assms by (simp_all add: same_ledger_def demo_books_def)
  have f: "gn_account (demo_gl_line a d c) = a" "gn_debit (demo_gl_line a d c) = d" "gn_credit (demo_gl_line a d c) = c"
    "la_id (demo_ledger_account a) = a" "la_cos (demo_ledger_account a) = None" for a d c
    by (simp_all add: demo_gl_line_def demo_ledger_account_def)
  obtain b1 h1 st1 where p1: "post_line demo_gx (js ''t'') demo_pending None (st, 1) (demo_gl_line (js ''A'') 300 0) = Inr (st1, 1 + 1)"
      "gl_balances st1 = [b1]" "gl_history st1 = [h1]" "pb_account b1 = js ''A''" "hi_line h1 = 1" "gl_accounts st1 = gl_accounts st" "gl_entries st1 = gl_entries st"
    using demo_posts_line [of "demo_gl_line (js ''A'') 300 0" "js ''t''" st "demo_ledger_account (js ''A'')" 1 demo_gx demo_pending None]
      demo_account(1) [OF assms] demo_line_fits e by (auto simp: f fits_money_def)
  have a1: "find_ledger_account (js ''B'') (js ''t'') st1 = Some (demo_ledger_account (js ''B''))"
    using demo_account(2) [OF assms] by (simp add: find_ledger_account_def p1)
  obtain st2 where p2: "post_line demo_gx (js ''t'') demo_pending None (st1, 2) (demo_gl_line (js ''B'') 0 300) = Inr (st2, 2 + 1)"
      "gl_entries st2 = gl_entries st1"
    using demo_posts_line [of "demo_gl_line (js ''B'') 0 300" "js ''t''" st1 "demo_ledger_account (js ''B'')" 2 demo_gx demo_pending None]
      a1 demo_line_fits p1 by (auto simp: f fits_money_def)
  have p1': "post_line demo_gx (js ''t'') demo_pending None (st, 1) (demo_gl_line (js ''A'') 300 0) = Inr (st1, 2)" using p1(1) by (simp add: numeral_2_eq_2)
  show ?thesis using p1' p2 p1(7) by (simp add: demo_journal_lines_def)
qed

lemma demo_approved:
  assumes "gl_entries st = [demo_pending]" and "same_ledger demo_books st"
  shows "\<exists>st' r. approve_read demo_gx demo_pending (js ''t'') None st = (r, st') \<and> gl_entries st' = [mark_posted demo_gx None demo_pending]"
proof -
  define st1 where "st1 = st\<lparr>gl_entries := [mark_posted demo_gx None demo_pending]\<rparr>"
  have u: "update_gl_entry (js ''j'') (mark_posted demo_gx None) st = Inr st1"
    using assms(1) by (simp add: update_gl_entry_def check_journal_balance_def demo_journal_ids st1_def mark_posted_def demo_gl_line_def)
  obtain st2 n where p: "fold_res (post_line demo_gx (js ''t'') demo_pending None) (st1, 1) (gj_lines demo_pending) = Inr (st2, n)"
      "gl_entries st2 = [mark_posted demo_gx None demo_pending]"
    using demo_posts_both [of st1] assms(2) by (auto simp: demo_journal_ids demo_journal_lines_def st1_def same_ledger_def)
  have v: "validate_accounts (gj_lines demo_pending) (js ''t'') st = Inr ()"
    using demo_account [OF assms(2)] by (simp add: validate_accounts_def demo_journal_ids demo_gl_line_def) (simp add: demo_ledger_account_def)
  have "\<exists>st3. approve_tx demo_gx demo_pending (js ''t'') None st = Inr st3 \<and> gl_entries st3 = gl_entries st2"
    using p(1) by (simp add: approve_tx_def demo_journal_ids(4) u del: fold_res.simps)
  then show ?thesis using p(2)
    by (auto simp: approve_read_def v demo_journal_ids(6,8) given_def gl_serializable_def demo_gx_def [THEN arg_cong [of _ _ gx_conflict]] Let_def)
qed

definition demo_approved_journal :: gl_entry where
  "demo_approved_journal = mark_posted demo_gx None demo_pending"

lemma demo_ledger_run:
  "\<exists>st. gl_step\<^sup>*\<^sup>* (demo_books, []) (st, [demo_pending, demo_draft]) \<and> gl_entries st = [demo_approved_journal]"
proof -
  obtain st1 where c: "gl_create demo_gx demo_dto (js ''t'') demo_books = (Inr demo_draft, st1)" "gl_entries st1 = [demo_draft]" "same_ledger demo_books st1"
    using demo_created by blast
  obtain st2 where s: "submit_read demo_gx demo_draft (js ''t'') (js ''u'') st1 = (Inr demo_pending, st2)" "gl_entries st2 = [demo_pending]" "same_ledger st1 st2"
    using demo_under_review [OF c(2)] by blast
  have l: "same_ledger demo_books st2" using c(3) s(3) by (simp add: same_ledger_def)
  obtain st3 r where a: "approve_read demo_gx demo_pending (js ''t'') None st2 = (r, st3)" "gl_entries st3 = [demo_approved_journal]"
    using demo_approved [OF s(2) l] unfolding demo_approved_journal_def by blast
  have "gl_step (demo_books, []) (st1, [])" by (rule gs_create [OF c(1)])
  moreover have "gl_step (st1, []) (st1, [demo_draft])" using demo_find [OF c(2) demo_domain(1)] by (rule gs_read)
  moreover have "gl_step (st1, [demo_draft]) (st2, [demo_draft])" using s(1) by (auto intro: gs_submit simp: demo_journal_ids)
  moreover have "gl_step (st2, [demo_draft]) (st2, [demo_pending, demo_draft])" using demo_find [OF s(2) demo_domain(2)] by (rule gs_read)
  moreover have "gl_step (st2, [demo_pending, demo_draft]) (st3, [demo_pending, demo_draft])" using a(1) by (auto intro: gs_approve simp: demo_journal_ids)
  ultimately show ?thesis using a(2) by (meson rtranclp.rtrancl_into_rtrancl rtranclp.rtrancl_refl)
qed

lemma demo_approved_simps: "gj_id demo_approved_journal = js ''j''" "gj_status demo_approved_journal = GL_POSTED" "gj_lines demo_approved_journal = demo_journal_lines" "gj_tenant demo_approved_journal = js ''t''"
  by (simp_all add: demo_approved_journal_def mark_posted_def demo_journal_ids demo_journal_lines_def)

theorem journal_posted_once_witness:
  "\<exists>st. gl_step\<^sup>*\<^sup>* (demo_books, []) (st, [demo_pending, demo_draft]) \<and> gl_entries st = [demo_approved_journal]
     \<and> map account_amount (filter plain (rows_of (js ''j'') (gl_history st))) = [(js ''A'', 300), (js ''B'', - 300)]"
proof -
  obtain st where r: "gl_step\<^sup>*\<^sup>* (demo_books, []) (st, [demo_pending, demo_draft])" "gl_entries st = [demo_approved_journal]" using demo_ledger_run by blast
  then show ?thesis using journal_posted_once [OF demo_books_start r(1), of demo_approved_journal]
    by (auto simp: demo_approved_simps demo_journal_lines_def demo_gl_line_def line_amount_def)
qed


text \<open>
  C37: the status of a journal is checked on what was read, not when it is written. A call that read a draft and voids
  it late voids the journal another caller has posted meanwhile: it ends VOIDED with its history and balances standing.
\<close>

theorem late_discard_voids_posted:
  "\<exists>st E e. gl_step\<^sup>*\<^sup>* (demo_books, []) (st, E) \<and> e \<in> set (gl_entries st) \<and> gj_status e = GL_VOIDED \<and> rows_of (gj_id e) (gl_history st) \<noteq> []"
proof -
  obtain st where r: "gl_step\<^sup>*\<^sup>* (demo_books, []) (st, [demo_pending, demo_draft])" "gl_entries st = [demo_approved_journal]" using demo_ledger_run by blast
  have "entry_inv (gl_history st) demo_approved_journal"
    using world_invD(1) [OF run_inv [OF r(1) start_inv [OF demo_books_start]]] r(2) by (simp add: gl_inv_def)
  then have h: "rows_of (js ''j'') (gl_history st) \<noteq> []" by (auto simp: entry_inv_def demo_approved_simps)
  have "update_gl_entry (js ''j'') (\<lambda>r. r\<lparr>gj_status := GL_VOIDED\<rparr>) st = Inr (st\<lparr>gl_entries := [demo_approved_journal\<lparr>gj_status := GL_VOIDED\<rparr>]\<rparr>)"
    by (simp add: update_gl_entry_def r(2) demo_approved_simps check_journal_balance_def)
  then have "\<exists>x st'. discard_read demo_gx demo_draft (gj_tenant demo_draft) (js ''u'') (js ''r'') st = (x, st')
      \<and> gl_entries st' = [demo_approved_journal\<lparr>gj_status := GL_VOIDED\<rparr>] \<and> gl_history st' = gl_history st"
    by (simp add: discard_read_def demo_journal_ids Let_def given_def demo_draft_def draft_entry_def demo_dto_def demo_gx_def del: ex_simps)
  then obtain x st' where d: "discard_read demo_gx demo_draft (gj_tenant demo_draft) (js ''u'') (js ''r'') st = (x, st')"
      "gl_entries st' = [demo_approved_journal\<lparr>gj_status := GL_VOIDED\<rparr>]" "gl_history st' = gl_history st" by blast
  have "gl_step (st, [demo_pending, demo_draft]) (st', [demo_pending, demo_draft])" using d(1) by (auto intro: gs_discard)
  then show ?thesis using r(1) d(2,3) h
    by (intro exI [of _ st'] exI [of _ "[demo_pending, demo_draft]"] exI [of _ "demo_approved_journal\<lparr>gj_status := GL_VOIDED\<rparr>"]) (auto simp: demo_approved_simps)
qed

end
