(* ===== verification/GlNames.thy ===== *)
theory GlNames
  imports GlTrace
begin

text \<open>
  The identity of a journal - its tenant, its idempotency key and its identifier - outlives every operation of the
  ledger: journals are added, never removed or renamed. So a key goes on naming the journal it was first used for.
\<close>

section \<open>Identities\<close>

definition identity_of :: "gl_entry \<Rightarrow> jstr \<times> jstr option \<times> jstr" where
  "identity_of e = (gj_tenant e, gj_key e, gj_id e)"

definition identities :: "gl_store \<Rightarrow> (jstr \<times> jstr option \<times> jstr) set" where
  "identities st = identity_of ` set (gl_entries st)"

lemma identities_side [simp]:
  "identities (append_audit_rows t i ac u b af ev st) = identities st" "identities (add_outbox o' st) = identities st"
  "identities (publish_event gx ty t p st) = identities st" "identities (st\<lparr>gl_history := hs\<rparr>) = identities st"
  by (simp_all add: identities_def)

lemma identities_update:
  assumes "update_gl_entry i f st = Inr st1" and "keeps_entry f"
  shows "identities st1 = identities st"
proof -
  have f: "identity_of (f e) = identity_of e" for e using keeps_entryD [OF assms(2)] by (simp add: identity_of_def)
  obtain "st1 = st\<lparr>gl_entries := update_rows (\<lambda>r. gj_id r = i) f (gl_entries st)\<rparr>" by (rule update_gl_entryD [OF assms(1)]) blast
  then have "map identity_of (gl_entries st1) = map identity_of (gl_entries st)" using f by (simp add: map_update_rows)
  then show ?thesis unfolding identities_def by (metis set_map)
qed

lemma identities_insert: "insert_gl_entry e st = Inr st1 \<Longrightarrow> identities st1 = insert (identity_of e) (identities st)"
  by (auto simp: insert_gl_entry_def identities_def split: if_splits)

section \<open>Every step keeps them\<close>

lemma create_tx_identities: "create_tx gx dto tenant st = Inr (e, st1) \<Longrightarrow> identities st1 = insert (identity_of e) (identities st)"
  by (auto simp: create_tx_def bind_res_Inr Let_def identities_def dest!: identities_insert)

lemma create_names: "gl_create gx dto tenant st = (r, st') \<Longrightarrow> identities st \<subseteq> identities st'"
  by (auto simp: gl_create_def dest: create_tx_identities split: sum.splits option.splits)

lemma discard_names: "discard_read gx e tenant by reason st = (r, st') \<Longrightarrow> identities st' = identities st"
  by (auto simp: discard_read_def Let_def dest: identities_update split: if_splits sum.splits)

lemma submit_names: "submit_read gx e tenant by st = (r, st') \<Longrightarrow> identities st' = identities st"
  by (auto simp: submit_read_def Let_def dest: identities_update split: if_splits sum.splits)

lemma balance_entries: "update_journal_balance gx t a e l net st = Inr st1 \<Longrightarrow> gl_entries st1 = gl_entries st"
  by (auto simp: update_journal_balance_def Let_def bind_res_Inr split: option.splits)

lemma history_entries: "write_history gx t a e l net n ty by st = Inr st1 \<Longrightarrow> gl_entries st1 = gl_entries st"
  by (auto simp: write_history_def insert_history_def bind_res_Inr split: if_splits)

lemma chain_part_entries: "chain_part gx t a e l net n ty ending by st = Inr st1 \<Longrightarrow> gl_entries st1 = gl_entries st"
  by (auto simp: chain_part_def bind_res_Inr) (metis balance_entries history_entries)

lemma chain_entries: "post_cos_inv_chain gx t a e l cost n by st = Inr st1 \<Longrightarrow> gl_entries st1 = gl_entries st"
  by (auto simp: post_cos_inv_chain_def bind_res_Inr dest!: chain_part_entries split: option.splits)

lemma post_line_entries: "post_line gx t e by (st, n) l = Inr (st1, m) \<Longrightarrow> gl_entries st1 = gl_entries st"
  by (auto simp: post_line_def Let_def bind_res_Inr dest!: balance_entries history_entries chain_entries split: option.splits)

lemma post_lines_entries: "fold_res (post_line gx t e by) (st, n) ls = Inr (st1, m) \<Longrightarrow> gl_entries st1 = gl_entries st"
proof (induction ls arbitrary: st n)
  case (Cons l ls)
  then obtain st2 k where "post_line gx t e by (st, n) l = Inr (st2, k)" "fold_res (post_line gx t e by) (st2, k) ls = Inr (st1, m)"
    by (auto simp: bind_res_Inr)
  then show ?case using Cons.IH post_line_entries by metis
qed simp

lemma approve_tx_names:
  assumes "approve_tx gx e tenant by st = Inr st'"
  shows "identities st' = identities st"
proof -
  obtain st1 st2 n where u: "update_gl_entry (gj_id e) (mark_posted gx by) st = Inr st1"
    and p: "fold_res (post_line gx tenant e by) (st1, 1) (gj_lines e) = Inr (st2, n)" and s: "identities st' = identities st2"
    using assms by (auto simp: approve_tx_def bind_res_Inr)
  have "identities st2 = identities st1" using post_lines_entries [OF p] by (simp add: identities_def)
  then show ?thesis using s identities_update [OF u] by simp
qed

lemma approve_names:
  assumes "approve_read gx e tenant by st = (r, st')"
  shows "identities st' = identities st"
proof (cases "st' = st")
  case False
  then obtain v where tx: "approve_tx gx e tenant by st = Inr v" and i: "identities st' = identities v"
    using assms by (auto simp: approve_read_def Let_def bind_res_Inr split: if_splits sum.splits dest!: serializable_Inr)
  show ?thesis unfolding i using tx by (rule approve_tx_names)
qed simp

lemma reverse_names:
  assumes "reverse_read gx e tenant date reason by st = (r, st')"
  shows "identities st \<subseteq> identities st'"
proof (cases "st' = st")
  case False
  then obtain st1 st2 where i: "insert_gl_entry (reversal_entry gx e tenant date reason) st = Inr st1"
    and u: "update_gl_entry (gj_id e) (\<lambda>r. r\<lparr>gj_status := GL_REVERSED, gj_reversed_by := Some (gx_id gx)\<rparr>) st1 = Inr st2"
    and s: "identities st' = identities st2"
    using assms by (auto simp: reverse_read_def gl_reverse_tx_def bind_res_Inr split: if_splits sum.splits)
  then show ?thesis using identities_insert [OF i] identities_update [OF u] by auto
qed simp

lemma carry_names: "carry_forward gx tenant y m cutoff st = (r, st') \<Longrightarrow> identities st' = identities st"
  by (auto simp: carry_forward_def carry_forward_tx_def Let_def bind_res_Inr identities_def dest!: serializable_Inr split: sum.splits)

lemma step_names: "gl_step w w' \<Longrightarrow> identities (fst w) \<subseteq> identities (fst w')"
  by (induction rule: gl_step.induct)
     (auto dest: create_names discard_names submit_names approve_names reverse_names carry_names)

lemma run_names: "gl_step\<^sup>*\<^sup>* w w' \<Longrightarrow> identities (fst w) \<subseteq> identities (fst w')"
  by (induction rule: rtranclp_induct) (auto dest: step_names)

section \<open>The journal a key names\<close>

definition key_names :: "gl_store \<Rightarrow> jstr \<times> jstr \<Rightarrow> jstr \<Rightarrow> bool" where
  "key_names st k j \<longleftrightarrow> (fst k, Some (snd k), j) \<in> identities st"

lemma key_names_unique:
  assumes "gl_inv st" and "key_names st k i" and "key_names st k j"
  shows "i = j"
proof -
  obtain e f where e: "e \<in> set (gl_entries st)" "entry_key e = (fst k, Some (snd k))" "gj_id e = i" "gj_key e \<noteq> None"
    and f: "f \<in> set (gl_entries st)" "entry_key f = (fst k, Some (snd k))" "gj_id f = j" "gj_key f \<noteq> None"
    using assms(2,3) by (auto simp: key_names_def identities_def identity_of_def entry_key_def)
  have "inj_on entry_key (set (filter (\<lambda>e. gj_key e \<noteq> None) (gl_entries st)))"
    using assms(1) by (simp add: gl_inv_def keys_of_def distinct_map)
  then have "e = f" using e f by (auto simp: inj_on_def)
  then show ?thesis using e f by simp
qed

lemma entry_by_key_names: "gl_entry_by_key t k st = Some e \<Longrightarrow> key_names st (t, k) (gj_id e)"
  by (auto simp: gl_entry_by_key_def key_names_def identities_def identity_of_def image_iff dest!: find_row_Some)

text \<open>What the other callers of the ledger may do: any run of it, on readings of theirs.\<close>

definition ledger_runs :: "gl_store \<Rightarrow> gl_store \<Rightarrow> bool" where
  "ledger_runs st st' \<longleftrightarrow> (\<exists>E E'. list_all (knows st) E \<and> gl_step\<^sup>*\<^sup>* (st, E) (st', E'))"

lemma ledger_runs_keeps:
  assumes "ledger_runs st st'" and "gl_inv st"
  shows "gl_inv st' \<and> identities st \<subseteq> identities st'"
proof -
  obtain E E' where r: "list_all (knows st) E" "gl_step\<^sup>*\<^sup>* (st, E) (st', E')" using assms(1) by (auto simp: ledger_runs_def)
  then have "gl_world_inv (st', E')" using run_inv [OF r(2)] assms(2) by (simp add: gl_world_inv_def)
  then show ?thesis using run_names [OF r(2)] by (simp add: gl_world_inv_def)
qed

lemma ledger_runs_refl: "ledger_runs st st"
  by (auto simp: ledger_runs_def intro!: exI [of _ "[]"])

end
