(* ===== verification/GlBridge.thy ===== *)
theory GlBridge
  imports GlNames PostingEngine
begin

text \<open>
  The door of the general ledger and the bridge of the posting engine to it: the creation route of
  \<open>services/gl-service/src/http/routes.ts\<close> with its schema, its resolution of account codes and its required control
  numbers, and \<open>HttpGlPostingBridge.post\<close> of \<open>services/coa-service/src/application/gl-posting-bridge.ts\<close>, between whose
  calls other callers may act. A locale states what the engine relies on: the journal a key names stays the one it names.
\<close>

section \<open>The creation route\<close>

text \<open>A line names its account by identifier or by code; \<open>bj_line\<close> has the other fields.\<close>

record body_line =
  bj_id :: "jstr option"
  bj_code :: "jstr option"
  bj_line :: gl_line_dto

record journal_body =
  bo_date :: jstr
  bo_description :: jstr
  bo_source :: jstr
  bo_ref :: "jstr option"
  bo_prior :: "bool option"
  bo_reason :: "jstr option"
  bo_key :: "jstr option"
  bo_entity :: "jstr option"
  bo_execution :: "jstr option"
  bo_pack :: "jstr option"
  bo_pack_version :: "jstr option"
  bo_event :: "jstr option"
  bo_lines :: "body_line list"

text \<open>
  What the runtime and the HTTP layer contribute: the instant a date string denotes, which strings are UUIDs, and the
  status and text an error is answered with.
\<close>

record http_env =
  hx_parse_date :: "jstr \<Rightarrow> int option"
  hx_uuid :: "jstr \<Rightarrow> bool"
  hx_answer :: "gl_error \<Rightarrow> jstr"

definition at_most :: "nat \<Rightarrow> jstr option \<Rightarrow> bool" where
  "at_most n v = (case v of None \<Rightarrow> True | Some s \<Rightarrow> length s \<le> n)"

text \<open>JSON carries no infinities, so a number of a body is finite.\<close>

definition amount_ok :: "jsnum \<Rightarrow> bool" where
  "amount_ok n = (case n of Fin q \<Rightarrow> 0 \<le> q | _ \<Rightarrow> False)"

definition schema_line :: "http_env \<Rightarrow> body_line \<Rightarrow> bool" where
  "schema_line hx b \<longleftrightarrow> (case bj_id b of None \<Rightarrow> True | Some i \<Rightarrow> hx_uuid hx i)
     \<and> amount_ok (gi_debit (bj_line b)) \<and> amount_ok (gi_credit (bj_line b)) \<and> at_most 1 (gi_apply_cd (bj_line b))
     \<and> at_most 20 (gi_apply_number (bj_line b)) \<and> at_most 20 (gi_control (bj_line b)) \<and> at_most 2 (gi_company (bj_line b))"

definition schema_ok :: "http_env \<Rightarrow> journal_body \<Rightarrow> bool" where
  "schema_ok hx b \<longleftrightarrow> bo_description b \<noteq> [] \<and> bo_source b \<noteq> [] \<and> at_most 8 (bo_ref b) \<and> at_most 200 (bo_key b)
     \<and> at_most 36 (bo_entity b) \<and> at_most 36 (bo_execution b) \<and> at_most 100 (bo_pack b) \<and> at_most 20 (bo_pack_version b)
     \<and> at_most 36 (bo_event b) \<and> bo_lines b \<noteq> [] \<and> list_all (schema_line hx) (bo_lines b)"

definition account_of_code :: "jstr \<Rightarrow> gl_store \<Rightarrow> jstr \<Rightarrow> ledger_account option" where
  "account_of_code tenant st code = find_row (\<lambda>a. la_tenant a = tenant \<and> la_code a = code) (gl_accounts st)"

definition resolve_code :: "jstr \<Rightarrow> gl_store \<Rightarrow> body_line \<Rightarrow> gl_error + body_line" where
  "resolve_code tenant st b =
     (if \<not> given (bj_id b) \<and> given (bj_code b)
      then (case account_of_code tenant st (opt_str (bj_code b)) of
              None \<Rightarrow> Inl (UnknownAccountCode (opt_str (bj_code b)))
            | Some a \<Rightarrow> Inr (b\<lparr>bj_id := Some (la_id a)\<rparr>))
      else Inr b)"

definition require_account :: "nat \<times> body_line \<Rightarrow> gl_error + unit" where
  "require_account ib = (if given (bj_id (snd ib)) then Inr () else Inl (AccountMissing (fst ib)))"

definition require_control :: "jstr \<Rightarrow> gl_store \<Rightarrow> nat \<times> body_line \<Rightarrow> gl_error + unit" where
  "require_control tenant st ib =
     (case find_ledger_account (opt_str (bj_id (snd ib))) tenant st of
        None \<Rightarrow> Inr ()
      | Some a \<Rightarrow> if given (la_req_control a) \<and> la_req_control a \<noteq> Some (js '' '') \<and> \<not> given (gi_control (bj_line (snd ib)))
                   then Inl (ControlMissing (fst ib) (opt_str (la_req_control a))) else Inr ())"

text \<open>The schema has no \<open>costAmount\<close>, and drops what it does not name: no line of a body has a cost.\<close>

definition entry_dto :: "journal_body \<Rightarrow> int \<Rightarrow> jstr option \<Rightarrow> body_line list \<Rightarrow> gl_entry_dto" where
  "entry_dto b date user ls =
     \<lparr>gc_date = date, gc_description = bo_description b, gc_source = bo_source b, gc_ref = bo_ref b, gc_created_by = user,
      gc_prior = bo_prior b, gc_reason = bo_reason b, gc_key = bo_key b, gc_entity = bo_entity b, gc_execution = bo_execution b,
      gc_pack = bo_pack b, gc_pack_version = bo_pack_version b, gc_event = bo_event b, gc_year_end = False, gc_13th_month = False,
      gc_lines = map (\<lambda>l. (bj_line l)\<lparr>gi_account := opt_str (bj_id l), gi_cost := None\<rparr>) ls\<rparr>"

definition create_checks :: "http_env \<Rightarrow> jstr \<Rightarrow> jstr option \<Rightarrow> journal_body \<Rightarrow> gl_store \<Rightarrow> gl_error + gl_entry_dto" where
  "create_checks hx tenant user b st =
     (if \<not> schema_ok hx b then Inl SchemaRejected
      else bind_res (map_res (resolve_code tenant st) (bo_lines b)) (\<lambda>ls.
           bind_res (map_res require_account (zip [0..<length ls] ls)) (\<lambda>_.
           bind_res (map_res (require_control tenant st) (zip [0..<length ls] ls)) (\<lambda>_.
             case hx_parse_date hx (bo_date b) of
               None \<Rightarrow> Inl (Db BadDate)
             | Some date \<Rightarrow> Inr (entry_dto b date user ls)))))"

definition create_route :: "http_env \<Rightarrow> gl_env \<Rightarrow> jstr \<Rightarrow> jstr option \<Rightarrow> journal_body \<Rightarrow> gl_store \<Rightarrow> (gl_error + gl_entry) \<times> gl_store" where
  "create_route hx gx tenant user b st =
     (case create_checks hx tenant user b st of Inl e \<Rightarrow> (Inl e, st) | Inr dto \<Rightarrow> create_journal_entry gx dto tenant st)"

section \<open>The bridge\<close>

definition bridge_line :: "gl_line \<Rightarrow> body_line" where
  "bridge_line l = \<lparr>bj_id = None, bj_code = Some (gq_account l),
     bj_line = \<lparr>gi_account = [], gi_debit = gq_debit l, gi_credit = gq_credit l, gi_memo = gq_memo l, gi_store = gq_store l,
       gi_dept = gq_dept l, gi_control = gq_control l, gi_apply_cd = (if given (gq_apply l) then Some (js ''#'') else None),
       gi_apply_number = gq_apply l, gi_company = None, gi_cost = None, gi_apply_to_cost = None, gi_units = None, gi_tags = []\<rparr>\<rparr>"

definition bridge_body :: "gl_request \<Rightarrow> journal_body" where
  "bridge_body rq = \<lparr>bo_date = gq_date rq, bo_description = gq_description rq, bo_source = gq_source rq, bo_ref = gq_source_ref rq,
     bo_prior = None, bo_reason = None, bo_key = gq_key rq, bo_entity = gq_entity rq, bo_execution = gq_execution rq,
     bo_pack = gq_pack rq, bo_pack_version = gq_pack_version rq, bo_event = gq_event rq, bo_lines = map bridge_line (gq_lines rq)\<rparr>"

text \<open>The answer of the ledger has no journal number.\<close>

definition bridge_result :: "gl_entry \<Rightarrow> gl_result" where
  "bridge_result e = \<lparr>gr_journal = gj_id e, gr_number = None, gr_status = gl_status_str (gj_status e)\<rparr>"

text \<open>
  The calls of one \<open>post\<close>: \<open>br_between n\<close> is what the other callers do before its call \<open>n\<close>, call 0 being the submission
  and the next five the reads after a failed one.
\<close>

record bridge_env =
  br_http :: http_env
  br_create :: gl_env
  br_submit :: gl_env
  br_user :: "jstr option"
  br_between :: "nat \<Rightarrow> gl_store \<Rightarrow> gl_store"

fun refetch :: "bridge_env \<Rightarrow> jstr \<Rightarrow> jstr \<Rightarrow> nat list \<Rightarrow> gl_store \<Rightarrow> gl_entry option \<times> gl_store" where
  "refetch br tenant i [] st = (None, st)"
| "refetch br tenant i (n # ns) st =
     (case gl_find_entry i tenant (br_between br n st) of
        None \<Rightarrow> refetch br tenant i ns (br_between br n st)
      | Some e \<Rightarrow> if gj_status e \<noteq> GL_DRAFT then (Some e, br_between br n st) else refetch br tenant i ns (br_between br n st))"

definition submit_created :: "bridge_env \<Rightarrow> gl_request \<Rightarrow> gl_entry \<Rightarrow> gl_store \<Rightarrow> (jstr + gl_result) \<times> gl_store" where
  "submit_created br rq e st =
     (case post_journal_entry (br_submit br) (gj_id e) (gq_tenant rq) (js ''system'') (br_between br 0 st) of
        (Inr s, st1) \<Rightarrow> (Inr (bridge_result s), st1)
      | (Inl bad, st1) \<Rightarrow>
          (let failed = js ''gl-service journal submission-for-review failed: HTTP '' @ hx_answer (br_http br) bad
           in if given (gq_key rq)
              then (case refetch br (gq_tenant rq) (gj_id e) [1..<6] st1 of
                      (Some s, st2) \<Rightarrow> (Inr (bridge_result s), st2)
                    | (None, st2) \<Rightarrow> (Inl failed, st2))
              else (Inl failed, st1)))"

definition http_post :: "bridge_env \<Rightarrow> gl_store gl_bridge" where
  "http_post br rq st =
     (case create_route (br_http br) (br_create br) (gq_tenant rq) (br_user br) (bridge_body rq) st of
        (Inl bad, st1) \<Rightarrow> (Inl (js ''gl-service journal creation failed: HTTP '' @ hx_answer (br_http br) bad), st1)
      | (Inr e, st1) \<Rightarrow> if gj_status e \<noteq> GL_DRAFT then (Inr (bridge_result e), st1) else submit_created br rq e st1)"

section \<open>The contract of a posting door\<close>

text \<open>
  \<open>good\<close> is an invariant of the ledger's states, \<open>names s k j\<close> says that key \<open>k\<close> names journal \<open>j\<close>, \<open>evolves\<close> what other
  callers may do, \<open>fair\<close> that a post meets nothing else of them. A successful post under a key leaves the key naming the journal it returns.
\<close>

locale posting_door =
  fixes post :: "'q \<Rightarrow> 's \<Rightarrow> ('e + 'r) \<times> 's"
    and key_of :: "'q \<Rightarrow> 'k option"
    and journal :: "'r \<Rightarrow> 'j"
    and good :: "'s \<Rightarrow> bool"
    and fair :: "'q \<Rightarrow> bool"
    and names :: "'s \<Rightarrow> 'k \<Rightarrow> 'j \<Rightarrow> bool"
    and evolves :: "'s \<Rightarrow> 's \<Rightarrow> bool"
  assumes names_unique: "good s \<Longrightarrow> names s k j \<Longrightarrow> names s k j' \<Longrightarrow> j = j'"
    and evolves_keeps: "evolves s s' \<Longrightarrow> good s \<Longrightarrow> good s' \<and> (names s k j \<longrightarrow> names s' k j)"
    and post_keeps: "post q s = (x, s') \<Longrightarrow> fair q \<Longrightarrow> good s \<Longrightarrow> good s' \<and> (names s k j \<longrightarrow> names s' k j)"
    and post_names: "post q s = (Inr r, s') \<Longrightarrow> fair q \<Longrightarrow> good s \<Longrightarrow> key_of q = Some k \<Longrightarrow> names s' k (journal r)"
begin

lemma one_journal_per_key:
  assumes "good s" and "post q s = (Inr r, s1)" and "evolves s1 s2" and "post q' s2 = (Inr r', s3)"
    and "fair q" and "fair q'" and "key_of q = Some k" and "key_of q' = Some k"
  shows "journal r = journal r'"
proof -
  have g1: "good s1" and n1: "names s1 k (journal r)" using post_keeps [OF assms(2,5,1)] post_names [OF assms(2,5,1,7)] by blast+
  have g2: "good s2" and n2: "names s2 k (journal r)" using evolves_keeps [OF assms(3) g1] n1 by blast+
  have "good s3" "names s3 k (journal r)" using post_keeps [OF assms(4,6) g2] n2 by blast+
  then show ?thesis using names_unique post_names [OF assms(4,6) g2 assms(8)] by blast
qed

end


section \<open>The ledger behind the bridge is such a door\<close>

definition calm :: "bridge_env \<Rightarrow> bool" where
  "calm br \<longleftrightarrow> (\<forall>n st. ledger_runs st (br_between br n st))"

definition keeps_ledger :: "gl_store \<Rightarrow> gl_store \<Rightarrow> bool" where
  "keeps_ledger st st' \<longleftrightarrow> (gl_inv st \<longrightarrow> gl_inv st' \<and> identities st \<subseteq> identities st')"

lemma keeps_ledger_refl [simp]: "keeps_ledger st st"
  by (simp add: keeps_ledger_def)

lemma keeps_ledger_trans: "keeps_ledger st st1 \<Longrightarrow> keeps_ledger st1 st2 \<Longrightarrow> keeps_ledger st st2"
  by (auto simp: keeps_ledger_def)

lemma keeps_ledgerD: "keeps_ledger st st' \<Longrightarrow> gl_inv st \<Longrightarrow> gl_inv st' \<and> (key_names st k j \<longrightarrow> key_names st' k j)"
  by (auto simp: keeps_ledger_def key_names_def)

lemma between_keeps: "calm br \<Longrightarrow> keeps_ledger st (br_between br n st)"
  using ledger_runs_keeps by (auto simp: calm_def keeps_ledger_def)

lemma create_entry_keeps:
  assumes "create_journal_entry gx dto tenant st = (r, st')"
  shows "keeps_ledger st st'"
proof (cases "st' = st")
  case False
  then obtain full where c: "gl_create gx full tenant st = (r, st')"
    using assms by (auto simp: create_journal_entry_def repository_create_def split: sum.splits option.splits)
  show ?thesis using create_inv [OF c] create_names [OF c] by (auto simp: keeps_ledger_def)
qed simp

lemma create_entry_names:
  assumes "create_journal_entry gx dto tenant st = (Inr e, st')" and "gc_key dto = Some key" and "key \<noteq> []"
  shows "key_names st' (tenant, key) (gj_id e)"
proof -
  obtain full where r: "repository_create gx full tenant st = (Inr e, st')" and f: "gc_key full = Some key"
    using assms(1,2) by (auto simp: create_journal_entry_def check_entry_def bind_res_Inr split: sum.splits)
  show ?thesis
  proof (cases "gl_entry_by_key tenant key st")
    case (Some w)
    then have "(Inr e, st') = (Inr (to_domain w), st)" using r f assms(3) by (simp add: repository_create_def gl_known_def given_def opt_str_def)
    then show ?thesis using entry_by_key_names [OF Some] by (simp add: to_domain_def)
  next
    case None
    then have "gl_create gx full tenant st = (Inr e, st')" using r f assms(3) by (simp add: repository_create_def gl_known_def given_def opt_str_def)
    then obtain x where x: "create_tx gx full tenant st = Inr (x, st')" "e = to_domain x"
      using None f by (auto simp: gl_create_def opt_str_def split: sum.splits option.splits if_splits)
    then have "identity_of x = (tenant, Some key, gj_id e)"
      using f by (auto simp: create_tx_def bind_res_Inr Let_def draft_entry_def identity_of_def to_domain_def)
    then show ?thesis using create_tx_identities [OF x(1)] by (simp add: key_names_def)
  qed
qed

lemma create_route_dto:
  "create_route hx gx tenant user b st = (r, st') \<Longrightarrow>
     st' = st \<and> (\<exists>err. r = Inl err) \<or> (\<exists>dto. gc_key dto = bo_key b \<and> create_journal_entry gx dto tenant st = (r, st'))"
  by (auto simp: create_route_def create_checks_def bind_res_Inr entry_dto_def split: sum.splits if_splits option.splits)

lemma create_route_keeps: "create_route hx gx tenant user b st = (r, st') \<Longrightarrow> keeps_ledger st st'"
  using create_route_dto [of hx gx tenant user b st r st'] create_entry_keeps by auto

lemma create_route_names:
  "create_route hx gx tenant user b st = (Inr e, st') \<Longrightarrow> bo_key b = Some key \<Longrightarrow> key \<noteq> [] \<Longrightarrow> key_names st' (tenant, key) (gj_id e)"
  using create_route_dto [of hx gx tenant user b st "Inr e" st'] create_entry_names by auto

lemma find_entry_id: "gl_find_entry i tenant st = Some e \<Longrightarrow> gj_id e = i"
  by (auto simp: gl_find_entry_def gl_entry_row_def to_domain_def dest!: find_row_Some)

lemma submission_keeps: "post_journal_entry gx i tenant v st = (r, st') \<Longrightarrow> keeps_ledger st st'"
  using submit_inv submit_names by (fastforce simp: post_journal_entry_def keeps_ledger_def split: option.splits)

lemma submission_id:
  assumes "post_journal_entry gx i tenant v st = (Inr s, st')"
  shows "gj_id s = i"
proof -
  obtain e where e: "gl_find_entry i tenant st = Some e" "submit_read gx e tenant v st = (Inr s, st')"
    using assms by (auto simp: post_journal_entry_def split: option.splits)
  then have "reload_entry (gj_id e) tenant st' = Inr s"
    by (auto simp: submit_read_def Let_def split: if_splits sum.splits)
  then show ?thesis using find_entry_id e(1) by (auto simp: reload_entry_def split: option.splits)
qed

lemma refetch_keeps: "calm br \<Longrightarrow> refetch br tenant i ns st = (r, st') \<Longrightarrow> keeps_ledger st st'"
proof (induction ns arbitrary: st)
  case (Cons n ns)
  then show ?case using between_keeps [OF Cons.prems(1), of st n]
    by (auto intro: keeps_ledger_trans split: option.splits if_splits)
qed simp

lemma refetch_id: "refetch br tenant i ns st = (Some e, st') \<Longrightarrow> gj_id e = i"
  by (induction ns arbitrary: st) (auto dest: find_entry_id split: option.splits if_splits)

lemma submit_created_keeps:
  assumes "calm br" and "submit_created br rq e st = (r, st')"
  shows "keeps_ledger st st'"
proof -
  obtain s st1 where s: "post_journal_entry (br_submit br) (gj_id e) (gq_tenant rq) (js ''system'') (br_between br 0 st) = (s, st1)"
    by fastforce
  have k: "keeps_ledger st st1" using between_keeps [OF assms(1)] submission_keeps [OF s] by (rule keeps_ledger_trans)
  show ?thesis
  proof (cases "st' = st1")
    case False
    then obtain m where "refetch br (gq_tenant rq) (gj_id e) [1..<6] st1 = (m, st')"
      using assms(2) s by (auto simp: submit_created_def Let_def split: sum.splits prod.splits option.splits if_splits)
    then show ?thesis using refetch_keeps [OF assms(1)] k keeps_ledger_trans by blast
  qed (simp add: k)
qed

lemma submit_created_id:
  assumes "submit_created br rq e st = (Inr r, st')"
  shows "gr_journal r = gj_id e"
  using assms by (auto simp: submit_created_def Let_def bridge_result_def dest: submission_id refetch_id
      split: sum.splits prod.splits option.splits if_splits)

lemma http_post_keeps:
  assumes "calm br" and "http_post br rq st = (r, st')"
  shows "keeps_ledger st st'"
proof -
  obtain c st1 where c: "create_route (br_http br) (br_create br) (gq_tenant rq) (br_user br) (bridge_body rq) st = (c, st1)" by fastforce
  note k = create_route_keeps [OF c]
  show ?thesis
  proof (cases "st' = st1")
    case False
    then obtain e where "submit_created br rq e st1 = (r, st')" using assms(2) c by (auto simp: http_post_def split: sum.splits if_splits)
    then show ?thesis using submit_created_keeps [OF assms(1)] k keeps_ledger_trans by blast
  qed (simp add: k)
qed

definition request_key :: "gl_request \<Rightarrow> (jstr \<times> jstr) option" where
  "request_key rq = (if given (gq_key rq) then Some (gq_tenant rq, opt_str (gq_key rq)) else None)"

lemma http_post_names:
  assumes "calm br" and "http_post br rq st = (Inr r, st')" and "gl_inv st" and "request_key rq = Some k"
  shows "key_names st' k (gr_journal r)"
proof -
  obtain key where key: "bo_key (bridge_body rq) = Some key" "key \<noteq> []" "k = (gq_tenant rq, key)"
    using assms(4) by (auto simp: request_key_def given_def opt_str_def bridge_body_def split: if_splits option.splits)
  obtain c st1 where c: "create_route (br_http br) (br_create br) (gq_tenant rq) (br_user br) (bridge_body rq) st = (c, st1)" by fastforce
  then obtain e where e: "c = Inr e" using assms(2) by (cases c) (auto simp: http_post_def)
  have n: "key_names st1 k (gj_id e)" using create_route_names [OF c [unfolded e] key(1,2)] by (simp add: key(3))
  show ?thesis
  proof (cases "gj_status e = GL_DRAFT")
    case False
    then show ?thesis using assms(2) c e n by (auto simp: http_post_def bridge_result_def)
  next
    case True
    then have s: "submit_created br rq e st1 = (Inr r, st')" using assms(2) c e by (simp add: http_post_def)
    have "gl_inv st1" using create_route_keeps [OF c] assms(3) by (simp add: keeps_ledger_def)
    then show ?thesis using n submit_created_id [OF s] keeps_ledgerD [OF submit_created_keeps [OF assms(1) s]] by simp
  qed
qed

interpretation gl_door: posting_door "\<lambda>q. http_post (fst q) (snd q)" "\<lambda>q. request_key (snd q)" gr_journal gl_inv "\<lambda>q. calm (fst q)"
    key_names ledger_runs
proof unfold_locales
  show "\<And>s k j j'. gl_inv s \<Longrightarrow> key_names s k j \<Longrightarrow> key_names s k j' \<Longrightarrow> j = j'" by (rule key_names_unique)
  show "\<And>s s' k j. ledger_runs s s' \<Longrightarrow> gl_inv s \<Longrightarrow> gl_inv s' \<and> (key_names s k j \<longrightarrow> key_names s' k j)"
    using ledger_runs_keeps by (auto simp: key_names_def)
  show "\<And>q s x s' k j. http_post (fst q) (snd q) s = (x, s') \<Longrightarrow> calm (fst q) \<Longrightarrow> gl_inv s \<Longrightarrow> gl_inv s' \<and> (key_names s k j \<longrightarrow> key_names s' k j)"
    using http_post_keeps keeps_ledgerD by blast
  show "\<And>q s r s' k. http_post (fst q) (snd q) s = (Inr r, s') \<Longrightarrow> calm (fst q) \<Longrightarrow> gl_inv s \<Longrightarrow> request_key (snd q) = Some k \<Longrightarrow> key_names s' k (gr_journal r)"
    by (rule http_post_names)
qed

section \<open>One journal per event\<close>


section \<open>Two posts of one event\<close>

definition demo_delivery :: "jstr \<Rightarrow> source_event_envelope" where
  "demo_delivery day = \<lparr>se_event_id = js ''E'', se_tenant_id = js ''t'', se_legal_entity_id = js ''e'', se_event_type = js ''sale'',
     se_event_schema_version = js ''v1'', se_occurred_at = day, se_published_at = day, se_source_system = js ''dms'',
     se_source_entity_type = js ''deal'', se_source_entity_id = js ''D'', se_correlation_id = js ''c'', se_causation_id = None,
     se_business_date = day, se_payload = JObj [], se_metadata = JNull\<rparr>"

definition demo_blueprint :: "blueprint_line list" where
  "demo_blueprint = [\<lparr>bl_account_number = js ''A'', bl_store_id = js ''s'', bl_dept_code = None, bl_dr = Fin 3, bl_cr = Fin 0, bl_memo = None,
       bl_control_number = None, bl_apply_number = None\<rparr>,
     \<lparr>bl_account_number = js ''B'', bl_store_id = js ''s'', bl_dept_code = None, bl_dr = Fin 0, bl_cr = Fin 3, bl_memo = None,
       bl_control_number = None, bl_apply_number = None\<rparr>]"

definition demo_bridge :: bridge_env where
  "demo_bridge = \<lparr>br_http = \<lparr>hx_parse_date = (\<lambda>_. Some 0), hx_uuid = (\<lambda>_. True), hx_answer = (\<lambda>_. [])\<rparr>, br_create = demo_gx,
     br_submit = demo_gx, br_user = None, br_between = (\<lambda>_ st. st)\<rparr>"

definition demo_delivery_post :: "jstr \<Rightarrow> gl_store \<Rightarrow> (jstr + gl_result) \<times> gl_store" where
  "demo_delivery_post day st = http_post demo_bridge
     (submit_request (js ''t'') (demo_delivery day) (rule_pack_of (JObj [(js ''journalSourceCode'', JStr (js ''S''))])) (js ''x'') demo_blueprint) st"

lemma demo_delivery_posts:
  "case demo_delivery_post (js ''1'') demo_books of (Inl _, _) \<Rightarrow> False
     | (Inr r, st) \<Rightarrow> (case demo_delivery_post (js ''2'') st of (Inl _, _) \<Rightarrow> False | (Inr r', _) \<Rightarrow> True)"
  by code_simp

lemma demo_bridge_calm: "calm demo_bridge"
  by (simp add: calm_def demo_bridge_def ledger_runs_refl)


end
