(* ===== verification/GlAnswers.thy ===== *)
theory GlAnswers
  imports GlTrace
begin

text \<open>
  What single calls of the general ledger answer: the rules a creation obeys, the shares of a distribution, the journal a
  reversal leaves, and the automatic posting job.
\<close>

section \<open>Creation\<close>


section \<open>Distribution\<close>

lemma half_away_int [simp]: "half_away (of_int c) = c"
  by (simp add: half_away_def)

text \<open>
  C36: a distribution loses nothing. However the percentages round, the shares of an amount of whole cents are whole cents
  that add up to it.
\<close>

theorem distribution_keeps_total:
  assumes "decimal_value q = of_int c / 100" and "ps \<noteq> []"
  shows "\<exists>cs. distribute (Fin q) ps = map number_of_decimal cs \<and> length cs = length ps \<and> sum_list cs = c"
proof -
  define cs where "cs = map (\<lambda>p. half_away (of_int c / 100 * of_int p / 100)) ps"
  have ne: "cs \<noteq> []" using assms(2) by (simp add: cs_def)
  have "of_int (last cs) + (of_int c / 100 * 100 - of_int (sum_list cs)) = (of_int (last cs + c - sum_list cs) :: rat)" by simp
  then have "share_amounts (of_int c / 100) ps = butlast cs @ [last cs + c - sum_list cs]"
    unfolding share_amounts_def Let_def cs_def [symmetric] by (simp only: half_away_int)
  moreover have "sum_list cs = sum_list (butlast cs) + last cs" using ne by (metis append_butlast_last_id sum_list.Nil sum_list.Cons sum_list_append add.right_neutral)
  moreover have "length cs = length ps" "1 \<le> length ps" using assms(2) by (simp_all add: cs_def Suc_leI)
  ultimately show ?thesis using ne
    by (intro exI [of _ "share_amounts (of_int c / 100) ps"]) (simp add: assms(1))
qed

theorem distribution_keeps_total_witness:
  "\<exists>cs. distribute (Fin 1) [3333, 3333, 3334] = map number_of_decimal cs \<and> length cs = 3 \<and> sum_list cs = 100"
proof -
  have "decimal_value 1 = of_int 100 / 100" by code_simp
  then show ?thesis using distribution_keeps_total [of 1 100 "[3333, 3333, 3334]"] by (simp add: numeral_3_eq_3 del: distribute.simps)
qed

section \<open>Reversal\<close>

text \<open>
  C20: a reversal mirrors a posted journal. It marks the journal REVERSED, adds one draft that points back to it with every
  line's amount negated, flags its history, and touches no balance; the reconciliation mark of the row is not looked at.
\<close>

theorem reversal_mirrors:
  assumes "reverse_journal_entry gx i tenant date reason v st = (Inr r, st')" and "distinct (map gj_id (gl_entries st))"
  shows "\<exists>e x. e \<in> set (gl_entries st) \<and> gj_id e = i \<and> gj_tenant e = tenant \<and> gj_status e = GL_POSTED
    \<and> gl_entries st' = update_rows (\<lambda>y. gj_id y = i) (\<lambda>y. y\<lparr>gj_status := GL_REVERSED, gj_reversed_by := Some (gj_id x)\<rparr>) (gl_entries st) @ [x]
    \<and> r = to_domain x \<and> gj_id x \<notin> gj_id ` set (gl_entries st) \<and> gj_status x = GL_DRAFT \<and> gj_reversal_of x = Some i
    \<and> map line_amount (gj_lines x) = map (\<lambda>(a, n). (a, - n)) (map line_amount (gj_lines e))
    \<and> gl_balances st' = gl_balances st \<and> amount_sum t a (gl_history st') = amount_sum t a (gl_history st)"
proof -
  obtain s where s: "gl_find_entry i tenant st = Some s" "reverse_read gx s tenant date reason v st = (Inr r, st')"
    using assms(1) by (auto simp: reverse_journal_entry_def split: option.splits)
  then obtain e where e: "e \<in> set (gl_entries st)" "gj_id e = i" "gj_tenant e = tenant" "s = to_domain e"
    by (auto simp: gl_find_entry_def gl_entry_row_def dest!: find_row_Some)
  let ?x = "reversal_entry gx s tenant date reason"
  let ?f = "\<lambda>y. y\<lparr>gj_status := GL_REVERSED, gj_reversed_by := Some (gx_id gx)\<rparr>"
  have i: "gj_id s = i" using e by (simp add: to_domain_def)
  obtain st1 st2 where ins: "insert_gl_entry ?x st = Inr st1" and u: "update_gl_entry i ?f st1 = Inr st2"
    and l: "gl_entries st' = gl_entries st2" "gl_balances st' = gl_balances st2"
      "gl_history st' = flag_rows (\<lambda>h. hi_entry h = i \<and> hi_tenant h = tenant) (js ''R'') (gl_history st2)"
    and re: "reload_entry (gx_id gx) tenant st' = Inr r" and p: "gj_status s = GL_POSTED"
    using s(2) i by (auto simp: reverse_read_def gl_reverse_tx_def bind_res_Inr split: if_splits sum.splits)
  have x: "gj_id ?x = gx_id gx" "gj_tenant ?x = tenant" "gj_status ?x = GL_DRAFT" "gj_reversal_of ?x = Some i"
    "gj_lines ?x = map swapped_line (gj_lines s)" by (simp_all add: reversal_entry_def Let_def i)
  have st1: "st1 = st\<lparr>gl_entries := gl_entries st @ [?x]\<rparr>" and new: "gx_id gx \<notin> gj_id ` set (gl_entries st)"
    using ins x(1) by (auto simp: insert_gl_entry_def list_ex_iff split: if_splits)
  have "st2 = st1\<lparr>gl_entries := update_rows (\<lambda>y. gj_id y = i) ?f (gl_entries st1)\<rparr>" by (rule update_gl_entryD [OF u]) blast
  moreover have "gx_id gx \<noteq> i" using new e by auto
  ultimately have st2: "gl_entries st2 = update_rows (\<lambda>y. gj_id y = i) ?f (gl_entries st) @ [?x]" "gl_balances st2 = gl_balances st"
    "gl_history st2 = gl_history st" using x(1) by (simp_all add: st1)
  have "map gj_id (update_rows (\<lambda>y. gj_id y = i) ?f (gl_entries st)) = map gj_id (gl_entries st)" by (intro map_update_rows) simp
  then have "gx_id gx \<notin> gj_id ` set (update_rows (\<lambda>y. gj_id y = i) ?f (gl_entries st))" using new by (metis set_map)
  then have "find_row (\<lambda>y. gj_id y = gx_id gx \<and> gj_tenant y = tenant) (update_rows (\<lambda>y. gj_id y = i) ?f (gl_entries st)) = None"
    unfolding find_row_None by (metis rev_image_eqI)
  then have "r = to_domain ?x"
    using re x(1,2) by (simp add: reload_entry_def gl_find_entry_def gl_entry_row_def l st2)
  moreover have "map line_amount (gj_lines ?x) = map (\<lambda>(a, n). (a, - n)) (map line_amount (gj_lines e))"
    unfolding x(5) by (simp add: e(4) to_domain_def swapped_line_def line_amount_def line_to_domain_def)
  moreover have "gj_status e = GL_POSTED" using p e by (simp add: to_domain_def)
  ultimately show ?thesis using e new x l st2 amount_sum_flag
    by (intro exI [of _ e] exI [of _ ?x]) simp
qed

section \<open>The automatic posting job\<close>

text \<open>
  C38: the automatic posting job posts nothing. It picks journals in DRAFT and hands them to the approval, which takes
  only journals under review: all of them fail, and the ledger is as before.
\<close>

theorem auto_post_posts_nothing:
  assumes "distinct (map gj_id (gl_entries st))"
  shows "fst (auto_post gxs tenant st) = \<lparr>ap_posted = 0, ap_failed = ap_total (fst (auto_post gxs tenant st)),
      ap_total = ap_total (fst (auto_post gxs tenant st))\<rparr> \<and> snd (auto_post gxs tenant st) = st"
proof -
  have fails: "auto_post_all gxs tenant es (0, n) st = ((0, n + length es), st)"
    if "\<forall>e \<in> set es. e \<in> set (gl_entries st) \<and> gj_tenant e = tenant \<and> gj_status e = GL_DRAFT" for es n
    using that
  proof (induction es arbitrary: n)
    case (Cons e es)
    obtain x where x: "gl_entry_row (gj_id e) tenant st = Some x"
      using Cons.prems by (cases "gl_entry_row (gj_id e) tenant st") (auto simp: gl_entry_row_def find_row_None)
    then have "x = e" using Cons.prems same_id [OF assms, of x e] by (auto simp: gl_entry_row_def dest!: find_row_Some)
    then have "approve_journal_entry (gxs (gj_id e)) (gj_id e) tenant (Some (js ''AUTO_POST_JOB'')) st
        = (Inl (InvalidStatusTransition GL_DRAFT GL_PENDING_REVIEW), st)"
      using x Cons.prems by (simp add: approve_journal_entry_def gl_find_entry_def approve_read_def to_domain_def)
    then show ?case using Cons by simp
  qed simp
  define P where "P = (\<lambda>e :: gl_entry. gj_tenant e = tenant \<and> gj_status e = GL_DRAFT
      \<and> gj_source e \<in> set (map gs_code (filter (\<lambda>s. gs_tenant s = tenant \<and> gs_auto_post s \<and> gs_active s) (gl_sources st))))"
  define drafts where "drafts = take 100 (sort_key gj_created_at (filter P (gl_entries st)))"
  have "set drafts \<subseteq> set (filter P (gl_entries st))" unfolding drafts_def by (metis set_sort set_take_subset)
  then have "auto_post_all gxs tenant drafts (0, 0) st = ((0, 0 + length drafts), st)" by (intro fails) (auto simp: P_def)
  then show ?thesis by (simp add: auto_post_def Let_def drafts_def P_def)
qed


section \<open>Calls\<close>

definition demo_closed_month :: gl_env where
  "demo_closed_month = demo_gx\<lparr>gx_closes := Some [(2026, 1, js ''COMPLETED'')]\<rparr>"

definition demo_adjustment :: gl_entry_dto where
  "demo_adjustment = demo_dto\<lparr>gc_prior := Some True, gc_reason := Some (js ''r'')\<rparr>"

lemma demo_adjusted: "case fst (create_journal_entry demo_closed_month demo_adjustment (js ''t'') demo_books) of Inl _ \<Rightarrow> False | Inr _ \<Rightarrow> True"
  by code_simp


text \<open>A posted journal that has been reconciled, and a ledger with an automatically posted source.\<close>

definition demo_reconciled :: gl_store where
  "demo_reconciled = demo_books\<lparr>gl_entries := [demo_draft\<lparr>gj_id := js ''p'', gj_status := GL_POSTED, gj_reconciled := True\<rparr>]\<rparr>"

definition demo_auto :: gl_store where
  "demo_auto = demo_books\<lparr>gl_entries := [demo_draft], gl_sources := [\<lparr>gs_tenant = js ''t'', gs_code = js ''S'', gs_year_end = False,
     gs_13th_month = False, gs_auto_post = True, gs_active = True\<rparr>]\<rparr>"

lemma demo_reversed: "case fst (reverse_journal_entry demo_gx (js ''p'') (js ''t'') 0 (js ''r'') (js ''u'') demo_reconciled) of Inl _ \<Rightarrow> False | Inr _ \<Rightarrow> True"
  by code_simp

theorem reversal_mirrors_witness:
  "\<exists>r st' e x. reverse_journal_entry demo_gx (js ''p'') (js ''t'') 0 (js ''r'') (js ''u'') demo_reconciled = (Inr r, st')
     \<and> gl_entries demo_reconciled = [e] \<and> gj_reconciled e
     \<and> gl_entries st' = update_rows (\<lambda>y. gj_id y = js ''p'') (\<lambda>y. y\<lparr>gj_status := GL_REVERSED, gj_reversed_by := Some (gj_id x)\<rparr>) [e] @ [x]
     \<and> gj_reversal_of x = Some (js ''p'')"
proof -
  obtain r st' where c: "reverse_journal_entry demo_gx (js ''p'') (js ''t'') 0 (js ''r'') (js ''u'') demo_reconciled = (Inr r, st')"
    using demo_reversed by (cases "reverse_journal_entry demo_gx (js ''p'') (js ''t'') 0 (js ''r'') (js ''u'') demo_reconciled") (auto split: sum.splits)
  obtain e where e: "gl_entries demo_reconciled = [e]" "gj_reconciled e" by (simp add: demo_reconciled_def)
  have d: "distinct (map gj_id (gl_entries demo_reconciled))" by (simp add: e)
  obtain x where "gl_entries st' = update_rows (\<lambda>y. gj_id y = js ''p'') (\<lambda>y. y\<lparr>gj_status := GL_REVERSED, gj_reversed_by := Some (gj_id x)\<rparr>) [e] @ [x]"
      "gj_reversal_of x = Some (js ''p'')"
    using reversal_mirrors [OF c d] unfolding e by blast
  then show ?thesis using c e by blast
qed

theorem auto_post_posts_nothing_witness:
  "fst (auto_post (\<lambda>_. demo_gx) (js ''t'') demo_auto) = \<lparr>ap_posted = 0, ap_failed = 1, ap_total = 1\<rparr>
     \<and> snd (auto_post (\<lambda>_. demo_gx) (js ''t'') demo_auto) = demo_auto"
proof -
  have "ap_total (fst (auto_post (\<lambda>_. demo_gx) (js ''t'') demo_auto)) = 1" by code_simp
  moreover have "distinct (map gj_id (gl_entries demo_auto))" by (simp add: demo_auto_def)
  ultimately show ?thesis using auto_post_posts_nothing [of demo_auto "\<lambda>_. demo_gx" "js ''t''"] by simp
qed

end
