(* ===== verification/OpenItems.thy ===== *)
theory OpenItems
  imports PostingService
begin

text \<open>
  The open-item ledger of the schedule service: \<open>services/schedule-service/src/domain/open-item.ts\<close>, the tables of its
  \<open>prisma/schema.prisma\<close> with the constraints of the migrations, and the error classes of \<open>domain/errors.ts\<close>. Amounts are
  whole cents: the routes admit at most two decimals, and a line of the general ledger comes from columns of cents.
\<close>

section \<open>The domain\<close>

datatype item_status = IT_OPEN | IT_PARTIAL | IT_CLOSED | IT_WRITTEN_OFF

fun item_status_str :: "item_status \<Rightarrow> jstr" where
  "item_status_str IT_OPEN = js ''OPEN''"
| "item_status_str IT_PARTIAL = js ''PARTIALLY_APPLIED''"
| "item_status_str IT_CLOSED = js ''CLOSED''"
| "item_status_str IT_WRITTEN_OFF = js ''WRITTEN_OFF''"

record open_item =
  oi_id :: jstr
  oi_tenant :: jstr
  oi_schedule :: jstr
  oi_control :: jstr
  oi_number :: jstr
  oi_account :: "jstr option"
  oi_source :: "jstr option"
  oi_original :: int
  oi_applied :: int
  oi_remaining :: int
  oi_status :: item_status
  oi_date :: "int option"
  oi_description :: "jstr option"
  oi_journal :: jstr
  oi_detail :: "jstr option"
  oi_correlation :: jstr
  oi_closed :: "int option"
  oi_created :: int
  oi_parent :: "jstr option"
  oi_reason :: "jstr option"
  oi_write_off :: "jstr option"

datatype sched_error =
    OpenItemNotFound jstr
  | OpenItemClosed jstr
  | OverApplication jstr
  | ApplicationNotFound jstr
  | ApplicationReversed jstr
  | InvalidAmount
  | DuplicateApplication jstr
  | NoOpenItems jstr jstr
  | InvalidSplit jstr
  | CrossAccountTransfer jstr jstr
  | ItemWrittenOff jstr
  | ThresholdExceeded int int
  | DownstreamApplications jstr
  | DuplicateCeremony jstr
  | GlRefused jstr
  | BalanceCheck
  | UniqueViolation
  | RowMissing
  | SDb tx_error

definition derive_status :: "int \<Rightarrow> int \<Rightarrow> item_status" where
  "derive_status original remaining = (if remaining = 0 then IT_CLOSED else if remaining = original then IT_OPEN else IT_PARTIAL)"

text \<open>\<open>applyAmount\<close>: \<open>None\<close> is \<open>OVER_APPLICATION\<close>.\<close>

definition apply_amount :: "int \<Rightarrow> int \<Rightarrow> int \<Rightarrow> int option" where
  "apply_amount original remaining amount =
     (let next = remaining - amount
      in if (if 0 \<le> original then next < 0 \<or> original < next else 0 < next \<or> next < original) then None else Some next)"

record allocation =
  al_item :: jstr
  al_amount :: int
  al_remaining :: int
  al_status :: item_status

fun sweep_loop :: "open_item list \<Rightarrow> int \<Rightarrow> sched_error + allocation list \<times> int" where
  "sweep_loop [] r = Inr ([], r)"
| "sweep_loop (i # is) r =
     (if r \<le> 0 then Inr ([], r)
      else if oi_remaining i \<le> 0 then sweep_loop is r
      else (let portion = min r (oi_remaining i)
            in case apply_amount (oi_original i) (oi_remaining i) portion of
                 None \<Rightarrow> Inl (OverApplication (oi_id i))
               | Some m \<Rightarrow> bind_res (sweep_loop is (r - portion)) (\<lambda>(as, u).
                   Inr (\<lparr>al_item = oi_id i, al_amount = portion, al_remaining = m, al_status = derive_status (oi_original i) m\<rparr> # as, u))))"

text \<open>Oldest first: a stable sort by transaction date, then by creation.\<close>

definition oldest_first :: "open_item list \<Rightarrow> open_item list" where
  "oldest_first is = sort_key (\<lambda>i. case oi_date i of None \<Rightarrow> 0 | Some d \<Rightarrow> d) (sort_key oi_created is)"

definition sweep_fifo :: "open_item list \<Rightarrow> int \<Rightarrow> sched_error + allocation list \<times> int" where
  "sweep_fifo is amount = sweep_loop (oldest_first is) amount"

definition validate_split_parts :: "int \<Rightarrow> int list \<Rightarrow> sched_error + unit" where
  "validate_split_parts remaining parts =
     (if length parts < 2 then Inl (InvalidSplit (js ''SPLIT_REQUIRES_AT_LEAST_TWO_PARTS''))
      else if list_ex (\<lambda>p. p \<le> 0) parts then Inl (InvalidSplit (js ''SPLIT_PARTS_MUST_BE_POSITIVE''))
      else if sum_list parts \<noteq> remaining then Inl (InvalidSplit (js ''SPLIT_PARTS_MUST_SUM_TO_WHOLE''))
      else Inr ())"

section \<open>The other tables\<close>

record sched_detail =
  sd_id :: jstr
  sd_tenant :: jstr
  sd_schedule :: jstr
  sd_control :: jstr
  sd_amount :: int
  sd_reference :: "jstr option"
  sd_source :: "jstr option"
  sd_date :: "int option"
  sd_account :: "jstr option"
  sd_description :: "jstr option"
  sd_journal :: "jstr option"
  sd_apply :: "jstr option"
  sd_apply_cd :: "jstr option"
  sd_correlation :: "jstr option"

record application =
  sa_id :: jstr
  sa_tenant :: jstr
  sa_item :: jstr
  sa_schedule :: jstr
  sa_control :: jstr
  sa_amount :: int
  sa_journal :: jstr
  sa_correlation :: jstr
  sa_manual :: bool
  sa_by :: "jstr option"
  sa_note :: "jstr option"
  sa_at :: int
  sa_reversed :: "int option"
  sa_reversal_of :: "jstr option"

record unapplied_receipt =
  ur_tenant :: jstr
  ur_schedule :: jstr
  ur_control :: jstr
  ur_amount :: int
  ur_journal :: jstr
  ur_correlation :: jstr

text \<open>The result column of a ceremony; a written-off amount is stored as its text with two decimals.\<close>

datatype ceremony_result =
    Split_into jstr "jstr list"
  | Transferred jstr jstr jstr jstr
  | Written_off jstr jstr int

record ceremony =
  cy_tenant :: jstr
  cy_item :: jstr
  cy_key :: jstr
  cy_reason :: jstr
  cy_actor :: jstr
  cy_result :: ceremony_result

record sched_audit =
  sx_tenant :: jstr
  sx_doc_type :: jstr
  sx_doc_id :: jstr
  sx_action :: jstr
  sx_before :: "(jstr \<times> jstr) list"
  sx_after :: "(jstr \<times> jstr) list"
  sx_actor :: jstr
  sx_correlation :: "jstr option"

record sched_store =
  sc_schedules :: "(jstr \<times> jstr) list"
  sc_details :: "sched_detail list"
  sc_items :: "open_item list"
  sc_applications :: "application list"
  sc_receipts :: "unapplied_receipt list"
  sc_ceremonies :: "ceremony list"
  sc_thresholds :: "(jstr \<times> int option) list"
  sc_audit :: "sched_audit list"
  sc_outbox :: "(jstr \<times> jstr \<times> unapplied_receipt) list"

section \<open>Writes\<close>

definition fits_text :: "int \<times> jstr option \<Rightarrow> bool" where
  "fits_text nv = (case snd nv of None \<Rightarrow> True | Some s \<Rightarrow> int (char_count s) \<le> fst nv)"

text \<open>\<open>schedule_open_items_balance_check\<close>.\<close>

definition balance_check :: "open_item \<Rightarrow> bool" where
  "balance_check i \<longleftrightarrow> (0 \<le> oi_original i \<and> 0 \<le> oi_remaining i \<and> oi_remaining i \<le> oi_original i)
     \<or> (oi_original i < 0 \<and> oi_remaining i \<le> 0 \<and> oi_original i \<le> oi_remaining i)"

definition item_columns :: "open_item \<Rightarrow> sched_error + unit" where
  "item_columns i =
     (if \<not> (fits_money (oi_original i) \<and> fits_money (oi_applied i) \<and> fits_money (oi_remaining i)) then Inl (SDb NumericOverflow)
      else if \<not> list_all fits_text [(10, Some (oi_control i)), (20, Some (oi_number i)), (20, oi_account i), (10, oi_source i),
             (200, oi_description i), (500, oi_reason i)] then Inl (SDb TextTooLong)
      else if \<not> balance_check i then Inl BalanceCheck else Inr ())"

definition insert_item :: "open_item \<Rightarrow> sched_store \<Rightarrow> sched_error + sched_store" where
  "insert_item i st =
     bind_res (item_columns i) (\<lambda>_.
       if list_ex (\<lambda>r. oi_id r = oi_id i \<or> oi_tenant r = oi_tenant i \<and> oi_correlation r = oi_correlation i) (sc_items st) then Inl UniqueViolation
       else Inr (st\<lparr>sc_items := sc_items st @ [i]\<rparr>))"

definition update_item :: "jstr \<Rightarrow> (open_item \<Rightarrow> open_item) \<Rightarrow> sched_store \<Rightarrow> sched_error + sched_store" where
  "update_item k f st =
     (case find_row (\<lambda>i. oi_id i = k) (sc_items st) of
        None \<Rightarrow> Inl RowMissing
      | Some i \<Rightarrow> bind_res (item_columns (f i)) (\<lambda>_. Inr (st\<lparr>sc_items := update_rows (\<lambda>i. oi_id i = k) f (sc_items st)\<rparr>)))"

definition insert_detail :: "sched_detail \<Rightarrow> sched_store \<Rightarrow> sched_error + sched_store" where
  "insert_detail d st =
     (if \<not> fits_money (sd_amount d) then Inl (SDb NumericOverflow)
      else if \<not> list_all fits_text [(10, Some (sd_control d)), (12, sd_reference d), (10, sd_source d), (20, sd_account d),
             (35, sd_description d), (12, sd_apply d), (1, sd_apply_cd d)] then Inl (SDb TextTooLong)
      else if list_ex (\<lambda>r. sd_id r = sd_id d \<or> sd_correlation d \<noteq> None \<and> sd_tenant r = sd_tenant d \<and> sd_correlation r = sd_correlation d) (sc_details st)
      then Inl UniqueViolation
      else Inr (st\<lparr>sc_details := sc_details st @ [d]\<rparr>))"

definition insert_application :: "application \<Rightarrow> sched_store \<Rightarrow> sched_error + sched_store" where
  "insert_application a st =
     (if \<not> fits_money (sa_amount a) then Inl (SDb NumericOverflow)
      else if \<not> fits_text (500, sa_note a) then Inl (SDb TextTooLong)
      else if list_ex (\<lambda>r. sa_id r = sa_id a \<or> sa_tenant r = sa_tenant a \<and> sa_correlation r = sa_correlation a) (sc_applications st) then Inl UniqueViolation
      else if \<not> list_ex (\<lambda>i. oi_id i = sa_item a) (sc_items st) then Inl RowMissing
      else Inr (st\<lparr>sc_applications := sc_applications st @ [a]\<rparr>))"

definition insert_receipt :: "unapplied_receipt \<Rightarrow> sched_store \<Rightarrow> sched_error + sched_store" where
  "insert_receipt u st =
     (if \<not> fits_money (ur_amount u) then Inl (SDb NumericOverflow)
      else if list_ex (\<lambda>r. ur_tenant r = ur_tenant u \<and> ur_correlation r = ur_correlation u) (sc_receipts st) then Inl UniqueViolation
      else Inr (st\<lparr>sc_receipts := sc_receipts st @ [u]\<rparr>))"

definition insert_ceremony :: "ceremony \<Rightarrow> sched_store \<Rightarrow> sched_error + sched_store" where
  "insert_ceremony c st =
     (if \<not> fits_text (500, Some (cy_reason c)) then Inl (SDb TextTooLong)
      else if list_ex (\<lambda>r. cy_tenant r = cy_tenant c \<and> cy_key r = cy_key c) (sc_ceremonies st) then Inl UniqueViolation
      else Inr (st\<lparr>sc_ceremonies := sc_ceremonies st @ [c]\<rparr>))"

text \<open>\<open>toFixed(2)\<close> of whole cents, and \<open>_audit\<close>.\<close>

definition fixed2 :: "int \<Rightarrow> jstr" where
  "fixed2 c = (let n = nat \<bar>c\<bar>; p = nat_str (n mod 100)
     in (if c < 0 then js ''-'' else []) @ nat_str (n div 100) @ js ''.'' @ (if length p = 1 then js ''0'' @ p else p))"

definition add_sched_audit :: "jstr \<Rightarrow> string \<Rightarrow> jstr \<Rightarrow> string \<Rightarrow> (jstr \<times> jstr) list \<Rightarrow> (jstr \<times> jstr) list \<Rightarrow> jstr \<Rightarrow> jstr option \<Rightarrow> sched_store \<Rightarrow> sched_store" where
  "add_sched_audit tenant type i action before after actor correlation st =
     st\<lparr>sc_audit := sc_audit st @ [\<lparr>sx_tenant = tenant, sx_doc_type = js type, sx_doc_id = i, sx_action = js action, sx_before = before,
       sx_after = after, sx_actor = actor, sx_correlation = correlation\<rparr>]\<rparr>"

end
