(* ===== verification/OpenItemService.thy ===== *)
theory OpenItemService
  imports OpenItems
begin

text \<open>
  \<open>services/schedule-service/src/application/open-item-service.ts\<close>: what a posted line does to the open items, manual and
  automatic application, reversal of an application, and the ceremonies split, transfer and write-off. Every operation
  is one serializable transaction (\<open>lib/serializable-retry.ts\<close>) that may be run again; the write-off calls the general
  ledger inside of it.
\<close>

section \<open>Calls\<close>

text \<open>
  The event of a posted line, as the general ledger writes it. \<open>pe_amount\<close> is the decimal its text denotes, in cents;
  \<open>pe_date\<close> the instant of its date.
\<close>

record posting_event =
  pe_journal :: jstr
  pe_account :: "jstr option"
  pe_schedule :: "jstr option"
  pe_control :: jstr
  pe_amount :: int
  pe_reference :: "jstr option"
  pe_source :: "jstr option"
  pe_date :: int
  pe_description :: "jstr option"
  pe_apply :: "jstr option"
  pe_apply_cd :: "jstr option"

datatype posting_outcome =
    Skipped_not_scheduled
  | Skipped_schedule_not_found
  | Already_processed
  | New_item
  | Application
  | Auto_applied
  | Routed_to_unapplied_credit
  | Unresolved_application

fun outcome_str :: "posting_outcome \<Rightarrow> jstr" where
  "outcome_str Skipped_not_scheduled = js ''SKIPPED_NOT_SCHEDULED''"
| "outcome_str Skipped_schedule_not_found = js ''SKIPPED_SCHEDULE_NOT_FOUND''"
| "outcome_str Already_processed = js ''ALREADY_PROCESSED''"
| "outcome_str New_item = js ''NEW_ITEM''"
| "outcome_str Application = js ''APPLICATION''"
| "outcome_str Auto_applied = js ''AUTO_APPLIED''"
| "outcome_str Routed_to_unapplied_credit = js ''ROUTED_TO_UNAPPLIED_CREDIT''"
| "outcome_str Unresolved_application = js ''UNRESOLVED_APPLICATION''"

text \<open>The clock, the identifiers the database draws in order, the random UUID, and which commits fail to serialize.\<close>

record sched_env =
  se_now :: int
  se_id :: "nat \<Rightarrow> jstr"
  se_uuid :: jstr
  se_conflict :: "nat \<Rightarrow> bool"

text \<open>
  \<open>withSerializableRetry\<close> around a body that may act on the world outside: a commit that fails undoes what the body did
  to the store, not what it did outside.
\<close>

fun sched_attempts :: "(nat \<Rightarrow> bool) \<Rightarrow> ('g \<Rightarrow> (sched_error + 'a) \<times> 'g) \<Rightarrow> nat list \<Rightarrow> 'g \<Rightarrow> (sched_error + 'a) \<times> 'g" where
  "sched_attempts conflict run [] g = (Inl (SDb RetryExhausted), g)"
| "sched_attempts conflict run (n # ns) g =
     (case run g of
        (Inl e, g1) \<Rightarrow> (Inl e, g1)
      | (Inr v, g1) \<Rightarrow> if \<not> conflict n then (Inr v, g1)
                       else if n < 5 then sched_attempts conflict run ns g1 else (Inl (SDb SerializationFailure), g1))"

definition sched_transaction :: "sched_env \<Rightarrow> ('g \<Rightarrow> (sched_error + 'a) \<times> 'g) \<Rightarrow> 'g \<Rightarrow> (sched_error + 'a) \<times> 'g" where
  "sched_transaction se run g = sched_attempts (se_conflict se) run [1, 2, 3, 4, 5] g"

definition sched_run :: "sched_env \<Rightarrow> (sched_store \<Rightarrow> sched_error + 'a \<times> sched_store) \<Rightarrow> sched_store \<Rightarrow> (sched_error + 'a) \<times> sched_store" where
  "sched_run se body st =
     (case fst (sched_transaction se (\<lambda>g. (body st, g)) ()) of Inl e \<Rightarrow> (Inl e, st) | Inr (v, st1) \<Rightarrow> (Inr v, st1))"

definition find_item :: "jstr \<Rightarrow> jstr \<Rightarrow> sched_store \<Rightarrow> open_item option" where
  "find_item tenant i st = find_row (\<lambda>r. oi_id r = i \<and> oi_tenant r = tenant) (sc_items st)"

text \<open>The balance an application leaves, its status and its closing time.\<close>

definition settle :: "sched_env \<Rightarrow> int \<Rightarrow> open_item \<Rightarrow> open_item" where
  "settle se m i = (let s = derive_status (oi_original i) m
     in i\<lparr>oi_applied := oi_original i - m, oi_remaining := m, oi_status := s, oi_closed := if s = IT_CLOSED then Some (se_now se) else None\<rparr>)"

section \<open>Posted lines\<close>

definition detail_of_event :: "sched_env \<Rightarrow> jstr \<Rightarrow> jstr \<Rightarrow> posting_event \<Rightarrow> jstr \<Rightarrow> sched_detail" where
  "detail_of_event se tenant schedule ev correlation =
     \<lparr>sd_id = se_id se 0, sd_tenant = tenant, sd_schedule = schedule, sd_control = pe_control ev, sd_amount = pe_amount ev,
      sd_reference = pe_reference ev, sd_source = pe_source ev, sd_date = Some (pe_date ev), sd_account = pe_account ev,
      sd_description = pe_description ev, sd_journal = Some (pe_journal ev),
      sd_apply = (if pe_apply_cd ev = Some (js ''#'') then pe_apply ev else None), sd_apply_cd = pe_apply_cd ev, sd_correlation = Some correlation\<rparr>"

definition new_item :: "sched_env \<Rightarrow> jstr \<Rightarrow> jstr \<Rightarrow> posting_event \<Rightarrow> jstr \<Rightarrow> open_item" where
  "new_item se tenant schedule ev correlation =
     \<lparr>oi_id = se_id se 1, oi_tenant = tenant, oi_schedule = schedule, oi_control = pe_control ev,
      oi_number = (let r = js_trim (opt_str (pe_reference ev)) in if r = [] then pe_journal ev else r),
      oi_account = pe_account ev, oi_source = pe_source ev, oi_original = \<bar>pe_amount ev\<bar>, oi_applied = 0, oi_remaining = \<bar>pe_amount ev\<bar>,
      oi_status = IT_OPEN, oi_date = Some (pe_date ev), oi_description = pe_description ev, oi_journal = pe_journal ev,
      oi_detail = Some (se_id se 0), oi_correlation = correlation, oi_closed = None, oi_created = se_now se, oi_parent = None,
      oi_reason = None, oi_write_off = None\<rparr>"

definition balance_pair :: "int \<Rightarrow> (jstr \<times> jstr) list" where
  "balance_pair c = [(js ''remainingBalance'', fixed2 c)]"

definition status_pair :: "item_status \<Rightarrow> (jstr \<times> jstr) list" where
  "status_pair s = [(js ''status'', item_status_str s)]"

definition open_new_item :: "sched_env \<Rightarrow> jstr \<Rightarrow> jstr \<Rightarrow> posting_event \<Rightarrow> jstr \<Rightarrow> sched_store \<Rightarrow> sched_error + posting_outcome \<times> sched_store" where
  "open_new_item se tenant schedule ev correlation st =
     bind_res (insert_item (new_item se tenant schedule ev correlation) st) (\<lambda>st1.
       Inr (New_item, add_sched_audit tenant ''SCHEDULE_OPEN_ITEM'' (se_id se 1) ''CREATED'' [] [(js ''originalAmount'', fixed2 \<bar>pe_amount ev\<bar>)]
         (js ''JOURNAL_ENTRY_POSTED'') (Some correlation) st1))"

definition application_row :: "sched_env \<Rightarrow> jstr \<Rightarrow> open_item \<Rightarrow> int \<Rightarrow> jstr \<Rightarrow> jstr \<Rightarrow> bool \<Rightarrow> jstr option \<Rightarrow> jstr option \<Rightarrow> jstr option \<Rightarrow> application" where
  "application_row se i item amount journal correlation manual by note reversal_of =
     \<lparr>sa_id = i, sa_tenant = oi_tenant item, sa_item = oi_id item, sa_schedule = oi_schedule item, sa_control = oi_control item,
      sa_amount = amount, sa_journal = journal, sa_correlation = correlation, sa_manual = manual, sa_by = by, sa_note = note,
      sa_at = se_now se, sa_reversed = None, sa_reversal_of = reversal_of\<rparr>"

text \<open>The two writes of an application: its row, and the balance of its item.\<close>

definition record_application :: "sched_env \<Rightarrow> open_item \<Rightarrow> int \<Rightarrow> application \<Rightarrow> sched_store \<Rightarrow> sched_error + sched_store" where
  "record_application se item m a st =
     bind_res (insert_application a st) (\<lambda>st1. update_item (oi_id item) (settle se m) st1)"

definition open_items_of :: "jstr \<Rightarrow> jstr \<Rightarrow> jstr \<Rightarrow> sched_store \<Rightarrow> open_item list" where
  "open_items_of tenant schedule control st =
     filter (\<lambda>i. oi_tenant i = tenant \<and> oi_schedule i = schedule \<and> oi_control i = control \<and> oi_status i \<noteq> IT_CLOSED) (sc_items st)"

text \<open>An application that names its item (\<open>applyNumber\<close>).\<close>

definition apply_specific :: "sched_env \<Rightarrow> jstr \<Rightarrow> jstr \<Rightarrow> posting_event \<Rightarrow> jstr \<Rightarrow> sched_store \<Rightarrow> sched_error + posting_outcome \<times> sched_store" where
  "apply_specific se tenant schedule ev correlation st =
     (case filter (\<lambda>i. oi_number i = opt_str (pe_apply ev)) (open_items_of tenant schedule (pe_control ev) st) of
        [target] \<Rightarrow>
          (case apply_amount (oi_original target) (oi_remaining target) (- pe_amount ev) of
             None \<Rightarrow> Inr (Unresolved_application, st)
           | Some m \<Rightarrow>
               bind_res (record_application se target m
                   (application_row se (se_id se 1) target (- pe_amount ev) (pe_journal ev) correlation False None None None) st) (\<lambda>st1.
                 Inr (Application, add_sched_audit tenant ''SCHEDULE_OPEN_ITEM'' (oi_id target) ''APPLIED'' (balance_pair (oi_remaining target))
                   (balance_pair m @ status_pair (derive_status (oi_original target) m)) (js ''JOURNAL_ENTRY_POSTED'') (Some correlation) st1)))
      | _ \<Rightarrow> Inr (Unresolved_application, st))"

definition apply_allocation :: "sched_env \<Rightarrow> jstr \<Rightarrow> open_item list \<Rightarrow> jstr \<Rightarrow> jstr \<Rightarrow> sched_store \<times> nat \<Rightarrow> allocation \<Rightarrow> sched_error + sched_store \<times> nat" where
  "apply_allocation se tenant items journal correlation sn al =
     (case find_row (\<lambda>i. oi_id i = al_item al) items of
        None \<Rightarrow> Inl RowMissing
      | Some item \<Rightarrow>
          bind_res (record_application se item (al_remaining al) (application_row se (se_id se (snd sn)) item (al_amount al) journal
              (correlation @ js ''-fifo-'' @ al_item al) False None None None) (fst sn)) (\<lambda>st1.
            Inr (add_sched_audit tenant ''SCHEDULE_OPEN_ITEM'' (al_item al) ''AUTO_APPLIED'' (balance_pair (oi_remaining item))
              (balance_pair (al_remaining al) @ status_pair (al_status al)) (js ''JOURNAL_ENTRY_POSTED'') (Some correlation) st1, snd sn + 1)))"

definition sweep_auto_application :: "sched_env \<Rightarrow> jstr \<Rightarrow> jstr \<Rightarrow> jstr \<Rightarrow> jstr \<Rightarrow> int \<Rightarrow> jstr \<Rightarrow> sched_store \<Rightarrow> sched_error + posting_outcome \<times> sched_store" where
  "sweep_auto_application se tenant schedule control journal amount correlation st =
     (let items = open_items_of tenant schedule control st
      in bind_res (sweep_fifo items amount) (\<lambda>(als, unapplied).
           bind_res (fold_res (apply_allocation se tenant items journal correlation) (st, 1) als) (\<lambda>(st1, n).
             if unapplied \<le> 0 then Inr (Auto_applied, st1)
             else let u = \<lparr>ur_tenant = tenant, ur_schedule = schedule, ur_control = control, ur_amount = unapplied, ur_journal = journal,
                    ur_correlation = correlation\<rparr>
             in bind_res (insert_receipt u st1) (\<lambda>st2.
                  Inr (if als = [] then Routed_to_unapplied_credit else Auto_applied, st2\<lparr>sc_outbox := sc_outbox st2 @ [(tenant, correlation, u)]\<rparr>)))))"

definition posting_body :: "sched_env \<Rightarrow> jstr \<Rightarrow> jstr \<Rightarrow> posting_event \<Rightarrow> jstr \<Rightarrow> sched_store \<Rightarrow> sched_error + posting_outcome \<times> sched_store" where
  "posting_body se tenant schedule ev correlation st =
     (if list_ex (\<lambda>d. sd_tenant d = tenant \<and> sd_correlation d = Some correlation) (sc_details st) then Inr (Already_processed, st)
      else if (tenant, schedule) \<notin> set (sc_schedules st) then Inr (Skipped_schedule_not_found, st)
      else bind_res (insert_detail (detail_of_event se tenant schedule ev correlation) st) (\<lambda>st1.
        if pe_apply_cd ev \<noteq> Some (js ''#'') then open_new_item se tenant schedule ev correlation st1
        else if given (pe_apply ev) then apply_specific se tenant schedule ev correlation st1
        else sweep_auto_application se tenant schedule (pe_control ev) (pe_journal ev) (- pe_amount ev) correlation st1))"

definition process_posting_event :: "sched_env \<Rightarrow> jstr \<Rightarrow> posting_event \<Rightarrow> jstr \<Rightarrow> sched_store \<Rightarrow> (sched_error + posting_outcome) \<times> sched_store" where
  "process_posting_event se tenant ev correlation st =
     (if \<not> given (pe_schedule ev) then (Inr Skipped_not_scheduled, st)
      else sched_run se (posting_body se tenant (opt_str (pe_schedule ev)) ev correlation) st)"


section \<open>Applications by an operator\<close>

definition apply_manual_body :: "sched_env \<Rightarrow> jstr \<Rightarrow> jstr \<Rightarrow> int \<Rightarrow> jstr \<Rightarrow> jstr option \<Rightarrow> jstr option \<Rightarrow> sched_store \<Rightarrow> sched_error + application \<times> sched_store" where
  "apply_manual_body se tenant k amount key note by st =
     (case find_item tenant k st of
        None \<Rightarrow> Inl (OpenItemNotFound k)
      | Some item \<Rightarrow>
          (case find_row (\<lambda>a. sa_tenant a = tenant \<and> sa_correlation a = key) (sc_applications st) of
             Some a \<Rightarrow> if sa_item a \<noteq> k \<or> sa_amount a \<noteq> amount then Inl (DuplicateApplication key) else Inr (a, st)
           | None \<Rightarrow>
               if oi_status item = IT_CLOSED then Inl (OpenItemClosed k)
               else if amount = 0 then Inl InvalidAmount
               else (case apply_amount (oi_original item) (oi_remaining item) amount of
                       None \<Rightarrow> Inl (OverApplication k)
                     | Some m \<Rightarrow>
                         (let a = application_row se (se_id se 0) item amount (js ''MANUAL-'' @ se_uuid se) key True by note None
                          in bind_res (record_application se item m a st) (\<lambda>st1.
                               Inr (a, add_sched_audit tenant ''SCHEDULE_OPEN_ITEM'' k ''MANUAL_APPLY'' (balance_pair (oi_remaining item))
                                 (balance_pair m @ status_pair (derive_status (oi_original item) m) @ [(js ''amount'', fixed2 amount)])
                                 (case by of None \<Rightarrow> js ''system'' | Some u \<Rightarrow> u) (Some key) st1))))))"

definition apply_manual :: "sched_env \<Rightarrow> jstr \<Rightarrow> jstr \<Rightarrow> int \<Rightarrow> jstr \<Rightarrow> jstr option \<Rightarrow> jstr option \<Rightarrow> sched_store \<Rightarrow> (sched_error + application) \<times> sched_store" where
  "apply_manual se tenant k amount key note by st = sched_run se (apply_manual_body se tenant k amount key note by) st"

definition later_unreversed :: "application \<Rightarrow> application \<Rightarrow> bool" where
  "later_unreversed a b \<longleftrightarrow> sa_tenant b = sa_tenant a \<and> sa_item b = sa_item a \<and> sa_reversed b = None \<and> sa_reversal_of b = None
     \<and> sa_at a < sa_at b \<and> sa_id b \<noteq> sa_id a"

definition reverse_application_body :: "sched_env \<Rightarrow> jstr \<Rightarrow> jstr \<Rightarrow> jstr \<Rightarrow> jstr option \<Rightarrow> sched_store \<Rightarrow> sched_error + application \<times> sched_store" where
  "reverse_application_body se tenant k actor note st =
     (case find_row (\<lambda>a. sa_id a = k \<and> sa_tenant a = tenant) (sc_applications st) of
        None \<Rightarrow> Inl (ApplicationNotFound k)
      | Some a \<Rightarrow>
          if sa_reversed a \<noteq> None then Inl (ApplicationReversed k)
          else if list_ex (later_unreversed a) (sc_applications st) then Inl (DownstreamApplications (sa_item a))
          else (case find_item tenant (sa_item a) st of
                  None \<Rightarrow> Inl (OpenItemNotFound (sa_item a))
                | Some item \<Rightarrow>
                    (let m = oi_remaining item - (- sa_amount a);
                         r = application_row se (se_id se 0) item (- sa_amount a) (js ''REVERSAL-'' @ se_uuid se) (js ''reversal-'' @ k) True (Some actor)
                               (Some (case note of None \<Rightarrow> js ''Reversal of application '' @ k | Some n \<Rightarrow> n)) (Some k)
                     in bind_res (insert_application r st) (\<lambda>st1.
                        bind_res (update_item (oi_id item) (settle se m)
                            (st1\<lparr>sc_applications := update_rows (\<lambda>b. sa_id b = k) (\<lambda>b. b\<lparr>sa_reversed := Some (se_now se)\<rparr>) (sc_applications st1)\<rparr>)) (\<lambda>st2.
                          Inr (r, add_sched_audit tenant ''SCHEDULE_APPLICATION'' k ''REVERSED'' []
                            [(js ''reversedAt'', iso_time (se_now se)), (js ''reversalId'', sa_id r)] actor None st2))))))"

definition reverse_application :: "sched_env \<Rightarrow> jstr \<Rightarrow> jstr \<Rightarrow> jstr \<Rightarrow> jstr option \<Rightarrow> sched_store \<Rightarrow> (sched_error + application) \<times> sched_store" where
  "reverse_application se tenant k actor note st = sched_run se (reverse_application_body se tenant k actor note) st"

definition apply_auto_body :: "sched_env \<Rightarrow> jstr \<Rightarrow> jstr \<Rightarrow> jstr \<Rightarrow> int \<Rightarrow> jstr \<Rightarrow> jstr \<Rightarrow> sched_store \<Rightarrow> sched_error + posting_outcome \<times> sched_store" where
  "apply_auto_body se tenant schedule control amount key actor st =
     (if list_ex (\<lambda>a. sa_tenant a = tenant \<and> starts_with key (sa_correlation a)) (sc_applications st) then Inr (Already_processed, st)
      else if list_ex (\<lambda>u. ur_tenant u = tenant \<and> ur_correlation u = key) (sc_receipts st) then Inr (Already_processed, st)
      else if amount \<le> 0 then Inl InvalidAmount
      else if open_items_of tenant schedule control st = [] then Inl (NoOpenItems schedule control)
      else bind_res (sweep_auto_application se tenant schedule control (js ''MANUAL-AUTO-'' @ se_uuid se) amount key st) (\<lambda>(r, st1).
        Inr (r, add_sched_audit tenant ''SCHEDULE_OPEN_ITEM'' (schedule @ js ''-'' @ control) ''MANUAL_AUTO_APPLY'' []
          [(js ''amount'', fixed2 amount), (js ''outcome'', outcome_str r)] actor (Some key) st1)))"

definition apply_auto_fifo :: "sched_env \<Rightarrow> jstr \<Rightarrow> jstr \<Rightarrow> jstr \<Rightarrow> int \<Rightarrow> jstr \<Rightarrow> jstr \<Rightarrow> sched_store \<Rightarrow> (sched_error + posting_outcome) \<times> sched_store" where
  "apply_auto_fifo se tenant schedule control amount key actor st = sched_run se (apply_auto_body se tenant schedule control amount key actor) st"

section \<open>Ceremonies\<close>

definition find_ceremony :: "jstr \<Rightarrow> jstr \<Rightarrow> sched_store \<Rightarrow> ceremony option" where
  "find_ceremony tenant key st = find_row (\<lambda>c. cy_tenant c = tenant \<and> cy_key c = key) (sc_ceremonies st)"

text \<open>The item a ceremony may act on.\<close>

definition ceremony_item :: "jstr \<Rightarrow> jstr \<Rightarrow> sched_store \<Rightarrow> sched_error + open_item" where
  "ceremony_item tenant k st =
     (case find_item tenant k st of
        None \<Rightarrow> Inl (OpenItemNotFound k)
      | Some item \<Rightarrow> if oi_status item = IT_CLOSED then Inl (OpenItemClosed k)
                      else if oi_status item = IT_WRITTEN_OFF then Inl (ItemWrittenOff k) else Inr item)"

definition close_item :: "sched_env \<Rightarrow> open_item \<Rightarrow> open_item" where
  "close_item se i = i\<lparr>oi_applied := oi_original i, oi_remaining := 0, oi_status := IT_CLOSED, oi_closed := Some (se_now se)\<rparr>"

text \<open>A part of an item, under another control or item number.\<close>

definition child_item :: "sched_env \<Rightarrow> open_item \<Rightarrow> jstr \<Rightarrow> jstr \<Rightarrow> jstr \<Rightarrow> int \<Rightarrow> jstr \<Rightarrow> open_item" where
  "child_item se item i control number amount correlation =
     item\<lparr>oi_id := i, oi_control := control, oi_number := number, oi_original := amount, oi_applied := 0, oi_remaining := amount,
       oi_status := IT_OPEN, oi_correlation := correlation, oi_closed := None, oi_created := se_now se, oi_parent := Some (oi_id item),
       oi_reason := None, oi_write_off := None\<rparr>"

definition split_part :: "sched_env \<Rightarrow> open_item \<Rightarrow> jstr \<Rightarrow> sched_store \<Rightarrow> nat \<times> int \<Rightarrow> sched_error + sched_store" where
  "split_part se item key st np =
     insert_item (child_item se item (se_id se (fst np)) (oi_control item) (oi_number item @ js ''-S'' @ nat_str (fst np + 1)) (snd np)
       (key @ js ''-part-'' @ nat_str (fst np + 1))) st"

definition result_json :: "ceremony_result \<Rightarrow> (jstr \<times> jstr) list" where
  "result_json r = (case r of
     Split_into i ids \<Rightarrow> [(js ''parentItemId'', i), (js ''childItemIds'', js_join (js '','') ids)]
   | Transferred i k c n \<Rightarrow> [(js ''fromItemId'', i), (js ''toItemId'', k), (js ''toControlNumber'', c), (js ''toItemNumber'', n)]
   | Written_off i j a \<Rightarrow> [(js ''openItemId'', i), (js ''journalEntryId'', j), (js ''writtenOffAmount'', fixed2 a)])"

text \<open>The row of a ceremony and its audit row.\<close>

definition record_ceremony :: "jstr \<Rightarrow> open_item \<Rightarrow> jstr \<Rightarrow> jstr \<Rightarrow> jstr \<Rightarrow> string \<Rightarrow> (jstr \<times> jstr) list \<Rightarrow> ceremony_result \<Rightarrow> sched_store
    \<Rightarrow> sched_error + ceremony_result \<times> sched_store" where
  "record_ceremony tenant item key actor reason action before r st =
     bind_res (insert_ceremony \<lparr>cy_tenant = tenant, cy_item = oi_id item, cy_key = key, cy_reason = reason, cy_actor = actor, cy_result = r\<rparr> st) (\<lambda>st1.
       Inr (r, add_sched_audit tenant ''SCHEDULE_OPEN_ITEM'' (oi_id item) action before (result_json r) actor (Some key) st1))"

definition split_body :: "sched_env \<Rightarrow> jstr \<Rightarrow> jstr \<Rightarrow> int list \<Rightarrow> jstr \<Rightarrow> jstr \<Rightarrow> jstr \<Rightarrow> sched_store \<Rightarrow> sched_error + ceremony_result \<times> sched_store" where
  "split_body se tenant k parts key actor reason st =
     (case find_ceremony tenant key st of
        Some c \<Rightarrow> (case cy_result c of Split_into i ids \<Rightarrow> if cy_item c = k then Inr (cy_result c, st) else Inl (DuplicateCeremony key)
                  | _ \<Rightarrow> Inl (DuplicateCeremony key))
      | None \<Rightarrow>
          bind_res (ceremony_item tenant k st) (\<lambda>item.
          bind_res (validate_split_parts (oi_remaining item) parts) (\<lambda>_.
          bind_res (fold_res (split_part se item key) st (zip [0..<length parts] parts)) (\<lambda>st1.
          bind_res (update_item k (close_item se) st1) (\<lambda>st2.
            record_ceremony tenant item key actor reason ''SPLIT'' (balance_pair (oi_remaining item))
              (Split_into k (map (se_id se) [0..<length parts])) st2)))))"

definition split_open_item :: "sched_env \<Rightarrow> jstr \<Rightarrow> jstr \<Rightarrow> int list \<Rightarrow> jstr \<Rightarrow> jstr \<Rightarrow> jstr \<Rightarrow> sched_store \<Rightarrow> (sched_error + ceremony_result) \<times> sched_store" where
  "split_open_item se tenant k parts key actor reason st = sched_run se (split_body se tenant k parts key actor reason) st"

definition transfer_body :: "sched_env \<Rightarrow> jstr \<Rightarrow> jstr \<Rightarrow> jstr \<Rightarrow> jstr \<Rightarrow> jstr \<Rightarrow> jstr \<Rightarrow> jstr \<Rightarrow> jstr \<Rightarrow> sched_store
    \<Rightarrow> sched_error + ceremony_result \<times> sched_store" where
  "transfer_body se tenant k schedule control number key actor reason st =
     (case find_ceremony tenant key st of
        Some c \<Rightarrow> (case cy_result c of Transferred i j c' n \<Rightarrow> if cy_item c = k then Inr (cy_result c, st) else Inl (DuplicateCeremony key)
                  | _ \<Rightarrow> Inl (DuplicateCeremony key))
      | None \<Rightarrow>
          bind_res (ceremony_item tenant k st) (\<lambda>item.
            if schedule \<noteq> oi_schedule item then Inl (CrossAccountTransfer (oi_schedule item) schedule)
            else bind_res (insert_item (child_item se item (se_id se 0) control number (oi_remaining item) (key @ js ''-transferred'')) st) (\<lambda>st1.
                 bind_res (update_item k (close_item se) st1) (\<lambda>st2.
                   record_ceremony tenant item key actor reason ''TRANSFERRED'' [(js ''controlNumber'', oi_control item), (js ''itemNumber'', oi_number item)]
                     (Transferred k (se_id se 0) control number) st2))))"

definition transfer_open_item :: "sched_env \<Rightarrow> jstr \<Rightarrow> jstr \<Rightarrow> jstr \<Rightarrow> jstr \<Rightarrow> jstr \<Rightarrow> jstr \<Rightarrow> jstr \<Rightarrow> jstr \<Rightarrow> sched_store
    \<Rightarrow> (sched_error + ceremony_result) \<times> sched_store" where
  "transfer_open_item se tenant k schedule control number key actor reason st =
     sched_run se (transfer_body se tenant k schedule control number key actor reason) st"

text \<open>What the client of the general ledger is asked to post; its answer is an error text or the journal's identifier.\<close>

record write_off_input =
  wo_schedule :: jstr
  wo_control :: jstr
  wo_account :: "jstr option"
  wo_offset :: jstr
  wo_amount :: int
  wo_description :: jstr
  wo_key :: jstr

type_synonym 'g write_off_client = "jstr \<Rightarrow> write_off_input \<Rightarrow> 'g \<Rightarrow> (jstr + jstr) \<times> 'g"

definition threshold_of :: "jstr \<Rightarrow> sched_store \<Rightarrow> int option" where
  "threshold_of tenant st = (case map_of (sc_thresholds st) tenant of None \<Rightarrow> None | Some t \<Rightarrow> t)"

definition write_off_posting :: "open_item \<Rightarrow> jstr \<Rightarrow> jstr \<Rightarrow> jstr \<Rightarrow> write_off_input" where
  "write_off_posting item offset reason key =
     \<lparr>wo_schedule = oi_schedule item, wo_control = oi_control item, wo_account = oi_account item, wo_offset = offset,
      wo_amount = oi_remaining item, wo_description = js ''Schedule write-off: '' @ reason, wo_key = key\<rparr>"

definition write_off_checks :: "jstr \<Rightarrow> jstr \<Rightarrow> sched_store \<Rightarrow> sched_error + open_item" where
  "write_off_checks tenant k st =
     bind_res (ceremony_item tenant k st) (\<lambda>item.
       case threshold_of tenant st of
         None \<Rightarrow> Inr item
       | Some t \<Rightarrow> if t < oi_remaining item then Inl (ThresholdExceeded (oi_remaining item) t) else Inr item)"

definition finish_write_off :: "sched_env \<Rightarrow> jstr \<Rightarrow> open_item \<Rightarrow> jstr \<Rightarrow> jstr \<Rightarrow> jstr \<Rightarrow> jstr \<Rightarrow> sched_store \<Rightarrow> sched_error + ceremony_result \<times> sched_store" where
  "finish_write_off se tenant item key actor reason journal st =
     bind_res (update_item (oi_id item) (\<lambda>i. i\<lparr>oi_applied := oi_original i, oi_remaining := 0, oi_status := IT_WRITTEN_OFF,
         oi_closed := Some (se_now se), oi_reason := Some reason, oi_write_off := Some journal\<rparr>) st) (\<lambda>st1.
       record_ceremony tenant item key actor reason ''WRITTEN_OFF'' (balance_pair (oi_remaining item))
         (Written_off (oi_id item) journal (oi_remaining item)) st1)"

definition write_off_body :: "sched_env \<Rightarrow> 'g write_off_client \<Rightarrow> jstr \<Rightarrow> jstr \<Rightarrow> jstr \<Rightarrow> jstr \<Rightarrow> jstr \<Rightarrow> jstr \<Rightarrow> sched_store \<Rightarrow> 'g
    \<Rightarrow> (sched_error + ceremony_result \<times> sched_store) \<times> 'g" where
  "write_off_body se client tenant k offset key actor reason st g =
     (case find_ceremony tenant key st of
        Some c \<Rightarrow> (case cy_result c of Written_off i j a \<Rightarrow> if cy_item c = k then (Inr (cy_result c, st), g) else (Inl (DuplicateCeremony key), g)
                  | _ \<Rightarrow> (Inl (DuplicateCeremony key), g))
      | None \<Rightarrow>
          (case write_off_checks tenant k st of
             Inl e \<Rightarrow> (Inl e, g)
           | Inr item \<Rightarrow>
               (case client tenant (write_off_posting item offset reason key) g of
                  (Inl bad, g1) \<Rightarrow> (Inl (GlRefused bad), g1)
                | (Inr journal, g1) \<Rightarrow> (finish_write_off se tenant item key actor reason journal st, g1))))"

definition write_off_open_item :: "sched_env \<Rightarrow> 'g write_off_client \<Rightarrow> jstr \<Rightarrow> jstr \<Rightarrow> jstr \<Rightarrow> jstr \<Rightarrow> jstr \<Rightarrow> jstr \<Rightarrow> sched_store \<Rightarrow> 'g
    \<Rightarrow> (sched_error + ceremony_result) \<times> sched_store \<times> 'g" where
  "write_off_open_item se client tenant k offset key actor reason st g =
     (case sched_transaction se (write_off_body se client tenant k offset key actor reason st) g of
        (Inl e, g1) \<Rightarrow> (Inl e, st, g1)
      | (Inr (r, st1), g1) \<Rightarrow> (Inr r, st1, g1))"

end
