(* ===== verification/OpenItemRuns.thy ===== *)
theory OpenItemRuns
  imports OpenItemService GlNames
begin

text \<open>
  Runs of the schedule service. Its operations are serializable transactions, so a run is a sequence of them. The
  invariant accounts for every cent of an open item: it is still open, applied, passed on to the parts of a split or
  the target of a transfer, or written off.
\<close>

section \<open>Accounting for an item\<close>

definition applied_to :: "jstr \<Rightarrow> application list \<Rightarrow> int" where
  "applied_to k as = sum_list (map sa_amount (filter (\<lambda>a. sa_item a = k) as))"

definition parts_of :: "jstr \<Rightarrow> open_item list \<Rightarrow> int" where
  "parts_of k is = sum_list (map oi_original (filter (\<lambda>i. oi_parent i = Some k) is))"

fun written_off :: "jstr \<Rightarrow> ceremony_result \<Rightarrow> int" where
  "written_off k (Written_off i j a) = (if i = k then a else 0)"
| "written_off k r = 0"

definition losses_of :: "jstr \<Rightarrow> ceremony list \<Rightarrow> int" where
  "losses_of k cs = sum_list (map (\<lambda>c. written_off k (cy_result c)) cs)"

lemma accounting_simps [simp]:
  "applied_to k [] = 0" "applied_to k (as @ bs) = applied_to k as + applied_to k bs"
  "applied_to k (a # as) = (if sa_item a = k then sa_amount a else 0) + applied_to k as"
  "parts_of k [] = 0" "parts_of k (is @ is2) = parts_of k is + parts_of k is2"
  "parts_of k (i # is) = (if oi_parent i = Some k then oi_original i else 0) + parts_of k is"
  "losses_of k [] = 0" "losses_of k (cs @ ds) = losses_of k cs + losses_of k ds"
  "losses_of k (c # cs) = written_off k (cy_result c) + losses_of k cs"
  by (simp_all add: applied_to_def parts_of_def losses_of_def)

definition status_ok :: "open_item \<Rightarrow> bool" where
  "status_ok i \<longleftrightarrow> (case oi_status i of IT_OPEN \<Rightarrow> oi_remaining i = oi_original i | IT_PARTIAL \<Rightarrow> oi_remaining i \<noteq> 0 \<and> oi_remaining i \<noteq> oi_original i
     | _ \<Rightarrow> oi_remaining i = 0)"

text \<open>\<open>off k\<close> is what a transaction under way has not yet accounted for on item \<open>k\<close>.\<close>

definition item_ok :: "sched_store \<Rightarrow> (jstr \<Rightarrow> int) \<Rightarrow> open_item \<Rightarrow> bool" where
  "item_ok st off i \<longleftrightarrow> 0 \<le> oi_original i \<and> balance_check i \<and> oi_applied i + oi_remaining i = oi_original i \<and> status_ok i
     \<and> oi_original i + off (oi_id i) = oi_remaining i + applied_to (oi_id i) (sc_applications st) + parts_of (oi_id i) (sc_items st)
         + losses_of (oi_id i) (sc_ceremonies st)"

definition item_ids :: "sched_store \<Rightarrow> jstr set" where
  "item_ids st = oi_id ` set (sc_items st)"

definition ledger_ok :: "sched_store \<Rightarrow> (jstr \<Rightarrow> int) \<Rightarrow> bool" where
  "ledger_ok st off \<longleftrightarrow> distinct (map oi_id (sc_items st)) \<and> list_all (item_ok st off) (sc_items st)
     \<and> (\<forall>k. k \<notin> item_ids st \<longrightarrow> off k = 0 \<and> applied_to k (sc_applications st) = 0 \<and> parts_of k (sc_items st) = 0 \<and> losses_of k (sc_ceremonies st) = 0)"

abbreviation sched_inv :: "sched_store \<Rightarrow> bool" where
  "sched_inv st \<equiv> ledger_ok st (\<lambda>_. 0)"

lemma ledger_ok_cong:
  "sc_items st' = sc_items st \<Longrightarrow> sc_applications st' = sc_applications st \<Longrightarrow> sc_ceremonies st' = sc_ceremonies st \<Longrightarrow> ledger_ok st' off = ledger_ok st off"
  by (simp add: ledger_ok_def item_ok_def [abs_def] item_ids_def)

lemma side_ok [simp]:
  "ledger_ok (add_sched_audit t ty i ac b a u c st) off = ledger_ok st off" "ledger_ok (st\<lparr>sc_details := ds\<rparr>) off = ledger_ok st off"
  "ledger_ok (st\<lparr>sc_receipts := us\<rparr>) off = ledger_ok st off" "ledger_ok (st\<lparr>sc_outbox := es\<rparr>) off = ledger_ok st off"
  "sc_items (add_sched_audit t ty i ac b a u c st) = sc_items st" "sc_applications (add_sched_audit t ty i ac b a u c st) = sc_applications st"
  by (rule ledger_ok_cong; simp add: add_sched_audit_def)+ (simp_all add: add_sched_audit_def)

section \<open>The writes\<close>

lemma insert_item_ok:
  assumes "insert_item i st = Inr st1" and "ledger_ok st off" and "oi_applied i = 0" and "oi_remaining i = oi_original i" and "oi_status i = IT_OPEN"
    and "\<And>k. oi_parent i = Some k \<Longrightarrow> k \<in> item_ids st" and "0 \<le> oi_original i"
  shows "ledger_ok st1 (\<lambda>k. if oi_parent i = Some k then off k + oi_original i else off k)"
proof -
  have st1: "st1 = st\<lparr>sc_items := sc_items st @ [i]\<rparr>" and new: "oi_id i \<notin> item_ids st" and b: "balance_check i"
    using assms(1) by (auto simp: insert_item_def bind_res_Inr item_columns_def list_ex_iff item_ids_def split: if_splits)
  have p: "oi_parent i \<noteq> Some (oi_id i)" using assms(6) new by blast
  have z: "off (oi_id i) = 0" "applied_to (oi_id i) (sc_applications st) = 0" "parts_of (oi_id i) (sc_items st) = 0" "losses_of (oi_id i) (sc_ceremonies st) = 0"
    using assms(2) new by (auto simp: ledger_ok_def)
  have "item_ok st1 (\<lambda>k. if oi_parent i = Some k then off k + oi_original i else off k) i"
    using b p z assms(3,4,5,7) by (simp add: item_ok_def st1 status_ok_def)
  moreover have "item_ok st1 (\<lambda>k. if oi_parent i = Some k then off k + oi_original i else off k) j" if "j \<in> set (sc_items st)" for j
    using assms(2) that by (auto simp: ledger_ok_def list_all_iff item_ok_def st1)
  moreover have "distinct (map oi_id (sc_items st1))" using assms(2) new by (auto simp: ledger_ok_def st1 item_ids_def)
  moreover have "k \<notin> item_ids st \<Longrightarrow> oi_parent i \<noteq> Some k" for k using assms(6) by blast
  ultimately show ?thesis using assms(2) by (auto simp: ledger_ok_def list_all_iff st1 item_ids_def)
qed

lemma insert_application_ok:
  assumes "insert_application a st = Inr st1" and "ledger_ok st off"
  shows "ledger_ok st1 (off(sa_item a := off (sa_item a) + sa_amount a))" and "sc_items st1 = sc_items st"
proof -
  have st1: "st1 = st\<lparr>sc_applications := sc_applications st @ [a]\<rparr>" and k: "sa_item a \<in> item_ids st"
    using assms(1) by (auto simp: insert_application_def list_ex_iff item_ids_def intro: rev_image_eqI split: if_splits)
  show "ledger_ok st1 (off(sa_item a := off (sa_item a) + sa_amount a))"
    using assms(2) k by (auto simp: ledger_ok_def list_all_iff item_ok_def st1 item_ids_def)
  show "sc_items st1 = sc_items st" by (simp add: st1)
qed

lemma same_item: "distinct (map oi_id is) \<Longrightarrow> i \<in> set is \<Longrightarrow> j \<in> set is \<Longrightarrow> oi_id i = oi_id j \<Longrightarrow> i = j"
  by (simp add: distinct_map inj_on_def)

definition keeps_item :: "(open_item \<Rightarrow> open_item) \<Rightarrow> bool" where
  "keeps_item f \<longleftrightarrow> (\<forall>i. oi_id (f i) = oi_id i \<and> oi_original (f i) = oi_original i \<and> oi_parent (f i) = oi_parent i
     \<and> oi_applied (f i) + oi_remaining (f i) = oi_original i \<and> status_ok (f i))"

lemma parts_of_update: "(\<And>i. oi_original (f i) = oi_original i \<and> oi_parent (f i) = oi_parent i) \<Longrightarrow> parts_of k (update_rows P f is) = parts_of k is"
  by (induction "is") auto

lemma update_item_ok:
  assumes "update_item k f st = Inr st1" and "ledger_ok st off" and "keeps_item f" and "i \<in> set (sc_items st)" and "oi_id i = k"
  shows "ledger_ok st1 (off(k := off k + (oi_remaining (f i) - oi_remaining i)))"
    and "sc_items st1 = update_rows (\<lambda>i. oi_id i = k) f (sc_items st)" and "sc_applications st1 = sc_applications st"
proof -
  have d: "distinct (map oi_id (sc_items st))" using assms(2) by (simp add: ledger_ok_def)
  obtain x where x: "find_row (\<lambda>i. oi_id i = k) (sc_items st) = Some x" "item_columns (f x) = Inr ()"
    and st1: "st1 = st\<lparr>sc_items := update_rows (\<lambda>i. oi_id i = k) f (sc_items st)\<rparr>"
    using assms(1) by (auto simp: update_item_def bind_res_Inr split: option.splits)
  have "x = i" using same_item [OF d _ assms(4)] find_row_Some [OF x(1)] assms(5) by auto
  then have b: "balance_check (f i)" using x(2) by (auto simp: item_columns_def split: if_splits)
  have f: "oi_id (f j) = oi_id j" "oi_original (f j) = oi_original j" "oi_parent (f j) = oi_parent j"
    "oi_applied (f j) + oi_remaining (f j) = oi_original j" "status_ok (f j)" for j using assms(3) by (simp_all add: keeps_item_def)
  have parts: "parts_of m (sc_items st1) = parts_of m (sc_items st)" for m using parts_of_update f by (simp add: st1)
  have ids: "map oi_id (sc_items st1) = map oi_id (sc_items st)" using f by (simp add: st1 map_update_rows)
  then have idset: "item_ids st1 = item_ids st" unfolding item_ids_def by (metis set_map)
  have old: "item_ok st off j" if "j \<in> set (sc_items st)" for j using assms(2) that by (simp add: ledger_ok_def list_all_iff)
  have "item_ok st1 (off(k := off k + (oi_remaining (f i) - oi_remaining i))) (if oi_id j = k then f j else j)" if j: "j \<in> set (sc_items st)" for j
  proof (cases "oi_id j = k")
    case True
    then have "j = i" using same_item [OF d j assms(4)] assms(5) by simp
    then show ?thesis using old [OF j] b f [of i] True by (simp add: item_ok_def parts) (simp add: st1)
  next
    case False
    then show ?thesis using old [OF j] by (simp add: item_ok_def parts) (simp add: st1)
  qed
  then have "\<forall>x \<in> (\<lambda>j. if oi_id j = k then f j else j) ` set (sc_items st). item_ok st1 (off(k := off k + (oi_remaining (f i) - oi_remaining i))) x"
    by blast
  moreover have "sc_items st1 = update_rows (\<lambda>i. oi_id i = k) f (sc_items st)" by (simp add: st1)
  ultimately have "list_all (item_ok st1 (off(k := off k + (oi_remaining (f i) - oi_remaining i)))) (sc_items st1)"
    unfolding list_all_iff by (simp only: set_update_rows)
  moreover have "k \<in> item_ids st" using assms(4,5) by (auto simp: item_ids_def)
  ultimately show "ledger_ok st1 (off(k := off k + (oi_remaining (f i) - oi_remaining i)))"
    using assms(2) d by (auto simp: ledger_ok_def idset parts ids) (auto simp: st1)
  show "sc_items st1 = update_rows (\<lambda>i. oi_id i = k) f (sc_items st)" "sc_applications st1 = sc_applications st" by (simp_all add: st1)
qed

lemma insert_ceremony_ok:
  assumes "insert_ceremony c st = Inr st1" and "ledger_ok st off" and "\<And>k. written_off k (cy_result c) \<noteq> 0 \<Longrightarrow> k \<in> item_ids st"
  shows "ledger_ok st1 (\<lambda>k. off k + written_off k (cy_result c))"
proof -
  have st1: "st1 = st\<lparr>sc_ceremonies := sc_ceremonies st @ [c]\<rparr>" using assms(1) by (auto simp: insert_ceremony_def split: if_splits)
  have "k \<notin> item_ids st \<Longrightarrow> written_off k (cy_result c) = 0" for k using assms(3) by blast
  then show ?thesis using assms(2) by (auto simp: ledger_ok_def list_all_iff item_ok_def st1 item_ids_def)
qed

lemma insert_detail_ok: "insert_detail d st = Inr st1 \<Longrightarrow> ledger_ok st1 off = ledger_ok st off \<and> sc_items st1 = sc_items st"
  by (auto simp: insert_detail_def split: if_splits)

lemma insert_receipt_ok: "insert_receipt u st = Inr st1 \<Longrightarrow> ledger_ok st1 off = ledger_ok st off"
  by (auto simp: insert_receipt_def split: if_splits)


section \<open>The sweep\<close>

lemma apply_amount_Some: "apply_amount original remaining amount = Some m \<Longrightarrow> m = remaining - amount"
  by (simp add: apply_amount_def Let_def split: if_splits)

text \<open>The shares of a sweep: each within its item, oldest item first, and only the last may leave its item open.\<close>

lemma sweep_loop_shares:
  assumes "sweep_loop is r = Inr (als, u)"
  shows "\<forall>al \<in> set als. \<exists>i \<in> set is. oi_id i = al_item al \<and> al_remaining al = oi_remaining i - al_amount al \<and> 0 < al_amount al \<and> al_amount al \<le> oi_remaining i"
    and "distinct (map oi_id is) \<Longrightarrow> distinct (map al_item als)"
    and "sum_list (map al_amount als) + u = r" and "0 \<le> r \<Longrightarrow> 0 \<le> u"
proof -
  have "(\<forall>al \<in> set als. \<exists>i \<in> set is. oi_id i = al_item al \<and> al_remaining al = oi_remaining i - al_amount al \<and> 0 < al_amount al \<and> al_amount al \<le> oi_remaining i)
    \<and> (distinct (map oi_id is) \<longrightarrow> distinct (map al_item als)) \<and> sum_list (map al_amount als) + u = r \<and> (0 \<le> r \<longrightarrow> 0 \<le> u)"
    using assms
  proof (induction "is" r arbitrary: als u rule: sweep_loop.induct)
    case (2 i "is" r)
    show ?case
    proof (cases "r \<le> 0 \<or> oi_remaining i \<le> 0")
      case True
      then show ?thesis using 2 by (auto split: if_splits)
    next
      case False
      obtain m as where m: "apply_amount (oi_original i) (oi_remaining i) (min r (oi_remaining i)) = Some m"
        and s: "sweep_loop is (r - min r (oi_remaining i)) = Inr (as, u)"
        and als: "als = \<lparr>al_item = oi_id i, al_amount = min r (oi_remaining i), al_remaining = m, al_status = derive_status (oi_original i) m\<rparr> # as"
        using 2(3) False by (auto simp: Let_def bind_res_Inr split: option.splits if_splits)
      note ih = 2(2) [OF _ _ refl m s]
      have "oi_id i \<notin> al_item ` set as" if d: "distinct (map oi_id (i # is))"
      proof
        assume "oi_id i \<in> al_item ` set as"
        then obtain al j where "al \<in> set as" "al_item al = oi_id i" "j \<in> set is" "oi_id j = al_item al" using ih False by auto
        then have "oi_id i \<in> oi_id ` set is" by (metis image_eqI)
        then show False using d by simp
      qed
      then show ?thesis using ih False apply_amount_Some [OF m] by (auto simp: als)
    qed
  qed auto
  then show "\<forall>al \<in> set als. \<exists>i \<in> set is. oi_id i = al_item al \<and> al_remaining al = oi_remaining i - al_amount al \<and> 0 < al_amount al \<and> al_amount al \<le> oi_remaining i"
    "distinct (map oi_id is) \<Longrightarrow> distinct (map al_item als)" "sum_list (map al_amount als) + u = r" "0 \<le> r \<Longrightarrow> 0 \<le> u" by blast+
qed

lemma oldest_first_simps [simp]: "set (oldest_first is) = set is" "distinct (map oi_id (oldest_first is)) = distinct (map oi_id is)"
proof -
  show "set (oldest_first is) = set is" by (simp add: oldest_first_def)
  have "mset (map oi_id (oldest_first is)) = mset (map oi_id is)" by (simp add: oldest_first_def)
  then show "distinct (map oi_id (oldest_first is)) = distinct (map oi_id is)" by (rule mset_eq_imp_distinct_iff)
qed

section \<open>The operations\<close>

lemma keeps_items [simp]:
  "keeps_item (settle se m)" "keeps_item (close_item se)"
  "keeps_item (\<lambda>i. i\<lparr>oi_applied := oi_original i, oi_remaining := 0, oi_status := IT_WRITTEN_OFF, oi_closed := c, oi_reason := a, oi_write_off := b\<rparr>)"
  by (simp_all add: keeps_item_def settle_def Let_def status_ok_def derive_status_def close_item_def)

lemma settle_remaining [simp]: "oi_remaining (settle se m i) = m" "oi_remaining (close_item se i) = 0"
  by (simp_all add: settle_def Let_def close_item_def)

lemma record_application_ok:
  assumes "record_application se item m a st = Inr st1" and "sched_inv st" and "i \<in> set (sc_items st)" and "oi_id i = oi_id item"
    and "sa_item a = oi_id item" and "m = oi_remaining i - sa_amount a"
  shows "sched_inv st1" and "sc_items st1 = update_rows (\<lambda>i. oi_id i = oi_id item) (settle se m) (sc_items st)"
proof -
  obtain s where s: "insert_application a st = Inr s" "update_item (oi_id item) (settle se m) s = Inr st1"
    using assms(1) by (auto simp: record_application_def bind_res_Inr)
  note a = insert_application_ok [OF s(1) assms(2)]
  have i: "i \<in> set (sc_items s)" using assms(3) a(2) by simp
  note u = update_item_ok [OF s(2) a(1) _ i assms(4)]
  have "(\<lambda>_. 0 :: int)(sa_item a := 0 + sa_amount a, oi_id item := ((\<lambda>_. 0)(sa_item a := 0 + sa_amount a)) (oi_id item) + (oi_remaining (settle se m i) - oi_remaining i)) = (\<lambda>_. 0)"
    using assms(5,6) by (simp add: fun_eq_iff)
  then show "sched_inv st1" using u(1) by (simp add: fun_upd_def)
  show "sc_items st1 = update_rows (\<lambda>i. oi_id i = oi_id item) (settle se m) (sc_items st)" using u(2) a(2) by simp
qed

text \<open>An allocation fits a store when it leaves its item what the item has less the share.\<close>

definition al_fits :: "sched_store \<Rightarrow> allocation \<Rightarrow> bool" where
  "al_fits st al \<longleftrightarrow> (\<exists>i \<in> set (sc_items st). oi_id i = al_item al \<and> al_remaining al = oi_remaining i - al_amount al)"

lemma apply_allocation_ok:
  assumes "apply_allocation se tenant items journal correlation (st, n) al = Inr (st1, n1)" and "sched_inv st" and "al_fits st al"
  shows "sched_inv st1" and "al_fits st b \<Longrightarrow> al_item b \<noteq> al_item al \<Longrightarrow> al_fits st1 b"
proof -
  obtain item s where f: "find_row (\<lambda>i. oi_id i = al_item al) items = Some item"
    and r: "record_application se item (al_remaining al) (application_row se (se_id se n) item (al_amount al) journal
              (correlation @ js ''-fifo-'' @ al_item al) False None None None) st = Inr s"
    and st1: "sc_items st1 = sc_items s" "sched_inv st1 = sched_inv s"
    using assms(1) by (auto simp: apply_allocation_def bind_res_Inr split: option.splits)
  have id: "oi_id item = al_item al" using find_row_Some [OF f] by simp
  obtain i where i: "i \<in> set (sc_items st)" "oi_id i = al_item al" "al_remaining al = oi_remaining i - al_amount al"
    using assms(3) by (auto simp: al_fits_def)
  note ok = record_application_ok [OF r assms(2) i(1)]
  show "sched_inv st1" using ok(1) i id st1 by (simp add: application_row_def)
  have items: "sc_items st1 = update_rows (\<lambda>i. oi_id i = al_item al) (settle se (al_remaining al)) (sc_items st)"
    using ok(2) i id st1 by (simp add: application_row_def)
  show "al_fits st1 b" if b: "al_fits st b" "al_item b \<noteq> al_item al"
    using b by (force simp: al_fits_def items set_update_rows)
qed

lemma allocations_ok:
  assumes "fold_res (apply_allocation se tenant items journal correlation) (st, n) als = Inr (st1, n1)" and "sched_inv st"
    and "\<forall>al \<in> set als. al_fits st al" and "distinct (map al_item als)"
  shows "sched_inv st1"
  using assms
proof (induction als arbitrary: st n)
  case (Cons al als)
  obtain s k where s: "apply_allocation se tenant items journal correlation (st, n) al = Inr (s, k)"
    "fold_res (apply_allocation se tenant items journal correlation) (s, k) als = Inr (st1, n1)"
    using Cons.prems(1) by (auto simp: bind_res_Inr)
  note ok = apply_allocation_ok [OF s(1) Cons.prems(2)]
  have "\<forall>b \<in> set als. al_fits s b" using ok(2) Cons.prems(3,4) by (auto simp: image_iff)
  then show ?case using Cons.IH [OF s(2)] ok(1) Cons.prems(3,4) by simp
qed simp

lemma sweep_ok:
  assumes "sweep_auto_application se tenant schedule control journal amount correlation st = Inr (r, st1)" and "sched_inv st"
  shows "sched_inv st1"
proof -
  let ?items = "open_items_of tenant schedule control st"
  obtain als u s n where f: "sweep_fifo ?items amount = Inr (als, u)" and s: "fold_res (apply_allocation se tenant ?items journal correlation) (st, 1) als = Inr (s, n)"
    and st1: "sched_inv st1 = sched_inv s"
    using assms(1) by (auto simp: sweep_auto_application_def Let_def bind_res_Inr insert_receipt_def split: if_splits)
  note sh = sweep_loop_shares [OF f [unfolded sweep_fifo_def]]
  have "distinct (map oi_id (sc_items st))" using assms(2) by (simp add: ledger_ok_def)
  then have "distinct (map oi_id ?items)" by (simp add: open_items_of_def distinct_map_filter)
  then have d: "distinct (map al_item als)" using sh(2) by simp
  have "\<forall>al \<in> set als. al_fits st al" using sh(1) by (auto simp: al_fits_def open_items_of_def)
  then show ?thesis using allocations_ok [OF s assms(2) _ d] st1 by simp
qed

lemma item_known: "i \<in> set (sc_items st) \<Longrightarrow> oi_id i \<in> item_ids st"
  by (simp add: item_ids_def)

lemma apply_specific_ok:
  assumes "apply_specific se tenant schedule ev correlation st = Inr (r, st1)" and "sched_inv st"
  shows "sched_inv st1"
proof (cases "st1 = st")
  case False
  then obtain target m s where t: "filter (\<lambda>i. oi_number i = opt_str (pe_apply ev)) (open_items_of tenant schedule (pe_control ev) st) = [target]"
    and m: "apply_amount (oi_original target) (oi_remaining target) (- pe_amount ev) = Some m"
    and s: "record_application se target m (application_row se (se_id se 1) target (- pe_amount ev) (pe_journal ev) correlation False None None None) st = Inr s"
    and st1: "sched_inv st1 = sched_inv s"
    using assms(1) by (auto simp: apply_specific_def bind_res_Inr split: list.splits option.splits)
  have "target \<in> set (filter (\<lambda>i. oi_number i = opt_str (pe_apply ev)) (open_items_of tenant schedule (pe_control ev) st))" unfolding t by simp
  then have "target \<in> set (sc_items st)" by (simp add: open_items_of_def)
  then show ?thesis using record_application_ok(1) [OF s assms(2), of target] apply_amount_Some [OF m] by (simp add: application_row_def st1)
qed (use assms in simp)

lemma open_new_item_ok:
  assumes "open_new_item se tenant schedule ev correlation st = Inr (r, st1)" and "sched_inv st"
  shows "sched_inv st1"
proof -
  obtain s where s: "insert_item (new_item se tenant schedule ev correlation) st = Inr s" and st1: "sched_inv st1 = sched_inv s"
    using assms(1) by (auto simp: open_new_item_def bind_res_Inr)
  show ?thesis using insert_item_ok [OF s assms(2)] by (simp add: st1 new_item_def)
qed

lemma posting_body_ok:
  assumes "posting_body se tenant schedule ev correlation st = Inr (r, st1)" and "sched_inv st"
  shows "sched_inv st1"
proof (cases "st1 = st")
  case False
  then obtain s where d: "insert_detail (detail_of_event se tenant schedule ev correlation) st = Inr s"
    and w: "open_new_item se tenant schedule ev correlation s = Inr (r, st1) \<or> apply_specific se tenant schedule ev correlation s = Inr (r, st1)
      \<or> sweep_auto_application se tenant schedule (pe_control ev) (pe_journal ev) (- pe_amount ev) correlation s = Inr (r, st1)"
    using assms(1) by (auto simp: posting_body_def bind_res_Inr split: if_splits)
  have k: "sched_inv s" using insert_detail_ok [OF d] assms(2) by simp
  from w show ?thesis by (elim disjE) (rule open_new_item_ok apply_specific_ok sweep_ok, assumption, rule k)+
qed (use assms in simp)

lemma apply_manual_ok:
  assumes "apply_manual_body se tenant k amount key note v st = Inr (r, st1)" and "sched_inv st"
  shows "sched_inv st1"
proof (cases "st1 = st")
  case False
  then obtain item m s where f: "find_item tenant k st = Some item" and m: "apply_amount (oi_original item) (oi_remaining item) amount = Some m"
    and s: "record_application se item m (application_row se (se_id se 0) item amount (js ''MANUAL-'' @ se_uuid se) key True v note None) st = Inr s"
    and st1: "sched_inv st1 = sched_inv s"
    using assms(1) by (auto simp: apply_manual_body_def Let_def bind_res_Inr split: option.splits if_splits)
  have "item \<in> set (sc_items st)" using f by (auto simp: find_item_def dest: find_row_Some)
  then show ?thesis using record_application_ok(1) [OF s assms(2), of item] apply_amount_Some [OF m] by (simp add: application_row_def st1)
qed (use assms in simp)

lemma apply_auto_ok: "apply_auto_body se tenant schedule control amount key actor st = Inr (r, st1) \<Longrightarrow> sched_inv st \<Longrightarrow> sched_inv st1"
  by (auto simp: apply_auto_body_def bind_res_Inr split: if_splits dest: sweep_ok)

lemma applied_to_update: "(\<And>a. sa_item (f a) = sa_item a \<and> sa_amount (f a) = sa_amount a) \<Longrightarrow> applied_to k (update_rows P f as) = applied_to k as"
  by (induction "as") auto

lemma reverse_application_ok:
  assumes "reverse_application_body se tenant k actor note st = Inr (r, st1)" and "sched_inv st"
  shows "sched_inv st1"
proof -
  let ?flag = "\<lambda>s. s\<lparr>sc_applications := update_rows (\<lambda>b. sa_id b = k) (\<lambda>b. b\<lparr>sa_reversed := Some (se_now se)\<rparr>) (sc_applications s)\<rparr>"
  obtain a where a: "find_row (\<lambda>a. sa_id a = k \<and> sa_tenant a = tenant) (sc_applications st) = Some a"
    using assms(1) by (auto simp: reverse_application_body_def split: option.splits)
  obtain item where f: "find_item tenant (sa_item a) st = Some item"
    using assms(1) a by (auto simp: reverse_application_body_def split: option.splits if_splits)
  obtain n s1 s2 where r: "r = application_row se (se_id se 0) item (- sa_amount a) (js ''REVERSAL-'' @ se_uuid se) (js ''reversal-'' @ k) True (Some actor) n (Some k)"
    and i: "insert_application r st = Inr s1" and u: "update_item (oi_id item) (settle se (oi_remaining item - (- sa_amount a))) (?flag s1) = Inr s2"
    and st1: "sched_inv st1 = sched_inv s2"
    using assms(1) by (simp add: reverse_application_body_def Let_def bind_res_Inr a f split: if_splits) force
  have ra: "sa_item r = oi_id item" "sa_amount r = - sa_amount a" by (simp_all add: r application_row_def)
  have item: "item \<in> set (sc_items st)" using f by (auto simp: find_item_def dest: find_row_Some)
  note ok = insert_application_ok [OF i assms(2)]
  have "ledger_ok (?flag s1) off = ledger_ok s1 off" for off
    by (simp add: ledger_ok_def item_ok_def [abs_def] item_ids_def applied_to_update)
  then have fl: "ledger_ok (?flag s1) ((\<lambda>_. 0)(sa_item r := 0 + sa_amount r))" using ok(1) by simp
  have it: "item \<in> set (sc_items (?flag s1))" using item ok(2) by simp
  have "ledger_ok s2 ((\<lambda>_. 0)(sa_item r := 0 + sa_amount r, oi_id item := ((\<lambda>_. 0)(sa_item r := 0 + sa_amount r)) (oi_id item)
      + (oi_remaining (settle se (oi_remaining item - (- sa_amount a)) item) - oi_remaining item)))"
    using update_item_ok(1) [OF u fl _ it refl] by simp
  moreover have "(\<lambda>_. 0 :: int)(sa_item r := 0 + sa_amount r, oi_id item := ((\<lambda>_. 0)(sa_item r := 0 + sa_amount r)) (oi_id item)
      + (oi_remaining (settle se (oi_remaining item - (- sa_amount a)) item) - oi_remaining item)) = (\<lambda>_. 0)"
    using ra by (simp add: fun_eq_iff)
  ultimately show ?thesis by (simp only: st1)
qed


section \<open>The ceremonies\<close>

lemma item_ok_bounds: "ledger_ok st off \<Longrightarrow> i \<in> set (sc_items st) \<Longrightarrow> status_ok i \<and> 0 \<le> oi_remaining i \<and> oi_remaining i \<le> oi_original i
    \<and> oi_applied i + oi_remaining i = oi_original i"
  by (auto simp: ledger_ok_def list_all_iff item_ok_def balance_check_def)

lemma child_item_simps [simp]:
  "oi_parent (child_item se item i c n a k) = Some (oi_id item)" "oi_original (child_item se item i c n a k) = a"
  "oi_remaining (child_item se item i c n a k) = a" "oi_applied (child_item se item i c n a k) = 0" "oi_status (child_item se item i c n a k) = IT_OPEN"
  by (simp_all add: child_item_def)

lemma insert_child_ok:
  assumes "insert_item (child_item se item i c n a key) st = Inr st1" and "ledger_ok st off" and "item \<in> set (sc_items st)" and "0 \<le> a"
  shows "ledger_ok st1 (off(oi_id item := off (oi_id item) + a))" and "item \<in> set (sc_items st1)"
proof -
  have "ledger_ok st1 (\<lambda>k. if oi_parent (child_item se item i c n a key) = Some k then off k + oi_original (child_item se item i c n a key) else off k)"
    by (rule insert_item_ok [OF assms(1,2)]) (use item_known [OF assms(3)] assms(4) in auto)
  moreover have "(\<lambda>k. if oi_parent (child_item se item i c n a key) = Some k then off k + oi_original (child_item se item i c n a key) else off k)
      = off(oi_id item := off (oi_id item) + a)" by (auto simp: fun_eq_iff)
  ultimately show "ledger_ok st1 (off(oi_id item := off (oi_id item) + a))" by simp
  show "item \<in> set (sc_items st1)" using assms(1,3) by (auto simp: insert_item_def bind_res_Inr split: if_splits)
qed

lemma split_parts_ok:
  assumes "fold_res (split_part se item key) st nps = Inr st1" and "ledger_ok st off" and "item \<in> set (sc_items st)" and "\<forall>p \<in> set nps. 0 \<le> snd p"
  shows "ledger_ok st1 (off(oi_id item := off (oi_id item) + sum_list (map snd nps)))" and "item \<in> set (sc_items st1)"
proof -
  have "ledger_ok st1 (off(oi_id item := off (oi_id item) + sum_list (map snd nps))) \<and> item \<in> set (sc_items st1)"
    using assms
  proof (induction nps arbitrary: st off)
    case (Cons p nps)
    obtain s where s: "split_part se item key st p = Inr s" "fold_res (split_part se item key) s nps = Inr st1"
      using Cons.prems(1) by (auto simp: bind_res_Inr)
    have p: "0 \<le> snd p" "\<forall>q \<in> set nps. 0 \<le> snd q" using Cons.prems(4) by simp_all
    note ok = insert_child_ok [OF s(1) [unfolded split_part_def] Cons.prems(2,3) p(1)]
    have eq: "(off(oi_id item := off (oi_id item) + snd p))(oi_id item := (off(oi_id item := off (oi_id item) + snd p)) (oi_id item) + sum_list (map snd nps))
        = off(oi_id item := off (oi_id item) + sum_list (map snd (p # nps)))" by (simp add: fun_eq_iff)
    from Cons.IH [OF s(2) ok p(2)] show ?case unfolding eq .
  qed simp
  then show "ledger_ok st1 (off(oi_id item := off (oi_id item) + sum_list (map snd nps)))" "item \<in> set (sc_items st1)" by blast+
qed

lemma record_ceremony_ok:
  assumes "record_ceremony tenant item key actor reason action b r st = Inr (v, st1)" and "ledger_ok st off"
    and "\<And>k. written_off k r \<noteq> 0 \<Longrightarrow> k \<in> item_ids st" and "\<And>k. off k + written_off k r = 0"
  shows "sched_inv st1"
proof -
  obtain s where s: "insert_ceremony \<lparr>cy_tenant = tenant, cy_item = oi_id item, cy_key = key, cy_reason = reason, cy_actor = actor, cy_result = r\<rparr> st = Inr s"
    and st1: "sched_inv st1 = sched_inv s"
    using assms(1) by (auto simp: record_ceremony_def bind_res_Inr)
  have "ledger_ok s (\<lambda>k. off k + written_off k r)" using insert_ceremony_ok [OF s assms(2)] assms(3) by simp
  then show ?thesis using assms(4) by (simp add: st1)
qed

text \<open>Closing an item once its balance stands in its parts.\<close>

lemma close_passed_ok:
  assumes "update_item (oi_id item) (close_item se) st = Inr st1"
    and "ledger_ok st ((\<lambda>_. 0)(oi_id item := (\<lambda>_. 0) (oi_id item) + oi_remaining item))" and "item \<in> set (sc_items st)"
  shows "sched_inv st1"
proof -
  note u = update_item_ok(1) [OF assms(1,2) _ assms(3) refl]
  have "(\<lambda>_. 0 :: int)(oi_id item := (\<lambda>_. 0) (oi_id item) + oi_remaining item,
      oi_id item := ((\<lambda>_. 0)(oi_id item := (\<lambda>_. 0) (oi_id item) + oi_remaining item)) (oi_id item) + (oi_remaining (close_item se item) - oi_remaining item)) = (\<lambda>_. 0)"
    by (simp add: fun_eq_iff)
  then show ?thesis using u by simp
qed

lemma ceremony_item_known: "ceremony_item tenant k st = Inr item \<Longrightarrow> item \<in> set (sc_items st) \<and> oi_id item = k"
  by (auto simp: ceremony_item_def find_item_def split: option.splits if_splits dest: find_row_Some)

lemma split_ok:
  assumes "split_body se tenant k parts key actor reason st = Inr (r, st1)" and "sched_inv st"
  shows "sched_inv st1"
proof (cases "find_ceremony tenant key st")
  case None
  obtain item s s2 where item: "ceremony_item tenant k st = Inr item" and v: "validate_split_parts (oi_remaining item) parts = Inr ()"
    and f: "fold_res (split_part se item key) st (zip [0..<length parts] parts) = Inr s"
    and u: "update_item k (close_item se) s = Inr s2"
    and c: "record_ceremony tenant item key actor reason ''SPLIT'' (balance_pair (oi_remaining item)) (Split_into k (map (se_id se) [0..<length parts])) s2 = Inr (r, st1)"
    using assms(1) None by (auto simp: split_body_def bind_res_Inr)
  note known = ceremony_item_known [OF item]
  have "\<forall>p \<in> set parts. 0 < p" using v by (auto simp: validate_split_parts_def list_ex_iff not_le split: if_splits)
  then have pos: "\<forall>p \<in> set (zip [0..<length parts] parts). 0 \<le> snd p" by (auto dest!: set_zip_rightD simp: less_imp_le)
  note p = split_parts_ok [OF f assms(2) conjunct1 [OF known] pos]
  have sum: "sum_list (map snd (zip [0..<length parts] parts)) = oi_remaining item" using v by (simp add: validate_split_parts_def split: if_splits)
  have "sched_inv s2" using close_passed_ok [of item se s s2] u p known by (simp only: sum)
  then show ?thesis by (rule record_ceremony_ok [OF c]) simp_all
next
  case (Some c)
  then have "st1 = st" using assms(1) by (auto simp: split_body_def split: ceremony_result.splits if_splits)
  then show ?thesis using assms(2) by simp
qed

lemma transfer_ok:
  assumes "transfer_body se tenant k schedule control number key actor reason st = Inr (r, st1)" and "sched_inv st"
  shows "sched_inv st1"
proof (cases "find_ceremony tenant key st")
  case None
  obtain item s s2 where item: "ceremony_item tenant k st = Inr item"
    and i: "insert_item (child_item se item (se_id se 0) control number (oi_remaining item) (key @ js ''-transferred'')) st = Inr s"
    and u: "update_item k (close_item se) s = Inr s2"
    and c: "record_ceremony tenant item key actor reason ''TRANSFERRED'' [(js ''controlNumber'', oi_control item), (js ''itemNumber'', oi_number item)]
        (Transferred k (se_id se 0) control number) s2 = Inr (r, st1)"
    using assms(1) None by (auto simp: transfer_body_def bind_res_Inr split: if_splits)
  note known = ceremony_item_known [OF item]
  have pos: "0 \<le> oi_remaining item" using item_ok_bounds [OF assms(2) conjunct1 [OF known]] by auto
  note p = insert_child_ok [OF i assms(2) conjunct1 [OF known] pos]
  have "sched_inv s2" using close_passed_ok [of item se s s2] u p known by simp
  then show ?thesis by (rule record_ceremony_ok [OF c]) simp_all
next
  case (Some c)
  then have "st1 = st" using assms(1) by (auto simp: transfer_body_def split: ceremony_result.splits if_splits)
  then show ?thesis using assms(2) by simp
qed

lemma finish_write_off_ok:
  assumes "finish_write_off se tenant item key actor reason journal st = Inr (r, st1)" and "sched_inv st" and "item \<in> set (sc_items st)"
  shows "sched_inv st1"
proof -
  let ?f = "\<lambda>i. i\<lparr>oi_applied := oi_original i, oi_remaining := 0, oi_status := IT_WRITTEN_OFF, oi_closed := Some (se_now se), oi_reason := Some reason, oi_write_off := Some journal\<rparr>"
  obtain s where u: "update_item (oi_id item) ?f st = Inr s"
    and c: "record_ceremony tenant item key actor reason ''WRITTEN_OFF'' (balance_pair (oi_remaining item)) (Written_off (oi_id item) journal (oi_remaining item)) s = Inr (r, st1)"
    using assms(1) by (auto simp: finish_write_off_def bind_res_Inr)
  have keeps: "keeps_item ?f" by simp
  note ok = update_item_ok [OF u assms(2) keeps assms(3) refl]
  have known: "oi_id item \<in> item_ids s" unfolding item_ids_def ok(2) set_update_rows image_image by (rule image_eqI [OF _ assms(3)]) simp
  show ?thesis
    by (rule record_ceremony_ok [OF c ok(1)]) (use known in \<open>auto split: if_splits\<close>)
qed

lemma write_off_ok:
  assumes "write_off_body se client tenant k offset key actor reason st g = (Inr (r, st1), g1)" and "sched_inv st"
  shows "sched_inv st1"
proof (cases "find_ceremony tenant key st")
  case None
  obtain item journal where item: "write_off_checks tenant k st = Inr item" and f: "finish_write_off se tenant item key actor reason journal st = Inr (r, st1)"
    using assms(1) None by (auto simp: write_off_body_def split: sum.splits prod.splits)
  have "item \<in> set (sc_items st)" using item by (auto simp: write_off_checks_def bind_res_Inr split: option.splits if_splits dest: ceremony_item_known)
  then show ?thesis by (rule finish_write_off_ok [OF f assms(2)])
next
  case (Some c)
  then have "st1 = st" using assms(1) by (auto simp: write_off_body_def split: ceremony_result.splits if_splits)
  then show ?thesis using assms(2) by simp
qed

section \<open>Transactions and runs\<close>

lemma sched_attempts_Inr: "sched_attempts conflict run ns g = (Inr v, g1) \<Longrightarrow> \<exists>g0. run g0 = (Inr v, g1)"
  by (induction ns arbitrary: g) (auto split: prod.splits sum.splits if_splits)

lemma sched_run_cases:
  assumes "sched_run se body st = (r, st1)"
  shows "st1 = st \<or> (\<exists>v. r = Inr v \<and> body st = Inr (v, st1))"
proof (cases "fst (sched_transaction se (\<lambda>g. (body st, g)) ())")
  case (Inr vs)
  then obtain v s where vs: "sched_transaction se (\<lambda>g. (body st, g)) () = (Inr (v, s), ())" by (cases vs) (auto simp: prod_eq_iff)
  from sched_attempts_Inr [OF vs [unfolded sched_transaction_def]] have "body st = Inr (v, s)" by simp
  then show ?thesis using assms vs by (simp add: sched_run_def)
qed (use assms in \<open>simp add: sched_run_def\<close>)

lemma sched_run_ok:
  assumes "sched_run se body st = (r, st1)" and "\<And>v s. body st = Inr (v, s) \<Longrightarrow> sched_inv s" and "sched_inv st"
  shows "sched_inv st1"
  using sched_run_cases [OF assms(1)] assms(2,3) by blast

text \<open>
  One call of the service by anybody: a posted line arrives, an operator applies, reverses or sweeps, or a ceremony runs.
  A client of the general ledger may do anything.
\<close>

inductive sched_step :: "sched_store \<Rightarrow> sched_store \<Rightarrow> bool" where
  posted: "process_posting_event se tenant ev correlation st = (r, st1) \<Longrightarrow> sched_step st st1"
| applied: "apply_manual se tenant k amount key note v st = (a, st1) \<Longrightarrow> sched_step st st1"
| undone: "reverse_application se tenant k actor note st = (a, st1) \<Longrightarrow> sched_step st st1"
| swept: "apply_auto_fifo se tenant schedule control amount key actor st = (r, st1) \<Longrightarrow> sched_step st st1"
| divided: "split_open_item se tenant k parts key actor reason st = (c, st1) \<Longrightarrow> sched_step st st1"
| moved: "transfer_open_item se tenant k schedule control number key actor reason st = (c, st1) \<Longrightarrow> sched_step st st1"
| lost: "write_off_open_item se (client :: gl_store write_off_client) tenant k offset key actor reason st g = (c, st1, g1) \<Longrightarrow> sched_step st st1"

inductive_cases sched_stepE: "sched_step st st1"

lemma write_off_open_item_ok:
  assumes "write_off_open_item se client tenant k offset key actor reason st g = (c, st1, g1)" and "sched_inv st"
  shows "sched_inv st1"
proof (cases "st1 = st")
  case False
  then obtain r where "sched_transaction se (write_off_body se client tenant k offset key actor reason st) g = (Inr (r, st1), g1)"
    using assms(1) by (auto simp: write_off_open_item_def split: prod.splits sum.splits)
  from sched_attempts_Inr [OF this [unfolded sched_transaction_def]]
  obtain g0 where "write_off_body se client tenant k offset key actor reason st g0 = (Inr (r, st1), g1)" ..
  then show ?thesis using assms(2) by (rule write_off_ok)
qed (use assms in simp)

lemma sched_step_ok: "sched_step st st1 \<Longrightarrow> sched_inv st \<Longrightarrow> sched_inv st1"
proof (induction rule: sched_step.induct)
  case (posted se tenant ev correlation st r st1)
  then show ?case by (auto simp: process_posting_event_def split: if_splits elim!: sched_run_ok dest: posting_body_ok)
next
  case (applied se tenant k amount key n v st a st1)
  then show ?case by (auto simp: apply_manual_def elim!: sched_run_ok dest: apply_manual_ok)
next
  case (undone se tenant k actor n st a st1)
  then show ?case by (auto simp: reverse_application_def elim!: sched_run_ok dest: reverse_application_ok)
next
  case (swept se tenant schedule control amount key actor st r st1)
  then show ?case by (auto simp: apply_auto_fifo_def elim!: sched_run_ok dest: apply_auto_ok)
next
  case (divided se tenant k parts key actor reason st c st1)
  then show ?case by (auto simp: split_open_item_def elim!: sched_run_ok dest: split_ok)
next
  case (moved se tenant k schedule control number key actor reason st c st1)
  then show ?case by (auto simp: transfer_open_item_def elim!: sched_run_ok dest: transfer_ok)
next
  case (lost se client tenant k offset key actor reason st g c st1 g1)
  then show ?case by (rule write_off_open_item_ok)
qed

lemma sched_run_inv: "sched_step\<^sup>*\<^sup>* st st1 \<Longrightarrow> sched_inv st \<Longrightarrow> sched_inv st1"
  by (induction rule: rtranclp_induct) (auto dest: sched_step_ok)

end
