(* ===== verification/OpenItemPosting.thy ===== *)
theory OpenItemPosting
  imports OpenItemRuns GlBridge
begin

text \<open>
  The client by which a write-off reaches the general ledger, \<open>services/schedule-service/src/infrastructure/gl-posting-client.ts\<close>,
  on the model of that ledger's own routes: it creates a journal without an idempotency key and submits it for review.
\<close>

section \<open>The client\<close>

text \<open>The body of the creation call: the offset account is debited, the account of the item credited under its control number.\<close>

definition write_off_line :: "jstr \<Rightarrow> jsnum \<Rightarrow> jsnum \<Rightarrow> jstr \<Rightarrow> jstr option \<Rightarrow> jstr option \<Rightarrow> body_line" where
  "write_off_line code debit credit memo control apply_cd =
     \<lparr>bj_id = None, bj_code = Some code,
      bj_line = \<lparr>gi_account = [], gi_debit = debit, gi_credit = credit, gi_memo = Some memo, gi_store = None, gi_dept = None,
        gi_control = control, gi_apply_cd = apply_cd, gi_apply_number = None, gi_company = None, gi_cost = None, gi_apply_to_cost = None,
        gi_units = None, gi_tags = []\<rparr>\<rparr>"

definition write_off_journal :: "int \<Rightarrow> write_off_input \<Rightarrow> journal_body" where
  "write_off_journal now w = (let amount = number_of_decimal (wo_amount w)
     in \<lparr>bo_date = iso_time now, bo_description = wo_description w, bo_source = js ''SCHEDULE_WRITEOFF'', bo_ref = Some (take 8 (wo_key w)),
         bo_prior = None, bo_reason = None, bo_key = None, bo_entity = None, bo_execution = None, bo_pack = None, bo_pack_version = None,
         bo_event = None,
         bo_lines = [write_off_line (wo_offset w) amount (Fin 0) (wo_description w) None None,
                     write_off_line (opt_str (wo_account w)) (Fin 0) amount (wo_description w) (Some (wo_control w)) (Some (js ''#''))]\<rparr>)"

text \<open>\<open>env\<close> gives what each call meets, the identifiers it draws included.\<close>

definition post_write_off :: "http_env \<Rightarrow> (gl_store \<Rightarrow> gl_env) \<Rightarrow> jstr option \<Rightarrow> gl_store write_off_client" where
  "post_write_off hx env user tenant w st =
     (if \<not> given (wo_account w) then (Inl (js ''Cannot post write-off: schedule open item has no glAccountNumber.''), st)
      else (case create_route hx (env st) tenant user (write_off_journal (gx_now (env st)) w) st of
              (Inl bad, st1) \<Rightarrow> (Inl (js ''gl-service POST /journal-entries returned '' @ hx_answer hx bad), st1)
            | (Inr e, st1) \<Rightarrow>
                (case post_journal_entry (env st1) (gj_id e) tenant (js ''schedule-service'') st1 of
                   (Inl bad, st2) \<Rightarrow> (Inl (js ''gl-service POST /journal-entries/:id/post returned '' @ hx_answer hx bad), st2)
                 | (Inr p, st2) \<Rightarrow> (Inr (gj_id p), st2))))"

section \<open>What it leaves in the ledger\<close>

lemma create_adds:
  assumes "create_journal_entry gx dto tenant st = (Inr e, st1)" and "gc_key dto = None"
  shows "length (gl_entries st1) = length (gl_entries st) + 1"
proof -
  obtain full where r: "repository_create gx full tenant st = (Inr e, st1)" and f: "gc_key full = None"
    using assms by (auto simp: create_journal_entry_def check_entry_def bind_res_Inr split: sum.splits)
  then have "gl_create gx full tenant st = (Inr e, st1)" by (simp add: repository_create_def gl_known_def given_def)
  then obtain x where "create_tx gx full tenant st = Inr (x, st1)" using f by (auto simp: gl_create_def given_def split: sum.splits option.splits if_splits)
  then show ?thesis by (auto simp: create_tx_def bind_res_Inr Let_def insert_gl_entry_def append_audit_rows_def add_outbox_def split: if_splits)
qed

lemma submission_count: "post_journal_entry gx i tenant v st = (r, st1) \<Longrightarrow> length (gl_entries st1) = length (gl_entries st)"
  by (auto simp: post_journal_entry_def submit_read_def Let_def append_audit_rows_def add_outbox_def publish_event_def update_gl_entry_def bind_res_Inr
      update_rows_def split: option.splits if_splits sum.splits)

lemma write_off_adds:
  assumes "post_write_off hx env user tenant w st = (Inr j, st1)"
  shows "length (gl_entries st1) = length (gl_entries st) + 1"
proof -
  obtain e s p where c: "create_route hx (env st) tenant user (write_off_journal (gx_now (env st)) w) st = (Inr e, s)"
    and p: "post_journal_entry (env s) (gj_id e) tenant (js ''schedule-service'') s = (Inr p, st1)"
    using assms by (auto simp: post_write_off_def split: if_splits sum.splits prod.splits)
  obtain dto where "gc_key dto = None" "create_journal_entry (env st) dto tenant st = (Inr e, s)"
    using create_route_dto [OF c] by (auto simp: write_off_journal_def Let_def)
  then show ?thesis using create_adds submission_count [OF p] by fastforce
qed

lemma write_off_keeps_ledger: "post_write_off hx env user tenant w st = (r, st1) \<Longrightarrow> keeps_ledger st st1"
  using create_route_keeps submission_keeps
  by (fastforce simp: post_write_off_def intro: keeps_ledger_trans split: if_splits sum.splits prod.splits)


section \<open>The contract of a client\<close>

text \<open>A client keeps an invariant of the ledger it posts to; then a write-off keeps it, however often it is retried.\<close>

lemma attempts_keep: "(\<And>g. good g \<Longrightarrow> good (snd (run g))) \<Longrightarrow> good g \<Longrightarrow> good (snd (sched_attempts conflict run ns g))"
proof (induction ns arbitrary: g)
  case (Cons n ns)
  obtain r g1 where r: "run g = (r, g1)" by fastforce
  have "good g1" using Cons.prems r by (metis snd_conv)
  then show ?case using Cons r by (auto split: sum.splits)
qed simp

locale posting_client =
  fixes client :: "jstr \<Rightarrow> write_off_input \<Rightarrow> 'g \<Rightarrow> (jstr + jstr) \<times> 'g"
    and good :: "'g \<Rightarrow> bool"
  assumes client_keeps: "client tenant w g = (r, g1) \<Longrightarrow> good g \<Longrightarrow> good g1"
begin

lemma body_keeps: "good g \<Longrightarrow> good (snd (write_off_body se client tenant k offset key actor reason st g))"
  using client_keeps by (fastforce simp: write_off_body_def split: option.splits ceremony_result.splits sum.splits prod.splits)

lemma write_off_keeps:
  assumes "write_off_open_item se client tenant k offset key actor reason st g = (c, st1, g1)" and "good g"
  shows "good g1"
proof -
  have "good (snd (sched_transaction se (write_off_body se client tenant k offset key actor reason st) g))"
    unfolding sched_transaction_def by (rule attempts_keep [OF body_keeps assms(2)])
  then show ?thesis using assms(1) by (auto simp: write_off_open_item_def split: prod.splits sum.splits)
qed

end

interpretation gl_client: posting_client "post_write_off hx env user" gl_inv
  by unfold_locales (use write_off_keeps_ledger in \<open>auto simp: keeps_ledger_def\<close>)

lemma write_off_keeps_books:
  "write_off_open_item se (post_write_off hx env user) tenant k offset key actor reason st gl = (c, st1, gl1) \<Longrightarrow> gl_inv gl \<Longrightarrow> gl_inv gl1"
  by (rule gl_client.write_off_keeps)

end
