(* ===== verification/OpenItemAnswers.thy ===== *)
theory OpenItemAnswers
  imports OpenItemPosting
begin

text \<open>
  What a run of the schedule service guarantees: posted lines and ceremonies are answered once, application in order of
  age follows its reference, reversal undoes an application; and where posted relief and write-offs go astray.
\<close>

section \<open>Rows that stay\<close>

definition rows_kept :: "sched_store \<Rightarrow> sched_store \<Rightarrow> bool" where
  "rows_kept st st1 \<longleftrightarrow> (\<exists>ds cs. sc_details st1 = sc_details st @ ds \<and> sc_ceremonies st1 = sc_ceremonies st @ cs)"

lemma rows_kept_refl [simp]: "rows_kept st st"
  by (simp add: rows_kept_def)

lemma rows_kept_trans: "rows_kept st st1 \<Longrightarrow> rows_kept st1 st2 \<Longrightarrow> rows_kept st st2"
  by (force simp: rows_kept_def)

lemma rows_kept_side [simp]: "rows_kept st (add_sched_audit t ty i ac b a u c st1) = rows_kept st st1" "rows_kept st (st1\<lparr>sc_outbox := os\<rparr>) = rows_kept st st1"
  "rows_kept st (st1\<lparr>sc_applications := as\<rparr>) = rows_kept st st1"
  "rows_kept (st\<lparr>sc_applications := as\<rparr>) st1 = rows_kept st st1"
  by (simp_all add: rows_kept_def add_sched_audit_def)

lemma rows_kept_writes:
  "insert_item i st = Inr st1 \<Longrightarrow> rows_kept st st1" "update_item k f st = Inr st1 \<Longrightarrow> rows_kept st st1" "insert_detail d st = Inr st1 \<Longrightarrow> rows_kept st st1"
  "insert_application a st = Inr st1 \<Longrightarrow> rows_kept st st1" "insert_receipt u st = Inr st1 \<Longrightarrow> rows_kept st st1" "insert_ceremony c st = Inr st1 \<Longrightarrow> rows_kept st st1"
  by (auto simp: rows_kept_def insert_item_def update_item_def insert_detail_def insert_application_def insert_receipt_def insert_ceremony_def bind_res_Inr
      split: if_splits option.splits)

lemma record_application_grows: "record_application se item m a st = Inr st1 \<Longrightarrow> rows_kept st st1"
  by (auto simp: record_application_def bind_res_Inr intro: rows_kept_trans rows_kept_writes)

lemma record_ceremony_grows: "record_ceremony tenant item key actor reason action b r st = Inr (v, st1) \<Longrightarrow> rows_kept st st1"
  by (auto simp: record_ceremony_def bind_res_Inr intro: rows_kept_writes)

lemma fold_grows: "fold_res f s xs = Inr s1 \<Longrightarrow> (\<And>s x s1. f s x = Inr s1 \<Longrightarrow> rows_kept (g s) (g s1)) \<Longrightarrow> rows_kept (g s) (g s1)"
proof (induction xs arbitrary: s)
  case (Cons x xs)
  then obtain v where "f s x = Inr v" "fold_res f v xs = Inr s1" by (auto simp: bind_res_Inr)
  then show ?case using Cons.IH [of v] Cons.prems(2) rows_kept_trans by blast
qed simp

lemma sweep_grows:
  assumes "sweep_auto_application se tenant schedule control journal amount correlation st = Inr (r, st1)"
  shows "rows_kept st st1"
proof -
  obtain als s n where f: "fold_res (apply_allocation se tenant (open_items_of tenant schedule control st) journal correlation) (st, 1) als = Inr (s, n)"
    and e: "rows_kept s st1"
    using assms by (auto simp: sweep_auto_application_def Let_def bind_res_Inr simp del: fold_res.simps dest: rows_kept_writes split: if_splits)
  have "rows_kept st s" using fold_grows [OF f, of fst]
    by (force simp: apply_allocation_def bind_res_Inr dest: record_application_grows split: option.splits)
  then show ?thesis using e by (rule rows_kept_trans)
qed

lemma posting_grows:
  assumes "posting_body se tenant schedule ev correlation st = Inr (r, st1)"
  shows "rows_kept st st1"
proof (cases "st1 = st")
  case False
  then obtain s where d: "insert_detail (detail_of_event se tenant schedule ev correlation) st = Inr s"
    and w: "open_new_item se tenant schedule ev correlation s = Inr (r, st1) \<or> apply_specific se tenant schedule ev correlation s = Inr (r, st1)
      \<or> sweep_auto_application se tenant schedule (pe_control ev) (pe_journal ev) (- pe_amount ev) correlation s = Inr (r, st1)"
    using assms by (auto simp: posting_body_def bind_res_Inr split: if_splits)
  have "rows_kept s st1"
    using w by (auto simp: open_new_item_def apply_specific_def bind_res_Inr dest: rows_kept_writes record_application_grows sweep_grows
        split: list.splits option.splits)
  then show ?thesis using rows_kept_writes(3) [OF d] rows_kept_trans by blast
qed simp

lemma apply_manual_grows: "apply_manual_body se tenant k amount key n v st = Inr (a, st1) \<Longrightarrow> rows_kept st st1"
  by (auto simp: apply_manual_body_def Let_def bind_res_Inr dest!: record_application_grows split: option.splits if_splits)

lemma apply_auto_grows: "apply_auto_body se tenant schedule control amount key actor st = Inr (r, st1) \<Longrightarrow> rows_kept st st1"
  by (auto simp: apply_auto_body_def bind_res_Inr dest!: sweep_grows split: if_splits)

lemma reverse_application_grows: "reverse_application_body se tenant k actor n st = Inr (r, st1) \<Longrightarrow> rows_kept st st1"
  by (auto simp: reverse_application_body_def Let_def bind_res_Inr dest!: rows_kept_writes(2,4) intro: rows_kept_trans split: option.splits if_splits)

lemma split_grows:
  assumes "split_body se tenant k parts key actor reason st = Inr (r, st1)"
  shows "rows_kept st st1"
proof (cases "st1 = st")
  case False
  then obtain item s s2 where f: "fold_res (split_part se item key) st (zip [0..<length parts] parts) = Inr s"
    and u: "update_item k (close_item se) s = Inr s2" and g: "rows_kept s2 st1"
    using assms by (auto simp: split_body_def bind_res_Inr dest: record_ceremony_grows split: option.splits ceremony_result.splits if_splits)
  have "rows_kept st s" using fold_grows [OF f, of "\<lambda>s. s"] by (force simp: split_part_def dest: rows_kept_writes)
  then show ?thesis using rows_kept_writes(2) [OF u] g rows_kept_trans by blast
qed simp

lemma transfer_grows: "transfer_body se tenant k schedule control number key actor reason st = Inr (r, st1) \<Longrightarrow> rows_kept st st1"
  by (auto simp: transfer_body_def bind_res_Inr dest!: rows_kept_writes record_ceremony_grows intro: rows_kept_trans
      split: option.splits ceremony_result.splits if_splits)

lemma finish_write_off_grows: "finish_write_off se tenant item key actor reason journal st = Inr (r, st1) \<Longrightarrow> rows_kept st st1"
  by (auto simp: finish_write_off_def bind_res_Inr dest!: rows_kept_writes record_ceremony_grows intro: rows_kept_trans)

lemma write_off_grows: "write_off_body se client tenant k offset key actor reason st g = (Inr (r, st1), g1) \<Longrightarrow> rows_kept st st1"
  by (auto simp: write_off_body_def dest: finish_write_off_grows split: option.splits ceremony_result.splits if_splits sum.splits prod.splits)

lemma sched_run_grows:
  assumes "sched_run se body st = (r, st1)" and "\<And>v s. body st = Inr (v, s) \<Longrightarrow> rows_kept st s"
  shows "rows_kept st st1"
  using sched_run_cases [OF assms(1)] assms(2) by auto

text \<open>A write-off changes the store only as one run of its body does.\<close>

lemma write_off_cases:
  assumes "write_off_open_item se client tenant k offset key actor reason st g = (c, st1, g1)"
  shows "(\<exists>e. c = Inl e) \<and> st1 = st \<or> (\<exists>r g0. c = Inr r \<and> write_off_body se client tenant k offset key actor reason st g0 = (Inr (r, st1), g1))"
proof (cases "sched_transaction se (write_off_body se client tenant k offset key actor reason st) g")
  case (Pair v g2)
  show ?thesis
  proof (cases v)
    case (Inr rs)
    then obtain r s where rs: "v = Inr (r, s)" by (cases rs) simp
    from sched_attempts_Inr [OF Pair [unfolded sched_transaction_def rs]] show ?thesis
      using assms by (auto simp: write_off_open_item_def Pair rs)
  qed (use assms Pair in \<open>auto simp: write_off_open_item_def\<close>)
qed

lemma step_grows: "sched_step st st1 \<Longrightarrow> rows_kept st st1"
proof (induction rule: sched_step.induct)
  case (posted se tenant ev correlation st r st1)
  then show ?case by (auto simp: process_posting_event_def split: if_splits elim!: sched_run_grows dest: posting_grows)
next
  case (applied se tenant k amount key n v st a st1)
  then show ?case by (auto simp: apply_manual_def elim!: sched_run_grows dest: apply_manual_grows)
next
  case (undone se tenant k actor n st a st1)
  then show ?case by (auto simp: reverse_application_def elim!: sched_run_grows dest: reverse_application_grows)
next
  case (swept se tenant schedule control amount key actor st r st1)
  then show ?case by (auto simp: apply_auto_fifo_def elim!: sched_run_grows dest: apply_auto_grows)
next
  case (divided se tenant k parts key actor reason st c st1)
  then show ?case by (auto simp: split_open_item_def elim!: sched_run_grows dest: split_grows)
next
  case (moved se tenant k schedule control number key actor reason st c st1)
  then show ?case by (auto simp: transfer_open_item_def elim!: sched_run_grows dest: transfer_grows)
next
  case (lost se client tenant k offset key actor reason st g c st1 g1)
  then show ?case using write_off_cases [of se client tenant k offset key actor reason st g c st1 g1] write_off_grows by auto
qed

lemma run_grows: "sched_step\<^sup>*\<^sup>* st st1 \<Longrightarrow> rows_kept st st1"
  by (induction rule: rtranclp_induct) (auto dest: step_grows intro: rows_kept_trans)


section \<open>Posted lines\<close>

lemma processed_detail:
  assumes "posting_body se tenant schedule ev correlation st = Inr (r, st1)" and "r \<noteq> Skipped_schedule_not_found"
  shows "list_ex (\<lambda>d. sd_tenant d = tenant \<and> sd_correlation d = Some correlation) (sc_details st1)"
proof (cases "list_ex (\<lambda>d. sd_tenant d = tenant \<and> sd_correlation d = Some correlation) (sc_details st)")
  case True
  then show ?thesis using assms(1) by (simp add: posting_body_def)
next
  case False
  then obtain s where d: "insert_detail (detail_of_event se tenant schedule ev correlation) st = Inr s"
    and w: "open_new_item se tenant schedule ev correlation s = Inr (r, st1) \<or> apply_specific se tenant schedule ev correlation s = Inr (r, st1)
      \<or> sweep_auto_application se tenant schedule (pe_control ev) (pe_journal ev) (- pe_amount ev) correlation s = Inr (r, st1)"
    using assms by (auto simp: posting_body_def bind_res_Inr split: if_splits)
  have "rows_kept s st1"
    using w by (auto simp: open_new_item_def apply_specific_def bind_res_Inr dest: rows_kept_writes record_application_grows sweep_grows
        split: list.splits option.splits)
  moreover have "detail_of_event se tenant schedule ev correlation \<in> set (sc_details s)"
    using d by (auto simp: insert_detail_def split: if_splits)
  ultimately have "detail_of_event se tenant schedule ev correlation \<in> set (sc_details st1)" by (auto simp: rows_kept_def)
  then show ?thesis unfolding list_ex_iff by (rule bexI [rotated]) (simp add: detail_of_event_def)
qed

lemma process_cases:
  assumes "process_posting_event se tenant ev correlation st = (r, st1)"
  shows "st1 = st \<and> (r = Inr Skipped_not_scheduled \<or> (\<exists>e. r = Inl e)) \<or> (\<exists>v. r = Inr v \<and> posting_body se tenant (opt_str (pe_schedule ev)) ev correlation st = Inr (v, st1))"
proof (cases "given (pe_schedule ev)")
  case True
  let ?body = "posting_body se tenant (opt_str (pe_schedule ev)) ev correlation"
  have run: "sched_run se ?body st = (r, st1)" using assms True by (simp add: process_posting_event_def)
  show ?thesis
  proof (cases r)
    case (Inr v)
    then have "sched_transaction se (\<lambda>g. (?body st, g)) () = (Inr (v, st1), ())"
      using run by (auto simp: sched_run_def prod_eq_iff split: sum.splits)
    from sched_attempts_Inr [OF this [unfolded sched_transaction_def]] show ?thesis using Inr by simp
  qed (use run in \<open>auto simp: sched_run_def split: sum.splits\<close>)
qed (use assms in \<open>simp add: process_posting_event_def\<close>)


text \<open>
  C39: negative: a posted debit never relieves an item. Whichever item it names, no balance falls, and a debit on account
  changes no item, application or receipt: the sign of a relief is turned as if every item were opened by a debit, but
  an item a credit opened has lost its sign, so the debit that settles it is refused or raises what is open.
\<close>

lemma update_row_raises:
  assumes "sc_items st1 = update_rows (\<lambda>i. oi_id i = oi_id t) (settle se m) (sc_items st)" and "\<And>i. i \<in> set (sc_items st) \<Longrightarrow> oi_id i = oi_id t \<Longrightarrow> oi_remaining i \<le> m"
    and "i \<in> set (sc_items st1)"
  shows "\<exists>j \<in> set (sc_items st). oi_id j = oi_id i \<and> oi_remaining j \<le> oi_remaining i"
proof -
  have id: "oi_id (settle se m j) = oi_id j" for j by (simp add: settle_def Let_def)
  obtain j where j: "j \<in> set (sc_items st)" "i = (if oi_id j = oi_id t then settle se m j else j)"
    using assms(3) unfolding assms(1) set_update_rows by blast
  then show ?thesis using assms(2) id by (intro bexI [of _ j]) auto
qed

lemma debit_specific:
  assumes "apply_specific se tenant schedule ev correlation st = Inr (r, st1)" and "0 < pe_amount ev" and "sched_inv st" and "i \<in> set (sc_items st1)"
  shows "\<exists>j \<in> set (sc_items st). oi_id j = oi_id i \<and> oi_remaining j \<le> oi_remaining i"
proof (cases "st1 = st")
  case False
  then obtain t m s where f: "filter (\<lambda>i. oi_number i = opt_str (pe_apply ev)) (open_items_of tenant schedule (pe_control ev) st) = [t]"
    and m: "apply_amount (oi_original t) (oi_remaining t) (- pe_amount ev) = Some m"
    and s: "record_application se t m (application_row se (se_id se 1) t (- pe_amount ev) (pe_journal ev) correlation False None None None) st = Inr s"
    and st1: "sc_items st1 = sc_items s"
    using assms(1) by (auto simp: apply_specific_def bind_res_Inr split: list.splits option.splits)
  have "t \<in> set (filter (\<lambda>i. oi_number i = opt_str (pe_apply ev)) (open_items_of tenant schedule (pe_control ev) st))" unfolding f by simp
  then have t: "t \<in> set (sc_items st)" by (simp add: open_items_of_def)
  have d: "distinct (map oi_id (sc_items st))" using assms(3) by (simp add: ledger_ok_def)
  have u: "sc_items st1 = update_rows (\<lambda>i. oi_id i = oi_id t) (settle se m) (sc_items st)"
    using record_application_ok(2) [OF s assms(3) t] apply_amount_Some [OF m] by (simp add: st1 application_row_def)
  show ?thesis
    by (rule update_row_raises [OF u _ assms(4)]) (use same_item [OF d _ t] apply_amount_Some [OF m] assms(2) in force)
qed (use assms(4) in auto)

lemma sweep_nothing: "amount \<le> 0 \<Longrightarrow> sweep_loop is amount = Inr ([], amount)"
  by (cases "is") simp_all

theorem debit_never_relieves:
  assumes "sched_inv st" and "pe_apply_cd ev = Some (js ''#'')" and "0 < pe_amount ev"
    and "process_posting_event se tenant ev correlation st = (r, st1)"
  shows "(\<forall>i \<in> set (sc_items st1). \<exists>j \<in> set (sc_items st). oi_id j = oi_id i \<and> oi_remaining j \<le> oi_remaining i)
    \<and> (\<not> given (pe_apply ev) \<longrightarrow> sc_items st1 = sc_items st \<and> sc_applications st1 = sc_applications st \<and> sc_receipts st1 = sc_receipts st)"
proof (cases "st1 = st")
  case False
  then obtain v s where d: "insert_detail (detail_of_event se tenant (opt_str (pe_schedule ev)) ev correlation) st = Inr s"
    and w: "if given (pe_apply ev) then apply_specific se tenant (opt_str (pe_schedule ev)) ev correlation s = Inr (v, st1)
      else sweep_auto_application se tenant (opt_str (pe_schedule ev)) (pe_control ev) (pe_journal ev) (- pe_amount ev) correlation s = Inr (v, st1)"
    using process_cases [OF assms(4)] assms(2) by (auto simp: posting_body_def bind_res_Inr split: if_splits)
  have s: "sc_items s = sc_items st" "sc_applications s = sc_applications st" "sc_receipts s = sc_receipts st" "sched_inv s"
    using d assms(1) by (auto simp: insert_detail_def split: if_splits)
  show ?thesis
  proof (cases "given (pe_apply ev)")
    case True
    then show ?thesis using w debit_specific [of se tenant _ ev correlation s v st1] assms(3) s by auto
  next
    case no: False
    have "sweep_loop (oldest_first (open_items_of tenant (opt_str (pe_schedule ev)) (pe_control ev) s)) (- pe_amount ev) = Inr ([], - pe_amount ev)"
      using assms(3) by (intro sweep_nothing) simp
    then have "st1 = s" using w no assms(3) by (simp add: sweep_auto_application_def sweep_fifo_def Let_def)
    then show ?thesis using s by auto
  qed
qed auto

text \<open>The journal of a write-off has a source no row of the schedule's details can hold, so its own line never arrives.\<close>

lemma write_off_source_long: "\<not> fits_text (10, Some (js ''SCHEDULE_WRITEOFF''))"
  by code_simp

lemma write_off_line_never_lands:
  assumes "pe_source ev = Some (bo_source (write_off_journal now w))" and "process_posting_event se tenant ev correlation st = (r, st1)"
  shows "st1 = st \<and> (\<forall>v. r = Inr v \<longrightarrow> v \<in> {Skipped_not_scheduled, Skipped_schedule_not_found, Already_processed})"
proof -
  have "insert_detail (detail_of_event se tenant schedule ev correlation) st \<noteq> Inr s" for schedule s
    using assms(1) by (simp add: insert_detail_def detail_of_event_def write_off_journal_def Let_def write_off_source_long)
  then show ?thesis using process_cases [OF assms(2)] by (auto simp: posting_body_def bind_res_Inr split: if_splits)
qed

section \<open>Ceremonies\<close>

lemma update_item_side: "update_item k f st = Inr s \<Longrightarrow> sc_ceremonies s = sc_ceremonies st"
  by (auto simp: update_item_def bind_res_Inr split: option.splits)

lemma write_off_recorded:
  assumes "write_off_body se client tenant k offset key actor reason st g = (Inr (r, st1), g1)"
  shows "\<exists>c. find_ceremony tenant key st1 = Some c \<and> cy_result c = r \<and> cy_item c = k \<and> (\<exists>i j a. r = Written_off i j a)"
proof (cases "find_ceremony tenant key st")
  case None
  obtain item journal where item: "write_off_checks tenant k st = Inr item" and f: "finish_write_off se tenant item key actor reason journal st = Inr (r, st1)"
    using assms None by (auto simp: write_off_body_def split: sum.splits prod.splits)
  have id: "oi_id item = k" using item by (auto simp: write_off_checks_def bind_res_Inr split: option.splits if_splits dest: ceremony_item_known)
  obtain s where s: "sc_ceremonies s = sc_ceremonies st"
    and c: "record_ceremony tenant item key actor reason ''WRITTEN_OFF'' (balance_pair (oi_remaining item)) (Written_off (oi_id item) journal (oi_remaining item)) s = Inr (r, st1)"
    using f by (auto simp: finish_write_off_def bind_res_Inr dest: update_item_side)
  have "find_row (\<lambda>c. cy_tenant c = tenant \<and> cy_key c = key) (sc_ceremonies s) = None" using None s by (simp add: find_ceremony_def)
  then show ?thesis using c id
    by (auto simp: record_ceremony_def bind_res_Inr insert_ceremony_def find_ceremony_def add_sched_audit_def find_row_append split: if_splits)
next
  case (Some c)
  then show ?thesis using assms by (auto simp: write_off_body_def dest: sym split: ceremony_result.splits if_splits)
qed

lemma find_ceremony_grows: "rows_kept st st1 \<Longrightarrow> find_ceremony tenant key st = Some c \<Longrightarrow> find_ceremony tenant key st1 = Some c"
  by (auto simp: rows_kept_def find_ceremony_def find_row_append)

lemma attempts_pure: "(\<And>g. run g = (v, g)) \<Longrightarrow> sched_attempts conflict run ns g = (fst (sched_attempts conflict run ns g), g)"
  by (induction ns arbitrary: g) (auto split: sum.splits)

text \<open>
  C23: a write-off is answered once. After one succeeds, every later write-off of the item under its key, by whomever and at
  whatever time, changes neither the open items nor the ledger, and answers as the first did or not at all.
\<close>

theorem write_off_replayed:
  assumes "write_off_open_item se client tenant k offset key actor reason st g = (Inr r, st1, g1)"
    and "sched_step\<^sup>*\<^sup>* st1 st2"
    and "write_off_open_item se' client' tenant k offset' key actor' reason' st2 g2 = (c, st3, g3)"
  shows "st3 = st2 \<and> g3 = g2 \<and> (\<forall>v. c = Inr v \<longrightarrow> v = r)"
proof -
  obtain g0 where "write_off_body se client tenant k offset key actor reason st g0 = (Inr (r, st1), g1)"
    using write_off_cases [OF assms(1)] by auto
  from write_off_recorded [OF this] obtain d i j a
    where d: "find_ceremony tenant key st1 = Some d" "cy_result d = r" "cy_item d = k" "r = Written_off i j a" by blast
  have body: "write_off_body se' client' tenant k offset' key actor' reason' st2 g = (Inr (r, st2), g)" for g
    using find_ceremony_grows [OF run_grows [OF assms(2)] d(1)] d by (simp add: write_off_body_def)
  have "c = Inr v \<Longrightarrow> v = r" for v using write_off_cases [OF assms(3)] body by auto
  moreover have "st3 = st2" using write_off_cases [OF assms(3)] body by auto
  moreover have "g3 = g2"
  proof -
    obtain v where "sched_transaction se' (write_off_body se' client' tenant k offset' key actor' reason' st2) g2 = (v, g2)"
      using attempts_pure [OF body] unfolding sched_transaction_def by metis
    then show ?thesis using assms(3) by (auto simp: write_off_open_item_def split: sum.splits)
  qed
  ultimately show ?thesis by blast
qed

lemma record_ceremony_any:
  "record_ceremony tenant item key actor reason action b r s = Inr x \<Longrightarrow> sc_ceremonies s' = sc_ceremonies s
    \<Longrightarrow> \<exists>y. record_ceremony tenant item key actor reason action b r' s' = Inr y"
  by (auto simp: record_ceremony_def bind_res_Inr insert_ceremony_def split: if_splits)

lemma finish_write_off_any:
  assumes "finish_write_off se tenant item key actor reason j st = Inr x"
  shows "\<exists>y. finish_write_off se tenant item key actor reason j' st = Inr y"
proof -
  let ?f = "\<lambda>j i. i\<lparr>oi_applied := oi_original i, oi_remaining := 0, oi_status := IT_WRITTEN_OFF, oi_closed := Some (se_now se), oi_reason := Some reason, oi_write_off := Some j\<rparr>"
  obtain s where u: "update_item (oi_id item) (?f j) st = Inr s"
    and c: "record_ceremony tenant item key actor reason ''WRITTEN_OFF'' (balance_pair (oi_remaining item)) (Written_off (oi_id item) j (oi_remaining item)) s = Inr x"
    using assms by (auto simp: finish_write_off_def bind_res_Inr)
  have "item_columns (?f j' i) = item_columns (?f j i)" for i by (simp add: item_columns_def balance_check_def)
  then obtain s' where u': "update_item (oi_id item) (?f j') st = Inr s'"
    using u by (auto simp: update_item_def bind_res_Inr split: option.splits)
  obtain y where "record_ceremony tenant item key actor reason ''WRITTEN_OFF'' (balance_pair (oi_remaining item)) (Written_off (oi_id item) j' (oi_remaining item)) s' = Inr y"
    using record_ceremony_any [OF c] update_item_side [OF u] update_item_side [OF u'] by metis
  then show ?thesis using u' by (simp add: finish_write_off_def)
qed

text \<open>
  C40: negative: a write-off whose first commit loses a race is posted twice. The retry calls the ledger again, without an
  idempotency key, so it holds two journals and the item names only the second.
\<close>

theorem write_off_retry_posts_twice:
  assumes "find_ceremony tenant key st = None" and "write_off_checks tenant k st = Inr item"
    and "post_write_off hx env user tenant (write_off_posting item offset reason key) gl = (Inr j1, gl1)"
    and "post_write_off hx env user tenant (write_off_posting item offset reason key) gl1 = (Inr j2, gl2)"
    and "finish_write_off se tenant item key actor reason j2 st = Inr (r, st1)"
    and "se_conflict se 1" and "\<not> se_conflict se 2"
  shows "write_off_open_item se (post_write_off hx env user) tenant k offset key actor reason st gl = (Inr r, st1, gl2)
    \<and> r = Written_off k j2 (oi_remaining item) \<and> length (gl_entries gl2) = length (gl_entries gl) + 2"
proof -
  obtain x where x: "finish_write_off se tenant item key actor reason j1 st = Inr x" using finish_write_off_any [OF assms(5)] by blast
  have "oi_id item = k" using assms(2) by (auto simp: write_off_checks_def bind_res_Inr split: option.splits if_splits dest: ceremony_item_known)
  then have "r = Written_off k j2 (oi_remaining item)" using assms(5) by (auto simp: finish_write_off_def record_ceremony_def bind_res_Inr)
  moreover have "write_off_open_item se (post_write_off hx env user) tenant k offset key actor reason st gl = (Inr r, st1, gl2)"
    using assms x by (simp add: write_off_open_item_def sched_transaction_def write_off_body_def)
  ultimately show ?thesis using write_off_adds [OF assms(3)] write_off_adds [OF assms(4)] by simp
qed


section \<open>The items\<close>

text \<open>
  C7: every cent of an open item is accounted for. In whatever order posted lines, applications, reversals, sweeps, splits,
  transfers and write-offs come, an item's balance stays between nothing and its original amount, and the original
  amount is what is still open, what applications net of reversals took, what its parts carry on and what was written off.
\<close>

theorem open_items_conserved:
  assumes "sc_items st0 = []" and "sc_applications st0 = []" and "sc_ceremonies st0 = []"
    and "sched_step\<^sup>*\<^sup>* st0 st" and "i \<in> set (sc_items st)"
  shows "0 \<le> oi_remaining i \<and> oi_remaining i \<le> oi_original i \<and> oi_applied i = oi_original i - oi_remaining i
    \<and> oi_original i = oi_remaining i + applied_to (oi_id i) (sc_applications st) + parts_of (oi_id i) (sc_items st) + losses_of (oi_id i) (sc_ceremonies st)"
proof -
  have "sched_inv st0" using assms(1-3) by (simp add: ledger_ok_def)
  then have "sched_inv st" by (rule sched_run_inv [OF assms(4)])
  then have "item_ok st (\<lambda>_. 0) i" using assms(5) by (simp add: ledger_ok_def list_all_iff)
  then show ?thesis by (auto simp: item_ok_def balance_check_def)
qed

section \<open>Application by age\<close>

definition share_of :: "jstr \<Rightarrow> allocation list \<Rightarrow> int" where
  "share_of k als = sum_list (map al_amount (filter (\<lambda>al. al_item al = k) als))"

lemma share_of_simps [simp]: "share_of k [] = 0" "share_of k (al # als) = (if al_item al = k then al_amount al else 0) + share_of k als"
  by (simp_all add: share_of_def)

definition open_total :: "open_item list \<Rightarrow> int" where
  "open_total is = sum_list (map oi_remaining is)"

lemma open_total_simps [simp]: "open_total [] = 0" "open_total (i # is) = oi_remaining i + open_total is"
  by (simp_all add: open_total_def)

definition in_bounds :: "open_item \<Rightarrow> bool" where
  "in_bounds i \<longleftrightarrow> 0 \<le> oi_remaining i \<and> oi_remaining i \<le> oi_original i"

lemma open_total_nonneg: "\<forall>i \<in> set is. in_bounds i \<Longrightarrow> 0 \<le> open_total is"
  by (induction "is") (auto simp: in_bounds_def)

lemma sweep_loop_reference:
  assumes "\<forall>i \<in> set is. in_bounds i" and "distinct (map oi_id is)" and "0 \<le> r"
  shows "\<exists>als. sweep_loop is r = Inr (als, max 0 (r - open_total is)) \<and> (\<forall>al \<in> set als. al_item al \<in> oi_id ` set is)
    \<and> (\<forall>k < length is. share_of (oi_id (is ! k)) als = min (oi_remaining (is ! k)) (max 0 (r - open_total (take k is))))"
  using assms
proof (induction "is" arbitrary: r)
  case (Cons i "is")
  have i: "0 \<le> oi_remaining i" "oi_remaining i \<le> oi_original i" using Cons.prems(1) by (auto simp: in_bounds_def)
  have rest: "\<forall>i \<in> set is. in_bounds i" "distinct (map oi_id is)" "0 \<le> open_total is" "\<And>k. 0 \<le> open_total (take k is)"
    using Cons.prems open_total_nonneg [of "is"] open_total_nonneg [of "take k is" for k] by (auto dest: in_set_takeD)
  have new: "k < length is \<Longrightarrow> oi_id (is ! k) \<noteq> oi_id i" for k using Cons.prems(2) by (auto simp: image_iff) (metis nth_mem)
  have none: "share_of (oi_id i) als = 0" if "\<forall>al \<in> set als. al_item al \<in> oi_id ` set is" for als
    using that Cons.prems(2) by (induction als) auto
  show ?case
  proof (cases "r \<le> 0")
    case True
    then have "r = 0" using Cons.prems(3) by simp
    moreover have "min (oi_remaining (is ! j)) (max 0 (- oi_remaining i - open_total (take j is))) = 0" if "j < length is" for j
    proof -
      have "in_bounds (is ! j)" using rest(1) that by simp
      then show ?thesis using i(1) rest(4) [of j] by (simp add: in_bounds_def)
    qed
    ultimately show ?thesis using i rest(3) by (auto simp: less_Suc_eq_0_disj)
  next
    case False
    let ?p = "min r (oi_remaining i)"
    obtain als where als: "sweep_loop is (r - ?p) = Inr (als, max 0 (r - ?p - open_total is))" "\<forall>al \<in> set als. al_item al \<in> oi_id ` set is"
      "\<forall>k < length is. share_of (oi_id (is ! k)) als = min (oi_remaining (is ! k)) (max 0 (r - ?p - open_total (take k is)))"
      using Cons.IH [OF rest(1,2), of "r - ?p"] by auto
    have less: "max 0 (r - ?p - t) = max 0 (r - (oi_remaining i + t))" if "0 \<le> t" for t using that by auto
    show ?thesis
    proof (cases "oi_remaining i \<le> 0")
      case True
      then have "oi_remaining i = 0" using i by simp
      then show ?thesis using als False none [OF als(2)] by (auto simp: less_Suc_eq_0_disj)
    next
      case pos: False
      have a: "apply_amount (oi_original i) (oi_remaining i) ?p = Some (oi_remaining i - ?p)" using i False by (auto simp: apply_amount_def Let_def)
      let ?a = "\<lparr>al_item = oi_id i, al_amount = ?p, al_remaining = oi_remaining i - ?p, al_status = derive_status (oi_original i) (oi_remaining i - ?p)\<rparr>"
      have "sweep_loop (i # is) r = Inr (?a # als, max 0 (r - open_total (i # is)))"
        using als(1) False pos less [OF rest(3)] by (simp add: a Let_def)
      moreover have "\<forall>al \<in> set (?a # als). al_item al \<in> oi_id ` set (i # is)" using als(2) by auto
      moreover have "share_of (oi_id ((i # is) ! k)) (?a # als) = min (oi_remaining ((i # is) ! k)) (max 0 (r - open_total (take k (i # is))))"
        if "k < length (i # is)" for k
      proof (cases k)
        case 0
        then show ?thesis using none [OF als(2)] False by (simp add: min.commute)
      next
        case (Suc j)
        then show ?thesis using that als(3) new [of j] less [OF rest(4), of j] by simp
      qed
      ultimately show ?thesis by blast
    qed
  qed
qed simp


section \<open>Reversal of an application\<close>

lemma sched_run_Inr: "sched_run se body st = (Inr v, st1) \<Longrightarrow> body st = Inr (v, st1)"
proof -
  assume r: "sched_run se body st = (Inr v, st1)"
  then have "sched_transaction se (\<lambda>g. (body st, g)) () = (Inr (v, st1), ())" by (auto simp: sched_run_def prod_eq_iff split: sum.splits)
  from sched_attempts_Inr [OF this [unfolded sched_transaction_def]] show ?thesis by simp
qed

lemma insert_application_fresh:
  "insert_application a st = Inr s \<Longrightarrow> sc_applications s = sc_applications st @ [a] \<and> (\<forall>b \<in> set (sc_applications st). sa_id b \<noteq> sa_id a)"
  by (auto simp: insert_application_def list_ex_iff split: if_splits)

lemma update_twice:
  assumes "distinct (map oi_id is)" and "i \<in> set is" and "g (f i) = i" and "\<And>j. oi_id (f j) = oi_id j"
  shows "update_rows (\<lambda>j. oi_id j = oi_id i) g (update_rows (\<lambda>j. oi_id j = oi_id i) f is) = is"
  using assms
proof (induction "is")
  case (Cons x xs)
  have u: "update_rows (\<lambda>j. oi_id j = oi_id i) h xs = xs" if "oi_id x = oi_id i" for h
    using that Cons.prems(1) by (induction xs) auto
  show ?case
  proof (cases "oi_id x = oi_id i")
    case True
    then have "x = i" using same_item [OF Cons.prems(1), of x i] Cons.prems(2) by simp
    then show ?thesis using Cons.prems(3,4) u by simp
  qed (use Cons in auto)
qed simp

lemma settle_back:
  "oi_applied i = oi_original i - oi_remaining i \<Longrightarrow> derive_status (oi_original i) (oi_remaining i) = oi_status i \<Longrightarrow> oi_status i \<noteq> IT_CLOSED
    \<Longrightarrow> oi_closed i = None \<Longrightarrow> settle se (oi_remaining i) (settle se' m i) = i"
  by (cases i) (simp add: settle_def Let_def)



section \<open>A run\<close>

definition demo_se :: "string \<Rightarrow> sched_env" where
  "demo_se s = \<lparr>se_now = 7, se_id = (\<lambda>n. js s @ nat_str n), se_uuid = js s, se_conflict = (\<lambda>_. False)\<rparr>"

definition demo_schedules :: sched_store where
  "demo_schedules = \<lparr>sc_schedules = [(js ''t'', js ''10'')], sc_details = [], sc_items = [], sc_applications = [], sc_receipts = [], sc_ceremonies = [],
     sc_thresholds = [], sc_audit = [], sc_outbox = []\<rparr>"

definition demo_posting :: "int \<Rightarrow> jstr option \<Rightarrow> posting_event" where
  "demo_posting a cd = \<lparr>pe_journal = js ''je'', pe_account = Some (js ''A''), pe_schedule = Some (js ''10''), pe_control = js ''C1'', pe_amount = a,
     pe_reference = Some (js ''INV''), pe_source = Some (js ''S''), pe_date = 0, pe_description = None, pe_apply = None, pe_apply_cd = cd\<rparr>"

text \<open>An item of 1.00 is opened, 0.30 applied, the rest split into 0.50 and 0.20, and the 0.20 written off.\<close>

definition demo_opened :: sched_store where
  "demo_opened = snd (process_posting_event (demo_se ''a'') (js ''t'') (demo_posting 100 None) (js ''c1'') demo_schedules)"

definition demo_applied :: sched_store where
  "demo_applied = snd (apply_manual (demo_se ''b'') (js ''t'') (js ''a1'') 30 (js ''k1'') None None demo_opened)"

definition demo_split :: sched_store where
  "demo_split = snd (split_open_item (demo_se ''s'') (js ''t'') (js ''a1'') [50, 20] (js ''k2'') (js ''u'') (js ''r'') demo_applied)"

definition demo_client :: "gl_store write_off_client" where
  "demo_client tenant w g = (Inr (js ''je2''), g)"

definition demo_lost :: sched_store where
  "demo_lost = fst (snd (write_off_open_item (demo_se ''w'') demo_client (js ''t'') (js ''s1'') (js ''B'') (js ''k3'') (js ''u'') (js ''r'') demo_split demo_books))"

lemma demo_open_steps:
  "sched_step demo_schedules demo_opened" "sched_step demo_opened demo_applied" "sched_step demo_applied demo_split" "sched_step demo_split demo_lost"
proof -
  show "sched_step demo_schedules demo_opened" unfolding demo_opened_def by (rule sched_step.posted [OF prod.collapse [symmetric]])
  show "sched_step demo_opened demo_applied" unfolding demo_applied_def by (rule sched_step.applied [OF prod.collapse [symmetric]])
  show "sched_step demo_applied demo_split" unfolding demo_split_def by (rule sched_step.divided [OF prod.collapse [symmetric]])
  have "write_off_open_item (demo_se ''w'') demo_client (js ''t'') (js ''s1'') (js ''B'') (js ''k3'') (js ''u'') (js ''r'') demo_split demo_books
      = (fst (write_off_open_item (demo_se ''w'') demo_client (js ''t'') (js ''s1'') (js ''B'') (js ''k3'') (js ''u'') (js ''r'') demo_split demo_books), demo_lost,
         snd (snd (write_off_open_item (demo_se ''w'') demo_client (js ''t'') (js ''s1'') (js ''B'') (js ''k3'') (js ''u'') (js ''r'') demo_split demo_books)))"
    by (simp add: demo_lost_def)
  then show "sched_step demo_split demo_lost" by (rule sched_step.lost)
qed

lemma demo_open_run: "sched_step\<^sup>*\<^sup>* demo_schedules demo_lost" "sched_step\<^sup>*\<^sup>* demo_opened demo_lost"
  using demo_open_steps by (meson converse_rtranclp_into_rtranclp rtranclp.rtrancl_refl)+

lemma demo_items: "map oi_id (sc_items demo_lost) = [js ''a1'', js ''s0'', js ''s1'']" "map oi_remaining (sc_items demo_lost) = [0, 50, 0]"
  by code_simp+

theorem open_items_conserved_witness:
  "let i = sc_items demo_lost ! 0 in oi_original i = oi_remaining i + applied_to (oi_id i) (sc_applications demo_lost)
     + parts_of (oi_id i) (sc_items demo_lost) + losses_of (oi_id i) (sc_ceremonies demo_lost)"
proof -
  have "length (sc_items demo_lost) = 3" using arg_cong [OF demo_items(1), of length] by simp
  then have "sc_items demo_lost ! 0 \<in> set (sc_items demo_lost)" by simp
  from open_items_conserved [OF _ _ _ demo_open_run(1) this] show ?thesis by (simp add: demo_schedules_def Let_def)
qed


lemma demo_opened_inv: "sched_inv demo_opened"
proof -
  have "sched_inv demo_schedules" by (simp add: demo_schedules_def ledger_ok_def)
  then show ?thesis using sched_step_ok [OF demo_open_steps(1)] by blast
qed

theorem debit_never_relieves_witness:
  "let st = snd (process_posting_event (demo_se ''d'') (js ''t'') (demo_posting 100 (Some (js ''#''))) (js ''c2'') demo_opened)
   in sc_items st = sc_items demo_opened \<and> sc_applications st = sc_applications demo_opened \<and> sc_receipts st = sc_receipts demo_opened"
  using debit_never_relieves [OF demo_opened_inv _ _ prod.collapse [symmetric], of "demo_posting 100 (Some (js ''#''))" "demo_se ''d''" "js ''t''" "js ''c2''"]
  by (simp add: Let_def demo_posting_def given_def)

theorem write_off_replayed_witness:
  "let (c, st, g) = write_off_open_item (demo_se ''y'') demo_client (js ''t'') (js ''s1'') (js ''C'') (js ''k3'') (js ''v'') (js ''q'') demo_lost demo_books
   in st = demo_lost \<and> g = demo_books"
proof -
  let ?w = "write_off_open_item (demo_se ''w'') demo_client (js ''t'') (js ''s1'') (js ''B'') (js ''k3'') (js ''u'') (js ''r'') demo_split demo_books"
  have "fst ?w = Inr (Written_off (js ''s1'') (js ''je2'') 20)" by code_simp
  then have "?w = (Inr (Written_off (js ''s1'') (js ''je2'') 20), demo_lost, snd (snd ?w))" by (simp add: demo_lost_def prod_eq_iff)
  note once = write_off_replayed [OF this rtranclp.rtrancl_refl, of "demo_se ''y''" demo_client "js ''C''" "js ''v''" "js ''q''" demo_books]
  show ?thesis
    by (cases "write_off_open_item (demo_se ''y'') demo_client (js ''t'') (js ''s1'') (js ''C'') (js ''k3'') (js ''v'') (js ''q'') demo_lost demo_books")
      (use once in auto)
qed

definition demo_two :: "open_item list" where
  "demo_two = map (\<lambda>(k, d, a). (new_item (demo_se k) (js ''t'') (js ''10'') (demo_posting a None) (js ''c''))\<lparr>oi_date := Some d\<rparr>) [(''p'', 5, 400), (''q'', 3, 600)]"




section \<open>A write-off against the ledger\<close>

definition demo_hx :: http_env where
  "demo_hx = \<lparr>hx_parse_date = (\<lambda>_. Some 0), hx_uuid = (\<lambda>_. False), hx_answer = (\<lambda>_. js ''500'')\<rparr>"

definition demo_draws :: "gl_store \<Rightarrow> gl_env" where
  "demo_draws st = demo_gx\<lparr>gx_id := (case gl_entries st of [] \<Rightarrow> js ''j'' | _ \<Rightarrow> js ''k'')\<rparr>"

definition demo_loss :: write_off_input where
  "demo_loss = write_off_posting (hd (sc_items demo_opened)) (js ''B'') (js ''r'') (js ''k3'')"

definition demo_billed :: gl_store where
  "demo_billed = snd (post_write_off demo_hx demo_draws None (js ''t'') demo_loss demo_books)"

lemma demo_post_once: "fst (post_write_off demo_hx demo_draws None (js ''t'') demo_loss demo_books) = Inr (js ''j'')"
  by code_simp

lemma demo_post_again: "fst (post_write_off demo_hx demo_draws None (js ''t'') demo_loss demo_billed) = Inr (js ''k'')"
  by code_simp

lemma demo_loss_checks:
  "find_ceremony (js ''t'') (js ''k3'') demo_opened = None" "write_off_checks (js ''t'') (js ''a1'') demo_opened = Inr (hd (sc_items demo_opened))"
  "oi_remaining (hd (sc_items demo_opened)) = 100"
  "case finish_write_off ((demo_se ''w'')\<lparr>se_conflict := (\<lambda>n. n = 1)\<rparr>) (js ''t'') (hd (sc_items demo_opened)) (js ''k3'') (js ''u'') (js ''r'') (js ''k'') demo_opened
     of Inl _ \<Rightarrow> False | Inr _ \<Rightarrow> True"
  by code_simp+

theorem write_off_retry_posts_twice_witness:
  "\<exists>st gl. write_off_open_item ((demo_se ''w'')\<lparr>se_conflict := (\<lambda>n. n = 1)\<rparr>) (post_write_off demo_hx demo_draws None) (js ''t'') (js ''a1'') (js ''B'')
       (js ''k3'') (js ''u'') (js ''r'') demo_opened demo_books = (Inr (Written_off (js ''a1'') (js ''k'') 100), st, gl) \<and> length (gl_entries gl) = 2"
proof -
  obtain r st where f: "finish_write_off ((demo_se ''w'')\<lparr>se_conflict := (\<lambda>n. n = 1)\<rparr>) (js ''t'') (hd (sc_items demo_opened)) (js ''k3'') (js ''u'') (js ''r'')
      (js ''k'') demo_opened = Inr (r, st)" using demo_loss_checks(4) by (auto split: sum.splits)
  have first: "post_write_off demo_hx demo_draws None (js ''t'') (write_off_posting (hd (sc_items demo_opened)) (js ''B'') (js ''r'') (js ''k3'')) demo_books
      = (Inr (js ''j''), demo_billed)"
    using demo_post_once by (simp add: demo_billed_def prod_eq_iff flip: demo_loss_def)
  obtain gl where again: "post_write_off demo_hx demo_draws None (js ''t'') (write_off_posting (hd (sc_items demo_opened)) (js ''B'') (js ''r'') (js ''k3'')) demo_billed
      = (Inr (js ''k''), gl)"
    using demo_post_again by (metis demo_loss_def prod.collapse)
  have "length (gl_entries demo_books) = 0" by (simp add: demo_books_def)
  then show ?thesis
    using write_off_retry_posts_twice [OF demo_loss_checks(1,2) first again f] demo_loss_checks(3) by auto
qed

end
