(* ===== verification/Spec2Isabelle.thy ===== *)
theory Spec2Isabelle
  imports RulePackValidator PeriodControl FiscalService JournalSequence AnalysisCodes AccountService SourceService ReversalService PostingRuns
    GlBridge GlAnswers OpenItemAnswers
begin

text \<open>
  A verification development of the ledger core of AM-Accounting: the chart-of-accounts service
  (\<open>services/coa-service\<close>) and the general ledger (\<open>services/gl-service\<close>), with the bridge between them, and the open items of
  the schedules (\<open>services/schedule-service\<close>), a subledger the ledger's events feed.

  \<^bold>\<open>The program.\<close> The chart-of-accounts service keeps the chart, the fiscal calendar and its period control, the journal
  sources, the configuration and the analysis codes, and posts journals through one door. Its posting engine turns
  source events of the operational services into journals: an event envelope is checked, the active rule packs are
  searched for the one rule that matches, the rule's blueprint becomes balanced lines, and these go over a bridge to the
  general ledger, which creates a draft, takes it to review and, once approved, posts it to its balances and its history.
  Every event has one execution row; a failed one can be replayed. A posted line of an account that belongs to a schedule
  is announced to the schedule service, where it opens an item or relieves one; operators apply, reverse, split, transfer
  and write off items, and a write-off goes back to the general ledger as a journal.

  \<^bold>\<open>How code becomes definitions.\<close> Source files are named below relative to \<open>services/coa-service/src\<close>, those of the
  general ledger relative to \<open>services/gl-service/src\<close>, those of the schedules to \<open>services/schedule-service/src\<close>. A function of the source is a definition of the same name in lower
  case with underscores; a handler is one definition with its guards in the order of the source, taking the tables it
  reads as a record and returning the updated record. What throws returns \<open>error + value\<close>, each error class a constructor.
  A call that other calls may interleave with is cut where it commits: \<open>post_prepare\<close> and \<open>post_commit\<close>, the requests of
  the engine, and the \<open>_read\<close> parts of the general ledger, which act on a journal read before. Table constraints and
  triggers of the migrations are part of the inserts and updates. Numbers are IEEE doubles (\<open>JsNumber\<close>), texts lists of
  16-bit code units (\<open>JsString\<close>), untyped values JSON (\<open>JsValue\<close>), money columns whole cents. The clock, random identifiers,
  SHA-256, date parsing outside ISO 8601, the locale's collation, the retry decisions of the database and the other
  services are arguments of the definitions that use them.

  \<^bold>\<open>The theories.\<close>
  \<^item> \<open>Prelude\<close>, \<open>JsNumber\<close>, \<open>JsString\<close>, \<open>JsValue\<close>, \<open>Digits\<close>, \<open>CalendarDays\<close>, \<open>Outbox\<close>: what the language provides, and the helpers
    all components share (\<open>bind_res\<close>, \<open>map_res\<close>, \<open>find_row\<close>, \<open>update_rows\<close>).
  \<^item> \<open>StrictJson\<close>, \<open>EventEnvelope\<close>, \<open>Conditions\<close>, \<open>Blueprint\<close>, \<open>RulePackValidator\<close>: \<open>domain/posting-engine/*.ts\<close>, from the text
    of a rule pack to the lines of a journal. Rule selection is deterministic and characterised, the lines of a generated
    blueprint balance, and a validated pack never generates an unbalanced one.
  \<^item> \<open>RulePackService\<close> (operations) and \<open>RulePackLifecycle\<close> (runs): the pack half of
    \<open>application/posting-engine-service.ts\<close>: at most one active version of a pack, activated by a second person after a clean
    validation, contents immutable, and what an active pack posts balances.
  \<^item> \<open>PostingExecution\<close>, \<open>PostingEngine\<close> (operations), \<open>PostingSubmission\<close> (one event at a time), \<open>PostingRuns\<close> (interleaved
    requests): the event half, and \<open>posting-recovery-port.ts\<close>: dry runs predict submissions, resubmissions are answered, an
    event is submitted at most once however requests interleave or stop, a POSTED row names its journal.
  \<^item> \<open>JournalPosting\<close> (\<open>domain/journal-posting.ts\<close>), \<open>JournalSequence\<close>, \<open>PostingService\<close> with \<open>PostingMoney\<close>, \<open>PostingEffect\<close>,
    \<open>PostingLedger\<close>, \<open>PostingFailure\<close> (\<open>application/posting-service.ts\<close>), \<open>ReversalService\<close>: the rule evaluator and its
    characterisation, journal numbers, the serializable transaction and its exact effect in cents, the invariant of the
    ledger over every run (trial balance zero, balances the sums of their lines, one entry per key), what a failure
    leaves, and reversal.
  \<^item> \<open>PeriodControl\<close>, \<open>FiscalCalendar\<close>, \<open>FiscalService\<close>, \<open>AccountTree\<close>, \<open>AccountService\<close>, \<open>SourceService\<close>, \<open>AnalysisCodes\<close>,
    \<open>ConfigService\<close>: the reference data, each with the invariant its operations keep, and the behaviour of the operations.
  \<^item> \<open>GlLedger\<close> (tables, \<open>infrastructure/journal-repository.ts\<close>), \<open>GlService\<close> and \<open>GlPosting\<close> (\<open>application/gl-service.ts\<close>,
    \<open>lib/auto-post-job.ts\<close>): the operations of the general ledger. \<open>GlMoney\<close> and \<open>GlEffect\<close>: the exact effect of a posting.
    \<open>GlRuns\<close> and \<open>GlTrace\<close>: interleaved calls acting on old readings; a journal is posted once and as a whole, and the balances
    tie out to the history. \<open>GlAnswers\<close>: what single calls answer. \<open>GlNames\<close>: keys go on naming their journals.
  \<^item> \<open>GlBridge\<close>: the creation route of \<open>http/routes.ts\<close> and \<open>application/gl-posting-bridge.ts\<close>; two posts of one event return one
    journal, whatever the other callers of the ledger do between any two calls.
  \<^item> \<open>OpenItems\<close> (\<open>domain/open-item.ts\<close> and the tables) and \<open>OpenItemService\<close> (\<open>application/open-item-service.ts\<close>) of the
    schedules: every operation on the open items. \<open>OpenItemRuns\<close>: in any run every cent of an item is open, applied, passed on
    to its parts or written off. \<open>OpenItemPosting\<close>: \<open>infrastructure/gl-posting-client.ts\<close> on the routes of the general ledger.
    \<open>OpenItemAnswers\<close>: lines and write-offs are answered once, the oldest items are relieved first, reversal restores; posted
    debits never relieve, and a retried write-off is posted twice.

  \<^bold>\<open>Interfaces.\<close> \<open>status_trigger\<close> (a table guarded by a transition trigger, interpreted on the period table), \<open>allocator\<close> (a
  counter that hands out numbers, interpreted on the journal sequence) \<open>posting_door\<close> (a door whose keys name one
  journal each, interpreted on the bridge and the general ledger behind it) and \<open>posting_client\<close> (a client that keeps an invariant
  of its ledger, interpreted on the schedules' client and the general ledger). The engine itself is proved against an
  arbitrary bridge; the last interpretation says what the actual one adds.

  \<^bold>\<open>Bounds and fuel.\<close> The JSON parser recurses on fuel, and the length of the text is enough; the walk over subtrees has the
  number of accounts plus one, proved enough for any data, cycles included; the search for the shortest decimal of a
  double tries 17 digits, which always suffice. Retries are the source's: five serializable attempts, five reads after a
  failed submission. Cent arithmetic is exact where the columns can hold it: below 10 ^ 15 cents per column; beyond
  that the write is refused by the column, which is a branch of the model.

  \<^bold>\<open>Negative properties\<close> state what the code does where this is not what its comments promise; they are marked as such in their
  texts: the automatic posting job, late voids, and replays of an event under way, among others.

  \<^bold>\<open>Not modelled.\<close> HTTP decoding apart from the creation route, authentication and tenancy middleware, logging, the broker and
  its delivery, and pure read models. In the chart-of-accounts service: the draft and recurring-template work flows, the
  seeding tables, filtered list queries. In the general ledger: account maintenance, the registers of sources and
  distributions, statements and inquiries, intercompany eliminations, and the intercompany offset, whose query the database refuses;
  a retry of the account look-up in the creation route, which only repeats a read; decimals beyond 20 digits in a
  distribution. The runs of \<open>GlRuns\<close> leave out the purge of history and the ownership reset, which are modelled as operations.
  Of the schedules: their upkeep and that of their detail lines, tie-out,
  aging, statements and exceptions; due dates of open items, which no operation reads, and the check of the texts of amounts,
  which the routes make. The other services (receivables, payroll, end of month, cash, vehicles, tax and the rest) and the web application are
  not modelled: they reach the ledger core over HTTP or through events, whose treatment here does not depend on the sender.
\<close>

end
